(* ===== verification/Prelude.thy ===== *)
theory Prelude
  imports Main "HOL-Library.List_Lexorder" "HOL-Library.Product_Lexorder"
begin

text \<open>
  Shared ground of the development: Python strings as lists of code points, insertion-ordered
  dictionaries, rows of a table, dates and datetimes, actions that pass a state and may raise,
  and the interface of a machine whose steps keep an invariant.  Nothing in this theory is about
  one component; the lemmas are the ones the component theories use.
\<close>

section \<open>Lemma collections\<close>

named_theorems keeps_intros \<open>rules that derive the preservation of an invariant by an action\<close>
named_theorems run_simps \<open>equations that execute an action\<close>

section \<open>Python strings\<close>

text \<open>
  A Python \<open>str\<close> is a sequence of Unicode code points, here a list of naturals; the order on
  strings is the lexicographic order of the code points, as in Python.  \<open>u\<close> turns an Isabelle
  string literal into such a list.
\<close>

type_synonym pystr = "nat list"

definition u :: "string \<Rightarrow> pystr" where
  "u s = map of_char s"

text \<open>The code points that \<open>str.isspace\<close>, \<open>str.strip\<close> and \<open>str.split\<close> treat as white space.\<close>

definition is_space :: "nat \<Rightarrow> bool" where
  "is_space c \<longleftrightarrow> (9 \<le> c \<and> c \<le> 13) \<or> (28 \<le> c \<and> c \<le> 32) \<or> c = 133 \<or> c = 160 \<or> c = 5760
     \<or> (8192 \<le> c \<and> c \<le> 8202) \<or> c = 8232 \<or> c = 8233 \<or> c = 8239 \<or> c = 8287 \<or> c = 12288"

definition strip_by :: "(nat \<Rightarrow> bool) \<Rightarrow> pystr \<Rightarrow> pystr" where
  "strip_by p s = rev (dropWhile p (rev (dropWhile p s)))"

definition strip :: "pystr \<Rightarrow> pystr" where
  "strip s = strip_by is_space s"

text \<open>PostgreSQL's \<open>trim(column)\<close> removes the space character only.\<close>

definition sql_trim :: "pystr \<Rightarrow> pystr" where
  "sql_trim s = strip_by (\<lambda>c. c = 32) s"

definition is_blank :: "pystr \<Rightarrow> bool" where
  "is_blank s \<longleftrightarrow> strip s = []"

text \<open>\<open>str.split()\<close> without arguments: the maximal runs of characters that are no white space.\<close>

fun split_acc :: "pystr \<Rightarrow> pystr \<Rightarrow> pystr list" where
  "split_acc acc [] = (if acc = [] then [] else [acc])"
| "split_acc acc (c # cs) =
     (if is_space c then (if acc = [] then split_acc [] cs else acc # split_acc [] cs)
      else split_acc (acc @ [c]) cs)"

definition split_words :: "pystr \<Rightarrow> pystr list" where
  "split_words s = split_acc [] s"

fun join :: "pystr \<Rightarrow> pystr list \<Rightarrow> pystr" where
  "join sep [] = []"
| "join sep [w] = w"
| "join sep (w # ws) = w @ sep @ join sep ws"

text \<open>
  Case mapping of the scripts the application stores: Basic Latin, Latin-1 and Cyrillic.  Code
  points outside these blocks are left alone.  \<open>casefold\<close> differs from \<open>lower\<close> at the sharp s
  and the micro sign.
\<close>

definition lower_char :: "nat \<Rightarrow> nat" where
  "lower_char c =
     (if 65 \<le> c \<and> c \<le> 90 then c + 32
      else if 192 \<le> c \<and> c \<le> 222 \<and> c \<noteq> 215 then c + 32
      else if 1040 \<le> c \<and> c \<le> 1071 then c + 32
      else if 1024 \<le> c \<and> c \<le> 1039 then c + 80
      else c)"

definition lower :: "pystr \<Rightarrow> pystr" where
  "lower s = map lower_char s"

definition casefold_char :: "nat \<Rightarrow> nat list" where
  "casefold_char c = (if c = 223 then [115, 115] else if c = 181 then [956] else [lower_char c])"

definition casefold :: "pystr \<Rightarrow> pystr" where
  "casefold s = concat (map casefold_char s)"

fun starts_with :: "pystr \<Rightarrow> pystr \<Rightarrow> bool" where
  "starts_with [] s = True"
| "starts_with (p # ps) [] = False"
| "starts_with (p # ps) (c # cs) = (p = c \<and> starts_with ps cs)"

definition ends_with :: "pystr \<Rightarrow> pystr \<Rightarrow> bool" where
  "ends_with suf s = starts_with (rev suf) (rev s)"

fun contains :: "pystr \<Rightarrow> pystr \<Rightarrow> bool" where
  "contains pat [] = (pat = [])"
| "contains pat (c # cs) = (starts_with pat (c # cs) \<or> contains pat cs)"

text \<open>\<open>str.replace\<close> for a non-empty pattern: the leftmost non-overlapping occurrences.\<close>

function replace :: "pystr \<Rightarrow> pystr \<Rightarrow> pystr \<Rightarrow> pystr" where
  "replace pat new s =
     (case s of [] \<Rightarrow> []
      | c # cs \<Rightarrow>
          if pat \<noteq> [] \<and> starts_with pat s then new @ replace pat new (drop (length pat) s)
          else c # replace pat new cs)"
  by pat_completeness auto
termination
proof (relation "measure (\<lambda>(pat, new, s). length s)", goal_cases)
  case 1 show ?case by simp
next
  case (2 pat new s c cs)
  then show ?case by (cases pat) auto
next
  case (3 pat new s c cs)
  then show ?case by simp
qed

declare replace.simps [simp del]

text \<open>\<open>str.partition\<close> at a single character: the part before it, and the part after it if it occurs.\<close>

fun partition_at :: "nat \<Rightarrow> pystr \<Rightarrow> pystr \<times> pystr option" where
  "partition_at sep [] = ([], None)"
| "partition_at sep (c # cs) =
     (if c = sep then ([], Some cs)
      else (case partition_at sep cs of (a, b) \<Rightarrow> (c # a, b)))"

text \<open>
  The SQL operator \<open>LIKE\<close>: a percent sign matches any sequence, an underscore one character, a
  backslash takes the next character literally.  \<open>ILIKE\<close> compares without case.
\<close>

fun like :: "pystr \<Rightarrow> pystr \<Rightarrow> bool" where
  "like [] s = (s = [])"
| "like (p # ps) [] = (p = 37 \<and> like ps [])"
| "like (p # ps) (c # cs) =
     (if p = 37 then like ps (c # cs) \<or> like (p # ps) cs
      else if p = 95 then like ps cs
      else if p = 92 then (case ps of [] \<Rightarrow> False | e # es \<Rightarrow> e = c \<and> like es cs)
      else p = c \<and> like ps cs)"

declare like.simps [simp del]

definition ilike :: "pystr \<Rightarrow> pystr \<Rightarrow> bool" where
  "ilike s pattern = like (lower pattern) (lower s)"

text \<open>\<open>str\<close> of a non-negative integer.\<close>

fun str_of_nat :: "nat \<Rightarrow> pystr" where
  "str_of_nat n = (if n < 10 then [48 + n] else str_of_nat (n div 10) @ [48 + n mod 10])"

declare str_of_nat.simps [simp del]

definition str_of_int :: "int \<Rightarrow> pystr" where
  "str_of_int i = (if i < 0 then 45 # str_of_nat (nat (- i)) else str_of_nat (nat i))"

subsection \<open>Lemmas on strings\<close>

lemma strip_by_Nil_iff: "strip_by p s = [] \<longleftrightarrow> (\<forall>c \<in> set s. p c)"
proof -
  have "strip_by p s = [] \<longleftrightarrow> (\<forall>c \<in> set (dropWhile p s). p c)"
    by (simp add: strip_by_def dropWhile_eq_Nil_conv)
  also have "\<dots> \<longleftrightarrow> (\<forall>c \<in> set s. p c)"
  proof
    assume all: "\<forall>c \<in> set (dropWhile p s). p c"
    show "\<forall>c \<in> set s. p c"
    proof (cases "dropWhile p s")
      case Nil then show ?thesis by (simp add: dropWhile_eq_Nil_conv)
    next
      case (Cons c cs)
      then have "\<not> p c" by (metis hd_dropWhile list.distinct(1) list.sel(1))
      moreover have "p c" using all Cons by simp
      ultimately show ?thesis by blast
    qed
  qed (auto dest: set_dropWhileD)
  finally show ?thesis .
qed

lemma is_blank_iff: "is_blank s \<longleftrightarrow> (\<forall>c \<in> set s. is_space c)"
  by (simp add: is_blank_def strip_def strip_by_Nil_iff)

lemma sql_trim_Nil_iff: "sql_trim s = [] \<longleftrightarrow> (\<forall>c \<in> set s. c = 32)"
  by (simp add: sql_trim_def strip_by_Nil_iff)

lemma sql_blank_imp_blank: "sql_trim s = [] \<Longrightarrow> is_blank s"
  by (auto simp: sql_trim_Nil_iff is_blank_iff is_space_def)

lemma set_strip_by: "set (strip_by p s) \<subseteq> set s"
  by (auto simp: strip_by_def dest!: set_dropWhileD)

lemma dropWhile_idem: "dropWhile p (dropWhile p xs) = dropWhile p xs"
  by (induction xs) auto

lemma dropWhile_rev_hd:
  "xs \<noteq> [] \<Longrightarrow> \<not> p (hd xs) \<Longrightarrow> dropWhile p (rev (dropWhile p (rev xs))) = rev (dropWhile p (rev xs))"
proof -
  assume xs: "xs \<noteq> []" "\<not> p (hd xs)"
  let ?ys = "rev (dropWhile p (rev xs))"
  have "\<exists>zs. xs = ?ys @ zs"
    by (metis rev_append rev_rev_ident takeWhile_dropWhile_id)
  then obtain zs where zs: "xs = ?ys @ zs" by blast
  show ?thesis
  proof (cases ?ys)
    case Nil then show ?thesis by (simp only: dropWhile.simps)
  next
    case (Cons y ys)
    then have "hd xs = y" using zs by (metis append_Cons list.sel(1))
    then show ?thesis using Cons xs by simp
  qed
qed

lemma strip_by_idem [simp]: "strip_by p (strip_by p s) = strip_by p s"
proof (cases "dropWhile p s = []")
  case True
  then have "strip_by p s = []" unfolding strip_by_def by (simp del: dropWhile_eq_Nil_conv)
  then show ?thesis unfolding strip_by_def by (simp only: dropWhile.simps rev.simps)
next
  case False
  then have "\<not> p (hd (dropWhile p s))" by (rule hd_dropWhile)
  with False have "dropWhile p (strip_by p s) = strip_by p s"
    unfolding strip_by_def by (rule dropWhile_rev_hd)
  then have "strip_by p (strip_by p s) = rev (dropWhile p (rev (strip_by p s)))"
    by (simp add: strip_by_def)
  also have "\<dots> = strip_by p s" by (simp add: strip_by_def dropWhile_idem)
  finally show ?thesis .
qed

lemma strip_idem [simp]: "strip (strip s) = strip s"
  by (simp add: strip_def)

lemma starts_with_iff: "starts_with p s \<longleftrightarrow> (\<exists>t. s = p @ t)"
  by (induction p s rule: starts_with.induct) auto

lemma starts_with_append [simp]: "starts_with p (p @ t)"
  by (simp add: starts_with_iff)

lemma ends_with_iff: "ends_with suf s \<longleftrightarrow> (\<exists>t. s = t @ suf)"
proof -
  have "ends_with suf s \<longleftrightarrow> (\<exists>t. rev s = rev suf @ t)"
    by (simp add: ends_with_def starts_with_iff)
  also have "\<dots> \<longleftrightarrow> (\<exists>t. s = t @ suf)"
    by (metis rev_append rev_rev_ident)
  finally show ?thesis .
qed

lemma contains_iff: "contains pat s \<longleftrightarrow> (\<exists>a b. s = a @ pat @ b)"
proof (induction s)
  case Nil then show ?case by auto
next
  case (Cons c cs)
  have "(\<exists>a b. c # cs = a @ pat @ b) \<longleftrightarrow> (\<exists>b. c # cs = pat @ b) \<or> (\<exists>a b. cs = a @ pat @ b)"
    by (auto simp: Cons_eq_append_conv)
  then show ?case using Cons by (simp add: starts_with_iff)
qed

lemma partition_at_found: "sep \<notin> set a \<Longrightarrow> partition_at sep (a @ sep # b) = (a, Some b)"
  by (induction a) auto

lemma partition_at_None_iff: "snd (partition_at sep s) = None \<longleftrightarrow> sep \<notin> set s"
  by (induction s) (auto split: prod.splits)

lemma partition_at_Some: "partition_at sep s = (a, Some b) \<Longrightarrow> s = a @ sep # b \<and> sep \<notin> set a"
  by (induction s arbitrary: a) (auto split: if_splits prod.splits)

lemma lower_char_idem [simp]: "lower_char (lower_char c) = lower_char c"
  by (simp add: lower_char_def)

lemma lower_idem [simp]: "lower (lower s) = lower s"
  by (simp add: lower_def)

section \<open>Dictionaries and lists\<close>

text \<open>
  A Python \<open>dict\<close> keeps the order of first insertion; assigning an existing key keeps its place.
  \<open>fromkeys\<close> is \<open>dict.fromkeys\<close> read as a list of keys: the first occurrences.
\<close>

type_synonym ('k, 'v) dict = "('k \<times> 'v) list"

fun dict_set :: "'k \<Rightarrow> 'v \<Rightarrow> ('k, 'v) dict \<Rightarrow> ('k, 'v) dict" where
  "dict_set k v [] = [(k, v)]"
| "dict_set k v ((k', v') # d) = (if k' = k then (k, v) # d else (k', v') # dict_set k v d)"

definition dict_get :: "'k \<Rightarrow> ('k, 'v) dict \<Rightarrow> 'v option" where
  "dict_get k d = map_of d k"

definition fromkeys :: "'a list \<Rightarrow> 'a list" where
  "fromkeys xs = rev (remdups (rev xs))"

lemma map_of_dict_set [simp]: "map_of (dict_set k v d) = (map_of d)(k \<mapsto> v)"
  by (induction d) (auto simp: fun_eq_iff)

lemma dict_get_set [simp]: "dict_get k (dict_set k' v d) = (if k = k' then Some v else dict_get k d)"
  by (simp add: dict_get_def)

lemma keys_dict_set:
  "map fst (dict_set k v d) = (if k \<in> fst ` set d then map fst d else map fst d @ [k])"
  by (induction d) force+

lemma set_keys_dict_set [simp]: "fst ` set (dict_set k v d) = insert k (fst ` set d)"
  by (induction d rule: dict_set.induct) (simp_all add: insert_commute)

lemma distinct_dict_set [simp]: "distinct (map fst d) \<Longrightarrow> distinct (map fst (dict_set k v d))"
  by (auto simp: keys_dict_set)

lemma set_fromkeys [simp]: "set (fromkeys xs) = set xs"
  by (simp add: fromkeys_def)

lemma distinct_fromkeys [simp]: "distinct (fromkeys xs)"
  by (simp add: fromkeys_def)

lemma fromkeys_distinct: "distinct xs \<Longrightarrow> fromkeys xs = xs"
  by (simp add: fromkeys_def distinct_remdups_id)

lemma fromkeys_snoc: "fromkeys (xs @ [x]) = (if x \<in> set xs then fromkeys xs else fromkeys xs @ [x])"
  by (simp add: fromkeys_def)

lemma fromkeys_Nil [simp]: "fromkeys [] = []"
  by (simp add: fromkeys_def)

text \<open>
  Grouping into a dictionary: a loop that creates an entry at the first item of a key and extends it
  at the later ones leaves one entry per key, in the order of first appearance, built from the items
  of that key alone.
\<close>

definition grouped :: "('i \<Rightarrow> 'v) \<Rightarrow> ('i \<Rightarrow> 'v \<Rightarrow> 'v) \<Rightarrow> 'i list \<Rightarrow> 'v" where
  "grouped new add mine = foldl (\<lambda>x i. add i x) (new (hd mine)) (tl mine)"

lemma grouped_snoc:
  "grouped new add (mine @ [i]) = (if mine = [] then new i else add i (grouped new add mine))"
  by (cases mine) (simp_all add: grouped_def)

lemma dict_set_map:
  "distinct ks \<Longrightarrow> dict_set k v (map (\<lambda>j. (j, f j)) ks) =
     (if k \<in> set ks then map (\<lambda>j. (j, if j = k then v else f j)) ks else map (\<lambda>j. (j, f j)) ks @ [(k, v)])"
  by (induction ks) auto

lemma map_of_keys: "map_of (map (\<lambda>j. (j, f j)) ks) k = (if k \<in> set ks then Some (f k) else None)"
  by (induction ks) auto

lemma group_fold:
  assumes step: "\<And>acc i. step acc i =
    dict_set (key i) (case dict_get (key i) acc of None \<Rightarrow> new i | Some x \<Rightarrow> add i x) acc"
  shows "foldl step [] its =
    map (\<lambda>k. (k, grouped new add (filter (\<lambda>i. key i = k) its))) (fromkeys (map key its))"
proof (induction its rule: rev_induct)
  case (snoc i its)
  let ?g = "\<lambda>its k. grouped new add (filter (\<lambda>i. key i = k) its)"
  let ?ks = "fromkeys (map key its)"
  have other: "?g (its @ [i]) j = ?g its j" if "j \<noteq> key i" for j using that by simp
  have here: "?g (its @ [i]) (key i) = (if key i \<in> set ?ks then add i (?g its (key i)) else new i)"
    by (auto simp: grouped_snoc filter_empty_conv) (metis imageI)
  have "foldl step [] (its @ [i]) = step (map (\<lambda>k. (k, ?g its k)) ?ks) i" by (simp add: snoc)
  also have "\<dots> = map (\<lambda>k. (k, ?g (its @ [i]) k)) (fromkeys (map key (its @ [i])))"
  proof (cases "key i \<in> set ?ks")
    case True
    then have "step (map (\<lambda>k. (k, ?g its k)) ?ks) i =
        map (\<lambda>j. (j, if j = key i then add i (?g its (key i)) else ?g its j)) ?ks"
      unfolding step dict_get_def map_of_keys by (simp only: if_True option.case dict_set_map[OF distinct_fromkeys])
    also have "\<dots> = map (\<lambda>k. (k, ?g (its @ [i]) k)) ?ks"
      using here True other by (intro map_cong refl) (simp only: if_True split: if_split, metis)
    finally show ?thesis using True by (simp add: fromkeys_snoc)
  next
    case False
    then have run: "step (map (\<lambda>k. (k, ?g its k)) ?ks) i = map (\<lambda>k. (k, ?g its k)) ?ks @ [(key i, new i)]"
      unfolding step dict_get_def map_of_keys by (simp only: if_False option.case dict_set_map[OF distinct_fromkeys])
    have eq: "map (\<lambda>k. (k, ?g its k)) ?ks = map (\<lambda>k. (k, ?g (its @ [i]) k)) ?ks"
    proof (intro map_cong refl)
      fix k assume "k \<in> set ?ks"
      then have "k \<noteq> key i" using False by metis
      then show "(k, ?g its k) = (k, ?g (its @ [i]) k)" using other by simp
    qed
    have keys: "fromkeys (map key (its @ [i])) = ?ks @ [key i]" using False by (simp add: fromkeys_snoc)
    show ?thesis unfolding run keys by (simp only: map_append list.map eq here False if_False)
  qed
  finally show ?case .
qed simp

text \<open>The first row of a result, \<open>scalar_one_or_none\<close> of a query with \<open>LIMIT 1\<close>.\<close>

definition first :: "'a list \<Rightarrow> 'a option" where
  "first xs = (case xs of [] \<Rightarrow> None | x # _ \<Rightarrow> Some x)"

lemma first_simps [simp]: "first [] = None" "first (x # xs) = Some x"
  by (simp_all add: first_def)

lemma first_None_iff [simp]: "first xs = None \<longleftrightarrow> xs = []"
  by (cases xs) simp_all

lemma first_SomeD: "first xs = Some x \<Longrightarrow> x \<in> set xs"
  by (cases xs) simp_all

lemma sort_key_Nil_iff [simp]: "sort_key f xs = [] \<longleftrightarrow> xs = []"
  by (metis length_0_conv length_sort)

lemma first_sort_SomeD: "first (sort_key f xs) = Some x \<Longrightarrow> x \<in> set xs"
  by (drule first_SomeD) simp

section \<open>Tables\<close>

text \<open>
  A database table is the list of its rows.  \<open>row_by key k\<close> selects by a key column,
  \<open>update_where\<close> and \<open>delete_where\<close> are the SQL statements with a row condition.
\<close>

definition row_by :: "('r \<Rightarrow> 'k) \<Rightarrow> 'k \<Rightarrow> 'r list \<Rightarrow> 'r option" where
  "row_by key k rows = find (\<lambda>r. key r = k) rows"

definition update_where :: "('r \<Rightarrow> bool) \<Rightarrow> ('r \<Rightarrow> 'r) \<Rightarrow> 'r list \<Rightarrow> 'r list" where
  "update_where p f rows = map (\<lambda>r. if p r then f r else r) rows"

definition delete_where :: "('r \<Rightarrow> bool) \<Rightarrow> 'r list \<Rightarrow> 'r list" where
  "delete_where p rows = filter (\<lambda>r. \<not> p r) rows"

lemma row_by_None_iff: "row_by key k rows = None \<longleftrightarrow> k \<notin> key ` set rows"
  by (auto simp: row_by_def find_None_iff)

lemma row_by_SomeD: "row_by key k rows = Some r \<Longrightarrow> r \<in> set rows \<and> key r = k"
  by (auto simp: row_by_def find_Some_iff)

lemma row_by_Some_iff:
  "distinct (map key rows) \<Longrightarrow> row_by key k rows = Some r \<longleftrightarrow> r \<in> set rows \<and> key r = k"
proof
  assume d: "distinct (map key rows)" and r: "r \<in> set rows \<and> key r = k"
  then obtain r' where r': "row_by key k rows = Some r'"
    by (metis imageI not_None_eq row_by_None_iff)
  then have "r' \<in> set rows \<and> key r' = k" by (rule row_by_SomeD)
  with r d have "r' = r" by (auto simp: distinct_map inj_on_def)
  with r' show "row_by key k rows = Some r" by simp
qed (rule row_by_SomeD)

lemma set_update_where: "set (update_where p f rows) = f ` {r \<in> set rows. p r} \<union> {r \<in> set rows. \<not> p r}"
  by (auto simp: update_where_def image_iff)

lemma in_update_where:
  "r' \<in> set (update_where p f rows) \<longleftrightarrow> (\<exists>r \<in> set rows. r' = (if p r then f r else r))"
  by (auto simp: update_where_def)

lemma map_update_where: "(\<And>r. g (f r) = g r) \<Longrightarrow> map g (update_where p f rows) = map g rows"
  by (auto simp: update_where_def)

lemma image_update_where: "(\<And>r. g (f r) = g r) \<Longrightarrow> g ` set (update_where p f rows) = g ` set rows"
  by (metis list.set_map map_update_where)

lemma set_delete_where [simp]: "set (delete_where p rows) = {r \<in> set rows. \<not> p r}"
  by (simp add: delete_where_def)

lemma distinct_map_delete_where: "distinct (map g rows) \<Longrightarrow> distinct (map g (delete_where p rows))"
  by (simp add: delete_where_def distinct_map_filter)

text \<open>Deleting a row together with the rows that refer to it keeps the reference intact.\<close>

lemma cascade_delete:
  "ref ` set A \<subseteq> key ` set B \<Longrightarrow>
   ref ` set (delete_where (\<lambda>a. ref a = x) A) \<subseteq> key ` set (delete_where (\<lambda>b. key b = x) B)"
proof
  fix y assume sub: "ref ` set A \<subseteq> key ` set B" and "y \<in> ref ` set (delete_where (\<lambda>a. ref a = x) A)"
  then have "y \<noteq> x" "y \<in> key ` set B" by auto
  then show "y \<in> key ` set (delete_where (\<lambda>b. key b = x) B)" by auto
qed

lemma image_delete_where_subset: "ref ` set A \<subseteq> K \<Longrightarrow> ref ` set (delete_where p A) \<subseteq> K"
  by auto

text \<open>A unique column stays unique when the new value is free among the other rows.\<close>

lemma distinct_update_where:
  assumes "distinct (map key rows)" and "distinct (map attr rows)"
    and "s \<notin> attr ` {r \<in> set rows. key r \<noteq> i}" and "\<And>r. attr (g r) = s"
  shows "distinct (map attr (update_where (\<lambda>r. key r = i) g rows))"
proof -
  have "inj_on (\<lambda>r. attr (if key r = i then g r else r)) (set rows)"
  proof (rule inj_onI)
    fix x y
    assume xy: "x \<in> set rows" "y \<in> set rows"
      and eq: "attr (if key x = i then g x else x) = attr (if key y = i then g y else y)"
    have "key x = key y \<Longrightarrow> x = y" "attr x = attr y \<Longrightarrow> x = y"
      using assms(1,2) xy by (auto simp: distinct_map inj_on_def)
    then show "x = y" using eq xy assms(3,4) by (auto split: if_splits)
  qed
  then have "distinct (map (\<lambda>r. attr (if key r = i then g r else r)) rows)"
    using assms(1) by (simp add: distinct_map)
  then show ?thesis by (simp add: update_where_def comp_def)
qed

section \<open>Dates and datetimes\<close>

text \<open>
  A datetime is the number of microseconds since the epoch in UTC, a date the number of days;
  \<open>time.min\<close> and \<open>time.max\<close> are the first and the last microsecond of the day.
\<close>

type_synonym datetime = int
type_synonym date = int

definition day_us :: int where
  "day_us = 86400000000"

definition date_of :: "datetime \<Rightarrow> date" where
  "date_of t = t div day_us"

definition date_start :: "date \<Rightarrow> datetime" where
  "date_start d = d * day_us"

definition date_end :: "date \<Rightarrow> datetime" where
  "date_end d = d * day_us + (day_us - 1)"

lemma date_of_bounds: "date_start d \<le> t \<and> t \<le> date_end d \<longleftrightarrow> date_of t = d"
proof -
  have "date_of t = d \<longleftrightarrow> d * day_us \<le> t \<and> t < (d + 1) * day_us"
    unfolding date_of_def day_us_def by (auto simp: algebra_simps)
  then show ?thesis by (auto simp: date_start_def date_end_def algebra_simps)
qed

text \<open>\<open>desc().nullslast()\<close> as a key that is sorted in ascending order.\<close>

definition desc_nulls_last :: "datetime option \<Rightarrow> nat \<times> int" where
  "desc_nulls_last t = (case t of Some v \<Rightarrow> (0, - v) | None \<Rightarrow> (1, 0))"

section \<open>Actions\<close>

text \<open>
  A method is a function from the state to an outcome, an error or a value, and the state it
  leaves behind.  Raising does not undo what was done before: \<open>transactional\<close> does, as the
  rollback of the request's database session.
\<close>

type_synonym ('e, 's, 'a) action = "'s \<Rightarrow> ('e + 'a) \<times> 's"

definition ret :: "'a \<Rightarrow> ('e, 's, 'a) action" where
  "ret a = (\<lambda>s. (Inr a, s))"

definition raise :: "'e \<Rightarrow> ('e, 's, 'a) action" where
  "raise e = (\<lambda>s. (Inl e, s))"

definition bind :: "('e, 's, 'a) action \<Rightarrow> ('a \<Rightarrow> ('e, 's, 'b) action) \<Rightarrow> ('e, 's, 'b) action" where
  "bind m f = (\<lambda>s. case m s of (Inl e, s') \<Rightarrow> (Inl e, s') | (Inr a, s') \<Rightarrow> f a s')"

definition gets :: "('s \<Rightarrow> 'a) \<Rightarrow> ('e, 's, 'a) action" where
  "gets f = (\<lambda>s. (Inr (f s), s))"

definition modify :: "('s \<Rightarrow> 's) \<Rightarrow> ('e, 's, unit) action" where
  "modify f = (\<lambda>s. (Inr (), f s))"

definition lift :: "'e + 'a \<Rightarrow> ('e, 's, 'a) action" where
  "lift r = (\<lambda>s. (r, s))"

definition ensure :: "bool \<Rightarrow> 'e \<Rightarrow> ('e, 's, unit) action" where
  "ensure c e = (if c then ret () else raise e)"

definition when_do :: "bool \<Rightarrow> ('e, 's, unit) action \<Rightarrow> ('e, 's, unit) action" where
  "when_do c m = (if c then m else ret ())"

fun for_each :: "'a list \<Rightarrow> ('a \<Rightarrow> ('e, 's, unit) action) \<Rightarrow> ('e, 's, unit) action" where
  "for_each [] f = ret ()"
| "for_each (x # xs) f = bind (f x) (\<lambda>_. for_each xs f)"

text \<open>\<open>attempt m\<close> is the body of a \<open>try\<close>: its outcome becomes a value that the handlers inspect.\<close>

definition attempt :: "('e, 's, 'a) action \<Rightarrow> ('e, 's, 'e + 'a) action" where
  "attempt m = (\<lambda>s. case m s of (r, s') \<Rightarrow> (Inr r, s'))"

definition transactional :: "('e, 's, 'a) action \<Rightarrow> ('e, 's, 'a) action" where
  "transactional m = (\<lambda>s. case m s of (Inl e, s') \<Rightarrow> (Inl e, s) | (Inr a, s') \<Rightarrow> (Inr a, s'))"

lemmas action_defs = ret_def raise_def bind_def gets_def modify_def lift_def ensure_def when_do_def

lemma run_ret [run_simps]: "ret a s = (Inr a, s)"
  by (simp add: ret_def)

lemma run_raise [run_simps]: "raise e s = (Inl e, s)"
  by (simp add: raise_def)

lemma run_gets [run_simps]: "gets f s = (Inr (f s), s)"
  by (simp add: gets_def)

lemma run_modify [run_simps]: "modify f s = (Inr (), f s)"
  by (simp add: modify_def)

lemma run_lift [run_simps]: "lift r s = (r, s)"
  by (simp add: lift_def)

lemma run_ensure [run_simps]: "ensure c e s = (if c then (Inr (), s) else (Inl e, s))"
  by (simp add: ensure_def ret_def raise_def)

lemma run_when_do [run_simps]: "when_do c m s = (if c then m s else (Inr (), s))"
  by (simp add: when_do_def ret_def)

lemma run_bind [run_simps]:
  "bind m f s = (case m s of (Inl e, s') \<Rightarrow> (Inl e, s') | (Inr a, s') \<Rightarrow> f a s')"
  by (simp add: bind_def)

lemma run_attempt [run_simps]: "attempt m s = (Inr (fst (m s)), snd (m s))"
  by (simp add: attempt_def split: prod.split)

lemma run_for_each [run_simps]:
  "for_each [] f s = (Inr (), s)"
  "for_each (x # xs) f s = (case f x s of (Inl e, s') \<Rightarrow> (Inl e, s') | (Inr a, s') \<Rightarrow> for_each xs f s')"
  by (simp_all add: run_simps)

lemma bind_ret_left [simp]: "bind (ret a) f = f a"
  by (simp add: fun_eq_iff run_simps)

lemma bind_ret_right [simp]: "bind m ret = m"
  by (auto simp: fun_eq_iff run_simps split: prod.split sum.split)

lemma bind_assoc: "bind (bind m f) g = bind m (\<lambda>a. bind (f a) g)"
  by (auto simp: fun_eq_iff run_simps split: prod.split sum.split)

lemma bind_InrE:
  assumes "bind m f s = (Inr b, s'')"
  obtains a s' where "m s = (Inr a, s')" and "f a s' = (Inr b, s'')"
  using assms by (auto simp: run_simps split: prod.splits sum.splits)

lemma run_transactional [run_simps]:
  "transactional m s = (case m s of (Inl e, s') \<Rightarrow> (Inl e, s) | (Inr a, s') \<Rightarrow> (Inr a, s'))"
  by (simp add: transactional_def)

lemma transactional_failure: "fst (transactional m s) = Inl e \<Longrightarrow> snd (transactional m s) = s"
  by (auto simp: run_simps split: prod.splits sum.splits)

lemma transactional_outcome: "fst (transactional m s) = fst (m s)"
  by (auto simp: run_simps split: prod.splits sum.splits)

subsection \<open>Values that may be missing\<close>

text \<open>\<open>require e x\<close> raises \<open>e\<close> for \<open>None\<close>; \<open>all_or_error\<close> is a comprehension whose elements may raise.\<close>

definition require :: "'e \<Rightarrow> 'a option \<Rightarrow> 'e + 'a" where
  "require e x = (case x of None \<Rightarrow> Inl e | Some a \<Rightarrow> Inr a)"

fun all_or_error :: "('e + 'a) list \<Rightarrow> 'e + 'a list" where
  "all_or_error [] = Inr []"
| "all_or_error (x # xs) =
     (case x of Inl e \<Rightarrow> Inl e
      | Inr a \<Rightarrow> (case all_or_error xs of Inl e \<Rightarrow> Inl e | Inr as \<Rightarrow> Inr (a # as)))"

lemma all_or_error_map_Inr [simp]: "all_or_error (map Inr ys) = Inr ys"
  by (induction ys) simp_all

lemma all_or_error_Inr: "all_or_error xs = Inr ys \<longleftrightarrow> xs = map Inr ys"
proof
  show "all_or_error xs = Inr ys \<Longrightarrow> xs = map Inr ys"
    by (induction xs arbitrary: ys) (auto split: sum.splits)
qed simp

lemma all_or_error_total: "(\<And>x. x \<in> set xs \<Longrightarrow> f x = Inr (g x)) \<Longrightarrow> all_or_error (map f xs) = Inr (map g xs)"
  by (simp add: all_or_error_Inr)

lemma require_found: "k \<in> key ` set rows \<Longrightarrow> \<exists>r. require e (row_by key k rows) = Inr r"
  by (cases "row_by key k rows") (auto simp: require_def row_by_None_iff)

subsection \<open>Preservation\<close>

text \<open>
  \<open>keeps I m\<close>: whatever the outcome, the action leaves a state with the invariant when it starts
  in one.  The rules follow the structure of an action; \<open>keeps_bind\<close> gives the continuation the
  facts that the value was computed from.
\<close>

definition keeps :: "('s \<Rightarrow> bool) \<Rightarrow> ('e, 's, 'a) action \<Rightarrow> bool" where
  "keeps I m \<longleftrightarrow> (\<forall>s. I s \<longrightarrow> I (snd (m s)))"

lemma keepsI: "(\<And>s. I s \<Longrightarrow> I (snd (m s))) \<Longrightarrow> keeps I m"
  by (simp add: keeps_def)

lemma keepsD: "keeps I m \<Longrightarrow> I s \<Longrightarrow> I (snd (m s))"
  by (simp add: keeps_def)

lemma keeps_ret [keeps_intros]: "keeps I (ret a)"
  by (simp add: keeps_def run_simps)

lemma keeps_raise [keeps_intros]: "keeps I (raise e)"
  by (simp add: keeps_def run_simps)

lemma keeps_gets [keeps_intros]: "keeps I (gets f)"
  by (simp add: keeps_def run_simps)

lemma keeps_lift [keeps_intros]: "keeps I (lift r)"
  by (simp add: keeps_def run_simps)

lemma keeps_ensure [keeps_intros]: "keeps I (ensure c e)"
  by (simp add: keeps_def run_simps)

lemma keeps_when_do [keeps_intros]: "(c \<Longrightarrow> keeps I m) \<Longrightarrow> keeps I (when_do c m)"
  by (simp add: keeps_def run_simps)

lemma keeps_bind [keeps_intros]:
  "keeps I m \<Longrightarrow> (\<And>a. keeps I (f a)) \<Longrightarrow> keeps I (bind m f)"
  by (fastforce simp: keeps_def run_simps split: prod.split sum.split)

lemma keeps_if [keeps_intros]:
  "(c \<Longrightarrow> keeps I m) \<Longrightarrow> (\<not> c \<Longrightarrow> keeps I n) \<Longrightarrow> keeps I (if c then m else n)"
  by simp

lemma keeps_for_each [keeps_intros]: "(\<And>x. x \<in> set xs \<Longrightarrow> keeps I (f x)) \<Longrightarrow> keeps I (for_each xs f)"
  by (induction xs) (auto intro!: keeps_intros)

lemma keeps_attempt [keeps_intros]: "keeps I m \<Longrightarrow> keeps I (attempt m)"
  by (simp add: keeps_def run_simps)

lemma keeps_case_sum [keeps_intros]:
  "(\<And>e. keeps I (f e)) \<Longrightarrow> (\<And>a. keeps I (g a)) \<Longrightarrow> keeps I (case r of Inl e \<Rightarrow> f e | Inr a \<Rightarrow> g a)"
  by (cases r) auto

lemma keeps_case_option [keeps_intros]:
  "(x = None \<Longrightarrow> keeps I m) \<Longrightarrow> (\<And>a. x = Some a \<Longrightarrow> keeps I (f a)) \<Longrightarrow>
   keeps I (case x of None \<Rightarrow> m | Some a \<Rightarrow> f a)"
  by (cases x) auto

lemma keeps_modify: "(\<And>s. I s \<Longrightarrow> I (f s)) \<Longrightarrow> keeps I (modify f)"
  by (simp add: keeps_def run_simps)

lemma keeps_transactional [keeps_intros]: "keeps I m \<Longrightarrow> keeps I (transactional m)"
  by (fastforce simp: keeps_def run_simps split: prod.split sum.split)

text \<open>A transaction keeps an invariant as soon as its successful runs do.\<close>

lemma keeps_transactional_success:
  "(\<And>s a s'. I s \<Longrightarrow> m s = (Inr a, s') \<Longrightarrow> I s') \<Longrightarrow> keeps I (transactional m)"
  by (fastforce simp: keeps_def run_simps split: prod.split sum.split)

section \<open>Machines\<close>

text \<open>
  The interface of a component whose requests run one after the other: an initial state, a step
  relation, and an invariant that holds at the start and that every step keeps.  Then it holds in
  every reachable state.
\<close>

locale machine =
  fixes init :: "'s \<Rightarrow> bool"
    and step :: "'s \<Rightarrow> 's \<Rightarrow> bool"
    and inv :: "'s \<Rightarrow> bool"
  assumes init_inv: "init s \<Longrightarrow> inv s"
    and step_inv: "step s t \<Longrightarrow> inv s \<Longrightarrow> inv t"
begin

lemma steps_inv: "step\<^sup>*\<^sup>* s t \<Longrightarrow> inv s \<Longrightarrow> inv t"
  by (induction rule: rtranclp_induct) (auto intro: step_inv)

lemma reachable_inv: "init s \<Longrightarrow> step\<^sup>*\<^sup>* s t \<Longrightarrow> inv t"
  by (blast intro: init_inv steps_inv)

end

end
