(* ===== verification/Identity.thy ===== *)
theory Identity
  imports Prelude
begin

text \<open>
  The definitions every use case shares: the enumerations of \<open>core/enums.py\<close> and
  \<open>core/i18n/enums.py\<close>, the roles and the publication guard of \<open>core/identity.py\<close>, and the
  exceptions of \<open>core/exceptions.py\<close> and of the \<open>exceptions.py\<close> of each component.
\<close>

section \<open>Enumerations\<close>

datatype publish_status = DRAFT | PUBLISHED

datatype language = RU | EN

definition localized :: "language \<Rightarrow> 'a \<Rightarrow> 'a \<Rightarrow> 'a" where
  "localized lang ru en = (if lang = RU then ru else en)"

fun publish_status_value :: "publish_status \<Rightarrow> pystr" where
  "publish_status_value DRAFT = u ''Draft''"
| "publish_status_value PUBLISHED = u ''Published''"

fun publish_status_name :: "publish_status \<Rightarrow> pystr" where
  "publish_status_name DRAFT = u ''DRAFT''"
| "publish_status_name PUBLISHED = u ''PUBLISHED''"

definition publish_statuses_all :: "publish_status list" where
  "publish_statuses_all = [DRAFT, PUBLISHED]"

text \<open>\<open>BaseEnum.from_value\<close>: the first member with that value, a \<open>ValueError\<close> if there is none.\<close>

definition from_value :: "'e list \<Rightarrow> ('e \<Rightarrow> pystr) \<Rightarrow> pystr \<Rightarrow> 'e option" where
  "from_value members value v = find (\<lambda>m. value m = v) members"

text \<open>
  \<open>PublishStatusEnum.from_storage_value\<close> of a string: by value, and by member name when the value
  is unknown; \<open>None\<close> is the \<open>KeyError\<close> of the last lookup.
\<close>

definition from_storage_value :: "pystr \<Rightarrow> publish_status option" where
  "from_storage_value v =
     (case from_value publish_statuses_all publish_status_value v of
        Some m \<Rightarrow> Some m
      | None \<Rightarrow> from_value publish_statuses_all publish_status_name v)"

section \<open>Exceptions\<close>

datatype missing_field =
    MF_SLUG | MF_GRADE | MF_QUESTION_RU | MF_QUESTION_EN | MF_ANSWER_RU | MF_ANSWER_EN
  | MF_INTERVIEW_ANSWER_EXPLANATION_RU | MF_INTERVIEW_ANSWER_EXPLANATION_EN

record import_issue =
  ii_message :: pystr
  ii_row_number :: "int option"

definition attr_name :: "import_issue \<Rightarrow> pystr" where
  "attr_name i =
     (case ii_row_number i of
        None \<Rightarrow> u ''file''
      | Some n \<Rightarrow> u ''file.row.'' @ str_of_int n)"

text \<open>Constraints of the database schema whose violation the code can meet.\<close>

datatype db_constraint =
    PrimaryKey
  | ArticleSlugUniq | ArticleFolderKeyLowerUniq | TagSlugUniq | ArticleTagUniq
  | FolderForeignKey | CoverFileForeignKey | UsageFileForeignKey | TagForeignKey
  | FileNamespacePathUniq | FileReferenced
  | ArticleForeignKey
  | SheetKeyUniq | SectionNameUniq | SubsectionNameUniq
  | ItemSheetSlugUniq | ItemSubsectionForeignKey | ItemSheetForeignKey
  | ResourceItemUniq | ResourceForeignKey | StructureReferenced

datatype error =
    EntryNotFoundError
  | UnauthorizedError
  | ForbiddenError
  | ValueError
  | TypeError
  | KeyError
  | IndexError
  | AttributeError
  | ZeroDivisionError
  | CsvError
  | BotoCoreError
  | DataError pystr
  | NamespaceNotAllowedError pystr
  | IntegrityError db_constraint
  | CompetencyMatrixItemNotFoundError
  | CompetencyMatrixItemConflictError
  | CompetencyMatrixStructureNotFoundError
  | CompetencyMatrixStructureAlreadyExistsError
  | CompetencyMatrixStructureContainsQuestionsError
  | CompetencyMatrixStructurePriorityInvalidError
  | CompetencyMatrixItemNotPublicReadyError "missing_field list"
  | QueuedCompetencyMatrixQuestionNotFoundError
  | QuestionSuggestionQuotaExceededError
  | QuestionSuggestionAlreadyExistsError
  | QuestionSuggestionSheetUnavailableError
  | QuestionQueueImportInvalidError "import_issue list"
  | ArticleNotFoundError
  | TagNotFoundError
  | ArticleFolderNotFoundError
  | ArticleFolderAlreadyExistsError
  | ArticleFolderPriorityInvalidError
  | ArticleFolderInUseError
  | ContentTypeNotAllowedError pystr
  | FileSizeTooLargeError int int
  | FilePurposeNotAllowedError
  | FileNameInvalidError
  | FileImageOptimizationError
  | FileClientInternalError pystr
  | FileInUseError
  | CacheWarmOperationNotFoundError
  | ValidationError
  | InvalidFileDataError
  | ImproperlyConfiguredException
  | TaskError pystr

text \<open>The subclasses of \<open>EntryNotFoundError\<close>.\<close>

fun is_entry_not_found :: "error \<Rightarrow> bool" where
  "is_entry_not_found EntryNotFoundError = True"
| "is_entry_not_found CompetencyMatrixItemNotFoundError = True"
| "is_entry_not_found CompetencyMatrixStructureNotFoundError = True"
| "is_entry_not_found QueuedCompetencyMatrixQuestionNotFoundError = True"
| "is_entry_not_found ArticleNotFoundError = True"
| "is_entry_not_found TagNotFoundError = True"
| "is_entry_not_found ArticleFolderNotFoundError = True"
| "is_entry_not_found CacheWarmOperationNotFoundError = True"
| "is_entry_not_found _ = False"

fun is_file_client_internal_error :: "error \<Rightarrow> bool" where
  "is_file_client_internal_error (FileClientInternalError _) = True"
| "is_file_client_internal_error _ = False"

section \<open>Roles and the publication guard\<close>

datatype role = ANON | USER | MODERATOR | ADMIN | OWNER

record user_identity =
  username :: pystr
  role :: role

definition is_anon :: "user_identity \<Rightarrow> bool" where
  "is_anon i \<longleftrightarrow> role i = ANON"

definition is_owner :: "user_identity \<Rightarrow> bool" where
  "is_owner i \<longleftrightarrow> role i = OWNER"

definition is_admin :: "user_identity \<Rightarrow> bool" where
  "is_admin i \<longleftrightarrow> role i = ADMIN"

definition can_manage_content :: "user_identity \<Rightarrow> bool" where
  "can_manage_content i \<longleftrightarrow> role i \<in> {OWNER, ADMIN, MODERATOR}"

definition can_manage_team :: "user_identity \<Rightarrow> bool" where
  "can_manage_team i \<longleftrightarrow> role i \<in> {OWNER, ADMIN}"

definition anonymous :: user_identity where
  "anonymous = \<lparr>username = u ''anonymous'', role = ANON\<rparr>"

record publication_access =
  allowed :: bool

definition ensure_allowed ::
  "publication_access \<Rightarrow> publish_status list \<Rightarrow> (error, 's, unit) action" where
  "ensure_allowed pub statuses =
     (if \<not> allowed pub \<and> PUBLISHED \<in> set statuses then raise ForbiddenError else ret ())"

lemma run_ensure_allowed [run_simps]:
  "ensure_allowed pub statuses s =
     (if \<not> allowed pub \<and> PUBLISHED \<in> set statuses then (Inl ForbiddenError, s) else (Inr (), s))"
  by (simp add: ensure_allowed_def run_simps)

lemma keeps_ensure_allowed [keeps_intros]: "keeps I (ensure_allowed pub statuses)"
  by (simp add: keeps_def run_simps)

lemma from_storage_value_value: "from_storage_value (publish_status_value p) = Some p"
  by (cases p) (simp_all add: from_storage_value_def from_value_def publish_statuses_all_def u_def)

lemma from_storage_value_name: "from_storage_value (publish_status_name p) = Some p"
  by (cases p) (simp_all add: from_storage_value_def from_value_def publish_statuses_all_def u_def)

text \<open>Whichever of its two spellings the database returns, the value or the member name of a
  publish status, reading it back gives that status, and no other string is accepted.\<close>

theorem publish_status_storage_roundtrip:
  "from_storage_value v = Some p \<longleftrightarrow> v = publish_status_value p \<or> v = publish_status_name p"
proof
  assume "v = publish_status_value p \<or> v = publish_status_name p"
  then show "from_storage_value v = Some p"
    using from_storage_value_value from_storage_value_name by blast
qed (auto simp: from_storage_value_def from_value_def publish_statuses_all_def
       split: option.splits if_splits)

end
