(* ===== verification/Database.thy ===== *)
theory Database
  imports Identity
begin

text \<open>
  The persistent state: one record per table of \<open>infra/postgresql/models\<close>, the database as the
  record of the tables, and the values that come from outside a request (the clock, generated
  identifiers, hashes, object-storage URLs) as the environment record \<open>env\<close>.  Surrogate keys of
  link and counter tables, which no code reads, are left out.
\<close>

section \<open>Enumerations stored in columns\<close>

datatype file_purpose = ARTICLE_CONTENT_IMAGE | ARTICLE_COVER_IMAGE | ATTACHMENT

datatype reaction_kind = HEART | FIRE | THINKING | NEUTRAL | POOP

datatype view_source =
  SRC_DIRECT | SRC_INTERNAL | SRC_SEARCH | SRC_SOCIAL | SRC_EXTERNAL | SRC_UNKNOWN

datatype analytics_kind = KIND_ARTICLES | KIND_MATRIX | KIND_SITE | KIND_SUGGESTIONS

datatype grade = JUNIOR | JUNIOR_PLUS | MIDDLE | MIDDLE_PLUS | SENIOR

datatype interview_frequency = CONSTANTLY | OFTEN | RARELY | NEVER_SEEN

section \<open>Files\<close>

record stored_file =
  sf_id :: pystr
  sf_purpose :: file_purpose
  sf_namespace :: pystr
  sf_relative_path :: pystr
  sf_mime_type :: pystr
  sf_size_bytes :: int
  sf_name :: pystr
  sf_original_name :: pystr
  sf_original_sha256 :: "pystr option"
  sf_orphaned_at :: "datetime option"
  sf_created_at :: datetime
  sf_updated_at :: datetime

section \<open>Articles\<close>

record article_folder =
  fo_id :: pystr
  fo_key :: pystr
  fo_name_ru :: pystr
  fo_name_en :: pystr
  fo_priority :: int

record tag =
  tg_id :: pystr
  tg_name_ru :: pystr
  tg_name_en :: pystr
  tg_slug :: pystr

record article_model =
  am_id :: pystr
  am_title_ru :: pystr
  am_title_en :: pystr
  am_content_ru :: pystr
  am_content_en :: pystr
  am_slug :: pystr
  am_folder_id :: pystr
  am_author_username :: pystr
  am_seo_title_ru :: "pystr option"
  am_seo_title_en :: "pystr option"
  am_seo_description_ru :: "pystr option"
  am_seo_description_en :: "pystr option"
  am_cover_image_file_id :: "pystr option"
  am_cover_image_alt_ru :: "pystr option"
  am_cover_image_alt_en :: "pystr option"
  am_published_at :: "datetime option"
  am_publish_status :: publish_status
  am_created_at :: datetime
  am_updated_at :: datetime

record article_tag_link =
  atl_article_id :: pystr
  atl_tag_id :: pystr

record article_file_usage =
  afu_article_id :: pystr
  afu_file_id :: pystr
  afu_usage :: file_purpose

record article_daily =
  ad_article_id :: pystr
  ad_date :: date
  ad_source_category :: view_source
  ad_view_count :: int
  ad_engaged_view_count :: int

record article_reaction =
  ar_article_id :: pystr
  ar_voter_hash :: pystr
  ar_reaction_kind :: reaction_kind

section \<open>Analytics\<close>

record analytics_daily =
  an_date :: date
  an_kind :: analytics_kind
  an_target_id :: pystr
  an_source :: view_source
  an_views :: int
  an_engaged :: int
  an_reactions :: int
  an_suggestions :: int
  an_visitors :: int

record analytics_receipt =
  rc_date :: date
  rc_scope :: pystr
  rc_digest :: pystr
  rc_source :: view_source
  rc_engaged :: bool

section \<open>Competency matrix\<close>

record external_resource =
  er_id :: pystr
  er_name_ru :: pystr
  er_name_en :: pystr
  er_url :: pystr

record sheet_model =
  sh_id :: pystr
  sh_key :: pystr
  sh_name_ru :: pystr
  sh_name_en :: pystr
  sh_priority :: int

record section_model =
  se_id :: pystr
  se_sheet_id :: pystr
  se_name_ru :: pystr
  se_name_en :: pystr
  se_priority :: int

record subsection_model =
  su_id :: pystr
  su_section_id :: pystr
  su_name_ru :: pystr
  su_name_en :: pystr
  su_priority :: int

record item_model =
  im_id :: pystr
  im_slug :: pystr
  im_sheet_id :: pystr
  im_question_ru :: pystr
  im_question_en :: pystr
  im_question_ru_fingerprint :: pystr
  im_question_en_fingerprint :: pystr
  im_answer_ru :: pystr
  im_answer_en :: pystr
  im_explanation_ru :: pystr
  im_explanation_en :: pystr
  im_subsection_id :: pystr
  im_grade :: "grade option"
  im_interview_frequency :: "interview_frequency option"
  im_suggested_by_username :: pystr
  im_published_at :: "datetime option"
  im_publish_status :: publish_status

record resource_link =
  rl_item_id :: pystr
  rl_resource_id :: pystr
  rl_context_ru :: pystr
  rl_context_en :: pystr

record queued_question_model =
  qm_id :: pystr
  qm_question :: pystr
  qm_question_fingerprint :: pystr
  qm_grade :: "grade option"
  qm_sheet :: "pystr option"
  qm_section :: "pystr option"
  qm_subsection :: "pystr option"
  qm_suggested_by_username :: pystr
  qm_created_at :: datetime

section \<open>The database and the environment\<close>

record db =
  files :: "stored_file list"
  folders :: "article_folder list"
  tags :: "tag list"
  articles :: "article_model list"
  tag_links :: "article_tag_link list"
  file_usages :: "article_file_usage list"
  article_dailies :: "article_daily list"
  reactions :: "article_reaction list"
  dailies :: "analytics_daily list"
  receipts :: "analytics_receipt list"
  resources :: "external_resource list"
  sheets :: "sheet_model list"
  sections :: "section_model list"
  subsections :: "subsection_model list"
  items :: "item_model list"
  resource_links :: "resource_link list"
  queued_questions :: "queued_question_model list"

definition empty_db :: db where
  "empty_db = \<lparr>files = [], folders = [], tags = [], articles = [], tag_links = [], file_usages = [],
     article_dailies = [], reactions = [], dailies = [], receipts = [], resources = [], sheets = [],
     sections = [], subsections = [], items = [], resource_links = [], queued_questions = []\<rparr>"

text \<open>
  \<open>env_now\<close> is \<open>datetime.now(tz=UTC)\<close>, \<open>env_new_id n\<close> the identifier the \<open>n\<close>-th inserted row of
  the request gets from its column default, \<open>env_sha256\<close> and \<open>env_hmac\<close> the hash functions of the
  standard library (key and message, hexadecimal result), \<open>env_object_url\<close> the URL that the
  settings build for an object path of a bucket, \<open>env_guess_extension\<close> the table of
  \<open>mimetypes.guess_extension\<close>, \<open>env_audit_touch\<close> the \<open>updated_at\<close> that the library's \<open>AuditMixin\<close>
  leaves in a row whose update does not set it, \<open>env_s3_failure\<close> how a call of the object store for an object fails
  (an answer of the store, \<open>ClientError\<close>, or a call that got none, \<open>BotoCoreError\<close>), \<open>env_merge_flushes\<close> whether \<open>Session.merge\<close> writes the pending changes of the session first (the
  autoflush of SQLAlchemy).
\<close>

datatype s3_failure = S3ClientError | S3BotoCoreError

record env =
  env_now :: datetime
  env_new_id :: "nat \<Rightarrow> pystr"
  env_sha256 :: "pystr \<Rightarrow> pystr"
  env_hmac :: "pystr \<Rightarrow> pystr \<Rightarrow> pystr"
  env_object_url :: "pystr \<Rightarrow> pystr \<Rightarrow> pystr"
  env_guess_extension :: "pystr \<Rightarrow> pystr option"
  env_audit_touch :: "datetime \<Rightarrow> datetime"
  env_s3_failure :: "pystr \<Rightarrow> s3_failure option"
  env_merge_flushes :: bool

definition env_s3_fails :: "env \<Rightarrow> pystr \<Rightarrow> bool" where
  "env_s3_fails env object_name \<longleftrightarrow> env_s3_failure env object_name \<noteq> None"

type_synonym 'a dbm = "(error, db, 'a) action"

text \<open>
  The world of a request: the database of its session and the object store, by bucket and object
  name.  An error rolls the database back and leaves the object store as it is.
\<close>

record world =
  w_db :: db
  w_objects :: "pystr \<times> pystr \<Rightarrow> pystr option"

type_synonym 'a wm = "(error, world, 'a) action"

definition in_db :: "'a dbm \<Rightarrow> 'a wm" where
  "in_db m = (\<lambda>w. case m (w_db w) of (r, d) \<Rightarrow> (r, w\<lparr>w_db := d\<rparr>))"

definition request :: "'a wm \<Rightarrow> 'a wm" where
  "request m = (\<lambda>w. case m w of
     (Inl e, w') \<Rightarrow> (Inl e, w'\<lparr>w_db := w_db w\<rparr>)
   | (Inr a, w') \<Rightarrow> (Inr a, w'))"

lemma run_in_db [run_simps]: "in_db m w = (fst (m (w_db w)), w\<lparr>w_db := snd (m (w_db w))\<rparr>)"
  by (simp add: in_db_def split: prod.split)

lemma request_failure: "fst (request m w) = Inl e \<Longrightarrow> w_db (snd (request m w)) = w_db w"
  by (auto simp: request_def split: prod.splits sum.splits)

lemma request_keeps_db:
  "(\<And>a w'. m w = (Inr a, w') \<Longrightarrow> I (w_db w')) \<Longrightarrow> I (w_db w) \<Longrightarrow> I (w_db (snd (request m w)))"
  by (auto simp: request_def split: prod.splits sum.splits)

text \<open>A statement that checks constraints before it writes.\<close>

definition check_constraint :: "bool \<Rightarrow> db_constraint \<Rightarrow> 'a dbm \<Rightarrow> 'a dbm" where
  "check_constraint ok c m = (if ok then m else raise (IntegrityError c))"

lemma run_check_constraint [run_simps]:
  "check_constraint ok c m s = (if ok then m s else (Inl (IntegrityError c), s))"
  by (simp add: check_constraint_def run_simps)

lemma keeps_check_constraint [keeps_intros]:
  "(ok \<Longrightarrow> keeps I m) \<Longrightarrow> keeps I (check_constraint ok c m)"
  by (simp add: check_constraint_def keeps_intros)

end
