(* ===== verification/Files.thy ===== *)
theory Files
  imports Database
begin

text \<open>
  Managed files: \<open>core/files\<close> (schemas, markers in markdown, name generator, \<open>FileService\<close>,
  \<open>FileOrphanCleanupService\<close>), the database storage of \<open>infra/postgresql/storages/files.py\<close>, the
  object-store client of \<open>infra/s3/clients.py\<close> and the content processors of
  \<open>infra/files/processors.py\<close>.  The invariant \<open>files_inv\<close> ties the orphan mark of a file to its
  uses by articles.
\<close>

section \<open>Markers of managed files in markdown\<close>

definition is_file_id_char :: "nat \<Rightarrow> bool" where
  "is_file_id_char c \<longleftrightarrow>
     (65 \<le> c \<and> c \<le> 90) \<or> (97 \<le> c \<and> c \<le> 122) \<or> (48 \<le> c \<and> c \<le> 57) \<or> c = 95 \<or> c = 45"

text \<open>
  \<open>FILE_ID_MARKER_PATTERN.findall\<close>: at each position a separator \<open>?\<close>, \<open>#\<close> or \<open>&\<close>, the word
  \<open>fileId=\<close> and a maximal non-empty run of identifier characters; the scan goes on after the match.
\<close>

definition marker_here :: "pystr \<Rightarrow> bool" where
  "marker_here s =
     (case s of [] \<Rightarrow> False
      | c # cs \<Rightarrow> c \<in> {63, 35, 38} \<and> starts_with (u ''fileId='') cs
          \<and> takeWhile is_file_id_char (drop 7 cs) \<noteq> [])"

function find_file_ids :: "pystr \<Rightarrow> pystr list" where
  "find_file_ids s =
     (case s of [] \<Rightarrow> []
      | c # cs \<Rightarrow>
          if marker_here s
          then takeWhile is_file_id_char (drop 7 cs)
                 # find_file_ids (dropWhile is_file_id_char (drop 7 cs))
          else find_file_ids cs)"
  by pat_completeness auto
termination
proof (relation "measure length", goal_cases)
  case (2 s c cs)
  have "length (dropWhile is_file_id_char (drop 7 cs)) \<le> length cs"
    by (metis diff_le_self dual_order.trans length_dropWhile_le length_drop)
  with 2 show ?case by simp
qed simp_all

declare find_file_ids.simps [simp del]

definition extract_file_ids_from_markdown :: "pystr \<Rightarrow> pystr set" where
  "extract_file_ids_from_markdown content = set (find_file_ids content)"

section \<open>Rules, parameters and results\<close>

record file_rule =
  ru_folder :: pystr
  ru_allowed_mime_types :: "pystr set"
  ru_max_size_bytes :: int

definition article_image_mime_types :: "pystr set" where
  "article_image_mime_types =
     set [u ''image/png'', u ''image/jpeg'', u ''image/webp'', u ''image/gif'']"

fun file_rules :: "file_purpose \<Rightarrow> file_rule" where
  "file_rules ARTICLE_CONTENT_IMAGE =
     \<lparr>ru_folder = u ''article-content-images'', ru_allowed_mime_types = article_image_mime_types,
      ru_max_size_bytes = 5 * 1024 * 1024\<rparr>"
| "file_rules ARTICLE_COVER_IMAGE =
     \<lparr>ru_folder = u ''article-cover-images'', ru_allowed_mime_types = article_image_mime_types,
      ru_max_size_bytes = 5 * 1024 * 1024\<rparr>"
| "file_rules ATTACHMENT =
     \<lparr>ru_folder = u ''attachments'', ru_allowed_mime_types = set [u ''*/*''],
      ru_max_size_bytes = 20 * 1024 * 1024\<rparr>"

definition media :: pystr where
  "media = u ''media''"

record file_upload_params =
  up_id :: pystr
  up_purpose :: file_purpose
  up_name :: pystr
  up_original_name :: pystr
  up_mime_type :: pystr
  up_content :: "nat list"

definition size_bytes :: "file_upload_params \<Rightarrow> int" where
  "size_bytes p = int (length (up_content p))"

text \<open>\<open>PurePath(name).suffix\<close>: the last path component from its last dot on, unless only dots precede it.\<close>

fun split_on :: "nat \<Rightarrow> pystr \<Rightarrow> pystr list" where
  "split_on sep [] = [[]]"
| "split_on sep (c # cs) =
     (if c = sep then [] # split_on sep cs
      else (case split_on sep cs of [] \<Rightarrow> [[c]] | w # ws \<Rightarrow> (c # w) # ws))"

definition path_name :: "pystr \<Rightarrow> pystr" where
  "path_name p =
     (case rev (filter (\<lambda>w. w \<noteq> [] \<and> w \<noteq> [46]) (split_on 47 p)) of [] \<Rightarrow> [] | w # _ \<Rightarrow> w)"

definition path_suffix :: "pystr \<Rightarrow> pystr" where
  "path_suffix p =
     (let name = path_name p;
          ext = rev (takeWhile (\<lambda>c. c \<noteq> 46) (rev name));
          stem = take (length name - length ext - 1) name
      in if 46 \<in> set name \<and> \<not> (\<forall>c \<in> set stem. c = 46) then 46 # ext else [])"

definition file_extension :: "env \<Rightarrow> file_upload_params \<Rightarrow> pystr" where
  "file_extension env p =
     (case env_guess_extension env (up_mime_type p) of
        Some ext \<Rightarrow> if ext \<noteq> [] then ext else path_suffix (up_original_name p)
      | None \<Rightarrow> path_suffix (up_original_name p))"

definition validate_mime_type :: "file_upload_params \<Rightarrow> pystr set \<Rightarrow> error + unit" where
  "validate_mime_type p allowed_types =
     (if u ''*/*'' \<in> allowed_types then Inr ()
      else if up_mime_type p \<notin> allowed_types then Inl (ContentTypeNotAllowedError (up_mime_type p))
      else Inr ())"

definition validate_size :: "file_upload_params \<Rightarrow> int \<Rightarrow> error + unit" where
  "validate_size p max_size =
     (if size_bytes p > max_size then Inl (FileSizeTooLargeError (size_bytes p) max_size) else Inr ())"

definition validate_name :: "pystr \<Rightarrow> error + unit" where
  "validate_name name = (if strip name = [] then Inl FileNameInvalidError else Inr ())"

record file_read =
  fr_file :: stored_file
  fr_access_url :: pystr
  fr_markdown_url :: pystr

record cleanup_result =
  cl_scanned_count :: nat
  cl_deleted_count :: nat
  cl_failed_count :: nat
  cl_skipped_in_use_count :: nat

section \<open>File names\<close>

definition normalize_extension :: "pystr \<Rightarrow> pystr" where
  "normalize_extension ext =
     (if ext = [] then [] else if starts_with [46] ext then ext else 46 # ext)"

definition removeprefix :: "pystr \<Rightarrow> pystr \<Rightarrow> pystr" where
  "removeprefix p s = (if starts_with p s then drop (length p) s else s)"

definition uuid_file_name :: "pystr \<Rightarrow> pystr option \<Rightarrow> pystr \<Rightarrow> pystr" where
  "uuid_file_name hex folder ext =
     (let dir = (case folder of None \<Rightarrow> [] | Some f \<Rightarrow> f);
          path = join [47] [strip_by (\<lambda>c. c = 47) dir, hex @ normalize_extension ext]
      in removeprefix [47] path)"

definition timestamp_file_name :: "datetime \<Rightarrow> pystr \<Rightarrow> pystr option \<Rightarrow> pystr \<Rightarrow> pystr" where
  "timestamp_file_name timestamp random_suffix folder ext =
     (let dir = (case folder of None \<Rightarrow> [] | Some f \<Rightarrow> f);
          file_name = str_of_int timestamp @ [95] @ random_suffix @ normalize_extension ext;
          path = join [47] [strip_by (\<lambda>c. c = 47) dir, file_name]
      in removeprefix [47] path)"

section \<open>Content processors\<close>

text \<open>
  The Pillow operations are a parameter: loading (which may fail), the size test, the two encoders
  after resizing.  \<open>replace_if_worthwhile\<close> compares with ninety per cent of the original size; the
  double product \<open>size * (1.0 - 0.10)\<close> rounds to the exact value for sizes far beyond the limits.
\<close>

record loaded_image =
  li_image :: "nat list"
  li_mime_type :: pystr
  li_is_animated :: bool

record image_ops =
  io_load :: "file_upload_params \<Rightarrow> loaded_image option"
  io_is_oversized :: "nat list \<Rightarrow> int \<Rightarrow> int \<Rightarrow> bool"
  io_resize_for_bounds :: "nat list \<Rightarrow> int \<Rightarrow> int \<Rightarrow> nat list"
  io_encode_webp :: "nat list \<Rightarrow> int \<Rightarrow> int \<Rightarrow> nat list"
  io_encode_lossless_webp :: "nat list \<Rightarrow> int \<Rightarrow> nat list"

definition must_preserve_original :: "loaded_image \<Rightarrow> bool" where
  "must_preserve_original l \<longleftrightarrow>
     li_mime_type l = u ''image/gif'' \<or> (li_mime_type l = u ''image/webp'' \<and> li_is_animated l)"

definition replace_if_worthwhile :: "file_upload_params \<Rightarrow> nat list \<Rightarrow> file_upload_params" where
  "replace_if_worthwhile p optimized =
     (if 10 * int (length optimized) > 9 * size_bytes p then p
      else p\<lparr>up_mime_type := u ''image/webp'', up_content := optimized\<rparr>)"

definition process_cover_image :: "image_ops \<Rightarrow> file_upload_params \<Rightarrow> error + file_upload_params" where
  "process_cover_image ops p =
     (case io_load ops p of
        None \<Rightarrow> Inl FileImageOptimizationError
      | Some l \<Rightarrow>
          if must_preserve_original l then Inr p
          else
            let image = io_resize_for_bounds ops (li_image l) 1600 900
            in Inr (replace_if_worthwhile p (io_encode_webp ops image 82 6)))"

definition process_content_image :: "image_ops \<Rightarrow> file_upload_params \<Rightarrow> error + file_upload_params" where
  "process_content_image ops p =
     (case io_load ops p of
        None \<Rightarrow> Inl FileImageOptimizationError
      | Some l \<Rightarrow>
          if must_preserve_original l then Inr p
          else if li_mime_type l = u ''image/webp'' \<and> \<not> io_is_oversized ops (li_image l) 1920 1920
          then Inr p
          else
            let image = io_resize_for_bounds ops (li_image l) 1920 1920;
                optimized =
                  (if li_mime_type l = u ''image/png'' then io_encode_lossless_webp ops image 6
                   else io_encode_webp ops image 88 6)
            in Inr (replace_if_worthwhile p optimized))"

definition process_attachment :: "file_upload_params \<Rightarrow> error + file_upload_params" where
  "process_attachment p = Inr p"

definition process :: "image_ops \<Rightarrow> file_upload_params \<Rightarrow> error + file_upload_params" where
  "process ops p =
     (case up_purpose p of
        ARTICLE_COVER_IMAGE \<Rightarrow> process_cover_image ops p
      | ARTICLE_CONTENT_IMAGE \<Rightarrow> process_content_image ops p
      | ATTACHMENT \<Rightarrow> process_attachment p)"

section \<open>Database storage\<close>

definition create_file :: "stored_file \<Rightarrow> stored_file dbm" where
  "create_file f =
     bind (gets files) (\<lambda>fs.
     check_constraint (sf_id f \<notin> sf_id ` set fs) PrimaryKey (
     check_constraint
       ((sf_namespace f, sf_relative_path f) \<notin> (\<lambda>r. (sf_namespace r, sf_relative_path r)) ` set fs)
       FileNamespacePathUniq (
     bind (modify (\<lambda>d. d\<lparr>files := files d @ [f]\<rparr>)) (\<lambda>_. ret f))))"

definition get_file :: "pystr \<Rightarrow> stored_file dbm" where
  "get_file fid =
     bind (gets files) (\<lambda>fs.
     case row_by sf_id fid fs of None \<Rightarrow> raise EntryNotFoundError | Some f \<Rightarrow> ret f)"

definition list_files :: "file_purpose \<Rightarrow> stored_file list dbm" where
  "list_files purpose =
     gets (\<lambda>d. sort_key (\<lambda>f. (- sf_created_at f, sf_id f))
                 (filter (\<lambda>f. sf_purpose f = purpose) (files d)))"

definition find_file_by_original_sha256 ::
  "pystr \<Rightarrow> file_purpose \<Rightarrow> pystr \<Rightarrow> stored_file option dbm" where
  "find_file_by_original_sha256 ns purpose sha =
     gets (\<lambda>d. first (sort_key (\<lambda>f. (sf_created_at f, sf_id f))
       (filter (\<lambda>f. sf_namespace f = ns \<and> sf_purpose f = purpose
                  \<and> sf_original_sha256 f = Some sha) (files d))))"

definition refresh_file_orphaned_at :: "env \<Rightarrow> pystr \<Rightarrow> datetime \<Rightarrow> stored_file dbm" where
  "refresh_file_orphaned_at env fid t =
     bind (modify (\<lambda>d. d\<lparr>files :=
       update_where (\<lambda>f. sf_id f = fid \<and> sf_orphaned_at f \<noteq> None)
         (\<lambda>f. f\<lparr>sf_orphaned_at := Some t, sf_updated_at := env_audit_touch env (sf_updated_at f)\<rparr>) (files d)\<rparr>)) (\<lambda>_.
     get_file fid)"

definition update_file_name :: "pystr \<Rightarrow> pystr \<Rightarrow> datetime \<Rightarrow> stored_file dbm" where
  "update_file_name fid name t =
     bind (modify (\<lambda>d. d\<lparr>files :=
       update_where (\<lambda>f. sf_id f = fid) (\<lambda>f. f\<lparr>sf_name := name, sf_updated_at := t\<rparr>) (files d)\<rparr>))
       (\<lambda>_. get_file fid)"

definition file_used :: "db \<Rightarrow> pystr \<Rightarrow> bool" where
  "file_used d fid \<longleftrightarrow>
     (\<exists>a \<in> set (articles d). am_cover_image_file_id a = Some fid)
     \<or> (\<exists>l \<in> set (file_usages d). afu_file_id l = fid)"

definition file_has_usages :: "pystr \<Rightarrow> bool dbm" where
  "file_has_usages fid = gets (\<lambda>d. file_used d fid)"

text \<open>\<open>SELECT ... FOR UPDATE\<close> of the rows: no change of the state a serial run can see.\<close>

definition lock_files :: "pystr set \<Rightarrow> unit dbm" where
  "lock_files ids = ret ()"

definition set_files_attached :: "env \<Rightarrow> pystr set \<Rightarrow> unit dbm" where
  "set_files_attached env ids =
     (if ids = {} then ret ()
      else bind (lock_files ids) (\<lambda>_.
        modify (\<lambda>d. d\<lparr>files :=
          update_where (\<lambda>f. sf_id f \<in> ids \<and> sf_orphaned_at f \<noteq> None)
            (\<lambda>f. f\<lparr>sf_orphaned_at := None, sf_updated_at := env_audit_touch env (sf_updated_at f)\<rparr>) (files d)\<rparr>)))"

definition set_files_orphaned_if_unused :: "env \<Rightarrow> pystr set \<Rightarrow> datetime \<Rightarrow> unit dbm" where
  "set_files_orphaned_if_unused env ids t =
     (if ids = {} then ret ()
      else bind (lock_files ids) (\<lambda>_.
        modify (\<lambda>d. d\<lparr>files :=
          update_where (\<lambda>f. sf_id f \<in> ids \<and> \<not> file_used d (sf_id f))
            (\<lambda>f. f\<lparr>sf_orphaned_at := Some t, sf_updated_at := env_audit_touch env (sf_updated_at f)\<rparr>) (files d)\<rparr>)))"

definition orphaned_before :: "datetime \<Rightarrow> stored_file \<Rightarrow> bool" where
  "orphaned_before cutoff f = (case sf_orphaned_at f of None \<Rightarrow> False | Some t \<Rightarrow> t < cutoff)"

definition orphaned_key :: "stored_file \<Rightarrow> datetime" where
  "orphaned_key f = (case sf_orphaned_at f of None \<Rightarrow> 0 | Some t \<Rightarrow> t)"

definition list_orphaned_files_for_cleanup ::
  "pystr \<Rightarrow> datetime \<Rightarrow> nat \<Rightarrow> stored_file list dbm" where
  "list_orphaned_files_for_cleanup ns cutoff limit =
     gets (\<lambda>d. take limit (sort_key (\<lambda>f. (orphaned_key f, sf_id f))
       (filter (\<lambda>f. sf_namespace f = ns \<and> orphaned_before cutoff f \<and> \<not> file_used d (sf_id f))
         (files d))))"

text \<open>The foreign keys of covers and usages are \<open>RESTRICT\<close>: a used row cannot be deleted.\<close>

definition delete_file_row :: "pystr \<Rightarrow> unit dbm" where
  "delete_file_row fid =
     bind (gets (\<lambda>d. fid \<in> sf_id ` set (files d) \<and> file_used d fid)) (\<lambda>referenced.
     check_constraint (\<not> referenced) FileReferenced (
     modify (\<lambda>d. d\<lparr>files := delete_where (\<lambda>f. sf_id f = fid) (files d)\<rparr>)))"

section \<open>Object store client\<close>

definition ensure_valid_namespace :: "pystr \<Rightarrow> (error, 's, unit) action" where
  "ensure_valid_namespace ns =
     (if ns \<noteq> media then raise (NamespaceNotAllowedError ns) else ret ())"

text \<open>
  An upload converts a \<open>ClientError\<close> only; a call that got no answer of the store raises on.  A deletion converts
  both.
\<close>

definition client_upload_file :: "env \<Rightarrow> nat list \<Rightarrow> pystr \<Rightarrow> pystr \<Rightarrow> unit wm" where
  "client_upload_file env content object_name ns =
     bind (ensure_valid_namespace ns) (\<lambda>_.
     (case env_s3_failure env object_name of
        Some S3ClientError \<Rightarrow> raise (FileClientInternalError (u ''File upload failed''))
      | Some S3BotoCoreError \<Rightarrow> raise BotoCoreError
      | None \<Rightarrow> modify (\<lambda>w. w\<lparr>w_objects := (w_objects w)((ns, object_name) := Some content)\<rparr>)))"

definition client_delete_file :: "env \<Rightarrow> pystr \<Rightarrow> pystr \<Rightarrow> unit wm" where
  "client_delete_file env object_name ns =
     bind (ensure_valid_namespace ns) (\<lambda>_.
     if env_s3_fails env object_name then raise (FileClientInternalError (u ''File delete failed''))
     else modify (\<lambda>w. w\<lparr>w_objects := (w_objects w)((ns, object_name) := None)\<rparr>))"

definition get_access_url :: "env \<Rightarrow> pystr \<Rightarrow> pystr \<Rightarrow> (error, 's, pystr) action" where
  "get_access_url env object_name ns =
     bind (ensure_valid_namespace ns) (\<lambda>_. ret (env_object_url env ns object_name))"

section \<open>File service\<close>

definition to_read :: "env \<Rightarrow> stored_file \<Rightarrow> (error, 's, file_read) action" where
  "to_read env f =
     bind (get_access_url env (sf_relative_path f) (sf_namespace f)) (\<lambda>url.
     ret \<lparr>fr_file = f, fr_access_url = url, fr_markdown_url = url @ u ''#fileId='' @ sf_id f\<rparr>)"

definition upload_file ::
  "env \<Rightarrow> image_ops \<Rightarrow> file_upload_params \<Rightarrow> datetime \<Rightarrow> file_read wm" where
  "upload_file env ops p now =
     (let rule = file_rules (up_purpose p) in
     bind (lift (validate_name (up_name p))) (\<lambda>_.
     bind (lift (validate_mime_type p (ru_allowed_mime_types rule))) (\<lambda>_.
     bind (lift (validate_size p (ru_max_size_bytes rule))) (\<lambda>_.
     let sha = env_sha256 env (up_content p) in
     bind (in_db (find_file_by_original_sha256 media (up_purpose p) sha)) (\<lambda>duplicate.
     case duplicate of
       Some f \<Rightarrow>
         if sf_orphaned_at f \<noteq> None
         then bind (in_db (refresh_file_orphaned_at env (sf_id f) now)) (to_read env)
         else to_read env f
     | None \<Rightarrow>
         bind (lift (process ops p)) (\<lambda>q.
         bind (lift (validate_size q (ru_max_size_bytes rule))) (\<lambda>_.
         let path = timestamp_file_name (env_now env) (env_new_id env 0) (Some (ru_folder rule))
                      (file_extension env q);
             f = \<lparr>sf_id = up_id q, sf_purpose = up_purpose q, sf_namespace = media,
                  sf_relative_path = path, sf_mime_type = up_mime_type q, sf_size_bytes = size_bytes q,
                  sf_name = up_name q, sf_original_name = up_original_name q,
                  sf_original_sha256 = Some sha, sf_orphaned_at = Some now,
                  sf_created_at = now, sf_updated_at = now\<rparr>
         in
         bind (in_db (create_file f)) (\<lambda>f.
         bind (client_upload_file env (up_content q) path media) (\<lambda>_.
         to_read env f)))))))))"

definition service_get_file :: "env \<Rightarrow> pystr \<Rightarrow> file_read wm" where
  "service_get_file env fid = bind (in_db (get_file fid)) (to_read env)"

fun map_action :: "('a \<Rightarrow> ('e, 's, 'b) action) \<Rightarrow> 'a list \<Rightarrow> ('e, 's, 'b list) action" where
  "map_action f [] = ret []"
| "map_action f (x # xs) = bind (f x) (\<lambda>y. bind (map_action f xs) (\<lambda>ys. ret (y # ys)))"

definition service_list_files :: "env \<Rightarrow> file_purpose \<Rightarrow> file_read list wm" where
  "service_list_files env purpose = bind (in_db (list_files purpose)) (map_action (to_read env))"

definition service_update_file :: "env \<Rightarrow> pystr \<Rightarrow> pystr \<Rightarrow> datetime \<Rightarrow> file_read wm" where
  "service_update_file env fid name now =
     bind (lift (validate_name name)) (\<lambda>_.
     bind (in_db (update_file_name fid name now)) (to_read env))"

definition ensure_files_allowed :: "pystr set \<Rightarrow> file_purpose \<Rightarrow> unit dbm" where
  "ensure_files_allowed ids purpose =
     for_each (sorted_list_of_set ids) (\<lambda>fid.
       bind (get_file fid) (\<lambda>f.
       if sf_purpose f \<noteq> purpose then raise FilePurposeNotAllowedError else ret ()))"

definition service_delete_file :: "env \<Rightarrow> pystr \<Rightarrow> unit wm" where
  "service_delete_file env fid =
     bind (in_db (lock_files {fid})) (\<lambda>_.
     bind (in_db (file_has_usages fid)) (\<lambda>in_use.
     if in_use then raise FileInUseError
     else bind (in_db (get_file fid)) (\<lambda>f.
          bind (client_delete_file env (sf_relative_path f) (sf_namespace f)) (\<lambda>_.
          in_db (delete_file_row fid)))))"

definition lock_file_usage_transitions :: "pystr set \<Rightarrow> unit dbm" where
  "lock_file_usage_transitions ids = (if ids \<noteq> {} then lock_files ids else ret ())"

definition sync_file_usages :: "env \<Rightarrow> pystr set \<Rightarrow> pystr set \<Rightarrow> datetime \<Rightarrow> unit dbm" where
  "sync_file_usages env attached detached orphaned_at =
     bind (when_do (attached \<union> detached \<noteq> {}) (lock_files (attached \<union> detached))) (\<lambda>_.
     bind (when_do (attached \<noteq> {}) (set_files_attached env attached)) (\<lambda>_.
     when_do (detached \<noteq> {}) (set_files_orphaned_if_unused env detached orphaned_at)))"

section \<open>Orphan cleanup\<close>

text \<open>The loop of \<open>prune\<close> over the candidates, with the three counters (deleted, failed, in use).\<close>

fun prune_loop :: "env \<Rightarrow> stored_file list \<Rightarrow> nat \<times> nat \<times> nat \<Rightarrow> (nat \<times> nat \<times> nat) wm" where
  "prune_loop env [] c = ret c"
| "prune_loop env (f # fs) (deleted, failed, skipped) =
     bind (in_db (file_has_usages (sf_id f))) (\<lambda>in_use.
     if in_use
     then bind (in_db (set_files_attached env {sf_id f})) (\<lambda>_.
          prune_loop env fs (deleted, failed, Suc skipped))
     else
       bind (attempt (client_delete_file env (sf_relative_path f) (sf_namespace f))) (\<lambda>outcome.
       case outcome of
         Inl e \<Rightarrow>
           if is_file_client_internal_error e then prune_loop env fs (deleted, Suc failed, skipped)
           else raise e
       | Inr _ \<Rightarrow>
           bind (in_db (delete_file_row (sf_id f))) (\<lambda>_.
           prune_loop env fs (Suc deleted, failed, skipped))))"

definition prune :: "env \<Rightarrow> nat \<Rightarrow> datetime \<Rightarrow> cleanup_result wm" where
  "prune env batch_size cutoff =
     bind (in_db (list_orphaned_files_for_cleanup media cutoff batch_size)) (\<lambda>candidates.
     bind (prune_loop env candidates (0, 0, 0)) (\<lambda>(deleted, failed, skipped).
     ret \<lparr>cl_scanned_count = length candidates, cl_deleted_count = deleted,
          cl_failed_count = failed, cl_skipped_in_use_count = skipped\<rparr>))"

definition prune_file_orphans :: "env \<Rightarrow> int \<Rightarrow> datetime \<Rightarrow> cleanup_result wm" where
  "prune_file_orphans env retention_seconds now =
     prune env 100 (now - retention_seconds * 1000000)"

section \<open>Invariant\<close>

definition used_file_ids :: "db \<Rightarrow> pystr set" where
  "used_file_ids d =
     (\<Union>a \<in> set (articles d). set_option (am_cover_image_file_id a)) \<union> afu_file_id ` set (file_usages d)"

definition object_key :: "stored_file \<Rightarrow> pystr \<times> pystr" where
  "object_key f = (sf_namespace f, sf_relative_path f)"

text \<open>
  Identifiers and object keys are unique, every file lives in the media bucket, a file is marked as
  orphaned exactly when no article uses it, and every used file exists.
\<close>

definition files_inv :: "db \<Rightarrow> bool" where
  "files_inv d \<longleftrightarrow>
     distinct (map sf_id (files d)) \<and> distinct (map object_key (files d))
     \<and> (\<forall>f \<in> set (files d). sf_namespace f = media)
     \<and> (\<forall>f \<in> set (files d). sf_orphaned_at f = None \<longleftrightarrow> file_used d (sf_id f))
     \<and> used_file_ids d \<subseteq> sf_id ` set (files d)"

lemma file_used_iff: "file_used d fid \<longleftrightarrow> fid \<in> used_file_ids d"
  by (auto simp: file_used_def used_file_ids_def elem_set)

lemma files_inv_used: "files_inv d \<Longrightarrow> file_used d fid \<Longrightarrow> fid \<in> sf_id ` set (files d)"
  by (auto simp: files_inv_def file_used_iff)

lemma files_inv_distinct: "files_inv d \<Longrightarrow> distinct (map sf_id (files d))"
  by (simp add: files_inv_def)

lemma files_inv_mark:
  "files_inv d \<Longrightarrow> f \<in> set (files d) \<Longrightarrow> sf_orphaned_at f = None \<longleftrightarrow> file_used d (sf_id f)"
  by (simp add: files_inv_def)

lemma files_inv_media: "files_inv d \<Longrightarrow> f \<in> set (files d) \<Longrightarrow> sf_namespace f = media"
  by (simp add: files_inv_def)

lemma file_used_files [simp]: "file_used (d\<lparr>files := fs\<rparr>) fid = file_used d fid"
  by (simp add: file_used_def)

lemma used_file_ids_files [simp]: "used_file_ids (d\<lparr>files := fs\<rparr>) = used_file_ids d"
  by (simp add: used_file_ids_def)

text \<open>An update that keeps identifiers and keys, and sets marks that agree with the uses.\<close>

lemma files_inv_update:
  assumes inv: "files_inv d"
    and same: "\<And>f. sf_id (g f) = sf_id f \<and> sf_namespace (g f) = sf_namespace f
                  \<and> sf_relative_path (g f) = sf_relative_path f"
    and mark: "\<And>f. f \<in> set (files d) \<Longrightarrow> p f \<Longrightarrow>
                  sf_orphaned_at (g f) = None \<longleftrightarrow> file_used d (sf_id f)"
  shows "files_inv (d\<lparr>files := update_where p g (files d)\<rparr>)"
proof -
  have ids: "map sf_id (update_where p g (files d)) = map sf_id (files d)"
    by (rule map_update_where) (simp add: same)
  have keys: "map object_key (update_where p g (files d)) = map object_key (files d)"
    by (rule map_update_where) (simp add: same object_key_def)
  have "sf_id ` set (update_where p g (files d)) = sf_id ` set (files d)"
    by (rule image_update_where) (simp add: same)
  then show ?thesis
    using inv ids keys by (auto simp: files_inv_def in_update_where same mark split: if_splits)
qed

section \<open>The operations keep the invariant\<close>

lemma in_db_keeps [keeps_intros]:
  "keeps I m \<Longrightarrow> keeps (\<lambda>w. I (w_db w)) (in_db m)"
  by (simp add: keeps_def run_simps)

lemma client_upload_keeps [keeps_intros]:
  "keeps (\<lambda>w. I (w_db w)) (client_upload_file env content name ns)"
  by (auto simp: keeps_def client_upload_file_def ensure_valid_namespace_def run_simps
      split: option.split s3_failure.split)

lemma client_delete_keeps [keeps_intros]:
  "keeps (\<lambda>w. I (w_db w)) (client_delete_file env name ns)"
  by (auto simp: keeps_def client_delete_file_def ensure_valid_namespace_def run_simps)

lemma to_read_state: "snd (to_read env f s) = s"
  by (simp add: to_read_def get_access_url_def ensure_valid_namespace_def run_simps)

lemma to_read_keeps [keeps_intros]: "keeps I (to_read env f)"
  by (simp add: keeps_def to_read_state)

lemma map_action_keeps [keeps_intros]: "(\<And>x. keeps I (f x)) \<Longrightarrow> keeps I (map_action f xs)"
  by (induction xs) (auto intro!: keeps_intros)

lemma get_file_state: "snd (get_file fid d) = d"
  by (simp add: get_file_def run_simps split: option.split)

lemma get_file_keeps [keeps_intros]: "keeps I (get_file fid)"
  by (simp add: keeps_def get_file_state)

lemma query_keeps [keeps_intros]:
  "keeps I (list_files purpose)" "keeps I (find_file_by_original_sha256 ns purpose sha)"
  "keeps I (file_has_usages fid)" "keeps I (lock_files ids)"
  "keeps I (list_orphaned_files_for_cleanup ns cutoff limit)"
  by (simp_all add: list_files_def find_file_by_original_sha256_def file_has_usages_def lock_files_def
      list_orphaned_files_for_cleanup_def keeps_intros)

lemma create_file_keeps:
  assumes "sf_orphaned_at f = Some t" and "sf_namespace f = media"
  shows "keeps files_inv (create_file f)"
proof (rule keepsI)
  fix d assume inv: "files_inv d"
  show "files_inv (snd (create_file f d))"
  proof (cases "sf_id f \<in> sf_id ` set (files d) \<or> object_key f \<in> object_key ` set (files d)")
    case True
    then show ?thesis using inv by (auto simp: create_file_def run_simps object_key_def)
  next
    case False
    then have "\<not> file_used d (sf_id f)" using inv files_inv_used by blast
    then have "files_inv (d\<lparr>files := files d @ [f]\<rparr>)"
      using inv False assms by (auto simp: files_inv_def)
    moreover have "snd (create_file f d) = d\<lparr>files := files d @ [f]\<rparr>"
      using False by (auto simp: create_file_def run_simps object_key_def)
    ultimately show ?thesis by simp
  qed
qed

lemma refresh_keeps [keeps_intros]: "keeps files_inv (refresh_file_orphaned_at env fid t)"
  unfolding refresh_file_orphaned_at_def
  by (rule keeps_bind, rule keeps_modify, rule files_inv_update)
     (auto simp: files_inv_mark keeps_intros)

lemma update_file_name_keeps [keeps_intros]: "keeps files_inv (update_file_name fid name t)"
  unfolding update_file_name_def
  by (rule keeps_bind, rule keeps_modify, rule files_inv_update)
     (auto simp: files_inv_mark keeps_intros)

lemma delete_file_row_keeps [keeps_intros]: "keeps files_inv (delete_file_row fid)"
proof (rule keepsI)
  fix d assume inv: "files_inv d"
  show "files_inv (snd (delete_file_row fid d))"
  proof (cases "file_used d fid")
    case True
    then show ?thesis using inv files_inv_used[OF inv] by (auto simp: delete_file_row_def run_simps)
  next
    case False
    then have "used_file_ids d \<subseteq> sf_id ` set (delete_where (\<lambda>f. sf_id f = fid) (files d))"
      using inv by (auto simp: files_inv_def file_used_iff)
    then have "files_inv (d\<lparr>files := delete_where (\<lambda>f. sf_id f = fid) (files d)\<rparr>)"
      using inv by (simp add: files_inv_def distinct_map_delete_where)
    then show ?thesis using False by (simp add: delete_file_row_def run_simps)
  qed
qed

lemma set_files_attached_inv:
  assumes "files_inv d" and "\<forall>fid \<in> ids. file_used d fid"
  shows "files_inv (snd (set_files_attached env ids d))"
  using assms(1)
  by (auto simp: set_files_attached_def lock_files_def run_simps assms(2) intro!: files_inv_update)

lemma upload_file_keeps: "keeps (\<lambda>w. files_inv (w_db w)) (upload_file env ops p now)"
  unfolding upload_file_def Let_def
  by (auto intro!: keeps_intros create_file_keeps split: option.splits)

lemma service_update_file_keeps: "keeps (\<lambda>w. files_inv (w_db w)) (service_update_file env fid name now)"
  unfolding service_update_file_def by (intro keeps_intros)

lemma service_delete_file_keeps: "keeps (\<lambda>w. files_inv (w_db w)) (service_delete_file env fid)"
  unfolding service_delete_file_def by (intro keeps_intros)

section \<open>Concrete instances\<close>

text \<open>A small world for evaluating the operations: one attachment, used by nobody.\<close>

definition sample_env :: env where
  "sample_env = \<lparr>env_now = 1000, env_new_id = (\<lambda>n. u ''id'' @ str_of_nat n), env_sha256 = (\<lambda>c. c),
     env_hmac = (\<lambda>k m. k @ m), env_object_url = (\<lambda>ns path. u ''https://s3/'' @ ns @ [47] @ path),
     env_guess_extension = (\<lambda>m. None), env_audit_touch = (\<lambda>t. t), env_s3_failure = (\<lambda>p. None),
     env_merge_flushes = True\<rparr>"

definition sample_file :: stored_file where
  "sample_file = \<lparr>sf_id = u ''f1'', sf_purpose = ATTACHMENT, sf_namespace = u ''media'',
     sf_relative_path = u ''attachments/1'', sf_mime_type = u ''text/plain'', sf_size_bytes = 1,
     sf_name = u ''n'', sf_original_name = u ''n.txt'', sf_original_sha256 = Some [7],
     sf_orphaned_at = Some 5, sf_created_at = 5, sf_updated_at = 5\<rparr>"

definition sample_world :: world where
  "sample_world = \<lparr>w_db = empty_db\<lparr>files := [sample_file]\<rparr>,
     w_objects = (\<lambda>k. if k = (u ''media'', u ''attachments/1'') then Some [7] else None)\<rparr>"

definition sample_used_world :: world where
  "sample_used_world = sample_world\<lparr>w_db := (w_db sample_world)\<lparr>
     files := [sample_file\<lparr>sf_orphaned_at := None\<rparr>],
     file_usages := [\<lparr>afu_article_id = u ''a'', afu_file_id = u ''f1'', afu_usage = ATTACHMENT\<rparr>]\<rparr>\<rparr>"

definition sample_upload :: file_upload_params where
  "sample_upload = \<lparr>up_id = u ''f2'', up_purpose = ATTACHMENT, up_name = u ''n'',
     up_original_name = u ''n.txt'', up_mime_type = u ''text/plain'', up_content = [7]\<rparr>"

definition sample_image_ops :: image_ops where
  "sample_image_ops = \<lparr>io_load = (\<lambda>p. Some \<lparr>li_image = up_content p, li_mime_type = up_mime_type p,
       li_is_animated = False\<rparr>),
     io_is_oversized = (\<lambda>i w h. False), io_resize_for_bounds = (\<lambda>i w h. i),
     io_encode_webp = (\<lambda>i q m. take 1 i), io_encode_lossless_webp = (\<lambda>i m. take 1 i)\<rparr>"

lemmas sample_defs = env_s3_fails_def sample_env_def sample_file_def sample_world_def sample_used_world_def
  sample_upload_def sample_image_ops_def empty_db_def media_def

lemma sample_world_inv: "files_inv (w_db sample_world)"
  by (simp add: files_inv_def file_used_def used_file_ids_def sample_defs)

section \<open>Cleanup\<close>

definition deletable :: "env \<Rightarrow> stored_file list \<Rightarrow> stored_file list" where
  "deletable env fs = filter (\<lambda>f. \<not> env_s3_fails env (sf_relative_path f)) fs"

definition without_files :: "stored_file list \<Rightarrow> world \<Rightarrow> world" where
  "without_files gone w =
     w\<lparr>w_db := (w_db w)\<lparr>files := delete_where (\<lambda>f. sf_id f \<in> sf_id ` set gone) (files (w_db w))\<rparr>,
       w_objects := (\<lambda>k. if k \<in> object_key ` set gone then None else w_objects w k)\<rparr>"

lemma without_files_Nil [simp]: "without_files [] w = w"
  by (simp add: without_files_def delete_where_def)

lemma without_files_step:
  "without_files gone (w\<lparr>w_objects := (w_objects w)(object_key f := None),
     w_db := (w_db w)\<lparr>files := delete_where (\<lambda>g. sf_id g = sf_id f) (files (w_db w))\<rparr>\<rparr>) =
   without_files (f # gone) w"
  by (auto simp: without_files_def delete_where_def fun_eq_iff intro!: filter_cong)

lemma prune_loop_run:
  assumes "\<forall>f \<in> set fs. sf_namespace f = media \<and> \<not> file_used (w_db w) (sf_id f)"
  shows "prune_loop env fs (deleted, failed, skipped) w =
    (Inr (deleted + length (deletable env fs), failed + (length fs - length (deletable env fs)), skipped),
     without_files (deletable env fs) w)"
  using assms
proof (induction fs arbitrary: w deleted failed)
  case Nil
  then show ?case by (simp add: run_simps deletable_def)
next
  case (Cons f fs)
  have len: "length (deletable env fs) \<le> length fs" by (simp add: deletable_def)
  show ?case
  proof (cases "env_s3_fails env (sf_relative_path f)")
    case True
    then have "prune_loop env (f # fs) (deleted, failed, skipped) w =
        prune_loop env fs (deleted, Suc failed, skipped) w"
      using Cons.prems by (simp add: run_simps file_has_usages_def client_delete_file_def
          ensure_valid_namespace_def)
    also have "\<dots> = (Inr (deleted + length (deletable env fs),
        Suc failed + (length fs - length (deletable env fs)), skipped),
        without_files (deletable env fs) w)"
      using Cons.prems by (intro Cons.IH) simp
    finally show ?thesis using True len by (simp add: deletable_def Suc_diff_le)
  next
    case False
    let ?w = "w\<lparr>w_objects := (w_objects w)(object_key f := None),
       w_db := (w_db w)\<lparr>files := delete_where (\<lambda>g. sf_id g = sf_id f) (files (w_db w))\<rparr>\<rparr>"
    have "prune_loop env (f # fs) (deleted, failed, skipped) w =
        prune_loop env fs (Suc deleted, failed, skipped) ?w"
      using Cons.prems False by (simp add: run_simps file_has_usages_def client_delete_file_def
          ensure_valid_namespace_def delete_file_row_def object_key_def)
    also have "\<dots> = (Inr (Suc deleted + length (deletable env fs),
        failed + (length fs - length (deletable env fs)), skipped),
        without_files (deletable env fs) ?w)"
      using Cons.prems by (intro Cons.IH) simp
    finally show ?thesis using False len by (simp add: deletable_def without_files_step)
  qed
qed

definition cleanup_candidates :: "db \<Rightarrow> datetime \<Rightarrow> nat \<Rightarrow> stored_file list" where
  "cleanup_candidates d cutoff limit =
     take limit (sort_key (\<lambda>f. (orphaned_key f, sf_id f))
       (filter (\<lambda>f. sf_namespace f = media \<and> orphaned_before cutoff f \<and> \<not> file_used d (sf_id f))
         (files d)))"

lemma cleanup_candidates_sound:
  "f \<in> set (cleanup_candidates d cutoff limit) \<Longrightarrow>
   f \<in> set (files d) \<and> sf_namespace f = media \<and> orphaned_before cutoff f \<and> \<not> file_used d (sf_id f)"
  unfolding cleanup_candidates_def by (auto dest!: in_set_takeD)

lemma prune_run:
  "prune env limit cutoff w =
     (let cs = cleanup_candidates (w_db w) cutoff limit in
      (Inr \<lparr>cl_scanned_count = length cs, cl_deleted_count = length (deletable env cs),
            cl_failed_count = length cs - length (deletable env cs), cl_skipped_in_use_count = 0\<rparr>,
       without_files (deletable env cs) w))"
proof -
  have cs: "list_orphaned_files_for_cleanup media cutoff limit (w_db w) =
      (Inr (cleanup_candidates (w_db w) cutoff limit), w_db w)"
    by (simp add: list_orphaned_files_for_cleanup_def cleanup_candidates_def run_simps)
  have "prune_loop env (cleanup_candidates (w_db w) cutoff limit) (0, 0, 0) w =
      (Inr (length (deletable env (cleanup_candidates (w_db w) cutoff limit)),
            length (cleanup_candidates (w_db w) cutoff limit)
              - length (deletable env (cleanup_candidates (w_db w) cutoff limit)), 0),
       without_files (deletable env (cleanup_candidates (w_db w) cutoff limit)) w)"
    by (subst prune_loop_run) (auto dest: cleanup_candidates_sound)
  then show ?thesis by (simp add: prune_def run_simps cs Let_def)
qed

lemma without_files_inv:
  assumes inv: "files_inv (w_db w)" and unused: "\<forall>f \<in> set gone. \<not> file_used (w_db w) (sf_id f)"
  shows "files_inv (w_db (without_files gone w))"
proof -
  have "used_file_ids (w_db w)
      \<subseteq> sf_id ` set (delete_where (\<lambda>f. sf_id f \<in> sf_id ` set gone) (files (w_db w)))"
    using inv unused by (fastforce simp: files_inv_def file_used_iff)
  then show ?thesis
    using inv by (simp add: without_files_def files_inv_def distinct_map_delete_where)
qed

lemma prune_keeps: "keeps (\<lambda>w. files_inv (w_db w)) (prune env limit cutoff)"
proof (rule keepsI)
  fix w :: world assume inv: "files_inv (w_db w)"
  let ?cs = "cleanup_candidates (w_db w) cutoff limit"
  have "\<forall>f \<in> set (deletable env ?cs). \<not> file_used (w_db w) (sf_id f)"
    by (auto simp: deletable_def dest: cleanup_candidates_sound)
  then have "files_inv (w_db (without_files (deletable env ?cs) w))"
    by (rule without_files_inv[OF inv])
  then show "files_inv (w_db (snd (prune env limit cutoff w)))" by (simp add: prune_run Let_def)
qed

text \<open>C3: a cleanup run always completes, accounts for every candidate it scanned, scans at most
  one batch, and never skips a candidate as in use. The rows that disappear were marked as orphaned
  before the cutoff and used by no article, and their objects are gone; every other row, object and
  table stays as it was.\<close>

theorem prune_safe:
  "\<exists>r w' gone. prune env limit cutoff w = (Inr r, w')
     \<and> cl_scanned_count r = cl_deleted_count r + cl_failed_count r
     \<and> cl_skipped_in_use_count r = 0 \<and> cl_scanned_count r \<le> limit
     \<and> cl_deleted_count r = length gone
     \<and> set gone \<subseteq> {f. f \<in> set (files (w_db w)) \<and> orphaned_before cutoff f
          \<and> \<not> file_used (w_db w) (sf_id f) \<and> \<not> env_s3_fails env (sf_relative_path f)}
     \<and> w_db w' = (w_db w)\<lparr>files := filter (\<lambda>f. sf_id f \<notin> sf_id ` set gone) (files (w_db w))\<rparr>
     \<and> w_objects w' = (\<lambda>k. if k \<in> object_key ` set gone then None else w_objects w k)"
proof -
  let ?cs = "cleanup_candidates (w_db w) cutoff limit"
  let ?gone = "deletable env ?cs"
  have "length ?gone \<le> length ?cs" by (simp add: deletable_def)
  moreover have "length ?cs \<le> limit" by (simp add: cleanup_candidates_def)
  moreover have "set ?gone \<subseteq> {f. f \<in> set (files (w_db w)) \<and> orphaned_before cutoff f
      \<and> \<not> file_used (w_db w) (sf_id f) \<and> \<not> env_s3_fails env (sf_relative_path f)}"
    using cleanup_candidates_sound by (auto simp: deletable_def)
  ultimately show ?thesis
    by (simp add: prune_run Let_def without_files_def delete_where_def exI[of _ ?gone])
qed

section \<open>Deletion\<close>

text \<open>Deleting a file that an article uses is refused and changes nothing, neither a row nor an
  object.\<close>

theorem delete_used_file_refused:
  assumes "file_used (w_db w) fid"
  shows "service_delete_file env fid w = (Inl FileInUseError, w)"
  using assms by (simp add: service_delete_file_def run_simps lock_files_def file_has_usages_def)

theorem delete_used_file_refused_witness:
  "service_delete_file sample_env (u ''f1'') sample_used_world = (Inl FileInUseError, sample_used_world)"
  by (rule delete_used_file_refused) (simp add: file_used_def sample_defs)

text \<open>C29: an unused file is deleted with its object and nothing else, unless the object store
  refuses: then the error is reported and the row and the object stay.\<close>

theorem delete_unused_file:
  assumes inv: "files_inv (w_db w)" and f: "f \<in> set (files (w_db w))"
    and unused: "\<not> file_used (w_db w) (sf_id f)"
  shows "service_delete_file env (sf_id f) w =
    (if env_s3_fails env (sf_relative_path f)
     then (Inl (FileClientInternalError (u ''File delete failed'')), w)
     else (Inr (), w\<lparr>w_db := (w_db w)\<lparr>files := filter (\<lambda>g. g \<noteq> f) (files (w_db w))\<rparr>,
                     w_objects := (w_objects w)(object_key f := None)\<rparr>))"
proof -
  have row: "row_by sf_id (sf_id f) (files (w_db w)) = Some f"
    using f by (simp add: row_by_Some_iff files_inv_distinct[OF inv])
  have "sf_id g = sf_id f \<longleftrightarrow> g = f" if "g \<in> set (files (w_db w))" for g
    using that f files_inv_distinct[OF inv] by (auto simp: distinct_map inj_on_def)
  then have "delete_where (\<lambda>g. sf_id g = sf_id f) (files (w_db w)) = filter (\<lambda>g. g \<noteq> f) (files (w_db w))"
    by (auto simp: delete_where_def intro!: filter_cong)
  then show ?thesis
    using row unused files_inv_media[OF inv f]
    by (simp add: service_delete_file_def run_simps lock_files_def file_has_usages_def get_file_def
        client_delete_file_def ensure_valid_namespace_def delete_file_row_def object_key_def)
qed

theorem delete_unused_file_witness:
  "fst (service_delete_file sample_env (u ''f1'') sample_world) = Inr ()
   \<and> files (w_db (snd (service_delete_file sample_env (u ''f1'') sample_world))) = []"
  using delete_unused_file[OF sample_world_inv, of sample_file sample_env]
  by (simp add: sample_defs file_used_def)

section \<open>Processing and upload\<close>

lemma replace_if_worthwhile_size:
  "size_bytes (replace_if_worthwhile p c) \<le> size_bytes p"
  by (auto simp: replace_if_worthwhile_def size_bytes_def)

lemma replace_if_worthwhile_frame:
  "up_id (replace_if_worthwhile p c) = up_id p \<and> up_purpose (replace_if_worthwhile p c) = up_purpose p
   \<and> up_name (replace_if_worthwhile p c) = up_name p
   \<and> up_original_name (replace_if_worthwhile p c) = up_original_name p
   \<and> up_mime_type (replace_if_worthwhile p c) \<in> {up_mime_type p, u ''image/webp''}"
  by (simp add: replace_if_worthwhile_def)

text \<open>Whatever Pillow returns, processing never makes the content larger, keeps the identifier,
  the purpose and the names, and leaves the MIME type or turns it into WebP; so the second size
  check of an upload cannot fail once the first has passed.\<close>

theorem process_never_grows:
  assumes "process ops p = Inr q"
  shows "size_bytes q \<le> size_bytes p \<and> up_id q = up_id p \<and> up_purpose q = up_purpose p
    \<and> up_name q = up_name p \<and> up_original_name q = up_original_name p
    \<and> up_mime_type q \<in> {up_mime_type p, u ''image/webp''}
    \<and> (validate_size p m = Inr () \<longrightarrow> validate_size q m = Inr ())"
proof -
  have "q = p \<or> (\<exists>c. q = replace_if_worthwhile p c)"
    using assms
    by (auto simp: process_def process_cover_image_def process_content_image_def process_attachment_def
        Let_def split: file_purpose.splits option.splits if_splits)
  then show ?thesis
  proof
    assume "q = p" then show ?thesis by simp
  next
    assume "\<exists>c. q = replace_if_worthwhile p c"
    then obtain c where q: "q = replace_if_worthwhile p c" ..
    have "size_bytes q \<le> size_bytes p" unfolding q by (rule replace_if_worthwhile_size)
    then show ?thesis using replace_if_worthwhile_frame[of p c] unfolding q
      by (auto simp: validate_size_def)
  qed
qed

definition sample_cover :: file_upload_params where
  "sample_cover = sample_upload\<lparr>up_purpose := ARTICLE_COVER_IMAGE, up_mime_type := u ''image/png'',
     up_content := [7, 7, 7]\<rparr>"

theorem process_never_grows_witness:
  "process sample_image_ops sample_cover =
     Inr (sample_cover\<lparr>up_mime_type := u ''image/webp'', up_content := [7]\<rparr>)
   \<and> size_bytes (sample_cover\<lparr>up_mime_type := u ''image/webp'', up_content := [7]\<rparr>) \<le> size_bytes sample_cover"
proof -
  have p: "process sample_image_ops sample_cover =
      Inr (sample_cover\<lparr>up_mime_type := u ''image/webp'', up_content := [7]\<rparr>)"
    by (simp add: process_def process_cover_image_def must_preserve_original_def
        replace_if_worthwhile_def size_bytes_def sample_cover_def sample_defs u_def)
  then show ?thesis using process_never_grows[OF p] by blast
qed

lemma find_duplicate_Some:
  "find_file_by_original_sha256 ns purpose sha d = (Inr (Some f), d') \<Longrightarrow>
   d' = d \<and> f \<in> set (files d) \<and> sf_namespace f = ns \<and> sf_purpose f = purpose
   \<and> sf_original_sha256 f = Some sha"
  by (auto simp: find_file_by_original_sha256_def run_simps dest!: first_sort_SomeD)

lemma find_duplicate_None:
  "find_file_by_original_sha256 ns purpose sha d = (Inr None, d') \<longleftrightarrow>
   d' = d \<and> \<not> (\<exists>f \<in> set (files d). sf_namespace f = ns \<and> sf_purpose f = purpose
     \<and> sf_original_sha256 f = Some sha)"
  by (auto simp: find_file_by_original_sha256_def run_simps filter_empty_conv)

definition upload_valid :: "file_upload_params \<Rightarrow> bool" where
  "upload_valid p \<longleftrightarrow>
     validate_name (up_name p) = Inr ()
     \<and> validate_mime_type p (ru_allowed_mime_types (file_rules (up_purpose p))) = Inr ()
     \<and> validate_size p (ru_max_size_bytes (file_rules (up_purpose p))) = Inr ()"

text \<open>Uploading content that is already stored for the same purpose adds no row and no object,
  whatever identifier the request carries: it returns the stored file, whose orphan mark is renewed
  when it has one, so that the cleanup does not delete it right after.\<close>

theorem upload_deduplicates:
  assumes inv: "files_inv (w_db w)" and valid: "upload_valid p"
    and stored: "f \<in> set (files (w_db w))" "sf_purpose f = up_purpose p"
      "sf_original_sha256 f = Some (env_sha256 env (up_content p))"
  shows "\<exists>r w'. upload_file env ops p now w = (Inr r, w')
    \<and> w_objects w' = w_objects w
    \<and> map sf_id (files (w_db w')) = map sf_id (files (w_db w))
    \<and> fr_file r \<in> set (files (w_db w'))
    \<and> sf_original_sha256 (fr_file r) = Some (env_sha256 env (up_content p))
    \<and> sf_orphaned_at (fr_file r) \<in> {None, Some now}"
proof -
  let ?d = "w_db w" and ?sha = "env_sha256 env (up_content p)"
  obtain dup where dup: "find_file_by_original_sha256 media (up_purpose p) ?sha ?d = (Inr dup, ?d)"
    by (simp add: find_file_by_original_sha256_def run_simps)
  have "dup \<noteq> None"
    using dup stored files_inv_media[OF inv] find_duplicate_None[of media "up_purpose p" ?sha ?d ?d]
    by auto
  then obtain g where g: "find_file_by_original_sha256 media (up_purpose p) ?sha ?d = (Inr (Some g), ?d)"
    using dup by auto
  have gd: "g \<in> set (files ?d)" "sf_namespace g = media" "sf_original_sha256 g = Some ?sha"
    using find_duplicate_Some[OF g] by auto
  let ?upd = "update_where (\<lambda>f. sf_id f = sf_id g \<and> sf_orphaned_at f \<noteq> None)
       (\<lambda>f. f\<lparr>sf_orphaned_at := Some now, sf_updated_at := env_audit_touch env (sf_updated_at f)\<rparr>) (files ?d)"
  have ids: "map sf_id ?upd = map sf_id (files ?d)" by (rule map_update_where) simp
  show ?thesis
  proof (cases "sf_orphaned_at g")
    case None
    then show ?thesis using valid g gd
      by (simp add: upload_file_def upload_valid_def run_simps Let_def to_read_def get_access_url_def
          ensure_valid_namespace_def)
  next
    case (Some t)
    let ?g = "g\<lparr>sf_orphaned_at := Some now, sf_updated_at := env_audit_touch env (sf_updated_at g)\<rparr>"
    have "?g \<in> set ?upd" using gd Some by (auto simp: in_update_where intro!: bexI[of _ g])
    then have "row_by sf_id (sf_id g) ?upd = Some ?g"
      using files_inv_distinct[OF inv] ids by (simp add: row_by_Some_iff)
    then show ?thesis using valid g gd Some ids \<open>?g \<in> set ?upd\<close>
      by (simp add: upload_file_def upload_valid_def run_simps Let_def to_read_def get_access_url_def
          ensure_valid_namespace_def refresh_file_orphaned_at_def get_file_def)
  qed
qed

theorem upload_deduplicates_witness:
  "\<exists>r w'. upload_file sample_env sample_image_ops sample_upload 9 sample_world = (Inr r, w')
     \<and> map sf_id (files (w_db w')) = [u ''f1''] \<and> sf_orphaned_at (fr_file r) \<in> {None, Some 9}"
proof -
  have "upload_valid sample_upload"
    by (simp add: upload_valid_def validate_name_def validate_mime_type_def validate_size_def
        size_bytes_def sample_defs u_def strip_def strip_by_def is_space_def)
  then have "\<exists>r w'. upload_file sample_env sample_image_ops sample_upload 9 sample_world = (Inr r, w')
    \<and> w_objects w' = w_objects sample_world
    \<and> map sf_id (files (w_db w')) = map sf_id (files (w_db sample_world))
    \<and> fr_file r \<in> set (files (w_db w'))
    \<and> sf_original_sha256 (fr_file r) = Some (env_sha256 sample_env (up_content sample_upload))
    \<and> sf_orphaned_at (fr_file r) \<in> {None, Some 9}"
    by (rule upload_deduplicates[OF sample_world_inv, of sample_upload sample_file sample_env])
       (simp_all add: sample_defs)
  then show ?thesis by (auto simp: sample_defs)
qed

section \<open>Markers\<close>

lemma marker_here_prefix:
  assumes "sep \<in> {63, 35, 38}" and "fid \<noteq> []" and "\<forall>c \<in> set fid. is_file_id_char c"
  shows "marker_here (sep # u ''fileId='' @ fid @ post)"
  using assms by (cases fid) (auto simp: marker_here_def u_def)

lemma takeWhile_run:
  "\<forall>c \<in> set fid. P c \<Longrightarrow> (post = [] \<or> \<not> P (hd post)) \<Longrightarrow> takeWhile P (fid @ post) = fid"
  by (induction fid) (cases post; auto)+

lemma dropWhile_stop: "\<not> P m \<Longrightarrow> dropWhile P (xs @ m # ms) = dropWhile P xs @ m # ms"
  by (induction xs) auto

lemma sep_not_id_char: "sep \<in> {63, 35, 38} \<Longrightarrow> \<not> is_file_id_char sep"
  by (auto simp: is_file_id_char_def)

lemma starts_with_before_sep:
  assumes "sep \<notin> set pat" and "starts_with pat (cs @ sep # m)"
  shows "length pat \<le> length cs \<and> starts_with pat cs"
  using assms
proof (induction pat cs rule: starts_with.induct)
  case (2 p ps) then show ?case by auto
qed auto

lemma find_file_ids_marker:
  assumes sep: "sep \<in> {63, 35, 38}" and fid: "fid \<noteq> []" "\<forall>c \<in> set fid. is_file_id_char c"
    and post: "post = [] \<or> \<not> is_file_id_char (hd post)"
  shows "fid \<in> set (find_file_ids (pre @ sep # u ''fileId='' @ fid @ post))"
proof (induction "length pre" arbitrary: pre rule: less_induct)
  case less
  let ?m = "sep # u ''fileId='' @ fid @ post"
  show ?case
  proof (cases pre)
    case Nil
    have "drop 7 (u ''fileId='' @ fid @ post) = fid @ post" by (simp add: u_def)
    then have "takeWhile is_file_id_char (drop 7 (u ''fileId='' @ fid @ post)) = fid"
      using takeWhile_run[OF fid(2) post] by (simp only:)
    then show ?thesis
      using Nil marker_here_prefix[OF sep fid] by (simp add: find_file_ids.simps[of ?m])
  next
    case (Cons c cs)
    show ?thesis
    proof (cases "marker_here (pre @ ?m)")
      case False
      then have "find_file_ids (pre @ ?m) = find_file_ids (cs @ ?m)"
        by (simp add: Cons find_file_ids.simps[of "c # cs @ ?m"])
      then show ?thesis using less[of cs] Cons by simp
    next
      case True
      then have "starts_with (u ''fileId='') (cs @ ?m)" by (simp add: Cons marker_here_def)
      moreover have "sep \<notin> set (u ''fileId='')" using sep by (auto simp: u_def)
      ultimately have "7 \<le> length cs"
        using starts_with_before_sep by (fastforce simp: u_def)
      then have "dropWhile is_file_id_char (drop 7 (cs @ ?m)) =
          dropWhile is_file_id_char (drop 7 cs) @ ?m"
        by (simp add: dropWhile_stop[of is_file_id_char sep] sep_not_id_char[OF sep])
      then have "set (find_file_ids (dropWhile is_file_id_char (drop 7 cs) @ ?m))
          \<subseteq> set (find_file_ids (pre @ ?m))"
        using True by (auto simp: Cons find_file_ids.simps[of "c # cs @ ?m"])
      moreover have "length (dropWhile is_file_id_char (drop 7 cs)) < length pre"
        using length_dropWhile_le[of is_file_id_char "drop 7 cs"] Cons by simp
      ultimately show ?thesis using less by blast
    qed
  qed
qed

text \<open>C32: the markdown URL that the service hands out for a file, placed anywhere in a text and
  followed by a character that cannot continue an identifier, is found again by the marker scan: the
  file counts as used by the text.\<close>

theorem markdown_url_roundtrip:
  assumes read: "to_read env f s = (Inr r, s')"
    and id: "sf_id f \<noteq> []" "\<forall>c \<in> set (sf_id f). is_file_id_char c"
    and post: "post = [] \<or> \<not> is_file_id_char (hd post)"
  shows "sf_id f \<in> extract_file_ids_from_markdown (pre @ fr_markdown_url r @ post)"
proof -
  obtain url where url: "fr_markdown_url r = url @ u ''#fileId='' @ sf_id f"
    using read by (auto simp: to_read_def run_simps split: sum.splits prod.splits)
  have "u ''#fileId='' = 35 # u ''fileId=''" by (simp add: u_def)
  then have "pre @ fr_markdown_url r @ post = (pre @ url) @ 35 # u ''fileId='' @ sf_id f @ post"
    by (simp add: url)
  then show ?thesis
    using find_file_ids_marker[of 35 "sf_id f" post "pre @ url"] id post
    by (simp add: extract_file_ids_from_markdown_def)
qed

theorem markdown_url_roundtrip_witness:
  "u ''f1'' \<in> extract_file_ids_from_markdown
     (u ''![x]('' @ fr_markdown_url (projr (fst (to_read sample_env sample_file ()))) @ u '')'')"
proof -
  have "sf_id sample_file \<in> extract_file_ids_from_markdown
      (u ''![x]('' @ fr_markdown_url (projr (fst (to_read sample_env sample_file ()))) @ u '')'')"
  proof (rule markdown_url_roundtrip)
    show "to_read sample_env sample_file () =
        (Inr (projr (fst (to_read sample_env sample_file ()))), ())"
      by (simp add: to_read_def get_access_url_def ensure_valid_namespace_def run_simps sample_defs)
  qed (simp_all add: sample_defs u_def is_file_id_char_def)
  then show ?thesis by (simp add: sample_defs)
qed

end
