(* ===== verification/Ordering.thy ===== *)
theory Ordering
  imports Prelude
begin

text \<open>
  Ordered sibling rows.  The folders of the articles and the sheets, sections and subsections of
  the competency matrix carry a \<open>priority\<close> column; the storages compute the next priority and
  rewrite the priorities of a list of identifiers with the same statements.  The locale
  \<open>priority_table\<close> is the interface of a table with such a column.
\<close>

text \<open>\<open>enumerate(xs, start=n)\<close>.\<close>

fun enumerate_from :: "int \<Rightarrow> 'a list \<Rightarrow> (int \<times> 'a) list" where
  "enumerate_from n [] = []"
| "enumerate_from n (x # xs) = (n, x) # enumerate_from (n + 1) xs"

definition priority_by_id :: "pystr list \<Rightarrow> (pystr, int) dict" where
  "priority_by_id ordered_ids =
     foldl (\<lambda>d (priority, ordered_id). dict_set ordered_id priority d) [] (enumerate_from 1 ordered_ids)"

text \<open>\<open>coalesce(max(priority), 0) + 1\<close>.\<close>

definition next_priority :: "int list \<Rightarrow> int" where
  "next_priority priorities = (if priorities = [] then 0 else Max (set priorities)) + 1"

definition update_priorities ::
  "('r \<Rightarrow> pystr) \<Rightarrow> (int \<Rightarrow> 'r \<Rightarrow> 'r) \<Rightarrow> pystr list \<Rightarrow> 'r list \<Rightarrow> 'r list" where
  "update_priorities ident set_priority ordered_ids rows =
     (if ordered_ids = [] then rows
      else
        let priorities = priority_by_id ordered_ids in
        update_where (\<lambda>r. ident r \<in> fst ` set priorities)
          (\<lambda>r. case dict_get (ident r) priorities of
                 Some n \<Rightarrow> set_priority n r
               | None \<Rightarrow> r) rows)"

text \<open>The test of the use cases: as many identifiers as rows, and the same set of them.\<close>

definition order_matches :: "pystr list \<Rightarrow> pystr list \<Rightarrow> bool" where
  "order_matches current ordered_ids \<longleftrightarrow>
     length current = length ordered_ids \<and> set current = set ordered_ids"

section \<open>Lemmas\<close>

lemma insort_key_append:
  "\<forall>y \<in> set ys. f x < f y \<Longrightarrow> insort_key f x (xs @ ys) = insort_key f x xs @ ys"
proof (induction xs)
  case Nil
  then show ?case by (cases ys) (auto simp: less_imp_le)
qed simp

lemma sort_key_max_last:
  "(\<And>x. x \<in> set xs \<Longrightarrow> f x < f y) \<Longrightarrow> sort_key f (xs @ [y]) = sort_key f xs @ [y]"
  by (induction xs) (simp_all add: insort_key_append)

lemma next_priority_greater: "p \<in> set priorities \<Longrightarrow> p < next_priority priorities"
  by (auto simp: next_priority_def intro: order.strict_trans1[OF Max_ge])

lemma order_matches_distinct: "order_matches current ids \<Longrightarrow> distinct current \<Longrightarrow> distinct ids"
  by (metis card_distinct distinct_card order_matches_def)

lemma foldl_priority_keys:
  "fst ` set (foldl (\<lambda>d (n, x). dict_set x n d) d (enumerate_from k xs)) = fst ` set d \<union> set xs"
  by (induction xs arbitrary: d k) auto

lemma priority_by_id_keys: "fst ` set (priority_by_id ids) = set ids"
  by (simp add: priority_by_id_def foldl_priority_keys)

lemma foldl_priority_get:
  "distinct xs \<Longrightarrow> map_of (foldl (\<lambda>d (n, x). dict_set x n d) d (enumerate_from k xs)) y =
     (case map_of (map (\<lambda>(n, x). (x, n)) (enumerate_from k xs)) y of
        None \<Rightarrow> map_of d y | Some n \<Rightarrow> Some n)"
proof (induction xs arbitrary: d k)
  case (Cons x xs)
  have "y \<notin> set zs \<Longrightarrow> map_of (map (\<lambda>(n, x). (x, n)) (enumerate_from j zs)) y = None" for zs j
    by (induction zs arbitrary: j) auto
  then show ?case using Cons by (auto split: option.split)
qed simp

definition position :: "pystr list \<Rightarrow> pystr \<Rightarrow> int" where
  "position ids y =
     (case map_of (map (\<lambda>(n, x). (x, n)) (enumerate_from 1 ids)) y of None \<Rightarrow> 0 | Some n \<Rightarrow> n)"

lemma enumerate_from_positions:
  "distinct ids \<Longrightarrow>
   map (\<lambda>y. case map_of (map (\<lambda>(n, x). (x, n)) (enumerate_from k ids)) y of None \<Rightarrow> 0 | Some n \<Rightarrow> n) ids
   = map fst (enumerate_from k ids)"
proof (induction ids arbitrary: k)
  case (Cons x xs)
  then have IH: "map (\<lambda>y. case map_of (map (\<lambda>(n, x). (x, n)) (enumerate_from (k + 1) xs)) y of
      None \<Rightarrow> 0 | Some n \<Rightarrow> n) xs = map fst (enumerate_from (k + 1) xs)" by simp
  from Cons.prems have "x \<notin> set xs" by simp
  then show ?case by (simp add: IH[symmetric])
qed simp

lemma enumerate_from_fst: "map fst (enumerate_from k xs) = map (\<lambda>i. k + int i) [0..<length xs]"
  by (induction xs arbitrary: k) (simp_all del: upt_Suc add: upt_conv_Cons map_Suc_upt[symmetric] o_def)

lemma positions:
  "distinct ids \<Longrightarrow> map (position ids) ids = map (\<lambda>i. 1 + int i) [0..<length ids]"
  using enumerate_from_positions[of ids 1] by (simp add: position_def[abs_def] enumerate_from_fst)

lemma positions_sorted: "distinct ids \<Longrightarrow> sorted (map (position ids) ids)"
  by (simp add: positions sorted_iff_nth_mono)

lemma positions_distinct: "distinct ids \<Longrightarrow> distinct (map (position ids) ids)"
  by (simp add: positions distinct_map inj_on_def)

lemma priority_by_id_get:
  "distinct ids \<Longrightarrow> y \<in> set ids \<Longrightarrow> dict_get y (priority_by_id ids) = Some (position ids y)"
proof -
  assume d: "distinct ids" and y: "y \<in> set ids"
  have "map_of (map (\<lambda>(n, x). (x, n)) (enumerate_from k xs)) y \<noteq> None" if "y \<in> set xs" for xs k
    using that by (induction xs arbitrary: k) auto
  with y obtain n where "map_of (map (\<lambda>(n, x). (x, n)) (enumerate_from 1 ids)) y = Some n" by blast
  then show ?thesis
    by (simp add: dict_get_def priority_by_id_def foldl_priority_get[OF d] position_def)
qed

text \<open>An interface: identifiers, a priority, and an update that touches nothing but the priority.\<close>

locale priority_table =
  fixes ident :: "'r \<Rightarrow> pystr"
    and prio :: "'r \<Rightarrow> int"
    and set_prio :: "int \<Rightarrow> 'r \<Rightarrow> 'r"
  assumes ident_set_prio: "ident (set_prio n r) = ident r"
    and prio_set_prio: "prio (set_prio n r) = n"
begin

lemma idents_kept: "map ident (update_priorities ident set_prio ids rows) = map ident rows"
  unfolding update_priorities_def Let_def
  by (auto intro!: map_update_where simp: ident_set_prio split: option.split)

lemma others_kept:
  "ident r \<notin> set ids \<Longrightarrow>
   r \<in> set (update_priorities ident set_prio ids rows) \<longleftrightarrow> r \<in> set rows"
  by (auto simp: update_priorities_def Let_def in_update_where priority_by_id_keys ident_set_prio
      split: option.splits)

lemma update_priorities_run:
  "distinct ids \<Longrightarrow> update_priorities ident set_prio ids rows =
     map (\<lambda>r. if ident r \<in> set ids then set_prio (position ids (ident r)) r else r) rows"
  by (auto simp: update_priorities_def update_where_def Let_def priority_by_id_keys
      priority_by_id_get)

lemma attributes_kept:
  "(\<And>n r. g (set_prio n r) = g r) \<Longrightarrow>
   map g (update_priorities ident set_prio ids rows) = map g rows"
  unfolding update_priorities_def Let_def
  by (auto intro!: map_update_where split: option.split)

lemma new_priority:
  assumes "distinct ids" and "r \<in> set (update_priorities ident set_prio ids rows)"
    and "ident r \<in> set ids"
  shows "prio r = position ids (ident r)"
  using assms by (auto simp: update_priorities_run ident_set_prio prio_set_prio split: if_splits)

text \<open>Listing the reordered siblings by priority gives the requested order, whatever breaks ties.\<close>

lemma reordered:
  fixes k :: "'r \<Rightarrow> 'k :: linorder"
  assumes d: "distinct ids" and rows: "distinct (map ident rows)" and sub: "set ids \<subseteq> ident ` set rows"
  shows "map ident (sort_key (\<lambda>r. (prio r, k r))
    (filter (\<lambda>r. ident r \<in> set ids) (update_priorities ident set_prio ids rows))) = ids"
proof -
  let ?new = "update_priorities ident set_prio ids rows"
  let ?sib = "filter (\<lambda>r. ident r \<in> set ids) ?new"
  let ?xs = "sort_key (\<lambda>r. (prio r, k r)) ?sib"
  have new: "distinct (map ident ?new)" using rows by (simp add: idents_kept)
  have ids_new: "ident ` set ?new = ident ` set rows"
    by (metis idents_kept list.set_map)
  have sets: "set (map ident ?xs) = set ids" using ids_new sub by auto
  have dist: "distinct (map ident ?xs)"
    using new by (simp add: distinct_map inj_on_def)
  have "map prio ?xs = map (position ids) (map ident ?xs)"
    using new_priority[OF d] by auto
  moreover have "sorted (map prio ?xs)"
  proof -
    have "sorted_wrt (\<lambda>r s. (prio r, k r) \<le> (prio s, k s)) ?xs"
      using sorted_sort_key[of "\<lambda>r. (prio r, k r)" ?sib] by (simp only: sorted_map)
    then have "sorted_wrt (\<lambda>r s. prio r \<le> prio s) ?xs"
      by (rule sorted_wrt_mono_rel[rotated]) auto
    then show ?thesis by (simp add: sorted_map)
  qed
  ultimately have "sorted (map (position ids) (map ident ?xs))" by (simp only:)
  moreover have inj: "inj_on (position ids) (set ids)"
    using positions_distinct[OF d] by (simp add: distinct_map)
  moreover have "distinct (map (position ids) (map ident ?xs))"
    using dist inj sets unfolding distinct_map[of "position ids"] by (simp only: simp_thms)
  ultimately show ?thesis
    using positions_sorted[OF d] positions_distinct[OF d] sets
    by (intro map_sorted_distinct_set_unique[of "position ids"]) auto
qed

lemma reordered_all:
  fixes k :: "'r \<Rightarrow> 'k :: linorder"
  assumes rows: "distinct (map ident rows)" and match: "order_matches (map ident rows) ids"
  shows "map ident (sort_key (\<lambda>r. (prio r, k r)) (update_priorities ident set_prio ids rows)) = ids"
proof -
  have d: "distinct ids" using match rows by (rule order_matches_distinct)
  have "\<forall>r \<in> set (update_priorities ident set_prio ids rows). ident r \<in> set ids"
    using match idents_kept[of ids rows] by (metis imageI list.set_map order_matches_def)
  then have "filter (\<lambda>r. ident r \<in> set ids) (update_priorities ident set_prio ids rows)
      = update_priorities ident set_prio ids rows" by simp
  then show ?thesis
    using reordered[OF d rows, of k] match by (simp add: order_matches_def)
qed

end

end
