(* ===== verification/Articles.thy ===== *)
theory Articles
  imports Files Ordering
begin

text \<open>
  Articles, their folders and tags: the domain schemas of \<open>core/articles/schemas.py\<close>, the
  database storage \<open>ArticlesDatabaseStorage\<close> of \<open>infra/postgresql/storages/articles.py\<close> over the
  models of \<open>infra/postgresql/models/articles.py\<close>, and \<open>ArticlesUseCase\<close> of
  \<open>core/articles/use_cases.py\<close>.  The invariant \<open>articles_inv\<close> holds the referential integrity of
  these tables and ties the file usages of an article to the markers in its texts.
\<close>

section \<open>Domain schemas\<close>

record article_metadata =
  md_seo_title_ru :: "pystr option"
  md_seo_title_en :: "pystr option"
  md_seo_description_ru :: "pystr option"
  md_seo_description_en :: "pystr option"
  md_cover_image_file_id :: "pystr option"
  md_cover_image_file :: "stored_file option"
  md_cover_image_url :: "pystr option"
  md_cover_image_alt_ru :: "pystr option"
  md_cover_image_alt_en :: "pystr option"

record article =
  ac_id :: pystr
  ac_slug :: pystr
  ac_title_ru :: pystr
  ac_title_en :: pystr
  ac_content_ru :: pystr
  ac_content_en :: pystr
  ac_folder :: article_folder
  ac_author_username :: pystr
  ac_published_at :: "datetime option"
  ac_publish_status :: publish_status
  ac_metadata :: article_metadata
  ac_content_file_ids :: "pystr set"
  ac_created_at :: datetime
  ac_updated_at :: datetime
  ac_tags :: "tag list"

definition all_tags_exist_by_ids :: "tag list \<Rightarrow> pystr set \<Rightarrow> bool" where
  "all_tags_exist_by_ids ts ids \<longleftrightarrow> ids - tg_id ` set ts = {}"

definition is_available :: "article \<Rightarrow> bool" where
  "is_available a \<longleftrightarrow> ac_publish_status a = PUBLISHED"

definition managed_file_ids :: "article \<Rightarrow> pystr set" where
  "managed_file_ids a =
     (case md_cover_image_file_id (ac_metadata a) of
        None \<Rightarrow> ac_content_file_ids a
      | Some fid \<Rightarrow> ac_content_file_ids a \<union> {fid})"

definition localized_title :: "language \<Rightarrow> article \<Rightarrow> pystr" where
  "localized_title lang a = localized lang (ac_title_ru a) (ac_title_en a)"

definition localized_content :: "language \<Rightarrow> article \<Rightarrow> pystr" where
  "localized_content lang a = localized lang (ac_content_ru a) (ac_content_en a)"

definition localized_folder :: "language \<Rightarrow> article \<Rightarrow> pystr" where
  "localized_folder lang a = localized lang (fo_name_ru (ac_folder a)) (fo_name_en (ac_folder a))"

definition with_cover_image_url :: "pystr option \<Rightarrow> article \<Rightarrow> article" where
  "with_cover_image_url url a = a\<lparr>ac_metadata := (ac_metadata a)\<lparr>md_cover_image_url := url\<rparr>\<rparr>"

record published_article_for_seo =
  ps_slug :: pystr
  ps_publish_status :: publish_status
  ps_updated_at :: datetime

definition seo_from_articles :: "article list \<Rightarrow> published_article_for_seo list" where
  "seo_from_articles xs =
     map (\<lambda>a. \<lparr>ps_slug = ac_slug a, ps_publish_status = ac_publish_status a,
               ps_updated_at = ac_updated_at a\<rparr>) xs"

record articles_page =
  pg_values :: "article list"
  pg_total_count :: int
  pg_total_pages :: int

text \<open>\<open>ceil(total_count / page_size)\<close>, computed in floating point by the code and exact for every
  count below \<open>2 ^ 52\<close>.\<close>

definition from_page :: "article list \<Rightarrow> int \<Rightarrow> int \<Rightarrow> error + articles_page" where
  "from_page values total_count page_size =
     (if total_count > 0 \<and> page_size = 0 then Inl ZeroDivisionError
      else Inr \<lparr>pg_values = values, pg_total_count = total_count,
        pg_total_pages = (if total_count > 0 then - ((- total_count) div page_size) else 0)\<rparr>)"

record article_filters =
  af_page :: "int option"
  af_page_size :: "int option"
  af_language :: language
  af_only_published :: "bool option"
  af_publish_status :: "publish_status option"
  af_tag_slug :: "pystr option"
  af_published_from :: "date option"
  af_published_to :: "date option"
  af_search_query :: "pystr option"
  af_include_tags :: bool
  af_include_files :: bool
  af_order_for_seo :: bool

definition default_filters :: article_filters where
  "default_filters = \<lparr>af_page = None, af_page_size = None, af_language = EN, af_only_published = None,
     af_publish_status = None, af_tag_slug = None, af_published_from = None, af_published_to = None,
     af_search_query = None, af_include_tags = True, af_include_files = True,
     af_order_for_seo = False\<rparr>"

definition filters_limit :: "article_filters \<Rightarrow> error + int" where
  "filters_limit f = (case af_page_size f of None \<Rightarrow> Inl ValueError | Some n \<Rightarrow> Inr n)"

definition filters_offset :: "article_filters \<Rightarrow> error + int" where
  "filters_offset f =
     (case (af_page f, af_page_size f) of
        (Some page, Some page_size) \<Rightarrow> Inr ((page - 1) * page_size)
      | _ \<Rightarrow> Inl ValueError)"

record article_create_params =
  cp_id :: pystr
  cp_slug :: pystr
  cp_title_ru :: pystr
  cp_title_en :: pystr
  cp_content_ru :: pystr
  cp_content_en :: pystr
  cp_folder_id :: pystr
  cp_author_username :: pystr
  cp_publish_status :: publish_status
  cp_metadata :: article_metadata
  cp_tag_ids :: "pystr list"

definition create_content_file_ids :: "article_create_params \<Rightarrow> pystr set" where
  "create_content_file_ids p =
     extract_file_ids_from_markdown (cp_content_ru p) \<union> extract_file_ids_from_markdown (cp_content_en p)"

definition create_to_article ::
  "article_create_params \<Rightarrow> datetime \<Rightarrow> article_folder \<Rightarrow> tag list \<Rightarrow> article" where
  "create_to_article p now folder ts =
     \<lparr>ac_id = cp_id p, ac_slug = cp_slug p, ac_title_ru = cp_title_ru p, ac_title_en = cp_title_en p,
      ac_content_ru = cp_content_ru p, ac_content_en = cp_content_en p, ac_folder = folder,
      ac_author_username = cp_author_username p,
      ac_published_at = (if cp_publish_status p = PUBLISHED then Some now else None),
      ac_publish_status = cp_publish_status p, ac_metadata = cp_metadata p,
      ac_content_file_ids = create_content_file_ids p, ac_created_at = now, ac_updated_at = now,
      ac_tags = ts\<rparr>"

record article_update_params =
  ap_slug :: pystr
  ap_title_ru :: pystr
  ap_title_en :: pystr
  ap_content_ru :: pystr
  ap_content_en :: pystr
  ap_folder_id :: pystr
  ap_publish_status :: publish_status
  ap_metadata :: article_metadata
  ap_tag_ids :: "pystr list"

definition update_content_file_ids :: "article_update_params \<Rightarrow> pystr set" where
  "update_content_file_ids p =
     extract_file_ids_from_markdown (ap_content_ru p) \<union> extract_file_ids_from_markdown (ap_content_en p)"

definition update_to_article ::
  "article_update_params \<Rightarrow> article \<Rightarrow> datetime \<Rightarrow> article_folder \<Rightarrow> tag list \<Rightarrow> article" where
  "update_to_article p existing now folder ts =
     (let published_at =
        (if ac_published_at existing = None \<and> ap_publish_status p = PUBLISHED then Some now
         else ac_published_at existing)
      in
      \<lparr>ac_id = ac_id existing, ac_slug = ap_slug p, ac_title_ru = ap_title_ru p,
       ac_title_en = ap_title_en p, ac_content_ru = ap_content_ru p, ac_content_en = ap_content_en p,
       ac_folder = folder, ac_author_username = ac_author_username existing,
       ac_published_at = published_at, ac_publish_status = ap_publish_status p,
       ac_metadata = ap_metadata p, ac_content_file_ids = update_content_file_ids p,
       ac_created_at = ac_created_at existing, ac_updated_at = now, ac_tags = ts\<rparr>)"

subsection \<open>Tree\<close>

record tree_item =
  ti_title :: pystr
  ti_slug :: pystr
  ti_publish_status :: publish_status
  ti_published_at :: "datetime option"
  ti_updated_at :: datetime

record tree_item_data =
  td_folder_id :: pystr
  td_folder_key :: pystr
  td_folder :: pystr
  td_title :: pystr
  td_slug :: pystr
  td_publish_status :: publish_status
  td_published_at :: "datetime option"
  td_updated_at :: datetime

definition to_tree_item :: "tree_item_data \<Rightarrow> tree_item" where
  "to_tree_item i = \<lparr>ti_title = td_title i, ti_slug = td_slug i, ti_publish_status = td_publish_status i,
     ti_published_at = td_published_at i, ti_updated_at = td_updated_at i\<rparr>"

record tree_folder =
  tf_folder_id :: pystr
  tf_folder_key :: pystr
  tf_folder :: pystr
  tf_articles :: "tree_item list"

text \<open>The body of the loop of \<open>ArticleTree.from_items\<close> on the dictionary by folder identifier.\<close>

definition tree_add :: "(pystr, tree_folder) dict \<Rightarrow> tree_item_data \<Rightarrow> (pystr, tree_folder) dict" where
  "tree_add tree i =
     (let fo = (case dict_get (td_folder_id i) tree of
                  None \<Rightarrow> \<lparr>tf_folder_id = td_folder_id i, tf_folder_key = td_folder_key i,
                           tf_folder = td_folder i, tf_articles = []\<rparr>
                | Some fo \<Rightarrow> fo)
      in dict_set (td_folder_id i) (fo\<lparr>tf_articles := tf_articles fo @ [to_tree_item i]\<rparr>) tree)"

definition tree_from_items :: "tree_item_data list \<Rightarrow> tree_folder list" where
  "tree_from_items its = map snd (foldl tree_add [] its)"

subsection \<open>Folders and tags\<close>

record folder_create_params =
  fp_id :: pystr
  fp_key :: pystr
  fp_name_ru :: pystr
  fp_name_en :: pystr

definition to_folder :: "folder_create_params \<Rightarrow> int \<Rightarrow> article_folder" where
  "to_folder p priority = \<lparr>fo_id = fp_id p, fo_key = fp_key p, fo_name_ru = fp_name_ru p,
     fo_name_en = fp_name_en p, fo_priority = priority\<rparr>"

definition ensure_priority_order_matches ::
  "article_folder list \<Rightarrow> pystr list \<Rightarrow> (error, 's, unit) action" where
  "ensure_priority_order_matches fs ordered_ids =
     (let folder_ids = map fo_id fs in
      if length folder_ids \<noteq> length ordered_ids \<or> set folder_ids \<noteq> set ordered_ids
      then raise ArticleFolderPriorityInvalidError else ret ())"

record tag_params =
  tp_name_ru :: pystr
  tp_name_en :: pystr
  tp_slug :: pystr

definition to_tag :: "tag_params \<Rightarrow> pystr \<Rightarrow> tag" where
  "to_tag p tid = \<lparr>tg_id = tid, tg_name_ru = tp_name_ru p, tg_name_en = tp_name_en p, tg_slug = tp_slug p\<rparr>"

section \<open>Database storage\<close>

subsection \<open>Reading articles\<close>

definition to_metadata_domain_schema :: "db \<Rightarrow> bool \<Rightarrow> article_model \<Rightarrow> article_metadata" where
  "to_metadata_domain_schema d include_files m =
     \<lparr>md_seo_title_ru = am_seo_title_ru m, md_seo_title_en = am_seo_title_en m,
      md_seo_description_ru = am_seo_description_ru m, md_seo_description_en = am_seo_description_en m,
      md_cover_image_file_id = am_cover_image_file_id m,
      md_cover_image_file =
        (if include_files
         then Option.bind (am_cover_image_file_id m) (\<lambda>fid. row_by sf_id fid (files d)) else None),
      md_cover_image_url = None,
      md_cover_image_alt_ru = am_cover_image_alt_ru m, md_cover_image_alt_en = am_cover_image_alt_en m\<rparr>"

definition article_tag_ids :: "db \<Rightarrow> pystr \<Rightarrow> pystr list" where
  "article_tag_ids d aid = map atl_tag_id (filter (\<lambda>l. atl_article_id l = aid) (tag_links d))"

definition article_usage_ids :: "db \<Rightarrow> pystr \<Rightarrow> pystr set" where
  "article_usage_ids d aid = set (map afu_file_id (filter (\<lambda>l. afu_article_id l = aid) (file_usages d)))"

text \<open>Reading a missing folder or tag row is an \<open>AttributeError\<close> on \<open>None\<close>; the foreign keys exclude it.\<close>

definition to_domain_schema :: "db \<Rightarrow> bool \<Rightarrow> bool \<Rightarrow> article_model \<Rightarrow> error + article" where
  "to_domain_schema d include_tags include_files m =
     (case require AttributeError (row_by fo_id (am_folder_id m) (folders d)) of
        Inl e \<Rightarrow> Inl e
      | Inr folder \<Rightarrow>
          (case (if include_tags
                 then all_or_error (map (\<lambda>tid. require AttributeError (row_by tg_id tid (tags d)))
                        (article_tag_ids d (am_id m)))
                 else Inr []) of
             Inl e \<Rightarrow> Inl e
           | Inr ts \<Rightarrow>
               Inr \<lparr>ac_id = am_id m, ac_slug = am_slug m, ac_title_ru = am_title_ru m,
                    ac_title_en = am_title_en m, ac_content_ru = am_content_ru m,
                    ac_content_en = am_content_en m, ac_folder = folder,
                    ac_author_username = am_author_username m, ac_published_at = am_published_at m,
                    ac_publish_status = am_publish_status m,
                    ac_metadata = to_metadata_domain_schema d include_files m,
                    ac_content_file_ids = (if include_files then article_usage_ids d (am_id m) else {}),
                    ac_created_at = am_created_at m, ac_updated_at = am_updated_at m, ac_tags = ts\<rparr>))"

definition get_article_by_slug :: "pystr \<Rightarrow> article dbm" where
  "get_article_by_slug slug =
     bind (gets (\<lambda>d. row_by am_slug slug (articles d))) (\<lambda>m.
     case m of
       None \<Rightarrow> raise ArticleNotFoundError
     | Some m \<Rightarrow> (\<lambda>d. lift (to_domain_schema d True True m) d))"

text \<open>
  What PostgreSQL decides by itself is a parameter: the full-text search over the generated vector of a title and a
  content, whether a query matches and its rank, and the order of the rows that an \<open>ORDER BY\<close> leaves equal.  That
  order may change from one query to the next, in particular from page to page.
\<close>

record search_ops =
  so_matches :: "pystr \<Rightarrow> pystr \<Rightarrow> pystr \<Rightarrow> bool"
  so_rank :: "pystr \<Rightarrow> pystr \<Rightarrow> pystr \<Rightarrow> int"
  so_tie_order :: "article_filters \<Rightarrow> pystr \<Rightarrow> int"

definition title_column :: "language \<Rightarrow> article_model \<Rightarrow> pystr" where
  "title_column lang m = localized lang (am_title_ru m) (am_title_en m)"

definition content_column :: "language \<Rightarrow> article_model \<Rightarrow> pystr" where
  "content_column lang m = localized lang (am_content_ru m) (am_content_en m)"

definition folder_name_column :: "language \<Rightarrow> article_folder \<Rightarrow> pystr" where
  "folder_name_column lang f = localized lang (fo_name_ru f) (fo_name_en f)"

definition has_tag_slug :: "db \<Rightarrow> article_model \<Rightarrow> pystr \<Rightarrow> bool" where
  "has_tag_slug d m slug \<longleftrightarrow>
     (\<exists>l \<in> set (tag_links d). atl_article_id l = am_id m
        \<and> (\<exists>t \<in> set (tags d). tg_id t = atl_tag_id l \<and> tg_slug t = slug))"

text \<open>A comparison with a \<open>NULL\<close> publication date is not true, so such rows drop out.\<close>

definition apply_article_filters :: "search_ops \<Rightarrow> db \<Rightarrow> article_filters \<Rightarrow> article_model \<Rightarrow> bool" where
  "apply_article_filters ops d f m \<longleftrightarrow>
     (af_only_published f = Some True \<longrightarrow> am_publish_status m = PUBLISHED)
     \<and> (case af_publish_status f of None \<Rightarrow> True | Some st \<Rightarrow> am_publish_status m = st)
     \<and> (case af_tag_slug f of None \<Rightarrow> True | Some slug \<Rightarrow> has_tag_slug d m slug)
     \<and> (case af_published_from f of None \<Rightarrow> True
        | Some day \<Rightarrow> (case am_published_at m of None \<Rightarrow> False | Some t \<Rightarrow> date_start day \<le> t))
     \<and> (case af_published_to f of None \<Rightarrow> True
        | Some day \<Rightarrow> (case am_published_at m of None \<Rightarrow> False | Some t \<Rightarrow> t \<le> date_end day))
     \<and> (case af_search_query f of None \<Rightarrow> True
        | Some q \<Rightarrow> so_matches ops (title_column (af_language f) m) (content_column (af_language f) m) q)"

definition default_ordering :: "language \<Rightarrow> article_model \<Rightarrow> nat \<times> (nat \<times> int) \<times> int \<times> pystr" where
  "default_ordering lang m =
     (if am_publish_status m = PUBLISHED then 0 else 1, desc_nulls_last (am_published_at m),
      - am_updated_at m, title_column lang m)"

definition article_ordering ::
  "search_ops \<Rightarrow> article_filters \<Rightarrow> article_model \<Rightarrow> int \<times> nat \<times> (nat \<times> int) \<times> int \<times> pystr" where
  "article_ordering ops f m =
     (if af_order_for_seo f
      then (0, 0, desc_nulls_last (am_published_at m), - am_updated_at m, [])
      else
        ((case af_search_query f of None \<Rightarrow> 0
          | Some q \<Rightarrow> - so_rank ops (title_column (af_language f) m) (content_column (af_language f) m) q),
         default_ordering (af_language f) m))"

text \<open>The order of the rows of one query: its \<open>ORDER BY\<close>, which has no unique last column, then as the database has it.
  Titles compare by code points, the collation \<open>C\<close> of PostgreSQL.\<close>

definition row_order ::
  "search_ops \<Rightarrow> article_filters \<Rightarrow> article_model \<Rightarrow> (int \<times> nat \<times> (nat \<times> int) \<times> int \<times> pystr) \<times> int" where
  "row_order ops f m = (article_ordering ops f m, so_tie_order ops f (am_id m))"

definition limit_rows :: "int \<Rightarrow> int \<Rightarrow> 'a list \<Rightarrow> error + 'a list" where
  "limit_rows offset limit xs =
     (if offset < 0 \<or> limit < 0 then Inl (DataError (u ''must not be negative''))
      else Inr (take (nat limit) (drop (nat offset) xs)))"

definition list_articles :: "search_ops \<Rightarrow> article_filters \<Rightarrow> (article list \<times> int) dbm" where
  "list_articles ops f =
     bind (gets (\<lambda>d. sort_key (row_order ops f) (filter (apply_article_filters ops d f) (articles d))))
       (\<lambda>rows.
     let to_domain = (\<lambda>ms d. lift (all_or_error
           (map (to_domain_schema d (af_include_tags f) (af_include_files f)) ms)) d)
     in
     case (af_page f, af_page_size f) of
       (Some page, Some page_size) \<Rightarrow>
         bind (lift (filters_offset f)) (\<lambda>offset.
         bind (lift (filters_limit f)) (\<lambda>limit.
         bind (lift (limit_rows offset limit rows)) (\<lambda>ms.
         bind (to_domain ms) (\<lambda>as.
         ret (as, int (length rows))))))
     | (None, None) \<Rightarrow> bind (to_domain rows) (\<lambda>as. ret (as, int (length as)))
     | _ \<Rightarrow> raise ValueError)"

definition tree_row :: "language \<Rightarrow> article_folder \<Rightarrow> article_model \<Rightarrow> tree_item_data" where
  "tree_row lang fo m =
     \<lparr>td_folder_id = fo_id fo, td_folder_key = fo_key fo, td_folder = folder_name_column lang fo,
      td_title = title_column lang m, td_slug = am_slug m, td_publish_status = am_publish_status m,
      td_published_at = am_published_at m, td_updated_at = am_updated_at m\<rparr>"

text \<open>
  The lateral join of the public tree: the folders by priority and identifier, inside each folder
  its published articles in the order of the lateral subquery.
\<close>

definition list_published_tree_items :: "language \<Rightarrow> tree_item_data list dbm" where
  "list_published_tree_items lang =
     gets (\<lambda>d. concat (map (\<lambda>fo.
       map (tree_row lang fo)
         (sort_key (\<lambda>m. (desc_nulls_last (am_published_at m), - am_updated_at m, title_column lang m))
           (filter (\<lambda>m. am_folder_id m = fo_id fo \<and> am_publish_status m = PUBLISHED) (articles d))))
       (sort_key (\<lambda>fo. (fo_priority fo, fo_id fo)) (folders d))))"

definition list_tree_items :: "bool \<Rightarrow> language \<Rightarrow> tree_item_data list dbm" where
  "list_tree_items only_published lang =
     (if only_published then list_published_tree_items lang
      else gets (\<lambda>d. map (\<lambda>(fo, m). tree_row lang fo m)
        (sort_key (\<lambda>(fo, m). (fo_priority fo, fo_id fo, default_ordering lang m))
          [(fo, m). fo \<leftarrow> folders d, m \<leftarrow> articles d, fo_id fo = am_folder_id m])))"

subsection \<open>Writing articles\<close>

definition from_domain_schema :: "article \<Rightarrow> article_model" where
  "from_domain_schema a =
     \<lparr>am_id = ac_id a, am_title_ru = ac_title_ru a, am_title_en = ac_title_en a,
      am_content_ru = ac_content_ru a, am_content_en = ac_content_en a, am_slug = ac_slug a,
      am_folder_id = fo_id (ac_folder a), am_author_username = ac_author_username a,
      am_seo_title_ru = md_seo_title_ru (ac_metadata a), am_seo_title_en = md_seo_title_en (ac_metadata a),
      am_seo_description_ru = md_seo_description_ru (ac_metadata a),
      am_seo_description_en = md_seo_description_en (ac_metadata a),
      am_cover_image_file_id = md_cover_image_file_id (ac_metadata a),
      am_cover_image_alt_ru = md_cover_image_alt_ru (ac_metadata a),
      am_cover_image_alt_en = md_cover_image_alt_en (ac_metadata a),
      am_published_at = ac_published_at a, am_publish_status = ac_publish_status a,
      am_created_at = ac_created_at a, am_updated_at = ac_updated_at a\<rparr>"

definition update_from_domain_schema :: "article \<Rightarrow> article_model \<Rightarrow> article_model" where
  "update_from_domain_schema a m =
     m\<lparr>am_title_ru := ac_title_ru a, am_title_en := ac_title_en a,
       am_content_ru := ac_content_ru a, am_content_en := ac_content_en a, am_slug := ac_slug a,
       am_folder_id := fo_id (ac_folder a),
       am_seo_title_ru := md_seo_title_ru (ac_metadata a), am_seo_title_en := md_seo_title_en (ac_metadata a),
       am_seo_description_ru := md_seo_description_ru (ac_metadata a),
       am_seo_description_en := md_seo_description_en (ac_metadata a),
       am_cover_image_file_id := md_cover_image_file_id (ac_metadata a),
       am_cover_image_alt_ru := md_cover_image_alt_ru (ac_metadata a),
       am_cover_image_alt_en := md_cover_image_alt_en (ac_metadata a),
       am_publish_status := ac_publish_status a, am_published_at := ac_published_at a,
       am_updated_at := ac_updated_at a\<rparr>"

definition usage_links_from_domain :: "article \<Rightarrow> article_file_usage list" where
  "usage_links_from_domain a =
     map (\<lambda>fid. \<lparr>afu_article_id = ac_id a, afu_file_id = fid, afu_usage = ARTICLE_CONTENT_IMAGE\<rparr>)
       (sorted_list_of_set (ac_content_file_ids a))"

definition tag_links_from_domain :: "article \<Rightarrow> article_tag_link list" where
  "tag_links_from_domain a =
     map (\<lambda>t. \<lparr>atl_article_id = ac_id a, atl_tag_id = tg_id t\<rparr>) (ac_tags a)"

text \<open>
  The foreign keys and the uniqueness of the links that a flushed article must satisfy.  The link
  rows of an article are those of the old list that are kept, in place, then the new ones.
\<close>

definition article_references :: "article_model \<Rightarrow> article_tag_link list \<Rightarrow> article_file_usage list \<Rightarrow>
    'a dbm \<Rightarrow> 'a dbm" where
  "article_references m tls uls act =
     bind (gets (\<lambda>d. d)) (\<lambda>d.
     check_constraint (am_folder_id m \<in> fo_id ` set (folders d)) FolderForeignKey (
     check_constraint (set_option (am_cover_image_file_id m) \<subseteq> sf_id ` set (files d)) CoverFileForeignKey (
     check_constraint (afu_file_id ` set uls \<subseteq> sf_id ` set (files d)) UsageFileForeignKey (
     check_constraint (atl_tag_id ` set tls \<subseteq> tg_id ` set (tags d)) TagForeignKey (
     check_constraint (distinct tls) ArticleTagUniq act)))))"

definition storage_create_article :: "article \<Rightarrow> article dbm" where
  "storage_create_article a =
     (let m = from_domain_schema a; uls = usage_links_from_domain a; tls = tag_links_from_domain a in
     bind (gets articles) (\<lambda>ms.
     check_constraint (am_id m \<notin> am_id ` set ms) PrimaryKey (
     check_constraint (am_slug m \<notin> am_slug ` set ms) ArticleSlugUniq (
     article_references m tls uls (
     bind (modify (\<lambda>d. d\<lparr>articles := articles d @ [m], tag_links := tag_links d @ tls,
                           file_usages := file_usages d @ uls\<rparr>)) (\<lambda>_.
     get_article_by_slug (ac_slug a)))))))"

definition replace_links :: "('l \<Rightarrow> bool) \<Rightarrow> 'l list \<Rightarrow> 'l list \<Rightarrow> 'l list" where
  "replace_links mine new old =
     filter (\<lambda>l. mine l \<longrightarrow> l \<in> set new) old @ filter (\<lambda>l. l \<notin> set old) new"

definition storage_update_article :: "article \<Rightarrow> article dbm" where
  "storage_update_article a =
     bind (gets (\<lambda>d. row_by am_id (ac_id a) (articles d))) (\<lambda>existing.
     case existing of
       None \<Rightarrow> raise ArticleNotFoundError
     | Some existing \<Rightarrow>
         let m = update_from_domain_schema a existing;
             tls = tag_links_from_domain a; uls = usage_links_from_domain a in
         bind (gets articles) (\<lambda>ms.
         check_constraint
           (am_slug m \<notin> am_slug ` set (filter (\<lambda>r. am_id r \<noteq> am_id m) ms)) ArticleSlugUniq (
         article_references m tls uls (
         bind (modify (\<lambda>d. d\<lparr>
           articles := update_where (\<lambda>r. am_id r = am_id m) (update_from_domain_schema a) (articles d),
           tag_links := replace_links (\<lambda>l. atl_article_id l = am_id m) tls (tag_links d),
           file_usages := replace_links (\<lambda>l. afu_article_id l = am_id m) uls (file_usages d)\<rparr>)) (\<lambda>_.
         get_article_by_slug (ac_slug a))))))"

definition get_article_model :: "pystr \<Rightarrow> article_model dbm" where
  "get_article_model slug =
     bind (gets (\<lambda>d. row_by am_slug slug (articles d))) (\<lambda>m.
     case m of None \<Rightarrow> raise ArticleNotFoundError | Some m \<Rightarrow> ret m)"

text \<open>Links go with the article through the ORM cascade, counters and reactions through \<open>ON DELETE CASCADE\<close>.\<close>

definition remove_article :: "pystr \<Rightarrow> db \<Rightarrow> db" where
  "remove_article aid d = d\<lparr>
     articles := delete_where (\<lambda>r. am_id r = aid) (articles d),
     tag_links := delete_where (\<lambda>l. atl_article_id l = aid) (tag_links d),
     file_usages := delete_where (\<lambda>l. afu_article_id l = aid) (file_usages d),
     article_dailies := delete_where (\<lambda>r. ad_article_id r = aid) (article_dailies d),
     reactions := delete_where (\<lambda>r. ar_article_id r = aid) (reactions d)\<rparr>"

definition storage_delete_article :: "pystr \<Rightarrow> unit dbm" where
  "storage_delete_article slug =
     bind (get_article_model slug) (\<lambda>m. modify (remove_article (am_id m)))"

text \<open>The flush writes the row, and renews its audit date, only when a column has changed.\<close>

definition update_article_publish_status :: "env \<Rightarrow> pystr \<Rightarrow> publish_status \<Rightarrow> unit dbm" where
  "update_article_publish_status env slug st =
     bind (get_article_model slug) (\<lambda>m.
     let first_published = (st = PUBLISHED \<and> am_published_at m = None);
         changed = (am_publish_status m \<noteq> st \<or> first_published);
         m' = m\<lparr>am_publish_status := st,
                am_published_at := (if first_published then Some (env_now env) else am_published_at m),
                am_updated_at := (if changed then env_audit_touch env (am_updated_at m) else am_updated_at m)\<rparr>
     in modify (\<lambda>d. d\<lparr>articles := update_where (\<lambda>r. am_id r = am_id m) (\<lambda>_. m') (articles d)\<rparr>))"

subsection \<open>Folders\<close>

definition get_folder_by_id :: "pystr \<Rightarrow> article_folder dbm" where
  "get_folder_by_id fid =
     bind (gets (\<lambda>d. row_by fo_id fid (folders d))) (\<lambda>r.
     case r of None \<Rightarrow> raise ArticleFolderNotFoundError | Some fo \<Rightarrow> ret fo)"

definition list_folders :: "language \<Rightarrow> article_folder list dbm" where
  "list_folders lang =
     gets (\<lambda>d. sort_key (\<lambda>fo. (fo_priority fo, lower (folder_name_column lang fo), fo_id fo)) (folders d))"

definition next_folder_priority :: "int dbm" where
  "next_folder_priority =
     gets (\<lambda>d. let p = next_priority (map fo_priority (folders d)) in if p = 0 then 1 else p)"

definition folder_key_exists :: "pystr \<Rightarrow> bool dbm" where
  "folder_key_exists key = gets (\<lambda>d. \<exists>fo \<in> set (folders d). lower (fo_key fo) = lower key)"

definition storage_create_folder :: "article_folder \<Rightarrow> article_folder dbm" where
  "storage_create_folder fo =
     bind (gets folders) (\<lambda>fs.
     check_constraint (fo_id fo \<notin> fo_id ` set fs) PrimaryKey (
     check_constraint (lower (fo_key fo) \<notin> (\<lambda>r. lower (fo_key r)) ` set fs) ArticleFolderKeyLowerUniq (
     bind (modify (\<lambda>d. d\<lparr>folders := folders d @ [fo]\<rparr>)) (\<lambda>_. ret fo))))"

text \<open>The nested transaction: a folder that an article references makes the delete fail.\<close>

definition storage_delete_folder :: "pystr \<Rightarrow> unit dbm" where
  "storage_delete_folder fid =
     bind (gets (\<lambda>d. d)) (\<lambda>d.
     if fid \<notin> fo_id ` set (folders d) then raise ArticleFolderNotFoundError
     else if fid \<in> am_folder_id ` set (articles d) then raise ArticleFolderInUseError
     else modify (\<lambda>d. d\<lparr>folders := delete_where (\<lambda>fo. fo_id fo = fid) (folders d)\<rparr>))"

definition set_folder_priority :: "int \<Rightarrow> article_folder \<Rightarrow> article_folder" where
  "set_folder_priority n fo = fo\<lparr>fo_priority := n\<rparr>"

definition storage_update_folder_priorities :: "pystr list \<Rightarrow> unit dbm" where
  "storage_update_folder_priorities ordered_ids =
     modify (\<lambda>d. d\<lparr>folders := update_priorities fo_id set_folder_priority ordered_ids (folders d)\<rparr>)"

subsection \<open>Tags\<close>

definition get_tags_by_ids :: "pystr list \<Rightarrow> tag list dbm" where
  "get_tags_by_ids ids =
     (if ids = [] then ret [] else gets (\<lambda>d. filter (\<lambda>t. tg_id t \<in> set ids) (tags d)))"

definition tag_name_column :: "language \<Rightarrow> tag \<Rightarrow> pystr" where
  "tag_name_column lang t = localized lang (tg_name_ru t) (tg_name_en t)"

definition secondary_tag_name_column :: "language \<Rightarrow> tag \<Rightarrow> pystr" where
  "secondary_tag_name_column lang t = localized lang (tg_name_en t) (tg_name_ru t)"

definition list_tags :: "language \<Rightarrow> bool \<Rightarrow> tag list dbm" where
  "list_tags lang only_with_published =
     gets (\<lambda>d. sort_key (\<lambda>t. (lower (tag_name_column lang t), tg_id t))
       (filter (\<lambda>t. only_with_published \<longrightarrow>
          (\<exists>l \<in> set (tag_links d). atl_tag_id l = tg_id t
             \<and> (\<exists>m \<in> set (articles d). am_id m = atl_article_id l \<and> am_publish_status m = PUBLISHED)))
         (tags d)))"

definition storage_create_tag :: "tag \<Rightarrow> tag dbm" where
  "storage_create_tag t =
     bind (gets tags) (\<lambda>ts.
     check_constraint (tg_id t \<notin> tg_id ` set ts) PrimaryKey (
     check_constraint (tg_slug t \<notin> tg_slug ` set ts) TagSlugUniq (
     bind (modify (\<lambda>d. d\<lparr>tags := tags d @ [t]\<rparr>)) (\<lambda>_. ret t))))"

definition storage_update_tag :: "tag \<Rightarrow> tag dbm" where
  "storage_update_tag t =
     bind (gets tags) (\<lambda>ts.
     case row_by tg_id (tg_id t) ts of
       None \<Rightarrow> raise TagNotFoundError
     | Some _ \<Rightarrow>
         check_constraint (tg_slug t \<notin> tg_slug ` set (filter (\<lambda>r. tg_id r \<noteq> tg_id t) ts)) TagSlugUniq (
         bind (modify (\<lambda>d. d\<lparr>tags := update_where (\<lambda>r. tg_id r = tg_id t) (\<lambda>_. t) (tags d)\<rparr>))
           (\<lambda>_. ret t)))"

definition storage_delete_tag :: "pystr \<Rightarrow> unit dbm" where
  "storage_delete_tag tid =
     bind (gets tags) (\<lambda>ts.
     if tid \<notin> tg_id ` set ts then raise TagNotFoundError
     else modify (\<lambda>d. d\<lparr>tags := delete_where (\<lambda>t. tg_id t = tid) (tags d),
                        tag_links := delete_where (\<lambda>l. atl_tag_id l = tid) (tag_links d)\<rparr>))"

section \<open>Use cases\<close>

definition hydrate :: "env \<Rightarrow> article \<Rightarrow> (error, 's, article) action" where
  "hydrate env a =
     (case md_cover_image_file (ac_metadata a) of
        None \<Rightarrow> ret (with_cover_image_url None a)
      | Some f \<Rightarrow>
          bind (get_access_url env (sf_relative_path f) (sf_namespace f)) (\<lambda>url.
          ret (with_cover_image_url (Some url) a)))"

definition get_article :: "env \<Rightarrow> pystr \<Rightarrow> bool \<Rightarrow> article dbm" where
  "get_article env slug only_published =
     bind (get_article_by_slug slug) (\<lambda>a.
     if only_published \<and> \<not> is_available a then raise ArticleNotFoundError else hydrate env a)"

definition uc_list_articles :: "env \<Rightarrow> search_ops \<Rightarrow> article_filters \<Rightarrow> articles_page dbm" where
  "uc_list_articles env ops f =
     (case (af_page f, af_page_size f) of
        (Some page, Some page_size) \<Rightarrow>
          bind (list_articles ops f) (\<lambda>(as, total_count).
          bind (map_action (hydrate env) as) (\<lambda>hydrated.
          lift (from_page hydrated total_count page_size)))
      | _ \<Rightarrow> raise ValueError)"

definition list_published_articles_for_seo :: "search_ops \<Rightarrow> published_article_for_seo list dbm" where
  "list_published_articles_for_seo ops =
     bind (list_articles ops (default_filters\<lparr>af_only_published := Some True, af_include_tags := False,
             af_include_files := False, af_order_for_seo := True\<rparr>)) (\<lambda>(as, _).
     ret (seo_from_articles (filter is_available as)))"

definition list_tree :: "bool \<Rightarrow> language \<Rightarrow> tree_folder list dbm" where
  "list_tree only_published lang =
     bind (list_tree_items only_published lang) (\<lambda>its. ret (tree_from_items its))"

text \<open>The checks that creating and updating an article share: tags, folder, cover and content files.\<close>

definition check_article_references ::
  "pystr list \<Rightarrow> pystr \<Rightarrow> pystr option \<Rightarrow> pystr set \<Rightarrow> (tag list \<times> article_folder) dbm" where
  "check_article_references tag_ids folder_id cover content_ids =
     bind (get_tags_by_ids tag_ids) (\<lambda>ts.
     if \<not> all_tags_exist_by_ids ts (set tag_ids) then raise TagNotFoundError
     else
       bind (get_folder_by_id folder_id) (\<lambda>folder.
       bind (case cover of None \<Rightarrow> ret ()
             | Some fid \<Rightarrow> ensure_files_allowed {fid} ARTICLE_COVER_IMAGE) (\<lambda>_.
       bind (ensure_files_allowed content_ids ARTICLE_CONTENT_IMAGE) (\<lambda>_.
       ret (ts, folder)))))"

definition create_article ::
  "env \<Rightarrow> publication_access \<Rightarrow> article_create_params \<Rightarrow> datetime \<Rightarrow> article dbm" where
  "create_article env pub p now =
     bind (ensure_allowed pub [cp_publish_status p]) (\<lambda>_.
     bind (check_article_references (cp_tag_ids p) (cp_folder_id p)
             (md_cover_image_file_id (cp_metadata p)) (create_content_file_ids p)) (\<lambda>(ts, folder).
     let created = create_to_article p now folder ts in
     bind (lock_file_usage_transitions (managed_file_ids created)) (\<lambda>_.
     bind (storage_create_article created) (\<lambda>a.
     bind (sync_file_usages env (managed_file_ids created) {} now) (\<lambda>_.
     hydrate env a)))))"

definition update_article ::
  "env \<Rightarrow> publication_access \<Rightarrow> pystr \<Rightarrow> article_update_params \<Rightarrow> datetime \<Rightarrow> article dbm" where
  "update_article env pub slug p now =
     bind (get_article_by_slug slug) (\<lambda>existing.
     bind (ensure_allowed pub [ac_publish_status existing, ap_publish_status p]) (\<lambda>_.
     bind (check_article_references (ap_tag_ids p) (ap_folder_id p)
             (md_cover_image_file_id (ap_metadata p)) (update_content_file_ids p)) (\<lambda>(ts, folder).
     let updated = update_to_article p existing now folder ts in
     bind (lock_file_usage_transitions (managed_file_ids existing \<union> managed_file_ids updated)) (\<lambda>_.
     bind (storage_update_article updated) (\<lambda>a.
     bind (sync_file_usages env (managed_file_ids updated)
             (managed_file_ids existing - managed_file_ids updated) now) (\<lambda>_.
     hydrate env a))))))"

definition delete_article :: "env \<Rightarrow> publication_access \<Rightarrow> pystr \<Rightarrow> datetime \<Rightarrow> unit dbm" where
  "delete_article env pub slug now =
     bind (get_article_by_slug slug) (\<lambda>a.
     bind (ensure_allowed pub [ac_publish_status a]) (\<lambda>_.
     bind (lock_file_usage_transitions (managed_file_ids a)) (\<lambda>_.
     bind (storage_delete_article slug) (\<lambda>_.
     sync_file_usages env {} (managed_file_ids a) now))))"

definition switch_article_publish_status ::
  "env \<Rightarrow> publication_access \<Rightarrow> pystr \<Rightarrow> publish_status \<Rightarrow> unit dbm" where
  "switch_article_publish_status env pub slug st =
     bind (ensure_allowed pub [PUBLISHED]) (\<lambda>_. update_article_publish_status env slug st)"

definition create_tag :: "tag_params \<Rightarrow> pystr \<Rightarrow> tag dbm" where
  "create_tag p tid = storage_create_tag (to_tag p tid)"

definition update_tag :: "pystr \<Rightarrow> tag_params \<Rightarrow> tag dbm" where
  "update_tag tid p = storage_update_tag (to_tag p tid)"

definition delete_tag :: "pystr \<Rightarrow> unit dbm" where
  "delete_tag tid = storage_delete_tag tid"

definition create_folder :: "folder_create_params \<Rightarrow> article_folder dbm" where
  "create_folder p =
     bind (folder_key_exists (fp_key p)) (\<lambda>taken.
     if taken then raise ArticleFolderAlreadyExistsError
     else bind next_folder_priority (\<lambda>n. storage_create_folder (to_folder p n)))"

definition delete_folder :: "pystr \<Rightarrow> unit dbm" where
  "delete_folder fid = storage_delete_folder fid"

definition update_folder_priorities :: "pystr list \<Rightarrow> unit dbm" where
  "update_folder_priorities ordered_ids =
     bind (list_folders EN) (\<lambda>fs.
     bind (ensure_priority_order_matches fs ordered_ids) (\<lambda>_.
     storage_update_folder_priorities ordered_ids))"

end
