(* ===== verification/Articles_Invariant.thy ===== *)
theory Articles_Invariant
  imports Articles
begin

text \<open>
  The invariant of the article tables and its preservation by every operation of the component and
  of the file service: keys, references, the agreement of the recorded file usages with the markers
  in the texts, the purposes of the files used, and the publication date of published articles.
\<close>

section \<open>Invariant\<close>

definition file_purposes :: "db \<Rightarrow> (pystr \<times> file_purpose) set" where
  "file_purposes d = (\<lambda>f. (sf_id f, sf_purpose f)) ` set (files d)"

definition article_keys_inv :: "db \<Rightarrow> bool" where
  "article_keys_inv d \<longleftrightarrow>
     distinct (map am_id (articles d)) \<and> distinct (map am_slug (articles d))
     \<and> distinct (map fo_id (folders d)) \<and> distinct (map (\<lambda>fo. lower (fo_key fo)) (folders d))
     \<and> distinct (map tg_id (tags d)) \<and> distinct (map tg_slug (tags d))
     \<and> distinct (tag_links d) \<and> distinct (file_usages d)"

definition article_refs_inv :: "db \<Rightarrow> bool" where
  "article_refs_inv d \<longleftrightarrow>
     am_folder_id ` set (articles d) \<subseteq> fo_id ` set (folders d)
     \<and> atl_article_id ` set (tag_links d) \<subseteq> am_id ` set (articles d)
     \<and> atl_tag_id ` set (tag_links d) \<subseteq> tg_id ` set (tags d)
     \<and> afu_article_id ` set (file_usages d) \<subseteq> am_id ` set (articles d)
     \<and> ad_article_id ` set (article_dailies d) \<subseteq> am_id ` set (articles d)
     \<and> ar_article_id ` set (reactions d) \<subseteq> am_id ` set (articles d)"

definition marked_file_ids :: "article_model \<Rightarrow> pystr set" where
  "marked_file_ids m =
     extract_file_ids_from_markdown (am_content_ru m) \<union> extract_file_ids_from_markdown (am_content_en m)"

definition article_usage_inv :: "db \<Rightarrow> bool" where
  "article_usage_inv d \<longleftrightarrow>
     (\<forall>m \<in> set (articles d). article_usage_ids d (am_id m) = marked_file_ids m)
     \<and> (\<forall>m \<in> set (articles d). \<forall>fid. am_cover_image_file_id m = Some fid \<longrightarrow>
          (fid, ARTICLE_COVER_IMAGE) \<in> file_purposes d)
     \<and> (\<forall>l \<in> set (file_usages d). (afu_file_id l, ARTICLE_CONTENT_IMAGE) \<in> file_purposes d)"

definition article_dates_inv :: "db \<Rightarrow> bool" where
  "article_dates_inv d \<longleftrightarrow>
     (\<forall>m \<in> set (articles d). am_publish_status m = PUBLISHED \<longrightarrow> am_published_at m \<noteq> None)"

definition articles_inv :: "db \<Rightarrow> bool" where
  "articles_inv d \<longleftrightarrow>
     article_keys_inv d \<and> article_refs_inv d \<and> article_usage_inv d \<and> article_dates_inv d"

definition content_inv :: "db \<Rightarrow> bool" where
  "content_inv d \<longleftrightarrow> files_inv d \<and> articles_inv d"

lemmas articles_inv_defs = articles_inv_def article_keys_inv_def article_refs_inv_def
  article_usage_inv_def article_dates_inv_def

lemma link_article:
  "articles_inv d \<Longrightarrow> l \<in> set (file_usages d) \<Longrightarrow> afu_article_id l \<in> am_id ` set (articles d)"
  "articles_inv d \<Longrightarrow> k \<in> set (tag_links d) \<Longrightarrow> atl_article_id k \<in> am_id ` set (articles d)"
  by (auto simp: articles_inv_def article_refs_inv_def)

lemma content_inv_empty: "content_inv empty_db"
  by (simp add: content_inv_def files_inv_def articles_inv_defs empty_db_def used_file_ids_def)

section \<open>Frames: the file tables\<close>

lemma articles_inv_files:
  assumes inv: "articles_inv d"
    and keep: "\<And>fid pu. (fid, pu) \<in> file_purposes d \<Longrightarrow> fid \<in> used_file_ids d \<Longrightarrow>
                 (fid, pu) \<in> (\<lambda>f. (sf_id f, sf_purpose f)) ` set fs"
  shows "articles_inv (d\<lparr>files := fs\<rparr>)"
proof -
  have "article_usage_inv (d\<lparr>files := fs\<rparr>)"
  proof -
    have "article_usage_ids (d\<lparr>files := fs\<rparr>) aid = article_usage_ids d aid" for aid
      by (simp add: article_usage_ids_def)
    moreover have "fid \<in> used_file_ids d" if "m \<in> set (articles d)" "am_cover_image_file_id m = Some fid"
      for m fid using that by (force simp: used_file_ids_def)
    moreover have "afu_file_id l \<in> used_file_ids d" if "l \<in> set (file_usages d)" for l
      using that by (simp add: used_file_ids_def)
    ultimately show ?thesis
      using inv keep by (auto simp: articles_inv_def article_usage_inv_def file_purposes_def[of "d\<lparr>files := fs\<rparr>"])
  qed
  then show ?thesis
    using inv by (simp add: articles_inv_def article_keys_inv_def article_refs_inv_def article_dates_inv_def)
qed

lemma articles_inv_file_update:
  assumes "articles_inv d" and "\<And>f. sf_id (g f) = sf_id f \<and> sf_purpose (g f) = sf_purpose f"
  shows "articles_inv (d\<lparr>files := update_where p g (files d)\<rparr>)"
proof (rule articles_inv_files[OF assms(1)])
  fix fid pu assume "(fid, pu) \<in> file_purposes d"
  moreover have "(\<lambda>f. (sf_id f, sf_purpose f)) ` set (update_where p g (files d)) =
      (\<lambda>f. (sf_id f, sf_purpose f)) ` set (files d)"
    by (rule image_update_where) (simp add: assms(2))
  ultimately show "(fid, pu) \<in> (\<lambda>f. (sf_id f, sf_purpose f)) ` set (update_where p g (files d))"
    by (simp add: file_purposes_def)
qed

lemma articles_inv_file_delete:
  assumes "articles_inv d" and "\<And>f. f \<in> set (files d) \<Longrightarrow> p f \<Longrightarrow> sf_id f \<notin> used_file_ids d"
  shows "articles_inv (d\<lparr>files := delete_where p (files d)\<rparr>)"
  using assms(2) by (intro articles_inv_files[OF assms(1)]) (force simp: file_purposes_def)

lemma articles_inv_file_add: "articles_inv d \<Longrightarrow> articles_inv (d\<lparr>files := files d @ [f]\<rparr>)"
  by (rule articles_inv_files) (auto simp: file_purposes_def)

lemma create_file_articles: "keeps articles_inv (create_file f)"
  unfolding create_file_def
  by (intro keeps_intros keeps_modify) (simp add: articles_inv_file_add)

lemma refresh_articles: "keeps articles_inv (refresh_file_orphaned_at env fid t)"
  unfolding refresh_file_orphaned_at_def
  by (intro keeps_intros keeps_modify) (simp add: articles_inv_file_update)

lemma update_file_name_articles: "keeps articles_inv (update_file_name fid name t)"
  unfolding update_file_name_def
  by (intro keeps_intros keeps_modify) (simp add: articles_inv_file_update)

lemma delete_file_row_articles: "keeps articles_inv (delete_file_row fid)"
proof (rule keepsI)
  fix d assume inv: "articles_inv d"
  then have "articles_inv (d\<lparr>files := delete_where (\<lambda>f. sf_id f = fid) (files d)\<rparr>)"
    if "\<not> (fid \<in> sf_id ` set (files d) \<and> file_used d fid)"
    using that by (intro articles_inv_file_delete) (auto simp: file_used_iff)
  then show "articles_inv (snd (delete_file_row fid d))"
    using inv by (auto simp: delete_file_row_def run_simps)
qed

lemma set_files_attached_articles: "keeps articles_inv (set_files_attached env ids)"
  unfolding set_files_attached_def
  by (intro keeps_intros keeps_modify) (simp add: articles_inv_file_update)

lemma set_files_orphaned_articles: "keeps articles_inv (set_files_orphaned_if_unused env ids t)"
  unfolding set_files_orphaned_if_unused_def
  by (intro keeps_intros keeps_modify) (simp add: articles_inv_file_update)

lemma sync_file_usages_articles: "keeps articles_inv (sync_file_usages env a b t)"
  unfolding sync_file_usages_def
  by (intro keeps_intros set_files_attached_articles set_files_orphaned_articles)

lemma keeps_conj: "keeps I m \<Longrightarrow> keeps J m \<Longrightarrow> keeps (\<lambda>s. I s \<and> J s) m"
  by (simp add: keeps_def)

lemma keeps_content:
  "keeps files_inv m \<Longrightarrow> keeps articles_inv m \<Longrightarrow> keeps content_inv m"
  unfolding content_inv_def[abs_def] by (rule keeps_conj)

lemma keeps_content_w:
  "keeps (\<lambda>w. files_inv (w_db w)) m \<Longrightarrow> keeps (\<lambda>w. articles_inv (w_db w)) m \<Longrightarrow>
   keeps (\<lambda>w. content_inv (w_db w)) m"
  unfolding content_inv_def by (rule keeps_conj)

lemma upload_file_content: "keeps (\<lambda>w. content_inv (w_db w)) (upload_file env ops p now)"
proof (rule keeps_content_w[OF upload_file_keeps])
  show "keeps (\<lambda>w. articles_inv (w_db w)) (upload_file env ops p now)"
    unfolding upload_file_def Let_def
    by (auto intro!: keeps_intros create_file_articles refresh_articles split: option.splits)
qed

lemma service_update_file_content: "keeps (\<lambda>w. content_inv (w_db w)) (service_update_file env fid name now)"
proof (rule keeps_content_w[OF service_update_file_keeps])
  show "keeps (\<lambda>w. articles_inv (w_db w)) (service_update_file env fid name now)"
    unfolding service_update_file_def by (intro keeps_intros update_file_name_articles)
qed

lemma service_delete_file_content: "keeps (\<lambda>w. content_inv (w_db w)) (service_delete_file env fid)"
proof (rule keeps_content_w[OF service_delete_file_keeps])
  show "keeps (\<lambda>w. articles_inv (w_db w)) (service_delete_file env fid)"
    unfolding service_delete_file_def by (intro keeps_intros delete_file_row_articles)
qed

lemma prune_content: "keeps (\<lambda>w. content_inv (w_db w)) (prune env limit cutoff)"
proof (rule keeps_content_w[OF prune_keeps], rule keepsI)
  fix w :: world assume inv: "articles_inv (w_db w)"
  let ?cs = "deletable env (cleanup_candidates (w_db w) cutoff limit)"
  have "\<not> file_used (w_db w) (sf_id f)" if "f \<in> set ?cs" for f
    using that cleanup_candidates_sound by (auto simp: deletable_def)
  then have "articles_inv ((w_db w)\<lparr>files :=
      delete_where (\<lambda>f. sf_id f \<in> sf_id ` set ?cs) (files (w_db w))\<rparr>)"
    using inv by (intro articles_inv_file_delete) (auto simp: file_used_iff)
  then show "articles_inv (w_db (snd (prune env limit cutoff w)))"
    by (simp add: prune_run Let_def without_files_def)
qed

section \<open>Synchronising the orphan marks\<close>

text \<open>
  The heart of the bookkeeping: when the rows of the articles change so that the attached files are
  used and every file that lost its last use is among the detached ones, synchronising restores the
  agreement of the marks.
\<close>

lemma sync_files_inv:
  assumes inv: "files_inv d" and files: "files e = files d"
    and attached: "attached \<subseteq> used_file_ids e" and grown: "used_file_ids e \<subseteq> used_file_ids d \<union> attached"
    and detached: "used_file_ids d - used_file_ids e \<subseteq> detached"
    and exist: "used_file_ids e \<subseteq> sf_id ` set (files d)"
  shows "files_inv (snd (sync_file_usages env attached detached t e))"
proof -
  let ?att = "\<lambda>f. sf_id f \<in> attached \<and> sf_orphaned_at f \<noteq> None"
  let ?clear = "\<lambda>f. f\<lparr>sf_orphaned_at := None, sf_updated_at := env_audit_touch env (sf_updated_at f)\<rparr>"
  let ?det = "\<lambda>f. sf_id f \<in> detached \<and> \<not> file_used e (sf_id f)"
  let ?mark = "\<lambda>f. f\<lparr>sf_orphaned_at := Some t, sf_updated_at := env_audit_touch env (sf_updated_at f)\<rparr>"
  let ?fs = "update_where ?det ?mark (update_where ?att ?clear (files e))"
  have run: "snd (sync_file_usages env attached detached t e) = e\<lparr>files := ?fs\<rparr>"
  proof -
    have "update_where (\<lambda>f. False) g xs = xs" for g and xs :: "stored_file list"
      by (simp add: update_where_def)
    then show ?thesis
      by (auto simp: sync_file_usages_def set_files_attached_def set_files_orphaned_if_unused_def
          lock_files_def run_simps)
  qed
  have ids: "map sf_id ?fs = map sf_id (files d)" "map object_key ?fs = map object_key (files d)"
    "sf_id ` set ?fs = sf_id ` set (files d)"
    by (simp_all add: map_update_where image_update_where object_key_def files)
  have "sf_orphaned_at g = None \<longleftrightarrow> sf_id g \<in> used_file_ids e" and "sf_namespace g = media"
    if "g \<in> set ?fs" for g
  proof -
    from that obtain h where h: "h \<in> set (update_where ?att ?clear (files d))"
      and g: "g = (if ?det h then ?mark h else h)"
      unfolding in_update_where[of g] files by blast
    from h obtain f where f: "f \<in> set (files d)" and hf: "h = (if ?att f then ?clear f else f)"
      unfolding in_update_where by blast
    have mark: "sf_orphaned_at f = None \<longleftrightarrow> sf_id f \<in> used_file_ids d"
      using files_inv_mark[OF inv f] by (simp add: file_used_iff)
    show "sf_orphaned_at g = None \<longleftrightarrow> sf_id g \<in> used_file_ids e"
      unfolding g hf using mark attached grown detached by (auto simp: file_used_iff)
    show "sf_namespace g = media" unfolding g hf using files_inv_media[OF inv f] by simp
  qed
  then show ?thesis
    using inv ids exist unfolding run by (auto simp: files_inv_def file_used_iff)
qed

section \<open>What the reads of a use case establish\<close>

lemma ensure_files_allowed_success:
  assumes "ensure_files_allowed ids pu d = (Inr x, d')" and "finite ids"
  shows "d' = d \<and> (\<forall>fid \<in> ids. (fid, pu) \<in> file_purposes d)"
proof -
  have "for_each xs (\<lambda>fid. bind (get_file fid) (\<lambda>f.
      if sf_purpose f \<noteq> pu then raise FilePurposeNotAllowedError else ret ())) d = (Inr y, d') \<Longrightarrow>
      d' = d \<and> (\<forall>fid \<in> set xs. (fid, pu) \<in> file_purposes d)" for xs y
    by (induction xs arbitrary: y)
       (auto simp: run_simps get_file_def file_purposes_def split: option.splits if_splits
         dest!: row_by_SomeD)
  from this[of "sorted_list_of_set ids" x] assms show ?thesis
    by (simp add: ensure_files_allowed_def)
qed

lemma check_references_success:
  assumes "check_article_references tag_ids folder_id cover content_ids d = (Inr (ts, folder), d')"
    and "finite content_ids"
  shows "d' = d \<and> folder \<in> set (folders d) \<and> fo_id folder = folder_id
    \<and> ts = filter (\<lambda>t. tg_id t \<in> set tag_ids) (tags d) \<and> set tag_ids \<subseteq> tg_id ` set ts
    \<and> (\<forall>fid. cover = Some fid \<longrightarrow> (fid, ARTICLE_COVER_IMAGE) \<in> file_purposes d)
    \<and> (\<forall>fid \<in> content_ids. (fid, ARTICLE_CONTENT_IMAGE) \<in> file_purposes d)"
proof -
  have tags: "get_tags_by_ids tag_ids d = (Inr (filter (\<lambda>t. tg_id t \<in> set tag_ids) (tags d)), d)"
    by (simp add: get_tags_by_ids_def run_simps)
  show ?thesis
    using assms unfolding check_article_references_def
    by (auto elim!: bind_InrE simp: tags run_simps all_tags_exist_by_ids_def get_folder_by_id_def
        simp del: run_bind split: option.splits if_splits
        dest!: row_by_SomeD ensure_files_allowed_success[OF _ assms(2)]
          ensure_files_allowed_success[OF _ finite.insertI[OF finite.emptyI]]) blast+
qed

lemma get_article_by_slug_success:
  assumes "get_article_by_slug slug d = (Inr a, d')"
  obtains m where "d' = d" "m \<in> set (articles d)" "am_slug m = slug" "to_domain_schema d True True m = Inr a"
  using assms
  by (auto simp: get_article_by_slug_def run_simps split: option.splits dest!: row_by_SomeD)

lemma to_domain_fields:
  assumes "to_domain_schema d include_tags include_files m = Inr a"
  shows "ac_id a = am_id m" "ac_slug a = am_slug m" "ac_publish_status a = am_publish_status m"
    "ac_published_at a = am_published_at m" "ac_author_username a = am_author_username m"
    "ac_created_at a = am_created_at m" "ac_updated_at a = am_updated_at m"
    "md_cover_image_file_id (ac_metadata a) = am_cover_image_file_id m"
    "ac_content_file_ids a = (if include_files then article_usage_ids d (am_id m) else {})"
    "ac_folder a \<in> set (folders d)" "fo_id (ac_folder a) = am_folder_id m"
  using assms
  by (auto simp: to_domain_schema_def require_def to_metadata_domain_schema_def
      split: option.splits sum.splits dest!: row_by_SomeD)

lemma run_lock_transitions [run_simps]: "lock_file_usage_transitions ids s = (Inr (), s)"
  by (simp add: lock_file_usage_transitions_def lock_files_def run_simps)

lemma hydrate_state: "hydrate env a s = (Inr b, s') \<Longrightarrow> s' = s"
  by (auto simp: hydrate_def get_access_url_def ensure_valid_namespace_def run_simps
      split: option.splits if_splits)

lemma finite_extract [simp]: "finite (extract_file_ids_from_markdown c)"
  by (simp add: extract_file_ids_from_markdown_def)

lemma managed_file_ids_eq:
  "managed_file_ids a = ac_content_file_ids a \<union> set_option (md_cover_image_file_id (ac_metadata a))"
  by (auto simp: managed_file_ids_def split: option.split)

section \<open>Creating an article\<close>

definition with_article :: "article \<Rightarrow> db \<Rightarrow> db" where
  "with_article a d = d\<lparr>articles := articles d @ [from_domain_schema a],
     tag_links := tag_links d @ tag_links_from_domain a,
     file_usages := file_usages d @ usage_links_from_domain a\<rparr>"

lemma article_references_success:
  assumes "article_references m tls uls act d = (Inr x, d')"
  shows "act d = (Inr x, d') \<and> am_folder_id m \<in> fo_id ` set (folders d)
    \<and> set_option (am_cover_image_file_id m) \<subseteq> sf_id ` set (files d)
    \<and> afu_file_id ` set uls \<subseteq> sf_id ` set (files d)
    \<and> atl_tag_id ` set tls \<subseteq> tg_id ` set (tags d) \<and> distinct tls"
  using assms by (auto simp: article_references_def run_simps split: if_splits)

lemma storage_create_article_success:
  assumes "storage_create_article a d = (Inr b, d')"
  shows "d' = with_article a d \<and> get_article_by_slug (ac_slug a) (with_article a d) = (Inr b, d')
    \<and> ac_id a \<notin> am_id ` set (articles d) \<and> ac_slug a \<notin> am_slug ` set (articles d)
    \<and> fo_id (ac_folder a) \<in> fo_id ` set (folders d)
    \<and> atl_tag_id ` set (tag_links_from_domain a) \<subseteq> tg_id ` set (tags d)
    \<and> distinct (tag_links_from_domain a)"
proof -
  let ?m = "from_domain_schema a" and ?tls = "tag_links_from_domain a" and ?uls = "usage_links_from_domain a"
  let ?act = "bind (modify (\<lambda>d. d\<lparr>articles := articles d @ [?m], tag_links := tag_links d @ ?tls,
      file_usages := file_usages d @ ?uls\<rparr>)) (\<lambda>_. get_article_by_slug (ac_slug a))"
  have "am_id ?m \<notin> am_id ` set (articles d)" "am_slug ?m \<notin> am_slug ` set (articles d)"
    and refs: "article_references ?m ?tls ?uls ?act d = (Inr b, d')"
    using assms by (simp_all add: storage_create_article_def Let_def run_simps split: if_splits)
  moreover have get: "get_article_by_slug (ac_slug a) (with_article a d) = (Inr b, d')"
    using article_references_success[OF refs] by (auto elim!: bind_InrE simp: run_modify with_article_def)
  then have "d' = with_article a d" by (rule get_article_by_slug_success)
  ultimately show ?thesis
    using article_references_success[OF refs] get by (simp add: from_domain_schema_def)
qed

lemma create_fields:
  "ac_id (create_to_article p now fo ts) = cp_id p" "ac_slug (create_to_article p now fo ts) = cp_slug p"
  "ac_folder (create_to_article p now fo ts) = fo" "ac_tags (create_to_article p now fo ts) = ts"
  "ac_metadata (create_to_article p now fo ts) = cp_metadata p"
  "ac_publish_status (create_to_article p now fo ts) = cp_publish_status p"
  "ac_published_at (create_to_article p now fo ts) = (if cp_publish_status p = PUBLISHED then Some now else None)"
  "ac_content_file_ids (create_to_article p now fo ts) = create_content_file_ids p"
  "ac_content_ru (create_to_article p now fo ts) = cp_content_ru p"
  "ac_content_en (create_to_article p now fo ts) = cp_content_en p"
  by (simp_all add: create_to_article_def)

lemma create_article_success:
  assumes "create_article env pub p now d = (Inr b, d')"
  obtains ts folder c where
    "d' = snd (sync_file_usages env (managed_file_ids (create_to_article p now folder ts)) {} now
                 (with_article (create_to_article p now folder ts) d))"
    "ts = filter (\<lambda>t. tg_id t \<in> set (cp_tag_ids p)) (tags d)" "set (cp_tag_ids p) \<subseteq> tg_id ` set ts"
    "fo_id folder = cp_folder_id p" "cp_folder_id p \<in> fo_id ` set (folders d)"
    "cp_id p \<notin> am_id ` set (articles d)" "cp_slug p \<notin> am_slug ` set (articles d)"
    "\<forall>fid. md_cover_image_file_id (cp_metadata p) = Some fid \<longrightarrow> (fid, ARTICLE_COVER_IMAGE) \<in> file_purposes d"
    "\<forall>fid \<in> create_content_file_ids p. (fid, ARTICLE_CONTENT_IMAGE) \<in> file_purposes d"
    "distinct (tag_links_from_domain (create_to_article p now folder ts))"
    "allowed pub \<or> cp_publish_status p = DRAFT"
    "get_article_by_slug (cp_slug p) (with_article (create_to_article p now folder ts) d) =
       (Inr c, with_article (create_to_article p now folder ts) d)"
    "hydrate env c d' = (Inr b, d')"
proof -
  have fin: "finite (create_content_file_ids p)" by (simp add: create_content_file_ids_def)
  have guard: "allowed pub \<or> cp_publish_status p = DRAFT"
    using assms by (auto simp: create_article_def run_simps split: if_splits) (metis publish_status.exhaust)
  from assms obtain ts folder c d1 d2 d3 where
    refs: "check_article_references (cp_tag_ids p) (cp_folder_id p)
        (md_cover_image_file_id (cp_metadata p)) (create_content_file_ids p) d = (Inr (ts, folder), d1)"
    and st: "storage_create_article (create_to_article p now folder ts) d1 = (Inr c, d2)"
    and sy: "sync_file_usages env (managed_file_ids (create_to_article p now folder ts)) {} now d2 = (Inr (), d3)"
    and hy: "hydrate env c d3 = (Inr b, d')"
    unfolding create_article_def Let_def
    by (auto elim!: bind_InrE simp: run_lock_transitions run_ensure_allowed split: if_splits)
  note r = check_references_success[OF refs fin]
  then have "d1 = d" by blast
  note c = storage_create_article_success[OF st[unfolded this]]
  have "d' = d3" using hy by (rule hydrate_state)
  with sy c have eq: "d' = snd (sync_file_usages env (managed_file_ids (create_to_article p now folder ts)) {} now
      (with_article (create_to_article p now folder ts) d))" by simp
  show thesis
    by (rule that[of folder ts c]) (use r c eq guard hy \<open>d' = d3\<close> in \<open>simp_all only: create_fields, simp_all\<close>)
qed

text \<open>What a use case has established of an article before it is written.\<close>

definition article_ok :: "db \<Rightarrow> article \<Rightarrow> bool" where
  "article_ok d a \<longleftrightarrow>
     fo_id (ac_folder a) \<in> fo_id ` set (folders d)
     \<and> distinct (tag_links_from_domain a) \<and> tg_id ` set (ac_tags a) \<subseteq> tg_id ` set (tags d)
     \<and> ac_content_file_ids a =
         extract_file_ids_from_markdown (ac_content_ru a) \<union> extract_file_ids_from_markdown (ac_content_en a)
     \<and> (\<forall>fid. md_cover_image_file_id (ac_metadata a) = Some fid \<longrightarrow> (fid, ARTICLE_COVER_IMAGE) \<in> file_purposes d)
     \<and> (\<forall>fid \<in> ac_content_file_ids a. (fid, ARTICLE_CONTENT_IMAGE) \<in> file_purposes d)
     \<and> (ac_publish_status a = PUBLISHED \<longrightarrow> ac_published_at a \<noteq> None)"

lemma article_ok_managed_exist: "article_ok d a \<Longrightarrow> managed_file_ids a \<subseteq> sf_id ` set (files d)"
  by (auto simp: article_ok_def managed_file_ids_eq file_purposes_def)

lemma article_ok_finite: "article_ok d a \<Longrightarrow> finite (ac_content_file_ids a)"
  by (auto simp: article_ok_def)

lemma usage_links_set:
  "finite (ac_content_file_ids a) \<Longrightarrow> set (usage_links_from_domain a) =
     (\<lambda>fid. \<lparr>afu_article_id = ac_id a, afu_file_id = fid, afu_usage = ARTICLE_CONTENT_IMAGE\<rparr>) ` ac_content_file_ids a"
  by (simp add: usage_links_from_domain_def)

lemma usage_links_facts:
  "distinct (usage_links_from_domain a)"
  "l \<in> set (usage_links_from_domain a) \<Longrightarrow> afu_article_id l = ac_id a"
  "k \<in> set (tag_links_from_domain a) \<Longrightarrow> atl_article_id k = ac_id a"
  by (auto simp: usage_links_from_domain_def tag_links_from_domain_def distinct_map inj_on_def)

lemma usage_links_files:
  "finite (ac_content_file_ids a) \<Longrightarrow> afu_file_id ` set (usage_links_from_domain a) = ac_content_file_ids a"
  by (force simp: usage_links_set)

lemma article_ok_links:
  "article_ok d a \<Longrightarrow> l \<in> set (usage_links_from_domain a) \<Longrightarrow>
   (afu_file_id l, ARTICLE_CONTENT_IMAGE) \<in> file_purposes d"
proof -
  assume ok: "article_ok d a" and l: "l \<in> set (usage_links_from_domain a)"
  then have "afu_file_id l \<in> ac_content_file_ids a"
    using usage_links_files[OF article_ok_finite[OF ok]] by blast
  with ok show ?thesis unfolding article_ok_def by blast
qed

lemma tag_links_tags: "atl_tag_id ` set (tag_links_from_domain a) = tg_id ` set (ac_tags a)"
  by (force simp: tag_links_from_domain_def)

lemma from_domain_fields:
  "am_id (from_domain_schema a) = ac_id a" "am_slug (from_domain_schema a) = ac_slug a"
  "am_folder_id (from_domain_schema a) = fo_id (ac_folder a)"
  "am_cover_image_file_id (from_domain_schema a) = md_cover_image_file_id (ac_metadata a)"
  "am_content_ru (from_domain_schema a) = ac_content_ru a" "am_content_en (from_domain_schema a) = ac_content_en a"
  "am_publish_status (from_domain_schema a) = ac_publish_status a"
  "am_published_at (from_domain_schema a) = ac_published_at a"
  by (simp_all add: from_domain_schema_def)

lemma with_article_used:
  "finite (ac_content_file_ids a) \<Longrightarrow>
   used_file_ids (with_article a d) = used_file_ids d \<union> managed_file_ids a"
  by (auto simp: used_file_ids_def with_article_def image_Un usage_links_files from_domain_fields managed_file_ids_eq)

lemma article_usage_ids_eq:
  "article_usage_ids d aid = afu_file_id ` {l \<in> set (file_usages d). afu_article_id l = aid}"
  by (auto simp: article_usage_ids_def)

lemma with_article_inv:
  assumes inv: "articles_inv d" and ok: "article_ok d a"
    and fresh: "ac_id a \<notin> am_id ` set (articles d)" "ac_slug a \<notin> am_slug ` set (articles d)"
  shows "articles_inv (with_article a d)"
proof -
  let ?e = "with_article a d"
  note fin = article_ok_finite[OF ok]
  have old: "am_id m \<noteq> ac_id a" if "m \<in> set (articles d)" for m using fresh that by force
  have links: "afu_article_id l \<noteq> ac_id a" if "l \<in> set (file_usages d)" for l
    using link_article(1)[OF inv that] fresh by auto
  have tlinks: "atl_article_id l \<noteq> ac_id a" if "l \<in> set (tag_links d)" for l
    using link_article(2)[OF inv that] fresh by auto
  have "set (file_usages d) \<inter> set (usage_links_from_domain a) = {}"
    using links usage_links_facts(2) by blast
  moreover have "set (tag_links d) \<inter> set (tag_links_from_domain a) = {}"
    using tlinks usage_links_facts(3) by blast
  ultimately have "article_keys_inv ?e"
    using inv ok fresh usage_links_facts(1)
    by (simp add: articles_inv_def article_keys_inv_def article_ok_def with_article_def from_domain_fields)
  moreover have "article_refs_inv ?e"
    using inv ok usage_links_facts(2,3) tag_links_tags[of a]
    by (auto simp: articles_inv_def article_refs_inv_def article_ok_def with_article_def from_domain_fields image_Un)
  moreover have "article_usage_inv ?e"
  proof -
    have "article_usage_ids ?e (am_id m) = article_usage_ids d (am_id m)" if "m \<in> set (articles d)" for m
      using old[OF that] usage_links_facts(2)[of _ a] by (auto simp: article_usage_ids_eq with_article_def)
    moreover have "{l \<in> set (file_usages ?e). afu_article_id l = ac_id a} = set (usage_links_from_domain a)"
      using links usage_links_facts(2)[of _ a] by (auto simp: with_article_def)
    then have "article_usage_ids ?e (ac_id a) = ac_content_file_ids a"
      by (simp add: article_usage_ids_eq usage_links_files[OF fin])
    moreover have "file_purposes ?e = file_purposes d" by (simp add: file_purposes_def with_article_def)
    ultimately show ?thesis
      using inv ok article_ok_links[OF ok]
      by (auto simp: articles_inv_def article_usage_inv_def article_ok_def marked_file_ids_def
          with_article_def from_domain_fields)
  qed
  moreover have "article_dates_inv ?e"
    using inv ok by (auto simp: articles_inv_def article_dates_inv_def article_ok_def with_article_def from_domain_fields)
  ultimately show ?thesis by (simp add: articles_inv_def)
qed

lemma create_article_content:
  assumes inv: "content_inv d" and run: "create_article env pub p now d = (Inr b, d')"
  shows "content_inv d'"
  using run
proof (cases rule: create_article_success)
  case (1 ts folder)
  let ?a = "create_to_article p now folder ts"
  have ok: "article_ok d ?a"
    using 1 by (auto simp: article_ok_def create_fields create_content_file_ids_def)
  have arts: "articles_inv (with_article ?a d)"
    using inv 1 by (intro with_article_inv[OF _ ok]) (auto simp: content_inv_def create_fields)
  then have "articles_inv d'" unfolding 1(1) by (rule keepsD[OF sync_file_usages_articles])
  moreover have "files_inv d'" unfolding 1(1)
  proof (rule sync_files_inv[of d])
    show "files_inv d" using inv by (simp add: content_inv_def)
    then have "used_file_ids d \<subseteq> sf_id ` set (files d)" by (simp add: files_inv_def)
    then show "used_file_ids (with_article ?a d) \<subseteq> sf_id ` set (files d)"
      using article_ok_managed_exist[OF ok] by (simp add: with_article_used article_ok_finite[OF ok])
  qed (auto simp: with_article_used article_ok_finite[OF ok], simp add: with_article_def)
  ultimately show ?thesis by (simp add: content_inv_def)
qed

section \<open>Updating an article\<close>

definition with_updated_article :: "article \<Rightarrow> db \<Rightarrow> db" where
  "with_updated_article a d = d\<lparr>
     articles := update_where (\<lambda>r. am_id r = ac_id a) (update_from_domain_schema a) (articles d),
     tag_links := replace_links (\<lambda>l. atl_article_id l = ac_id a) (tag_links_from_domain a) (tag_links d),
     file_usages := replace_links (\<lambda>l. afu_article_id l = ac_id a) (usage_links_from_domain a) (file_usages d)\<rparr>"

lemma set_replace_links: "set (replace_links mine new old) = {l \<in> set old. \<not> mine l \<or> l \<in> set new} \<union> set new"
  by (auto simp: replace_links_def)

lemma distinct_replace_links: "distinct old \<Longrightarrow> distinct new \<Longrightarrow> distinct (replace_links mine new old)"
  by (auto simp: replace_links_def)

lemma update_from_domain_fields:
  "am_id (update_from_domain_schema a m) = am_id m" "am_slug (update_from_domain_schema a m) = ac_slug a"
  "am_folder_id (update_from_domain_schema a m) = fo_id (ac_folder a)"
  "am_cover_image_file_id (update_from_domain_schema a m) = md_cover_image_file_id (ac_metadata a)"
  "am_content_ru (update_from_domain_schema a m) = ac_content_ru a"
  "am_content_en (update_from_domain_schema a m) = ac_content_en a"
  "am_publish_status (update_from_domain_schema a m) = ac_publish_status a"
  "am_published_at (update_from_domain_schema a m) = ac_published_at a"
  by (simp_all add: update_from_domain_schema_def)

lemma storage_update_article_success:
  assumes "storage_update_article a d = (Inr b, d')"
  shows "d' = with_updated_article a d \<and> ac_id a \<in> am_id ` set (articles d)
    \<and> ac_slug a \<notin> am_slug ` {r \<in> set (articles d). am_id r \<noteq> ac_id a}
    \<and> atl_tag_id ` set (tag_links_from_domain a) \<subseteq> tg_id ` set (tags d)
    \<and> distinct (tag_links_from_domain a)"
proof -
  obtain ex where ex: "row_by am_id (ac_id a) (articles d) = Some ex"
    using assms by (auto simp: storage_update_article_def run_simps split: option.splits)
  then have id: "am_id ex = ac_id a" "ac_id a \<in> am_id ` set (articles d)" by (metis imageI row_by_SomeD)+
  let ?m = "update_from_domain_schema a ex" and ?tls = "tag_links_from_domain a" and ?uls = "usage_links_from_domain a"
  let ?act = "bind (modify (\<lambda>d. d\<lparr>
      articles := update_where (\<lambda>r. am_id r = ac_id a) (update_from_domain_schema a) (articles d),
      tag_links := replace_links (\<lambda>l. atl_article_id l = ac_id a) ?tls (tag_links d),
      file_usages := replace_links (\<lambda>l. afu_article_id l = ac_id a) ?uls (file_usages d)\<rparr>))
      (\<lambda>_. get_article_by_slug (ac_slug a))"
  have "ac_slug a \<notin> am_slug ` {r \<in> set (articles d). am_id r \<noteq> ac_id a}"
    and refs: "article_references ?m ?tls ?uls ?act d = (Inr b, d')"
    using assms
    by (simp_all add: storage_update_article_def Let_def run_simps ex id update_from_domain_fields split: if_splits)
  moreover have "d' = with_updated_article a d"
    using article_references_success[OF refs]
    by (auto elim!: bind_InrE get_article_by_slug_success simp: run_modify with_updated_article_def)
  ultimately show ?thesis
    using article_references_success[OF refs] id by simp
qed

lemma with_updated_used:
  assumes inv: "articles_inv d" and m: "m \<in> set (articles d)" "am_id m = ac_id a"
    and fin: "finite (ac_content_file_ids a)"
  shows "managed_file_ids a \<subseteq> used_file_ids (with_updated_article a d)"
    and "used_file_ids (with_updated_article a d) \<subseteq> used_file_ids d \<union> managed_file_ids a"
    and "used_file_ids d \<subseteq> used_file_ids (with_updated_article a d)
           \<union> article_usage_ids d (am_id m) \<union> set_option (am_cover_image_file_id m)"
proof -
  let ?e = "with_updated_article a d"
  have arts: "r' \<in> set (articles ?e) \<longleftrightarrow>
      (\<exists>r \<in> set (articles d). r' = (if am_id r = ac_id a then update_from_domain_schema a r else r))" for r'
    by (simp add: with_updated_article_def in_update_where)
  have uses: "afu_file_id ` set (file_usages ?e) =
      afu_file_id ` {l \<in> set (file_usages d). afu_article_id l \<noteq> ac_id a} \<union> ac_content_file_ids a"
  proof -
    have "set (file_usages ?e) = {l \<in> set (file_usages d). afu_article_id l \<noteq> ac_id a} \<union> set (usage_links_from_domain a)"
      using usage_links_facts(2)[of _ a] by (auto simp: with_updated_article_def set_replace_links)
    then show ?thesis by (simp add: image_Un usage_links_files[OF fin])
  qed
  have "update_from_domain_schema a m \<in> set (articles ?e)"
    unfolding arts using m by (intro bexI[of _ m]) simp_all
  then have "set_option (am_cover_image_file_id (update_from_domain_schema a m))
      \<subseteq> (\<Union>r \<in> set (articles ?e). set_option (am_cover_image_file_id r))"
    by (rule UN_upper)
  then have "set_option (md_cover_image_file_id (ac_metadata a)) \<subseteq> (\<Union>r \<in> set (articles ?e). set_option (am_cover_image_file_id r))"
    by (simp only: update_from_domain_fields)
  then show "managed_file_ids a \<subseteq> used_file_ids ?e"
    unfolding used_file_ids_def managed_file_ids_eq uses by blast
  have "set_option (am_cover_image_file_id r') \<subseteq> used_file_ids d \<union> managed_file_ids a"
    if "r' \<in> set (articles ?e)" for r'
    using that unfolding arts
    by (auto simp: update_from_domain_fields managed_file_ids_eq used_file_ids_def split: if_splits)
  then show "used_file_ids ?e \<subseteq> used_file_ids d \<union> managed_file_ids a"
    unfolding used_file_ids_def[of ?e] uses managed_file_ids_eq by (auto simp: used_file_ids_def)
  have same: "r = m" if "r \<in> set (articles d)" "am_id r = ac_id a" for r
    using inv that m by (auto simp: articles_inv_def article_keys_inv_def distinct_map inj_on_def)
  have "set_option (am_cover_image_file_id r) \<subseteq> used_file_ids ?e \<union> set_option (am_cover_image_file_id m)"
    if r: "r \<in> set (articles d)" for r
  proof (cases "am_id r = ac_id a")
    case True then show ?thesis using same r by blast
  next
    case False
    then have "r \<in> set (articles ?e)" unfolding arts using r by (intro bexI[of _ r]) simp_all
    then show ?thesis unfolding used_file_ids_def by blast
  qed
  moreover have "afu_file_id ` set (file_usages d) \<subseteq> used_file_ids ?e \<union> article_usage_ids d (am_id m)"
    unfolding used_file_ids_def uses article_usage_ids_eq m(2) by blast
  ultimately show "used_file_ids d \<subseteq> used_file_ids ?e
      \<union> article_usage_ids d (am_id m) \<union> set_option (am_cover_image_file_id m)"
    unfolding used_file_ids_def[of d] by blast
qed

lemma with_updated_inv:
  assumes inv: "articles_inv d" and ok: "article_ok d a"
    and slug: "ac_slug a \<notin> am_slug ` {r \<in> set (articles d). am_id r \<noteq> ac_id a}"
    and exists: "ac_id a \<in> am_id ` set (articles d)"
  shows "articles_inv (with_updated_article a d)"
proof -
  let ?e = "with_updated_article a d"
  note fin = article_ok_finite[OF ok]
  have ids: "map am_id (articles ?e) = map am_id (articles d)"
    by (simp add: with_updated_article_def map_update_where update_from_domain_fields)
  have id_set: "am_id ` set (articles ?e) = am_id ` set (articles d)"
    by (metis ids list.set_map)
  have uls: "set (file_usages ?e) = {l \<in> set (file_usages d). afu_article_id l \<noteq> ac_id a} \<union> set (usage_links_from_domain a)"
    using usage_links_facts(2)[of _ a] by (auto simp: with_updated_article_def set_replace_links)
  have tls: "set (tag_links ?e) = {l \<in> set (tag_links d). atl_article_id l \<noteq> ac_id a} \<union> set (tag_links_from_domain a)"
    using usage_links_facts(3)[of _ a] by (auto simp: with_updated_article_def set_replace_links)
  have same: "folders ?e = folders d" "tags ?e = tags d" "file_purposes ?e = file_purposes d"
    "article_dailies ?e = article_dailies d" "reactions ?e = reactions d"
    by (simp_all add: with_updated_article_def file_purposes_def)
  have row: "m' \<in> set (articles ?e) \<Longrightarrow>
      (m' \<in> set (articles d) \<and> am_id m' \<noteq> ac_id a) \<or> (\<exists>m. m' = update_from_domain_schema a m \<and> am_id m = ac_id a)" for m'
    by (auto simp: with_updated_article_def in_update_where split: if_splits)
  have "distinct (map am_slug (articles ?e))"
    using inv slug unfolding with_updated_article_def
    by (simp add: articles_inv_def article_keys_inv_def distinct_update_where update_from_domain_fields)
  moreover have "distinct (tag_links ?e)" "distinct (file_usages ?e)"
    using inv ok usage_links_facts(1) unfolding with_updated_article_def
    by (simp_all add: articles_inv_def article_keys_inv_def article_ok_def distinct_replace_links)
  ultimately have "article_keys_inv ?e"
    using inv unfolding article_keys_inv_def articles_inv_def ids same by simp
  moreover have "article_refs_inv ?e"
  proof -
    have "am_folder_id ` set (articles ?e) \<subseteq> fo_id ` set (folders d)"
    proof
      fix x assume "x \<in> am_folder_id ` set (articles ?e)"
      then obtain m' where m': "m' \<in> set (articles ?e)" "x = am_folder_id m'" by blast
      show "x \<in> fo_id ` set (folders d)"
        using row[OF m'(1)] m'(2) inv ok
        by (auto simp: articles_inv_def article_refs_inv_def article_ok_def update_from_domain_fields)
    qed
    moreover have "afu_article_id ` set (file_usages ?e) \<subseteq> am_id ` set (articles d)"
      unfolding uls using link_article(1)[OF inv] exists usage_links_facts(2)[of _ a] by auto
    moreover have "atl_article_id ` set (tag_links ?e) \<subseteq> am_id ` set (articles d)"
      unfolding tls using link_article(2)[OF inv] exists usage_links_facts(3)[of _ a] by auto
    moreover have "atl_tag_id ` set (tag_links ?e) \<subseteq> tg_id ` set (tags d)"
    proof -
      have "atl_tag_id ` set (tag_links_from_domain a) \<subseteq> tg_id ` set (tags d)"
        using ok by (simp add: article_ok_def tag_links_tags)
      moreover have "atl_tag_id ` {l \<in> set (tag_links d). atl_article_id l \<noteq> ac_id a} \<subseteq> tg_id ` set (tags d)"
        using inv by (auto simp: articles_inv_def article_refs_inv_def)
      ultimately show ?thesis unfolding tls image_Un by simp
    qed
    ultimately show ?thesis
      using inv unfolding article_refs_inv_def articles_inv_def id_set same by simp
  qed
  moreover have "article_usage_inv ?e"
  proof -
    have "article_usage_ids ?e (am_id m) = marked_file_ids m"
      if "m \<in> set (articles d)" "am_id m \<noteq> ac_id a" for m
    proof -
      have "article_usage_ids ?e (am_id m) = article_usage_ids d (am_id m)"
        using that usage_links_facts(2)[of _ a] unfolding article_usage_ids_eq uls
        by (intro arg_cong[where f = "image afu_file_id"]) auto
      then show ?thesis using inv that by (simp add: articles_inv_def article_usage_inv_def)
    qed
    moreover have "{l \<in> set (file_usages ?e). afu_article_id l = ac_id a} = set (usage_links_from_domain a)"
      unfolding uls using usage_links_facts(2)[of _ a] by auto
    then have "article_usage_ids ?e (ac_id a) = ac_content_file_ids a"
      by (simp add: article_usage_ids_eq usage_links_files[OF fin])
    ultimately have "article_usage_ids ?e (am_id m') = marked_file_ids m'" if "m' \<in> set (articles ?e)" for m'
      using row[OF that] ok by (auto simp: update_from_domain_fields marked_file_ids_def article_ok_def)
    moreover have "(fid, ARTICLE_COVER_IMAGE) \<in> file_purposes d"
      if "m' \<in> set (articles ?e)" "am_cover_image_file_id m' = Some fid" for m' fid
      using row[OF that(1)] that(2) inv ok
      by (auto simp: update_from_domain_fields article_ok_def articles_inv_def article_usage_inv_def)
    moreover have "(afu_file_id l, ARTICLE_CONTENT_IMAGE) \<in> file_purposes d" if "l \<in> set (file_usages ?e)" for l
      using that inv article_ok_links[OF ok] unfolding uls articles_inv_def article_usage_inv_def by blast
    ultimately show ?thesis unfolding article_usage_inv_def same by blast
  qed
  moreover have "article_dates_inv ?e"
    unfolding article_dates_inv_def
  proof
    fix m' assume "m' \<in> set (articles ?e)"
    from row[OF this] inv ok show "am_publish_status m' = PUBLISHED \<longrightarrow> am_published_at m' \<noteq> None"
      by (auto simp: articles_inv_def article_dates_inv_def article_ok_def update_from_domain_fields)
  qed
  ultimately show ?thesis by (simp add: articles_inv_def)
qed

lemma update_fields:
  "ac_id (update_to_article p ex now fo ts) = ac_id ex" "ac_slug (update_to_article p ex now fo ts) = ap_slug p"
  "ac_folder (update_to_article p ex now fo ts) = fo" "ac_tags (update_to_article p ex now fo ts) = ts"
  "ac_metadata (update_to_article p ex now fo ts) = ap_metadata p"
  "ac_publish_status (update_to_article p ex now fo ts) = ap_publish_status p"
  "ac_published_at (update_to_article p ex now fo ts) =
     (if ac_published_at ex = None \<and> ap_publish_status p = PUBLISHED then Some now else ac_published_at ex)"
  "ac_content_file_ids (update_to_article p ex now fo ts) = update_content_file_ids p"
  "ac_content_ru (update_to_article p ex now fo ts) = ap_content_ru p"
  "ac_content_en (update_to_article p ex now fo ts) = ap_content_en p"
  by (simp_all add: update_to_article_def Let_def)

lemma update_article_success:
  assumes "update_article env pub slug p now d = (Inr b, d')"
  obtains ts folder ex m where
    "m \<in> set (articles d)" "am_slug m = slug" "to_domain_schema d True True m = Inr ex"
    "d' = snd (sync_file_usages env (managed_file_ids (update_to_article p ex now folder ts))
                 (managed_file_ids ex - managed_file_ids (update_to_article p ex now folder ts)) now
                 (with_updated_article (update_to_article p ex now folder ts) d))"
    "fo_id folder = ap_folder_id p" "folder \<in> set (folders d)"
    "ts = filter (\<lambda>t. tg_id t \<in> set (ap_tag_ids p)) (tags d)"
    "ap_slug p \<notin> am_slug ` {r \<in> set (articles d). am_id r \<noteq> am_id m}"
    "\<forall>fid. md_cover_image_file_id (ap_metadata p) = Some fid \<longrightarrow> (fid, ARTICLE_COVER_IMAGE) \<in> file_purposes d"
    "\<forall>fid \<in> update_content_file_ids p. (fid, ARTICLE_CONTENT_IMAGE) \<in> file_purposes d"
    "distinct (tag_links_from_domain (update_to_article p ex now folder ts))"
    "allowed pub \<or> (am_publish_status m = DRAFT \<and> ap_publish_status p = DRAFT)"
proof -
  have fin: "finite (update_content_file_ids p)" by (simp add: update_content_file_ids_def)
  from assms obtain ts folder ex c d0 d1 d2 d3 where
    get: "get_article_by_slug slug d = (Inr ex, d0)"
    and guard: "allowed pub \<or> PUBLISHED \<notin> {ac_publish_status ex, ap_publish_status p}"
    and refs: "check_article_references (ap_tag_ids p) (ap_folder_id p)
        (md_cover_image_file_id (ap_metadata p)) (update_content_file_ids p) d0 = (Inr (ts, folder), d1)"
    and st: "storage_update_article (update_to_article p ex now folder ts) d1 = (Inr c, d2)"
    and sy: "sync_file_usages env (managed_file_ids (update_to_article p ex now folder ts))
        (managed_file_ids ex - managed_file_ids (update_to_article p ex now folder ts)) now d2 = (Inr (), d3)"
    and hy: "hydrate env c d3 = (Inr b, d')"
    unfolding update_article_def Let_def
    by (auto elim!: bind_InrE simp: run_lock_transitions run_ensure_allowed split: if_splits)
  from get obtain m where m: "d0 = d" "m \<in> set (articles d)" "am_slug m = slug" "to_domain_schema d True True m = Inr ex"
    by (rule get_article_by_slug_success)
  note r = check_references_success[OF refs[unfolded m(1)] fin]
  then have "d1 = d" by blast
  note c = storage_update_article_success[OF st[unfolded this]]
  have "d' = d3" using hy by (rule hydrate_state)
  with sy c have eq: "d' = snd (sync_file_usages env (managed_file_ids (update_to_article p ex now folder ts))
      (managed_file_ids ex - managed_file_ids (update_to_article p ex now folder ts)) now
      (with_updated_article (update_to_article p ex now folder ts) d))" by simp
  have "allowed pub \<or> (am_publish_status m = DRAFT \<and> ap_publish_status p = DRAFT)"
    using guard to_domain_fields(3)[OF m(4)] by (metis insertCI publish_status.exhaust)
  then show thesis
    by (rule that[of m ex folder ts, OF m(2-4) eq, rotated -1])
       (use r c to_domain_fields(1)[OF m(4)] in \<open>simp_all only: update_fields, simp_all\<close>)
qed

lemma update_article_content:
  assumes inv: "content_inv d" and run: "update_article env pub slug p now d = (Inr b, d')"
  shows "content_inv d'"
  using run
proof (cases rule: update_article_success)
  case (1 ts folder ex m)
  let ?a = "update_to_article p ex now folder ts"
  have arts: "articles_inv d" and fls: "files_inv d" using inv by (simp_all add: content_inv_def)
  note ex = to_domain_fields[OF 1(3)]
  have dates: "ap_publish_status p = PUBLISHED \<longrightarrow> ac_published_at ?a \<noteq> None"
    by (simp add: update_fields)
  have ok: "article_ok d ?a"
    using 1(5,7-11) imageI[OF 1(6), of fo_id] dates by (auto simp: article_ok_def update_fields update_content_file_ids_def)
  have id: "ac_id ?a = am_id m" by (simp add: update_fields ex)
  have "articles_inv (with_updated_article ?a d)"
    using 1(1,8) by (intro with_updated_inv[OF arts ok]) (simp_all add: id update_fields(2))
  then have "articles_inv d'" unfolding 1(4) by (rule keepsD[OF sync_file_usages_articles])
  moreover have "files_inv d'" unfolding 1(4)
  proof (rule sync_files_inv[OF fls])
    note used = with_updated_used[OF arts 1(1) id[symmetric] article_ok_finite[OF ok]]
    show "managed_file_ids ?a \<subseteq> used_file_ids (with_updated_article ?a d)"
      and grown: "used_file_ids (with_updated_article ?a d) \<subseteq> used_file_ids d \<union> managed_file_ids ?a"
      by (rule used)+
    have "managed_file_ids ex = article_usage_ids d (am_id m) \<union> set_option (am_cover_image_file_id m)"
      by (simp add: managed_file_ids_eq ex)
    then show "used_file_ids d - used_file_ids (with_updated_article ?a d) \<subseteq> managed_file_ids ex - managed_file_ids ?a"
      using used(1,3) by blast
    show "used_file_ids (with_updated_article ?a d) \<subseteq> sf_id ` set (files d)"
      using grown article_ok_managed_exist[OF ok] fls unfolding files_inv_def by blast
  qed (simp add: with_updated_article_def)
  ultimately show ?thesis by (simp add: content_inv_def)
qed

section \<open>Deleting an article\<close>

lemma delete_article_success:
  assumes "delete_article env pub slug now d = (Inr b, d')"
  obtains ex m where
    "m \<in> set (articles d)" "am_slug m = slug" "row_by am_slug slug (articles d) = Some m"
    "to_domain_schema d True True m = Inr ex"
    "d' = snd (sync_file_usages env {} (managed_file_ids ex) now (remove_article (am_id m) d))"
    "allowed pub \<or> am_publish_status m = DRAFT"
proof -
  from assms obtain ex d0 d1 where
    get: "get_article_by_slug slug d = (Inr ex, d0)"
    and guard: "allowed pub \<or> PUBLISHED \<noteq> ac_publish_status ex"
    and st: "storage_delete_article slug d0 = (Inr (), d1)"
    and sy: "sync_file_usages env {} (managed_file_ids ex) now d1 = (Inr b, d')"
    unfolding delete_article_def
    by (auto elim!: bind_InrE simp: run_lock_transitions run_ensure_allowed split: if_splits)
  from get obtain m where m: "row_by am_slug slug (articles d) = Some m" "d0 = d" "to_domain_schema d True True m = Inr ex"
    by (auto simp: get_article_by_slug_def run_simps split: option.splits)
  then have "d1 = remove_article (am_id m) d"
    using st by (simp add: storage_delete_article_def get_article_model_def run_simps)
  moreover have "allowed pub \<or> am_publish_status m = DRAFT"
    using guard to_domain_fields(3)[OF m(3)] by (metis publish_status.exhaust)
  ultimately show thesis
    using that[of m ex] m sy row_by_SomeD[OF m(1)] by simp
qed

lemma remove_article_inv:
  assumes inv: "articles_inv d"
  shows "articles_inv (remove_article aid d)"
proof -
  let ?e = "remove_article aid d"
  have arts: "set (articles ?e) = {m \<in> set (articles d). am_id m \<noteq> aid}"
    and uls: "set (file_usages ?e) = {l \<in> set (file_usages d). afu_article_id l \<noteq> aid}"
    by (simp_all add: remove_article_def)
  have "article_keys_inv ?e"
    using inv by (simp add: articles_inv_def article_keys_inv_def remove_article_def distinct_map_delete_where)
      (simp add: delete_where_def)
  moreover have "article_refs_inv ?e"
    using inv
    by (simp add: articles_inv_def article_refs_inv_def remove_article_def cascade_delete image_delete_where_subset
        del: set_delete_where)
  moreover have "article_usage_inv ?e"
  proof -
    have "article_usage_ids ?e i = article_usage_ids d i" if "i \<noteq> aid" for i
      unfolding article_usage_ids_eq uls using that by (intro arg_cong[where f = "image afu_file_id"]) auto
    moreover have "file_purposes ?e = file_purposes d" by (simp add: file_purposes_def remove_article_def)
    ultimately show ?thesis
      using inv unfolding articles_inv_def article_usage_inv_def arts uls by auto
  qed
  moreover have "article_dates_inv ?e"
    using inv unfolding articles_inv_def article_dates_inv_def arts by simp
  ultimately show ?thesis by (simp add: articles_inv_def)
qed

lemma delete_article_content:
  assumes inv: "content_inv d" and run: "delete_article env pub slug now d = (Inr b, d')"
  shows "content_inv d'"
  using run
proof (cases rule: delete_article_success)
  case (1 ex m)
  let ?e = "remove_article (am_id m) d"
  have arts: "articles_inv d" and fls: "files_inv d" using inv by (simp_all add: content_inv_def)
  have "articles_inv d'" unfolding 1(5)
    by (rule keepsD[OF sync_file_usages_articles remove_article_inv[OF arts]])
  moreover have "files_inv d'" unfolding 1(5)
  proof (rule sync_files_inv[OF fls])
    have "set_option (am_cover_image_file_id r) \<subseteq> used_file_ids ?e \<union> set_option (am_cover_image_file_id m)"
      if "r \<in> set (articles d)" for r
      using that 1(1) arts
      by (cases "am_id r = am_id m")
         (auto simp: articles_inv_def article_keys_inv_def distinct_map inj_on_def used_file_ids_def remove_article_def)
    moreover have "afu_file_id ` set (file_usages d) \<subseteq> used_file_ids ?e \<union> article_usage_ids d (am_id m)"
      unfolding used_file_ids_def article_usage_ids_eq by (auto simp: remove_article_def)
    ultimately have "used_file_ids d \<subseteq> used_file_ids ?e \<union> managed_file_ids ex"
      unfolding used_file_ids_def[of d] managed_file_ids_eq to_domain_fields[OF 1(4)] if_True by blast
    then show "used_file_ids d - used_file_ids ?e \<subseteq> managed_file_ids ex" by blast
    show "used_file_ids ?e \<subseteq> used_file_ids d \<union> {}"
      by (auto simp: used_file_ids_def remove_article_def)
    then show "used_file_ids ?e \<subseteq> sf_id ` set (files d)"
      using fls unfolding files_inv_def by blast
  qed (simp_all add: remove_article_def)
  ultimately show ?thesis by (simp add: content_inv_def)
qed

section \<open>Publication status\<close>

text \<open>An update of article rows that touches neither identifiers, slugs, folders, texts nor covers.\<close>

lemma articles_update_frame:
  assumes inv: "articles_inv d"
    and same: "\<And>m. am_id (g m) = am_id m \<and> am_slug (g m) = am_slug m \<and> am_folder_id (g m) = am_folder_id m
      \<and> am_cover_image_file_id (g m) = am_cover_image_file_id m
      \<and> am_content_ru (g m) = am_content_ru m \<and> am_content_en (g m) = am_content_en m"
    and dates: "\<And>m. m \<in> set (articles d) \<Longrightarrow> p m \<Longrightarrow> am_publish_status (g m) = PUBLISHED \<Longrightarrow> am_published_at (g m) \<noteq> None"
  shows "articles_inv (d\<lparr>articles := update_where p g (articles d)\<rparr>)"
    and "used_file_ids (d\<lparr>articles := update_where p g (articles d)\<rparr>) = used_file_ids d"
proof -
  let ?e = "d\<lparr>articles := update_where p g (articles d)\<rparr>"
  have maps: "map f (update_where p g (articles d)) = map f (articles d)"
    if "f \<in> {am_id, am_slug}" for f
    using same that by (intro map_update_where) auto
  have ids: "am_id ` set (update_where p g (articles d)) = am_id ` set (articles d)"
    "am_folder_id ` set (update_where p g (articles d)) = am_folder_id ` set (articles d)"
    using same by (simp_all add: image_update_where)
  have uses: "article_usage_ids ?e i = article_usage_ids d i" for i by (simp add: article_usage_ids_def)
  have "article_usage_inv ?e"
    using inv same
    by (auto simp: articles_inv_def article_usage_inv_def in_update_where uses marked_file_ids_def file_purposes_def
        split: if_splits)
  moreover have "article_dates_inv ?e"
    using inv dates by (auto simp: articles_inv_def article_dates_inv_def in_update_where split: if_splits)
  ultimately show "articles_inv ?e"
    using inv by (simp add: articles_inv_def article_keys_inv_def article_refs_inv_def maps ids)
  have "(\<lambda>m. set_option (am_cover_image_file_id m)) ` set (update_where p g (articles d)) =
      (\<lambda>m. set_option (am_cover_image_file_id m)) ` set (articles d)"
    using same by (intro image_update_where) simp
  then show "used_file_ids ?e = used_file_ids d"
    by (simp add: used_file_ids_def)
qed

lemma files_inv_same_uses:
  "files_inv d \<Longrightarrow> used_file_ids e = used_file_ids d \<Longrightarrow> files e = files d \<Longrightarrow> files_inv e"
  by (simp add: files_inv_def file_used_iff)

text \<open>The row that the switch writes.\<close>

definition switched :: "env \<Rightarrow> publish_status \<Rightarrow> article_model \<Rightarrow> article_model" where
  "switched env st m =
     (let first_published = (st = PUBLISHED \<and> am_published_at m = None);
          changed = (am_publish_status m \<noteq> st \<or> first_published)
      in m\<lparr>am_publish_status := st,
           am_published_at := (if first_published then Some (env_now env) else am_published_at m),
           am_updated_at := (if changed then env_audit_touch env (am_updated_at m) else am_updated_at m)\<rparr>)"

lemma switched_fields:
  "am_id (switched env st m) = am_id m" "am_slug (switched env st m) = am_slug m"
  "am_folder_id (switched env st m) = am_folder_id m"
  "am_cover_image_file_id (switched env st m) = am_cover_image_file_id m"
  "am_content_ru (switched env st m) = am_content_ru m" "am_content_en (switched env st m) = am_content_en m"
  "am_publish_status (switched env st m) = st"
  "am_published_at (switched env st m) =
     (if st = PUBLISHED \<and> am_published_at m = None then Some (env_now env) else am_published_at m)"
  by (simp_all add: switched_def Let_def)

lemma update_publish_status_run:
  assumes "distinct (map am_id (articles d))"
  shows "update_article_publish_status env slug st d =
    (case row_by am_slug slug (articles d) of
       None \<Rightarrow> (Inl ArticleNotFoundError, d)
     | Some m \<Rightarrow> (Inr (), d\<lparr>articles := update_where (\<lambda>r. am_id r = am_id m) (switched env st) (articles d)\<rparr>))"
proof (cases "row_by am_slug slug (articles d)")
  case None
  then show ?thesis by (simp add: update_article_publish_status_def get_article_model_def run_simps)
next
  case (Some m)
  then have "m \<in> set (articles d)" by (auto dest: row_by_SomeD)
  then have "update_where (\<lambda>r. am_id r = am_id m) (\<lambda>_. switched env st m) (articles d) =
      update_where (\<lambda>r. am_id r = am_id m) (switched env st) (articles d)"
    using assms unfolding update_where_def by (intro map_cong) (auto simp: distinct_map inj_on_def)
  then show ?thesis
    using Some by (simp add: update_article_publish_status_def get_article_model_def run_simps switched_def Let_def)
qed

lemma switch_article_content: "keeps content_inv (switch_article_publish_status env pub slug st)"
proof (rule keepsI)
  fix d assume inv: "content_inv d"
  then have ids: "distinct (map am_id (articles d))"
    by (simp add: content_inv_def articles_inv_def article_keys_inv_def)
  let ?e = "\<lambda>i. d\<lparr>articles := update_where (\<lambda>r. am_id r = i) (switched env st) (articles d)\<rparr>"
  have frame: "articles_inv (?e i)" "used_file_ids (?e i) = used_file_ids d" for i
    by (rule articles_update_frame; use inv in \<open>simp add: content_inv_def switched_fields\<close>)+
  then have "content_inv (?e i)" for i
    using inv files_inv_same_uses[of d "?e i"] by (simp add: content_inv_def)
  then show "content_inv (snd (switch_article_publish_status env pub slug st d))"
    using inv by (simp add: switch_article_publish_status_def run_simps update_publish_status_run[OF ids] split: option.split)
qed

section \<open>Folders and tags\<close>

interpretation folder_table: priority_table fo_id fo_priority set_folder_priority
  by unfold_locales (simp_all add: set_folder_priority_def)

lemma content_inv_folders:
  assumes "content_inv d" and "distinct (map fo_id fs)" and "distinct (map (\<lambda>fo. lower (fo_key fo)) fs)"
    and "am_folder_id ` set (articles d) \<subseteq> fo_id ` set fs"
  shows "content_inv (d\<lparr>folders := fs\<rparr>)"
  using assms
  by (simp add: content_inv_def files_inv_def articles_inv_defs file_used_def used_file_ids_def file_purposes_def
      article_usage_ids_def)

lemma folder_facts:
  assumes "content_inv d"
  shows "distinct (map fo_id (folders d))" "distinct (map (\<lambda>fo. lower (fo_key fo)) (folders d))"
    "am_folder_id ` set (articles d) \<subseteq> fo_id ` set (folders d)"
  using assms by (simp_all add: content_inv_def articles_inv_def article_keys_inv_def article_refs_inv_def)

lemma create_folder_content: "keeps content_inv (create_folder p)"
proof (rule keepsI)
  fix d assume inv: "content_inv d"
  note ff = folder_facts[OF inv]
  have "content_inv (d\<lparr>folders := folders d @ [fo]\<rparr>)"
    if "fo_id fo \<notin> fo_id ` set (folders d)" "lower (fo_key fo) \<notin> (\<lambda>r. lower (fo_key r)) ` set (folders d)" for fo
    using that ff by (intro content_inv_folders[OF inv]) auto
  then show "content_inv (snd (create_folder p d))"
    using inv by (simp add: create_folder_def folder_key_exists_def next_folder_priority_def storage_create_folder_def
        run_simps Let_def)
qed

lemma delete_folder_content: "keeps content_inv (delete_folder fid)"
proof (rule keepsI)
  fix d assume inv: "content_inv d"
  note ff = folder_facts[OF inv]
  have "content_inv (d\<lparr>folders := delete_where (\<lambda>fo. fo_id fo = fid) (folders d)\<rparr>)"
    if "fid \<notin> am_folder_id ` set (articles d)"
  proof (rule content_inv_folders[OF inv])
    show "am_folder_id ` set (articles d) \<subseteq> fo_id ` set (delete_where (\<lambda>fo. fo_id fo = fid) (folders d))"
    proof
      fix x assume x: "x \<in> am_folder_id ` set (articles d)"
      then have "x \<noteq> fid" and "x \<in> fo_id ` set (folders d)" using that ff(3) by blast+
      then show "x \<in> fo_id ` set (delete_where (\<lambda>fo. fo_id fo = fid) (folders d))" by auto
    qed
  qed (simp_all add: distinct_map_delete_where ff)
  then show "content_inv (snd (delete_folder fid d))"
    using inv by (simp add: delete_folder_def storage_delete_folder_def run_simps)
qed

lemma update_folder_priorities_content: "keeps content_inv (update_folder_priorities ids)"
proof (rule keepsI)
  fix d assume inv: "content_inv d"
  let ?fs = "update_priorities fo_id set_folder_priority ids (folders d)"
  have keys: "map (\<lambda>fo. lower (fo_key fo)) ?fs = map (\<lambda>fo. lower (fo_key fo)) (folders d)"
    by (rule folder_table.attributes_kept) (simp add: set_folder_priority_def)
  have "fo_id ` set ?fs = fo_id ` set (folders d)"
    by (metis folder_table.idents_kept list.set_map)
  then have "content_inv (d\<lparr>folders := ?fs\<rparr>)"
    using folder_facts[OF inv] keys by (intro content_inv_folders[OF inv]) (simp_all add: folder_table.idents_kept)
  then show "content_inv (snd (update_folder_priorities ids d))"
    using inv by (simp add: update_folder_priorities_def list_folders_def ensure_priority_order_matches_def
        storage_update_folder_priorities_def run_simps Let_def)
qed

lemma content_inv_tags:
  assumes "content_inv d" and "distinct (map tg_id ts)" and "distinct (map tg_slug ts)" and "distinct tls"
    and "atl_article_id ` set tls \<subseteq> am_id ` set (articles d)" and "atl_tag_id ` set tls \<subseteq> tg_id ` set ts"
  shows "content_inv (d\<lparr>tags := ts, tag_links := tls\<rparr>)"
  using assms
  by (simp add: content_inv_def files_inv_def articles_inv_defs file_used_def used_file_ids_def file_purposes_def
      article_usage_ids_def)

lemma tag_facts:
  assumes "content_inv d"
  shows "distinct (map tg_id (tags d))" "distinct (map tg_slug (tags d))" "distinct (tag_links d)"
    "atl_article_id ` set (tag_links d) \<subseteq> am_id ` set (articles d)"
    "atl_tag_id ` set (tag_links d) \<subseteq> tg_id ` set (tags d)"
  using assms by (simp_all add: content_inv_def articles_inv_def article_keys_inv_def article_refs_inv_def)

lemma content_inv_tag_rows:
  assumes "content_inv d" and "distinct (map tg_id ts)" and "distinct (map tg_slug ts)"
    and "tg_id ` set (tags d) \<subseteq> tg_id ` set ts"
  shows "content_inv (d\<lparr>tags := ts\<rparr>)"
  using content_inv_tags[OF assms(1-3), of "tag_links d"] tag_facts[OF assms(1)] assms(4) by simp

lemma create_tag_content: "keeps content_inv (create_tag p tid)"
proof (rule keepsI)
  fix d assume inv: "content_inv d"
  note tf = tag_facts[OF inv]
  have "content_inv (d\<lparr>tags := tags d @ [t]\<rparr>)"
    if "tg_id t \<notin> tg_id ` set (tags d)" "tg_slug t \<notin> tg_slug ` set (tags d)" for t
    using that tf by (intro content_inv_tag_rows[OF inv]) auto
  then show "content_inv (snd (create_tag p tid d))"
    using inv by (simp add: create_tag_def storage_create_tag_def run_simps)
qed

lemma update_tag_content: "keeps content_inv (update_tag tid p)"
proof (rule keepsI)
  fix d assume inv: "content_inv d"
  note tf = tag_facts[OF inv]
  have "content_inv (d\<lparr>tags := update_where (\<lambda>r. tg_id r = tg_id t) (\<lambda>_. t) (tags d)\<rparr>)"
    if free: "tg_slug t \<notin> tg_slug ` set (filter (\<lambda>r. tg_id r \<noteq> tg_id t) (tags d))" for t
  proof (rule content_inv_tag_rows[OF inv])
    let ?ts = "update_where (\<lambda>r. tg_id r = tg_id t) (\<lambda>_. t) (tags d)"
    have ids: "map tg_id ?ts = map tg_id (tags d)" by (simp add: update_where_def)
    then show "distinct (map tg_id ?ts)" using tf by simp
    show "tg_id ` set (tags d) \<subseteq> tg_id ` set ?ts" using ids by (metis list.set_map order_refl)
    show "distinct (map tg_slug ?ts)"
      using free by (intro distinct_update_where[OF tf(1,2)]) auto
  qed
  then show "content_inv (snd (update_tag tid p d))"
    using inv by (simp add: update_tag_def storage_update_tag_def run_simps split: option.split)
qed

lemma delete_tag_content: "keeps content_inv (delete_tag tid)"
proof (rule keepsI)
  fix d assume inv: "content_inv d"
  note tf = tag_facts[OF inv]
  have "content_inv (d\<lparr>tags := delete_where (\<lambda>t. tg_id t = tid) (tags d),
      tag_links := delete_where (\<lambda>l. atl_tag_id l = tid) (tag_links d)\<rparr>)"
  proof (rule content_inv_tags[OF inv])
    show "distinct (delete_where (\<lambda>l. atl_tag_id l = tid) (tag_links d))"
      using tf by (simp add: delete_where_def)
    show "atl_tag_id ` set (delete_where (\<lambda>l. atl_tag_id l = tid) (tag_links d))
        \<subseteq> tg_id ` set (delete_where (\<lambda>t. tg_id t = tid) (tags d))"
      by (rule cascade_delete[OF tf(5)])
  qed (use tf in \<open>simp_all add: distinct_map_delete_where image_delete_where_subset del: set_delete_where\<close>)
  then show "content_inv (snd (delete_tag tid d))"
    using inv by (simp add: delete_tag_def storage_delete_tag_def run_simps)
qed

lemma create_article_keeps: "keeps content_inv (transactional (create_article env pub p now))"
  by (rule keeps_transactional_success) (rule create_article_content)

lemma update_article_keeps: "keeps content_inv (transactional (update_article env pub slug p now))"
  by (rule keeps_transactional_success) (rule update_article_content)

lemma delete_article_keeps: "keeps content_inv (transactional (delete_article env pub slug now))"
  by (rule keeps_transactional_success) (rule delete_article_content)

end
