(* ===== verification/Article_Properties.thy ===== *)
theory Article_Properties
  imports Articles_Invariant "HOL-Library.Multiset"
begin

text \<open>
  Properties of the article use cases: who may touch published articles, publication dates, the
  tree, pagination and the order of folders.
\<close>

section \<open>A concrete state\<close>

text \<open>One folder, one tag, a published article with that tag whose text shows a managed image.\<close>

definition sample_folder :: article_folder where
  "sample_folder = \<lparr>fo_id = u ''fo'', fo_key = u ''Notes'', fo_name_ru = u ''N'', fo_name_en = u ''N'', fo_priority = 1\<rparr>"

definition sample_tag :: tag where
  "sample_tag = \<lparr>tg_id = u ''t'', tg_name_ru = u ''T'', tg_name_en = u ''T'', tg_slug = u ''tt''\<rparr>"

definition sample_image :: stored_file where
  "sample_image = sample_file\<lparr>sf_id := u ''i1'', sf_purpose := ARTICLE_CONTENT_IMAGE, sf_orphaned_at := None\<rparr>"

definition sample_metadata :: article_metadata where
  "sample_metadata = \<lparr>md_seo_title_ru = None, md_seo_title_en = None, md_seo_description_ru = None,
     md_seo_description_en = None, md_cover_image_file_id = None, md_cover_image_file = None,
     md_cover_image_url = None, md_cover_image_alt_ru = None, md_cover_image_alt_en = None\<rparr>"

definition sample_article :: article_model where
  "sample_article = \<lparr>am_id = u ''a1'', am_title_ru = u ''A'', am_title_en = u ''A'',
     am_content_ru = u ''#fileId=i1'', am_content_en = [], am_slug = u ''a'', am_folder_id = u ''fo'',
     am_author_username = u ''me'', am_seo_title_ru = None, am_seo_title_en = None,
     am_seo_description_ru = None, am_seo_description_en = None, am_cover_image_file_id = None,
     am_cover_image_alt_ru = None, am_cover_image_alt_en = None, am_published_at = Some 3,
     am_publish_status = PUBLISHED, am_created_at = 2, am_updated_at = 3\<rparr>"

definition sample_db :: db where
  "sample_db = empty_db\<lparr>files := [sample_image], folders := [sample_folder], tags := [sample_tag],
     articles := [sample_article],
     tag_links := [\<lparr>atl_article_id = u ''a1'', atl_tag_id = u ''t''\<rparr>],
     file_usages := [\<lparr>afu_article_id = u ''a1'', afu_file_id = u ''i1'', afu_usage = ARTICLE_CONTENT_IMAGE\<rparr>]\<rparr>"

definition sample_create :: article_create_params where
  "sample_create = \<lparr>cp_id = u ''a2'', cp_slug = u ''b'', cp_title_ru = u ''B'', cp_title_en = u ''B'',
     cp_content_ru = [], cp_content_en = [], cp_folder_id = u ''fo'', cp_author_username = u ''me'',
     cp_publish_status = DRAFT, cp_metadata = sample_metadata, cp_tag_ids = [u ''t'']\<rparr>"

definition sample_update :: article_update_params where
  "sample_update = \<lparr>ap_slug = u ''b'', ap_title_ru = u ''B'', ap_title_en = u ''B'', ap_content_ru = [],
     ap_content_en = [], ap_folder_id = u ''fo'', ap_publish_status = DRAFT, ap_metadata = sample_metadata,
     ap_tag_ids = []\<rparr>"

definition sample_search :: search_ops where
  "sample_search = \<lparr>so_matches = (\<lambda>t c q. True), so_rank = (\<lambda>t c q. 0), so_tie_order = (\<lambda>f i. 0)\<rparr>"

lemma sample_markers: "find_file_ids (u ''#fileId=i1'') = [u ''i1'']"
  by code_simp

lemma sample_db_inv: "content_inv sample_db"
proof -
  have "files_inv sample_db"
    by (simp add: files_inv_def file_used_def used_file_ids_def sample_db_def sample_image_def sample_file_def
        sample_article_def empty_db_def media_def)
  moreover have "article_usage_inv sample_db"
    by (simp add: article_usage_inv_def sample_db_def sample_image_def sample_article_def empty_db_def file_purposes_def
        article_usage_ids_def marked_file_ids_def extract_file_ids_from_markdown_def sample_markers)
       (simp add: find_file_ids.simps)
  moreover have "article_keys_inv sample_db" "article_refs_inv sample_db" "article_dates_inv sample_db"
    by (simp_all add: article_keys_inv_def article_refs_inv_def article_dates_inv_def sample_db_def
        sample_article_def sample_folder_def sample_tag_def empty_db_def)
  ultimately show ?thesis by (simp add: content_inv_def articles_inv_def)
qed

section \<open>The publication guard\<close>

definition published_rows :: "db \<Rightarrow> article_model list" where
  "published_rows d = filter (\<lambda>m. am_publish_status m = PUBLISHED) (articles d)"

lemma sync_articles [simp]:
  "articles (snd (sync_file_usages env a b t e)) = articles e"
  "folders (snd (sync_file_usages env a b t e)) = folders e"
  "tags (snd (sync_file_usages env a b t e)) = tags e"
  "tag_links (snd (sync_file_usages env a b t e)) = tag_links e"
  "file_usages (snd (sync_file_usages env a b t e)) = file_usages e"
  by (simp_all add: sync_file_usages_def set_files_attached_def set_files_orphaned_if_unused_def
      lock_files_def run_simps)

lemma transactional_cases:
  assumes "\<And>a s'. m s = (Inr a, s') \<Longrightarrow> P s'" and "P s"
  shows "P (snd (transactional m s))"
  using assms by (auto simp: run_simps split: prod.splits sum.splits)

lemma filter_update_where:
  "(\<And>x. x \<in> set xs \<Longrightarrow> q x \<Longrightarrow> \<not> P x \<and> \<not> P (g x)) \<Longrightarrow> filter P (update_where q g xs) = filter P xs"
  by (induction xs) (auto simp: update_where_def)

lemma filter_delete_where:
  "(\<And>x. x \<in> set xs \<Longrightarrow> q x \<Longrightarrow> \<not> P x) \<Longrightarrow> filter P (delete_where q xs) = filter P xs"
  by (induction xs) (auto simp: delete_where_def)

lemma same_article: "content_inv d \<Longrightarrow> m \<in> set (articles d) \<Longrightarrow> r \<in> set (articles d) \<Longrightarrow> am_id r = am_id m \<Longrightarrow> r = m"
  by (auto simp: content_inv_def articles_inv_def article_keys_inv_def distinct_map inj_on_def)

lemma update_article_rows:
  assumes run: "update_article env pub slug p now d = (Inr b, d')"
  obtains m ex folder ts where "m \<in> set (articles d)" "am_slug m = slug" "to_domain_schema d True True m = Inr ex"
    "articles d' = update_where (\<lambda>r. am_id r = am_id m)
       (update_from_domain_schema (update_to_article p ex now folder ts)) (articles d)"
    "allowed pub \<or> (am_publish_status m = DRAFT \<and> ap_publish_status p = DRAFT)"
  using run
proof (cases rule: update_article_success)
  case (1 ts folder ex m)
  have "ac_id ex = am_id m" using to_domain_fields[OF 1(3)] by simp
  then have "articles d' = update_where (\<lambda>r. am_id r = am_id m)
      (update_from_domain_schema (update_to_article p ex now folder ts)) (articles d)"
    unfolding 1(4) by (simp add: with_updated_article_def update_fields)
  then show thesis using that[OF 1(1,2,3) _ 1(12)] by blast
qed

text \<open>C7: a caller without permission to publish never changes, adds or removes a published article:
  whichever of the four write operations it calls, and whatever the outcome, the published rows stay
  exactly as they were.\<close>

theorem published_articles_guarded:
  assumes inv: "content_inv d" and no: "\<not> allowed pub"
  shows "published_rows (snd (transactional (create_article env pub cp now) d)) = published_rows d
    \<and> published_rows (snd (transactional (update_article env pub slug up now) d)) = published_rows d
    \<and> published_rows (snd (transactional (delete_article env pub slug now) d)) = published_rows d
    \<and> snd (transactional (switch_article_publish_status env pub slug st) d) = d"
proof (intro conjI)
  show "published_rows (snd (transactional (create_article env pub cp now) d)) = published_rows d"
  proof (rule transactional_cases)
    fix a d' assume "create_article env pub cp now d = (Inr a, d')"
    then show "published_rows d' = published_rows d"
      by (cases rule: create_article_success)
         (use no in \<open>simp add: published_rows_def with_article_def from_domain_fields create_fields\<close>)
  qed simp
  show "published_rows (snd (transactional (update_article env pub slug up now) d)) = published_rows d"
  proof (rule transactional_cases)
    fix a d' assume "update_article env pub slug up now d = (Inr a, d')"
    then show "published_rows d' = published_rows d"
    proof (cases rule: update_article_rows)
      case (1 m ex folder ts)
      then have "am_publish_status m = DRAFT" "ap_publish_status up = DRAFT" using no by auto
      then show ?thesis unfolding published_rows_def 1(4)
        by (intro filter_update_where) (auto simp: update_from_domain_fields update_fields dest!: same_article[OF inv 1(1)])
    qed
  qed simp
  show "published_rows (snd (transactional (delete_article env pub slug now) d)) = published_rows d"
  proof (rule transactional_cases)
    fix a d' assume "delete_article env pub slug now d = (Inr a, d')"
    then show "published_rows d' = published_rows d"
    proof (cases rule: delete_article_success)
      case (1 ex m)
      then have "am_publish_status m = DRAFT" using no by auto
      then show ?thesis unfolding published_rows_def 1(5)
        by (simp add: remove_article_def) (intro filter_delete_where, auto dest!: same_article[OF inv 1(1)])
    qed
  qed simp
  show "snd (transactional (switch_article_publish_status env pub slug st) d) = d"
    using no by (simp add: switch_article_publish_status_def run_simps)
qed

theorem published_articles_guarded_witness:
  "published_rows (snd (transactional (delete_article sample_env \<lparr>allowed = False\<rparr> (u ''a'') 9) sample_db)) = [sample_article]"
  using published_articles_guarded[OF sample_db_inv, of "\<lparr>allowed = False\<rparr>" sample_env sample_create 9 "u ''a''" sample_update DRAFT]
  by (simp add: published_rows_def sample_db_def sample_article_def empty_db_def)

section \<open>Publication dates\<close>

text \<open>C17: the date of the first publication of an article survives every later update and every
  switch of its status, and so do its identifier and its author.\<close>

theorem publication_date_stable:
  assumes inv: "content_inv d" and m: "m \<in> set (articles d)" and t: "am_published_at m = Some t"
  shows "(\<exists>m' \<in> set (articles (snd (transactional (update_article env pub slug up now) d))).
      am_id m' = am_id m \<and> am_published_at m' = Some t \<and> am_author_username m' = am_author_username m)
    \<and> (\<exists>m' \<in> set (articles (snd (transactional (switch_article_publish_status env pub slug st) d))).
      am_id m' = am_id m \<and> am_published_at m' = Some t \<and> am_author_username m' = am_author_username m)"
proof
  let ?P = "\<lambda>d'. \<exists>m' \<in> set (articles d').
      am_id m' = am_id m \<and> am_published_at m' = Some t \<and> am_author_username m' = am_author_username m"
  have row: "?P d'" if "articles d' = update_where (\<lambda>r. am_id r = i) g (articles d)"
    and "\<And>r. r = m \<Longrightarrow> am_id r = i \<Longrightarrow> am_id (g r) = am_id r \<and> am_published_at (g r) = Some t \<and> am_author_username (g r) = am_author_username r"
    for d' i g
  proof (rule bexI[of _ "if am_id m = i then g m else m"])
    show "(if am_id m = i then g m else m) \<in> set (articles d')"
      unfolding that(1) in_update_where using m by blast
  qed (use t that(2) in simp)
  show "?P (snd (transactional (update_article env pub slug up now) d))"
  proof (rule transactional_cases)
    fix a d' assume "update_article env pub slug up now d = (Inr a, d')"
    then show "?P d'"
    proof (cases rule: update_article_rows)
      case (1 k ex folder ts)
      show ?thesis
      proof (rule row[OF 1(4)])
        fix r assume r: "r = m" "am_id r = am_id k"
        then have "am_id k = am_id m" by simp
        then have "k = m" by (rule same_article[OF inv m 1(1)])
        then show "am_id (update_from_domain_schema (update_to_article up ex now folder ts) r) = am_id r \<and>
            am_published_at (update_from_domain_schema (update_to_article up ex now folder ts) r) = Some t \<and>
            am_author_username (update_from_domain_schema (update_to_article up ex now folder ts) r) = am_author_username r"
          using t to_domain_fields(4)[OF 1(3)] by (simp add: update_from_domain_schema_def update_fields)
      qed
    qed
  qed (use m t in blast)
  have ids: "distinct (map am_id (articles d))"
    using inv by (simp add: content_inv_def articles_inv_def article_keys_inv_def)
  show "?P (snd (transactional (switch_article_publish_status env pub slug st) d))"
  proof (rule transactional_cases)
    fix a d' assume "switch_article_publish_status env pub slug st d = (Inr a, d')"
    then obtain i where "articles d' = update_where (\<lambda>r. am_id r = i) (switched env st) (articles d)"
      by (auto simp: switch_article_publish_status_def run_simps update_publish_status_run[OF ids] split: if_splits option.splits)
    then show "?P d'" by (rule row) (use t in \<open>simp add: switched_def Let_def\<close>)
  qed (use m t in blast)
qed

theorem publication_date_stable_witness:
  "\<exists>m' \<in> set (articles (snd (transactional (switch_article_publish_status sample_env \<lparr>allowed = True\<rparr> (u ''a'') DRAFT) sample_db))).
     am_id m' = u ''a1'' \<and> am_published_at m' = Some 3"
  using publication_date_stable[OF sample_db_inv, of sample_article 3 sample_env "\<lparr>allowed = True\<rparr>" "u ''a''" sample_update 9 DRAFT]
  by (auto simp: sample_db_def sample_article_def)

section \<open>The tree\<close>

text \<open>The specification of the grouping: one folder per identifier, in the order of first appearance.\<close>

definition tree_node :: "tree_item_data list \<Rightarrow> pystr \<Rightarrow> tree_folder" where
  "tree_node its k =
     (let mine = filter (\<lambda>i. td_folder_id i = k) its in
      \<lparr>tf_folder_id = k, tf_folder_key = td_folder_key (hd mine), tf_folder = td_folder (hd mine),
       tf_articles = map to_tree_item mine\<rparr>)"

lemma grouped_tree:
  "mine \<noteq> [] \<Longrightarrow>
   grouped (\<lambda>i. \<lparr>tf_folder_id = td_folder_id i, tf_folder_key = td_folder_key i, tf_folder = td_folder i,
        tf_articles = [to_tree_item i]\<rparr>)
     (\<lambda>i fo. fo\<lparr>tf_articles := tf_articles fo @ [to_tree_item i]\<rparr>) mine =
   \<lparr>tf_folder_id = td_folder_id (hd mine), tf_folder_key = td_folder_key (hd mine), tf_folder = td_folder (hd mine),
    tf_articles = map to_tree_item mine\<rparr>"
  by (induction mine rule: rev_induct) (auto simp: grouped_snoc hd_append)

lemma tree_add_spec:
  "foldl tree_add [] its = map (\<lambda>k. (k, tree_node its k)) (fromkeys (map td_folder_id its))"
proof -
  let ?new = "\<lambda>i. \<lparr>tf_folder_id = td_folder_id i, tf_folder_key = td_folder_key i, tf_folder = td_folder i,
      tf_articles = [to_tree_item i]\<rparr>"
  let ?add = "\<lambda>i fo. fo\<lparr>tf_articles := tf_articles fo @ [to_tree_item i]\<rparr>"
  have "tree_add acc i = dict_set (td_folder_id i)
      (case dict_get (td_folder_id i) acc of None \<Rightarrow> ?new i | Some x \<Rightarrow> ?add i x) acc" for acc i
    by (simp add: tree_add_def Let_def split: option.split)
  then have "foldl tree_add [] its = map (\<lambda>k. (k, grouped ?new ?add (filter (\<lambda>i. td_folder_id i = k) its)))
      (fromkeys (map td_folder_id its))"
    by (rule group_fold)
  also have "\<dots> = map (\<lambda>k. (k, tree_node its k)) (fromkeys (map td_folder_id its))"
  proof (rule map_cong[OF refl])
    fix k assume "k \<in> set (fromkeys (map td_folder_id its))"
    then have ne: "filter (\<lambda>i. td_folder_id i = k) its \<noteq> []" by (auto simp: filter_empty_conv)
    then have "td_folder_id (hd (filter (\<lambda>i. td_folder_id i = k) its)) = k"
      using hd_in_set[OF ne] by simp
    with grouped_tree[OF ne] show "(k, grouped ?new ?add (filter (\<lambda>i. td_folder_id i = k) its)) = (k, tree_node its k)"
      by (simp add: tree_node_def Let_def)
  qed
  finally show ?thesis .
qed

text \<open>Grouping the rows of the tree gives one folder per folder identifier, in the order in which
  the identifiers first appear, and each folder holds exactly its own articles in the order of the
  rows.\<close>

theorem tree_groups_rows:
  "tree_from_items its = map (tree_node its) (fromkeys (map td_folder_id its))"
  by (simp add: tree_from_items_def tree_add_spec comp_def)

section \<open>What the public sees\<close>

lemma in_sorted_filter: "x \<in> set (sort_key k (filter P xs)) \<longleftrightarrow> x \<in> set xs \<and> P x"
  by auto

lemma map_action_hydrate:
  "map_action (hydrate env) as s = (Inr bs, s') \<Longrightarrow>
   map ac_publish_status bs = map ac_publish_status as \<and> map ac_id bs = map ac_id as"
proof (induction as arbitrary: bs s s')
  case Nil then show ?case by (simp add: run_simps)
next
  case (Cons a as)
  then obtain b bs' s1 where b: "hydrate env a s = (Inr b, s1)" and bs: "map_action (hydrate env) as s1 = (Inr bs', s')"
    "bs = b # bs'" by (auto elim!: bind_InrE simp: run_simps simp del: run_bind)
  have "ac_publish_status b = ac_publish_status a \<and> ac_id b = ac_id a"
    using b by (auto simp: hydrate_def run_simps with_cover_image_url_def get_access_url_def ensure_valid_namespace_def
        split: option.splits if_splits)
  with Cons.IH[OF bs(1)] bs(2) show ?case by simp
qed

definition listed_rows :: "search_ops \<Rightarrow> article_filters \<Rightarrow> db \<Rightarrow> article_model list" where
  "listed_rows ops f d = sort_key (row_order ops f) (filter (apply_article_filters ops d f) (articles d))"

lemma list_articles_paged:
  assumes "af_page f = Some page" and "af_page_size f = Some page_size"
    and "0 \<le> (page - 1) * page_size" and "0 \<le> page_size"
  shows "list_articles ops f d =
    (case all_or_error (map (to_domain_schema d (af_include_tags f) (af_include_files f))
       (take (nat page_size) (drop (nat ((page - 1) * page_size)) (listed_rows ops f d)))) of
       Inl e \<Rightarrow> (Inl e, d) | Inr as \<Rightarrow> (Inr (as, int (length (listed_rows ops f d))), d))"
  using assms
  by (simp add: list_articles_def filters_offset_def filters_limit_def limit_rows_def listed_rows_def run_simps Let_def
      split: sum.split)

lemma list_articles_window:
  assumes "list_articles ops f d = (Inr (as, n), d')"
  obtains a b where "d' = d"
    "all_or_error (map (to_domain_schema d (af_include_tags f) (af_include_files f))
       (take a (drop b (listed_rows ops f d)))) = Inr as"
proof (cases "af_page f = None \<and> af_page_size f = None")
  case True
  then have "d' = d \<and> all_or_error (map (to_domain_schema d (af_include_tags f) (af_include_files f))
      (listed_rows ops f d)) = Inr as"
    using assms by (auto simp: list_articles_def listed_rows_def run_simps Let_def split: sum.splits)
  then show thesis using that[of "length (listed_rows ops f d)" 0] by simp
next
  case False
  then obtain page page_size where p: "af_page f = Some page" "af_page_size f = Some page_size"
    using assms by (cases "af_page f"; cases "af_page_size f") (auto simp: list_articles_def run_simps Let_def)
  moreover have "0 \<le> (page - 1) * page_size" "0 \<le> page_size"
    using assms p by (auto simp: list_articles_def filters_offset_def filters_limit_def limit_rows_def run_simps Let_def
        split: if_splits)
  ultimately show thesis
    using assms that by (auto simp: list_articles_paged split: sum.splits)
qed

lemma list_articles_rows:
  assumes "list_articles ops f d = (Inr (as, n), d')" and "a \<in> set as"
  shows "\<exists>m \<in> set (articles d). apply_article_filters ops d f m
    \<and> to_domain_schema d (af_include_tags f) (af_include_files f) m = Inr a"
proof -
  obtain k b where "all_or_error (map (to_domain_schema d (af_include_tags f) (af_include_files f))
      (take k (drop b (listed_rows ops f d)))) = Inr as"
    using assms(1) by (rule list_articles_window)
  then have "Inr a \<in> set (map (to_domain_schema d (af_include_tags f) (af_include_files f))
      (take k (drop b (listed_rows ops f d))))"
    using assms(2) by (simp only: all_or_error_Inr) simp
  then obtain m where "m \<in> set (take k (drop b (listed_rows ops f d)))"
    "to_domain_schema d (af_include_tags f) (af_include_files f) m = Inr a" by auto
  moreover from this have "m \<in> set (listed_rows ops f d)" by (blast dest: in_set_takeD in_set_dropD)
  ultimately show ?thesis unfolding listed_rows_def in_sorted_filter by blast
qed

text \<open>C26: no public read shows a draft: neither the article page, nor a list restricted to published
  articles, nor the sitemap rows, nor the public tree.\<close>

theorem public_reads_only_published:
  "{ac_publish_status a | a d'. get_article env slug True d = (Inr a, d')} \<subseteq> {PUBLISHED}
   \<and> {ac_publish_status a | a pg d'. uc_list_articles env ops (f\<lparr>af_only_published := Some True\<rparr>) d = (Inr pg, d')
        \<and> a \<in> set (pg_values pg)} \<subseteq> {PUBLISHED}
   \<and> {ps_publish_status a | a as d'. list_published_articles_for_seo ops d = (Inr as, d') \<and> a \<in> set as} \<subseteq> {PUBLISHED}
   \<and> {td_publish_status i | i its d'. list_tree_items True lang d = (Inr its, d') \<and> i \<in> set its} \<subseteq> {PUBLISHED}"
proof (intro conjI subsetI)
  fix x assume "x \<in> {ac_publish_status a | a d'. get_article env slug True d = (Inr a, d')}"
  then obtain a d' where "x = ac_publish_status a" "get_article env slug True d = (Inr a, d')" by blast
  then show "x \<in> {PUBLISHED}"
    by (auto elim!: bind_InrE simp: get_article_def is_available_def hydrate_def run_simps with_cover_image_url_def
        simp del: run_bind split: if_splits option.splits)
next
  fix x assume "x \<in> {ac_publish_status a | a pg d'. uc_list_articles env ops (f\<lparr>af_only_published := Some True\<rparr>) d = (Inr pg, d')
        \<and> a \<in> set (pg_values pg)}"
  then obtain a pg d' where x: "x = ac_publish_status a" "a \<in> set (pg_values pg)"
    and run: "uc_list_articles env ops (f\<lparr>af_only_published := Some True\<rparr>) d = (Inr pg, d')" by blast
  from run obtain as n hs d1 d2 where list: "list_articles ops (f\<lparr>af_only_published := Some True\<rparr>) d = (Inr (as, n), d1)"
    and hyd: "map_action (hydrate env) as d1 = (Inr hs, d2)" and pg: "pg_values pg = hs"
    by (auto elim!: bind_InrE simp: uc_list_articles_def run_simps from_page_def simp del: run_bind
        split: option.splits if_splits)
  from x have "x \<in> set (map ac_publish_status as)"
    using map_action_hydrate[OF hyd] pg by (metis imageI list.set_map)
  then obtain b where b: "b \<in> set as" "x = ac_publish_status b" by auto
  from list_articles_rows[OF list b(1)] show "x \<in> {PUBLISHED}"
    using b(2) by (auto simp: apply_article_filters_def to_domain_fields(3))
next
  fix x assume "x \<in> {ps_publish_status a | a as d'. list_published_articles_for_seo ops d = (Inr as, d') \<and> a \<in> set as}"
  then show "x \<in> {PUBLISHED}"
    by (auto elim!: bind_InrE simp: list_published_articles_for_seo_def seo_from_articles_def is_available_def run_simps
        simp del: run_bind)
next
  fix x assume "x \<in> {td_publish_status i | i its d'. list_tree_items True lang d = (Inr its, d') \<and> i \<in> set its}"
  then show "x \<in> {PUBLISHED}"
    by (auto simp: list_tree_items_def list_published_tree_items_def run_simps tree_row_def)
qed

section \<open>Pagination\<close>

lemma to_domain_total:
  assumes inv: "content_inv d" and m: "m \<in> set (articles d)"
  shows "\<exists>a. to_domain_schema d include_tags include_files m = Inr a"
proof -
  have refs: "am_folder_id ` set (articles d) \<subseteq> fo_id ` set (folders d)" by (rule folder_facts[OF inv])
  have tags: "atl_tag_id ` set (tag_links d) \<subseteq> tg_id ` set (tags d)" by (rule tag_facts[OF inv])
  obtain fo where fo: "require AttributeError (row_by fo_id (am_folder_id m) (folders d)) = Inr fo"
    using require_found[OF subsetD[OF refs imageI[OF m]], of AttributeError] by blast
  have "\<exists>t. require AttributeError (row_by tg_id tid (tags d)) = Inr t" if "tid \<in> set (article_tag_ids d (am_id m))" for tid
  proof (rule require_found)
    from that have "tid \<in> atl_tag_id ` set (tag_links d)" by (auto simp: article_tag_ids_def)
    then show "tid \<in> tg_id ` set (tags d)" using tags by blast
  qed
  then obtain g where "\<And>tid. tid \<in> set (article_tag_ids d (am_id m)) \<Longrightarrow>
      require AttributeError (row_by tg_id tid (tags d)) = Inr (g tid)" by metis
  then have "all_or_error (map (\<lambda>tid. require AttributeError (row_by tg_id tid (tags d))) (article_tag_ids d (am_id m)))
      = Inr (map g (article_tag_ids d (am_id m)))" by (rule all_or_error_total)
  then show ?thesis by (simp add: to_domain_schema_def fo)
qed

lemma hydrate_total:
  assumes inv: "content_inv d" and a: "to_domain_schema d include_tags include_files m = Inr a"
  shows "\<exists>b. hydrate env a s = (Inr b, s) \<and> ac_id b = ac_id a"
proof -
  have "sf_namespace f = media" if "md_cover_image_file (ac_metadata a) = Some f" for f
  proof -
    have "f \<in> set (files d)"
      using a that
      by (auto simp: to_domain_schema_def to_metadata_domain_schema_def split: sum.splits if_splits option.splits
          Option.bind_splits dest!: row_by_SomeD)
    then show ?thesis using inv by (simp add: content_inv_def files_inv_def)
  qed
  then show ?thesis
    by (cases "md_cover_image_file (ac_metadata a)")
       (auto simp: hydrate_def run_simps with_cover_image_url_def get_access_url_def ensure_valid_namespace_def)
qed

lemma map_action_total:
  "(\<And>x. x \<in> set xs \<Longrightarrow> \<exists>y. f x s = (Inr y, s) \<and> P x y) \<Longrightarrow>
   \<exists>ys. map_action f xs s = (Inr ys, s) \<and> list_all2 P xs ys"
proof (induction xs)
  case (Cons x xs)
  obtain y where "f x s = (Inr y, s)" "P x y" using Cons.prems by auto
  moreover obtain ys where "map_action f xs s = (Inr ys, s)" "list_all2 P xs ys" using Cons by force
  ultimately show ?case by (auto simp: run_simps)
qed (simp add: run_simps)

lemma ceil_div:
  assumes "0 \<le> n" and "0 < k"
  shows "(if 0 < n then - ((- n) div int k) else 0) = (n + int k - 1) div int k"
proof (cases "n = 0")
  case True
  then show ?thesis using assms by simp
next
  case False
  define q r where "q = n div int k" and "r = n mod int k"
  have n: "n = q * int k + r" and r: "0 \<le> r" "r < int k" using assms by (simp_all add: q_def r_def)
  have "- ((- n) div int k) = (if r = 0 then q else q + 1)"
    using assms by (simp add: zdiv_zminus1_eq_if q_def r_def)
  moreover have "(n + int k - 1) div int k = (if r = 0 then q else q + 1)"
  proof -
    have "(n + int k - 1) div int k = q + (r + int k - 1) div int k"
      unfolding n using assms by (simp add: div_mult_self3 add.assoc add_diff_eq[symmetric])
    moreover have "(r + int k - 1) div int k = (if r = 0 then 0 else 1)"
    proof (cases "r = 0")
      case False
      then have "(r + int k - 1) = (r - 1) + int k" "(r - 1) div int k = 0" using r by simp_all
      then show ?thesis using assms False by (metis div_add_self2 add_0 of_nat_0_less_iff less_irrefl)
    qed (use assms in simp)
    ultimately show ?thesis by simp
  qed
  ultimately show ?thesis using assms False by simp
qed

lemma page_run:
  assumes inv: "content_inv d" and page: "af_page f = Some (int i + 1)" "af_page_size f = Some (int k)" and k: "0 < k"
  shows "\<exists>pg. uc_list_articles env ops f d = (Inr pg, d)
    \<and> map ac_id (pg_values pg) = map am_id (take k (drop (i * k) (listed_rows ops f d)))
    \<and> pg_total_count pg = int (length (listed_rows ops f d))
    \<and> pg_total_pages pg = (int (length (listed_rows ops f d)) + int k - 1) div int k"
proof -
  let ?rows = "listed_rows ops f d"
  let ?win = "take k (drop (i * k) ?rows)"
  let ?dom = "to_domain_schema d (af_include_tags f) (af_include_files f)"
  have "set ?win \<subseteq> set (articles d)"
    by (auto simp: listed_rows_def dest!: in_set_takeD in_set_dropD)
  then obtain g where g: "\<And>m. m \<in> set ?win \<Longrightarrow> ?dom m = Inr (g m)"
    using bchoice[of "set ?win" "\<lambda>m a. ?dom m = Inr a"] to_domain_total[OF inv] by blast
  then have "all_or_error (map ?dom ?win) = Inr (map g ?win)" by (rule all_or_error_total)
  moreover have "nat (int i * int k) = i * k" by (metis nat_int of_nat_mult)
  ultimately have list: "list_articles ops f d = (Inr (map g ?win, int (length ?rows)), d)"
    by (simp add: list_articles_paged[OF page])
  have "\<exists>b. hydrate env a d = (Inr b, d) \<and> ac_id b = ac_id a" if "a \<in> set (map g ?win)" for a
  proof -
    from that obtain m where m: "m \<in> set ?win" "a = g m" by auto
    show ?thesis by (rule hydrate_total[OF inv]) (use g[OF m(1)] m(2) in simp)
  qed
  from map_action_total[of "map g ?win" "hydrate env" d "\<lambda>a b. ac_id b = ac_id a", OF this]
  obtain hs where hs: "map_action (hydrate env) (map g ?win) d = (Inr hs, d)"
    "list_all2 (\<lambda>a b. ac_id b = ac_id a) (map g ?win) hs" by blast
  have "map ac_id hs = map ac_id (map g ?win)" using hs(2) by (induction rule: list_all2_induct) auto
  also have "\<dots> = map am_id ?win" using to_domain_fields(1)[OF g] by (simp add: comp_def)
  finally have ids: "map ac_id hs = map am_id ?win" .
  have ceil: "(if 0 < n then - ((- n) div int k) else 0) = (n + int k - 1) div int k" if "0 \<le> n" for n
    using that k by (rule ceil_div)
  show ?thesis
    using hs(1) ids k ceil[of "int (length ?rows)"]
    by (simp add: uc_list_articles_def page run_simps list from_page_def)
qed

lemma concat_windows:
  "0 < k \<Longrightarrow> concat (map (\<lambda>i. take k (drop (i * k) xs)) [0..<n]) = take (n * k) xs"
proof (induction n)
  case (Suc n)
  then have "concat (map (\<lambda>i. take k (drop (i * k) xs)) [0..<Suc n]) = take (n * k) xs @ take k (drop (n * k) xs)"
    by simp
  also have "\<dots> = take (n * k + k) xs" by (simp add: take_add)
  finally show ?case by (simp add: add.commute)
qed simp

lemma all_windows:
  assumes k: "0 < k"
  shows "concat (map (\<lambda>i. take k (drop (i * k) xs)) [0..<(length xs + k - 1) div k]) = xs"
proof -
  let ?t = "length xs + k - 1" and ?n = "(length xs + k - 1) div k"
  have "?t = ?n * k + ?t mod k" by simp
  moreover have "?t mod k < k" using k by simp
  ultimately have "length xs \<le> ?n * k" using k by linarith
  then show ?thesis by (simp add: concat_windows[OF k])
qed

text \<open>The articles that match, in the order of the \<open>ORDER BY\<close>.\<close>

definition matching_rows :: "search_ops \<Rightarrow> article_filters \<Rightarrow> db \<Rightarrow> article_model list" where
  "matching_rows ops f d = sort_key (article_ordering ops f) (filter (apply_article_filters ops d f) (articles d))"

lemma listed_matching:
  assumes "inj_on (article_ordering ops f) (set (matching_rows ops f d))"
  shows "listed_rows ops f d = matching_rows ops f d"
proof -
  let ?key = "article_ordering ops f"
  have rows: "mset (listed_rows ops f d) = mset (matching_rows ops f d)" by (simp add: listed_rows_def matching_rows_def)
  have "sorted (map (row_order ops f) (listed_rows ops f d))" by (simp add: listed_rows_def)
  then have "sorted (map ?key (listed_rows ops f d))"
    by (auto simp: sorted_map row_order_def elim!: sorted_wrt_mono_rel[rotated])
  moreover have "sorted (map ?key (matching_rows ops f d))" by (simp add: matching_rows_def)
  ultimately have "map ?key (listed_rows ops f d) = map ?key (matching_rows ops f d)"
    using rows by (metis mset_map properties_for_sort)
  moreover have "set (listed_rows ops f d) = set (matching_rows ops f d)" using rows by (metis set_mset_mset)
  ultimately show ?thesis using assms by (metis Un_absorb map_inj_on)
qed

definition numbered_page :: "article_filters \<Rightarrow> nat \<Rightarrow> nat \<Rightarrow> article_filters" where
  "numbered_page f k i = f\<lparr>af_page := Some (int i + 1), af_page_size := Some (int k)\<rparr>"

text \<open>C25: every page of a list of articles is served, reports the full count and the number of pages, holds only matching
  articles and none of them twice, and every page but the last is full.  When no two matching articles are equal in all
  columns of the \<open>ORDER BY\<close>, the pages one after the other are exactly the matching articles in that order, none repeated
  and none lost.  Otherwise the query of each page may order the equal articles differently, as
  \<open>tied_articles_repeat\<close> shows.\<close>

theorem pages_partition:
  assumes inv: "content_inv d" and k: "0 < k"
  shows "\<exists>pages. length pages = (length (matching_rows ops f d) + k - 1) div k
    \<and> (\<forall>i < length pages. uc_list_articles env ops (numbered_page f k i) d = (Inr (pages ! i), d)
        \<and> pg_total_count (pages ! i) = int (length (matching_rows ops f d))
        \<and> pg_total_pages (pages ! i) = int (length pages)
        \<and> length (pg_values (pages ! i)) = min k (length (matching_rows ops f d) - i * k)
        \<and> distinct (map ac_id (pg_values (pages ! i)))
        \<and> ac_id ` set (pg_values (pages ! i)) \<subseteq> am_id ` set (matching_rows ops f d))
    \<and> (inj_on (article_ordering ops f) (set (matching_rows ops f d)) \<longrightarrow>
        concat (map (\<lambda>p. map ac_id (pg_values p)) pages) = map am_id (matching_rows ops f d))"
proof -
  let ?rows = "matching_rows ops f d"
  let ?n = "(length ?rows + k - 1) div k"
  define page where "page = numbered_page f k"
  have filters: "apply_article_filters ops d (page i) = apply_article_filters ops d f" for i
    by (simp add: page_def numbered_page_def fun_eq_iff apply_article_filters_def split: option.split)
  have key: "article_ordering ops (page i) = article_ordering ops f" for i
    by (simp add: page_def numbered_page_def fun_eq_iff article_ordering_def split: option.split)
  have listed: "mset (listed_rows ops (page i) d) = mset ?rows" for i by (simp add: listed_rows_def matching_rows_def filters)
  have len: "length (listed_rows ops (page i) d) = length ?rows" for i using listed by (metis size_mset)
  have same: "set (listed_rows ops (page i) d) = set ?rows" for i using listed by (metis set_mset_mset)
  have ids: "distinct (map am_id (articles d))" using inv by (simp add: content_inv_def articles_inv_defs)
  have dist: "distinct (map am_id (listed_rows ops (page i) d))" for i
  proof -
    have "distinct (map am_id (filter (apply_article_filters ops d (page i)) (articles d)))"
      using ids by (simp add: distinct_map inj_on_def)
    then show ?thesis by (metis listed_rows_def mset_map mset_sort mset_eq_imp_distinct_iff)
  qed
  have "int ?n = (int (length ?rows) + int k - 1) div int k"
    using k by (simp add: zdiv_int of_nat_diff)
  then have "\<exists>pg. uc_list_articles env ops (page i) d = (Inr pg, d)
      \<and> map ac_id (pg_values pg) = map am_id (take k (drop (i * k) (listed_rows ops (page i) d)))
      \<and> pg_total_count pg = int (length ?rows) \<and> pg_total_pages pg = int ?n" for i
    using page_run[OF inv _ _ k, of "page i" i env ops] by (simp add: len) (simp add: page_def numbered_page_def)
  then obtain pg where pg: "\<And>i. uc_list_articles env ops (page i) d = (Inr (pg i), d)"
    "\<And>i. map ac_id (pg_values (pg i)) = map am_id (take k (drop (i * k) (listed_rows ops (page i) d)))"
    "\<And>i. pg_total_count (pg i) = int (length ?rows)" "\<And>i. pg_total_pages (pg i) = int ?n"
    by metis
  have "length (pg_values (pg i)) = min k (length ?rows - i * k)" for i
    using arg_cong[OF pg(2)[of i], of length] by (simp add: len min.commute)
  moreover have "distinct (map ac_id (pg_values (pg i)))" for i
    unfolding pg(2) using dist[of i] by (simp flip: take_map drop_map)
  moreover have "ac_id ` set (pg_values (pg i)) \<subseteq> am_id ` set ?rows" for i
  proof -
    have "set (map ac_id (pg_values (pg i))) \<subseteq> am_id ` set (listed_rows ops (page i) d)"
      unfolding pg(2) by (auto dest!: in_set_takeD in_set_dropD)
    then show ?thesis by (simp add: same)
  qed
  moreover have "concat (map (\<lambda>p. map ac_id (pg_values p)) (map pg [0..<?n])) = map am_id ?rows"
    if "inj_on (article_ordering ops f) (set ?rows)"
  proof -
    have "listed_rows ops (page i) d = ?rows" for i
      using listed_matching[of ops "page i" d] that by (simp add: matching_rows_def filters key)
    then show ?thesis
      using all_windows[OF k, of "map am_id ?rows"] by (simp add: comp_def pg(2) take_map drop_map)
  qed
  ultimately show ?thesis by (intro exI[of _ "map pg [0..<?n]"]) (simp add: pg flip: page_def)
qed

text \<open>Two drafts with the same title that were changed at the same time, and a database that orders them one way for the
  first page and the other way for the second.\<close>

definition twin_db :: db where
  "twin_db = empty_db\<lparr>folders := [sample_folder],
     articles := [sample_article\<lparr>am_publish_status := DRAFT, am_published_at := None, am_content_ru := []\<rparr>,
       sample_article\<lparr>am_id := u ''a2'', am_slug := u ''b'', am_publish_status := DRAFT, am_published_at := None,
         am_content_ru := []\<rparr>]\<rparr>"

definition fickle_search :: search_ops where
  "fickle_search = sample_search\<lparr>so_tie_order := (\<lambda>f i. if (af_page f = Some 1) = (i = u ''a1'') then 0 else 1)\<rparr>"

definition single_page :: "int \<Rightarrow> article_filters" where
  "single_page n = default_filters\<lparr>af_page := Some n, af_page_size := Some 1\<rparr>"

definition two_db :: db where
  "two_db = twin_db\<lparr>articles := [(articles twin_db) ! 0, ((articles twin_db) ! 1)\<lparr>am_updated_at := 2\<rparr>]\<rparr>"

lemma two_db_inv: "content_inv two_db"
  by (simp add: content_inv_def articles_inv_defs files_inv_def file_used_def used_file_ids_def article_usage_ids_def
      marked_file_ids_def extract_file_ids_from_markdown_def find_file_ids.simps two_db_def twin_db_def sample_article_def sample_folder_def
      empty_db_def u_def)

theorem pages_partition_witness:
  "\<exists>p q. uc_list_articles sample_env sample_search (single_page 1) two_db = (Inr p, two_db)
    \<and> uc_list_articles sample_env sample_search (single_page 2) two_db = (Inr q, two_db)
    \<and> map ac_id (pg_values p) @ map ac_id (pg_values q) = [u ''a1'', u ''a2'']"
proof -
  let ?rows = "matching_rows sample_search default_filters two_db"
  have rows: "map am_id ?rows = [u ''a1'', u ''a2'']" by code_simp
  then have len: "length ?rows = 2" by (metis length_map length_Cons list.size(3) numeral_2_eq_2)
  have "distinct (map (article_ordering sample_search default_filters) ?rows)" by code_simp
  then have "inj_on (article_ordering sample_search default_filters) (set ?rows)" by (simp add: distinct_map)
  then obtain pages where pages: "length pages = 2"
    "\<forall>i < 2. uc_list_articles sample_env sample_search (numbered_page default_filters 1 i) two_db
      = (Inr (pages ! i), two_db)"
    "concat (map (\<lambda>p. map ac_id (pg_values p)) pages) = [u ''a1'', u ''a2'']"
    using pages_partition[OF two_db_inv zero_less_one, of sample_search default_filters sample_env] rows len by auto
  then obtain p q where "pages = [p, q]" by (auto simp: length_Suc_conv numeral_2_eq_2)
  then show ?thesis
    using pages(2)[THEN spec, of 0] pages(2)[THEN spec, of 1] pages(3) by (simp add: single_page_def numbered_page_def)
qed

lemma tied_articles_repeat:
  "map_sum id (\<lambda>p. map ac_id (pg_values p)) (fst (uc_list_articles sample_env fickle_search (single_page 1) twin_db)) = Inr [u ''a1'']"
  "map_sum id (\<lambda>p. map ac_id (pg_values p)) (fst (uc_list_articles sample_env fickle_search (single_page 2) twin_db)) = Inr [u ''a1'']"
  by code_simp+

section \<open>Folders\<close>

text \<open>Reordering folders either is refused, when the list is not a permutation of the folder
  identifiers, and changes nothing, or succeeds, and then folders are listed exactly in the requested
  order, in both languages, with nothing but priorities changed.\<close>

theorem folder_reorder_exact:
  assumes inv: "content_inv d"
  shows "case update_folder_priorities ids d of
      (Inl e, d') \<Rightarrow> e = ArticleFolderPriorityInvalidError \<and> d' = d \<and> \<not> (distinct ids \<and> set ids = fo_id ` set (folders d))
    | (Inr x, d') \<Rightarrow> distinct ids \<and> set ids = fo_id ` set (folders d)
        \<and> (\<exists>fs. list_folders lang d' = (Inr fs, d') \<and> map fo_id fs = ids)
        \<and> map (\<lambda>fo. fo\<lparr>fo_priority := 0\<rparr>) (folders d') = map (\<lambda>fo. fo\<lparr>fo_priority := 0\<rparr>) (folders d)"
proof -
  let ?sorted = "sort_key (\<lambda>fo. (fo_priority fo, lower (folder_name_column EN fo), fo_id fo)) (folders d)"
  have fid: "distinct (map fo_id (folders d))" by (rule folder_facts[OF inv])
  have len: "length ?sorted = length (folders d)" and sets: "set (map fo_id ?sorted) = fo_id ` set (folders d)" by simp_all
  have match: "order_matches (map fo_id (folders d)) ids \<longleftrightarrow> distinct ids \<and> set ids = fo_id ` set (folders d)"
    using fid order_matches_distinct[of "map fo_id (folders d)" ids]
    by (auto simp: order_matches_def) (metis distinct_card length_map list.set_map)
  have run: "update_folder_priorities ids d =
      (if order_matches (map fo_id (folders d)) ids
       then (Inr (), d\<lparr>folders := update_priorities fo_id set_folder_priority ids (folders d)\<rparr>)
       else (Inl ArticleFolderPriorityInvalidError, d))"
    by (simp add: update_folder_priorities_def list_folders_def ensure_priority_order_matches_def
        storage_update_folder_priorities_def run_simps Let_def order_matches_def)
  show ?thesis
  proof (cases "order_matches (map fo_id (folders d)) ids")
    case False
    then show ?thesis using match by (auto simp: run)
  next
    case True
    have "map fo_id (sort_key (\<lambda>fo. (fo_priority fo, lower (folder_name_column lang fo), fo_id fo))
        (update_priorities fo_id set_folder_priority ids (folders d))) = ids"
      by (rule folder_table.reordered_all[OF fid True])
    moreover have "map (\<lambda>fo. fo\<lparr>fo_priority := 0\<rparr>) (update_priorities fo_id set_folder_priority ids (folders d)) =
        map (\<lambda>fo. fo\<lparr>fo_priority := 0\<rparr>) (folders d)"
      by (rule folder_table.attributes_kept) (simp add: set_folder_priority_def)
    ultimately show ?thesis using True match by (simp add: run list_folders_def run_simps)
  qed
qed

theorem folder_reorder_exact_witness:
  "\<exists>fs d'. update_folder_priorities [u ''fo''] sample_db = (Inr (), d') \<and> list_folders RU d' = (Inr fs, d') \<and> map fo_id fs = [u ''fo'']"
proof -
  have "fst (update_folder_priorities [u ''fo''] sample_db) = Inr ()"
    by (simp add: update_folder_priorities_def list_folders_def ensure_priority_order_matches_def
        storage_update_folder_priorities_def run_simps sample_db_def sample_folder_def empty_db_def)
  then show ?thesis using folder_reorder_exact[OF sample_db_inv, of "[u ''fo'']" RU]
    by (cases "update_folder_priorities [u ''fo''] sample_db") auto
qed

text \<open>A new folder is listed last, in both languages, and its key differs from every other key
  even when case is ignored; a taken key is refused and nothing changes.\<close>

theorem create_folder_last:
  assumes fresh: "fp_id p \<notin> fo_id ` set (folders d)"
  shows "if \<exists>fo \<in> set (folders d). lower (fo_key fo) = lower (fp_key p)
    then create_folder p d = (Inl ArticleFolderAlreadyExistsError, d)
    else \<exists>fo d'. create_folder p d = (Inr fo, d') \<and> fo_key fo = fp_key p
      \<and> list_folders lang d' =
          (Inr (sort_key (\<lambda>fo. (fo_priority fo, lower (folder_name_column lang fo), fo_id fo)) (folders d) @ [fo]), d')"
proof (cases "\<exists>fo \<in> set (folders d). lower (fo_key fo) = lower (fp_key p)")
  case True
  then show ?thesis by (simp add: create_folder_def folder_key_exists_def run_simps)
next
  case False
  let ?n = "let n = next_priority (map fo_priority (folders d)) in if n = 0 then 1 else n"
  let ?fo = "to_folder p ?n"
  let ?key = "\<lambda>fo. (fo_priority fo, lower (folder_name_column lang fo), fo_id fo)"
  have less: "fo_priority r < ?n" if "r \<in> set (folders d)" for r
    using next_priority_greater[of "fo_priority r" "map fo_priority (folders d)"] that by (auto simp: Let_def)
  have "lower (fp_key p) \<notin> (\<lambda>r. lower (fo_key r)) ` set (folders d)" using False by auto
  then have run: "create_folder p d = (Inr ?fo, d\<lparr>folders := folders d @ [?fo]\<rparr>)"
    using False fresh
    by (simp add: create_folder_def folder_key_exists_def next_folder_priority_def storage_create_folder_def
        run_simps to_folder_def)
  have "sort_key ?key (folders d @ [?fo]) = sort_key ?key (folders d) @ [?fo]"
  proof (rule sort_key_max_last)
    fix r assume "r \<in> set (folders d)"
    then have "fo_priority r < fo_priority ?fo" using less by (simp add: to_folder_def)
    then show "?key r < ?key ?fo" by simp
  qed
  then show ?thesis using False run
    by (simp add: list_folders_def run_simps to_folder_def)
qed

theorem create_folder_last_witness:
  "\<exists>fo d'. create_folder \<lparr>fp_id = u ''g'', fp_key = u ''k'', fp_name_ru = [], fp_name_en = []\<rparr> sample_db = (Inr fo, d')
     \<and> list_folders EN d' = (Inr [sample_folder, fo], d')"
  using create_folder_last[of "\<lparr>fp_id = u ''g'', fp_key = u ''k'', fp_name_ru = [], fp_name_en = []\<rparr>" sample_db EN]
  by (auto simp: sample_db_def sample_folder_def empty_db_def u_def lower_def lower_char_def)

text \<open>A folder is deleted exactly when it exists and no article is in it; otherwise the request
  fails with the matching error and nothing changes.\<close>

theorem delete_folder_cases:
  "delete_folder fid d =
     (if fid \<notin> fo_id ` set (folders d) then (Inl ArticleFolderNotFoundError, d)
      else if \<exists>m \<in> set (articles d). am_folder_id m = fid then (Inl ArticleFolderInUseError, d)
      else (Inr (), d\<lparr>folders := filter (\<lambda>fo. fo_id fo \<noteq> fid) (folders d)\<rparr>))"
  by (auto simp: delete_folder_def storage_delete_folder_def run_simps delete_where_def)

section \<open>Round trip\<close>

text \<open>
  The article a write returns was read before the orphan marks were synchronised, so its cover file
  may carry the old mark; everything else agrees with what is read afterwards.
\<close>

definition without_cover_file :: "article \<Rightarrow> article" where
  "without_cover_file a = a\<lparr>ac_metadata := (ac_metadata a)\<lparr>md_cover_image_file := None\<rparr>\<rparr>"

lemma row_by_append:
  "row_by key k (xs @ ys) = (case row_by key k xs of None \<Rightarrow> row_by key k ys | Some r \<Rightarrow> Some r)"
  by (induction xs) (auto simp: row_by_def)

lemma required_rows_keys:
  "all_or_error (map (\<lambda>k. require e (row_by key k rows)) ks) = Inr rs \<Longrightarrow> map key rs = ks"
proof (induction ks arbitrary: rs)
  case (Cons k ks)
  then show ?case
    by (auto simp: require_def split: option.splits sum.splits dest!: row_by_SomeD)
qed simp

lemma to_domain_texts:
  assumes "to_domain_schema d True include_files m = Inr a"
  shows "ac_title_ru a = am_title_ru m" "ac_title_en a = am_title_en m" "ac_content_ru a = am_content_ru m"
    "ac_content_en a = am_content_en m" "map tg_id (ac_tags a) = article_tag_ids d (am_id m)"
  using assms by (auto simp: to_domain_schema_def split: sum.splits dest: required_rows_keys)

lemma sync_run:
  obtains h where "snd (sync_file_usages env attached detached t e) = e\<lparr>files := map h (files e)\<rparr>"
    "\<And>f. sf_id (h f) = sf_id f" "\<And>f. sf_relative_path (h f) = sf_relative_path f"
    "\<And>f. sf_namespace (h f) = sf_namespace f"
proof -
  let ?g1 = "\<lambda>f. if attached \<noteq> {} \<and> sf_id f \<in> attached \<and> sf_orphaned_at f \<noteq> None
      then f\<lparr>sf_orphaned_at := None, sf_updated_at := env_audit_touch env (sf_updated_at f)\<rparr> else f"
  let ?g2 = "\<lambda>f. if detached \<noteq> {} \<and> sf_id f \<in> detached \<and> \<not> file_used e (sf_id f)
      then f\<lparr>sf_orphaned_at := Some t, sf_updated_at := env_audit_touch env (sf_updated_at f)\<rparr> else f"
  have "snd (sync_file_usages env attached detached t e) = e\<lparr>files := map (\<lambda>f. ?g2 (?g1 f)) (files e)\<rparr>"
    by (simp add: sync_file_usages_def set_files_attached_def set_files_orphaned_if_unused_def
        lock_files_def run_simps update_where_def comp_def)
  then show thesis by (rule that) auto
qed

lemma row_by_map: "(\<And>f. key (h f) = key f) \<Longrightarrow> row_by key k (map h rows) = map_option h (row_by key k rows)"
  by (induction rows) (auto simp: row_by_def)

lemma to_domain_map_files:
  assumes "\<And>f. sf_id (h f) = sf_id f"
  shows "to_domain_schema (e\<lparr>files := map h (files e)\<rparr>) True True m =
    map_sum id (\<lambda>x. x\<lparr>ac_metadata := (ac_metadata x)\<lparr>md_cover_image_file :=
      map_option h (md_cover_image_file (ac_metadata x))\<rparr>\<rparr>) (to_domain_schema e True True m)"
proof -
  have "Option.bind x (\<lambda>fid. row_by sf_id fid (map h (files e))) =
      map_option h (Option.bind x (\<lambda>fid. row_by sf_id fid (files e)))" for x
    by (cases x) (simp_all add: row_by_map assms)
  then show ?thesis
    by (simp add: to_domain_schema_def to_metadata_domain_schema_def article_tag_ids_def article_usage_ids_def
        split: sum.split)
qed

lemma to_domain_metadata:
  "to_domain_schema d include_tags include_files m = Inr a \<Longrightarrow> ac_metadata a = to_metadata_domain_schema d include_files m"
  by (auto simp: to_domain_schema_def split: sum.splits)

text \<open>C19: an article that has been created is found again under its slug with everything it was created with: the slug,
  texts, folder, author, status and tags, all the metadata (the titles and descriptions for search engines, the cover
  image and its descriptions; the row of the cover file and its address are looked up), the files its texts mention, the
  time of its creation and of its last change, and the publication date set exactly when it is published at once.\<close>

theorem create_then_get:
  assumes inv: "content_inv d" and run: "create_article env pub p now d = (Inr b, d')"
  shows "\<exists>a. get_article env (cp_slug p) False d' = (Inr a, d') \<and> without_cover_file a = without_cover_file b
    \<and> ac_id a = cp_id p \<and> ac_slug a = cp_slug p \<and> ac_title_ru a = cp_title_ru p \<and> ac_title_en a = cp_title_en p
    \<and> ac_content_ru a = cp_content_ru p \<and> ac_content_en a = cp_content_en p
    \<and> fo_id (ac_folder a) = cp_folder_id p \<and> ac_folder a \<in> set (folders d) \<and> ac_author_username a = cp_author_username p
    \<and> (ac_metadata a)\<lparr>md_cover_image_file := None, md_cover_image_url := None\<rparr>
        = (cp_metadata p)\<lparr>md_cover_image_file := None, md_cover_image_url := None\<rparr>
    \<and> tg_id ` set (ac_tags a) = set (cp_tag_ids p) \<and> ac_content_file_ids a = create_content_file_ids p
    \<and> ac_publish_status a = cp_publish_status p \<and> ac_created_at a = now \<and> ac_updated_at a = now
    \<and> ac_published_at a = (if cp_publish_status p = PUBLISHED then Some now else None)"
  using run
proof (cases rule: create_article_success)
  case (1 ts folder c)
  let ?a = "create_to_article p now folder ts"
  let ?m = "from_domain_schema ?a" and ?e = "with_article ?a d"
  obtain h where d': "d' = ?e\<lparr>files := map h (files ?e)\<rparr>"
    and h: "\<And>f. sf_id (h f) = sf_id f" "\<And>f. sf_relative_path (h f) = sf_relative_path f"
      "\<And>f. sf_namespace (h f) = sf_namespace f"
    unfolding 1(1) using sync_run by metis
  have fresh: "row_by am_slug (cp_slug p) (articles d @ [?m]) = Some ?m"
  proof -
    have "row_by am_slug (cp_slug p) (articles d) = None" using 1(7) by (simp add: row_by_None_iff)
    then show ?thesis by (simp add: row_by_append) (simp add: row_by_def from_domain_fields create_fields)
  qed
  then have c: "to_domain_schema ?e True True ?m = Inr c"
    using 1(12) by (simp add: get_article_by_slug_def run_simps with_article_def create_fields)
  let ?up = "\<lambda>x. x\<lparr>ac_metadata := (ac_metadata x)\<lparr>md_cover_image_file :=
      map_option h (md_cover_image_file (ac_metadata x))\<rparr>\<rparr>"
  have get: "get_article_by_slug (cp_slug p) d' = (Inr (?up c), d')"
  proof -
    have "to_domain_schema d' True True ?m = Inr (?up c)"
      using c unfolding d' by (simp add: to_domain_map_files[OF h(1)])
    moreover have "articles d' = articles d @ [?m]" by (simp add: d' with_article_def)
    ultimately show ?thesis using fresh by (simp add: get_article_by_slug_def run_simps)
  qed
  obtain url where b: "b = with_cover_image_url url c" and hy: "hydrate env (?up c) d' = (Inr (with_cover_image_url url (?up c)), d')"
    using 1(13) by (auto simp: hydrate_def get_access_url_def ensure_valid_namespace_def run_simps h split: option.splits if_splits)
  have "filter (\<lambda>l. atl_article_id l = cp_id p) (tag_links d) = []"
    using link_article(2)[of d] inv 1(6) unfolding filter_empty_conv content_inv_def by metis
  then have "article_tag_ids ?e (am_id ?m) = map tg_id ts"
    by (simp add: article_tag_ids_def with_article_def tag_links_from_domain_def from_domain_fields create_fields
        filter_map comp_def)
  then have "set (map tg_id (ac_tags c)) = tg_id ` set ts" by (simp only: to_domain_texts(5)[OF c] set_map)
  moreover have "tg_id ` set ts = set (cp_tag_ids p)" using 1(2,3) by auto
  ultimately have tags: "tg_id ` set (ac_tags c) = set (cp_tag_ids p)" by simp
  have uses: "article_usage_ids ?e (cp_id p) = create_content_file_ids p"
  proof -
    have "{l \<in> set (file_usages ?e). afu_article_id l = cp_id p} = set (usage_links_from_domain ?a)"
    proof -
      have "afu_article_id l \<noteq> cp_id p" if "l \<in> set (file_usages d)" for l
        using link_article(1)[of d l] that inv 1(6) unfolding content_inv_def by metis
      then show ?thesis using usage_links_facts(2)[of _ ?a] by (auto simp: with_article_def create_fields)
    qed
    then show ?thesis
      by (simp add: article_usage_ids_eq usage_links_files create_fields create_content_file_ids_def)
  qed
  have folder: "ac_folder c \<in> set (folders d)"
    using to_domain_fields(10)[OF c] by (simp add: with_article_def)
  have meta: "(ac_metadata c)\<lparr>md_cover_image_file := None, md_cover_image_url := None\<rparr>
      = (cp_metadata p)\<lparr>md_cover_image_file := None, md_cover_image_url := None\<rparr>"
    by (simp add: to_domain_metadata[OF c] to_metadata_domain_schema_def from_domain_schema_def create_to_article_def)
  have model: "am_created_at ?m = now" "am_updated_at ?m = now" "am_title_ru ?m = cp_title_ru p" "am_title_en ?m = cp_title_en p" "am_author_username ?m = cp_author_username p"
    by (simp_all add: from_domain_schema_def create_to_article_def)
  show ?thesis
    using to_domain_fields[OF c] to_domain_texts[OF c] tags uses model folder meta 1(4)
    by (intro exI[of _ "with_cover_image_url url (?up c)"])
       (simp add: get_article_def run_simps get hy b with_cover_image_url_def without_cover_file_def
         from_domain_fields create_fields)
qed

theorem create_then_get_witness:
  "\<exists>a d'. get_article sample_env (u ''b'') False d' = (Inr a, d') \<and> ac_id a = u ''a2''"
proof -
  have "isl (fst (create_article sample_env \<lparr>allowed = False\<rparr> sample_create 9 sample_db)) = False"
    by code_simp
  then obtain b d' where "create_article sample_env \<lparr>allowed = False\<rparr> sample_create 9 sample_db = (Inr b, d')"
    by (metis (full_types) isl_def prod.collapse sum.collapse(2) sum.disc(1))
  from create_then_get[OF sample_db_inv this] show ?thesis by (auto simp: sample_create_def)
qed

end
