(* ===== verification/Analytics.thy ===== *)
theory Analytics
  imports Files
begin

text \<open>
  Privacy-preserving analytics: the schemas of \<open>core/analytics\<close> and \<open>AnalyticsDatabaseStorage\<close> of
  \<open>infra/postgresql/storages/analytics.py\<close>.  Daily counters are upserted rows, a visit leaves a
  receipt whose digest makes it count once.  The locale \<open>counter_table\<close> is the interface of a table
  of upserted counters; the counters of articles use it too.
\<close>

section \<open>Upserted counters\<close>

text \<open>\<open>INSERT ... ON CONFLICT (key) DO UPDATE\<close>.\<close>

definition upsert :: "('r \<Rightarrow> 'k) \<Rightarrow> 'r \<Rightarrow> ('r \<Rightarrow> 'r) \<Rightarrow> 'r list \<Rightarrow> 'r list" where
  "upsert key new bump rows =
     (if key new \<in> key ` set rows then update_where (\<lambda>r. key r = key new) bump rows else rows @ [new])"

locale counter_table =
  fixes key :: "'r \<Rightarrow> 'k"
    and mk :: "'k \<Rightarrow> 'n \<Rightarrow> 'r"
    and bump :: "'n \<Rightarrow> 'r \<Rightarrow> 'r"
    and val :: "'r \<Rightarrow> int"
    and amount :: "'n \<Rightarrow> int"
  assumes key_mk: "key (mk k n) = k"
    and key_bump: "key (bump n r) = key r"
    and val_mk: "val (mk k n) = amount n"
    and val_bump: "val (bump n r) = val r + amount n"
begin

definition count :: "'r list \<Rightarrow> 'k \<Rightarrow> int" where
  "count rows k = sum_list (map val (filter (\<lambda>r. key r = k) rows))"

lemma keys_upsert: "key ` set (upsert key (mk k n) (bump n) rows) = insert k (key ` set rows)"
  by (auto simp: upsert_def key_mk image_update_where key_bump)

lemma distinct_upsert: "distinct (map key rows) \<Longrightarrow> distinct (map key (upsert key (mk k n) (bump n) rows))"
  by (auto simp: upsert_def key_mk map_update_where key_bump)

lemma unique_row:
  assumes "distinct (map key rows)" and "k \<in> key ` set rows"
  obtains r where "filter (\<lambda>r. key r = k) rows = [r]" "key r = k"
proof -
  have "card (set (filter (\<lambda>r. key r = k) rows)) \<le> 1"
    using assms(1) by (intro card_le_Suc0_iff_eq[THEN iffD2, unfolded One_nat_def[symmetric]])
      (auto simp: distinct_map inj_on_def)
  moreover have "distinct (filter (\<lambda>r. key r = k) rows)" using assms(1) by (simp add: distinct_map)
  moreover have "filter (\<lambda>r. key r = k) rows \<noteq> []" using assms(2) by (auto simp: filter_empty_conv)
  ultimately obtain r where r: "filter (\<lambda>r. key r = k) rows = [r]"
    by (cases "filter (\<lambda>r. key r = k) rows"; cases "tl (filter (\<lambda>r. key r = k) rows)")
       (auto simp: distinct_card[symmetric])
  moreover have "r \<in> set (filter (\<lambda>r. key r = k) rows)" by (simp add: r)
  then have "key r = k" by simp
  ultimately show thesis by (rule that)
qed

lemma filter_update_key:
  "(\<And>r. key (g r) = key r) \<Longrightarrow>
   filter (\<lambda>r. key r = j) (update_where (\<lambda>r. key r = k) g rows) =
     (if j = k then map g (filter (\<lambda>r. key r = j) rows) else filter (\<lambda>r. key r = j) rows)"
  by (induction rows) (auto simp: update_where_def)

text \<open>An increment adds its amount to its own counter and to no other.\<close>

lemma count_upsert:
  assumes "distinct (map key rows)"
  shows "count (upsert key (mk k n) (bump n) rows) j = count rows j + (if j = k then amount n else 0)"
proof (cases "k \<in> key ` set rows")
  case True
  then obtain r where r: "filter (\<lambda>r. key r = k) rows = [r]" "key r = k" using assms unique_row by metis
  show ?thesis using True r
    by (cases "j = k") (simp_all add: count_def upsert_def key_mk filter_update_key key_bump val_bump)
next
  case False
  then have "filter (\<lambda>r. key r = k) rows = []" by (auto simp: filter_empty_conv)
  then show ?thesis using False by (auto simp: count_def upsert_def key_mk val_mk)
qed

end

section \<open>Schemas\<close>

datatype public_page = PAGE_ARTICLES | PAGE_MATRIX | PAGE_ABOUT | PAGE_UPDATES | PAGE_CONTACTS | PAGE_SITEMAP

datatype analytics_event = EVENT_VIEW | EVENT_ENGAGED

fun analytics_kind_value :: "analytics_kind \<Rightarrow> pystr" where
  "analytics_kind_value KIND_ARTICLES = u ''Articles''"
| "analytics_kind_value KIND_MATRIX = u ''Matrix''"
| "analytics_kind_value KIND_SITE = u ''Site''"
| "analytics_kind_value KIND_SUGGESTIONS = u ''Suggestions''"

fun public_page_value :: "public_page \<Rightarrow> pystr" where
  "public_page_value PAGE_ARTICLES = u ''articles''"
| "public_page_value PAGE_MATRIX = u ''matrix''"
| "public_page_value PAGE_ABOUT = u ''about''"
| "public_page_value PAGE_UPDATES = u ''updates''"
| "public_page_value PAGE_CONTACTS = u ''contacts''"
| "public_page_value PAGE_SITEMAP = u ''sitemap''"

definition public_pages_all :: "public_page list" where
  "public_pages_all = [PAGE_ARTICLES, PAGE_MATRIX, PAGE_ABOUT, PAGE_UPDATES, PAGE_CONTACTS, PAGE_SITEMAP]"

record analytics_config =
  ag_secret :: pystr
  ag_receipt_retention_days :: int

record analytics_visit =
  av_kind :: analytics_kind
  av_target_id :: pystr
  av_event :: analytics_event
  av_source :: view_source
  av_visitor_token :: pystr
  av_visit_token :: pystr

text \<open>\<open>date.isoformat\<close>: the day number in the proleptic Gregorian calendar, as four, two and two digits.\<close>

definition pad :: "nat \<Rightarrow> int \<Rightarrow> pystr" where
  "pad n i = (let s = str_of_int i in replicate (n - length s) 48 @ s)"

definition civil_date :: "date \<Rightarrow> int \<times> int \<times> int" where
  "civil_date d =
     (let z = d + 719468; era = z div 146097; doe = z mod 146097;
          yoe = (doe - doe div 1460 + doe div 36524 - doe div 146096) div 365;
          doy = doe - (365 * yoe + yoe div 4 - yoe div 100);
          mp = (5 * doy + 2) div 153;
          day = doy - (153 * mp + 2) div 5 + 1;
          month = (if mp < 10 then mp + 3 else mp - 9);
          year = yoe + era * 400 + (if month \<le> 2 then 1 else 0)
      in (year, month, day))"

definition isoformat :: "date \<Rightarrow> pystr" where
  "isoformat d = (case civil_date d of (y, m, day) \<Rightarrow> pad 4 y @ [45] @ pad 2 m @ [45] @ pad 2 day)"

definition digest :: "env \<Rightarrow> analytics_config \<Rightarrow> date \<Rightarrow> pystr \<Rightarrow> pystr \<Rightarrow> pystr" where
  "digest env cfg day scope token =
     env_hmac env (ag_secret cfg) (isoformat day @ [58] @ scope @ [58] @ token)"

section \<open>Storage\<close>

record increments =
  ic_views :: int
  ic_engaged :: int
  ic_reactions :: int
  ic_suggestions :: int
  ic_visitors :: int

type_synonym daily_ident = "date \<times> analytics_kind \<times> pystr \<times> view_source"

definition daily_key :: "analytics_daily \<Rightarrow> daily_ident" where
  "daily_key r = (an_date r, an_kind r, an_target_id r, an_source r)"

definition new_daily :: "daily_ident \<Rightarrow> increments \<Rightarrow> analytics_daily" where
  "new_daily k n = (case k of (day, kind, target, source) \<Rightarrow>
     \<lparr>an_date = day, an_kind = kind, an_target_id = target, an_source = source, an_views = ic_views n,
      an_engaged = ic_engaged n, an_reactions = ic_reactions n, an_suggestions = ic_suggestions n,
      an_visitors = ic_visitors n\<rparr>)"

definition bump_daily :: "increments \<Rightarrow> analytics_daily \<Rightarrow> analytics_daily" where
  "bump_daily n r = r\<lparr>an_views := an_views r + ic_views n, an_engaged := an_engaged r + ic_engaged n,
     an_reactions := an_reactions r + ic_reactions n, an_suggestions := an_suggestions r + ic_suggestions n,
     an_visitors := an_visitors r + ic_visitors n\<rparr>"

definition no_increments :: increments where
  "no_increments = \<lparr>ic_views = 0, ic_engaged = 0, ic_reactions = 0, ic_suggestions = 0, ic_visitors = 0\<rparr>"

definition increment ::
  "date \<Rightarrow> analytics_kind \<Rightarrow> pystr \<Rightarrow> view_source \<Rightarrow> increments \<Rightarrow> unit dbm" where
  "increment day kind target source n =
     modify (\<lambda>d. d\<lparr>dailies :=
       upsert daily_key (new_daily (day, kind, target, source) n) (bump_daily n) (dailies d)\<rparr>)"

definition receipt_key :: "analytics_receipt \<Rightarrow> date \<times> pystr \<times> pystr" where
  "receipt_key r = (rc_date r, rc_scope r, rc_digest r)"

text \<open>\<open>INSERT ... ON CONFLICT DO NOTHING RETURNING id\<close>: whether the row was inserted.\<close>

definition insert_receipt :: "analytics_receipt \<Rightarrow> bool dbm" where
  "insert_receipt r =
     bind (gets (\<lambda>d. receipt_key r \<in> receipt_key ` set (receipts d))) (\<lambda>conflict.
     if conflict then ret False
     else bind (modify (\<lambda>d. d\<lparr>receipts := receipts d @ [r]\<rparr>)) (\<lambda>_. ret True))"

text \<open>\<open>UPDATE ... SET engaged = true RETURNING source\<close>: the source of the row it changed.\<close>

definition engage_receipt :: "date \<Rightarrow> pystr \<Rightarrow> pystr \<Rightarrow> view_source option dbm" where
  "engage_receipt day scope dig =
     (let hit = (\<lambda>r. receipt_key r = (day, scope, dig) \<and> \<not> rc_engaged r) in
      bind (gets (\<lambda>d. first (filter hit (receipts d)))) (\<lambda>r.
      bind (modify (\<lambda>d. d\<lparr>receipts := update_where hit (\<lambda>r. r\<lparr>rc_engaged := True\<rparr>) (receipts d)\<rparr>)) (\<lambda>_.
      ret (map_option rc_source r))))"

definition visit_scope :: "analytics_visit \<Rightarrow> pystr" where
  "visit_scope v = analytics_kind_value (av_kind v) @ [58] @ av_target_id v"

definition purge_receipts :: "analytics_config \<Rightarrow> date \<Rightarrow> unit dbm" where
  "purge_receipts cfg day =
     modify (\<lambda>d. d\<lparr>receipts := delete_where (\<lambda>r. rc_date r < day - ag_receipt_retention_days cfg) (receipts d)\<rparr>)"

definition record_visit :: "env \<Rightarrow> analytics_config \<Rightarrow> analytics_visit \<Rightarrow> date \<Rightarrow> unit dbm" where
  "record_visit env cfg v day =
     (let scope = visit_scope v; dig = digest env cfg day scope (av_visit_token v) in
     bind (purge_receipts cfg day) (\<lambda>_.
     if av_event v = EVENT_VIEW
     then
       bind (insert_receipt \<lparr>rc_date = day, rc_scope = scope, rc_digest = dig, rc_source = av_source v,
                             rc_engaged = False\<rparr>) (\<lambda>inserted.
       if \<not> inserted then ret ()
       else
         bind (increment day (av_kind v) (av_target_id v) (av_source v) (no_increments\<lparr>ic_views := 1\<rparr>)) (\<lambda>_.
         when_do (av_kind v = KIND_SITE) (
           let visitor_scope = u ''Site:audience'' in
           bind (insert_receipt \<lparr>rc_date = day, rc_scope = visitor_scope,
                   rc_digest = digest env cfg day visitor_scope (av_visitor_token v),
                   rc_source = av_source v, rc_engaged = False\<rparr>) (\<lambda>new_visitor.
           when_do new_visitor
             (increment day KIND_SITE (u ''_audience'') (av_source v) (no_increments\<lparr>ic_visitors := 1\<rparr>)))))
       )
     else
       bind (engage_receipt day scope dig) (\<lambda>source.
       case source of
         None \<Rightarrow> ret ()
       | Some source \<Rightarrow> increment day (av_kind v) (av_target_id v) source (no_increments\<lparr>ic_engaged := 1\<rparr>))))"

section \<open>The report\<close>

record analytics_filters =
  gf_kind :: analytics_kind
  gf_date_from :: date
  gf_date_to :: date
  gf_language :: language
  gf_source :: "view_source option"
  gf_target_id :: "pystr option"
  gf_group_id :: "pystr option"
  gf_section_id :: "pystr option"
  gf_search :: "pystr option"

record report_line =
  ay_date :: date
  ay_target_id :: pystr
  ay_title :: pystr
  ay_group_id :: pystr
  ay_group_title :: pystr
  ay_section_id :: pystr
  ay_section_title :: pystr
  ay_source :: view_source
  ay_counts :: increments

record counter_row =
  cr_date :: date
  cr_target_id :: pystr
  cr_source :: view_source
  cr_counts :: increments

definition daily_counter_row :: "analytics_daily \<Rightarrow> counter_row" where
  "daily_counter_row r = \<lparr>cr_date = an_date r, cr_target_id = an_target_id r, cr_source = an_source r,
     cr_counts = \<lparr>ic_views = an_views r, ic_engaged = an_engaged r, ic_reactions = an_reactions r,
       ic_suggestions = an_suggestions r, ic_visitors = an_visitors r\<rparr>\<rparr>"

definition legacy_counter_row :: "article_daily \<Rightarrow> counter_row" where
  "legacy_counter_row r = \<lparr>cr_date = ad_date r, cr_target_id = ad_article_id r, cr_source = ad_source_category r,
     cr_counts = \<lparr>ic_views = ad_view_count r, ic_engaged = ad_engaged_view_count r, ic_reactions = 0,
       ic_suggestions = 0, ic_visitors = 0\<rparr>\<rparr>"

definition in_range :: "analytics_filters \<Rightarrow> date \<Rightarrow> bool" where
  "in_range f day \<longleftrightarrow> gf_date_from f \<le> day \<and> day \<le> gf_date_to f"

definition counter_rows :: "analytics_filters \<Rightarrow> db \<Rightarrow> counter_row list" where
  "counter_rows f d =
     (let counters = map daily_counter_row
            (filter (\<lambda>r. an_kind r = gf_kind f \<and> in_range f (an_date r)) (dailies d))
      in if gf_kind f = KIND_ARTICLES
         then counters @ map legacy_counter_row (filter (\<lambda>r. in_range f (ad_date r)) (article_dailies d))
         else counters)"

definition or_blank :: "('a \<Rightarrow> pystr) \<Rightarrow> 'a option \<Rightarrow> pystr" where
  "or_blank f x = (case x of None \<Rightarrow> [] | Some a \<Rightarrow> f a)"

text \<open>The labels that the outer joins give to a target: title, group and section.\<close>

definition report_labels ::
  "analytics_filters \<Rightarrow> db \<Rightarrow> pystr \<Rightarrow> pystr \<times> pystr \<times> pystr \<times> pystr \<times> pystr" where
  "report_labels f d target =
     (let lang = gf_language f in
      case gf_kind f of
        KIND_ARTICLES \<Rightarrow>
          (let article = row_by am_id target (articles d);
               folder = Option.bind article (\<lambda>a. row_by fo_id (am_folder_id a) (folders d))
           in ((case article of None \<Rightarrow> target | Some a \<Rightarrow> localized lang (am_title_ru a) (am_title_en a)),
               or_blank fo_id folder, or_blank (\<lambda>x. localized lang (fo_name_ru x) (fo_name_en x)) folder, [], []))
      | KIND_MATRIX \<Rightarrow>
          (let item = row_by im_id target (items d);
               sub = Option.bind item (\<lambda>i. row_by su_id (im_subsection_id i) (subsections d));
               sec = Option.bind sub (\<lambda>x. row_by se_id (su_section_id x) (sections d));
               sheet = Option.bind sec (\<lambda>x. row_by sh_id (se_sheet_id x) (sheets d))
           in ((case item of None \<Rightarrow> target | Some i \<Rightarrow> localized lang (im_question_ru i) (im_question_en i)),
               or_blank sh_id sheet, or_blank (\<lambda>x. localized lang (sh_name_ru x) (sh_name_en x)) sheet,
               or_blank se_id sec, or_blank (\<lambda>x. localized lang (se_name_ru x) (se_name_en x)) sec))
      | KIND_SUGGESTIONS \<Rightarrow>
          (let sheet = row_by sh_key target (sheets d);
               title = (case sheet of None \<Rightarrow> target | Some x \<Rightarrow> localized lang (sh_name_ru x) (sh_name_en x))
           in (title, or_blank sh_id sheet, title, [], []))
      | KIND_SITE \<Rightarrow> (target, [], [], [], []))"

definition report_keeps :: "analytics_filters \<Rightarrow> db \<Rightarrow> counter_row \<Rightarrow> bool" where
  "report_keeps f d r =
     (case report_labels f d (cr_target_id r) of (title, group_id, _, section_id, _) \<Rightarrow>
        (case gf_source f of None \<Rightarrow> True | Some x \<Rightarrow> cr_source r = x)
        \<and> (case gf_target_id f of None \<Rightarrow> True | Some x \<Rightarrow> cr_target_id r = x)
        \<and> (case gf_group_id f of None \<Rightarrow> True | Some x \<Rightarrow> group_id = x)
        \<and> (case gf_section_id f of None \<Rightarrow> True | Some x \<Rightarrow> section_id = x)
        \<and> (case gf_search f of None \<Rightarrow> True
           | Some x \<Rightarrow> x = [] \<or> contains (lower x) (lower title)))"

fun source_index :: "view_source \<Rightarrow> nat" where
  "source_index SRC_DIRECT = 0"
| "source_index SRC_INTERNAL = 1"
| "source_index SRC_SEARCH = 2"
| "source_index SRC_SOCIAL = 3"
| "source_index SRC_EXTERNAL = 4"
| "source_index SRC_UNKNOWN = 5"

definition row_key :: "counter_row \<Rightarrow> date \<times> pystr \<times> view_source" where
  "row_key r = (cr_date r, cr_target_id r, cr_source r)"

definition sum_counts :: "counter_row list \<Rightarrow> increments" where
  "sum_counts rs =
     (let total = (\<lambda>g. sum_list (map (\<lambda>r. g (cr_counts r)) rs)) in
      \<lparr>ic_views = total ic_views, ic_engaged = total ic_engaged, ic_reactions = total ic_reactions,
       ic_suggestions = total ic_suggestions, ic_visitors = total ic_visitors\<rparr>)"

text \<open>
  The labels are functions of the target, so grouping by date, target, labels and source is grouping
  by date, target and source.
\<close>

definition get_daily :: "analytics_filters \<Rightarrow> report_line list dbm" where
  "get_daily f =
     gets (\<lambda>d.
       let rows = filter (report_keeps f d) (counter_rows f d);
           keys = sort_key (\<lambda>(day, target, source). (day, target, source_index source)) (remdups (map row_key rows))
       in map (\<lambda>(day, target, source).
            case report_labels f d target of (title, group_id, group_title, section_id, section_title) \<Rightarrow>
              \<lparr>ay_date = day, ay_target_id = target, ay_title = title, ay_group_id = group_id,
               ay_group_title = group_title, ay_section_id = section_id, ay_section_title = section_title,
               ay_source = source,
               ay_counts = sum_counts (filter (\<lambda>r. row_key r = (day, target, source)) rows)\<rparr>) keys)"

section \<open>The counters of the model\<close>

interpretation views_counter: counter_table daily_key new_daily bump_daily an_views ic_views
  by unfold_locales (auto simp: daily_key_def new_daily_def bump_daily_def)

interpretation engaged_counter: counter_table daily_key new_daily bump_daily an_engaged ic_engaged
  by unfold_locales (auto simp: daily_key_def new_daily_def bump_daily_def)

interpretation reactions_counter: counter_table daily_key new_daily bump_daily an_reactions ic_reactions
  by unfold_locales (auto simp: daily_key_def new_daily_def bump_daily_def)

interpretation suggestions_counter: counter_table daily_key new_daily bump_daily an_suggestions ic_suggestions
  by unfold_locales (auto simp: daily_key_def new_daily_def bump_daily_def)

interpretation visitors_counter: counter_table daily_key new_daily bump_daily an_visitors ic_visitors
  by unfold_locales (auto simp: daily_key_def new_daily_def bump_daily_def)

definition counter_of :: "(analytics_daily \<Rightarrow> int) \<Rightarrow> db \<Rightarrow> daily_ident \<Rightarrow> int" where
  "counter_of val d k = sum_list (map val (filter (\<lambda>r. daily_key r = k) (dailies d)))"

definition analytics_inv :: "db \<Rightarrow> bool" where
  "analytics_inv d \<longleftrightarrow> distinct (map daily_key (dailies d)) \<and> distinct (map receipt_key (receipts d))"

lemma analytics_inv_empty: "analytics_inv empty_db"
  by (simp add: analytics_inv_def empty_db_def)

lemma increment_state:
  "snd (increment day kind target source n d) = d\<lparr>dailies :=
     upsert daily_key (new_daily (day, kind, target, source) n) (bump_daily n) (dailies d)\<rparr>"
  by (simp add: increment_def run_simps)

lemma increment_keeps [keeps_intros]: "keeps analytics_inv (increment day kind target source n)"
  by (simp add: keeps_def increment_state analytics_inv_def views_counter.distinct_upsert)

lemma increment_counters:
  assumes "analytics_inv d"
  shows "counter_of an_views (snd (increment day kind target source n d)) k =
      counter_of an_views d k + (if k = (day, kind, target, source) then ic_views n else 0)"
    and "counter_of an_engaged (snd (increment day kind target source n d)) k =
      counter_of an_engaged d k + (if k = (day, kind, target, source) then ic_engaged n else 0)"
    and "counter_of an_reactions (snd (increment day kind target source n d)) k =
      counter_of an_reactions d k + (if k = (day, kind, target, source) then ic_reactions n else 0)"
    and "counter_of an_suggestions (snd (increment day kind target source n d)) k =
      counter_of an_suggestions d k + (if k = (day, kind, target, source) then ic_suggestions n else 0)"
    and "counter_of an_visitors (snd (increment day kind target source n d)) k =
      counter_of an_visitors d k + (if k = (day, kind, target, source) then ic_visitors n else 0)"
  using assms views_counter.count_upsert engaged_counter.count_upsert reactions_counter.count_upsert
    suggestions_counter.count_upsert visitors_counter.count_upsert
  by (simp_all add: analytics_inv_def increment_state counter_of_def views_counter.count_def engaged_counter.count_def
      reactions_counter.count_def suggestions_counter.count_def visitors_counter.count_def)

section \<open>Visits\<close>

lemma insert_receipt_run:
  "insert_receipt r d =
     (if receipt_key r \<in> receipt_key ` set (receipts d) then (Inr False, d)
      else (Inr True, d\<lparr>receipts := receipts d @ [r]\<rparr>))"
  by (simp add: insert_receipt_def run_simps)

lemma insert_receipt_keeps [keeps_intros]: "keeps analytics_inv (insert_receipt r)"
  by (auto simp: keeps_def insert_receipt_run analytics_inv_def)

lemma engage_receipt_keeps [keeps_intros]: "keeps analytics_inv (engage_receipt day scope dig)"
  unfolding engage_receipt_def Let_def
  by (intro keeps_intros keeps_modify) (simp add: analytics_inv_def map_update_where receipt_key_def)

lemma purge_receipts_keeps [keeps_intros]: "keeps analytics_inv (purge_receipts cfg day)"
  unfolding purge_receipts_def
  by (intro keeps_modify) (simp add: analytics_inv_def distinct_map_delete_where)

lemma record_visit_keeps: "keeps analytics_inv (record_visit env cfg v day)"
  unfolding record_visit_def Let_def by (intro keeps_intros)

lemma kind_value_no_colon: "58 \<notin> set (analytics_kind_value k)"
  by (cases k) (simp_all add: u_def)

lemma kind_value_inj: "analytics_kind_value k = analytics_kind_value k' \<Longrightarrow> k = k'"
  by (cases k; cases k') (simp_all add: u_def)

lemma scope_inj:
  "analytics_kind_value k @ 58 # t = analytics_kind_value k' @ 58 # t' \<longleftrightarrow> k = k' \<and> t = t'"
proof
  assume eq: "analytics_kind_value k @ 58 # t = analytics_kind_value k' @ 58 # t'"
  have "partition_at 58 (analytics_kind_value k @ 58 # t) = partition_at 58 (analytics_kind_value k' @ 58 # t')"
    by (simp only: eq)
  then have "analytics_kind_value k = analytics_kind_value k' \<and> t = t'"
    by (simp add: partition_at_found kind_value_no_colon)
  then show "k = k' \<and> t = t'" using kind_value_inj by blast
qed simp

definition receipts_for :: "db \<Rightarrow> date \<Rightarrow> analytics_kind \<Rightarrow> pystr \<Rightarrow> view_source \<Rightarrow> analytics_receipt list" where
  "receipts_for d day kind target source =
     filter (\<lambda>r. rc_date r = day \<and> rc_scope r = analytics_kind_value kind @ 58 # target \<and> rc_source r = source) (receipts d)"

text \<open>The counters of a day agree with its receipts.  The scope of the site audience is kept apart:
  its receipts count visitors.\<close>

definition exact_on :: "db \<Rightarrow> date \<Rightarrow> bool" where
  "exact_on d day \<longleftrightarrow>
     (\<forall>kind target source. (kind, target) \<noteq> (KIND_SITE, u ''audience'') \<longrightarrow>
        counter_of an_views d (day, kind, target, source) = int (length (receipts_for d day kind target source))
        \<and> counter_of an_engaged d (day, kind, target, source) =
            int (length (filter rc_engaged (receipts_for d day kind target source))))"

lemma counter_of_receipts [simp]: "counter_of val (d\<lparr>receipts := rs\<rparr>) k = counter_of val d k"
  by (simp add: counter_of_def)

lemma receipts_for_increment [simp]:
  "receipts_for (snd (increment day' kind' target' source' n d)) day kind target source = receipts_for d day kind target source"
  by (simp add: receipts_for_def increment_state)

lemma exact_on_purge:
  assumes "exact_on d D" and "day - ag_receipt_retention_days cfg \<le> D"
  shows "exact_on (snd (purge_receipts cfg day d)) D"
proof -
  have "receipts_for (snd (purge_receipts cfg day d)) D kind target source = receipts_for d D kind target source"
    for kind target source
    using assms(2) by (auto simp: receipts_for_def purge_receipts_def run_simps delete_where_def intro!: filter_cong)
  moreover have "counter_of val (snd (purge_receipts cfg day d)) k = counter_of val d k" for val k
    by (simp add: purge_receipts_def run_simps)
  ultimately show ?thesis using assms(1) by (simp add: exact_on_def)
qed

lemma exact_on_view:
  assumes ex: "exact_on d D" and inv: "analytics_inv d"
    and r: "rc_date r = day" "rc_scope r = analytics_kind_value kind @ 58 # target" "rc_source r = source" "\<not> rc_engaged r"
  shows "exact_on (snd (increment day kind target source (no_increments\<lparr>ic_views := 1\<rparr>) (d\<lparr>receipts := receipts d @ [r]\<rparr>))) D"
proof -
  let ?d = "d\<lparr>receipts := receipts d @ [r]\<rparr>" and ?n = "no_increments\<lparr>ic_views := 1\<rparr>"
  have "distinct (map daily_key (dailies ?d))" using inv by (simp add: analytics_inv_def)
  then have "counter_of an_views (snd (increment day kind target source ?n ?d)) k =
      counter_of an_views d k + (if k = (day, kind, target, source) then 1 else 0)"
    and "counter_of an_engaged (snd (increment day kind target source ?n ?d)) k = counter_of an_engaged d k" for k
    using views_counter.count_upsert engaged_counter.count_upsert
    by (simp_all add: increment_state counter_of_def views_counter.count_def engaged_counter.count_def no_increments_def)
  moreover have "receipts_for ?d D kind' target' source' = receipts_for d D kind' target' source' @
      (if (D, kind', target', source') = (day, kind, target, source) then [r] else [])" for kind' target' source'
    using r by (auto simp: receipts_for_def scope_inj)
  ultimately show ?thesis using ex r(4) by (auto simp: exact_on_def)
qed

lemma exact_on_audience:
  assumes ex: "exact_on d D" and r: "rc_scope r = u ''Site:audience''"
  shows "exact_on (d\<lparr>receipts := receipts d @ [r]\<rparr>) D"
proof -
  have scope: "u ''Site:audience'' = analytics_kind_value KIND_SITE @ 58 # u ''audience''" by (simp add: u_def)
  have "receipts_for (d\<lparr>receipts := receipts d @ [r]\<rparr>) D kind target source = receipts_for d D kind target source"
    if other: "(kind, target) \<noteq> (KIND_SITE, u ''audience'')" for kind target source
  proof -
    have "rc_scope r \<noteq> analytics_kind_value kind @ 58 # target"
      using other scope_inj[of KIND_SITE "u ''audience''" kind target] unfolding r scope by blast
    then show ?thesis by (simp add: receipts_for_def)
  qed
  then show ?thesis using ex by (simp add: exact_on_def)
qed

lemma exact_on_visitors:
  assumes "exact_on d D" and "analytics_inv d"
  shows "exact_on (snd (increment day kind target source (no_increments\<lparr>ic_visitors := 1\<rparr>) d)) D"
  using assms by (simp add: exact_on_def increment_counters no_increments_def)

lemma engaged_updates:
  assumes "\<And>r. hit r \<Longrightarrow> \<not> rc_engaged r" and "\<And>r. Q (r\<lparr>rc_engaged := True\<rparr>) = Q r"
  shows "length (filter rc_engaged (filter Q (update_where hit (\<lambda>r. r\<lparr>rc_engaged := True\<rparr>) rs))) =
    length (filter rc_engaged (filter Q rs)) + length (filter Q (filter hit rs))"
    and "length (filter Q (update_where hit (\<lambda>r. r\<lparr>rc_engaged := True\<rparr>) rs)) = length (filter Q rs)"
  using assms by (induction rs) (auto simp: update_where_def)

lemma exact_on_engage:
  assumes ex: "exact_on d D" and inv: "analytics_inv d"
    and hit: "hit = (\<lambda>r. receipt_key r = (day, analytics_kind_value kind @ 58 # target, dig) \<and> \<not> rc_engaged r)"
    and d1: "d1 = d\<lparr>receipts := update_where hit (\<lambda>r. r\<lparr>rc_engaged := True\<rparr>) (receipts d)\<rparr>"
  shows "exact_on (case first (filter hit (receipts d)) of None \<Rightarrow> d1
    | Some r \<Rightarrow> snd (increment day kind target (rc_source r) (no_increments\<lparr>ic_engaged := 1\<rparr>) d1)) D"
proof -
  let ?Q = "\<lambda>k t s r. rc_date r = D \<and> rc_scope r = analytics_kind_value k @ 58 # t \<and> rc_source r = s"
  have inv1: "analytics_inv d1"
    using inv by (simp add: analytics_inv_def d1 map_update_where receipt_key_def)
  have lens: "length (filter rc_engaged (receipts_for d1 D k t s)) =
      length (filter rc_engaged (receipts_for d D k t s)) + length (filter (?Q k t s) (filter hit (receipts d)))"
    "length (receipts_for d1 D k t s) = length (receipts_for d D k t s)" for k t s
    using engaged_updates[of hit "?Q k t s" "receipts d"] by (simp_all add: receipts_for_def d1 hit)
  show ?thesis
  proof (cases "filter hit (receipts d)")
    case Nil
    then show ?thesis using ex by (simp add: exact_on_def lens) (simp add: d1)
  next
    case (Cons r rs)
    have "distinct (map receipt_key (filter hit (receipts d)))"
      using inv by (simp add: analytics_inv_def distinct_map_filter)
    moreover have rs: "r' \<in> set (r # rs) \<Longrightarrow> hit r'" for r' using Cons by (metis filter_set mem_Collect_eq set_filter)
    ultimately have "rs = []" using Cons by (cases rs) (auto simp: hit)
    moreover have "hit r" using rs by simp
    ultimately show ?thesis
      using ex Cons
      by (auto simp: exact_on_def lens increment_counters[OF inv1] no_increments_def hit receipt_key_def scope_inj)
         (simp_all add: d1)
  qed
qed

definition view_receipt :: "env \<Rightarrow> analytics_config \<Rightarrow> analytics_visit \<Rightarrow> date \<Rightarrow> analytics_receipt" where
  "view_receipt env cfg v day = \<lparr>rc_date = day, rc_scope = visit_scope v,
     rc_digest = digest env cfg day (visit_scope v) (av_visit_token v), rc_source = av_source v, rc_engaged = False\<rparr>"

definition audience_receipt :: "env \<Rightarrow> analytics_config \<Rightarrow> analytics_visit \<Rightarrow> date \<Rightarrow> analytics_receipt" where
  "audience_receipt env cfg v day = \<lparr>rc_date = day, rc_scope = u ''Site:audience'',
     rc_digest = digest env cfg day (u ''Site:audience'') (av_visitor_token v), rc_source = av_source v, rc_engaged = False\<rparr>"

lemma record_view_run:
  assumes "av_event v = EVENT_VIEW" and "snd (purge_receipts cfg day d) = d"
  shows "snd (record_visit env cfg v day d) =
    (if receipt_key (view_receipt env cfg v day) \<in> receipt_key ` set (receipts d) then d
     else
       let d1 = snd (increment day (av_kind v) (av_target_id v) (av_source v) (no_increments\<lparr>ic_views := 1\<rparr>)
                  (d\<lparr>receipts := receipts d @ [view_receipt env cfg v day]\<rparr>))
       in if av_kind v = KIND_SITE \<and> receipt_key (audience_receipt env cfg v day) \<notin> receipt_key ` set (receipts d1)
          then snd (increment day KIND_SITE (u ''_audience'') (av_source v) (no_increments\<lparr>ic_visitors := 1\<rparr>)
                 (d1\<lparr>receipts := receipts d1 @ [audience_receipt env cfg v day]\<rparr>))
          else d1)"
proof -
  have p: "purge_receipts cfg day d = (Inr (), d)"
    using assms(2) by (simp add: purge_receipts_def run_simps)
  show ?thesis
    using assms(1)
    by (simp add: record_visit_def run_simps Let_def p insert_receipt_run increment_def view_receipt_def audience_receipt_def)
qed

lemma view_receipt_exact:
  assumes ex: "exact_on d D" and inv: "analytics_inv d" and view: "av_event v = EVENT_VIEW"
    and purged: "snd (purge_receipts cfg day d) = d"
  shows "exact_on (snd (record_visit env cfg v day d)) D"
proof -
  let ?r = "view_receipt env cfg v day" and ?a = "audience_receipt env cfg v day"
  let ?d1 = "snd (increment day (av_kind v) (av_target_id v) (av_source v) (no_increments\<lparr>ic_views := 1\<rparr>)
      (d\<lparr>receipts := receipts d @ [?r]\<rparr>))"
  let ?d2 = "?d1\<lparr>receipts := receipts ?d1 @ [?a]\<rparr>"
  show ?thesis
  proof (cases "receipt_key ?r \<in> receipt_key ` set (receipts d)")
    case True
    then show ?thesis using ex by (simp add: record_view_run[OF view purged])
  next
    case False
    then have "analytics_inv (d\<lparr>receipts := receipts d @ [?r]\<rparr>)" using inv by (simp add: analytics_inv_def)
    then have inv1: "analytics_inv ?d1" by (rule keepsD[OF increment_keeps])
    have ex1: "exact_on ?d1 D"
      by (rule exact_on_view[OF ex inv]) (simp_all add: visit_scope_def view_receipt_def)
    have ex2: "exact_on ?d2 D" by (rule exact_on_audience[OF ex1]) (simp add: audience_receipt_def)
    have "exact_on (snd (increment day KIND_SITE (u ''_audience'') (av_source v) (no_increments\<lparr>ic_visitors := 1\<rparr>) ?d2)) D"
      if "receipt_key ?a \<notin> receipt_key ` set (receipts ?d1)"
      by (rule exact_on_visitors[OF ex2]) (use inv1 that in \<open>simp add: analytics_inv_def\<close>)
    then show ?thesis
      unfolding record_view_run[OF view purged] Let_def if_not_P[OF False] using ex1
      by (simp only: split: if_split) blast
  qed
qed

definition engage_hit :: "env \<Rightarrow> analytics_config \<Rightarrow> analytics_visit \<Rightarrow> date \<Rightarrow> analytics_receipt \<Rightarrow> bool" where
  "engage_hit env cfg v day r \<longleftrightarrow>
     receipt_key r = (day, visit_scope v, digest env cfg day (visit_scope v) (av_visit_token v)) \<and> \<not> rc_engaged r"

lemma record_engage_run:
  assumes "av_event v \<noteq> EVENT_VIEW" and "snd (purge_receipts cfg day d) = d"
  shows "snd (record_visit env cfg v day d) =
    (let d1 = d\<lparr>receipts := update_where (engage_hit env cfg v day) (\<lambda>r. r\<lparr>rc_engaged := True\<rparr>) (receipts d)\<rparr> in
     case first (filter (engage_hit env cfg v day) (receipts d)) of None \<Rightarrow> d1
     | Some r \<Rightarrow> snd (increment day (av_kind v) (av_target_id v) (rc_source r) (no_increments\<lparr>ic_engaged := 1\<rparr>) d1))"
proof -
  have p: "purge_receipts cfg day d = (Inr (), d)"
    using assms(2) by (simp add: purge_receipts_def run_simps)
  show ?thesis using assms(1)
    by (simp add: record_visit_def run_simps Let_def p engage_receipt_def engage_hit_def[abs_def] split: option.split)
qed

lemma engage_exact:
  assumes ex: "exact_on d D" and inv: "analytics_inv d" and engaged: "av_event v \<noteq> EVENT_VIEW"
    and purged: "snd (purge_receipts cfg day d) = d"
  shows "exact_on (snd (record_visit env cfg v day d)) D"
  unfolding record_engage_run[OF engaged purged] Let_def
  by (rule exact_on_engage[OF ex inv _ refl]) (simp add: engage_hit_def[abs_def] visit_scope_def)

lemma purge_idem:
  "snd (purge_receipts cfg day (snd (purge_receipts cfg day d))) = snd (purge_receipts cfg day d)"
  by (simp add: purge_receipts_def run_simps delete_where_def)

lemma purge_nothing:
  "snd (purge_receipts cfg day e) = e \<longleftrightarrow>
     (\<forall>r \<in> set (receipts e). day - ag_receipt_retention_days cfg \<le> rc_date r)"
proof -
  let ?rs = "delete_where (\<lambda>r. rc_date r < day - ag_receipt_retention_days cfg) (receipts e)"
  have "e\<lparr>receipts := ?rs\<rparr> = e \<longleftrightarrow> ?rs = receipts e"
  proof
    assume "e\<lparr>receipts := ?rs\<rparr> = e"
    then have "receipts (e\<lparr>receipts := ?rs\<rparr>) = receipts e" by (rule arg_cong)
    then show "?rs = receipts e" by simp
  next
    assume eq: "?rs = receipts e"
    show "e\<lparr>receipts := ?rs\<rparr> = e" unfolding eq by simp
  qed
  also have "\<dots> \<longleftrightarrow> (\<forall>r \<in> set (receipts e). day - ag_receipt_retention_days cfg \<le> rc_date r)"
    unfolding delete_where_def filter_id_conv by (simp add: not_less)
  finally show ?thesis by (simp add: purge_receipts_def run_simps)
qed

lemma record_visit_purged:
  "record_visit env cfg v day d = record_visit env cfg v day (snd (purge_receipts cfg day d))"
  by (simp add: record_visit_def Let_def purge_receipts_def run_bind[of "modify _"] run_modify delete_where_def)

lemma record_visit_exact:
  assumes ex: "exact_on d D" and inv: "analytics_inv d" and kept: "day - ag_receipt_retention_days cfg \<le> D"
  shows "exact_on (snd (record_visit env cfg v day d)) D"
proof -
  let ?e = "snd (purge_receipts cfg day d)"
  have "exact_on ?e D" using ex kept by (rule exact_on_purge)
  moreover have "analytics_inv ?e" using inv by (rule keepsD[OF purge_receipts_keeps])
  ultimately have "exact_on (snd (record_visit env cfg v day ?e)) D"
    using view_receipt_exact[of ?e D v cfg day env] engage_exact[of ?e D v cfg day env]
    by (cases "av_event v = EVENT_VIEW") (simp_all add: purge_idem)
  then show ?thesis using record_visit_purged[of env cfg v day d] by simp
qed

text \<open>A history of visits: the clock never goes back, the visits and the environment are arbitrary.\<close>

inductive visit_step :: "analytics_config \<Rightarrow> db \<times> date \<Rightarrow> db \<times> date \<Rightarrow> bool" for cfg where
  "today \<le> day \<Longrightarrow> visit_step cfg (d, today) (snd (record_visit env cfg v day d), day)"

inductive_cases visit_stepE: "visit_step cfg (d, today) s"

definition visits_inv :: "analytics_config \<Rightarrow> db \<times> date \<Rightarrow> bool" where
  "visits_inv cfg s \<longleftrightarrow> (case s of (d, today) \<Rightarrow>
     analytics_inv d \<and> (\<forall>D. today - ag_receipt_retention_days cfg \<le> D \<longrightarrow> exact_on d D))"

definition visits_init :: "db \<times> date \<Rightarrow> bool" where
  "visits_init s \<longleftrightarrow> dailies (fst s) = [] \<and> receipts (fst s) = []"

interpretation visits: machine visits_init "visit_step cfg" "visits_inv cfg" for cfg
proof
  fix s assume "visits_init s"
  then show "visits_inv cfg s"
    by (auto simp: visits_init_def visits_inv_def analytics_inv_def exact_on_def counter_of_def receipts_for_def)
next
  fix s t assume "visit_step cfg s t" and "visits_inv cfg s"
  then show "visits_inv cfg t"
    by (cases s) (auto elim!: visit_stepE simp: visits_inv_def record_visit_exact keepsD[OF record_visit_keeps])
qed

lemma filter_le_length: "length (filter P xs) \<le> length xs"
  by (rule length_filter_le)

text \<open>After any history of visits, for every day whose receipts are still kept the views and the
  engaged views of every target and source are exactly the numbers of its receipts and of its engaged
  receipts; a repeated report therefore counts once, and engaged views never exceed views.\<close>

theorem visits_counted_exactly:
  assumes "(visit_step cfg)\<^sup>*\<^sup>* (empty_db, start) (d, today)"
    and "today - ag_receipt_retention_days cfg \<le> day"
    and "(kind, target) \<noteq> (KIND_SITE, u ''audience'')"
  shows "counter_of an_views d (day, kind, target, source) = int (length (receipts_for d day kind target source))
    \<and> counter_of an_engaged d (day, kind, target, source) =
        int (length (filter rc_engaged (receipts_for d day kind target source)))
    \<and> counter_of an_engaged d (day, kind, target, source) \<le> counter_of an_views d (day, kind, target, source)
    \<and> distinct (map receipt_key (receipts d))"
proof -
  have "visits_init (empty_db, start)" by (simp add: visits_init_def empty_db_def)
  then have "visits_inv cfg (d, today)" using assms(1) by (rule visits.reachable_inv)
  then show ?thesis using assms(2,3) by (auto simp: visits_inv_def exact_on_def analytics_inv_def)
qed

definition sample_config :: analytics_config where
  "sample_config = \<lparr>ag_secret = u ''k'', ag_receipt_retention_days = 2\<rparr>"

definition sample_visit :: analytics_visit where
  "sample_visit = \<lparr>av_kind = KIND_SITE, av_target_id = u ''about'', av_event = EVENT_VIEW, av_source = SRC_DIRECT,
     av_visitor_token = u ''p'', av_visit_token = u ''q''\<rparr>"

theorem visits_counted_exactly_witness:
  "counter_of an_views (snd (record_visit sample_env sample_config sample_visit 7 empty_db)) (7, KIND_SITE, u ''about'', SRC_DIRECT) = 1"
proof -
  let ?d = "snd (record_visit sample_env sample_config sample_visit 7 empty_db)"
  have "(visit_step sample_config)\<^sup>*\<^sup>* (empty_db, 0) (?d, 7)"
    by (intro r_into_rtranclp visit_step.intros) simp
  moreover have "7 - ag_receipt_retention_days sample_config \<le> 7" by (simp add: sample_config_def)
  moreover have "(KIND_SITE, u ''about'') \<noteq> (KIND_SITE, u ''audience'')" by (simp add: u_def)
  ultimately have "counter_of an_views ?d (7, KIND_SITE, u ''about'', SRC_DIRECT) =
      int (length (receipts_for ?d 7 KIND_SITE (u ''about'') SRC_DIRECT))"
    using visits_counted_exactly[of sample_config 0 ?d 7 7 KIND_SITE "u ''about''" SRC_DIRECT] by blast
  also have "length (receipts_for ?d 7 KIND_SITE (u ''about'') SRC_DIRECT) = 1" by code_simp
  finally show ?thesis by simp
qed

text \<open>Reporting the same visit twice on a day changes nothing the second time, whether it is a view
  or an engaged view.\<close>

theorem record_visit_idempotent:
  assumes "0 \<le> ag_receipt_retention_days cfg"
  shows "snd (record_visit env cfg v day (snd (record_visit env cfg v day d))) = snd (record_visit env cfg v day d)"
proof -
  let ?e = "snd (purge_receipts cfg day d)"
  let ?f = "snd (record_visit env cfg v day ?e)"
  have pe: "snd (purge_receipts cfg day ?e) = ?e" by (rule purge_idem)
  have kept: "snd (purge_receipts cfg day e) = e \<longleftrightarrow>
      (\<forall>r \<in> set (receipts e). day - ag_receipt_retention_days cfg \<le> rc_date r)" for e
    by (rule purge_nothing)
  have "snd (record_visit env cfg v day ?f) = ?f"
  proof (cases "av_event v = EVENT_VIEW")
    case True
    let ?r = "view_receipt env cfg v day" and ?a = "audience_receipt env cfg v day"
    have rs: "receipts (snd (increment x k t s n e)) = receipts e" for x k t s n and e :: db
      by (simp add: increment_state)
    have "set (receipts ?f) \<subseteq> set (receipts ?e) \<union> {?r, ?a}"
      by (auto simp: record_view_run[OF True pe] Let_def rs)
    then have pf: "snd (purge_receipts cfg day ?f) = ?f"
      using pe assms unfolding kept by (auto simp: view_receipt_def audience_receipt_def)
    have "receipt_key ?r \<in> receipt_key ` set (receipts ?f)"
      by (auto simp: record_view_run[OF True pe] Let_def rs)
    then show ?thesis by (simp add: record_view_run[OF True pf])
  next
    case False
    let ?hit = "engage_hit env cfg v day"
    have rf: "receipts ?f = update_where ?hit (\<lambda>r. r\<lparr>rc_engaged := True\<rparr>) (receipts ?e)"
      by (simp add: record_engage_run[OF False pe] Let_def increment_state split: option.split)
    then have "\<forall>r \<in> set (receipts ?f). day - ag_receipt_retention_days cfg \<le> rc_date r"
      using pe unfolding kept by (auto simp: in_update_where split: if_splits)
    then have pf: "snd (purge_receipts cfg day ?f) = ?f" unfolding kept .
    have "\<forall>r \<in> set (receipts ?f). \<not> ?hit r"
    proof
      fix r assume "r \<in> set (receipts ?f)"
      then obtain r0 where "r = (if ?hit r0 then r0\<lparr>rc_engaged := True\<rparr> else r0)"
        unfolding rf in_update_where by blast
      then show "\<not> ?hit r" by (cases "?hit r0") (simp_all add: engage_hit_def)
    qed
    then have "filter ?hit (receipts ?f) = []" "update_where ?hit (\<lambda>r. r\<lparr>rc_engaged := True\<rparr>) (receipts ?f) = receipts ?f"
      by (auto simp: filter_empty_conv update_where_def intro!: map_idI)
    then show ?thesis unfolding record_engage_run[OF False pf] by (simp add: Let_def)
  qed
  then show ?thesis using record_visit_purged[of env cfg v day d] by simp
qed

theorem record_visit_idempotent_witness:
  "snd (record_visit sample_env sample_config sample_visit 7 (snd (record_visit sample_env sample_config sample_visit 7 empty_db))) =
   snd (record_visit sample_env sample_config sample_visit 7 empty_db)"
  by (rule record_visit_idempotent) (simp add: sample_config_def)

section \<open>The report loses nothing\<close>

lemma sum_groups:
  fixes g :: "'a \<Rightarrow> int"
  shows "distinct ks \<Longrightarrow> sum_list (map (\<lambda>k. sum_list (map g (filter (\<lambda>r. key r = k) rows))) ks) =
    sum_list (map g (filter (\<lambda>r. key r \<in> set ks) rows))"
proof (induction ks)
  case (Cons k ks)
  have "sum_list (map g (filter (\<lambda>r. key r \<in> set (k # ks)) rows)) =
      sum_list (map g (filter (\<lambda>r. key r = k) rows)) + sum_list (map g (filter (\<lambda>r. key r \<in> set ks) rows))"
    using Cons.prems by (induction rows) auto
  then show ?case using Cons by simp
qed simp

lemma sum_list_sort_key: "sum_list (map h (sort_key f xs)) = sum_list (map (h :: 'a \<Rightarrow> int) xs)"
proof -
  have "sum_list (map h (insort_key f y ys)) = h y + sum_list (map h ys)" for y ys
    by (induction ys) auto
  then show ?thesis by (induction xs) simp_all
qed

text \<open>C30: a report has one line per day, target and source.  For each of the five numbers (views, engaged views,
  reactions, suggestions and visitors) a line holds the sum of the counters of its day, target and source, and the lines
  add up to the counters of the requested kind and dates that pass the filters, the counters kept from the old article
  table included: nothing is lost and nothing is counted twice.\<close>

theorem report_adds_up:
  "\<exists>lines. get_daily f d = (Inr lines, d)
     \<and> distinct (map (\<lambda>l. (ay_date l, ay_target_id l, ay_source l)) lines)
     \<and> sorted (map (\<lambda>l. (ay_date l, ay_target_id l, source_index (ay_source l))) lines)
     \<and> (\<forall>count \<in> {ic_views, ic_engaged, ic_reactions, ic_suggestions, ic_visitors}.
         sum_list (map (\<lambda>l. count (ay_counts l)) lines) =
         sum_list (map (\<lambda>r. count (cr_counts r)) (filter (report_keeps f d) (counter_rows f d)))
         \<and> (\<forall>l \<in> set lines. count (ay_counts l) =
              sum_list (map (\<lambda>r. count (cr_counts r)) (filter (\<lambda>r. row_key r = (ay_date l, ay_target_id l, ay_source l))
                (filter (report_keeps f d) (counter_rows f d))))))"
proof -
  let ?rows = "filter (report_keeps f d) (counter_rows f d)"
  let ?keys = "sort_key (\<lambda>(day, target, source). (day, target, source_index source)) (remdups (map row_key ?rows))"
  let ?line = "\<lambda>(day, target, source).
      case report_labels f d target of (title, group_id, group_title, section_id, section_title) \<Rightarrow>
        \<lparr>ay_date = day, ay_target_id = target, ay_title = title, ay_group_id = group_id,
         ay_group_title = group_title, ay_section_id = section_id, ay_section_title = section_title,
         ay_source = source, ay_counts = sum_counts (filter (\<lambda>r. row_key r = (day, target, source)) ?rows)\<rparr>"
  have key: "(ay_date (?line k), ay_target_id (?line k), ay_source (?line k)) = k" for k
    by (auto split: prod.splits)
  have okey: "(ay_date (?line k), ay_target_id (?line k), source_index (ay_source (?line k))) =
      (case k of (day, target, source) \<Rightarrow> (day, target, source_index source))" for k
    by (auto split: prod.splits)
  have counts: "ay_counts (?line k) = sum_counts (filter (\<lambda>r. row_key r = k) ?rows)" for k
    by (auto split: prod.splits)
  have line: "count (ay_counts (?line k)) = sum_list (map (\<lambda>r. count (cr_counts r)) (filter (\<lambda>r. row_key r = k) ?rows))"
    if "count \<in> {ic_views, ic_engaged, ic_reactions, ic_suggestions, ic_visitors}" for count k
    using that unfolding counts by (elim insertE emptyE) (simp_all add: sum_counts_def Let_def)
  have total: "sum_list (map (\<lambda>k. sum_list (map g (filter (\<lambda>r. row_key r = k) ?rows))) ?keys) = sum_list (map g ?rows)"
    for g :: "counter_row \<Rightarrow> int"
  proof -
    have "filter (\<lambda>r. row_key r \<in> set (remdups (map row_key ?rows))) ?rows = ?rows"
      by (intro filter_True) auto
    then show ?thesis using sum_groups[of "remdups (map row_key ?rows)" g row_key ?rows] by (simp add: sum_list_sort_key)
  qed
  have run: "get_daily f d = (Inr (map ?line ?keys), d)"
    by (simp add: get_daily_def run_simps Let_def)
  show ?thesis
  proof (intro exI conjI)
    show "distinct (map (\<lambda>l. (ay_date l, ay_target_id l, ay_source l)) (map ?line ?keys))"
      by (simp only: map_map comp_def key) simp
    show "sorted (map (\<lambda>l. (ay_date l, ay_target_id l, source_index (ay_source l))) (map ?line ?keys))"
      by (simp only: map_map comp_def okey) (rule sorted_sort_key)
    show "\<forall>count \<in> {ic_views, ic_engaged, ic_reactions, ic_suggestions, ic_visitors}.
         sum_list (map (\<lambda>l. count (ay_counts l)) (map ?line ?keys)) = sum_list (map (\<lambda>r. count (cr_counts r)) ?rows)
         \<and> (\<forall>l \<in> set (map ?line ?keys). count (ay_counts l) =
              sum_list (map (\<lambda>r. count (cr_counts r)) (filter (\<lambda>r. row_key r = (ay_date l, ay_target_id l, ay_source l)) ?rows)))"
    proof
      fix count :: "increments \<Rightarrow> int" assume c: "count \<in> {ic_views, ic_engaged, ic_reactions, ic_suggestions, ic_visitors}"
      have "sum_list (map (\<lambda>l. count (ay_counts l)) (map ?line ?keys)) = sum_list (map (\<lambda>r. count (cr_counts r)) ?rows)"
        by (simp only: map_map comp_def line[OF c] total)
      moreover have "\<forall>l \<in> set (map ?line ?keys). count (ay_counts l) =
          sum_list (map (\<lambda>r. count (cr_counts r)) (filter (\<lambda>r. row_key r = (ay_date l, ay_target_id l, ay_source l)) ?rows))"
      proof
        fix l assume "l \<in> set (map ?line ?keys)"
        then obtain k where l: "l = ?line k" unfolding set_map by blast
        show "count (ay_counts l) =
          sum_list (map (\<lambda>r. count (cr_counts r)) (filter (\<lambda>r. row_key r = (ay_date l, ay_target_id l, ay_source l)) ?rows))"
          unfolding l key by (rule line[OF c])
      qed
      ultimately show "sum_list (map (\<lambda>l. count (ay_counts l)) (map ?line ?keys)) = sum_list (map (\<lambda>r. count (cr_counts r)) ?rows)
         \<and> (\<forall>l \<in> set (map ?line ?keys). count (ay_counts l) =
              sum_list (map (\<lambda>r. count (cr_counts r)) (filter (\<lambda>r. row_key r = (ay_date l, ay_target_id l, ay_source l)) ?rows)))"
        by blast
    qed
  qed (rule run)
qed

text \<open>Two days of the page about the site, and a filter for the second one.\<close>

definition sample_dailies_db :: db where
  "sample_dailies_db = empty_db\<lparr>dailies := map (\<lambda>(day, reacted).
     \<lparr>an_date = day, an_kind = KIND_SITE, an_target_id = u ''about'', an_source = SRC_DIRECT, an_views = 3, an_engaged = 1,
      an_reactions = reacted, an_suggestions = 0, an_visitors = 2\<rparr>) [(1, 7), (2, 5), (3, 6)]\<rparr>"

definition sample_report_filters :: analytics_filters where
  "sample_report_filters = \<lparr>gf_kind = KIND_SITE, gf_date_from = 2, gf_date_to = 3, gf_language = EN, gf_source = None,
     gf_target_id = None, gf_group_id = None, gf_section_id = None, gf_search = Some (u ''BOUT'')\<rparr>"

theorem report_adds_up_witness:
  "\<exists>lines. get_daily sample_report_filters sample_dailies_db = (Inr lines, sample_dailies_db)
     \<and> sum_list (map (\<lambda>l. ic_reactions (ay_counts l)) lines) = 11 \<and> sum_list (map (\<lambda>l. ic_visitors (ay_counts l)) lines) = 4"
proof -
  let ?rows = "filter (report_keeps sample_report_filters sample_dailies_db) (counter_rows sample_report_filters sample_dailies_db)"
  have "sum_list (map (\<lambda>r. ic_reactions (cr_counts r)) ?rows) = 11" by code_simp
  moreover have "sum_list (map (\<lambda>r. ic_visitors (cr_counts r)) ?rows) = 4" by code_simp
  ultimately show ?thesis using report_adds_up[of sample_report_filters sample_dailies_db] by auto
qed

end
