(* ===== verification/Article_Analytics.thy ===== *)
theory Article_Analytics
  imports Article_Properties Analytics
begin

text \<open>
  Views, engaged views and reactions of articles: the statistics schemas of
  \<open>core/articles/schemas.py\<close>, \<open>ArticleAnalyticsDatabaseStorage\<close> of
  \<open>infra/postgresql/storages/articles.py\<close> and \<open>ArticleAnalyticsUseCase\<close> of
  \<open>core/articles/use_cases.py\<close>.
\<close>

section \<open>Schemas\<close>

record reaction_counts =
  rn_heart :: int
  rn_fire :: int
  rn_thinking :: int
  rn_neutral :: int
  rn_poop :: int

definition reaction_zero :: reaction_counts where
  "reaction_zero = \<lparr>rn_heart = 0, rn_fire = 0, rn_thinking = 0, rn_neutral = 0, rn_poop = 0\<rparr>"

definition get_or :: "'v \<Rightarrow> 'k \<Rightarrow> ('k, 'v) dict \<Rightarrow> 'v" where
  "get_or v k d = (case dict_get k d of None \<Rightarrow> v | Some x \<Rightarrow> x)"

definition from_counts :: "(reaction_kind, int) dict \<Rightarrow> reaction_counts" where
  "from_counts counts =
     \<lparr>rn_heart = get_or 0 HEART counts, rn_fire = get_or 0 FIRE counts, rn_thinking = get_or 0 THINKING counts,
      rn_neutral = get_or 0 NEUTRAL counts, rn_poop = get_or 0 POOP counts\<rparr>"

definition reaction_total :: "reaction_counts \<Rightarrow> int" where
  "reaction_total c = rn_heart c + rn_fire c + rn_thinking c + rn_neutral c + rn_poop c"

record public_stats =
  pb_article_id :: pystr
  pb_view_count :: int
  pb_reaction_counts :: reaction_counts

fun by_article_id :: "public_stats list \<Rightarrow> pystr \<Rightarrow> public_stats" where
  "by_article_id [] aid = \<lparr>pb_article_id = aid, pb_view_count = 0, pb_reaction_counts = reaction_zero\<rparr>"
| "by_article_id (x # xs) aid = (if pb_article_id x = aid then x else by_article_id xs aid)"

definition fill_missing :: "public_stats list \<Rightarrow> pystr list \<Rightarrow> public_stats list" where
  "fill_missing values ids = map (by_article_id values) ids"

record daily_stats =
  dy_article_id :: pystr
  dy_title :: pystr
  dy_slug :: pystr
  dy_date :: date
  dy_source_category :: view_source
  dy_view_count :: int
  dy_engaged_view_count :: int

record article_stats =
  sa_article_id :: pystr
  sa_title :: pystr
  sa_slug :: pystr
  sa_view_count :: int
  sa_engaged_view_count :: int
  sa_reaction_counts :: reaction_counts

definition stats_from_daily :: "daily_stats \<Rightarrow> reaction_counts \<Rightarrow> article_stats" where
  "stats_from_daily daily counts =
     \<lparr>sa_article_id = dy_article_id daily, sa_title = dy_title daily, sa_slug = dy_slug daily,
      sa_view_count = dy_view_count daily, sa_engaged_view_count = dy_engaged_view_count daily,
      sa_reaction_counts = counts\<rparr>"

definition with_daily_stats :: "daily_stats \<Rightarrow> article_stats \<Rightarrow> article_stats" where
  "with_daily_stats daily s =
     s\<lparr>sa_view_count := sa_view_count s + dy_view_count daily,
       sa_engaged_view_count := sa_engaged_view_count s + dy_engaged_view_count daily\<rparr>"

record analytics_totals =
  to_view_count :: int
  to_engaged_view_count :: int
  to_reaction_count :: int

record analytics_stats =
  st_date_from :: date
  st_date_to :: date
  st_totals :: analytics_totals
  st_articles :: "article_stats list"
  st_daily :: "daily_stats list"

definition stats_step ::
  "(pystr, reaction_counts) dict \<Rightarrow> (pystr, article_stats) dict \<Rightarrow> daily_stats \<Rightarrow> (pystr, article_stats) dict" where
  "stats_step counts acc item =
     dict_set (dy_article_id item)
       (case dict_get (dy_article_id item) acc of
          None \<Rightarrow> stats_from_daily item (get_or reaction_zero (dy_article_id item) counts)
        | Some existing \<Rightarrow> with_daily_stats item existing) acc"

definition build_article_stats ::
  "daily_stats list \<Rightarrow> (pystr, reaction_counts) dict \<Rightarrow> article_stats list" where
  "build_article_stats daily counts =
     sort_key (\<lambda>s. (- sa_view_count s, sa_title s)) (map snd (foldl (stats_step counts) [] daily))"

definition stats_from_daily_stats ::
  "date \<Rightarrow> date \<Rightarrow> daily_stats list \<Rightarrow> (pystr, reaction_counts) dict \<Rightarrow> analytics_stats" where
  "stats_from_daily_stats date_from date_to daily counts =
     (let as = build_article_stats daily counts in
      \<lparr>st_date_from = date_from, st_date_to = date_to,
       st_totals =
         \<lparr>to_view_count = sum_list (map dy_view_count daily),
          to_engaged_view_count = sum_list (map dy_engaged_view_count daily),
          to_reaction_count = sum_list (map (\<lambda>s. reaction_total (sa_reaction_counts s)) as)\<rparr>,
       st_articles = as, st_daily = daily\<rparr>)"

section \<open>Storage\<close>

record article_increments =
  in_views :: int
  in_engaged :: int

type_synonym article_daily_ident = "pystr \<times> date \<times> view_source"

definition article_daily_key :: "article_daily \<Rightarrow> article_daily_ident" where
  "article_daily_key r = (ad_article_id r, ad_date r, ad_source_category r)"

definition new_article_daily :: "article_daily_ident \<Rightarrow> article_increments \<Rightarrow> article_daily" where
  "new_article_daily k n = (case k of (aid, day, source) \<Rightarrow>
     \<lparr>ad_article_id = aid, ad_date = day, ad_source_category = source, ad_view_count = in_views n,
      ad_engaged_view_count = in_engaged n\<rparr>)"

definition bump_article_daily :: "article_increments \<Rightarrow> article_daily \<Rightarrow> article_daily" where
  "bump_article_daily n r =
     r\<lparr>ad_view_count := ad_view_count r + in_views n, ad_engaged_view_count := ad_engaged_view_count r + in_engaged n\<rparr>"

definition increment_daily_counter ::
  "env \<Rightarrow> pystr \<Rightarrow> view_source \<Rightarrow> date option \<Rightarrow> article_increments \<Rightarrow> unit dbm" where
  "increment_daily_counter env aid source viewed_on n =
     (let recorded_on = (case viewed_on of None \<Rightarrow> date_of (env_now env) | Some day \<Rightarrow> day) in
      bind (gets articles) (\<lambda>ms.
      check_constraint (aid \<in> am_id ` set ms) ArticleForeignKey (
      modify (\<lambda>d. d\<lparr>article_dailies :=
        upsert article_daily_key (new_article_daily (aid, recorded_on, source) n) (bump_article_daily n)
          (article_dailies d)\<rparr>))))"

definition increment_view :: "env \<Rightarrow> pystr \<Rightarrow> view_source \<Rightarrow> date option \<Rightarrow> unit dbm" where
  "increment_view env aid source viewed_on =
     increment_daily_counter env aid source viewed_on \<lparr>in_views = 1, in_engaged = 0\<rparr>"

definition increment_engaged_view :: "env \<Rightarrow> pystr \<Rightarrow> view_source \<Rightarrow> date option \<Rightarrow> unit dbm" where
  "increment_engaged_view env aid source viewed_on =
     increment_daily_counter env aid source viewed_on \<lparr>in_views = 0, in_engaged = 1\<rparr>"

text \<open>\<open>GROUP BY article_id\<close>: one entry per article that has rows.\<close>

definition get_view_counts :: "pystr list \<Rightarrow> (pystr, int) dict dbm" where
  "get_view_counts ids =
     gets (\<lambda>d. let rows = filter (\<lambda>r. ad_article_id r \<in> set ids) (article_dailies d) in
       map (\<lambda>aid. (aid, sum_list (map ad_view_count (filter (\<lambda>r. ad_article_id r = aid) rows))))
         (remdups (map ad_article_id rows)))"

definition get_reaction_counts :: "pystr list \<Rightarrow> (pystr, reaction_counts) dict dbm" where
  "get_reaction_counts ids =
     (if ids = [] then ret []
      else gets (\<lambda>d. let rows = filter (\<lambda>r. ar_article_id r \<in> set ids) (reactions d) in
        map (\<lambda>aid.
          (aid, from_counts (map (\<lambda>k. (k, int (length (filter (\<lambda>r. ar_article_id r = aid \<and> ar_reaction_kind r = k) rows))))
                  (remdups (map ar_reaction_kind (filter (\<lambda>r. ar_article_id r = aid) rows))))))
          (remdups (map ar_article_id rows))))"

definition storage_get_public_stats :: "pystr list \<Rightarrow> public_stats list dbm" where
  "storage_get_public_stats ids =
     (if ids = [] then ret []
      else
        bind (get_view_counts ids) (\<lambda>views.
        bind (get_reaction_counts ids) (\<lambda>counts.
        ret (map (\<lambda>aid. \<lparr>pb_article_id = aid, pb_view_count = get_or 0 aid views,
                         pb_reaction_counts = get_or reaction_zero aid counts\<rparr>) ids))))"

definition is_reaction_of :: "pystr \<Rightarrow> pystr \<Rightarrow> article_reaction \<Rightarrow> bool" where
  "is_reaction_of aid voter r \<longleftrightarrow> ar_article_id r = aid \<and> ar_voter_hash r = voter"

definition storage_set_reaction :: "env \<Rightarrow> pystr \<Rightarrow> pystr \<Rightarrow> reaction_kind option \<Rightarrow> unit dbm" where
  "storage_set_reaction env aid voter kind =
     bind (gets (\<lambda>d. first (filter (is_reaction_of aid voter) (reactions d)))) (\<lambda>model.
     bind (when_do ((model = None \<and> kind \<noteq> None) \<or> (\<exists>m. model = Some m \<and> Some (ar_reaction_kind m) \<noteq> kind))
       (increment (date_of (env_now env)) KIND_ARTICLES aid SRC_UNKNOWN (no_increments\<lparr>ic_reactions := 1\<rparr>))) (\<lambda>_.
     case kind of
       None \<Rightarrow>
         when_do (model \<noteq> None)
           (modify (\<lambda>d. d\<lparr>reactions := delete_where (is_reaction_of aid voter) (reactions d)\<rparr>))
     | Some k \<Rightarrow>
         (case model of
            None \<Rightarrow>
              bind (gets articles) (\<lambda>ms.
              check_constraint (aid \<in> am_id ` set ms) ArticleForeignKey (
              modify (\<lambda>d. d\<lparr>reactions := reactions d @
                [\<lparr>ar_article_id = aid, ar_voter_hash = voter, ar_reaction_kind = k\<rparr>]\<rparr>)))
          | Some m \<Rightarrow>
              modify (\<lambda>d. d\<lparr>reactions :=
                update_where (is_reaction_of aid voter) (\<lambda>r. r\<lparr>ar_reaction_kind := k\<rparr>) (reactions d)\<rparr>))))"

definition get_daily_stats :: "date \<Rightarrow> date \<Rightarrow> language \<Rightarrow> daily_stats list dbm" where
  "get_daily_stats date_from date_to lang =
     gets (\<lambda>d. sort_key (\<lambda>s. (dy_date s, dy_title s, source_index (dy_source_category s)))
       [\<lparr>dy_article_id = ad_article_id r, dy_title = title_column lang m, dy_slug = am_slug m, dy_date = ad_date r,
         dy_source_category = ad_source_category r, dy_view_count = ad_view_count r,
         dy_engaged_view_count = ad_engaged_view_count r\<rparr>.
        r \<leftarrow> article_dailies d, m \<leftarrow> articles d,
        am_id m = ad_article_id r \<and> date_from \<le> ad_date r \<and> ad_date r \<le> date_to])"

section \<open>Use cases\<close>

record article_analytics_config =
  aa_reaction_secret :: pystr
  aa_app_domain :: pystr

text \<open>
  \<open>urlparse(referrer).hostname\<close>: control characters and spaces are dropped from the left and tabs
  and line breaks everywhere, a scheme of valid characters is cut off, the network location runs from
  the double slash to the next delimiter, user information and port are removed.  A bracketed address
  is taken literally; an unbalanced bracket is the \<open>ValueError\<close> of the library.
\<close>

definition is_scheme_char :: "nat \<Rightarrow> bool" where
  "is_scheme_char c \<longleftrightarrow> (65 \<le> c \<and> c \<le> 90) \<or> (97 \<le> c \<and> c \<le> 122) \<or> (48 \<le> c \<and> c \<le> 57) \<or> c \<in> {43, 45, 46}"

definition is_ascii_alpha :: "nat \<Rightarrow> bool" where
  "is_ascii_alpha c \<longleftrightarrow> (65 \<le> c \<and> c \<le> 90) \<or> (97 \<le> c \<and> c \<le> 122)"

definition cut_scheme :: "pystr \<Rightarrow> pystr" where
  "cut_scheme url =
     (case partition_at 58 url of
        (scheme, Some rest) \<Rightarrow>
          if scheme \<noteq> [] \<and> is_ascii_alpha (hd scheme) \<and> (\<forall>c \<in> set scheme. is_scheme_char c) then rest else url
      | (_, None) \<Rightarrow> url)"

definition network_location :: "pystr \<Rightarrow> pystr" where
  "network_location url =
     (let cleaned = filter (\<lambda>c. c \<notin> {9, 10, 13}) (dropWhile (\<lambda>c. c \<le> 32) url); rest = cut_scheme cleaned in
      if starts_with [47, 47] rest then takeWhile (\<lambda>c. c \<notin> {47, 63, 35}) (drop 2 rest) else [])"

definition after_last :: "nat \<Rightarrow> pystr \<Rightarrow> pystr" where
  "after_last sep s = rev (takeWhile (\<lambda>c. c \<noteq> sep) (rev s))"

definition url_hostname :: "pystr \<Rightarrow> error + pystr option" where
  "url_hostname url =
     (let netloc = network_location url in
      if (91 \<in> set netloc) \<noteq> (93 \<in> set netloc) then Inl ValueError
      else
        let host_info = after_last 64 netloc;
            host = (case partition_at 91 host_info of
                      (_, Some bracketed) \<Rightarrow> fst (partition_at 93 bracketed)
                    | (_, None) \<Rightarrow> fst (partition_at 58 host_info))
        in Inr (if host = [] then None else Some (lower host)))"

definition is_search_hostname :: "pystr \<Rightarrow> bool" where
  "is_search_hostname host \<longleftrightarrow>
     (\<exists>x \<in> set [u ''google.'', u ''yandex.'', u ''bing.'', u ''duckduckgo.'', u ''search.yahoo.'']. contains x host)"

definition is_social_hostname :: "pystr \<Rightarrow> bool" where
  "is_social_hostname host \<longleftrightarrow>
     (\<exists>x \<in> set [u ''facebook.'', u ''linkedin.'', u ''reddit.'', u ''t.me'', u ''telegram.'', u ''twitter.'', u ''x.com'', u ''vk.''].
        contains x host)"

definition classify_source_category :: "pystr option \<Rightarrow> article_analytics_config \<Rightarrow> error + view_source" where
  "classify_source_category referrer cfg =
     (case referrer of
        None \<Rightarrow> Inr SRC_DIRECT
      | Some ref \<Rightarrow>
          if ref = [] then Inr SRC_DIRECT
          else
            (case url_hostname ref of
               Inl e \<Rightarrow> Inl e
             | Inr None \<Rightarrow> Inr SRC_UNKNOWN
             | Inr (Some hostname) \<Rightarrow>
                 let host = lower hostname; domain = lower (aa_app_domain cfg) in
                 if host = domain \<or> ends_with (46 # domain) host then Inr SRC_INTERNAL
                 else if is_search_hostname host then Inr SRC_SEARCH
                 else if is_social_hostname host then Inr SRC_SOCIAL
                 else Inr SRC_EXTERNAL))"

definition get_published_article :: "pystr \<Rightarrow> article dbm" where
  "get_published_article slug =
     bind (get_article_by_slug slug) (\<lambda>a.
     if \<not> is_available a then raise ArticleNotFoundError else ret a)"

definition track_view :: "env \<Rightarrow> article \<Rightarrow> view_source \<Rightarrow> unit dbm" where
  "track_view env a source =
     (if \<not> is_available a then ret () else increment_view env (ac_id a) source None)"

text \<open>The error reporter only logs, so an exception ends as a normal return.\<close>

definition track_public_view :: "env \<Rightarrow> article \<Rightarrow> pystr option \<Rightarrow> article_analytics_config \<Rightarrow> unit dbm" where
  "track_public_view env a referrer cfg =
     bind (attempt (bind (lift (classify_source_category referrer cfg)) (track_view env a))) (\<lambda>_. ret ())"

definition track_engaged_view :: "env \<Rightarrow> pystr \<Rightarrow> view_source \<Rightarrow> unit dbm" where
  "track_engaged_view env slug source =
     bind (get_published_article slug) (\<lambda>a. increment_engaged_view env (ac_id a) source None)"

definition get_public_stats :: "pystr list \<Rightarrow> public_stats list dbm" where
  "get_public_stats ids =
     (let unique_ids = fromkeys ids in
      bind (storage_get_public_stats unique_ids) (\<lambda>stats. ret (fill_missing stats unique_ids)))"

definition article_scoped_voter_hash :: "env \<Rightarrow> pystr \<Rightarrow> pystr \<Rightarrow> article_analytics_config \<Rightarrow> pystr" where
  "article_scoped_voter_hash env aid token cfg = env_hmac env (aa_reaction_secret cfg) (aid @ [58] @ token)"

definition set_reaction ::
  "env \<Rightarrow> pystr \<Rightarrow> pystr \<Rightarrow> reaction_kind option \<Rightarrow> article_analytics_config \<Rightarrow> unit dbm" where
  "set_reaction env slug token kind cfg =
     bind (get_published_article slug) (\<lambda>a.
     storage_set_reaction env (ac_id a) (article_scoped_voter_hash env (ac_id a) token cfg) kind)"

definition get_stats :: "date \<Rightarrow> date \<Rightarrow> language \<Rightarrow> analytics_stats dbm" where
  "get_stats date_from date_to lang =
     bind (get_daily_stats date_from date_to lang) (\<lambda>daily.
     bind (get_reaction_counts (fromkeys (map dy_article_id daily))) (\<lambda>counts.
     ret (stats_from_daily_stats date_from date_to daily counts)))"

section \<open>Statistics add up\<close>

definition article_summary :: "daily_stats list \<Rightarrow> (pystr, reaction_counts) dict \<Rightarrow> pystr \<Rightarrow> article_stats" where
  "article_summary daily counts aid =
     (let mine = filter (\<lambda>i. dy_article_id i = aid) daily in
      \<lparr>sa_article_id = aid, sa_title = dy_title (hd mine), sa_slug = dy_slug (hd mine),
       sa_view_count = sum_list (map dy_view_count mine),
       sa_engaged_view_count = sum_list (map dy_engaged_view_count mine),
       sa_reaction_counts = get_or reaction_zero aid counts\<rparr>)"

lemma grouped_stats:
  "mine \<noteq> [] \<Longrightarrow>
   grouped (\<lambda>i. stats_from_daily i (get_or reaction_zero (dy_article_id i) counts)) with_daily_stats mine =
   \<lparr>sa_article_id = dy_article_id (hd mine), sa_title = dy_title (hd mine), sa_slug = dy_slug (hd mine),
    sa_view_count = sum_list (map dy_view_count mine), sa_engaged_view_count = sum_list (map dy_engaged_view_count mine),
    sa_reaction_counts = get_or reaction_zero (dy_article_id (hd mine)) counts\<rparr>"
  by (induction mine rule: rev_induct) (auto simp: grouped_snoc hd_append stats_from_daily_def with_daily_stats_def)

lemma stats_fold:
  "foldl (stats_step counts) [] daily =
     map (\<lambda>k. (k, article_summary daily counts k)) (fromkeys (map dy_article_id daily))"
proof -
  have "foldl (stats_step counts) [] daily = map (\<lambda>k. (k, grouped
      (\<lambda>i. stats_from_daily i (get_or reaction_zero (dy_article_id i) counts)) with_daily_stats
      (filter (\<lambda>i. dy_article_id i = k) daily))) (fromkeys (map dy_article_id daily))"
    by (rule group_fold) (simp add: stats_step_def)
  also have "\<dots> = map (\<lambda>k. (k, article_summary daily counts k)) (fromkeys (map dy_article_id daily))"
  proof (rule map_cong[OF refl])
    fix k assume "k \<in> set (fromkeys (map dy_article_id daily))"
    then have ne: "filter (\<lambda>i. dy_article_id i = k) daily \<noteq> []" by (auto simp: filter_empty_conv)
    then have "dy_article_id (hd (filter (\<lambda>i. dy_article_id i = k) daily)) = k" using hd_in_set[OF ne] by simp
    with grouped_stats[OF ne, of counts]
    show "(k, grouped (\<lambda>i. stats_from_daily i (get_or reaction_zero (dy_article_id i) counts)) with_daily_stats
        (filter (\<lambda>i. dy_article_id i = k) daily)) = (k, article_summary daily counts k)"
      by (simp add: article_summary_def Let_def)
  qed
  finally show ?thesis .
qed

text \<open>C31: the statistics of a period hold one entry per article with views, each with the sums of its
  days and its reactions, ordered by views and then by title; the totals of views, engaged views and reactions of all
  kinds are the sums of the entries.\<close>

theorem article_stats_add_up:
  "build_article_stats daily counts =
     sort_key (\<lambda>s. (- sa_view_count s, sa_title s)) (map (article_summary daily counts) (fromkeys (map dy_article_id daily)))
   \<and> to_view_count (st_totals (stats_from_daily_stats a b daily counts)) =
       sum_list (map sa_view_count (build_article_stats daily counts))
   \<and> to_engaged_view_count (st_totals (stats_from_daily_stats a b daily counts)) =
       sum_list (map sa_engaged_view_count (build_article_stats daily counts))
   \<and> to_reaction_count (st_totals (stats_from_daily_stats a b daily counts)) =
       sum_list (map (\<lambda>s. let c = sa_reaction_counts s in rn_heart c + rn_fire c + rn_thinking c + rn_neutral c + rn_poop c)
         (build_article_stats daily counts))"
proof -
  have build: "build_article_stats daily counts =
      sort_key (\<lambda>s. (- sa_view_count s, sa_title s)) (map (article_summary daily counts) (fromkeys (map dy_article_id daily)))"
    by (simp add: build_article_stats_def stats_fold comp_def)
  have "filter (\<lambda>r. dy_article_id r \<in> set (fromkeys (map dy_article_id daily))) daily = daily"
    by (intro filter_True) auto
  then have total: "sum_list (map (\<lambda>k. sum_list (map g (filter (\<lambda>r. dy_article_id r = k) daily))) (fromkeys (map dy_article_id daily)))
      = sum_list (map g daily)" for g :: "daily_stats \<Rightarrow> int"
    using sum_groups[of "fromkeys (map dy_article_id daily)" g dy_article_id daily] by simp
  show ?thesis
    by (simp add: build sum_list_sort_key comp_def article_summary_def stats_from_daily_stats_def Let_def total reaction_total_def)
qed

section \<open>Invariant of the counters and reactions\<close>

definition reaction_key :: "article_reaction \<Rightarrow> pystr \<times> pystr" where
  "reaction_key r = (ar_article_id r, ar_voter_hash r)"

definition article_counters_inv :: "db \<Rightarrow> bool" where
  "article_counters_inv d \<longleftrightarrow>
     distinct (map article_daily_key (article_dailies d)) \<and> distinct (map reaction_key (reactions d))"

interpretation article_views: counter_table article_daily_key new_article_daily bump_article_daily ad_view_count in_views
  by unfold_locales (auto simp: article_daily_key_def new_article_daily_def bump_article_daily_def)

interpretation article_engaged: counter_table article_daily_key new_article_daily bump_article_daily
    ad_engaged_view_count in_engaged
  by unfold_locales (auto simp: article_daily_key_def new_article_daily_def bump_article_daily_def)

lemma content_inv_counters:
  assumes "content_inv d" and "ad_article_id ` set ads \<subseteq> am_id ` set (articles d)"
    and "ar_article_id ` set rs \<subseteq> am_id ` set (articles d)"
  shows "content_inv (d\<lparr>article_dailies := ads, reactions := rs\<rparr>)"
  using assms
  by (simp add: content_inv_def files_inv_def articles_inv_defs file_used_def used_file_ids_def file_purposes_def
      article_usage_ids_def)

lemma content_inv_dailies: "content_inv d \<Longrightarrow> content_inv (d\<lparr>dailies := x\<rparr>)"
  by (simp add: content_inv_def files_inv_def articles_inv_defs file_used_def used_file_ids_def file_purposes_def
      article_usage_ids_def)

lemma counter_refs:
  assumes "content_inv d"
  shows "ad_article_id ` set (article_dailies d) \<subseteq> am_id ` set (articles d)"
    and "ar_article_id ` set (reactions d) \<subseteq> am_id ` set (articles d)"
  using assms by (simp_all add: content_inv_def articles_inv_def article_refs_inv_def)

lemma ids_upsert:
  "ad_article_id ` set (upsert article_daily_key (new_article_daily (aid, day, source) n) (bump_article_daily n) rows) \<subseteq>
   insert aid (ad_article_id ` set rows)"
  by (auto simp: upsert_def in_update_where new_article_daily_def bump_article_daily_def split: if_splits)

lemma increment_daily_counter_keeps:
  "keeps (\<lambda>d. content_inv d \<and> article_counters_inv d) (increment_daily_counter env aid source day n)"
proof (rule keepsI)
  fix d assume inv: "content_inv d \<and> article_counters_inv d"
  let ?day = "case day of None \<Rightarrow> date_of (env_now env) | Some x \<Rightarrow> x"
  let ?ads = "upsert article_daily_key (new_article_daily (aid, ?day, source) n) (bump_article_daily n) (article_dailies d)"
  show "content_inv (snd (increment_daily_counter env aid source day n d))
      \<and> article_counters_inv (snd (increment_daily_counter env aid source day n d))"
  proof (cases "aid \<in> am_id ` set (articles d)")
    case False
    then show ?thesis using inv by (simp add: increment_daily_counter_def run_simps Let_def)
  next
    case True
    then have "ad_article_id ` set ?ads \<subseteq> am_id ` set (articles d)"
      using ids_upsert[of aid ?day source n "article_dailies d"] counter_refs(1)[of d] inv by blast
    then have "content_inv (d\<lparr>article_dailies := ?ads, reactions := reactions d\<rparr>)"
      using inv counter_refs(2)[of d] by (intro content_inv_counters) auto
    moreover have "distinct (map article_daily_key ?ads)"
      using inv by (auto simp: article_counters_inv_def intro!: article_views.distinct_upsert)
    ultimately show ?thesis
      using inv True by (simp add: increment_daily_counter_def run_simps Let_def article_counters_inv_def)
  qed
qed

section \<open>Reactions\<close>

definition reaction_of :: "db \<Rightarrow> pystr \<Rightarrow> pystr \<Rightarrow> reaction_kind option" where
  "reaction_of d aid voter = map_option ar_reaction_kind (first (filter (is_reaction_of aid voter) (reactions d)))"

lemma own_reactions:
  assumes "distinct (map reaction_key rs)"
  shows "filter (is_reaction_of aid voter) rs = [] \<or> (\<exists>r. filter (is_reaction_of aid voter) rs = [r])"
proof -
  let ?own = "filter (is_reaction_of aid voter) rs"
  have "distinct (map reaction_key ?own)" using assms by (rule distinct_map_filter)
  moreover have "reaction_key r = (aid, voter)" if "r \<in> set ?own" for r
    using that by (simp add: is_reaction_of_def reaction_key_def)
  ultimately show ?thesis
    by (cases ?own; cases "tl ?own") (auto simp: list.set_intros)
qed

text \<open>The table after a vote: the voter's own row replaced, every other row in place.\<close>

lemma storage_set_reaction_run:
  assumes "distinct (map reaction_key (reactions d))" and "aid \<in> am_id ` set (articles d)"
  shows "\<exists>rs. storage_set_reaction env aid voter kind d =
      (Inr (), (if reaction_of d aid voter = kind then d
         else snd (increment (date_of (env_now env)) KIND_ARTICLES aid SRC_UNKNOWN (no_increments\<lparr>ic_reactions := 1\<rparr>) d))\<lparr>reactions := rs\<rparr>)
    \<and> filter (is_reaction_of aid voter) rs =
        (case kind of None \<Rightarrow> [] | Some k \<Rightarrow> [\<lparr>ar_article_id = aid, ar_voter_hash = voter, ar_reaction_kind = k\<rparr>])
    \<and> filter (\<lambda>r. \<not> is_reaction_of aid voter r) rs = filter (\<lambda>r. \<not> is_reaction_of aid voter r) (reactions d)
    \<and> set (map reaction_key rs) \<subseteq> insert (aid, voter) (set (map reaction_key (reactions d)))
    \<and> distinct (map reaction_key rs)"
proof -
  let ?own = "is_reaction_of aid voter"
  let ?rs = "reactions d"
  let ?inc = "d\<lparr>dailies := upsert daily_key (new_daily (date_of (env_now env), KIND_ARTICLES, aid, SRC_UNKNOWN)
      (no_increments\<lparr>ic_reactions := 1\<rparr>)) (bump_daily (no_increments\<lparr>ic_reactions := 1\<rparr>)) (dailies d)\<rparr>"
  have keys: "reaction_key r = (aid, voter) \<longleftrightarrow> ?own r" for r by (auto simp: reaction_key_def is_reaction_of_def)
  consider (none) "filter ?own ?rs = []" | (one) r where "filter ?own ?rs = [r]"
    using own_reactions[OF assms(1)] by blast
  then show ?thesis
  proof cases
    case none
    then have free: "\<forall>r \<in> set ?rs. \<not> ?own r" by (simp add: filter_empty_conv)
    then have fresh: "(aid, voter) \<notin> reaction_key ` set ?rs" using keys by (metis imageE)
    have rest: "filter (\<lambda>r. \<not> ?own r) ?rs = ?rs" using free by (intro filter_True) blast
    show ?thesis
    proof (cases kind)
      case None
      have "reaction_of d aid voter = kind" using none None by (simp add: reaction_of_def)
      moreover have "storage_set_reaction env aid voter kind d = (Inr (), d)"
        using none None by (simp add: storage_set_reaction_def run_simps)
      ultimately show ?thesis using none rest assms(1) None by (intro exI[of _ ?rs]) auto
    next
      case (Some k)
      let ?new = "\<lparr>ar_article_id = aid, ar_voter_hash = voter, ar_reaction_kind = k\<rparr>"
      have new: "?own ?new" "reaction_key ?new = (aid, voter)" by (simp_all add: is_reaction_of_def reaction_key_def)
      have "reaction_of d aid voter \<noteq> kind" using none Some by (simp add: reaction_of_def)
      moreover have "storage_set_reaction env aid voter kind d = (Inr (), ?inc\<lparr>reactions := ?rs @ [?new]\<rparr>)"
        using none Some assms(2) by (simp add: storage_set_reaction_def run_simps increment_def)
      moreover have "snd (increment (date_of (env_now env)) KIND_ARTICLES aid SRC_UNKNOWN (no_increments\<lparr>ic_reactions := 1\<rparr>) d) = ?inc"
        by (simp add: increment_def run_simps)
      ultimately show ?thesis using none rest assms(1) Some new fresh by (intro exI[of _ "?rs @ [?new]"]) auto
    qed
  next
    case (one r)
    then have own: "?own r" "r \<in> set ?rs" by (metis (mono_tags) filter_set list.set_intros(1) mem_Collect_eq set_filter)+
    show ?thesis
    proof (cases kind)
      case None
      have "filter ?own (delete_where ?own ?rs) = []" "filter (\<lambda>r. \<not> ?own r) (delete_where ?own ?rs) = filter (\<lambda>r. \<not> ?own r) ?rs"
        "distinct (map reaction_key (delete_where ?own ?rs))" "set (map reaction_key (delete_where ?own ?rs)) \<subseteq> set (map reaction_key ?rs)"
        using assms(1) by (auto simp: delete_where_def distinct_map_filter)
      then show ?thesis using None one
        by (intro exI[of _ "delete_where ?own ?rs"])
           (auto simp: storage_set_reaction_def run_simps reaction_of_def increment_def)
    next
      case (Some k)
      let ?upd = "update_where ?own (\<lambda>r. r\<lparr>ar_reaction_kind := k\<rparr>) ?rs"
      have ownk: "?own (r\<lparr>ar_reaction_kind := k\<rparr>) = ?own r" for r by (simp add: is_reaction_of_def)
      have split: "filter ?own (update_where ?own (\<lambda>r. r\<lparr>ar_reaction_kind := k\<rparr>) rows) =
            map (\<lambda>r. r\<lparr>ar_reaction_kind := k\<rparr>) (filter ?own rows)"
          "filter (\<lambda>r. \<not> ?own r) (update_where ?own (\<lambda>r. r\<lparr>ar_reaction_kind := k\<rparr>) rows) = filter (\<lambda>r. \<not> ?own r) rows" for rows
        by (induction rows) (auto simp: update_where_def ownk)
      have "filter ?own ?upd = [\<lparr>ar_article_id = aid, ar_voter_hash = voter, ar_reaction_kind = k\<rparr>]"
        using one own unfolding split(1) by (cases r) (simp add: is_reaction_of_def)
      moreover have "filter (\<lambda>r. \<not> ?own r) ?upd = filter (\<lambda>r. \<not> ?own r) ?rs" by (rule split(2))
      moreover have "map reaction_key ?upd = map reaction_key ?rs"
        by (rule map_update_where) (simp add: reaction_key_def)
      ultimately show ?thesis using Some one assms(1)
        by (intro exI[of _ ?upd])
           (auto simp: storage_set_reaction_def run_simps reaction_of_def increment_def simp del: set_map)
    qed
  qed
qed

text \<open>C28: setting a reaction on a published article leaves the voter with exactly that reaction, or with
  none when it is withdrawn, does not touch the reactions of anybody else, keeps one reaction per voter
  and article, and adds one to the reaction counter of the day exactly when the reaction changed.\<close>

theorem set_reaction_exact:
  assumes inv: "content_inv d" "article_counters_inv d" "analytics_inv d"
    and m: "row_by am_slug slug (articles d) = Some m" "am_publish_status m = PUBLISHED"
    and voter: "voter = article_scoped_voter_hash env (am_id m) token cfg"
  shows "\<exists>d'. set_reaction env slug token kind cfg d = (Inr (), d')
    \<and> reaction_of d' (am_id m) voter = kind
    \<and> filter (\<lambda>r. \<not> is_reaction_of (am_id m) voter r) (reactions d') =
        filter (\<lambda>r. \<not> is_reaction_of (am_id m) voter r) (reactions d)
    \<and> distinct (map reaction_key (reactions d'))
    \<and> counter_of an_reactions d' (date_of (env_now env), KIND_ARTICLES, am_id m, SRC_UNKNOWN) =
        counter_of an_reactions d (date_of (env_now env), KIND_ARTICLES, am_id m, SRC_UNKNOWN)
        + (if reaction_of d (am_id m) voter = kind then 0 else 1)"
proof -
  have mem: "m \<in> set (articles d)" using m by (auto dest: row_by_SomeD)
  obtain a where a: "to_domain_schema d True True m = Inr a" using to_domain_total[OF inv(1) mem] by blast
  have pub: "get_published_article slug d = (Inr a, d)"
    using m to_domain_fields(3)[OF a]
    by (simp add: get_published_article_def get_article_by_slug_def run_simps a is_available_def)
  have "distinct (map reaction_key (reactions d))" using inv by (simp add: article_counters_inv_def)
  from storage_set_reaction_run[OF this imageI[OF mem], of env voter kind]
  obtain rs where run: "storage_set_reaction env (am_id m) voter kind d =
      (Inr (), (if reaction_of d (am_id m) voter = kind then d
         else snd (increment (date_of (env_now env)) KIND_ARTICLES (am_id m) SRC_UNKNOWN (no_increments\<lparr>ic_reactions := 1\<rparr>) d))\<lparr>reactions := rs\<rparr>)"
    and own: "filter (is_reaction_of (am_id m) voter) rs =
        (case kind of None \<Rightarrow> [] | Some k \<Rightarrow> [\<lparr>ar_article_id = am_id m, ar_voter_hash = voter, ar_reaction_kind = k\<rparr>])"
    and others: "filter (\<lambda>r. \<not> is_reaction_of (am_id m) voter r) rs = filter (\<lambda>r. \<not> is_reaction_of (am_id m) voter r) (reactions d)"
    and dist: "distinct (map reaction_key rs)"
    by blast
  have cnt: "counter_of an_reactions (e\<lparr>reactions := rs\<rparr>) k = counter_of an_reactions e k" for e k
    by (simp add: counter_of_def)
  have ac: "ac_id a = am_id m" by (rule to_domain_fields(1)[OF a])
  show ?thesis
    using own others dist
    by (simp add: set_reaction_def run_bind pub ac voter[symmetric] run reaction_of_def[of "_\<lparr>reactions := rs\<rparr>"] cnt
        increment_counters[OF inv(3)] no_increments_def split: option.split)
qed

theorem set_reaction_exact_witness:
  "let voter = article_scoped_voter_hash sample_env (u ''a1'') (u ''tok'') \<lparr>aa_reaction_secret = u ''k'', aa_app_domain = u ''x''\<rparr> in
   \<exists>d'. set_reaction sample_env (u ''a'') (u ''tok'') (Some FIRE) \<lparr>aa_reaction_secret = u ''k'', aa_app_domain = u ''x''\<rparr> sample_db
      = (Inr (), d')
    \<and> reaction_of d' (u ''a1'') voter = Some FIRE"
proof -
  let ?cfg = "\<lparr>aa_reaction_secret = u ''k'', aa_app_domain = u ''x''\<rparr>"
  have inv: "content_inv sample_db" "article_counters_inv sample_db" "analytics_inv sample_db"
    by (simp_all add: sample_db_inv, simp_all add: article_counters_inv_def analytics_inv_def sample_db_def empty_db_def)
  have m: "row_by am_slug (u ''a'') (articles sample_db) = Some sample_article" "am_publish_status sample_article = PUBLISHED"
    by (simp_all add: sample_db_def row_by_def sample_article_def)
  have i: "am_id sample_article = u ''a1''" by (simp add: sample_article_def)
  show ?thesis
    using set_reaction_exact[OF inv m refl, of sample_env "u ''tok''" "Some FIRE" ?cfg] unfolding Let_def i by blast
qed

lemma set_reaction_keeps:
  "keeps (\<lambda>d. content_inv d \<and> article_counters_inv d) (set_reaction env slug token kind cfg)"
proof (rule keepsI)
  fix d assume inv: "content_inv d \<and> article_counters_inv d"
  show "content_inv (snd (set_reaction env slug token kind cfg d)) \<and> article_counters_inv (snd (set_reaction env slug token kind cfg d))"
  proof (cases "get_published_article slug d")
    case (Pair r d0)
    have d0: "d0 = d" using Pair
      by (auto simp: get_published_article_def get_article_by_slug_def run_simps split: option.splits sum.splits if_splits)
    show ?thesis
    proof (cases r)
      case (Inl e)
      then show ?thesis using inv Pair d0 by (simp add: set_reaction_def run_simps)
    next
      case (Inr a)
      have mem: "ac_id a \<in> am_id ` set (articles d)"
        using Pair Inr
        by (auto simp: get_published_article_def get_article_by_slug_def run_simps to_domain_fields
            split: option.splits sum.splits if_splits dest!: row_by_SomeD)
      have dist: "distinct (map reaction_key (reactions d))" using inv by (simp add: article_counters_inv_def)
      let ?voter = "article_scoped_voter_hash env (ac_id a) token cfg"
      let ?e = "\<lambda>d. if reaction_of d (ac_id a) ?voter = kind then d
        else snd (increment (date_of (env_now env)) KIND_ARTICLES (ac_id a) SRC_UNKNOWN (no_increments\<lparr>ic_reactions := 1\<rparr>) d)"
      from storage_set_reaction_run[OF dist mem, of env ?voter kind]
      obtain rs where run: "storage_set_reaction env (ac_id a) ?voter kind d = (Inr (), (?e d)\<lparr>reactions := rs\<rparr>)"
        and keys: "set (map reaction_key rs) \<subseteq> insert (ac_id a, ?voter) (set (map reaction_key (reactions d)))"
        and rs: "distinct (map reaction_key rs)"
        by blast
      define e where "e = ?e d"
      have e: "e = d \<or> (\<exists>x. e = d\<lparr>dailies := x\<rparr>)"
        unfolding e_def by (auto simp: increment_def run_simps)
      have "ar_article_id ` set rs \<subseteq> insert (ac_id a) (ar_article_id ` set (reactions d))"
      proof -
        have "fst ` set (map reaction_key rs) \<subseteq> insert (ac_id a) (fst ` set (map reaction_key (reactions d)))"
          using keys by auto
        then show ?thesis by (simp add: image_image reaction_key_def)
      qed
      then have refs: "ar_article_id ` set rs \<subseteq> am_id ` set (articles d)"
        using mem counter_refs(2)[of d] inv by (metis (no_types, lifting) insert_subset subset_trans)
      have "content_inv e \<and> article_dailies e = article_dailies d \<and> articles e = articles d"
        using e inv by (elim disjE exE conjE) (simp_all add: content_inv_dailies)
      then have "content_inv (e\<lparr>reactions := rs\<rparr>)"
        using content_inv_counters[of e "article_dailies e" rs] counter_refs(1)[of e] refs by (cases e) simp
      moreover have "article_counters_inv (e\<lparr>reactions := rs\<rparr>)"
        using e inv rs by (elim disjE exE conjE) (simp_all add: article_counters_inv_def)
      ultimately show ?thesis using Pair Inr d0 run[folded e_def] by (simp add: set_reaction_def run_bind)
    qed
  qed
qed

section \<open>Public numbers\<close>

definition views_of :: "db \<Rightarrow> pystr \<Rightarrow> int" where
  "views_of d aid = sum_list (map ad_view_count (filter (\<lambda>r. ad_article_id r = aid) (article_dailies d)))"

definition reactions_of :: "db \<Rightarrow> pystr \<Rightarrow> reaction_kind \<Rightarrow> int" where
  "reactions_of d aid k = int (length (filter (\<lambda>r. ar_article_id r = aid \<and> ar_reaction_kind r = k) (reactions d)))"

lemma get_or_map: "get_or v k (map (\<lambda>j. (j, f j)) ks) = (if k \<in> set ks then f k else v)"
  by (simp add: get_or_def dict_get_def map_of_keys)

lemma by_article_id_map:
  "(\<And>i. pb_article_id (f i) = i) \<Longrightarrow> aid \<in> set ids \<Longrightarrow> by_article_id (map f ids) aid = f aid"
  by (induction ids) auto

lemma filter_own:
  "aid \<in> set ids \<Longrightarrow> filter (\<lambda>r. key r = aid) (filter (\<lambda>r. key r \<in> set ids) rows) = filter (\<lambda>r. key r = aid) rows"
  by (induction rows) auto

definition view_table :: "db \<Rightarrow> pystr list \<Rightarrow> (pystr, int) dict" where
  "view_table d ids =
     (let rows = filter (\<lambda>r. ad_article_id r \<in> set ids) (article_dailies d) in
      map (\<lambda>aid. (aid, sum_list (map ad_view_count (filter (\<lambda>r. ad_article_id r = aid) rows))))
        (remdups (map ad_article_id rows)))"

definition reaction_table :: "db \<Rightarrow> pystr list \<Rightarrow> (pystr, reaction_counts) dict" where
  "reaction_table d ids =
     (let rows = filter (\<lambda>r. ar_article_id r \<in> set ids) (reactions d) in
      map (\<lambda>aid.
        (aid, from_counts (map (\<lambda>k. (k, int (length (filter (\<lambda>r. ar_article_id r = aid \<and> ar_reaction_kind r = k) rows))))
                (remdups (map ar_reaction_kind (filter (\<lambda>r. ar_article_id r = aid) rows))))))
        (remdups (map ar_article_id rows)))"

lemma view_table_get:
  assumes "aid \<in> set ids"
  shows "get_or 0 aid (view_table d ids) = views_of d aid"
proof (cases "aid \<in> ad_article_id ` set (article_dailies d)")
  case True
  then have "aid \<in> set (remdups (map ad_article_id (filter (\<lambda>r. ad_article_id r \<in> set ids) (article_dailies d))))"
    using assms by auto
  then show ?thesis
    unfolding view_table_def Let_def get_or_map views_of_def by (simp only: if_True filter_own[OF assms])
next
  case False
  then have "filter (\<lambda>r. ad_article_id r = aid) (article_dailies d) = []" by (auto simp: filter_empty_conv)
  then show ?thesis using False assms by (auto simp: view_table_def Let_def get_or_map views_of_def)
qed

lemma kind_counts:
  "get_or 0 k (map (\<lambda>k. (k, int (length (filter (\<lambda>r. ar_article_id r = aid \<and> ar_reaction_kind r = k) rows))))
     (remdups (map ar_reaction_kind (filter (\<lambda>r. ar_article_id r = aid) rows)))) =
   int (length (filter (\<lambda>r. ar_article_id r = aid \<and> ar_reaction_kind r = k) rows))"
  unfolding get_or_map by (auto simp: filter_empty_conv)

lemma reactions_of_own:
  "aid \<in> set ids \<Longrightarrow>
   int (length (filter (\<lambda>r. ar_article_id r = aid \<and> ar_reaction_kind r = k)
     (filter (\<lambda>r. ar_article_id r \<in> set ids) (reactions d)))) = reactions_of d aid k"
  unfolding reactions_of_def filter_filter by (metis (mono_tags, lifting))

lemma reaction_table_get:
  assumes "aid \<in> set ids"
  shows "get_or reaction_zero aid (reaction_table d ids) =
    \<lparr>rn_heart = reactions_of d aid HEART, rn_fire = reactions_of d aid FIRE,
     rn_thinking = reactions_of d aid THINKING, rn_neutral = reactions_of d aid NEUTRAL,
     rn_poop = reactions_of d aid POOP\<rparr>"
proof (cases "aid \<in> ar_article_id ` set (reactions d)")
  case True
  then have "aid \<in> set (remdups (map ar_article_id (filter (\<lambda>r. ar_article_id r \<in> set ids) (reactions d))))"
    using assms by auto
  then show ?thesis
    unfolding reaction_table_def Let_def get_or_map
    by (simp only: if_True from_counts_def kind_counts) (simp only: reactions_of_own[OF assms])
next
  case False
  then have "reactions_of d aid k = 0" for k by (auto simp: reactions_of_def filter_empty_conv)
  then show ?thesis using False
    by (auto simp: reaction_table_def Let_def get_or_map reaction_zero_def)
qed

text \<open>The public numbers come back once per requested article, in the order of the request, with
  the sum of its views over all days and sources and the number of its reactions of each kind, zero
  where there are none.\<close>

theorem public_stats_exact:
  "get_public_stats ids d = (Inr (map (\<lambda>aid.
     \<lparr>pb_article_id = aid, pb_view_count = views_of d aid,
      pb_reaction_counts = \<lparr>rn_heart = reactions_of d aid HEART, rn_fire = reactions_of d aid FIRE,
        rn_thinking = reactions_of d aid THINKING, rn_neutral = reactions_of d aid NEUTRAL,
        rn_poop = reactions_of d aid POOP\<rparr>\<rparr>) (fromkeys ids)), d)"
proof -
  let ?ids = "fromkeys ids"
  have views: "get_view_counts ?ids d = (Inr (view_table d ids), d)"
    by (simp add: get_view_counts_def view_table_def run_simps)
  have counts: "get_reaction_counts ?ids d = (Inr (reaction_table d ids), d)"
    using set_fromkeys[of ids] by (cases "?ids = []") (auto simp: get_reaction_counts_def reaction_table_def run_simps)
  have "map (by_article_id (map (\<lambda>aid. \<lparr>pb_article_id = aid, pb_view_count = get_or 0 aid (view_table d ids),
      pb_reaction_counts = get_or reaction_zero aid (reaction_table d ids)\<rparr>) ?ids)) ?ids =
    map (\<lambda>aid. \<lparr>pb_article_id = aid, pb_view_count = get_or 0 aid (view_table d ids),
      pb_reaction_counts = get_or reaction_zero aid (reaction_table d ids)\<rparr>) ?ids"
    by (rule map_cong[OF refl], rule by_article_id_map) simp_all
  also have "\<dots> = map (\<lambda>aid. \<lparr>pb_article_id = aid, pb_view_count = views_of d aid,
      pb_reaction_counts = \<lparr>rn_heart = reactions_of d aid HEART, rn_fire = reactions_of d aid FIRE,
        rn_thinking = reactions_of d aid THINKING, rn_neutral = reactions_of d aid NEUTRAL,
        rn_poop = reactions_of d aid POOP\<rparr>\<rparr>) ?ids"
    by (rule map_cong[OF refl]) (simp add: view_table_get reaction_table_get)
  finally show ?thesis
    by (cases "?ids = []")
       (simp_all add: get_public_stats_def storage_get_public_stats_def fill_missing_def Let_def run_simps views counts)
qed

end
