(* ===== verification/Quota.thy ===== *)
theory Quota
  imports Analytics
begin

text \<open>
  The daily quota of anonymous question suggestions: \<open>QuestionSuggestionLimiter\<close> of
  \<open>core/competency_matrix/services.py\<close> over \<open>ValkeyQuestionSuggestionQuotaStorage\<close> of
  \<open>infra/valkey/storages.py\<close>.  The commands \<open>INCR\<close> and \<open>EXPIRE\<close> of the Valkey server are the
  parameter \<open>valkey_ops\<close>; the locale \<open>valkey\<close> states their documented behaviour, and
  \<open>server\<close> is a store that has it.
\<close>

section \<open>Definitions\<close>

record 'st valkey_ops =
  vk_incr :: "pystr \<Rightarrow> 'st \<Rightarrow> int \<times> 'st"
  vk_expire :: "pystr \<Rightarrow> int \<Rightarrow> 'st \<Rightarrow> 'st"

record suggestion_quota =
  qt_allowed :: bool
  qt_remaining :: int

record limiter_config =
  lc_quota_secret :: pystr
  lc_anonymous_daily_limit :: int

record limit_params =
  lp_client_identifier :: pystr
  lp_now :: datetime

definition consume_quota_script :: "'st valkey_ops \<Rightarrow> pystr \<Rightarrow> int \<Rightarrow> 'st \<Rightarrow> int \<times> 'st" where
  "consume_quota_script ops key ttl st =
     (case vk_incr ops key st of (value, st') \<Rightarrow>
        if value = 1 then (value, vk_expire ops key ttl st') else (value, st'))"

definition quota_key :: "pystr \<Rightarrow> pystr \<Rightarrow> pystr" where
  "quota_key namespace actor_key = namespace @ [58] @ actor_key"

definition consume_question_suggestion_quota ::
  "'st valkey_ops \<Rightarrow> pystr \<Rightarrow> pystr \<Rightarrow> int \<Rightarrow> int \<Rightarrow> (error, 'st, suggestion_quota) action" where
  "consume_question_suggestion_quota ops namespace actor_key limit ttl_seconds = (\<lambda>st.
     case consume_quota_script ops (quota_key namespace actor_key) ttl_seconds st of (consumed, st') \<Rightarrow>
       (Inr \<lparr>qt_allowed = (consumed \<le> limit), qt_remaining = max (limit - consumed) 0\<rparr>, st'))"

definition anonymous_actor_key :: "env \<Rightarrow> limiter_config \<Rightarrow> pystr \<Rightarrow> datetime \<Rightarrow> pystr" where
  "anonymous_actor_key env cfg client now =
     env_hmac env (lc_quota_secret cfg) (u ''anonymous:'' @ client @ [58] @ isoformat (date_of now))"

definition second_us :: int where
  "second_us = 1000000"

definition seconds_until_next_utc_day :: "datetime \<Rightarrow> int" where
  "seconds_until_next_utc_day now = (date_start (date_of now + 1) - now) div second_us"

definition check_create_allowed ::
  "env \<Rightarrow> 'st valkey_ops \<Rightarrow> pystr \<Rightarrow> limiter_config \<Rightarrow> limit_params \<Rightarrow> (error, 'st, unit) action" where
  "check_create_allowed env ops namespace cfg p =
     bind (consume_question_suggestion_quota ops namespace
       (anonymous_actor_key env cfg (lp_client_identifier p) (lp_now p))
       (lc_anonymous_daily_limit cfg) (seconds_until_next_utc_day (lp_now p))) (\<lambda>quota.
     if \<not> qt_allowed quota then raise QuestionSuggestionQuotaExceededError else ret ())"

text \<open>A sequence of calls, each at its time, and the outcomes of the calls in their order.\<close>

fun run_calls ::
  "env \<Rightarrow> 'st valkey_ops \<Rightarrow> (datetime \<Rightarrow> 'st \<Rightarrow> 'st) \<Rightarrow> pystr \<Rightarrow> limiter_config \<Rightarrow> (pystr \<times> datetime) list \<Rightarrow> 'st
    \<Rightarrow> (pystr \<times> (error + unit)) list" where
  "run_calls env ops at_time ns cfg [] st = []"
| "run_calls env ops at_time ns cfg ((client, t) # calls) st =
     (case check_create_allowed env ops ns cfg \<lparr>lp_client_identifier = client, lp_now = t\<rparr> (at_time t st) of
        (r, st') \<Rightarrow> (client, r) # run_calls env ops at_time ns cfg calls st')"

definition outcomes_of :: "pystr \<Rightarrow> (pystr \<times> (error + unit)) list \<Rightarrow> (error + unit) list" where
  "outcomes_of client rs = map snd (filter (\<lambda>r. fst r = client) rs)"

section \<open>The server\<close>

text \<open>
  \<open>live\<close> reads the value of a key and the time at which it expires, \<open>at_time\<close> lets the clock of the
  server advance.  A time to live that is not positive deletes the key.
\<close>

locale valkey =
  fixes ops :: "'st valkey_ops"
    and live :: "'st \<Rightarrow> pystr \<Rightarrow> (int \<times> datetime option) option"
    and clock :: "'st \<Rightarrow> datetime"
    and at_time :: "datetime \<Rightarrow> 'st \<Rightarrow> 'st"
  assumes incr_value: "fst (vk_incr ops k st) = (case live st k of None \<Rightarrow> 1 | Some (v, x) \<Rightarrow> v + 1)"
    and incr_live: "live (snd (vk_incr ops k st)) =
      (live st)(k \<mapsto> (case live st k of None \<Rightarrow> (1, None) | Some (v, x) \<Rightarrow> (v + 1, x)))"
    and incr_clock: "clock (snd (vk_incr ops k st)) = clock st"
    and expire_live: "live (vk_expire ops k ttl st) =
      (if ttl \<le> 0 then (live st)(k := None)
       else (live st)(k := map_option (\<lambda>(v, x). (v, Some (clock st + ttl * second_us))) (live st k)))"
    and at_time_live: "live (at_time t st) =
      (\<lambda>k. case live st k of
         Some (v, Some x) \<Rightarrow> if x \<le> t then None else Some (v, Some x)
       | other \<Rightarrow> other)"
    and at_time_clock: "clock (at_time t st) = t"
begin

lemma consume_script:
  "fst (consume_quota_script ops k ttl st) = (case live st k of None \<Rightarrow> 1 | Some (v, x) \<Rightarrow> v + 1)"
  "k' \<noteq> k \<Longrightarrow> live (snd (consume_quota_script ops k ttl st)) k' = live st k'"
  by (auto simp: consume_quota_script_def incr_value incr_live expire_live prod.case_eq_if split: option.split)

lemma consume_script_own:
  assumes "live st k = None \<or> (\<exists>v x. live st k = Some (v, x) \<and> 1 \<le> v)" and "0 < ttl"
  shows "live (snd (consume_quota_script ops k ttl st)) k =
    Some (case live st k of None \<Rightarrow> (1, Some (clock st + ttl * second_us)) | Some (v, x) \<Rightarrow> (v + 1, x))"
  using assms
  by (auto simp: consume_quota_script_def incr_value incr_live incr_clock expire_live prod.case_eq_if)

lemma check_run:
  "check_create_allowed env ops ns cfg \<lparr>lp_client_identifier = client, lp_now = t\<rparr> st =
    (let k = quota_key ns (anonymous_actor_key env cfg client t);
         r = consume_quota_script ops k (seconds_until_next_utc_day t) st
     in (if fst r \<le> lc_anonymous_daily_limit cfg then Inr () else Inl QuestionSuggestionQuotaExceededError, snd r))"
  by (simp add: check_create_allowed_def consume_question_suggestion_quota_def run_simps Let_def prod.case_eq_if)

definition used :: "pystr \<Rightarrow> datetime \<Rightarrow> int \<Rightarrow> 'st \<Rightarrow> bool" where
  "used k day_end n st \<longleftrightarrow>
     (n = 0 \<and> live st k = None)
     \<or> (1 \<le> n \<and> (\<exists>x. live st k = Some (n, Some x) \<and> day_end - second_us < x))"

lemma used_at_time:
  assumes "used k day_end n st" and "t + second_us \<le> day_end"
  shows "used k day_end n (at_time t st)"
  using assms by (auto simp: used_def at_time_live)

lemma ttl_bounds:
  assumes "t + second_us \<le> date_start (date_of t + 1)"
  shows "0 < seconds_until_next_utc_day t"
    and "date_start (date_of t + 1) - second_us < t + seconds_until_next_utc_day t * second_us"
  using assms unfolding seconds_until_next_utc_day_def second_us_def by linarith+

lemma used_own:
  assumes used: "used k (date_start (date_of t + 1)) n st" and t: "t + second_us \<le> date_start (date_of t + 1)"
    and clock: "clock st = t"
  shows "fst (consume_quota_script ops k (seconds_until_next_utc_day t) st) = n + 1"
    and "used k (date_start (date_of t + 1)) (n + 1) (snd (consume_quota_script ops k (seconds_until_next_utc_day t) st))"
proof -
  have known: "live st k = None \<or> (\<exists>v x. live st k = Some (v, x) \<and> 1 \<le> v)" using used by (auto simp: used_def)
  show "fst (consume_quota_script ops k (seconds_until_next_utc_day t) st) = n + 1"
    using used by (auto simp: consume_script used_def)
  show "used k (date_start (date_of t + 1)) (n + 1) (snd (consume_quota_script ops k (seconds_until_next_utc_day t) st))"
    using used ttl_bounds[OF t] clock
    unfolding used_def consume_script_own[OF known ttl_bounds(1)[OF t]] by auto
qed

lemma used_other:
  "k' \<noteq> k \<Longrightarrow> used k day_end n (snd (consume_quota_script ops k' ttl st)) = used k day_end n st"
  by (simp add: used_def consume_script)

lemma calls_limited:
  assumes k: "k = quota_key ns (anonymous_actor_key env cfg client (date_start day))"
    and "used k (date_start (day + 1)) n st"
    and "\<And>c t. (c, t) \<in> set calls \<Longrightarrow> date_of t = day \<and> t + second_us \<le> date_start (day + 1)"
    and "\<And>c t. (c, t) \<in> set calls \<Longrightarrow> c \<noteq> client \<Longrightarrow> quota_key ns (anonymous_actor_key env cfg c t) \<noteq> k"
  shows "outcomes_of client (run_calls env ops at_time ns cfg calls st) =
    map (\<lambda>i. if n + int i < lc_anonymous_daily_limit cfg then Inr () else Inl QuestionSuggestionQuotaExceededError)
      [0..<length (filter (\<lambda>c. fst c = client) calls)]"
  using assms(2-)
proof (induction calls arbitrary: n st)
  case Nil
  then show ?case by (simp add: outcomes_of_def)
next
  case (Cons call calls)
  obtain c t where call: "call = (c, t)" by fastforce
  have day: "date_of t = day" and t: "t + second_us \<le> date_start (day + 1)" using Cons.prems(2)[of c t] call by auto
  let ?st = "at_time t st" and ?k = "quota_key ns (anonymous_actor_key env cfg c t)"
  let ?st' = "snd (consume_quota_script ops ?k (seconds_until_next_utc_day t) ?st)"
  have used: "used k (date_start (day + 1)) n ?st" using Cons.prems(1) t by (rule used_at_time)
  have IH: "used k (date_start (day + 1)) m ?st' \<Longrightarrow>
      outcomes_of client (run_calls env ops at_time ns cfg calls ?st') =
      map (\<lambda>i. if m + int i < lc_anonymous_daily_limit cfg then Inr () else Inl QuestionSuggestionQuotaExceededError)
        [0..<length (filter (\<lambda>c. fst c = client) calls)]" for m
    using Cons.IH[of m ?st'] Cons.prems(2,3) by (meson list.set_intros(2))
  show ?case
  proof (cases "c = client")
    case True
    have "date_of (date_start day) = day" by (simp add: date_of_def date_start_def day_us_def)
    then have "?k = k" using True k day by (simp add: anonymous_actor_key_def)
    then have "fst (consume_quota_script ops ?k (seconds_until_next_utc_day t) ?st) = n + 1"
      and "used k (date_start (day + 1)) (n + 1) ?st'"
      using used_own[of k t n ?st] used t day at_time_clock by auto
    with IH[of "n + 1"] show ?thesis
      by (auto simp: call True outcomes_of_def check_run Let_def map_upt_Suc algebra_simps simp del: upt_Suc)
  next
    case False
    then have "?k \<noteq> k" using Cons.prems(3)[of c t] call by simp
    then have "used k (date_start (day + 1)) n ?st'" using used by (simp add: used_other)
    with IH[of n] show ?thesis using False by (simp add: call outcomes_of_def check_run Let_def)
  qed
qed

text \<open>A time to live of zero deletes the counter at once.\<close>

lemma calls_unlimited:
  assumes "\<And>c t. (c, t) \<in> set calls \<Longrightarrow> live st (quota_key ns (anonymous_actor_key env cfg c t)) = None"
    and "\<And>c t. (c, t) \<in> set calls \<Longrightarrow> seconds_until_next_utc_day t = 0"
    and "1 \<le> lc_anonymous_daily_limit cfg"
  shows "map snd (run_calls env ops at_time ns cfg calls st) = replicate (length calls) (Inr ())"
  using assms(1,2)
proof (induction calls arbitrary: st)
  case (Cons call calls)
  obtain c t where call: "call = (c, t)" by fastforce
  let ?st' = "snd (consume_quota_script ops (quota_key ns (anonymous_actor_key env cfg c t)) (seconds_until_next_utc_day t) (at_time t st))"
  have gone: "live (at_time t st) k = None" if "live st k = None" for k using that by (simp add: at_time_live)
  have none: "live (at_time t st) (quota_key ns (anonymous_actor_key env cfg c t)) = None"
    using Cons.prems(1)[of c t] call by (intro gone) simp
  have "seconds_until_next_utc_day t = 0" using Cons.prems(2)[of c t] call by simp
  then have "live ?st' k = None" if "live st k = None" for k
    using none gone[OF that] by (simp add: consume_quota_script_def incr_value incr_live expire_live prod.case_eq_if)
  then have "map snd (run_calls env ops at_time ns cfg calls ?st') = replicate (length calls) (Inr ())"
    using Cons.IH[of ?st'] Cons.prems by (meson list.set_intros(2))
  then show ?case using assms(3) none by (simp add: call check_run Let_def consume_script)
qed simp

end

text \<open>A store with the behaviour: a clock, and per key a value and an expiry time.\<close>

record server =
  sv_clock :: datetime
  sv_entries :: "pystr \<Rightarrow> (int \<times> datetime option) option"

definition server_at_time :: "datetime \<Rightarrow> server \<Rightarrow> server" where
  "server_at_time t s = s\<lparr>sv_clock := t, sv_entries := (\<lambda>k. case sv_entries s k of
     Some (v, Some x) \<Rightarrow> if x \<le> t then None else Some (v, Some x)
   | other \<Rightarrow> other)\<rparr>"

definition server_ops :: "server valkey_ops" where
  "server_ops =
     \<lparr>vk_incr = (\<lambda>k s.
        let e = (case sv_entries s k of None \<Rightarrow> (1, None) | Some (v, x) \<Rightarrow> (v + 1, x))
        in (fst e, s\<lparr>sv_entries := (sv_entries s)(k \<mapsto> e)\<rparr>)),
      vk_expire = (\<lambda>k ttl s. s\<lparr>sv_entries := (sv_entries s)(k :=
        (if ttl \<le> 0 then None
         else map_option (\<lambda>(v, x). (v, Some (sv_clock s + ttl * second_us))) (sv_entries s k)))\<rparr>)\<rparr>"

definition empty_server :: server where
  "empty_server = \<lparr>sv_clock = 0, sv_entries = (\<lambda>k. None)\<rparr>"

interpretation server: valkey server_ops sv_entries sv_clock server_at_time
  by unfold_locales
     (auto simp: server_ops_def server_at_time_def Let_def fun_eq_iff split: option.splits prod.splits)

section \<open>Properties\<close>

text \<open>C11: within a day, up to its last second, exactly the first calls of a client up to the daily limit
  are allowed and every later one is refused, whatever other clients do in between, as long as the
  keyed hash gives them other keys.\<close>

theorem daily_quota_exact:
  assumes "\<And>c t. (c, t) \<in> set calls \<Longrightarrow> date_of t = day \<and> t + second_us \<le> date_start (day + 1)"
    and "\<And>c t. (c, t) \<in> set calls \<Longrightarrow> c \<noteq> client \<Longrightarrow>
      anonymous_actor_key env cfg c t \<noteq> anonymous_actor_key env cfg client (date_start day)"
    and "sv_entries s (quota_key ns (anonymous_actor_key env cfg client (date_start day))) = None"
  shows "outcomes_of client (run_calls env server_ops server_at_time ns cfg calls s) =
    map (\<lambda>i. if int i < lc_anonymous_daily_limit cfg then Inr () else Inl QuestionSuggestionQuotaExceededError)
      [0..<length (filter (\<lambda>c. fst c = client) calls)]"
proof -
  have "server.used (quota_key ns (anonymous_actor_key env cfg client (date_start day))) (date_start (day + 1)) 0 s"
    using assms(3) by (simp add: server.used_def)
  from server.calls_limited[OF refl this] assms(1,2) show ?thesis by (simp add: quota_key_def)
qed

theorem daily_quota_exact_witness:
  "outcomes_of (u ''a'') (run_calls sample_env server_ops server_at_time (u ''q'')
      \<lparr>lc_quota_secret = u ''k'', lc_anonymous_daily_limit = 1\<rparr> [(u ''a'', 5), (u ''b'', 6), (u ''a'', 7)] empty_server) =
    [Inr (), Inl QuestionSuggestionQuotaExceededError]"
proof -
  let ?cfg = "\<lparr>lc_quota_secret = u ''k'', lc_anonymous_daily_limit = 1\<rparr>"
  let ?calls = "[(u ''a'', 5), (u ''b'', 6), (u ''a'', 7)] :: (pystr \<times> datetime) list"
  have "date_of t = 0 \<and> t + second_us \<le> date_start (0 + 1)" if "(c, t) \<in> set ?calls" for c t
    using that by (auto simp: date_of_def day_us_def second_us_def date_start_def)
  moreover have "anonymous_actor_key sample_env ?cfg c t \<noteq> anonymous_actor_key sample_env ?cfg (u ''a'') (date_start 0)"
    if "(c, t) \<in> set ?calls" "c \<noteq> u ''a''" for c t
    using that by (auto simp: anonymous_actor_key_def sample_env_def u_def)
  ultimately show ?thesis
    using daily_quota_exact[of ?calls 0 "u ''a''" sample_env ?cfg empty_server "u ''q''"]
    by (simp add: empty_server_def u_def)
qed

text \<open>C36: in the last second of a day the time to live is zero, so a counter is deleted as soon as it is set.  Whatever
  else the server holds, the clients that have no live counter in that second, those that have not called earlier in the
  day, are never limited: every call of theirs is allowed, however many there are.  A client with a live counter stays
  limited until the counter expires.\<close>

theorem last_second_unlimited:
  assumes "\<And>c t. (c, t) \<in> set calls \<Longrightarrow> date_start (date_of t + 1) < t + second_us"
    and "\<And>c t. (c, t) \<in> set calls \<Longrightarrow> sv_entries s (quota_key ns (anonymous_actor_key env cfg c t)) = None"
    and "1 \<le> lc_anonymous_daily_limit cfg"
  shows "map snd (run_calls env server_ops server_at_time ns cfg calls s) = replicate (length calls) (Inr ())"
proof (rule server.calls_unlimited)
  show "seconds_until_next_utc_day t = 0" if "(c, t) \<in> set calls" for c t
  proof -
    have "t < date_start (date_of t + 1)" using date_of_bounds[of "date_of t" t] by (simp add: date_start_def date_end_def algebra_simps)
    then show ?thesis using assms(1)[OF that] unfolding seconds_until_next_utc_day_def second_us_def by (intro div_pos_pos_trivial) auto
  qed
qed (use assms in \<open>simp_all\<close>)

text \<open>The server holds the exhausted counter of another client.\<close>

theorem last_second_unlimited_witness:
  "let cfg = \<lparr>lc_quota_secret = u ''k'', lc_anonymous_daily_limit = 1\<rparr>;
       s = empty_server\<lparr>sv_entries := (\<lambda>_. None)(u ''other'' \<mapsto> (1, None))\<rparr>
   in map snd (run_calls sample_env server_ops server_at_time (u ''q'') cfg [(u ''a'', 86399500000), (u ''a'', 86399600000)] s) =
     [Inr (), Inr ()]"
proof -
  let ?cfg = "\<lparr>lc_quota_secret = u ''k'', lc_anonymous_daily_limit = 1\<rparr>"
  let ?calls = "[(u ''a'', 86399500000), (u ''a'', 86399600000)] :: (pystr \<times> datetime) list"
  let ?s = "empty_server\<lparr>sv_entries := (\<lambda>_. None)(u ''other'' \<mapsto> (1, None))\<rparr>"
  have "date_start (date_of t + 1) < t + second_us" if "(c, t) \<in> set ?calls" for c t
    using that by (auto simp: date_of_def day_us_def second_us_def date_start_def)
  moreover have "sv_entries ?s (quota_key (u ''q'') (anonymous_actor_key sample_env ?cfg c t)) = None" for c t
    by (simp add: quota_key_def u_def)
  ultimately have "map snd (run_calls sample_env server_ops server_at_time (u ''q'') ?cfg ?calls ?s) = replicate 2 (Inr ())"
    using last_second_unlimited[of ?calls ?s "u ''q''" sample_env ?cfg] by (simp add: numeral_2_eq_2)
  then show ?thesis by (simp add: Let_def numeral_2_eq_2)
qed

end
