(* ===== verification/Matrix.thy ===== *)
theory Matrix
  imports Quota Ordering
begin

text \<open>
  The competency matrix: the domain schemas of \<open>core/competency_matrix/schemas.py\<close>, the database
  storage \<open>CompetencyMatrixDatabaseStorage\<close> of \<open>infra/postgresql/storages/competency_matrix.py\<close> over
  the models of \<open>infra/postgresql/models/competency_matrix.py\<close>, and \<open>CompetencyMatrixUseCase\<close> of
  \<open>core/competency_matrix/use_cases.py\<close>: the tree of sheets, sections and subsections, the questions
  with their external resources, and the queue of suggested questions.
\<close>

section \<open>Domain schemas\<close>

datatype node_kind = NODE_SHEET | NODE_SECTION | NODE_SUBSECTION

record deletion_impact =
  di_subsection_ids :: "pystr list"
  di_has_questions :: bool

record public_sheet =
  pk_key :: pystr
  pk_name_ru :: pystr
  pk_name_en :: pystr

definition has_key :: "pystr \<Rightarrow> public_sheet list \<Rightarrow> bool" where
  "has_key key shs \<longleftrightarrow> (\<exists>sheet \<in> set shs. pk_key sheet = key)"

record structure_subsection =
  ssu_id :: pystr
  ssu_name_ru :: pystr
  ssu_name_en :: pystr
  ssu_priority :: int

record structure_section =
  sse_id :: pystr
  sse_name_ru :: pystr
  sse_name_en :: pystr
  sse_priority :: int
  sse_subsections :: "structure_subsection list"

record structure_sheet =
  ssh_id :: pystr
  ssh_key :: pystr
  ssh_name_ru :: pystr
  ssh_name_en :: pystr
  ssh_priority :: int
  ssh_sections :: "structure_section list"

text \<open>The same test on the three levels: no repeated identifier, and the same set of identifiers.\<close>

definition ensure_order_matches :: "pystr list \<Rightarrow> pystr list \<Rightarrow> (error, 's, unit) action" where
  "ensure_order_matches existing_ids ordered_ids =
     (if card (set ordered_ids) \<noteq> length ordered_ids \<or> set ordered_ids \<noteq> set existing_ids
      then raise CompetencyMatrixStructurePriorityInvalidError else ret ())"

definition ensure_subsection_priority_order_matches ::
  "structure_section \<Rightarrow> pystr list \<Rightarrow> (error, 's, unit) action" where
  "ensure_subsection_priority_order_matches section ordered_ids =
     ensure_order_matches (map ssu_id (sse_subsections section)) ordered_ids"

definition ensure_section_priority_order_matches ::
  "structure_sheet \<Rightarrow> pystr list \<Rightarrow> (error, 's, unit) action" where
  "ensure_section_priority_order_matches sheet ordered_ids =
     ensure_order_matches (map sse_id (ssh_sections sheet)) ordered_ids"

definition ensure_sheet_priority_order_matches ::
  "structure_sheet list \<Rightarrow> pystr list \<Rightarrow> (error, 's, unit) action" where
  "ensure_sheet_priority_order_matches structure ordered_ids =
     ensure_order_matches (map ssh_id structure) ordered_ids"

definition require_sheet :: "structure_sheet list \<Rightarrow> pystr \<Rightarrow> (error, 's, structure_sheet) action" where
  "require_sheet structure sheet_id =
     lift (require CompetencyMatrixStructureNotFoundError (find (\<lambda>sheet. ssh_id sheet = sheet_id) structure))"

definition require_section :: "structure_sheet list \<Rightarrow> pystr \<Rightarrow> (error, 's, structure_section) action" where
  "require_section structure section_id =
     lift (require CompetencyMatrixStructureNotFoundError
       (find (\<lambda>candidate. sse_id candidate = section_id) (concat (map ssh_sections structure))))"

record sheet_create_params =
  shp_key :: pystr
  shp_name_ru :: pystr
  shp_name_en :: pystr

record section_create_params =
  sep_sheet_id :: pystr
  sep_name_ru :: pystr
  sep_name_en :: pystr

record subsection_create_params =
  sup_section_id :: pystr
  sup_name_ru :: pystr
  sup_name_en :: pystr

record item_structure =
  ns_sheet_id :: pystr
  ns_sheet_key :: pystr
  ns_sheet_ru :: pystr
  ns_sheet_en :: pystr
  ns_section_id :: pystr
  ns_section_ru :: pystr
  ns_section_en :: pystr
  ns_subsection_id :: pystr
  ns_subsection_ru :: pystr
  ns_subsection_en :: pystr

text \<open>A queued question without its digest, as the domain sees it.\<close>

record queued_question =
  qq_id :: pystr
  qq_question :: pystr
  qq_grade :: "grade option"
  qq_sheet :: "pystr option"
  qq_section :: "pystr option"
  qq_subsection :: "pystr option"
  qq_suggested_by_username :: pystr
  qq_created_at :: datetime

definition fingerprint_value :: "pystr \<Rightarrow> pystr" where
  "fingerprint_value question = casefold (join [32] (split_words question))"

definition fingerprint_digest :: "env \<Rightarrow> pystr \<Rightarrow> pystr" where
  "fingerprint_digest env question = env_sha256 env (fingerprint_value question)"

record queue_params =
  qp_question :: pystr
  qp_sheet :: "pystr option"
  qp_grade :: "grade option"

subsection \<open>Resources\<close>

record attached_resource =
  at_id :: pystr
  at_name_ru :: pystr
  at_name_en :: pystr
  at_url :: pystr
  at_context_ru :: pystr
  at_context_en :: pystr

definition to_external_resource :: "attached_resource \<Rightarrow> external_resource" where
  "to_external_resource r =
     \<lparr>er_id = at_id r, er_name_ru = at_name_ru r, er_name_en = at_name_en r, er_url = at_url r\<rparr>"

definition attach :: "external_resource \<Rightarrow> pystr \<Rightarrow> pystr \<Rightarrow> attached_resource" where
  "attach r context_ru context_en =
     \<lparr>at_id = er_id r, at_name_ru = er_name_ru r, at_name_en = er_name_en r, at_url = er_url r,
      at_context_ru = context_ru, at_context_en = context_en\<rparr>"

definition all_resources_exists_by_ids :: "external_resource list \<Rightarrow> pystr set \<Rightarrow> bool" where
  "all_resources_exists_by_ids rs ids \<longleftrightarrow> ids - er_id ` set rs = {}"

datatype attachment =
    ExistingAttachment pystr pystr pystr
  | NewAttachment external_resource pystr pystr

subsection \<open>Items\<close>

record matrix_item =
  mi_id :: pystr
  mi_slug :: pystr
  mi_question_ru :: pystr
  mi_question_en :: pystr
  mi_publish_status :: publish_status
  mi_answer_ru :: pystr
  mi_answer_en :: pystr
  mi_explanation_ru :: pystr
  mi_explanation_en :: pystr
  mi_structure :: item_structure
  mi_grade :: "grade option"
  mi_interview_frequency :: "interview_frequency option"
  mi_suggested_by_username :: pystr
  mi_published_at :: "datetime option"
  mi_resources :: "attached_resource list"

definition missing_publication_fields :: "matrix_item \<Rightarrow> missing_field list" where
  "missing_publication_fields i =
     map fst (filter snd
       [(MF_SLUG, strip (mi_slug i) = []),
        (MF_GRADE, mi_grade i = None),
        (MF_QUESTION_RU, strip (mi_question_ru i) = []),
        (MF_QUESTION_EN, strip (mi_question_en i) = []),
        (MF_ANSWER_RU, strip (mi_answer_ru i) = []),
        (MF_ANSWER_EN, strip (mi_answer_en i) = []),
        (MF_INTERVIEW_ANSWER_EXPLANATION_RU, strip (mi_explanation_ru i) = []),
        (MF_INTERVIEW_ANSWER_EXPLANATION_EN, strip (mi_explanation_en i) = [])])"

definition has_missing_publication_fields :: "matrix_item \<Rightarrow> bool" where
  "has_missing_publication_fields i \<longleftrightarrow> missing_publication_fields i \<noteq> []"

definition item_is_available :: "matrix_item \<Rightarrow> bool" where
  "item_is_available i \<longleftrightarrow> mi_publish_status i = PUBLISHED \<and> \<not> has_missing_publication_fields i"

definition ensure_public_ready :: "matrix_item \<Rightarrow> (error, 's, unit) action" where
  "ensure_public_ready i =
     (let missing_fields = missing_publication_fields i in
      if missing_fields \<noteq> [] then raise (CompetencyMatrixItemNotPublicReadyError missing_fields) else ret ())"

record item_params =
  ip_id :: pystr
  ip_slug :: pystr
  ip_question_ru :: pystr
  ip_question_en :: pystr
  ip_publish_status :: publish_status
  ip_answer_ru :: pystr
  ip_answer_en :: pystr
  ip_explanation_ru :: pystr
  ip_explanation_en :: pystr
  ip_subsection_id :: pystr
  ip_grade :: "grade option"
  ip_interview_frequency :: "interview_frequency option"
  ip_resources :: "attachment list"

definition get_resource_ids_to_assign :: "item_params \<Rightarrow> pystr list" where
  "get_resource_ids_to_assign p =
     concat (map (\<lambda>a. case a of ExistingAttachment rid _ _ \<Rightarrow> [rid] | NewAttachment _ _ _ \<Rightarrow> []) (ip_resources p))"

text \<open>
  \<open>to_item\<close>: the existing attachments whose resource was found come first, then the new ones.  The
  dictionary by identifier keeps the last resource of an identifier.
\<close>

definition attached_existing :: "external_resource list \<Rightarrow> attachment \<Rightarrow> attached_resource list" where
  "attached_existing rs a =
     (case a of
        ExistingAttachment rid context_ru context_en \<Rightarrow>
          (case row_by er_id rid (rev rs) of
             Some r \<Rightarrow> [attach r context_ru context_en]
           | None \<Rightarrow> [])
      | NewAttachment _ _ _ \<Rightarrow> [])"

definition attached_new :: "attachment \<Rightarrow> attached_resource list" where
  "attached_new a =
     (case a of
        ExistingAttachment _ _ _ \<Rightarrow> []
      | NewAttachment r context_ru context_en \<Rightarrow> [attach r context_ru context_en])"

definition to_item ::
  "item_params \<Rightarrow> external_resource list \<Rightarrow> item_structure \<Rightarrow> datetime option \<Rightarrow> pystr \<Rightarrow> matrix_item" where
  "to_item p rs structure published_at suggested_by =
     \<lparr>mi_id = ip_id p, mi_slug = ip_slug p, mi_question_ru = ip_question_ru p, mi_question_en = ip_question_en p,
      mi_publish_status = ip_publish_status p, mi_answer_ru = ip_answer_ru p, mi_answer_en = ip_answer_en p,
      mi_explanation_ru = ip_explanation_ru p, mi_explanation_en = ip_explanation_en p, mi_structure = structure,
      mi_grade = ip_grade p, mi_interview_frequency = ip_interview_frequency p,
      mi_suggested_by_username = suggested_by, mi_published_at = published_at,
      mi_resources = concat (map (attached_existing rs) (ip_resources p)) @ concat (map attached_new (ip_resources p))\<rparr>"

definition only_available :: "matrix_item list \<Rightarrow> matrix_item list" where
  "only_available xs = filter item_is_available xs"

record published_item_for_seo =
  pi_sheet_key :: pystr
  pi_slug :: pystr
  pi_publish_status :: publish_status

definition to_published_for_seo :: "matrix_item list \<Rightarrow> published_item_for_seo list" where
  "to_published_for_seo xs =
     map (\<lambda>i. \<lparr>pi_sheet_key = ns_sheet_key (mi_structure i), pi_slug = mi_slug i,
               pi_publish_status = mi_publish_status i\<rparr>) xs"

section \<open>Database storage\<close>

subsection \<open>Structure\<close>

definition subsection_to_domain :: "subsection_model \<Rightarrow> structure_subsection" where
  "subsection_to_domain su =
     \<lparr>ssu_id = su_id su, ssu_name_ru = su_name_ru su, ssu_name_en = su_name_en su, ssu_priority = su_priority su\<rparr>"

text \<open>The relationships of the models are ordered by priority and identifier.\<close>

definition section_to_domain :: "db \<Rightarrow> section_model \<Rightarrow> structure_section" where
  "section_to_domain d se =
     \<lparr>sse_id = se_id se, sse_name_ru = se_name_ru se, sse_name_en = se_name_en se, sse_priority = se_priority se,
      sse_subsections = map subsection_to_domain
        (sort_key (\<lambda>su. (su_priority su, su_id su)) (filter (\<lambda>su. su_section_id su = se_id se) (subsections d)))\<rparr>"

definition sheet_to_domain :: "db \<Rightarrow> sheet_model \<Rightarrow> structure_sheet" where
  "sheet_to_domain d sh =
     \<lparr>ssh_id = sh_id sh, ssh_key = sh_key sh, ssh_name_ru = sh_name_ru sh, ssh_name_en = sh_name_en sh,
      ssh_priority = sh_priority sh,
      ssh_sections = map (section_to_domain d)
        (sort_key (\<lambda>se. (se_priority se, se_id se)) (filter (\<lambda>se. se_sheet_id se = sh_id sh) (sections d)))\<rparr>"

definition list_structure :: "structure_sheet list dbm" where
  "list_structure = gets (\<lambda>d. map (sheet_to_domain d) (sort_key (\<lambda>sh. (sh_priority sh, sh_id sh)) (sheets d)))"

text \<open>The joins of items with their subsection, section and sheet.\<close>

type_synonym item_row = "item_model \<times> subsection_model \<times> section_model \<times> sheet_model"

definition join_structure :: "db \<Rightarrow> item_row list" where
  "join_structure d =
     [(i, su, se, sh). i \<leftarrow> items d, su \<leftarrow> subsections d, su_id su = im_subsection_id i,
        se \<leftarrow> sections d, se_id se = su_section_id su, sh \<leftarrow> sheets d, sh_id sh = se_sheet_id se]"

definition list_sheets :: "public_sheet list dbm" where
  "list_sheets = gets (\<lambda>d.
     map (\<lambda>sh. \<lparr>pk_key = sh_key sh, pk_name_ru = sh_name_ru sh, pk_name_en = sh_name_en sh\<rparr>)
       (sort_key (\<lambda>sh. (sh_priority sh, sh_id sh))
         (filter (\<lambda>sh. \<exists>r \<in> set (join_structure d). snd (snd (snd r)) = sh \<and> im_publish_status (fst r) = PUBLISHED)
           (sheets d))))"

text \<open>Reading a missing parent row is an \<open>AttributeError\<close> on \<open>None\<close>; the foreign keys exclude it.\<close>

definition to_item_structure :: "db \<Rightarrow> subsection_model \<Rightarrow> error + item_structure" where
  "to_item_structure d su =
     (case require AttributeError (row_by se_id (su_section_id su) (sections d)) of
        Inl e \<Rightarrow> Inl e
      | Inr se \<Rightarrow>
          (case require AttributeError (row_by sh_id (se_sheet_id se) (sheets d)) of
             Inl e \<Rightarrow> Inl e
           | Inr sh \<Rightarrow>
               Inr \<lparr>ns_sheet_id = sh_id sh, ns_sheet_key = sh_key sh, ns_sheet_ru = sh_name_ru sh,
                    ns_sheet_en = sh_name_en sh, ns_section_id = se_id se, ns_section_ru = se_name_ru se,
                    ns_section_en = se_name_en se, ns_subsection_id = su_id su, ns_subsection_ru = su_name_ru su,
                    ns_subsection_en = su_name_en su\<rparr>))"

definition get_subsection_model :: "pystr \<Rightarrow> subsection_model dbm" where
  "get_subsection_model subsection_id =
     bind (gets (\<lambda>d. row_by su_id subsection_id (subsections d))) (\<lambda>su.
     lift (require CompetencyMatrixStructureNotFoundError su))"

definition get_item_structure_by_subsection_id :: "pystr \<Rightarrow> item_structure dbm" where
  "get_item_structure_by_subsection_id subsection_id =
     bind (get_subsection_model subsection_id) (\<lambda>su.
     bind (gets (\<lambda>d. to_item_structure d su)) lift)"

definition sheet_exists_by_key :: "pystr \<Rightarrow> bool dbm" where
  "sheet_exists_by_key key = gets (\<lambda>d. \<exists>sh \<in> set (sheets d). lower (sh_key sh) = lower key)"

definition next_sheet_priority :: "int dbm" where
  "next_sheet_priority = gets (\<lambda>d. next_priority (map sh_priority (sheets d)))"

definition create_sheet :: "env \<Rightarrow> sheet_create_params \<Rightarrow> structure_sheet dbm" where
  "create_sheet env p =
     bind (sheet_exists_by_key (shp_key p)) (\<lambda>taken.
     if taken then raise CompetencyMatrixStructureAlreadyExistsError
     else
       bind next_sheet_priority (\<lambda>priority.
       bind (gets sheets) (\<lambda>shs.
       let sheet = \<lparr>sh_id = env_new_id env 0, sh_key = shp_key p, sh_name_ru = shp_name_ru p,
             sh_name_en = shp_name_en p, sh_priority = priority\<rparr> in
       check_constraint (sh_id sheet \<notin> sh_id ` set shs) PrimaryKey (
       check_constraint (sh_key sheet \<notin> sh_key ` set shs) SheetKeyUniq (
       bind (modify (\<lambda>d. d\<lparr>sheets := sheets d @ [sheet]\<rparr>)) (\<lambda>_.
       ret \<lparr>ssh_id = sh_id sheet, ssh_key = sh_key sheet, ssh_name_ru = sh_name_ru sheet,
            ssh_name_en = sh_name_en sheet, ssh_priority = sh_priority sheet, ssh_sections = []\<rparr>))))))"

definition get_sheet_model :: "pystr \<Rightarrow> sheet_model dbm" where
  "get_sheet_model sheet_id =
     bind (gets (\<lambda>d. row_by sh_id sheet_id (sheets d))) (\<lambda>sh.
     lift (require CompetencyMatrixStructureNotFoundError sh))"

definition section_exists_by_name :: "section_create_params \<Rightarrow> bool dbm" where
  "section_exists_by_name p = gets (\<lambda>d. \<exists>se \<in> set (sections d). se_sheet_id se = sep_sheet_id p
     \<and> (lower (se_name_ru se) = lower (sep_name_ru p) \<or> lower (se_name_en se) = lower (sep_name_en p)))"

definition next_section_priority :: "pystr \<Rightarrow> int dbm" where
  "next_section_priority sheet_id =
     gets (\<lambda>d. next_priority (map se_priority (filter (\<lambda>se. se_sheet_id se = sheet_id) (sections d))))"

definition create_section :: "env \<Rightarrow> section_create_params \<Rightarrow> structure_section dbm" where
  "create_section env p =
     bind (get_sheet_model (sep_sheet_id p)) (\<lambda>_.
     bind (section_exists_by_name p) (\<lambda>taken.
     if taken then raise CompetencyMatrixStructureAlreadyExistsError
     else
       bind (next_section_priority (sep_sheet_id p)) (\<lambda>priority.
       bind (gets sections) (\<lambda>ses.
       let section = \<lparr>se_id = env_new_id env 0, se_sheet_id = sep_sheet_id p, se_name_ru = sep_name_ru p,
             se_name_en = sep_name_en p, se_priority = priority\<rparr> in
       check_constraint (se_id section \<notin> se_id ` set ses) PrimaryKey (
       check_constraint (\<forall>se \<in> set ses. se_sheet_id se = se_sheet_id section \<longrightarrow>
           se_name_ru se \<noteq> se_name_ru section \<and> se_name_en se \<noteq> se_name_en section) SectionNameUniq (
       bind (modify (\<lambda>d. d\<lparr>sections := sections d @ [section]\<rparr>)) (\<lambda>_.
       ret \<lparr>sse_id = se_id section, sse_name_ru = se_name_ru section, sse_name_en = se_name_en section,
            sse_priority = se_priority section, sse_subsections = []\<rparr>)))))))"

definition get_section_model :: "pystr \<Rightarrow> section_model dbm" where
  "get_section_model section_id =
     bind (gets (\<lambda>d. row_by se_id section_id (sections d))) (\<lambda>se.
     lift (require CompetencyMatrixStructureNotFoundError se))"

definition subsection_exists_by_name :: "subsection_create_params \<Rightarrow> bool dbm" where
  "subsection_exists_by_name p = gets (\<lambda>d. \<exists>su \<in> set (subsections d). su_section_id su = sup_section_id p
     \<and> (lower (su_name_ru su) = lower (sup_name_ru p) \<or> lower (su_name_en su) = lower (sup_name_en p)))"

definition next_subsection_priority :: "pystr \<Rightarrow> int dbm" where
  "next_subsection_priority section_id =
     gets (\<lambda>d. next_priority (map su_priority (filter (\<lambda>su. su_section_id su = section_id) (subsections d))))"

definition create_subsection :: "env \<Rightarrow> subsection_create_params \<Rightarrow> structure_subsection dbm" where
  "create_subsection env p =
     bind (get_section_model (sup_section_id p)) (\<lambda>_.
     bind (subsection_exists_by_name p) (\<lambda>taken.
     if taken then raise CompetencyMatrixStructureAlreadyExistsError
     else
       bind (next_subsection_priority (sup_section_id p)) (\<lambda>priority.
       bind (gets subsections) (\<lambda>sus.
       let subsection = \<lparr>su_id = env_new_id env 0, su_section_id = sup_section_id p, su_name_ru = sup_name_ru p,
             su_name_en = sup_name_en p, su_priority = priority\<rparr> in
       check_constraint (su_id subsection \<notin> su_id ` set sus) PrimaryKey (
       check_constraint (\<forall>su \<in> set sus. su_section_id su = su_section_id subsection \<longrightarrow>
           su_name_ru su \<noteq> su_name_ru subsection \<and> su_name_en su \<noteq> su_name_en subsection) SubsectionNameUniq (
       bind (modify (\<lambda>d. d\<lparr>subsections := subsections d @ [subsection]\<rparr>)) (\<lambda>_.
       ret (subsection_to_domain subsection))))))))"

subsection \<open>Deleting a node\<close>

text \<open>The identifiers come in the order of the identifiers; an empty first result is the missing node.\<close>

definition lock_structure_ids :: "(db \<Rightarrow> 'r list) \<Rightarrow> ('r \<Rightarrow> pystr) \<Rightarrow> ('r \<Rightarrow> bool) \<Rightarrow> pystr list dbm" where
  "lock_structure_ids table ident condition = gets (\<lambda>d. sort (map ident (filter condition (table d))))"

definition subsection_ids_of :: "node_kind \<Rightarrow> pystr \<Rightarrow> pystr list dbm" where
  "subsection_ids_of kind node_id =
     (case kind of
        NODE_SHEET \<Rightarrow>
          bind (lock_structure_ids sheets sh_id (\<lambda>sh. sh_id sh = node_id)) (\<lambda>root_ids.
          if root_ids = [] then raise CompetencyMatrixStructureNotFoundError
          else
            bind (lock_structure_ids sections se_id (\<lambda>se. se_sheet_id se = node_id)) (\<lambda>section_ids.
            lock_structure_ids subsections su_id (\<lambda>su. su_section_id su \<in> set section_ids)))
      | NODE_SECTION \<Rightarrow>
          bind (lock_structure_ids sections se_id (\<lambda>se. se_id se = node_id)) (\<lambda>root_ids.
          if root_ids = [] then raise CompetencyMatrixStructureNotFoundError
          else lock_structure_ids subsections su_id (\<lambda>su. su_section_id su = node_id))
      | NODE_SUBSECTION \<Rightarrow>
          bind (lock_structure_ids subsections su_id (\<lambda>su. su_id su = node_id)) (\<lambda>ids.
          if ids = [] then raise CompetencyMatrixStructureNotFoundError else ret ids))"

definition inspect_structure_deletion :: "node_kind \<Rightarrow> pystr \<Rightarrow> deletion_impact dbm" where
  "inspect_structure_deletion kind node_id =
     bind (subsection_ids_of kind node_id) (\<lambda>ids.
     bind (gets (\<lambda>d. ids \<noteq> [] \<and> (\<exists>i \<in> set (items d). im_subsection_id i \<in> set ids))) (\<lambda>has_questions.
     ret \<lparr>di_subsection_ids = ids, di_has_questions = has_questions\<rparr>))"

text \<open>Items that a statement removes take their resource links with them.\<close>

definition remove_items :: "(item_model \<Rightarrow> bool) \<Rightarrow> db \<Rightarrow> db" where
  "remove_items p d =
     d\<lparr>items := delete_where p (items d),
       resource_links := delete_where (\<lambda>l. \<exists>i \<in> set (items d). p i \<and> im_id i = rl_item_id l) (resource_links d)\<rparr>"

text \<open>\<open>ON DELETE CASCADE\<close> downwards, \<open>ON DELETE RESTRICT\<close> from the questions.\<close>

definition remove_subsections :: "(subsection_model \<Rightarrow> bool) \<Rightarrow> unit dbm" where
  "remove_subsections p =
     bind (gets (\<lambda>d. \<exists>su \<in> set (subsections d). p su \<and> su_id su \<in> im_subsection_id ` set (items d))) (\<lambda>referenced.
     check_constraint (\<not> referenced) StructureReferenced (
     modify (\<lambda>d. d\<lparr>subsections := delete_where p (subsections d)\<rparr>)))"

definition remove_sections :: "(section_model \<Rightarrow> bool) \<Rightarrow> unit dbm" where
  "remove_sections p =
     bind (gets (\<lambda>d. se_id ` set (filter p (sections d)))) (\<lambda>gone.
     bind (remove_subsections (\<lambda>su. su_section_id su \<in> gone)) (\<lambda>_.
     modify (\<lambda>d. d\<lparr>sections := delete_where p (sections d)\<rparr>)))"

definition remove_sheet :: "pystr \<Rightarrow> unit dbm" where
  "remove_sheet sheet_id =
     bind (gets (\<lambda>d. sheet_id \<in> im_sheet_id ` set (items d))) (\<lambda>referenced.
     check_constraint (\<not> referenced) StructureReferenced (
     bind (remove_sections (\<lambda>se. se_sheet_id se = sheet_id)) (\<lambda>_.
     modify (\<lambda>d. d\<lparr>sheets := delete_where (\<lambda>sh. sh_id sh = sheet_id) (sheets d)\<rparr>))))"

definition storage_delete_structure_node :: "node_kind \<Rightarrow> pystr \<Rightarrow> pystr list \<Rightarrow> unit dbm" where
  "storage_delete_structure_node kind node_id subsection_ids =
     bind (when_do (subsection_ids \<noteq> [])
       (modify (remove_items (\<lambda>i. im_subsection_id i \<in> set subsection_ids)))) (\<lambda>_.
     case kind of
       NODE_SHEET \<Rightarrow> remove_sheet node_id
     | NODE_SECTION \<Rightarrow> remove_sections (\<lambda>se. se_id se = node_id)
     | NODE_SUBSECTION \<Rightarrow> remove_subsections (\<lambda>su. su_id su = node_id))"

subsection \<open>Priorities\<close>

definition set_sheet_priority :: "int \<Rightarrow> sheet_model \<Rightarrow> sheet_model" where
  "set_sheet_priority n sh = sh\<lparr>sh_priority := n\<rparr>"

definition set_section_priority :: "int \<Rightarrow> section_model \<Rightarrow> section_model" where
  "set_section_priority n se = se\<lparr>se_priority := n\<rparr>"

definition set_subsection_priority :: "int \<Rightarrow> subsection_model \<Rightarrow> subsection_model" where
  "set_subsection_priority n su = su\<lparr>su_priority := n\<rparr>"

definition storage_update_sheet_priorities :: "pystr list \<Rightarrow> unit dbm" where
  "storage_update_sheet_priorities ordered_ids =
     modify (\<lambda>d. d\<lparr>sheets := update_priorities sh_id set_sheet_priority ordered_ids (sheets d)\<rparr>)"

definition storage_update_section_priorities :: "pystr list \<Rightarrow> unit dbm" where
  "storage_update_section_priorities ordered_ids =
     modify (\<lambda>d. d\<lparr>sections := update_priorities se_id set_section_priority ordered_ids (sections d)\<rparr>)"

definition storage_update_subsection_priorities :: "pystr list \<Rightarrow> unit dbm" where
  "storage_update_subsection_priorities ordered_ids =
     modify (\<lambda>d. d\<lparr>subsections := update_priorities su_id set_subsection_priority ordered_ids (subsections d)\<rparr>)"

subsection \<open>Items\<close>

definition item_links :: "db \<Rightarrow> item_model \<Rightarrow> resource_link list" where
  "item_links d i = filter (\<lambda>l. rl_item_id l = im_id i) (resource_links d)"

definition link_to_domain :: "db \<Rightarrow> resource_link \<Rightarrow> error + attached_resource" where
  "link_to_domain d l =
     (case require AttributeError (row_by er_id (rl_resource_id l) (resources d)) of
        Inl e \<Rightarrow> Inl e
      | Inr r \<Rightarrow> Inr (attach r (rl_context_ru l) (rl_context_en l)))"

text \<open>\<open>to_domain_schema\<close> with the links that are loaded, none without relationships.\<close>

definition item_to_domain :: "db \<Rightarrow> resource_link list \<Rightarrow> item_model \<Rightarrow> error + matrix_item" where
  "item_to_domain d links i =
     (case require AttributeError (row_by su_id (im_subsection_id i) (subsections d)) of
        Inl e \<Rightarrow> Inl e
      | Inr su \<Rightarrow>
          (case to_item_structure d su of
             Inl e \<Rightarrow> Inl e
           | Inr structure \<Rightarrow>
               (case all_or_error (map (link_to_domain d) links) of
                  Inl e \<Rightarrow> Inl e
                | Inr rs \<Rightarrow>
                    Inr \<lparr>mi_id = im_id i, mi_slug = im_slug i, mi_question_ru = im_question_ru i,
                         mi_question_en = im_question_en i, mi_publish_status = im_publish_status i,
                         mi_answer_ru = im_answer_ru i, mi_answer_en = im_answer_en i,
                         mi_explanation_ru = im_explanation_ru i, mi_explanation_en = im_explanation_en i,
                         mi_structure = structure, mi_grade = im_grade i,
                         mi_interview_frequency = im_interview_frequency i,
                         mi_suggested_by_username = im_suggested_by_username i,
                         mi_published_at = im_published_at i, mi_resources = rs\<rparr>)))"

definition get_competency_matrix_item :: "pystr \<Rightarrow> matrix_item dbm" where
  "get_competency_matrix_item item_id =
     bind (gets (\<lambda>d. row_by im_id item_id (items d))) (\<lambda>item.
     case item of
       None \<Rightarrow> raise CompetencyMatrixItemNotFoundError
     | Some i \<Rightarrow> bind (gets (\<lambda>d. item_to_domain d (item_links d i) i)) lift)"

definition get_competency_matrix_item_by_slug :: "pystr \<Rightarrow> pystr \<Rightarrow> matrix_item dbm" where
  "get_competency_matrix_item_by_slug sheet_key slug =
     bind (gets (\<lambda>d. first [i. i \<leftarrow> items d, sh \<leftarrow> sheets d,
       sh_id sh = im_sheet_id i \<and> sh_key sh = sheet_key \<and> im_slug i = slug])) (\<lambda>item.
     case item of
       None \<Rightarrow> raise CompetencyMatrixItemNotFoundError
     | Some i \<Rightarrow> bind (gets (\<lambda>d. item_to_domain d (item_links d i) i)) lift)"

definition item_from_domain :: "env \<Rightarrow> matrix_item \<Rightarrow> item_model" where
  "item_from_domain env i =
     \<lparr>im_id = mi_id i, im_slug = mi_slug i, im_sheet_id = ns_sheet_id (mi_structure i),
      im_question_ru = mi_question_ru i, im_question_en = mi_question_en i,
      im_question_ru_fingerprint = fingerprint_digest env (mi_question_ru i),
      im_question_en_fingerprint = fingerprint_digest env (mi_question_en i),
      im_answer_ru = mi_answer_ru i, im_answer_en = mi_answer_en i, im_explanation_ru = mi_explanation_ru i,
      im_explanation_en = mi_explanation_en i, im_subsection_id = ns_subsection_id (mi_structure i),
      im_grade = mi_grade i, im_interview_frequency = mi_interview_frequency i,
      im_suggested_by_username = mi_suggested_by_username i, im_published_at = mi_published_at i,
      im_publish_status = mi_publish_status i\<rparr>"

definition item_update_from_domain :: "env \<Rightarrow> matrix_item \<Rightarrow> item_model \<Rightarrow> item_model" where
  "item_update_from_domain env i m =
     m\<lparr>im_slug := mi_slug i, im_sheet_id := ns_sheet_id (mi_structure i),
       im_question_ru := mi_question_ru i, im_question_en := mi_question_en i,
       im_question_ru_fingerprint := fingerprint_digest env (mi_question_ru i),
       im_question_en_fingerprint := fingerprint_digest env (mi_question_en i),
       im_answer_ru := mi_answer_ru i, im_answer_en := mi_answer_en i,
       im_publish_status := mi_publish_status i,
       im_published_at := (if mi_published_at i \<noteq> None then mi_published_at i else im_published_at m),
       im_explanation_ru := mi_explanation_ru i, im_explanation_en := mi_explanation_en i,
       im_subsection_id := ns_subsection_id (mi_structure i), im_grade := mi_grade i,
       im_interview_frequency := mi_interview_frequency i\<rparr>"

definition ensure_first_published_at :: "env \<Rightarrow> item_model \<Rightarrow> item_model" where
  "ensure_first_published_at env m =
     (if im_publish_status m = PUBLISHED \<and> im_published_at m = None
      then m\<lparr>im_published_at := Some (env_now env)\<rparr> else m)"

text \<open>\<open>session.merge\<close>: the row with that identifier takes the values, or a new row is added.\<close>

definition merge_resource :: "external_resource \<Rightarrow> external_resource list \<Rightarrow> external_resource list" where
  "merge_resource r rows =
     (if er_id r \<in> er_id ` set rows then update_where (\<lambda>x. er_id x = er_id r) (\<lambda>_. r) rows else rows @ [r])"

definition merge_resources :: "attached_resource list \<Rightarrow> external_resource list \<Rightarrow> external_resource list" where
  "merge_resources rs rows = foldl (\<lambda>acc r. merge_resource (to_external_resource r) acc) rows rs"

text \<open>
  \<open>_build_resource_links\<close>: an attachment whose resource is already linked updates that link (the last
  attachment of a resource wins), the others become new links; links that no attachment names are
  orphans and deleted.
\<close>

definition new_link :: "pystr \<Rightarrow> attached_resource \<Rightarrow> resource_link" where
  "new_link item_id r =
     \<lparr>rl_item_id = item_id, rl_resource_id = at_id r, rl_context_ru = at_context_ru r, rl_context_en = at_context_en r\<rparr>"

definition updated_link :: "attached_resource list \<Rightarrow> resource_link \<Rightarrow> resource_link" where
  "updated_link rs l =
     (case row_by at_id (rl_resource_id l) (rev rs) of
        None \<Rightarrow> l
      | Some r \<Rightarrow> l\<lparr>rl_context_ru := at_context_ru r, rl_context_en := at_context_en r\<rparr>)"

definition new_links :: "pystr \<Rightarrow> resource_link list \<Rightarrow> attached_resource list \<Rightarrow> resource_link list" where
  "new_links item_id existing rs =
     map (new_link item_id) (filter (\<lambda>r. at_id r \<notin> rl_resource_id ` set existing) rs)"

definition replace_item_links :: "pystr \<Rightarrow> attached_resource list \<Rightarrow> resource_link list \<Rightarrow> resource_link list" where
  "replace_item_links item_id rs rows =
     update_where (\<lambda>l. rl_item_id l = item_id) (updated_link rs)
       (delete_where (\<lambda>l. rl_item_id l = item_id \<and> rl_resource_id l \<notin> at_id ` set rs) rows)
     @ new_links item_id (filter (\<lambda>l. rl_item_id l = item_id) rows) rs"

definition slug_free :: "item_model \<Rightarrow> item_model list \<Rightarrow> bool" where
  "slug_free m rows \<longleftrightarrow>
     (\<forall>r \<in> set rows. im_id r = im_id m \<or> im_sheet_id r \<noteq> im_sheet_id m \<or> im_slug r \<noteq> im_slug m)"

text \<open>The mapping of a violated constraint to an exception; the others pass through.\<close>

fun create_item_error :: "error \<Rightarrow> error" where
  "create_item_error (IntegrityError ItemSheetSlugUniq) = CompetencyMatrixItemConflictError"
| "create_item_error (IntegrityError ItemSubsectionForeignKey) = CompetencyMatrixStructureNotFoundError"
| "create_item_error (IntegrityError ResourceForeignKey) = CompetencyMatrixItemNotFoundError"
| "create_item_error e = e"

fun update_item_error :: "error \<Rightarrow> error" where
  "update_item_error (IntegrityError ItemSheetSlugUniq) = CompetencyMatrixItemConflictError"
| "update_item_error e = e"

definition map_error :: "('e \<Rightarrow> 'e) \<Rightarrow> ('e, 's, 'a) action \<Rightarrow> ('e, 's, 'a) action" where
  "map_error h m = bind (attempt m) (\<lambda>r. case r of Inl e \<Rightarrow> raise (h e) | Inr a \<Rightarrow> ret a)"

definition flush_new_item :: "item_model \<Rightarrow> attached_resource list \<Rightarrow> unit dbm" where
  "flush_new_item m rs =
     bind (gets (\<lambda>d. d)) (\<lambda>d.
     check_constraint (im_id m \<notin> im_id ` set (items d)) PrimaryKey (
     check_constraint (slug_free m (items d)) ItemSheetSlugUniq (
     check_constraint (im_subsection_id m \<in> su_id ` set (subsections d)) ItemSubsectionForeignKey (
     check_constraint (im_sheet_id m \<in> sh_id ` set (sheets d)) ItemSheetForeignKey (
     check_constraint (distinct (map at_id rs)) ResourceItemUniq (
     modify (\<lambda>d. d\<lparr>resources := merge_resources rs (resources d), items := items d @ [m],
       resource_links := resource_links d @ map (new_link (im_id m)) rs\<rparr>)))))))"

definition create_competency_matrix_item :: "env \<Rightarrow> matrix_item \<Rightarrow> matrix_item dbm" where
  "create_competency_matrix_item env item =
     (let m = ensure_first_published_at env (item_from_domain env item) in
      bind (map_error create_item_error (flush_new_item m (mi_resources item))) (\<lambda>_.
      get_competency_matrix_item (mi_id item)))"

definition get_competency_matrix_item_model :: "pystr \<Rightarrow> item_model dbm" where
  "get_competency_matrix_item_model item_id =
     bind (gets (\<lambda>d. row_by im_id item_id (items d))) (\<lambda>m.
     lift (require CompetencyMatrixItemNotFoundError m))"

text \<open>
  The update of the row itself.  It is written by the flush inside the \<open>try\<close>, or already by the
  first \<open>session.merge\<close>, outside of it, when the session flushes before a merge.
\<close>

definition flush_item :: "item_model \<Rightarrow> unit dbm" where
  "flush_item m =
     bind (gets (\<lambda>d. d)) (\<lambda>d.
     check_constraint (slug_free m (items d)) ItemSheetSlugUniq (
     check_constraint (im_subsection_id m \<in> su_id ` set (subsections d)) ItemSubsectionForeignKey (
     check_constraint (im_sheet_id m \<in> sh_id ` set (sheets d)) ItemSheetForeignKey (
     modify (\<lambda>d. d\<lparr>items := update_where (\<lambda>r. im_id r = im_id m) (\<lambda>_. m) (items d)\<rparr>)))))"

definition flush_item_links :: "pystr \<Rightarrow> attached_resource list \<Rightarrow> unit dbm" where
  "flush_item_links item_id rs =
     bind (gets (\<lambda>d. filter (\<lambda>l. rl_item_id l = item_id) (resource_links d))) (\<lambda>existing.
     check_constraint (distinct (map rl_resource_id (new_links item_id existing rs))) ResourceItemUniq (
     modify (\<lambda>d. d\<lparr>resources := merge_resources rs (resources d),
       resource_links := replace_item_links item_id rs (resource_links d)\<rparr>)))"

text \<open>The links of the returned item are the list that was assigned, in its order.\<close>

definition assigned_links :: "db \<Rightarrow> pystr \<Rightarrow> attached_resource list \<Rightarrow> resource_link list" where
  "assigned_links d item_id rs =
     concat (map (\<lambda>r. filter (\<lambda>l. rl_item_id l = item_id \<and> rl_resource_id l = at_id r) (resource_links d)) rs)"

definition update_competency_matrix_item :: "env \<Rightarrow> matrix_item \<Rightarrow> matrix_item dbm" where
  "update_competency_matrix_item env item =
     bind (get_competency_matrix_item_model (mi_id item)) (\<lambda>model.
     let m = ensure_first_published_at env (item_update_from_domain env item model);
         early = env_merge_flushes env \<and> mi_resources item \<noteq> [] in
     bind (if early then flush_item m else map_error update_item_error (flush_item m)) (\<lambda>_.
     bind (map_error update_item_error (flush_item_links (mi_id item) (mi_resources item))) (\<lambda>_.
     bind (gets (\<lambda>d. item_to_domain d (assigned_links d (mi_id item) (mi_resources item)) m)) lift)))"

definition update_competency_matrix_item_publish_status :: "env \<Rightarrow> pystr \<Rightarrow> publish_status \<Rightarrow> unit dbm" where
  "update_competency_matrix_item_publish_status env item_id publish_status =
     bind (get_competency_matrix_item_model item_id) (\<lambda>model.
     modify (\<lambda>d. d\<lparr>items := update_where (\<lambda>r. im_id r = item_id)
       (\<lambda>r. ensure_first_published_at env (r\<lparr>im_publish_status := publish_status\<rparr>)) (items d)\<rparr>))"

text \<open>The join with the unnested identifiers: one row per requested identifier that exists.\<close>

definition get_resources_by_ids :: "pystr list \<Rightarrow> external_resource list dbm" where
  "get_resources_by_ids resource_ids =
     gets (\<lambda>d. concat (map (\<lambda>rid. filter (\<lambda>r. er_id r = rid) (resources d)) resource_ids))"

definition delete_competency_matrix_item :: "pystr \<Rightarrow> unit dbm" where
  "delete_competency_matrix_item item_id =
     bind (get_competency_matrix_item_model item_id) (\<lambda>_.
     modify (remove_items (\<lambda>i. im_id i = item_id)))"

subsection \<open>Queue\<close>

definition queued_from_create_params :: "env \<Rightarrow> nat \<Rightarrow> datetime \<Rightarrow> pystr \<Rightarrow> queue_params \<Rightarrow> queued_question_model" where
  "queued_from_create_params env n created_at suggested_by p =
     \<lparr>qm_id = env_new_id env n, qm_question = qp_question p,
      qm_question_fingerprint = fingerprint_digest env (qp_question p), qm_grade = qp_grade p,
      qm_sheet = qp_sheet p, qm_section = None, qm_subsection = None, qm_suggested_by_username = suggested_by,
      qm_created_at = created_at\<rparr>"

definition queued_to_domain :: "queued_question_model \<Rightarrow> queued_question" where
  "queued_to_domain m =
     \<lparr>qq_id = qm_id m, qq_question = qm_question m, qq_grade = qm_grade m, qq_sheet = qm_sheet m,
      qq_section = qm_section m, qq_subsection = qm_subsection m,
      qq_suggested_by_username = qm_suggested_by_username m, qq_created_at = qm_created_at m\<rparr>"

definition list_queued_questions :: "queued_question list dbm" where
  "list_queued_questions = gets (\<lambda>d.
     map queued_to_domain (sort_key (\<lambda>m. (qm_created_at m, qm_id m)) (queued_questions d)))"

definition get_queued_question :: "pystr \<Rightarrow> queued_question dbm" where
  "get_queued_question question_id =
     bind (gets (\<lambda>d. row_by qm_id question_id (queued_questions d))) (\<lambda>m.
     lift (require QueuedCompetencyMatrixQuestionNotFoundError (map_option queued_to_domain m)))"

definition question_suggestion_exists :: "env \<Rightarrow> pystr \<Rightarrow> pystr \<Rightarrow> bool dbm" where
  "question_suggestion_exists env question sheet_key =
     (let digest = fingerprint_digest env question in
      gets (\<lambda>d.
        (\<exists>m \<in> set (queued_questions d). qm_question_fingerprint m = digest \<and> qm_sheet m = Some sheet_key)
        \<or> (\<exists>r \<in> set (join_structure d). case r of (i, su, se, sh) \<Rightarrow>
             sh_key sh = sheet_key
             \<and> (im_question_ru_fingerprint i = digest \<or> im_question_en_fingerprint i = digest))))"

definition add_queued :: "queued_question_model list \<Rightarrow> unit dbm" where
  "add_queued ms =
     bind (gets queued_questions) (\<lambda>rows.
     check_constraint (distinct (map qm_id ms) \<and> qm_id ` set ms \<inter> qm_id ` set rows = {}) PrimaryKey (
     modify (\<lambda>d. d\<lparr>queued_questions := queued_questions d @ ms\<rparr>)))"

definition create_queued_question :: "env \<Rightarrow> queue_params \<Rightarrow> pystr \<Rightarrow> queued_question dbm" where
  "create_queued_question env p suggested_by =
     (let question = queued_from_create_params env 0 (env_now env) suggested_by p in
      bind (add_queued [question]) (\<lambda>_.
      bind (increment (date_of (qm_created_at question)) KIND_SUGGESTIONS
        (case qp_sheet p of None \<Rightarrow> u ''unassigned'' | Some key \<Rightarrow> if key = [] then u ''unassigned'' else key)
        SRC_UNKNOWN (no_increments\<lparr>ic_suggestions := 1\<rparr>)) (\<lambda>_.
      ret (queued_to_domain question))))"

definition create_queued_questions :: "env \<Rightarrow> queue_params list \<Rightarrow> pystr \<Rightarrow> queued_question list dbm" where
  "create_queued_questions env ps suggested_by =
     (let questions = map (\<lambda>(n, p). queued_from_create_params env n (env_now env) suggested_by p)
        (zip [0..<length ps] ps) in
      bind (add_queued questions) (\<lambda>_.
      ret (map queued_to_domain questions)))"

definition storage_delete_queued_question :: "pystr \<Rightarrow> unit dbm" where
  "storage_delete_queued_question question_id =
     bind (gets (\<lambda>d. row_by qm_id question_id (queued_questions d))) (\<lambda>m.
     if m = None then raise QueuedCompetencyMatrixQuestionNotFoundError
     else modify (\<lambda>d. d\<lparr>queued_questions := delete_where (\<lambda>q. qm_id q = question_id) (queued_questions d)\<rparr>))"

section \<open>Use cases\<close>

definition delete_structure_node :: "node_kind \<Rightarrow> pystr \<Rightarrow> bool \<Rightarrow> unit dbm" where
  "delete_structure_node kind node_id delete_with_questions =
     bind (inspect_structure_deletion kind node_id) (\<lambda>impact.
     if di_has_questions impact \<and> \<not> delete_with_questions then raise CompetencyMatrixStructureContainsQuestionsError
     else storage_delete_structure_node kind node_id (di_subsection_ids impact))"

definition update_sheet_priorities :: "pystr list \<Rightarrow> unit dbm" where
  "update_sheet_priorities ordered_ids =
     bind list_structure (\<lambda>structure.
     bind (ensure_sheet_priority_order_matches structure ordered_ids) (\<lambda>_.
     storage_update_sheet_priorities ordered_ids))"

definition update_section_priorities :: "pystr \<Rightarrow> pystr list \<Rightarrow> unit dbm" where
  "update_section_priorities sheet_id ordered_ids =
     bind list_structure (\<lambda>structure.
     bind (require_sheet structure sheet_id) (\<lambda>sheet.
     bind (ensure_section_priority_order_matches sheet ordered_ids) (\<lambda>_.
     storage_update_section_priorities ordered_ids)))"

definition update_subsection_priorities :: "pystr \<Rightarrow> pystr list \<Rightarrow> unit dbm" where
  "update_subsection_priorities section_id ordered_ids =
     bind list_structure (\<lambda>structure.
     bind (require_section structure section_id) (\<lambda>section.
     bind (ensure_subsection_priority_order_matches section ordered_ids) (\<lambda>_.
     storage_update_subsection_priorities ordered_ids)))"

definition get_item :: "pystr \<Rightarrow> bool \<Rightarrow> matrix_item dbm" where
  "get_item item_id only_published =
     bind (get_competency_matrix_item item_id) (\<lambda>item.
     if only_published \<and> \<not> item_is_available item then raise CompetencyMatrixItemNotFoundError else ret item)"

definition get_item_by_slug :: "pystr \<Rightarrow> pystr \<Rightarrow> bool \<Rightarrow> matrix_item dbm" where
  "get_item_by_slug sheet_key slug only_published =
     bind (get_competency_matrix_item_by_slug sheet_key slug) (\<lambda>item.
     if only_published \<and> \<not> item_is_available item then raise CompetencyMatrixItemNotFoundError else ret item)"

text \<open>The lines that the three write operations share: resources to assign, structure, and the item.\<close>

definition assigned_resources :: "item_params \<Rightarrow> external_resource list dbm" where
  "assigned_resources p =
     (let ids = get_resource_ids_to_assign p in
      bind (if ids \<noteq> [] then get_resources_by_ids ids else ret []) (\<lambda>rs.
      if \<not> all_resources_exists_by_ids rs (set ids) then raise CompetencyMatrixItemNotFoundError else ret rs))"

definition ensure_ready_if_published :: "matrix_item \<Rightarrow> unit dbm" where
  "ensure_ready_if_published item = when_do (mi_publish_status item = PUBLISHED) (ensure_public_ready item)"

definition create_item :: "env \<Rightarrow> publication_access \<Rightarrow> item_params \<Rightarrow> pystr \<Rightarrow> matrix_item dbm" where
  "create_item env pub p suggested_by =
     bind (ensure_allowed pub [ip_publish_status p]) (\<lambda>_.
     bind (assigned_resources p) (\<lambda>rs.
     bind (get_item_structure_by_subsection_id (ip_subsection_id p)) (\<lambda>structure.
     let item = to_item p rs structure None suggested_by in
     bind (ensure_ready_if_published item) (\<lambda>_.
     create_competency_matrix_item env item))))"

definition create_item_from_queue ::
  "env \<Rightarrow> publication_access \<Rightarrow> pystr \<Rightarrow> item_params \<Rightarrow> matrix_item dbm" where
  "create_item_from_queue env pub queued_question_id p =
     bind (ensure_allowed pub [ip_publish_status p]) (\<lambda>_.
     bind (get_queued_question queued_question_id) (\<lambda>queued.
     bind (assigned_resources p) (\<lambda>rs.
     bind (get_item_structure_by_subsection_id (ip_subsection_id p)) (\<lambda>structure.
     let item = to_item p rs structure None (qq_suggested_by_username queued) in
     bind (ensure_ready_if_published item) (\<lambda>_.
     bind (create_competency_matrix_item env item) (\<lambda>created.
     bind (storage_delete_queued_question queued_question_id) (\<lambda>_.
     ret created)))))))"

definition update_item :: "env \<Rightarrow> publication_access \<Rightarrow> item_params \<Rightarrow> matrix_item dbm" where
  "update_item env pub p =
     bind (assigned_resources p) (\<lambda>rs.
     bind (get_item_structure_by_subsection_id (ip_subsection_id p)) (\<lambda>structure.
     bind (get_competency_matrix_item (ip_id p)) (\<lambda>existing.
     bind (ensure_allowed pub [mi_publish_status existing, ip_publish_status p]) (\<lambda>_.
     let item = to_item p rs structure None (mi_suggested_by_username existing) in
     bind (ensure_ready_if_published item) (\<lambda>_.
     update_competency_matrix_item env item)))))"

definition delete_item :: "publication_access \<Rightarrow> pystr \<Rightarrow> unit dbm" where
  "delete_item pub item_id =
     bind (get_competency_matrix_item item_id) (\<lambda>item.
     bind (ensure_allowed pub [mi_publish_status item]) (\<lambda>_.
     delete_competency_matrix_item item_id))"

definition switch_item_publish_status ::
  "env \<Rightarrow> publication_access \<Rightarrow> pystr \<Rightarrow> publish_status \<Rightarrow> unit dbm" where
  "switch_item_publish_status env pub item_id publish_status =
     bind (ensure_allowed pub [PUBLISHED]) (\<lambda>_.
     bind (if publish_status = PUBLISHED
           then bind (get_competency_matrix_item item_id) ensure_public_ready else ret ()) (\<lambda>_.
     update_competency_matrix_item_publish_status env item_id publish_status))"

subsection \<open>Suggestions\<close>

text \<open>
  A suggestion works on the database and on the quota store; the database rolls back when the
  request fails, the quota store does not.
\<close>

definition on_db :: "'a dbm \<Rightarrow> (error, db \<times> 'q, 'a) action" where
  "on_db m = (\<lambda>(d, q). case m d of (r, d') \<Rightarrow> (r, (d', q)))"

definition on_quota :: "(error, 'q, 'a) action \<Rightarrow> (error, db \<times> 'q, 'a) action" where
  "on_quota m = (\<lambda>(d, q). case m q of (r, q') \<Rightarrow> (r, (d, q')))"

record suggestion_params =
  sg_question :: queue_params
  sg_limit :: "limit_params option"
  sg_suggested_by_username :: pystr
  sg_reject_duplicates :: bool
  sg_validate_public_sheet :: bool

definition suggest_question ::
  "env \<Rightarrow> 'q valkey_ops \<Rightarrow> pystr \<Rightarrow> limiter_config \<Rightarrow> suggestion_params \<Rightarrow> (error, db \<times> 'q, queued_question) action" where
  "suggest_question env ops ns cfg p =
     (let sheet_key = qp_sheet (sg_question p) in
      bind (on_db list_sheets) (\<lambda>public_sheets.
      bind (ensure (\<not> (sg_validate_public_sheet p
          \<and> (case sheet_key of None \<Rightarrow> True | Some key \<Rightarrow> \<not> has_key key public_sheets)))
        QuestionSuggestionSheetUnavailableError) (\<lambda>_.
      bind (if sg_reject_duplicates p
            then (case sheet_key of
                    None \<Rightarrow> raise QuestionSuggestionSheetUnavailableError
                  | Some key \<Rightarrow>
                      bind (on_db (question_suggestion_exists env (qp_question (sg_question p)) key)) (\<lambda>exists.
                      ensure (\<not> exists) QuestionSuggestionAlreadyExistsError))
            else ret ()) (\<lambda>_.
      bind (case sg_limit p of
              None \<Rightarrow> ret ()
            | Some limit \<Rightarrow> on_quota (check_create_allowed env ops ns cfg limit)) (\<lambda>_.
      on_db (create_queued_question env (sg_question p) (sg_suggested_by_username p)))))))"

definition delete_queued_question :: "pystr \<Rightarrow> unit dbm" where
  "delete_queued_question question_id =
     bind (get_queued_question question_id) (\<lambda>_. storage_delete_queued_question question_id)"

definition import_queued_questions :: "env \<Rightarrow> queue_params list \<Rightarrow> pystr \<Rightarrow> queued_question list dbm" where
  "import_queued_questions env ps suggested_by = create_queued_questions env ps suggested_by"

end
