(* ===== verification/Matrix_Invariant.thy ===== *)
theory Matrix_Invariant
  imports Matrix
begin

text \<open>
  The invariant of the competency matrix and its preservation by every write operation: the
  structure is a tree with unique names among siblings, every question is placed in a subsection of
  its own sheet under a slug that is unique there, a published question has its publication date and
  all publication fields, links connect existing rows, and the stored digests are those of the stored
  texts under the hash function \<open>h\<close>.
\<close>

section \<open>The invariant\<close>

definition structure_keys_inv :: "db \<Rightarrow> bool" where
  "structure_keys_inv d \<longleftrightarrow>
     distinct (map sh_id (sheets d)) \<and> distinct (map se_id (sections d)) \<and> distinct (map su_id (subsections d))
     \<and> distinct (map (\<lambda>sh. lower (sh_key sh)) (sheets d))
     \<and> distinct (map (\<lambda>se. (se_sheet_id se, lower (se_name_ru se))) (sections d))
     \<and> distinct (map (\<lambda>se. (se_sheet_id se, lower (se_name_en se))) (sections d))
     \<and> distinct (map (\<lambda>su. (su_section_id su, lower (su_name_ru su))) (subsections d))
     \<and> distinct (map (\<lambda>su. (su_section_id su, lower (su_name_en su))) (subsections d))"

definition structure_refs_inv :: "db \<Rightarrow> bool" where
  "structure_refs_inv d \<longleftrightarrow>
     se_sheet_id ` set (sections d) \<subseteq> sh_id ` set (sheets d)
     \<and> su_section_id ` set (subsections d) \<subseteq> se_id ` set (sections d)"

text \<open>The pairs of a subsection and the sheet above it.\<close>

definition subsection_sheets :: "db \<Rightarrow> (pystr \<times> pystr) set" where
  "subsection_sheets d =
     {(su_id su, se_sheet_id se) | su se. su \<in> set (subsections d) \<and> se \<in> set (sections d) \<and> se_id se = su_section_id su}"

definition ready :: "item_model \<Rightarrow> bool" where
  "ready m \<longleftrightarrow> strip (im_slug m) \<noteq> [] \<and> im_grade m \<noteq> None \<and> strip (im_question_ru m) \<noteq> []
     \<and> strip (im_question_en m) \<noteq> [] \<and> strip (im_answer_ru m) \<noteq> [] \<and> strip (im_answer_en m) \<noteq> []
     \<and> strip (im_explanation_ru m) \<noteq> [] \<and> strip (im_explanation_en m) \<noteq> []"

definition item_ok :: "(pystr \<Rightarrow> pystr) \<Rightarrow> item_model \<Rightarrow> bool" where
  "item_ok h m \<longleftrightarrow>
     im_question_ru_fingerprint m = h (fingerprint_value (im_question_ru m))
     \<and> im_question_en_fingerprint m = h (fingerprint_value (im_question_en m))
     \<and> (im_publish_status m = PUBLISHED \<longrightarrow> ready m \<and> im_published_at m \<noteq> None)"

definition items_inv :: "(pystr \<Rightarrow> pystr) \<Rightarrow> db \<Rightarrow> bool" where
  "items_inv h d \<longleftrightarrow>
     distinct (map im_id (items d)) \<and> distinct (map (\<lambda>m. (im_sheet_id m, im_slug m)) (items d))
     \<and> (\<lambda>m. (im_subsection_id m, im_sheet_id m)) ` set (items d) \<subseteq> subsection_sheets d
     \<and> (\<forall>m \<in> set (items d). item_ok h m)"

definition links_inv :: "db \<Rightarrow> bool" where
  "links_inv d \<longleftrightarrow>
     distinct (map er_id (resources d)) \<and> distinct (map (\<lambda>l. (rl_item_id l, rl_resource_id l)) (resource_links d))
     \<and> rl_item_id ` set (resource_links d) \<subseteq> im_id ` set (items d)
     \<and> rl_resource_id ` set (resource_links d) \<subseteq> er_id ` set (resources d)"

definition queue_inv :: "(pystr \<Rightarrow> pystr) \<Rightarrow> db \<Rightarrow> bool" where
  "queue_inv h d \<longleftrightarrow>
     distinct (map qm_id (queued_questions d))
     \<and> (\<forall>m \<in> set (queued_questions d). qm_question_fingerprint m = h (fingerprint_value (qm_question m)))"

definition matrix_inv :: "(pystr \<Rightarrow> pystr) \<Rightarrow> db \<Rightarrow> bool" where
  "matrix_inv h d \<longleftrightarrow> structure_keys_inv d \<and> structure_refs_inv d \<and> items_inv h d \<and> links_inv d \<and> queue_inv h d"

lemma matrix_invI:
  "structure_keys_inv d \<Longrightarrow> structure_refs_inv d \<Longrightarrow> items_inv h d \<Longrightarrow> links_inv d \<Longrightarrow> queue_inv h d \<Longrightarrow> matrix_inv h d"
  by (simp add: matrix_inv_def)

lemma matrix_invD:
  assumes "matrix_inv h d"
  shows "structure_keys_inv d" "structure_refs_inv d" "items_inv h d" "links_inv d" "queue_inv h d"
  using assms by (simp_all add: matrix_inv_def)

lemma matrix_inv_empty: "matrix_inv h empty_db"
  by (simp add: matrix_inv_def structure_keys_inv_def structure_refs_inv_def items_inv_def links_inv_def queue_inv_def
      empty_db_def)

lemma structure_facts:
  assumes "matrix_inv h d"
  shows "distinct (map sh_id (sheets d))" "distinct (map se_id (sections d))" "distinct (map su_id (subsections d))"
    "distinct (map (\<lambda>sh. lower (sh_key sh)) (sheets d))"
    "se_sheet_id ` set (sections d) \<subseteq> sh_id ` set (sheets d)"
    "su_section_id ` set (subsections d) \<subseteq> se_id ` set (sections d)"
  using matrix_invD(1,2)[OF assms] by (simp_all add: structure_keys_inv_def structure_refs_inv_def)

lemma item_facts:
  assumes "matrix_inv h d"
  shows "distinct (map im_id (items d))" "distinct (map (\<lambda>m. (im_sheet_id m, im_slug m)) (items d))"
    "(\<lambda>m. (im_subsection_id m, im_sheet_id m)) ` set (items d) \<subseteq> subsection_sheets d"
    "\<And>m. m \<in> set (items d) \<Longrightarrow> item_ok h m"
  using matrix_invD(3)[OF assms] by (simp_all add: items_inv_def)

lemma link_facts:
  assumes "matrix_inv h d"
  shows "distinct (map er_id (resources d))" "distinct (map (\<lambda>l. (rl_item_id l, rl_resource_id l)) (resource_links d))"
    "rl_item_id ` set (resource_links d) \<subseteq> im_id ` set (items d)"
    "rl_resource_id ` set (resource_links d) \<subseteq> er_id ` set (resources d)"
  using matrix_invD(4)[OF assms] by (simp_all add: links_inv_def)

text \<open>Each group of conjuncts depends on its own tables.\<close>

lemma structure_keys_inv_cong:
  "sheets d' = sheets d \<Longrightarrow> sections d' = sections d \<Longrightarrow> subsections d' = subsections d \<Longrightarrow>
   structure_keys_inv d' = structure_keys_inv d"
  by (simp add: structure_keys_inv_def)

lemma structure_refs_inv_cong:
  "sh_id ` set (sheets d') = sh_id ` set (sheets d) \<Longrightarrow> sections d' = sections d \<Longrightarrow> subsections d' = subsections d \<Longrightarrow>
   structure_refs_inv d' = structure_refs_inv d"
  by (simp add: structure_refs_inv_def)

lemma items_inv_cong:
  "items d' = items d \<Longrightarrow> sections d' = sections d \<Longrightarrow> subsections d' = subsections d \<Longrightarrow> items_inv h d' = items_inv h d"
  by (simp add: items_inv_def subsection_sheets_def)

lemma links_inv_cong:
  "im_id ` set (items d') = im_id ` set (items d) \<Longrightarrow> resources d' = resources d \<Longrightarrow> resource_links d' = resource_links d \<Longrightarrow>
   links_inv d' = links_inv d"
  by (simp add: links_inv_def)

lemma queue_inv_cong: "queued_questions d' = queued_questions d \<Longrightarrow> queue_inv h d' = queue_inv h d"
  by (simp add: queue_inv_def)

lemma matrix_inv_cong:
  "sheets d' = sheets d \<Longrightarrow> sections d' = sections d \<Longrightarrow> subsections d' = subsections d \<Longrightarrow> items d' = items d \<Longrightarrow>
   resources d' = resources d \<Longrightarrow> resource_links d' = resource_links d \<Longrightarrow> queued_questions d' = queued_questions d \<Longrightarrow>
   matrix_inv h d' = matrix_inv h d"
  unfolding matrix_inv_def
  using structure_keys_inv_cong[of d' d] structure_refs_inv_cong[of d' d] items_inv_cong[of d' d h]
    links_inv_cong[of d' d] queue_inv_cong[of d' d h]
  by simp

section \<open>Structure\<close>

interpretation sheet_table: priority_table sh_id sh_priority set_sheet_priority
  by unfold_locales (simp_all add: set_sheet_priority_def)

interpretation section_table: priority_table se_id se_priority set_section_priority
  by unfold_locales (simp_all add: set_section_priority_def)

interpretation subsection_table: priority_table su_id su_priority set_subsection_priority
  by unfold_locales (simp_all add: set_subsection_priority_def)

lemma subsection_sheets_mono:
  "set (sections d) \<subseteq> set (sections d') \<Longrightarrow> set (subsections d) \<subseteq> set (subsections d') \<Longrightarrow>
   subsection_sheets d \<subseteq> subsection_sheets d'"
  by (auto simp: subsection_sheets_def)

lemma items_inv_mono:
  "items_inv h d \<Longrightarrow> items d' = items d \<Longrightarrow> set (sections d) \<subseteq> set (sections d') \<Longrightarrow>
   set (subsections d) \<subseteq> set (subsections d') \<Longrightarrow> items_inv h d'"
  using subsection_sheets_mono[of d d'] unfolding items_inv_def by (metis subset_trans)

lemma same_row: "distinct (map key rows) \<Longrightarrow> x \<in> set rows \<Longrightarrow> y \<in> set rows \<Longrightarrow> key x = key y \<Longrightarrow> x = y"
  by (simp add: distinct_map inj_on_def)

lemma row_by_key: "row_by key k rows = Some r \<Longrightarrow> k \<in> key ` set rows"
  by (auto dest: row_by_SomeD)

lemma create_sheet_keeps: "keeps (matrix_inv h) (create_sheet env p)"
proof (rule keepsI)
  fix d assume inv: "matrix_inv h d"
  have "matrix_inv h (d\<lparr>sheets := sheets d @ [sh]\<rparr>)"
    if "sh_id sh \<notin> sh_id ` set (sheets d)" "\<forall>x \<in> set (sheets d). lower (sh_key x) \<noteq> lower (sh_key sh)" for sh
  proof (rule matrix_invI)
    show "structure_keys_inv (d\<lparr>sheets := sheets d @ [sh]\<rparr>)"
      using matrix_invD(1)[OF inv] that unfolding structure_keys_inv_def by auto
    show "structure_refs_inv (d\<lparr>sheets := sheets d @ [sh]\<rparr>)"
      using matrix_invD(2)[OF inv] by (auto simp: structure_refs_inv_def)
  qed (use matrix_invD[OF inv] items_inv_cong[of "d\<lparr>sheets := sheets d @ [sh]\<rparr>" d h]
        links_inv_cong[of "d\<lparr>sheets := sheets d @ [sh]\<rparr>" d] queue_inv_cong[of "d\<lparr>sheets := sheets d @ [sh]\<rparr>" d h] in simp_all)
  then show "matrix_inv h (snd (create_sheet env p d))"
    using inv by (simp add: create_sheet_def sheet_exists_by_key_def next_sheet_priority_def run_simps Let_def)
qed

lemma create_section_keeps: "keeps (matrix_inv h) (create_section env p)"
proof (rule keepsI)
  fix d assume inv: "matrix_inv h d"
  have "matrix_inv h (d\<lparr>sections := sections d @ [se]\<rparr>)"
    if new: "se_id se \<notin> se_id ` set (sections d)" "se_sheet_id se \<in> sh_id ` set (sheets d)"
      "\<forall>x \<in> set (sections d). se_sheet_id x = se_sheet_id se \<longrightarrow>
         lower (se_name_ru x) \<noteq> lower (se_name_ru se) \<and> lower (se_name_en x) \<noteq> lower (se_name_en se)" for se
  proof (rule matrix_invI)
    show "structure_keys_inv (d\<lparr>sections := sections d @ [se]\<rparr>)"
      using matrix_invD(1)[OF inv] new unfolding structure_keys_inv_def by fastforce
    show "structure_refs_inv (d\<lparr>sections := sections d @ [se]\<rparr>)"
      using matrix_invD(2)[OF inv] new by (auto simp: structure_refs_inv_def)
    show "items_inv h (d\<lparr>sections := sections d @ [se]\<rparr>)"
      using matrix_invD(3)[OF inv] by (rule items_inv_mono) auto
  qed (use matrix_invD(4,5)[OF inv] links_inv_cong[of "d\<lparr>sections := sections d @ [se]\<rparr>" d]
        queue_inv_cong[of "d\<lparr>sections := sections d @ [se]\<rparr>" d h] in simp_all)
  note added = this
  show "matrix_inv h (snd (create_section env p d))"
  proof (cases "row_by sh_id (sep_sheet_id p) (sheets d)")
    case None
    then show ?thesis using inv by (simp add: create_section_def get_sheet_model_def section_exists_by_name_def next_section_priority_def require_def
        run_simps Let_def)
  next
    case (Some r)
    then show ?thesis using inv row_by_key[OF Some]
      by (auto simp: create_section_def get_sheet_model_def section_exists_by_name_def next_section_priority_def require_def
        run_simps Let_def intro!: added)
  qed
qed

lemma create_subsection_keeps: "keeps (matrix_inv h) (create_subsection env p)"
proof (rule keepsI)
  fix d assume inv: "matrix_inv h d"
  have "matrix_inv h (d\<lparr>subsections := subsections d @ [su]\<rparr>)"
    if new: "su_id su \<notin> su_id ` set (subsections d)" "su_section_id su \<in> se_id ` set (sections d)"
      "\<forall>x \<in> set (subsections d). su_section_id x = su_section_id su \<longrightarrow>
         lower (su_name_ru x) \<noteq> lower (su_name_ru su) \<and> lower (su_name_en x) \<noteq> lower (su_name_en su)" for su
  proof (rule matrix_invI)
    show "structure_keys_inv (d\<lparr>subsections := subsections d @ [su]\<rparr>)"
      using matrix_invD(1)[OF inv] new unfolding structure_keys_inv_def by fastforce
    show "structure_refs_inv (d\<lparr>subsections := subsections d @ [su]\<rparr>)"
      using matrix_invD(2)[OF inv] new by (auto simp: structure_refs_inv_def)
    show "items_inv h (d\<lparr>subsections := subsections d @ [su]\<rparr>)"
      using matrix_invD(3)[OF inv] by (rule items_inv_mono) auto
  qed (use matrix_invD(4,5)[OF inv] links_inv_cong[of "d\<lparr>subsections := subsections d @ [su]\<rparr>" d]
        queue_inv_cong[of "d\<lparr>subsections := subsections d @ [su]\<rparr>" d h] in simp_all)
  note added = this
  show "matrix_inv h (snd (create_subsection env p d))"
  proof (cases "row_by se_id (sup_section_id p) (sections d)")
    case None
    then show ?thesis using inv by (simp add: create_subsection_def get_section_model_def subsection_exists_by_name_def next_subsection_priority_def
        require_def run_simps Let_def)
  next
    case (Some r)
    then show ?thesis using inv row_by_key[OF Some]
      by (auto simp: create_subsection_def get_section_model_def subsection_exists_by_name_def next_subsection_priority_def
        require_def run_simps Let_def intro!: added)
  qed
qed

text \<open>Reordering changes priorities only.\<close>

lemma subsection_sheets_links:
  "subsection_sheets d =
     {(s, sheet). \<exists>sec. (s, sec) \<in> (\<lambda>su. (su_id su, su_section_id su)) ` set (subsections d)
        \<and> (sec, sheet) \<in> (\<lambda>se. (se_id se, se_sheet_id se)) ` set (sections d)}"
  by (auto simp: subsection_sheets_def image_iff) metis+

lemma set_map_eq: "map f xs = map f ys \<Longrightarrow> f ` set xs = f ` set ys"
  by (metis list.set_map)

lemma matrix_inv_reordered:
  assumes inv: "matrix_inv h d"
    and shs: "\<And>f :: sheet_model \<Rightarrow> pystr. (\<And>n sh. f (set_sheet_priority n sh) = f sh) \<Longrightarrow> map f shs = map f (sheets d)"
    and ses: "\<And>f :: section_model \<Rightarrow> pystr \<times> pystr. (\<And>n se. f (set_section_priority n se) = f se) \<Longrightarrow> map f ses = map f (sections d)"
    and sus: "\<And>f :: subsection_model \<Rightarrow> pystr \<times> pystr. (\<And>n su. f (set_subsection_priority n su) = f su) \<Longrightarrow>
      map f sus = map f (subsections d)"
  shows "matrix_inv h (d\<lparr>sheets := shs, sections := ses, subsections := sus\<rparr>)"
proof -
  let ?d = "d\<lparr>sheets := shs, sections := ses, subsections := sus\<rparr>"
  have sh: "map sh_id shs = map sh_id (sheets d)" "map (\<lambda>sh. lower (sh_key sh)) shs = map (\<lambda>sh. lower (sh_key sh)) (sheets d)"
    by (rule shs, simp add: set_sheet_priority_def)+
  have se2: "map (\<lambda>se. (se_sheet_id se, lower (se_name_ru se))) ses = map (\<lambda>se. (se_sheet_id se, lower (se_name_ru se))) (sections d)"
    "map (\<lambda>se. (se_sheet_id se, lower (se_name_en se))) ses = map (\<lambda>se. (se_sheet_id se, lower (se_name_en se))) (sections d)"
    "map (\<lambda>se. (se_id se, se_sheet_id se)) ses = map (\<lambda>se. (se_id se, se_sheet_id se)) (sections d)"
    by (rule ses, simp add: set_section_priority_def)+
  have su2: "map (\<lambda>su. (su_section_id su, lower (su_name_ru su))) sus = map (\<lambda>su. (su_section_id su, lower (su_name_ru su))) (subsections d)"
    "map (\<lambda>su. (su_section_id su, lower (su_name_en su))) sus = map (\<lambda>su. (su_section_id su, lower (su_name_en su))) (subsections d)"
    "map (\<lambda>su. (su_id su, su_section_id su)) sus = map (\<lambda>su. (su_id su, su_section_id su)) (subsections d)"
    by (rule sus, simp add: set_subsection_priority_def)+
  have se1: "map se_id ses = map se_id (sections d)" "map se_sheet_id ses = map se_sheet_id (sections d)"
    using arg_cong[OF se2(3), of "map fst"] arg_cong[OF se2(3), of "map snd"] by (simp_all add: comp_def)
  have su1: "map su_id sus = map su_id (subsections d)" "map su_section_id sus = map su_section_id (subsections d)"
    using arg_cong[OF su2(3), of "map fst"] arg_cong[OF su2(3), of "map snd"] by (simp_all add: comp_def)
  have placed: "subsection_sheets ?d = subsection_sheets d"
    unfolding subsection_sheets_links using set_map_eq[OF se2(3)] set_map_eq[OF su2(3)] by simp
  show ?thesis
  proof (rule matrix_invI)
    show "structure_keys_inv ?d" using matrix_invD(1)[OF inv] by (simp add: structure_keys_inv_def sh se1 se2 su1 su2)
    show "structure_refs_inv ?d"
      using matrix_invD(2)[OF inv] set_map_eq[OF sh(1)] set_map_eq[OF se1(1)] set_map_eq[OF se1(2)] set_map_eq[OF su1(2)]
      by (simp add: structure_refs_inv_def)
    show "items_inv h ?d" using matrix_invD(3)[OF inv] placed by (simp add: items_inv_def)
  qed (use matrix_invD(4,5)[OF inv] links_inv_cong[of ?d d] queue_inv_cong[of ?d d h] in simp_all)
qed

lemma keeps_ensure_order [keeps_intros]:
  "keeps I (ensure_sheet_priority_order_matches st ids)" "keeps I (ensure_section_priority_order_matches sheet ids)"
  "keeps I (ensure_subsection_priority_order_matches sec ids)" "keeps I (require_sheet st i)" "keeps I (require_section st i)"
  by (simp_all add: ensure_sheet_priority_order_matches_def ensure_section_priority_order_matches_def
      ensure_subsection_priority_order_matches_def ensure_order_matches_def require_sheet_def require_section_def keeps_intros)

lemma update_sheet_priorities_keeps: "keeps (matrix_inv h) (update_sheet_priorities ids)"
proof -
  have "matrix_inv h (d\<lparr>sheets := update_priorities sh_id set_sheet_priority ids (sheets d)\<rparr>)" if "matrix_inv h d" for d
    using matrix_inv_reordered[OF that, of "update_priorities sh_id set_sheet_priority ids (sheets d)" "sections d" "subsections d"]
    by (simp add: sheet_table.attributes_kept)
  then show ?thesis
    unfolding update_sheet_priorities_def list_structure_def storage_update_sheet_priorities_def
    by (intro keeps_intros keeps_modify)
qed

lemma update_section_priorities_keeps: "keeps (matrix_inv h) (update_section_priorities sheet_id ids)"
proof -
  have "matrix_inv h (d\<lparr>sections := update_priorities se_id set_section_priority ids (sections d)\<rparr>)" if "matrix_inv h d" for d
    using matrix_inv_reordered[OF that, of "sheets d" "update_priorities se_id set_section_priority ids (sections d)" "subsections d"]
    by (simp add: section_table.attributes_kept)
  then show ?thesis
    unfolding update_section_priorities_def list_structure_def storage_update_section_priorities_def
    by (intro keeps_intros keeps_modify)
qed

lemma update_subsection_priorities_keeps: "keeps (matrix_inv h) (update_subsection_priorities section_id ids)"
proof -
  have "matrix_inv h (d\<lparr>subsections := update_priorities su_id set_subsection_priority ids (subsections d)\<rparr>)" if "matrix_inv h d" for d
    using matrix_inv_reordered[OF that, of "sheets d" "sections d" "update_priorities su_id set_subsection_priority ids (subsections d)"]
    by (simp add: subsection_table.attributes_kept)
  then show ?thesis
    unfolding update_subsection_priorities_def list_structure_def storage_update_subsection_priorities_def
    by (intro keeps_intros keeps_modify)
qed

section \<open>Deleting a subtree\<close>

text \<open>What a deletion is meant to remove: the node, everything below it, and the links of the questions.\<close>

definition section_below :: "node_kind \<Rightarrow> pystr \<Rightarrow> section_model \<Rightarrow> bool" where
  "section_below kind i se \<longleftrightarrow>
     (case kind of NODE_SHEET \<Rightarrow> se_sheet_id se = i | NODE_SECTION \<Rightarrow> se_id se = i | NODE_SUBSECTION \<Rightarrow> False)"

definition subsection_below :: "node_kind \<Rightarrow> pystr \<Rightarrow> db \<Rightarrow> subsection_model \<Rightarrow> bool" where
  "subsection_below kind i d su \<longleftrightarrow>
     (case kind of
        NODE_SUBSECTION \<Rightarrow> su_id su = i
      | _ \<Rightarrow> \<exists>se \<in> set (sections d). section_below kind i se \<and> se_id se = su_section_id su)"

definition item_below :: "node_kind \<Rightarrow> pystr \<Rightarrow> db \<Rightarrow> item_model \<Rightarrow> bool" where
  "item_below kind i d m \<longleftrightarrow> (\<exists>su \<in> set (subsections d). subsection_below kind i d su \<and> su_id su = im_subsection_id m)"

definition remove_subtree :: "node_kind \<Rightarrow> pystr \<Rightarrow> db \<Rightarrow> db" where
  "remove_subtree kind i d =
     d\<lparr>sheets := filter (\<lambda>sh. \<not> (kind = NODE_SHEET \<and> sh_id sh = i)) (sheets d),
       sections := filter (\<lambda>se. \<not> section_below kind i se) (sections d),
       subsections := filter (\<lambda>su. \<not> subsection_below kind i d su) (subsections d),
       items := filter (\<lambda>m. \<not> item_below kind i d m) (items d),
       resource_links := filter (\<lambda>l. \<not> (\<exists>m \<in> set (items d). item_below kind i d m \<and> im_id m = rl_item_id l)) (resource_links d)\<rparr>"

definition node_exists :: "node_kind \<Rightarrow> pystr \<Rightarrow> db \<Rightarrow> bool" where
  "node_exists kind i d \<longleftrightarrow>
     (case kind of
        NODE_SHEET \<Rightarrow> i \<in> sh_id ` set (sheets d)
      | NODE_SECTION \<Rightarrow> i \<in> se_id ` set (sections d)
      | NODE_SUBSECTION \<Rightarrow> i \<in> su_id ` set (subsections d))"

lemma sort_Nil_iff [simp]: "sort xs = [] \<longleftrightarrow> xs = []"
  using sort_key_Nil_iff[of "\<lambda>x. x" xs] by simp

lemma subsection_ids_run:
  assumes "matrix_inv h d"
  shows "subsection_ids_of kind i d =
    (if node_exists kind i d
     then (Inr (sort (map su_id (filter (subsection_below kind i d) (subsections d)))), d)
     else (Inl CompetencyMatrixStructureNotFoundError, d))"
proof (cases kind)
  case NODE_SHEET
  have "filter (\<lambda>su. su_section_id su \<in> se_id ` {se \<in> set (sections d). se_sheet_id se = i}) (subsections d)
      = filter (subsection_below NODE_SHEET i d) (subsections d)"
    by (rule filter_cong) (auto simp: subsection_below_def section_below_def intro: rev_image_eqI)
  then show ?thesis using NODE_SHEET
    by (auto simp: subsection_ids_of_def lock_structure_ids_def run_simps node_exists_def filter_empty_conv)
next
  case NODE_SECTION
  have "i \<in> se_id ` set (sections d) \<Longrightarrow>
      filter (\<lambda>su. su_section_id su = i) (subsections d) = filter (subsection_below NODE_SECTION i d) (subsections d)"
    by (rule filter_cong) (auto simp: subsection_below_def section_below_def)
  then show ?thesis using NODE_SECTION
    by (auto simp: subsection_ids_of_def lock_structure_ids_def run_simps node_exists_def filter_empty_conv)
next
  case NODE_SUBSECTION
  have "subsection_below NODE_SUBSECTION i d = (\<lambda>su. su_id su = i)"
    by (simp add: fun_eq_iff subsection_below_def)
  then show ?thesis using NODE_SUBSECTION
    by (auto simp: subsection_ids_of_def lock_structure_ids_def run_simps node_exists_def filter_empty_conv)
qed

lemma item_below_ids:
  "im_subsection_id m \<in> set (sort (map su_id (filter (subsection_below kind i d) (subsections d)))) \<longleftrightarrow> item_below kind i d m"
  by (auto simp: item_below_def intro: rev_image_eqI)

text \<open>No question refers to the removed rows once the questions below the node are gone.\<close>

lemma subsections_unreferenced:
  assumes "\<forall>m \<in> set (items d). \<not> item_below kind i d m" and "\<And>su. p su \<longleftrightarrow> subsection_below kind i d su"
  shows "remove_subsections p d = (Inr (), d\<lparr>subsections := filter (\<lambda>su. \<not> subsection_below kind i d su) (subsections d)\<rparr>)"
  using assms by (auto simp: remove_subsections_def run_simps delete_where_def item_below_def)

lemma sections_unreferenced:
  assumes "\<forall>m \<in> set (items d). \<not> item_below kind i d m" and "kind \<noteq> NODE_SUBSECTION"
    and "\<And>se. p se \<longleftrightarrow> section_below kind i se"
  shows "remove_sections p d = (Inr (), d\<lparr>sections := filter (\<lambda>se. \<not> section_below kind i se) (sections d),
    subsections := filter (\<lambda>su. \<not> subsection_below kind i d su) (subsections d)\<rparr>)"
proof -
  have "su_section_id su \<in> se_id ` set (filter p (sections d)) \<longleftrightarrow> subsection_below kind i d su" for su
    using assms(2,3) by (cases kind) (auto simp: subsection_below_def image_iff)
  from subsections_unreferenced[OF assms(1) this] show ?thesis
    using assms(3) by (simp add: remove_sections_def run_simps delete_where_def)
qed

lemma items_of_sheet:
  assumes "matrix_inv h d" and "m \<in> set (items d)"
  shows "item_below NODE_SHEET i d m \<longleftrightarrow> im_sheet_id m = i"
proof -
  have "(im_subsection_id m, im_sheet_id m) \<in> subsection_sheets d" using item_facts(3)[OF assms(1)] assms(2) by blast
  then obtain su se where su: "su \<in> set (subsections d)" "su_id su = im_subsection_id m"
    and se: "se \<in> set (sections d)" "se_id se = su_section_id su" "se_sheet_id se = im_sheet_id m"
    by (auto simp: subsection_sheets_def)
  have same: "su' = su" if "su' \<in> set (subsections d)" "su_id su' = im_subsection_id m" for su'
    using same_row[OF structure_facts(3)[OF assms(1)] that(1) su(1)] su(2) that(2) by simp
  have uniq: "se' = se" if "se' \<in> set (sections d)" "se_id se' = su_section_id su" for se'
    using same_row[OF structure_facts(2)[OF assms(1)] that(1) se(1)] se(2) that(2) by simp
  have "subsection_below NODE_SHEET i d su \<longleftrightarrow> (\<exists>se' \<in> set (sections d). se_sheet_id se' = i \<and> se_id se' = su_section_id su)"
    by (simp add: subsection_below_def section_below_def)
  then have "subsection_below NODE_SHEET i d su \<longleftrightarrow> im_sheet_id m = i"
    using uniq se by metis
  moreover have "item_below NODE_SHEET i d m \<longleftrightarrow> subsection_below NODE_SHEET i d su"
  proof
    assume "item_below NODE_SHEET i d m"
    then obtain su' where "su' \<in> set (subsections d)" "subsection_below NODE_SHEET i d su'" "su_id su' = im_subsection_id m"
      unfolding item_below_def by blast
    then show "subsection_below NODE_SHEET i d su" using same by blast
  next
    assume "subsection_below NODE_SHEET i d su"
    then show "item_below NODE_SHEET i d m" unfolding item_below_def using su by blast
  qed
  ultimately show ?thesis by blast
qed

lemma item_below_removed: "item_below kind i (remove_items p d) m = item_below kind i d m"
  by (cases kind) (simp_all add: item_below_def subsection_below_def remove_items_def)

lemma storage_delete_run:
  assumes inv: "matrix_inv h d"
    and ids: "ids = sort (map su_id (filter (subsection_below kind i d) (subsections d)))"
  shows "storage_delete_structure_node kind i ids d = (Inr (), remove_subtree kind i d)"
proof -
  let ?d = "remove_items (item_below kind i d) d"
  have below: "im_subsection_id m \<in> set ids \<longleftrightarrow> item_below kind i d m" for m unfolding ids by (rule item_below_ids)
  have none: "item_below kind i d m = False" if "ids = []" for m using below[of m] that by simp
  have first: "(if ids \<noteq> [] then remove_items (\<lambda>m. im_subsection_id m \<in> set ids) d else d) = ?d"
    unfolding below by (auto simp: none remove_items_def delete_where_def)
  have free: "\<forall>m \<in> set (items ?d). \<not> item_below kind i ?d m"
    unfolding item_below_removed by (simp add: remove_items_def)
  have same: "subsection_below kind i ?d su = subsection_below kind i d su" for su
    by (cases kind) (simp_all add: subsection_below_def remove_items_def)
  have rest: "(case kind of NODE_SHEET \<Rightarrow> remove_sheet i | NODE_SECTION \<Rightarrow> remove_sections (\<lambda>se. se_id se = i)
      | NODE_SUBSECTION \<Rightarrow> remove_subsections (\<lambda>su. su_id su = i)) ?d = (Inr (), remove_subtree kind i d)"
  proof (cases kind)
    case NODE_SHEET
    have "i \<notin> im_sheet_id ` set (items ?d)"
    proof
      assume "i \<in> im_sheet_id ` set (items ?d)"
      then obtain m where "m \<in> set (items d)" "\<not> item_below kind i d m" "im_sheet_id m = i"
        by (auto simp: remove_items_def)
      then show False using items_of_sheet[OF inv] NODE_SHEET by blast
    qed
    moreover have "remove_sections (\<lambda>se. se_sheet_id se = i) ?d = (Inr (), ?d\<lparr>sections := filter (\<lambda>se. \<not> section_below kind i se) (sections ?d),
        subsections := filter (\<lambda>su. \<not> subsection_below kind i d su) (subsections ?d)\<rparr>)"
      using NODE_SHEET unfolding same[symmetric] by (intro sections_unreferenced[OF free]) (simp_all add: section_below_def)
    ultimately show ?thesis using NODE_SHEET
      by (simp add: remove_sheet_def run_simps remove_subtree_def) (simp add: remove_items_def delete_where_def)
  next
    case NODE_SECTION
    have "remove_sections (\<lambda>se. se_id se = i) ?d = (Inr (), ?d\<lparr>sections := filter (\<lambda>se. \<not> section_below kind i se) (sections ?d),
        subsections := filter (\<lambda>su. \<not> subsection_below kind i d su) (subsections ?d)\<rparr>)"
      using NODE_SECTION unfolding same[symmetric] by (intro sections_unreferenced[OF free]) (simp_all add: section_below_def)
    then show ?thesis using NODE_SECTION
      by (simp add: remove_subtree_def) (simp add: remove_items_def delete_where_def)
  next
    case NODE_SUBSECTION
    have "remove_subsections (\<lambda>su. su_id su = i) ?d =
        (Inr (), ?d\<lparr>subsections := filter (\<lambda>su. \<not> subsection_below kind i d su) (subsections ?d)\<rparr>)"
      using NODE_SUBSECTION unfolding same[symmetric] by (intro subsections_unreferenced[OF free]) (simp add: subsection_below_def)
    then show ?thesis using NODE_SUBSECTION
      by (simp add: remove_subtree_def section_below_def) (simp add: remove_items_def delete_where_def)
  qed
  show ?thesis
    using first rest by (cases "ids = []") (simp_all add: storage_delete_structure_node_def run_simps)
qed

text \<open>The whole operation: the three outcomes.\<close>

lemma delete_structure_node_run:
  assumes inv: "matrix_inv h d"
  shows "delete_structure_node kind i force d =
    (if \<not> node_exists kind i d then (Inl CompetencyMatrixStructureNotFoundError, d)
     else if (\<exists>m \<in> set (items d). item_below kind i d m) \<and> \<not> force
     then (Inl CompetencyMatrixStructureContainsQuestionsError, d)
     else (Inr (), remove_subtree kind i d))"
proof -
  let ?ids = "sort (map su_id (filter (subsection_below kind i d) (subsections d)))"
  have "(?ids \<noteq> [] \<and> (\<exists>m \<in> set (items d). im_subsection_id m \<in> set ?ids)) \<longleftrightarrow> (\<exists>m \<in> set (items d). item_below kind i d m)"
    unfolding item_below_ids by (metis item_below_ids empty_iff list.set(1))
  then show ?thesis
    using storage_delete_run[OF inv, of ?ids kind i]
    by (simp only: delete_structure_node_def inspect_structure_deletion_def run_simps subsection_ids_run[OF inv]
        split: if_split) (simp add: run_simps)
qed

lemma remove_subtree_inv:
  assumes inv: "matrix_inv h d"
  shows "matrix_inv h (remove_subtree kind i d)"
proof (rule matrix_invI)
  let ?d = "remove_subtree kind i d"
  have placed: "(im_subsection_id m, im_sheet_id m) \<in> subsection_sheets ?d" if m: "m \<in> set (items ?d)" for m
  proof -
    from m have m: "m \<in> set (items d)" and keep: "\<not> item_below kind i d m" by (simp_all add: remove_subtree_def)
    then have "(im_subsection_id m, im_sheet_id m) \<in> subsection_sheets d" using item_facts(3)[OF inv] by blast
    then obtain su se where su: "su \<in> set (subsections d)" "su_id su = im_subsection_id m"
      and se: "se \<in> set (sections d)" "se_id se = su_section_id su" "se_sheet_id se = im_sheet_id m"
      by (auto simp: subsection_sheets_def)
    have nsu: "\<not> subsection_below kind i d su" using keep su by (auto simp: item_below_def)
    then have "\<not> section_below kind i se" using se by (cases kind) (auto simp: subsection_below_def section_below_def)
    then show ?thesis using su se nsu unfolding subsection_sheets_def remove_subtree_def by simp metis
  qed
  show "structure_keys_inv ?d"
    using matrix_invD(1)[OF inv] by (simp add: structure_keys_inv_def remove_subtree_def distinct_map_filter)
  show "structure_refs_inv ?d"
  proof -
    have "se_sheet_id se \<in> sh_id ` set (sheets ?d)" if "se \<in> set (sections ?d)" for se
    proof -
      from that have "se \<in> set (sections d)" "kind = NODE_SHEET \<longrightarrow> se_sheet_id se \<noteq> i"
        by (auto simp: remove_subtree_def section_below_def)
      moreover from this have "se_sheet_id se \<in> sh_id ` set (sheets d)" using structure_facts(5)[OF inv] by blast
      ultimately show ?thesis by (auto simp: remove_subtree_def)
    qed
    moreover have "su_section_id su \<in> se_id ` set (sections ?d)" if "su \<in> set (subsections ?d)" for su
    proof -
      from that have su: "su \<in> set (subsections d)" "\<not> subsection_below kind i d su" by (simp_all add: remove_subtree_def)
      then obtain se where se: "se \<in> set (sections d)" "se_id se = su_section_id su"
        using structure_facts(6)[OF inv] by (metis image_iff image_subset_iff)
      then have "\<not> section_below kind i se" using su by (cases kind) (auto simp: subsection_below_def section_below_def)
      then show ?thesis using se by (auto simp: remove_subtree_def intro: rev_image_eqI)
    qed
    ultimately show ?thesis by (auto simp: structure_refs_inv_def)
  qed
  show "items_inv h ?d"
  proof -
    have "distinct (map im_id (items ?d))" "distinct (map (\<lambda>m. (im_sheet_id m, im_slug m)) (items ?d))"
      "\<forall>m \<in> set (items ?d). item_ok h m"
      using item_facts[OF inv] by (auto simp: remove_subtree_def distinct_map_filter)
    then show ?thesis using placed by (auto simp: items_inv_def)
  qed
  show "links_inv ?d"
  proof -
    have "rl_item_id l \<in> im_id ` set (items ?d)" if l: "l \<in> set (resource_links ?d)" for l
    proof -
      from l have "l \<in> set (resource_links d)" by (simp add: remove_subtree_def)
      then obtain m where m: "m \<in> set (items d)" "im_id m = rl_item_id l"
        using link_facts(3)[OF inv] by (metis image_iff image_subset_iff)
      with l have "\<not> item_below kind i d m" by (auto simp: remove_subtree_def)
      with m show ?thesis by (auto simp: remove_subtree_def intro: rev_image_eqI)
    qed
    moreover have "distinct (map (\<lambda>l. (rl_item_id l, rl_resource_id l)) (resource_links ?d))"
      "resources ?d = resources d" "set (resource_links ?d) \<subseteq> set (resource_links d)"
      using link_facts(2)[OF inv] by (auto simp: remove_subtree_def distinct_map_filter)
    moreover have "rl_resource_id ` set (resource_links ?d) \<subseteq> er_id ` set (resources d)"
      using link_facts(4)[OF inv] by (auto simp: remove_subtree_def)
    ultimately show ?thesis using link_facts(1)[OF inv] unfolding links_inv_def by (simp add: image_subset_iff)
  qed
  show "queue_inv h ?d" using matrix_invD(5)[OF inv] by (simp add: queue_inv_def remove_subtree_def)
qed

lemma delete_structure_node_keeps: "keeps (matrix_inv h) (delete_structure_node kind i force)"
  by (rule keepsI) (simp add: delete_structure_node_run remove_subtree_inv)

end
