(* ===== verification/Matrix_Items.thy ===== *)
theory Matrix_Items
  imports Matrix_Invariant
begin

text \<open>
  The write operations on questions and on the queue keep the invariant of the matrix.  Each operation
  has a lemma that names the rows of a successful run.
\<close>

section \<open>Reading\<close>

lemma missing_Nil_iff:
  "missing_publication_fields i = [] \<longleftrightarrow>
     strip (mi_slug i) \<noteq> [] \<and> mi_grade i \<noteq> None \<and> strip (mi_question_ru i) \<noteq> [] \<and> strip (mi_question_en i) \<noteq> []
     \<and> strip (mi_answer_ru i) \<noteq> [] \<and> strip (mi_answer_en i) \<noteq> [] \<and> strip (mi_explanation_ru i) \<noteq> []
     \<and> strip (mi_explanation_en i) \<noteq> []"
  by (simp add: missing_publication_fields_def)

lemma require_Inr: "require e x = Inr a \<longleftrightarrow> x = Some a"
  by (simp add: require_def split: option.split)

lemma structure_of_subsection:
  assumes "get_item_structure_by_subsection_id sid d = (Inr st, d')"
  shows "d' = d" "ns_subsection_id st = sid" "(ns_subsection_id st, ns_sheet_id st) \<in> subsection_sheets d"
    "ns_subsection_id st \<in> su_id ` set (subsections d)" "ns_sheet_id st \<in> sh_id ` set (sheets d)"
proof -
  obtain su where su: "row_by su_id sid (subsections d) = Some su"
    using assms by (cases "row_by su_id sid (subsections d)")
      (simp_all add: get_item_structure_by_subsection_id_def get_subsection_model_def run_simps require_def)
  then have st: "to_item_structure d su = Inr st" and d': "d' = d"
    using assms
    by (auto simp: get_item_structure_by_subsection_id_def get_subsection_model_def run_simps require_def)
  from st obtain se sh where se: "row_by se_id (su_section_id su) (sections d) = Some se"
    and sh: "row_by sh_id (se_sheet_id se) (sheets d) = Some sh"
    and fields: "ns_subsection_id st = su_id su" "ns_sheet_id st = sh_id sh"
    by (auto simp: to_item_structure_def require_Inr split: sum.splits)
  note rows = row_by_SomeD[OF su] row_by_SomeD[OF se] row_by_SomeD[OF sh]
  show "d' = d" by fact
  show "ns_subsection_id st = sid" "ns_subsection_id st \<in> su_id ` set (subsections d)" "ns_sheet_id st \<in> sh_id ` set (sheets d)"
    using rows fields by (auto intro: rev_image_eqI)
  have "(su_id su, se_sheet_id se) \<in> subsection_sheets d" using rows unfolding subsection_sheets_def by blast
  then show "(ns_subsection_id st, ns_sheet_id st) \<in> subsection_sheets d" using rows fields by simp
qed

lemma assigned_resources_state: "assigned_resources p d = (r, d') \<Longrightarrow> d' = d"
  by (auto simp: assigned_resources_def get_resources_by_ids_def run_simps Let_def split: if_splits)

lemma ready_if_published_run:
  "ensure_ready_if_published item d = (Inr (), d') \<longleftrightarrow>
     d' = d \<and> (mi_publish_status item = PUBLISHED \<longrightarrow> missing_publication_fields item = [])"
  by (auto simp: ensure_ready_if_published_def ensure_public_ready_def run_simps Let_def)

lemma get_item_state: "get_competency_matrix_item i d = (r, d') \<Longrightarrow> d' = d"
  by (auto simp: get_competency_matrix_item_def run_simps split: option.splits)

lemma get_item_fields:
  assumes "get_competency_matrix_item i d = (Inr it, d')"
  obtains m where "row_by im_id i (items d) = Some m" and "mi_id it = im_id m" and "mi_publish_status it = im_publish_status m"
    and "mi_published_at it = im_published_at m" and "mi_suggested_by_username it = im_suggested_by_username m"
    and "missing_publication_fields it = [] \<longleftrightarrow> ready m" and "mi_slug it = im_slug m"
proof -
  from assms obtain m where m: "row_by im_id i (items d) = Some m" "item_to_domain d (item_links d m) m = Inr it"
    by (auto simp: get_competency_matrix_item_def run_simps split: option.splits)
  then show ?thesis
    by (intro that[of m]) (auto simp: item_to_domain_def missing_Nil_iff ready_def split: sum.splits)
qed

section \<open>Resources and links\<close>

lemma merge_resource_ids:
  "er_id ` set (merge_resource r rows) = insert (er_id r) (er_id ` set rows)"
  "distinct (map er_id rows) \<Longrightarrow> distinct (map er_id (merge_resource r rows))"
proof -
  have "map er_id (update_where (\<lambda>x. er_id x = er_id r) (\<lambda>_. r) rows) = map er_id rows"
    by (simp add: update_where_def)
  note kept = this
  show "er_id ` set (merge_resource r rows) = insert (er_id r) (er_id ` set rows)"
    using set_map_eq[OF kept] by (simp add: merge_resource_def insert_absorb)
  show "distinct (map er_id rows) \<Longrightarrow> distinct (map er_id (merge_resource r rows))"
    using kept by (simp add: merge_resource_def)
qed

lemma merge_resources_ids:
  "er_id ` set (merge_resources rs rows) = at_id ` set rs \<union> er_id ` set rows"
  "distinct (map er_id rows) \<Longrightarrow> distinct (map er_id (merge_resources rs rows))"
  by (induction rs arbitrary: rows)
     (auto simp: merge_resources_def merge_resource_ids to_external_resource_def)

definition link_key :: "resource_link \<Rightarrow> pystr \<times> pystr" where
  "link_key l = (rl_item_id l, rl_resource_id l)"

lemma updated_link_key [simp]: "link_key (updated_link rs l) = link_key l"
  by (simp add: updated_link_def link_key_def split: option.split)

lemma replace_links_keys:
  "map link_key (replace_item_links i rs rows) =
     map link_key (delete_where (\<lambda>l. rl_item_id l = i \<and> rl_resource_id l \<notin> at_id ` set rs) rows)
     @ map link_key (new_links i (filter (\<lambda>l. rl_item_id l = i) rows) rs)"
  by (simp add: replace_item_links_def map_update_where)

lemma new_links_keys:
  "map link_key (new_links i existing rs) = map (Pair i) (map rl_resource_id (new_links i existing rs))"
  "set (map link_key (new_links i existing rs)) = {i} \<times> (at_id ` set rs - rl_resource_id ` set existing)"
  by (auto simp: new_links_def link_key_def new_link_def)

lemma replace_links_distinct:
  assumes "distinct (map link_key rows)"
    and "distinct (map rl_resource_id (new_links i (filter (\<lambda>l. rl_item_id l = i) rows) rs))"
  shows "distinct (map link_key (replace_item_links i rs rows))"
proof -
  let ?old = "delete_where (\<lambda>l. rl_item_id l = i \<and> rl_resource_id l \<notin> at_id ` set rs) rows"
  let ?new = "new_links i (filter (\<lambda>l. rl_item_id l = i) rows) rs"
  have "distinct (map link_key ?old)" using assms(1) by (rule distinct_map_delete_where)
  moreover have "distinct (map link_key ?new)"
    unfolding new_links_keys(1) distinct_map[of "Pair i"] using assms(2) by (simp add: inj_on_def)
  moreover have "set (map link_key ?old) \<inter> set (map link_key ?new) = {}"
    unfolding new_links_keys(2) by (auto simp: link_key_def)
  ultimately show ?thesis unfolding replace_links_keys by simp
qed

lemma replace_links_refs:
  "fst ` set (map link_key (replace_item_links i rs rows)) \<subseteq> insert i (rl_item_id ` set rows)"
  "snd ` set (map link_key (replace_item_links i rs rows)) \<subseteq> at_id ` set rs \<union> rl_resource_id ` set rows"
  unfolding replace_links_keys set_append new_links_keys(2) by (auto simp: link_key_def)

lemma links_inv_keys:
  "links_inv d \<longleftrightarrow> distinct (map er_id (resources d)) \<and> distinct (map link_key (resource_links d))
     \<and> fst ` set (map link_key (resource_links d)) \<subseteq> im_id ` set (items d)
     \<and> snd ` set (map link_key (resource_links d)) \<subseteq> er_id ` set (resources d)"
  by (simp add: links_inv_def link_key_def[abs_def] image_image)

section \<open>Creating a question\<close>

definition insert_item_rows :: "item_model \<Rightarrow> attached_resource list \<Rightarrow> db \<Rightarrow> db" where
  "insert_item_rows m rs d =
     d\<lparr>resources := merge_resources rs (resources d), items := items d @ [m],
       resource_links := resource_links d @ map (new_link (im_id m)) rs\<rparr>"

definition insertable :: "item_model \<Rightarrow> attached_resource list \<Rightarrow> db \<Rightarrow> bool" where
  "insertable m rs d \<longleftrightarrow> im_id m \<notin> im_id ` set (items d) \<and> slug_free m (items d)
     \<and> im_subsection_id m \<in> su_id ` set (subsections d) \<and> im_sheet_id m \<in> sh_id ` set (sheets d)
     \<and> distinct (map at_id rs)"

lemma run_map_error:
  "map_error f m s = (case m s of (Inl e, s') \<Rightarrow> (Inl (f e), s') | (Inr a, s') \<Rightarrow> (Inr a, s'))"
  by (auto simp: map_error_def run_simps split: prod.split sum.split)

lemma flush_new_item_run: "insertable m rs d \<Longrightarrow> flush_new_item m rs d = (Inr (), insert_item_rows m rs d)"
  by (simp add: flush_new_item_def run_simps insertable_def insert_item_rows_def)

lemma flush_new_item_fails: "\<not> insertable m rs d \<Longrightarrow> \<exists>e. flush_new_item m rs d = (Inl e, d)"
  unfolding flush_new_item_def insertable_def
  by (simp add: run_bind run_gets) (auto simp: run_check_constraint)

lemma create_matrix_item_success:
  assumes "create_competency_matrix_item env item d = (Inr it, d')"
  defines "m \<equiv> ensure_first_published_at env (item_from_domain env item)"
  shows "insertable m (mi_resources item) d" and "d' = insert_item_rows m (mi_resources item) d"
proof -
  have "insertable m (mi_resources item) d \<and> d' = insert_item_rows m (mi_resources item) d"
  proof (cases "insertable m (mi_resources item) d")
    case True
    then have flush: "flush_new_item m (mi_resources item) d = (Inr (), insert_item_rows m (mi_resources item) d)"
      by (rule flush_new_item_run)
    have "get_competency_matrix_item (mi_id item) (insert_item_rows m (mi_resources item) d) = (Inr it, d')"
      using assms(1) unfolding create_competency_matrix_item_def Let_def m_def[symmetric]
      by (simp add: run_bind run_map_error flush)
    then show ?thesis using True get_item_state by blast
  next
    case False
    then obtain e where "flush_new_item m (mi_resources item) d = (Inl e, d)" using flush_new_item_fails by blast
    then show ?thesis using assms(1) unfolding create_competency_matrix_item_def Let_def m_def[symmetric]
      by (simp add: run_bind run_map_error)
  qed
  then show "insertable m (mi_resources item) d" and "d' = insert_item_rows m (mi_resources item) d" by blast+
qed

lemma new_item_fields:
  "im_id (ensure_first_published_at env m) = im_id m" "im_slug (ensure_first_published_at env m) = im_slug m"
  "im_sheet_id (ensure_first_published_at env m) = im_sheet_id m"
  "im_subsection_id (ensure_first_published_at env m) = im_subsection_id m"
  "im_publish_status (ensure_first_published_at env m) = im_publish_status m"
  "im_suggested_by_username (ensure_first_published_at env m) = im_suggested_by_username m"
  "ready (ensure_first_published_at env m) = ready m"
  "item_ok h (ensure_first_published_at env m) \<longleftrightarrow>
     im_question_ru_fingerprint m = h (fingerprint_value (im_question_ru m))
     \<and> im_question_en_fingerprint m = h (fingerprint_value (im_question_en m))
     \<and> (im_publish_status m = PUBLISHED \<longrightarrow> ready m)"
  by (auto simp: ensure_first_published_at_def item_ok_def ready_def)

lemma item_from_domain_fields:
  "im_id (item_from_domain env i) = mi_id i" "im_slug (item_from_domain env i) = mi_slug i"
  "im_sheet_id (item_from_domain env i) = ns_sheet_id (mi_structure i)"
  "im_subsection_id (item_from_domain env i) = ns_subsection_id (mi_structure i)"
  "im_publish_status (item_from_domain env i) = mi_publish_status i"
  "im_published_at (item_from_domain env i) = mi_published_at i"
  "im_suggested_by_username (item_from_domain env i) = mi_suggested_by_username i"
  "ready (item_from_domain env i) \<longleftrightarrow> missing_publication_fields i = []"
  by (simp_all add: item_from_domain_def ready_def missing_Nil_iff)

lemma from_domain_ok:
  "env_sha256 env = h \<Longrightarrow> (mi_publish_status i = PUBLISHED \<longrightarrow> missing_publication_fields i = []) \<Longrightarrow>
   item_ok h (ensure_first_published_at env (item_from_domain env i))"
  unfolding new_item_fields(8) item_from_domain_fields
  by (simp add: item_from_domain_def fingerprint_digest_def)

lemma slug_free_distinct:
  assumes "distinct (map im_id rows)" and "distinct (map (\<lambda>m. (im_sheet_id m, im_slug m)) rows)"
    and "im_id m \<notin> im_id ` set rows" and "slug_free m rows"
  shows "distinct (map (\<lambda>m. (im_sheet_id m, im_slug m)) (rows @ [m]))"
proof -
  have "(im_sheet_id m, im_slug m) \<notin> (\<lambda>m. (im_sheet_id m, im_slug m)) ` set rows"
    using assms(3,4) by (auto simp: slug_free_def) (metis imageI)
  then show ?thesis using assms(2) by simp
qed

lemma insert_item_inv:
  assumes inv: "matrix_inv h d" and ins: "insertable m rs d" and ok: "item_ok h m"
    and placed: "(im_subsection_id m, im_sheet_id m) \<in> subsection_sheets d"
  shows "matrix_inv h (insert_item_rows m rs d)"
proof (rule matrix_invI)
  let ?d = "insert_item_rows m rs d"
  have same: "sheets ?d = sheets d" "sections ?d = sections d" "subsections ?d = subsections d"
    "queued_questions ?d = queued_questions d" by (simp_all add: insert_item_rows_def)
  show "structure_keys_inv ?d" "structure_refs_inv ?d" "queue_inv h ?d"
    using matrix_invD[OF inv] same by (simp_all add: structure_keys_inv_def structure_refs_inv_def queue_inv_def)
  have "subsection_sheets ?d = subsection_sheets d" by (simp add: subsection_sheets_def same)
  moreover have "distinct (map (\<lambda>m. (im_sheet_id m, im_slug m)) (items d @ [m]))"
    using slug_free_distinct[OF item_facts(1,2)[OF inv]] ins unfolding insertable_def by blast
  moreover have "distinct (map im_id (items d @ [m]))" using item_facts(1)[OF inv] ins by (simp add: insertable_def)
  moreover have "items ?d = items d @ [m]" by (simp add: insert_item_rows_def)
  ultimately show "items_inv h ?d"
    using item_facts(3,4)[OF inv] ok placed unfolding items_inv_def by auto
  show "links_inv ?d"
  proof -
    have links: "resource_links ?d = resource_links d @ map (new_link (im_id m)) rs"
      and res: "resources ?d = merge_resources rs (resources d)" by (simp_all add: insert_item_rows_def)
    have new: "map link_key (map (new_link (im_id m)) rs) = map (Pair (im_id m)) (map at_id rs)"
      by (simp add: link_key_def new_link_def)
    have "distinct (map (Pair (im_id m)) (map at_id rs))"
      unfolding distinct_map[of "Pair (im_id m)"] using ins by (simp add: insertable_def inj_on_def)
    moreover have "set (map link_key (resource_links d)) \<inter> set (map (Pair (im_id m)) (map at_id rs)) = {}"
    proof -
      have "im_id m \<notin> rl_item_id ` set (resource_links d)" using link_facts(3)[OF inv] ins unfolding insertable_def by blast
      then show ?thesis by (force simp: link_key_def)
    qed
    ultimately have "distinct (map link_key (resource_links ?d))"
      using matrix_invD(4)[OF inv] unfolding links map_append new links_inv_keys by simp
    moreover have "fst ` set (map link_key (resource_links ?d)) \<subseteq> im_id ` set (items ?d)"
      using link_facts(3)[OF inv] unfolding links map_append new by (auto simp: link_key_def insert_item_rows_def)
    moreover have "snd ` set (map link_key (resource_links ?d)) \<subseteq> er_id ` set (resources ?d)"
      using link_facts(4)[OF inv] unfolding links map_append new res merge_resources_ids by (auto simp: link_key_def)
    ultimately show ?thesis
      using merge_resources_ids(2)[OF link_facts(1)[OF inv]] unfolding links_inv_keys res by blast
  qed
qed

lemma to_item_fields [simp]:
  "mi_id (to_item p rs st pa by_user) = ip_id p" "mi_slug (to_item p rs st pa by_user) = ip_slug p"
  "mi_structure (to_item p rs st pa by_user) = st" "mi_publish_status (to_item p rs st pa by_user) = ip_publish_status p"
  "mi_published_at (to_item p rs st pa by_user) = pa" "mi_suggested_by_username (to_item p rs st pa by_user) = by_user"
  by (simp_all add: to_item_def)

text \<open>The rows of a successful creation, shared by the two ways to create a question.\<close>

definition created_row :: "env \<Rightarrow> item_params \<Rightarrow> external_resource list \<Rightarrow> item_structure \<Rightarrow> pystr \<Rightarrow> item_model" where
  "created_row env p rs st by_user = ensure_first_published_at env (item_from_domain env (to_item p rs st None by_user))"

definition creation ::
  "env \<Rightarrow> publication_access \<Rightarrow> item_params \<Rightarrow> pystr \<Rightarrow> db \<Rightarrow> external_resource list \<Rightarrow> item_structure \<Rightarrow> bool" where
  "creation env pub p by_user d rs st \<longleftrightarrow>
     (ip_publish_status p = PUBLISHED \<longrightarrow> allowed pub \<and> missing_publication_fields (to_item p rs st None by_user) = [])
     \<and> assigned_resources p d = (Inr rs, d) \<and> get_item_structure_by_subsection_id (ip_subsection_id p) d = (Inr st, d)
     \<and> insertable (created_row env p rs st by_user) (mi_resources (to_item p rs st None by_user)) d"

lemma ensure_allowed_Inr: "ensure_allowed pub sts s = (Inr (), s') \<longleftrightarrow> s' = s \<and> (PUBLISHED \<in> set sts \<longrightarrow> allowed pub)"
  by (auto simp: run_simps)

lemma creation_core:
  assumes "assigned_resources p d = (Inr rs, d1)" and "get_item_structure_by_subsection_id (ip_subsection_id p) d1 = (Inr st, d2)"
    and "ensure_ready_if_published (to_item p rs st None by_user) d2 = (Inr (), d3)"
    and "create_competency_matrix_item env (to_item p rs st None by_user) d3 = (Inr it, d')"
    and "PUBLISHED \<in> set [ip_publish_status p] \<longrightarrow> allowed pub"
  shows "creation env pub p by_user d rs st"
    and "d' = insert_item_rows (created_row env p rs st by_user) (mi_resources (to_item p rs st None by_user)) d"
proof -
  have d1: "d1 = d" using assigned_resources_state[OF assms(1)] .
  have d2: "d2 = d" using structure_of_subsection(1)[OF assms(2)] d1 by simp
  have d3: "d3 = d" and ready: "ip_publish_status p = PUBLISHED \<longrightarrow> missing_publication_fields (to_item p rs st None by_user) = []"
    using assms(3) d2 by (simp_all add: ready_if_published_run)
  note made = create_matrix_item_success[OF assms(4)[unfolded d3], folded created_row_def]
  show "creation env pub p by_user d rs st"
    using assms(1,2,5) made(1) ready d1 d2 by (simp add: creation_def)
  show "d' = insert_item_rows (created_row env p rs st by_user) (mi_resources (to_item p rs st None by_user)) d"
    by (rule made(2))
qed

lemma create_item_success:
  assumes "create_item env pub p by_user d = (Inr it, d')"
  obtains rs st where "creation env pub p by_user d rs st"
    and "d' = insert_item_rows (created_row env p rs st by_user) (mi_resources (to_item p rs st None by_user)) d"
proof -
  from assms obtain d0 rs d1 st d2 d3 where
    run: "ensure_allowed pub [ip_publish_status p] d = (Inr (), d0)" "assigned_resources p d0 = (Inr rs, d1)"
      "get_item_structure_by_subsection_id (ip_subsection_id p) d1 = (Inr st, d2)"
      "ensure_ready_if_published (to_item p rs st None by_user) d2 = (Inr (), d3)"
      "create_competency_matrix_item env (to_item p rs st None by_user) d3 = (Inr it, d')"
    unfolding create_item_def Let_def by (elim bind_InrE) auto
  have d0: "d0 = d" and pub: "PUBLISHED \<in> set [ip_publish_status p] \<longrightarrow> allowed pub"
    using run(1) unfolding ensure_allowed_Inr by simp_all
  show ?thesis using creation_core[OF run(2,3,4,5) pub, unfolded d0] by (rule that)
qed

lemma creation_inv:
  assumes inv: "matrix_inv h d" and c: "creation env pub p by_user d rs st" and h: "env_sha256 env = h"
  shows "matrix_inv h (insert_item_rows (created_row env p rs st by_user) (mi_resources (to_item p rs st None by_user)) d)"
proof (rule insert_item_inv[OF inv])
  have st: "get_item_structure_by_subsection_id (ip_subsection_id p) d = (Inr st, d)" using c by (simp add: creation_def)
  show "insertable (created_row env p rs st by_user) (mi_resources (to_item p rs st None by_user)) d"
    using c by (simp add: creation_def)
  show "item_ok h (created_row env p rs st by_user)"
    unfolding created_row_def using c by (intro from_domain_ok[OF h]) (simp add: creation_def)
  show "(im_subsection_id (created_row env p rs st by_user), im_sheet_id (created_row env p rs st by_user)) \<in> subsection_sheets d"
    using structure_of_subsection(3)[OF st] by (simp add: created_row_def new_item_fields item_from_domain_fields)
qed

lemma create_item_keeps:
  assumes "env_sha256 env = h"
  shows "keeps (matrix_inv h) (transactional (create_item env pub p by_user))"
proof (rule keeps_transactional_success)
  fix d it d' assume "matrix_inv h d" "create_item env pub p by_user d = (Inr it, d')"
  then show "matrix_inv h d'" using creation_inv[OF _ _ assms] by (elim create_item_success) metis
qed

section \<open>From the queue\<close>

lemma get_queued_success:
  assumes "get_queued_question qid d = (Inr q, d')"
  obtains m where "row_by qm_id qid (queued_questions d) = Some m" and "q = queued_to_domain m" and "d' = d"
  using assms by (cases "row_by qm_id qid (queued_questions d)") (auto simp: get_queued_question_def run_simps require_def)

lemma queued_exists:
  "row_by qm_id qid (queued_questions d) \<noteq> None \<Longrightarrow> storage_delete_queued_question qid d =
     (Inr (), d\<lparr>queued_questions := delete_where (\<lambda>q. qm_id q = qid) (queued_questions d)\<rparr>)"
  by (simp add: storage_delete_queued_question_def run_simps)

lemma insert_rows_queue [simp]: "queued_questions (insert_item_rows m rs d) = queued_questions d"
  by (simp add: insert_item_rows_def)

lemma create_from_queue_success:
  assumes "create_item_from_queue env pub qid p d = (Inr it, d')"
  obtains q rs st where "row_by qm_id qid (queued_questions d) = Some q"
    and "creation env pub p (qm_suggested_by_username q) d rs st"
    and "d' = (insert_item_rows (created_row env p rs st (qm_suggested_by_username q))
        (mi_resources (to_item p rs st None (qm_suggested_by_username q))) d)
      \<lparr>queued_questions := delete_where (\<lambda>q. qm_id q = qid) (queued_questions d)\<rparr>"
proof -
  from assms obtain d0 q0 d1 rs d2 st d3 d4 d5 where
    run: "ensure_allowed pub [ip_publish_status p] d = (Inr (), d0)" "get_queued_question qid d0 = (Inr q0, d1)"
      "assigned_resources p d1 = (Inr rs, d2)" "get_item_structure_by_subsection_id (ip_subsection_id p) d2 = (Inr st, d3)"
      "ensure_ready_if_published (to_item p rs st None (qq_suggested_by_username q0)) d3 = (Inr (), d4)"
      "create_competency_matrix_item env (to_item p rs st None (qq_suggested_by_username q0)) d4 = (Inr it, d5)"
      "storage_delete_queued_question qid d5 = (Inr (), d')"
    unfolding create_item_from_queue_def Let_def by (elim bind_InrE) (auto simp: run_ret)
  have d0: "d0 = d" and pub: "PUBLISHED \<in> set [ip_publish_status p] \<longrightarrow> allowed pub"
    using run(1) unfolding ensure_allowed_Inr by simp_all
  obtain q where q: "row_by qm_id qid (queued_questions d) = Some q" "q0 = queued_to_domain q" and d1: "d1 = d"
    using run(2) d0 by (auto elim: get_queued_success)
  have user: "qq_suggested_by_username q0 = qm_suggested_by_username q" using q(2) by (simp add: queued_to_domain_def)
  note core = creation_core[OF run(3,4,5,6) pub, unfolded user d1]
  show ?thesis
    using core q(1) run(7) queued_exists[of qid d5] by (intro that[of q rs st]) simp_all
qed

lemma queue_delete_inv:
  "matrix_inv h d \<Longrightarrow> matrix_inv h (d\<lparr>queued_questions := delete_where p (queued_questions d)\<rparr>)"
  by (auto simp: matrix_inv_def structure_keys_inv_def structure_refs_inv_def items_inv_def links_inv_def queue_inv_def
      subsection_sheets_def distinct_map_delete_where)

lemma create_from_queue_keeps:
  assumes "env_sha256 env = h"
  shows "keeps (matrix_inv h) (transactional (create_item_from_queue env pub qid p))"
proof (rule keeps_transactional_success)
  fix d it d' assume inv: "matrix_inv h d" and "create_item_from_queue env pub qid p d = (Inr it, d')"
  then show "matrix_inv h d'"
    using queue_delete_inv[OF creation_inv[OF inv _ assms]] by (elim create_from_queue_success) (simp add: insert_rows_queue)
qed

lemma delete_queued_question_keeps: "keeps (matrix_inv h) (delete_queued_question qid)"
  unfolding delete_queued_question_def get_queued_question_def storage_delete_queued_question_def
  by (intro keeps_intros keeps_modify queue_delete_inv)

lemma add_queued_run:
  "add_queued ms d =
    (if distinct (map qm_id ms) \<and> qm_id ` set ms \<inter> qm_id ` set (queued_questions d) = {}
     then (Inr (), d\<lparr>queued_questions := queued_questions d @ ms\<rparr>) else (Inl (IntegrityError PrimaryKey), d))"
  by (simp add: add_queued_def run_simps)

lemma add_queued_keeps:
  assumes "\<And>m. m \<in> set ms \<Longrightarrow> qm_question_fingerprint m = h (fingerprint_value (qm_question m))"
  shows "keeps (matrix_inv h) (add_queued ms)"
proof (rule keepsI)
  fix d assume inv: "matrix_inv h d"
  have "matrix_inv h (d\<lparr>queued_questions := queued_questions d @ ms\<rparr>)"
    if "distinct (map qm_id ms)" "qm_id ` set ms \<inter> qm_id ` set (queued_questions d) = {}"
  proof (rule matrix_invI)
    show "queue_inv h (d\<lparr>queued_questions := queued_questions d @ ms\<rparr>)"
      using matrix_invD(5)[OF inv] assms that unfolding queue_inv_def by auto
  qed (use matrix_invD(1-4)[OF inv] in \<open>simp_all add: structure_keys_inv_def structure_refs_inv_def items_inv_def links_inv_def
      subsection_sheets_def\<close>)
  then show "matrix_inv h (snd (add_queued ms d))" using inv by (simp add: add_queued_run)
qed

lemma increment_matrix_keeps: "keeps (matrix_inv h) (increment day kind target source n)"
proof (rule keepsI)
  fix d assume "matrix_inv h d"
  moreover have "matrix_inv h (snd (increment day kind target source n d)) = matrix_inv h d"
    unfolding increment_state by (rule matrix_inv_cong) simp_all
  ultimately show "matrix_inv h (snd (increment day kind target source n d))" by simp
qed

lemma create_queued_question_keeps:
  assumes "env_sha256 env = h"
  shows "keeps (matrix_inv h) (create_queued_question env p by_user)"
proof -
  have "qm_question_fingerprint (queued_from_create_params env 0 now by_user p) =
      h (fingerprint_value (qm_question (queued_from_create_params env 0 now by_user p)))" for now
    by (simp add: queued_from_create_params_def fingerprint_digest_def assms)
  then show ?thesis
    unfolding create_queued_question_def Let_def
    by (intro keeps_bind[OF add_queued_keeps] keeps_bind[OF increment_matrix_keeps] keeps_ret) simp
qed

lemma import_queued_questions_keeps:
  assumes "env_sha256 env = h"
  shows "keeps (matrix_inv h) (import_queued_questions env ps by_user)"
  unfolding import_queued_questions_def create_queued_questions_def Let_def
  by (intro keeps_intros add_queued_keeps)
     (auto simp: queued_from_create_params_def fingerprint_digest_def assms)

section \<open>Updating a question\<close>

text \<open>The row after an update, and the state after the flushes.\<close>

definition updated_row :: "env \<Rightarrow> matrix_item \<Rightarrow> item_model \<Rightarrow> item_model" where
  "updated_row env item m = ensure_first_published_at env (item_update_from_domain env item m)"

definition update_item_rows :: "item_model \<Rightarrow> attached_resource list \<Rightarrow> db \<Rightarrow> db" where
  "update_item_rows m rs d =
     d\<lparr>items := update_where (\<lambda>r. im_id r = im_id m) (\<lambda>_. m) (items d), resources := merge_resources rs (resources d),
       resource_links := replace_item_links (im_id m) rs (resource_links d)\<rparr>"

lemma item_update_fields:
  "im_id (item_update_from_domain env i m) = im_id m"
  "im_sheet_id (item_update_from_domain env i m) = ns_sheet_id (mi_structure i)"
  "im_subsection_id (item_update_from_domain env i m) = ns_subsection_id (mi_structure i)"
  "im_publish_status (item_update_from_domain env i m) = mi_publish_status i"
  "im_suggested_by_username (item_update_from_domain env i m) = im_suggested_by_username m"
  "ready (item_update_from_domain env i m) \<longleftrightarrow> missing_publication_fields i = []"
  by (simp_all add: item_update_from_domain_def ready_def missing_Nil_iff)

lemma flush_item_Inr:
  "flush_item m d = (Inr (), d') \<longleftrightarrow>
     slug_free m (items d) \<and> im_subsection_id m \<in> su_id ` set (subsections d) \<and> im_sheet_id m \<in> sh_id ` set (sheets d)
     \<and> d' = d\<lparr>items := update_where (\<lambda>r. im_id r = im_id m) (\<lambda>_. m) (items d)\<rparr>"
  unfolding flush_item_def by (simp add: run_bind run_gets) (auto simp: run_check_constraint run_modify)

lemma flush_item_links_Inr:
  "flush_item_links i rs d = (Inr (), d') \<longleftrightarrow>
     distinct (map rl_resource_id (new_links i (filter (\<lambda>l. rl_item_id l = i) (resource_links d)) rs))
     \<and> d' = d\<lparr>resources := merge_resources rs (resources d), resource_links := replace_item_links i rs (resource_links d)\<rparr>"
  unfolding flush_item_links_def by (simp add: run_bind run_gets) (auto simp: run_check_constraint run_modify)

lemma map_error_Inr: "map_error f m s = (Inr a, s') \<longleftrightarrow> m s = (Inr a, s')"
  by (auto simp: run_map_error split: prod.splits sum.splits)

lemma update_matrix_item_success:
  assumes "update_competency_matrix_item env item d = (Inr it, d')"
  obtains m where "row_by im_id (mi_id item) (items d) = Some m"
    and "slug_free (updated_row env item m) (items d)"
    and "distinct (map rl_resource_id (new_links (mi_id item)
      (filter (\<lambda>l. rl_item_id l = mi_id item) (resource_links d)) (mi_resources item)))"
    and "d' = update_item_rows (updated_row env item m) (mi_resources item) d"
proof -
  obtain m where m: "row_by im_id (mi_id item) (items d) = Some m"
    using assms by (cases "row_by im_id (mi_id item) (items d)")
      (simp_all add: update_competency_matrix_item_def get_competency_matrix_item_model_def run_simps require_def)
  let ?m = "updated_row env item m"
  have id: "im_id ?m = mi_id item"
    using row_by_SomeD[OF m] by (simp add: updated_row_def new_item_fields item_update_fields)
  have "get_competency_matrix_item_model (mi_id item) d = (Inr m, d)"
    using m by (simp add: get_competency_matrix_item_model_def run_simps require_def)
  with assms obtain d1 d2 where
    f: "(if env_merge_flushes env \<and> mi_resources item \<noteq> [] then flush_item ?m else map_error update_item_error (flush_item ?m)) d
          = (Inr (), d1)"
    and l: "map_error update_item_error (flush_item_links (mi_id item) (mi_resources item)) d1 = (Inr (), d2)" and d': "d' = d2"
    unfolding update_competency_matrix_item_def Let_def updated_row_def
    by (elim bind_InrE) (auto simp: run_lift run_gets)
  have f': "flush_item ?m d = (Inr (), d1)" using f by (simp add: map_error_Inr split: if_splits)
  show ?thesis
    using m f' l d' id
    by (intro that[of m]) (auto simp: flush_item_Inr map_error_Inr flush_item_links_Inr update_item_rows_def)
qed

lemma update_row_inv:
  assumes inv: "matrix_inv h d" and m: "row_by im_id i (items d) = Some m" and id: "im_id new = i"
    and free: "slug_free new (items d)" and ok: "item_ok h new"
    and placed: "(im_subsection_id new, im_sheet_id new) \<in> subsection_sheets d"
  shows "items_inv h (d\<lparr>items := update_where (\<lambda>r. im_id r = i) (\<lambda>_. new) (items d)\<rparr>)"
proof -
  let ?d = "d\<lparr>items := update_where (\<lambda>r. im_id r = i) (\<lambda>_. new) (items d)\<rparr>"
  have in_new: "r = new \<or> r \<in> set (items d) \<and> im_id r \<noteq> i" if "r \<in> set (items ?d)" for r
    using that by (auto simp: in_update_where split: if_splits)
  have ids: "map im_id (items ?d) = map im_id (items d)" using id by (simp add: update_where_def)
  have "distinct (map (\<lambda>m. (im_sheet_id m, im_slug m)) (items ?d))"
  proof -
    have "(im_sheet_id new, im_slug new) \<notin> (\<lambda>m. (im_sheet_id m, im_slug m)) ` {r \<in> set (items d). im_id r \<noteq> i}"
      using free id by (auto simp: slug_free_def)
    from distinct_update_where[OF item_facts(1,2)[OF inv] this, of "\<lambda>_. new"] show ?thesis by simp
  qed
  moreover have "(im_subsection_id r, im_sheet_id r) \<in> subsection_sheets ?d" if "r \<in> set (items ?d)" for r
  proof -
    have "subsection_sheets ?d = subsection_sheets d" by (simp add: subsection_sheets_def)
    then show ?thesis using in_new[OF that] placed item_facts(3)[OF inv] by auto
  qed
  moreover have "item_ok h r" if "r \<in> set (items ?d)" for r
    using in_new[OF that] ok item_facts(4)[OF inv] by blast
  ultimately show ?thesis using ids item_facts(1)[OF inv] unfolding items_inv_def by (auto simp only: image_subset_iff)
qed

lemma update_item_rows_inv:
  assumes inv: "matrix_inv h d" and m: "row_by im_id i (items d) = Some m" and id: "im_id new = i"
    and free: "slug_free new (items d)" and ok: "item_ok h new"
    and placed: "(im_subsection_id new, im_sheet_id new) \<in> subsection_sheets d"
    and links: "distinct (map rl_resource_id (new_links i (filter (\<lambda>l. rl_item_id l = i) (resource_links d)) rs))"
  shows "matrix_inv h (update_item_rows new rs d)"
proof (rule matrix_invI)
  let ?d = "update_item_rows new rs d"
  have same: "sheets ?d = sheets d" "sections ?d = sections d" "subsections ?d = subsections d"
    "queued_questions ?d = queued_questions d" by (simp_all add: update_item_rows_def)
  show "structure_keys_inv ?d" "structure_refs_inv ?d" "queue_inv h ?d"
    using matrix_invD[OF inv] same by (simp_all add: structure_keys_inv_def structure_refs_inv_def queue_inv_def)
  have "items_inv h ?d = items_inv h (d\<lparr>items := update_where (\<lambda>r. im_id r = i) (\<lambda>_. new) (items d)\<rparr>)"
    by (rule items_inv_cong) (simp_all add: update_item_rows_def id)
  then show "items_inv h ?d" using update_row_inv[OF inv m id free ok placed] by simp
  have items: "im_id ` set (items ?d) = im_id ` set (items d)"
    unfolding update_item_rows_def using id by (intro set_map_eq) (simp add: update_where_def)
  have "i \<in> im_id ` set (items d)" using m by (rule row_by_key)
  have keys: "resource_links ?d = replace_item_links i rs (resource_links d)" "resources ?d = merge_resources rs (resources d)"
    by (simp_all add: update_item_rows_def id)
  have old: "distinct (map link_key (resource_links d))" using matrix_invD(4)[OF inv] by (simp add: links_inv_keys)
  show "links_inv ?d"
    unfolding links_inv_keys keys items merge_resources_ids
  proof (intro conjI)
    show "distinct (map er_id (merge_resources rs (resources d)))" by (rule merge_resources_ids(2)[OF link_facts(1)[OF inv]])
    show "distinct (map link_key (replace_item_links i rs (resource_links d)))" using old links by (rule replace_links_distinct)
    show "fst ` set (map link_key (replace_item_links i rs (resource_links d))) \<subseteq> im_id ` set (items d)"
      using replace_links_refs(1)[of i rs "resource_links d"] link_facts(3)[OF inv] \<open>i \<in> im_id ` set (items d)\<close> by blast
    show "snd ` set (map link_key (replace_item_links i rs (resource_links d))) \<subseteq> at_id ` set rs \<union> er_id ` set (resources d)"
      using replace_links_refs(2)[of i rs "resource_links d"] link_facts(4)[OF inv] by blast
  qed
qed

text \<open>What a successful update has checked, and the rows it leaves.\<close>

lemma update_item_success:
  assumes "update_item env pub p d = (Inr it, d')"
  obtains m rs st where "row_by im_id (ip_id p) (items d) = Some m"
    and "get_item_structure_by_subsection_id (ip_subsection_id p) d = (Inr st, d)"
    and "PUBLISHED \<in> {im_publish_status m, ip_publish_status p} \<longrightarrow> allowed pub"
    and "ip_publish_status p = PUBLISHED \<longrightarrow> missing_publication_fields (to_item p rs st None (im_suggested_by_username m)) = []"
    and "slug_free (updated_row env (to_item p rs st None (im_suggested_by_username m)) m) (items d)"
    and "distinct (map rl_resource_id (new_links (ip_id p) (filter (\<lambda>l. rl_item_id l = ip_id p) (resource_links d))
      (mi_resources (to_item p rs st None (im_suggested_by_username m)))))"
    and "d' = update_item_rows (updated_row env (to_item p rs st None (im_suggested_by_username m)) m)
      (mi_resources (to_item p rs st None (im_suggested_by_username m))) d"
proof -
  from assms obtain rs d1 st d2 ex d3 d4 d5 where
    run: "assigned_resources p d = (Inr rs, d1)" "get_item_structure_by_subsection_id (ip_subsection_id p) d1 = (Inr st, d2)"
      "get_competency_matrix_item (ip_id p) d2 = (Inr ex, d3)"
      "ensure_allowed pub [mi_publish_status ex, ip_publish_status p] d3 = (Inr (), d4)"
      "ensure_ready_if_published (to_item p rs st None (mi_suggested_by_username ex)) d4 = (Inr (), d5)"
      "update_competency_matrix_item env (to_item p rs st None (mi_suggested_by_username ex)) d5 = (Inr it, d')"
    unfolding update_item_def Let_def by (elim bind_InrE) auto
  have d1: "d1 = d" using assigned_resources_state[OF run(1)] .
  have d2: "d2 = d" using structure_of_subsection(1)[OF run(2)] d1 by simp
  have d3: "d3 = d" using get_item_state[OF run(3)] d2 by simp
  have d4: "d4 = d" and pub: "PUBLISHED \<in> {mi_publish_status ex, ip_publish_status p} \<longrightarrow> allowed pub"
    using run(4) d3 unfolding ensure_allowed_Inr by simp_all
  have d5: "d5 = d" and ready: "ip_publish_status p = PUBLISHED \<longrightarrow>
      missing_publication_fields (to_item p rs st None (mi_suggested_by_username ex)) = []"
    using run(5) d4 by (simp_all add: ready_if_published_run)
  obtain m where m: "row_by im_id (ip_id p) (items d) = Some m" "mi_publish_status ex = im_publish_status m"
    "mi_suggested_by_username ex = im_suggested_by_username m"
    using run(3) d2 by (auto elim: get_item_fields)
  obtain m' where "row_by im_id (ip_id p) (items d) = Some m'"
    "slug_free (updated_row env (to_item p rs st None (mi_suggested_by_username ex)) m') (items d)"
    "distinct (map rl_resource_id (new_links (ip_id p) (filter (\<lambda>l. rl_item_id l = ip_id p) (resource_links d))
      (mi_resources (to_item p rs st None (mi_suggested_by_username ex)))))"
    "d' = update_item_rows (updated_row env (to_item p rs st None (mi_suggested_by_username ex)) m')
      (mi_resources (to_item p rs st None (mi_suggested_by_username ex))) d"
    using update_matrix_item_success[OF run(6)[unfolded d5]] by (metis to_item_fields(1))
  then show ?thesis
    using m run(2) d1 d2 pub ready by (intro that[of m st rs]) (simp_all del: insert_iff)
qed

lemma updated_row_ok:
  assumes "env_sha256 env = h" and "mi_publish_status item = PUBLISHED \<longrightarrow> missing_publication_fields item = []"
  shows "item_ok h (updated_row env item m)"
  unfolding updated_row_def new_item_fields(8) item_update_fields using assms
  by (simp add: item_update_from_domain_def fingerprint_digest_def)

lemma update_item_keeps:
  assumes "env_sha256 env = h"
  shows "keeps (matrix_inv h) (transactional (update_item env pub p))"
proof (rule keeps_transactional_success)
  fix d it d' assume inv: "matrix_inv h d" and "update_item env pub p d = (Inr it, d')"
  then show "matrix_inv h d'"
  proof (elim update_item_success)
    fix m :: item_model and rs st
    let ?item = "to_item p rs st None (im_suggested_by_username m)"
    assume m: "row_by im_id (ip_id p) (items d) = Some m"
      and st: "get_item_structure_by_subsection_id (ip_subsection_id p) d = (Inr st, d)"
      and ready: "ip_publish_status p = PUBLISHED \<longrightarrow> missing_publication_fields ?item = []"
      and free: "slug_free (updated_row env ?item m) (items d)"
      and links: "distinct (map rl_resource_id (new_links (ip_id p) (filter (\<lambda>l. rl_item_id l = ip_id p) (resource_links d)) (mi_resources ?item)))"
      and d': "d' = update_item_rows (updated_row env ?item m) (mi_resources ?item) d"
    have id: "im_id (updated_row env ?item m) = ip_id p"
      using row_by_SomeD[OF m] by (simp add: updated_row_def new_item_fields item_update_fields)
    have "(im_subsection_id (updated_row env ?item m), im_sheet_id (updated_row env ?item m)) \<in> subsection_sheets d"
      using structure_of_subsection(3)[OF st] by (simp add: updated_row_def new_item_fields item_update_fields)
    from update_item_rows_inv[OF inv m id free updated_row_ok[OF assms] this links] ready d'
    show "matrix_inv h d'" by simp
  qed
qed

section \<open>Deleting and switching\<close>

lemma remove_items_inv:
  assumes inv: "matrix_inv h d"
  shows "matrix_inv h (remove_items p d)"
proof (rule matrix_invI)
  let ?d = "remove_items p d"
  show "structure_keys_inv ?d" "structure_refs_inv ?d" "queue_inv h ?d"
    using matrix_invD[OF inv] by (simp_all add: structure_keys_inv_def structure_refs_inv_def queue_inv_def remove_items_def)
  show "items_inv h ?d"
    using matrix_invD(3)[OF inv]
    by (auto simp: items_inv_def remove_items_def distinct_map_delete_where subsection_sheets_def)
  have "rl_item_id l \<in> im_id ` set (items ?d)" if l: "l \<in> set (resource_links ?d)" for l
  proof -
    from l have "l \<in> set (resource_links d)" by (simp add: remove_items_def)
    then obtain m where m: "m \<in> set (items d)" "im_id m = rl_item_id l"
      using link_facts(3)[OF inv] by (metis image_iff image_subset_iff)
    with l have "\<not> p m" by (auto simp: remove_items_def)
    with m show ?thesis by (auto simp: remove_items_def intro: rev_image_eqI)
  qed
  moreover have "distinct (map (\<lambda>l. (rl_item_id l, rl_resource_id l)) (resource_links ?d))" "resources ?d = resources d"
    "rl_resource_id ` set (resource_links ?d) \<subseteq> er_id ` set (resources d)"
    using link_facts(2,4)[OF inv] by (auto simp: remove_items_def distinct_map_delete_where)
  ultimately show "links_inv ?d" using link_facts(1)[OF inv] unfolding links_inv_def by (simp add: image_subset_iff)
qed

lemma delete_item_keeps: "keeps (matrix_inv h) (delete_item pub i)"
  unfolding delete_item_def delete_competency_matrix_item_def get_competency_matrix_item_model_def get_competency_matrix_item_def
  by (intro keeps_intros keeps_modify remove_items_inv)

lemma switch_item_success:
  assumes "switch_item_publish_status env pub i status d = (Inr (), d')"
  obtains m where "row_by im_id i (items d) = Some m" and "allowed pub" and "status = PUBLISHED \<longrightarrow> ready m"
    and "d' = d\<lparr>items := update_where (\<lambda>r. im_id r = i)
      (\<lambda>r. ensure_first_published_at env (r\<lparr>im_publish_status := status\<rparr>)) (items d)\<rparr>"
proof -
  from assms obtain d1 d2 where
    run: "ensure_allowed pub [PUBLISHED] d = (Inr (), d1)"
      "(if status = PUBLISHED then bind (get_competency_matrix_item i) ensure_public_ready else ret ()) d1 = (Inr (), d2)"
      "update_competency_matrix_item_publish_status env i status d2 = (Inr (), d')"
    unfolding switch_item_publish_status_def by (elim bind_InrE) auto
  have d1: "d1 = d" and pub: "allowed pub" using run(1) unfolding ensure_allowed_Inr by simp_all
  have d2: "d2 = d \<and> (status = PUBLISHED \<longrightarrow> (\<exists>m. row_by im_id i (items d) = Some m \<and> ready m))"
  proof (cases "status = PUBLISHED")
    case True
    then obtain it d3 where it: "get_competency_matrix_item i d = (Inr it, d3)" and e: "ensure_public_ready it d3 = (Inr (), d2)"
      using run(2) d1 by (auto elim: bind_InrE)
    have "missing_publication_fields it = []" "d2 = d3"
      using e by (auto simp: ensure_public_ready_def Let_def run_simps split: if_splits)
    moreover have "d3 = d" using get_item_state[OF it] .
    ultimately show ?thesis using it by (auto elim: get_item_fields)
  next
    case False
    then show ?thesis using run(2) d1 by (simp add: run_ret)
  qed
  obtain m where m: "row_by im_id i (items d) = Some m"
    using run(3) d2 by (cases "row_by im_id i (items d)")
      (simp_all add: update_competency_matrix_item_publish_status_def get_competency_matrix_item_model_def run_simps require_def)
  show ?thesis
    using run(3) d2 m pub
    by (intro that[of m]) (auto simp: update_competency_matrix_item_publish_status_def get_competency_matrix_item_model_def
        run_simps require_def)
qed

lemma update_where_single:
  assumes "distinct (map key rows)" and "row_by key i rows = Some m"
  shows "update_where (\<lambda>r. key r = i) f rows = update_where (\<lambda>r. key r = i) (\<lambda>_. f m) rows"
  using same_row[OF assms(1)] row_by_SomeD[OF assms(2)] unfolding update_where_def by (intro map_cong) auto

lemma switch_item_keeps:
  "keeps (matrix_inv h) (transactional (switch_item_publish_status env pub i status))"
proof (rule keeps_transactional_success)
  fix d r d' assume inv: "matrix_inv h d" and run: "switch_item_publish_status env pub i status d = (Inr r, d')"
  from run obtain m where m: "row_by im_id i (items d) = Some m" and ready: "status = PUBLISHED \<longrightarrow> ready m"
    and d': "d' = d\<lparr>items := update_where (\<lambda>r. im_id r = i)
      (\<lambda>r. ensure_first_published_at env (r\<lparr>im_publish_status := status\<rparr>)) (items d)\<rparr>"
    by (cases r) (auto elim: switch_item_success)
  let ?new = "ensure_first_published_at env (m\<lparr>im_publish_status := status\<rparr>)"
  have mem: "m \<in> set (items d)" "im_id m = i" using row_by_SomeD[OF m] by simp_all
  have d'': "d' = d\<lparr>items := update_where (\<lambda>r. im_id r = i) (\<lambda>_. ?new) (items d)\<rparr>"
    unfolding d' by (subst update_where_single[OF item_facts(1)[OF inv] m]) (rule refl)
  have same: "im_id ?new = i" "im_slug ?new = im_slug m" "im_sheet_id ?new = im_sheet_id m" "im_subsection_id ?new = im_subsection_id m"
    using mem by (simp_all add: new_item_fields)
  have "r = m" if "r \<in> set (items d)" "im_sheet_id r = im_sheet_id m" "im_slug r = im_slug m" for r
    using same_row[OF item_facts(2)[OF inv] that(1) mem(1)] that by simp
  then have free: "slug_free ?new (items d)" using mem same by (auto simp: slug_free_def)
  have "item_ok h m" using item_facts(4)[OF inv] mem by blast
  then have ok: "item_ok h ?new" using ready unfolding new_item_fields(8) by (auto simp: item_ok_def ready_def)
  have "(im_subsection_id ?new, im_sheet_id ?new) \<in> subsection_sheets d"
    unfolding same using item_facts(3)[OF inv] mem by blast
  from update_row_inv[OF inv m same(1) free ok this] have items: "items_inv h d'" unfolding d'' .
  show "matrix_inv h d'"
  proof (rule matrix_invI)
    show "items_inv h d'" by fact
    show "links_inv d'" unfolding d''
      by (subst links_inv_cong[of _ d]) (use matrix_invD(4)[OF inv] same set_map_eq[of im_id "update_where (\<lambda>r. im_id r = i) (\<lambda>_. ?new) (items d)" "items d"]
        in \<open>simp_all add: update_where_def\<close>)
  qed (use matrix_invD(1,2,5)[OF inv] in \<open>simp_all add: d'' structure_keys_inv_def structure_refs_inv_def queue_inv_def\<close>)
qed

end
