(* ===== verification/Matrix_Properties.thy ===== *)
theory Matrix_Properties
  imports Matrix_Items "HOL-Library.Multiset"
begin

text \<open>
  Properties of the competency matrix: what holds after any history of requests, what a deletion
  removes, what callers without permission to publish cannot change, the way of a question from the
  queue into the matrix, reordering, and the uniqueness of suggestions.
\<close>

section \<open>Reading a question\<close>

lemma subsection_structure_total:
  assumes inv: "matrix_inv h d" and su: "su \<in> set (subsections d)"
  shows "\<exists>st. to_item_structure d su = Inr st"
proof -
  obtain se where se: "require AttributeError (row_by se_id (su_section_id su) (sections d)) = Inr se"
    using require_found[OF subsetD[OF structure_facts(6)[OF inv] imageI[OF su]], of AttributeError] by blast
  then have "se \<in> set (sections d)" by (auto simp: require_Inr dest: row_by_SomeD)
  then obtain sh where "require AttributeError (row_by sh_id (se_sheet_id se) (sheets d)) = Inr sh"
    using require_found[OF subsetD[OF structure_facts(5)[OF inv] imageI], of se AttributeError] by blast
  with se show ?thesis by (simp add: to_item_structure_def)
qed

lemma item_to_domain_total:
  assumes inv: "matrix_inv h d" and m: "m \<in> set (items d)" and links: "set links \<subseteq> set (resource_links d)"
  shows "\<exists>it. item_to_domain d links m = Inr it"
proof -
  have "im_subsection_id m \<in> su_id ` set (subsections d)"
    using item_facts(3)[OF inv] m by (auto simp: subsection_sheets_def)
  then obtain su where su: "require AttributeError (row_by su_id (im_subsection_id m) (subsections d)) = Inr su"
    using require_found[of "im_subsection_id m" su_id "subsections d" AttributeError] by blast
  then have "su \<in> set (subsections d)" by (auto simp: require_Inr dest: row_by_SomeD)
  then obtain st where st: "to_item_structure d su = Inr st" using subsection_structure_total[OF inv] by blast
  have "\<exists>a. link_to_domain d l = Inr a" if "l \<in> set links" for l
  proof -
    have "rl_resource_id l \<in> er_id ` set (resources d)" using link_facts(4)[OF inv] links that by blast
    from require_found[OF this, of AttributeError] show ?thesis by (auto simp: link_to_domain_def)
  qed
  then obtain g where "\<And>l. l \<in> set links \<Longrightarrow> link_to_domain d l = Inr (g l)" by metis
  then have "all_or_error (map (link_to_domain d) links) = Inr (map g links)" by (rule all_or_error_total)
  then show ?thesis using su st by (simp add: item_to_domain_def)
qed

lemma item_found:
  assumes inv: "matrix_inv h d" and m: "m \<in> set (items d)"
  shows "\<exists>it. get_competency_matrix_item (im_id m) d = (Inr it, d)"
proof -
  have "row_by im_id (im_id m) (items d) = Some m" using m item_facts(1)[OF inv] by (simp add: row_by_Some_iff)
  moreover obtain it where "item_to_domain d (item_links d m) m = Inr it"
    using item_to_domain_total[OF inv m, of "item_links d m"] by (auto simp: item_links_def)
  ultimately show ?thesis by (simp add: get_competency_matrix_item_def run_simps)
qed

section \<open>A sample matrix\<close>

definition sample_sheet :: sheet_model where
  "sample_sheet = \<lparr>sh_id = u ''id0'', sh_key = u ''py'', sh_name_ru = u ''P'', sh_name_en = u ''P'', sh_priority = 1\<rparr>"

definition sample_section :: section_model where
  "sample_section = \<lparr>se_id = u ''id0'', se_sheet_id = u ''id0'', se_name_ru = u ''S'', se_name_en = u ''S'', se_priority = 1\<rparr>"

definition sample_subsection :: subsection_model where
  "sample_subsection = \<lparr>su_id = u ''id0'', su_section_id = u ''id0'', su_name_ru = u ''T'', su_name_en = u ''T'', su_priority = 1\<rparr>"

definition sample_params :: item_params where
  "sample_params = \<lparr>ip_id = u ''q1'', ip_slug = u ''gil'', ip_question_ru = u ''Q'', ip_question_en = u ''Q'',
     ip_publish_status = PUBLISHED, ip_answer_ru = u ''A'', ip_answer_en = u ''A'', ip_explanation_ru = u ''E'',
     ip_explanation_en = u ''E'', ip_subsection_id = u ''id0'', ip_grade = Some JUNIOR, ip_interview_frequency = None,
     ip_resources = [NewAttachment \<lparr>er_id = u ''r1'', er_name_ru = u ''R'', er_name_en = u ''R'', er_url = u ''http''\<rparr> [] []]\<rparr>"

definition sample_item :: item_model where
  "sample_item = \<lparr>im_id = u ''q1'', im_slug = u ''gil'', im_sheet_id = u ''id0'', im_question_ru = u ''Q'', im_question_en = u ''Q'',
     im_question_ru_fingerprint = u ''q'', im_question_en_fingerprint = u ''q'', im_answer_ru = u ''A'', im_answer_en = u ''A'',
     im_explanation_ru = u ''E'', im_explanation_en = u ''E'', im_subsection_id = u ''id0'', im_grade = Some JUNIOR,
     im_interview_frequency = None, im_suggested_by_username = u ''me'', im_published_at = Some 1000,
     im_publish_status = PUBLISHED\<rparr>"

definition sample_tree :: db where
  "sample_tree = empty_db\<lparr>sheets := [sample_sheet], sections := [sample_section], subsections := [sample_subsection]\<rparr>"

definition sample_matrix :: db where
  "sample_matrix = sample_tree\<lparr>items := [sample_item],
     resources := [\<lparr>er_id = u ''r1'', er_name_ru = u ''R'', er_name_en = u ''R'', er_url = u ''http''\<rparr>],
     resource_links := [\<lparr>rl_item_id = u ''q1'', rl_resource_id = u ''r1'', rl_context_ru = [], rl_context_en = []\<rparr>]\<rparr>"

lemma sample_tree_run:
  "snd (transactional (create_sheet sample_env \<lparr>shp_key = u ''py'', shp_name_ru = u ''P'', shp_name_en = u ''P''\<rparr>) empty_db) =
     empty_db\<lparr>sheets := [sample_sheet]\<rparr>"
  "snd (transactional (create_section sample_env \<lparr>sep_sheet_id = u ''id0'', sep_name_ru = u ''S'', sep_name_en = u ''S''\<rparr>)
     (empty_db\<lparr>sheets := [sample_sheet]\<rparr>)) = empty_db\<lparr>sheets := [sample_sheet], sections := [sample_section]\<rparr>"
  "snd (transactional (create_subsection sample_env \<lparr>sup_section_id = u ''id0'', sup_name_ru = u ''T'', sup_name_en = u ''T''\<rparr>)
     (empty_db\<lparr>sheets := [sample_sheet], sections := [sample_section]\<rparr>)) = sample_tree"
  by code_simp+

lemma sample_item_run:
  "snd (transactional (create_item sample_env \<lparr>allowed = True\<rparr> sample_params (u ''me'')) sample_tree) = sample_matrix"
proof -
  let ?st = "\<lparr>ns_sheet_id = u ''id0'', ns_sheet_key = u ''py'', ns_sheet_ru = u ''P'', ns_sheet_en = u ''P'', ns_section_id = u ''id0'',
    ns_section_ru = u ''S'', ns_section_en = u ''S'', ns_subsection_id = u ''id0'', ns_subsection_ru = u ''T'', ns_subsection_en = u ''T''\<rparr>"
  let ?item = "to_item sample_params [] ?st None (u ''me'')"
  have finger: "fingerprint_value (u ''Q'') = u ''q''"
    by (simp add: fingerprint_value_def split_words_def u_def is_space_def casefold_def casefold_char_def lower_char_def)
  have res: "assigned_resources sample_params sample_tree = (Inr [], sample_tree)"
    by (simp add: assigned_resources_def sample_params_def get_resource_ids_to_assign_def all_resources_exists_by_ids_def run_simps)
  have str: "get_item_structure_by_subsection_id (ip_subsection_id sample_params) sample_tree = (Inr ?st, sample_tree)"
    by (simp add: get_item_structure_by_subsection_id_def get_subsection_model_def to_item_structure_def sample_params_def
        sample_tree_def sample_sheet_def sample_section_def sample_subsection_def row_by_def require_def run_simps)
  have ready: "ensure_ready_if_published ?item sample_tree = (Inr (), sample_tree)"
    unfolding ready_if_published_run missing_Nil_iff
    by (simp add: to_item_def sample_params_def u_def strip_def strip_by_def is_space_def)
  have row: "ensure_first_published_at sample_env (item_from_domain sample_env ?item) = sample_item"
    by (simp add: ensure_first_published_at_def item_from_domain_def to_item_def sample_params_def fingerprint_digest_def finger
        sample_env_def sample_item_def)
  have new: "mi_resources ?item = [attach \<lparr>er_id = u ''r1'', er_name_ru = u ''R'', er_name_en = u ''R'', er_url = u ''http''\<rparr> [] []]"
    by (simp add: to_item_def sample_params_def attached_existing_def attached_new_def)
  have ins: "insertable sample_item (mi_resources ?item) sample_tree"
    by (simp add: insertable_def new slug_free_def sample_item_def sample_tree_def sample_sheet_def sample_section_def
        sample_subsection_def empty_db_def)
  have rows: "insert_item_rows sample_item (mi_resources ?item) sample_tree = sample_matrix"
    by (simp add: insert_item_rows_def new merge_resources_def merge_resource_def to_external_resource_def attach_def
        new_link_def sample_matrix_def sample_tree_def empty_db_def sample_item_def)
  have made: "snd (create_competency_matrix_item sample_env ?item sample_tree) = sample_matrix"
    "fst (create_competency_matrix_item sample_env ?item sample_tree) = fst (get_competency_matrix_item (mi_id ?item) sample_matrix)"
    unfolding create_competency_matrix_item_def Let_def row run_bind run_map_error flush_new_item_run[OF ins] rows
    by (auto dest: get_item_state simp: prod.case_eq_if intro: surjective_pairing[symmetric]) (metis get_item_state prod.collapse)
  have "\<exists>it. fst (get_competency_matrix_item (mi_id ?item) sample_matrix) = Inr it"
    by (simp add: get_competency_matrix_item_def item_to_domain_def to_item_structure_def link_to_domain_def item_links_def
        sample_params_def to_item_def sample_matrix_def sample_tree_def sample_sheet_def sample_section_def sample_subsection_def
        sample_item_def row_by_def require_def run_simps)
  then show ?thesis
    using made
    by (auto simp: create_item_def run_transactional run_bind run_ensure_allowed res str Let_def ready split: prod.splits sum.splits)
qed

section \<open>Histories\<close>

text \<open>One request of an administrator or of the queue, in its own transaction.\<close>

inductive matrix_step :: "(pystr \<Rightarrow> pystr) \<Rightarrow> db \<Rightarrow> db \<Rightarrow> bool" for h where
  create_sheet: "matrix_step h d (snd (transactional (create_sheet env shp) d))"
| create_section: "matrix_step h d (snd (transactional (create_section env sep) d))"
| create_subsection: "matrix_step h d (snd (transactional (create_subsection env subp) d))"
| delete_node: "matrix_step h d (snd (transactional (delete_structure_node kind i force) d))"
| sheet_order: "matrix_step h d (snd (transactional (update_sheet_priorities ids) d))"
| section_order: "matrix_step h d (snd (transactional (update_section_priorities i ids) d))"
| subsection_order: "matrix_step h d (snd (transactional (update_subsection_priorities i ids) d))"
| create_item: "env_sha256 env = h \<Longrightarrow> matrix_step h d (snd (transactional (create_item env pub p by_user) d))"
| from_queue: "env_sha256 env = h \<Longrightarrow> matrix_step h d (snd (transactional (create_item_from_queue env pub qid p) d))"
| update_item: "env_sha256 env = h \<Longrightarrow> matrix_step h d (snd (transactional (update_item env pub p) d))"
| delete_item: "matrix_step h d (snd (transactional (delete_item pub i) d))"
| switch_item: "matrix_step h d (snd (transactional (switch_item_publish_status env pub i status) d))"
| suggest: "env_sha256 env = h \<Longrightarrow> matrix_step h d (snd (transactional (create_queued_question env qp by_user) d))"
| import_questions: "env_sha256 env = h \<Longrightarrow> matrix_step h d (snd (transactional (import_queued_questions env qps by_user) d))"
| delete_queued: "matrix_step h d (snd (transactional (delete_queued_question qid) d))"

lemmas matrix_keeps =
  create_sheet_keeps create_section_keeps create_subsection_keeps delete_structure_node_keeps update_sheet_priorities_keeps
  update_section_priorities_keeps update_subsection_priorities_keeps delete_item_keeps create_queued_question_keeps
  import_queued_questions_keeps delete_queued_question_keeps

interpretation matrix: machine "\<lambda>d. d = empty_db" "matrix_step h" "matrix_inv h" for h
proof
  fix d d' assume "matrix_step h d d'" "matrix_inv h d"
  then show "matrix_inv h d'"
    by cases (auto intro: keepsD[OF keeps_transactional] keepsD matrix_keeps create_item_keeps create_from_queue_keeps
        update_item_keeps switch_item_keeps)
qed (simp add: matrix_inv_empty)

text \<open>C4: after any history of requests on the matrix, every published question is served to the public
  by its identifier, complete and with a publication date; slugs are unique in a sheet, names are
  unique among siblings without regard to case, and every question belongs to a subsection of its own
  sheet.\<close>

theorem reachable_matrix_sound:
  assumes "(matrix_step h)\<^sup>*\<^sup>* empty_db d"
  shows "(\<forall>m \<in> set (items d). im_publish_status m = PUBLISHED \<longrightarrow>
      im_published_at m \<noteq> None
      \<and> (\<exists>it. get_item (im_id m) True d = (Inr it, d) \<and> missing_publication_fields it = []))
    \<and> distinct (map (\<lambda>m. (im_sheet_id m, im_slug m)) (items d))
    \<and> distinct (map (\<lambda>sh. lower (sh_key sh)) (sheets d))
    \<and> distinct (map (\<lambda>se. (se_sheet_id se, lower (se_name_ru se))) (sections d))
    \<and> distinct (map (\<lambda>su. (su_section_id su, lower (su_name_ru su))) (subsections d))
    \<and> (\<forall>m \<in> set (items d). \<exists>su \<in> set (subsections d). \<exists>se \<in> set (sections d).
        su_id su = im_subsection_id m \<and> se_id se = su_section_id su \<and> se_sheet_id se = im_sheet_id m
        \<and> im_sheet_id m \<in> sh_id ` set (sheets d))"
proof -
  have inv: "matrix_inv h d" by (rule matrix.reachable_inv[OF refl assms])
  have served: "im_published_at m \<noteq> None \<and> (\<exists>it. get_item (im_id m) True d = (Inr it, d) \<and> missing_publication_fields it = [])"
    if m: "m \<in> set (items d)" and pub: "im_publish_status m = PUBLISHED" for m
  proof -
    have ok: "ready m" "im_published_at m \<noteq> None" using item_facts(4)[OF inv m] pub by (simp_all add: item_ok_def)
    obtain it where it: "get_competency_matrix_item (im_id m) d = (Inr it, d)" using item_found[OF inv m] by blast
    have row: "row_by im_id (im_id m) (items d) = Some m" using m item_facts(1)[OF inv] by (simp add: row_by_Some_iff)
    have "missing_publication_fields it = []" "mi_publish_status it = PUBLISHED"
      using it by (auto elim!: get_item_fields simp: row pub ok)
    then have "get_item (im_id m) True d = (Inr it, d) \<and> missing_publication_fields it = []"
      using it by (simp add: get_item_def run_simps item_is_available_def has_missing_publication_fields_def)
    then show ?thesis using ok by blast
  qed
  have placed: "\<exists>su \<in> set (subsections d). \<exists>se \<in> set (sections d).
        su_id su = im_subsection_id m \<and> se_id se = su_section_id su \<and> se_sheet_id se = im_sheet_id m
        \<and> im_sheet_id m \<in> sh_id ` set (sheets d)" if "m \<in> set (items d)" for m
  proof -
    have "(im_subsection_id m, im_sheet_id m) \<in> subsection_sheets d" using item_facts(3)[OF inv] that by blast
    then obtain su se where "su \<in> set (subsections d)" "se \<in> set (sections d)" "su_id su = im_subsection_id m"
      "se_id se = su_section_id su" "se_sheet_id se = im_sheet_id m" by (auto simp: subsection_sheets_def)
    moreover from this have "im_sheet_id m \<in> sh_id ` set (sheets d)" using structure_facts(5)[OF inv] by (metis image_subset_iff)
    ultimately show ?thesis by blast
  qed
  show ?thesis
    using served placed item_facts(2)[OF inv] structure_facts(4)[OF inv] matrix_invD(1)[OF inv]
    unfolding structure_keys_inv_def by blast
qed

lemma sample_tree_reachable: "(matrix_step (env_sha256 sample_env))\<^sup>*\<^sup>* empty_db sample_tree"
proof -
  let ?step = "matrix_step (env_sha256 sample_env)"
  have "?step empty_db (empty_db\<lparr>sheets := [sample_sheet]\<rparr>)"
    unfolding sample_tree_run(1)[symmetric] by (rule matrix_step.create_sheet)
  moreover have "?step (empty_db\<lparr>sheets := [sample_sheet]\<rparr>) (empty_db\<lparr>sheets := [sample_sheet], sections := [sample_section]\<rparr>)"
    unfolding sample_tree_run(2)[symmetric] by (rule matrix_step.create_section)
  moreover have "?step (empty_db\<lparr>sheets := [sample_sheet], sections := [sample_section]\<rparr>) sample_tree"
    unfolding sample_tree_run(3)[symmetric] by (rule matrix_step.create_subsection)
  ultimately show ?thesis
    by (rule rtranclp.rtrancl_into_rtrancl[OF rtranclp.rtrancl_into_rtrancl[OF r_into_rtranclp]])
qed

lemma sample_reachable: "(matrix_step (env_sha256 sample_env))\<^sup>*\<^sup>* empty_db sample_matrix"
  by (rule rtranclp.rtrancl_into_rtrancl[OF sample_tree_reachable])
     (unfold sample_item_run[symmetric], rule matrix_step.create_item, rule refl)

theorem reachable_matrix_sound_witness:
  "\<exists>it. get_item (u ''q1'') True sample_matrix = (Inr it, sample_matrix) \<and> missing_publication_fields it = []"
proof -
  have "sample_item \<in> set (items sample_matrix)" "im_publish_status sample_item = PUBLISHED" "im_id sample_item = u ''q1''"
    by (simp_all add: sample_matrix_def sample_item_def)
  then show ?thesis using reachable_matrix_sound[OF sample_reachable] by metis
qed

lemma sample_inv: "matrix_inv (env_sha256 sample_env) sample_matrix"
  by (rule matrix.reachable_inv[OF refl sample_reachable])

section \<open>Deletion\<close>

text \<open>C12: deleting a sheet, a section or a subsection removes exactly the node, the sections, subsections
  and questions below it and the resource links of those questions, and nothing else; it is refused,
  without any change, when the node does not exist or when questions are below it and their deletion
  was not requested.\<close>

theorem delete_subtree_exact:
  assumes "matrix_inv h d"
  shows "delete_structure_node kind i force d =
    (if \<not> node_exists kind i d then (Inl CompetencyMatrixStructureNotFoundError, d)
     else if (\<exists>m \<in> set (items d). item_below kind i d m) \<and> \<not> force
     then (Inl CompetencyMatrixStructureContainsQuestionsError, d)
     else (Inr (), remove_subtree kind i d))"
  by (rule delete_structure_node_run[OF assms])

theorem delete_subtree_exact_witness:
  "delete_structure_node NODE_SECTION (u ''id0'') False sample_matrix =
     (Inl CompetencyMatrixStructureContainsQuestionsError, sample_matrix)"
proof -
  have "node_exists NODE_SECTION (u ''id0'') sample_matrix" "\<exists>m \<in> set (items sample_matrix). item_below NODE_SECTION (u ''id0'') sample_matrix m"
    by (simp_all add: node_exists_def item_below_def subsection_below_def section_below_def sample_matrix_def sample_tree_def
        sample_section_def sample_subsection_def sample_item_def)
  then show ?thesis using delete_subtree_exact[OF sample_inv, of NODE_SECTION "u ''id0''" False] by simp
qed

section \<open>Publication\<close>

definition published_items :: "db \<Rightarrow> item_model list" where
  "published_items d = filter (\<lambda>m. im_publish_status m = PUBLISHED) (items d)"

lemma transactional_unchanged:
  "(\<And>a s'. m s = (Inr a, s') \<Longrightarrow> f s' = f s) \<Longrightarrow> f (snd (transactional m s)) = f s"
  by (simp add: run_transactional split: prod.split sum.split)

lemma published_insert:
  "im_publish_status m \<noteq> PUBLISHED \<Longrightarrow> published_items (insert_item_rows m rs d) = published_items d"
  by (simp add: published_items_def insert_item_rows_def)

lemma created_row_status [simp]: "im_publish_status (created_row env p rs st by_user) = ip_publish_status p"
  by (simp add: created_row_def new_item_fields item_from_domain_fields)

lemma filter_update_drafts:
  "(\<And>r. r \<in> set rows \<Longrightarrow> q r \<Longrightarrow> \<not> P r \<and> \<not> P (f r)) \<Longrightarrow> filter P (update_where q f rows) = filter P rows"
  by (induction rows) (auto simp: update_where_def)

text \<open>C6: a caller without permission to publish never adds, changes or removes a published question:
  whichever write operation on questions it calls, with whatever outcome, the published rows stay
  exactly as they were.\<close>

theorem published_questions_guarded:
  assumes inv: "matrix_inv h d" and no: "\<not> allowed pub"
  shows "published_items (snd (transactional (create_item env pub p by_user) d)) = published_items d
    \<and> published_items (snd (transactional (create_item_from_queue env pub qid p) d)) = published_items d
    \<and> published_items (snd (transactional (update_item env pub p) d)) = published_items d
    \<and> published_items (snd (transactional (delete_item pub i) d)) = published_items d
    \<and> published_items (snd (transactional (switch_item_publish_status env pub i status) d)) = published_items d"
proof (intro conjI)
  show "published_items (snd (transactional (create_item env pub p by_user) d)) = published_items d"
    by (rule transactional_unchanged, elim create_item_success) (simp add: creation_def no published_insert)
  show "published_items (snd (transactional (create_item_from_queue env pub qid p) d)) = published_items d"
  proof (rule transactional_unchanged, elim create_from_queue_success)
    fix d' q rs st
    assume c: "creation env pub p (qm_suggested_by_username q) d rs st"
      and d': "d' = (insert_item_rows (created_row env p rs st (qm_suggested_by_username q))
        (mi_resources (to_item p rs st None (qm_suggested_by_username q))) d)
      \<lparr>queued_questions := delete_where (\<lambda>q. qm_id q = qid) (queued_questions d)\<rparr>"
    have "published_items d' = published_items (insert_item_rows (created_row env p rs st (qm_suggested_by_username q))
        (mi_resources (to_item p rs st None (qm_suggested_by_username q))) d)"
      unfolding d' by (simp add: published_items_def)
    then show "published_items d' = published_items d" using c no by (simp add: creation_def published_insert)
  qed
  show "published_items (snd (transactional (update_item env pub p) d)) = published_items d"
  proof (rule transactional_unchanged, elim update_item_success)
    fix d' and m :: item_model and rs st
    let ?item = "to_item p rs st None (im_suggested_by_username m)"
    assume m: "row_by im_id (ip_id p) (items d) = Some m"
      and pub: "PUBLISHED \<in> {im_publish_status m, ip_publish_status p} \<longrightarrow> allowed pub"
      and d': "d' = update_item_rows (updated_row env ?item m) (mi_resources ?item) d"
    have id: "im_id (updated_row env ?item m) = ip_id p" and new: "im_publish_status (updated_row env ?item m) = ip_publish_status p"
      using row_by_SomeD[OF m] by (simp_all add: updated_row_def new_item_fields item_update_fields)
    have "r = m" if "r \<in> set (items d)" "im_id r = ip_id p" for r
      using same_row[OF item_facts(1)[OF inv] that(1)] row_by_SomeD[OF m] that(2) by simp
    then show "published_items d' = published_items d"
      unfolding published_items_def d' update_item_rows_def id using pub no new
      by (simp, intro filter_update_drafts) auto
  qed
  show "published_items (snd (transactional (delete_item pub i) d)) = published_items d"
  proof (rule transactional_unchanged)
    fix a d' assume "delete_item pub i d = (Inr a, d')"
    then obtain it d1 d2 where run: "get_competency_matrix_item i d = (Inr it, d1)"
      "ensure_allowed pub [mi_publish_status it] d1 = (Inr (), d2)" "delete_competency_matrix_item i d2 = (Inr (), d')"
      unfolding delete_item_def by (elim bind_InrE) auto
    have d1: "d1 = d" using get_item_state[OF run(1)] .
    have d2: "d2 = d" and draft: "mi_publish_status it \<noteq> PUBLISHED" using run(2) d1 no unfolding ensure_allowed_Inr by auto
    obtain m where m: "row_by im_id i (items d) = Some m" "im_publish_status m \<noteq> PUBLISHED"
      using run(1) draft by (auto elim: get_item_fields)
    have d': "d' = remove_items (\<lambda>r. im_id r = i) d"
      using run(3) m d2
      by (simp add: delete_competency_matrix_item_def get_competency_matrix_item_model_def run_simps require_def)
    have "r = m" if "r \<in> set (items d)" "im_id r = i" for r
      using same_row[OF item_facts(1)[OF inv] that(1)] row_by_SomeD[OF m(1)] that(2) by simp
    then show "published_items d' = published_items d"
      using m(2) unfolding published_items_def d' remove_items_def delete_where_def by (simp, intro filter_cong) auto
  qed
  show "published_items (snd (transactional (switch_item_publish_status env pub i status) d)) = published_items d"
    by (rule transactional_unchanged) (metis no old.unit.exhaust switch_item_success)
qed

theorem published_questions_guarded_witness:
  "published_items (snd (transactional (delete_item \<lparr>allowed = False\<rparr> (u ''q1'')) sample_matrix)) = [sample_item]"
  using published_questions_guarded[OF sample_inv, of "\<lparr>allowed = False\<rparr>" sample_env sample_params "u ''me''" "u ''x''" "u ''q1''" DRAFT]
  by (simp add: published_items_def sample_matrix_def sample_item_def)

text \<open>C18: the first publication date and the author of a question survive every later update and every
  switch of its status.\<close>

theorem question_publication_date_stable:
  assumes inv: "matrix_inv h d" and m: "m \<in> set (items d)" and t: "im_published_at m = Some t"
  shows "(\<exists>m' \<in> set (items (snd (transactional (update_item env pub p) d))).
      im_id m' = im_id m \<and> im_published_at m' = Some t \<and> im_suggested_by_username m' = im_suggested_by_username m)
    \<and> (\<exists>m' \<in> set (items (snd (transactional (switch_item_publish_status env pub i status) d))).
      im_id m' = im_id m \<and> im_published_at m' = Some t \<and> im_suggested_by_username m' = im_suggested_by_username m)"
proof -
  have kept: "\<exists>m' \<in> set (update_where (\<lambda>r. im_id r = j) f (items d)).
      im_id m' = im_id m \<and> im_published_at m' = Some t \<and> im_suggested_by_username m' = im_suggested_by_username m"
    if "im_id m = j \<Longrightarrow> im_id (f m) = j \<and> im_published_at (f m) = Some t \<and> im_suggested_by_username (f m) = im_suggested_by_username m" for j f
    using that m t by (intro bexI[of _ "if im_id m = j then f m else m"]) (auto simp: in_update_where)
  have "\<exists>m' \<in> set (items (snd (transactional (update_item env pub p) d))).
      im_id m' = im_id m \<and> im_published_at m' = Some t \<and> im_suggested_by_username m' = im_suggested_by_username m"
  proof (cases "update_item env pub p d")
    case (Pair r d')
    show ?thesis
    proof (cases r)
      case (Inl e)
      then show ?thesis using Pair m t by (auto simp: run_transactional)
    next
      case (Inr it)
      with Pair have run: "update_item env pub p d = (Inr it, d')" by simp
      then obtain x rs st where x: "row_by im_id (ip_id p) (items d) = Some x"
        and d': "d' = update_item_rows (updated_row env (to_item p rs st None (im_suggested_by_username x)) x)
          (mi_resources (to_item p rs st None (im_suggested_by_username x))) d"
        by (rule update_item_success)
      let ?new = "updated_row env (to_item p rs st None (im_suggested_by_username x)) x"
      have same: "x = m" if "im_id m = ip_id p"
        using same_row[OF item_facts(1)[OF inv] _ m, of x] row_by_SomeD[OF x] that by simp
      have new: "im_id ?new = ip_id p" "im_published_at x = Some t \<Longrightarrow> im_published_at ?new = Some t"
        "im_suggested_by_username ?new = im_suggested_by_username x"
        using row_by_SomeD[OF x]
        by (simp_all add: updated_row_def ensure_first_published_at_def item_update_from_domain_def)
      have "items d' = update_where (\<lambda>r. im_id r = ip_id p) (\<lambda>_. ?new) (items d)"
        unfolding d' update_item_rows_def new(1) by simp
      then show ?thesis using kept[of "ip_id p" "\<lambda>_. ?new"] new same t run by (auto simp: run_transactional)
    qed
  qed
  moreover have "\<exists>m' \<in> set (items (snd (transactional (switch_item_publish_status env pub i status) d))).
      im_id m' = im_id m \<and> im_published_at m' = Some t \<and> im_suggested_by_username m' = im_suggested_by_username m"
  proof (cases "switch_item_publish_status env pub i status d")
    case (Pair r d')
    show ?thesis
    proof (cases r)
      case (Inl e)
      then show ?thesis using Pair m t by (auto simp: run_transactional)
    next
      case (Inr x)
      with Pair have run: "switch_item_publish_status env pub i status d = (Inr (), d')" by simp
      then have d': "items d' = update_where (\<lambda>r. im_id r = i)
          (\<lambda>r. ensure_first_published_at env (r\<lparr>im_publish_status := status\<rparr>)) (items d)"
        by (auto elim: switch_item_success)
      show ?thesis
        using kept[of i "\<lambda>r. ensure_first_published_at env (r\<lparr>im_publish_status := status\<rparr>)"] t run d'
        by (auto simp: run_transactional ensure_first_published_at_def)
    qed
  qed
  ultimately show ?thesis by blast
qed

theorem question_publication_date_stable_witness:
  "\<exists>m' \<in> set (items (snd (transactional (switch_item_publish_status sample_env \<lparr>allowed = True\<rparr> (u ''q1'') DRAFT) sample_matrix))).
     im_id m' = u ''q1'' \<and> im_published_at m' = Some 1000"
proof -
  have "sample_item \<in> set (items sample_matrix)" "im_published_at sample_item = Some 1000" "im_id sample_item = u ''q1''"
    by (simp_all add: sample_matrix_def sample_item_def)
  then show ?thesis using question_publication_date_stable[OF sample_inv] by metis
qed

section \<open>From the queue into the matrix\<close>

text \<open>C13: turning a queued question into a question of the matrix is all or nothing: when it succeeds
  exactly that queue entry is gone and exactly one question is added, in the requested subsection and
  with the author of the suggestion; when it fails nothing has changed.\<close>

theorem queue_move_atomic:
  assumes inv: "matrix_inv h d"
  shows "case transactional (create_item_from_queue env pub qid p) d of
      (Inl e, d') \<Rightarrow> d' = d
    | (Inr it, d') \<Rightarrow>
        (\<exists>q m. q \<in> set (queued_questions d) \<and> qm_id q = qid
           \<and> queued_questions d' = filter (\<lambda>x. x \<noteq> q) (queued_questions d)
           \<and> items d' = items d @ [m] \<and> im_id m = ip_id p \<and> im_slug m = ip_slug p
           \<and> im_subsection_id m = ip_subsection_id p
           \<and> im_suggested_by_username m = qm_suggested_by_username q)"
proof (cases "create_item_from_queue env pub qid p d")
  case (Pair r d')
  show ?thesis
  proof (cases r)
    case (Inl e)
    then show ?thesis using Pair by (simp add: run_transactional)
  next
    case (Inr it)
    with Pair have run: "create_item_from_queue env pub qid p d = (Inr it, d')" by simp
    from run obtain q rs st where q: "row_by qm_id qid (queued_questions d) = Some q"
      and c: "creation env pub p (qm_suggested_by_username q) d rs st"
      and d': "d' = (insert_item_rows (created_row env p rs st (qm_suggested_by_username q))
          (mi_resources (to_item p rs st None (qm_suggested_by_username q))) d)
        \<lparr>queued_questions := delete_where (\<lambda>q. qm_id q = qid) (queued_questions d)\<rparr>"
      by (rule create_from_queue_success)
    let ?m = "created_row env p rs st (qm_suggested_by_username q)"
    have mem: "q \<in> set (queued_questions d)" "qm_id q = qid" using row_by_SomeD[OF q] by simp_all
    have dist: "distinct (map qm_id (queued_questions d))" using matrix_invD(5)[OF inv] by (simp add: queue_inv_def)
    have "qm_id x \<noteq> qid \<longleftrightarrow> x \<noteq> q" if "x \<in> set (queued_questions d)" for x
      using same_row[OF dist that mem(1)] mem(2) by auto
    then have "queued_questions d' = filter (\<lambda>x. x \<noteq> q) (queued_questions d)"
      unfolding d' delete_where_def by (simp, intro filter_cong) auto
    moreover have "items d' = items d @ [?m]" unfolding d' by (simp add: insert_item_rows_def)
    moreover have "ns_subsection_id st = ip_subsection_id p"
      using c structure_of_subsection(2) unfolding creation_def by blast
    then have "im_id ?m = ip_id p \<and> im_slug ?m = ip_slug p \<and> im_subsection_id ?m = ip_subsection_id p
        \<and> im_suggested_by_username ?m = qm_suggested_by_username q"
      by (simp add: created_row_def new_item_fields item_from_domain_fields)
    ultimately show ?thesis using run mem by (auto simp: run_transactional)
  qed
qed

theorem queue_move_atomic_witness:
  "snd (transactional (create_item_from_queue sample_env \<lparr>allowed = False\<rparr> (u ''x'') sample_params) sample_matrix) = sample_matrix"
  using queue_move_atomic[OF sample_inv, where env = sample_env and pub = "\<lparr>allowed = False\<rparr>" and qid = "u ''x''" and p = sample_params]
  by (auto simp: create_item_from_queue_def run_transactional run_bind run_ensure_allowed sample_params_def split: prod.splits sum.splits)

section \<open>Writing and reading back\<close>

lemma structure_rows:
  assumes "to_item_structure d su = Inr st"
  obtains se sh where "row_by se_id (su_section_id su) (sections d) = Some se" and "row_by sh_id (se_sheet_id se) (sheets d) = Some sh"
    and "ns_subsection_id st = su_id su" and "ns_sheet_key st = sh_key sh"
proof -
  obtain se where se: "row_by se_id (su_section_id su) (sections d) = Some se"
    using assms by (auto simp: to_item_structure_def require_Inr split: sum.splits)
  moreover obtain sh where "row_by sh_id (se_sheet_id se) (sheets d) = Some sh"
    using assms se by (auto simp: to_item_structure_def require_def split: sum.splits option.splits)
  ultimately show ?thesis using assms by (intro that[of se sh]) (auto simp: to_item_structure_def require_def)
qed

text \<open>The slug and the key of the sheet find the question again.\<close>

lemma found_by_slug:
  assumes inv: "matrix_inv h d" and m: "m \<in> set (items d)" and it: "item_to_domain d (item_links d m) m = Inr it"
  shows "get_item_by_slug (ns_sheet_key (mi_structure it)) (im_slug m) False d = (Inr it, d)"
    and "ns_subsection_id (mi_structure it) = im_subsection_id m"
proof -
  obtain su where su: "row_by su_id (im_subsection_id m) (subsections d) = Some su"
    and str: "to_item_structure d su = Inr (mi_structure it)"
    using it by (auto simp: item_to_domain_def require_Inr split: sum.splits)
  obtain se sh where se: "row_by se_id (su_section_id su) (sections d) = Some se"
    and sh: "row_by sh_id (se_sheet_id se) (sheets d) = Some sh"
    and s: "ns_subsection_id (mi_structure it) = su_id su" "ns_sheet_key (mi_structure it) = sh_key sh"
    using str by (rule structure_rows)
  have rows: "su \<in> set (subsections d)" "su_id su = im_subsection_id m" "se \<in> set (sections d)" "se_id se = su_section_id su"
    "sh \<in> set (sheets d)" "sh_id sh = se_sheet_id se"
    using row_by_SomeD[OF su] row_by_SomeD[OF se] row_by_SomeD[OF sh] by simp_all
  have sheet: "im_sheet_id m = sh_id sh"
  proof -
    have "(im_subsection_id m, im_sheet_id m) \<in> subsection_sheets d" using item_facts(3)[OF inv] m by blast
    then obtain su' se' where x: "su' \<in> set (subsections d)" "su_id su' = im_subsection_id m" "se' \<in> set (sections d)"
      "se_id se' = su_section_id su'" "se_sheet_id se' = im_sheet_id m" by (auto simp: subsection_sheets_def)
    have "su' = su" using same_row[OF structure_facts(3)[OF inv] x(1) rows(1)] x(2) rows(2) by simp
    then have "se' = se" using same_row[OF structure_facts(2)[OF inv] x(3) rows(3)] x(4) rows(4) by simp
    then show ?thesis using x(5) rows(6) by simp
  qed
  have key: "sh_key x = sh_key sh \<Longrightarrow> x \<in> set (sheets d) \<Longrightarrow> x = sh" for x
    using same_row[OF structure_facts(4)[OF inv], of x sh] rows(5) by simp
  have only: "j = m" if j: "j \<in> set (items d)" "x \<in> set (sheets d)" "sh_id x = im_sheet_id j" "sh_key x = sh_key sh"
      "im_slug j = im_slug m" for j x
    using same_row[OF item_facts(2)[OF inv] j(1) m] key[OF j(4,2)] j(3,5) sheet by simp
  let ?found = "[j. j \<leftarrow> items d, x \<leftarrow> sheets d, sh_id x = im_sheet_id j \<and> sh_key x = sh_key sh \<and> im_slug j = im_slug m]"
  have "m \<in> set ?found" using m rows(5) sheet by auto
  moreover have "set ?found \<subseteq> {m}" using only by auto
  ultimately have "first ?found = Some m" by (cases ?found) auto
  then show "get_item_by_slug (ns_sheet_key (mi_structure it)) (im_slug m) False d = (Inr it, d)"
    using it s(2) by (simp add: get_item_by_slug_def get_competency_matrix_item_by_slug_def run_simps)
  show "ns_subsection_id (mi_structure it) = im_subsection_id m" using s(1) rows(2) by simp
qed

text \<open>What an attachment of the parameters stands for: a new resource, or the stored one with its identifier.\<close>

fun attachment_of :: "db \<Rightarrow> attachment \<Rightarrow> attached_resource option" where
  "attachment_of d (ExistingAttachment rid context_ru context_en) =
     map_option (\<lambda>r. attach r context_ru context_en) (row_by er_id rid (resources d))"
| "attachment_of d (NewAttachment r context_ru context_en) = Some (attach r context_ru context_en)"

lemma to_item_resources:
  assumes inv: "matrix_inv h d" and run: "assigned_resources p d = (Inr rs, d)"
  shows "mset (map Some (mi_resources (to_item p rs st pa by_user))) = mset (map (attachment_of d) (ip_resources p))"
proof -
  let ?ids = "get_resource_ids_to_assign p"
  have rs: "rs = concat (map (\<lambda>rid. filter (\<lambda>r. er_id r = rid) (resources d)) ?ids)" and there: "set ?ids \<subseteq> er_id ` set rs"
    using run by (auto simp: assigned_resources_def get_resources_by_ids_def run_simps Let_def all_resources_exists_by_ids_def
        split: if_splits)
  have found: "row_by er_id rid (rev rs) = row_by er_id rid (resources d) \<and> row_by er_id rid (resources d) \<noteq> None"
    if rid: "rid \<in> set ?ids" for rid
  proof -
    obtain r where r: "row_by er_id rid (rev rs) = Some r"
      using subsetD[OF there rid] by (cases "row_by er_id rid (rev rs)") (auto simp: row_by_None_iff)
    then have "r \<in> set (resources d)" "er_id r = rid" using row_by_SomeD[OF r] rs by auto
    then have "row_by er_id rid (resources d) = Some r" using link_facts(1)[OF inv] by (simp add: row_by_Some_iff)
    then show ?thesis using r by simp
  qed
  have "mset (map Some (concat (map (attached_existing rs) as) @ concat (map attached_new as))) = mset (map (attachment_of d) as)"
    if "set as \<subseteq> set (ip_resources p)" for as
    using that
  proof (induction as)
    case (Cons a as)
    have "map Some (attached_existing rs a) @ map Some (attached_new a) = [attachment_of d a]"
    proof (cases a)
      case (ExistingAttachment rid context_ru context_en)
      then have "rid \<in> set ?ids" using Cons.prems by (force simp: get_resource_ids_to_assign_def)
      from found[OF this] show ?thesis
        by (auto simp: ExistingAttachment attached_existing_def attached_new_def)
    qed (simp add: attached_existing_def attached_new_def)
    then have "mset (map Some (attached_existing rs a)) + mset (map Some (attached_new a)) = {#attachment_of d a#}"
      by (metis mset_append mset_single_iff)
    then show ?case using Cons by (simp add: ac_simps)
  qed simp
  from this[of "ip_resources p"] show ?thesis by (simp add: to_item_def)
qed

lemma merge_resource_other: "x \<in> set rows \<Longrightarrow> er_id x \<noteq> er_id r \<Longrightarrow> x \<in> set (merge_resource r rows)"
  by (auto simp: merge_resource_def in_update_where)

lemma merged_resource:
  assumes "distinct (map at_id rs)" "distinct (map er_id rows)" "r \<in> set rs"
  shows "row_by er_id (at_id r) (merge_resources rs rows) = Some (to_external_resource r)"
proof -
  have kept: "x \<in> set (merge_resources rs rows)" if "x \<in> set rows" "er_id x \<notin> at_id ` set rs" for x rs rows
    using that by (induction rs arbitrary: rows) (auto simp: merge_resources_def to_external_resource_def merge_resource_other)
  have "to_external_resource r \<in> set (merge_resources rs rows)"
    using assms(1,3)
  proof (induction rs arbitrary: rows)
    case (Cons a rs)
    have step: "merge_resources (a # rs) rows = merge_resources rs (merge_resource (to_external_resource a) rows)"
      by (simp add: merge_resources_def)
    show ?case
    proof (cases "r \<in> set rs")
      case True
      then show ?thesis using Cons by (simp add: step)
    next
      case False
      then have "r = a" using Cons.prems by simp
      moreover have "to_external_resource a \<in> set (merge_resource (to_external_resource a) rows)"
        by (auto simp: merge_resource_def in_update_where)
      ultimately show ?thesis using kept Cons.prems(1) by (simp add: step to_external_resource_def)
    qed
  qed simp
  then show ?thesis
    using merge_resources_ids(2)[OF assms(2)] by (simp add: row_by_Some_iff to_external_resource_def)
qed

lemma inserted_resources:
  assumes inv: "matrix_inv h d" and ins: "insertable m rs d"
    and it: "item_to_domain (insert_item_rows m rs d) (item_links (insert_item_rows m rs d) m) m = Inr it"
  shows "mi_resources it = rs"
proof -
  let ?d = "insert_item_rows m rs d"
  have "im_id m \<notin> rl_item_id ` set (resource_links d)" using link_facts(3)[OF inv] ins unfolding insertable_def by blast
  then have "rl_item_id l \<noteq> im_id m" if "l \<in> set (resource_links d)" for l using that by (metis imageI)
  then have "filter (\<lambda>l. rl_item_id l = im_id m) (resource_links d) = []" by (simp add: filter_empty_conv)
  moreover have "filter (\<lambda>l. rl_item_id l = im_id m) (map (new_link (im_id m)) rs) = map (new_link (im_id m)) rs"
    by (simp add: filter_id_conv new_link_def)
  ultimately have links: "item_links ?d m = map (new_link (im_id m)) rs"
    by (simp add: item_links_def insert_item_rows_def)
  have "link_to_domain ?d (new_link (im_id m) r) = Inr r" if "r \<in> set rs" for r
    using merged_resource[OF _ link_facts(1)[OF inv] that] ins
    by (simp add: link_to_domain_def new_link_def insert_item_rows_def insertable_def require_def attach_def to_external_resource_def)
  then have "map (link_to_domain ?d) (map (new_link (im_id m)) rs) = map Inr rs" by simp
  then show ?thesis using it by (auto simp: item_to_domain_def links all_or_error_Inr split: sum.splits simp del: map_map)
qed

text \<open>C20: a question that has been created is found again by its identifier and by the key of its sheet and its slug.
  What is found is what the parameters asked for: the same texts in both languages, grade, frequency in interviews,
  status and author, the place of the subsection in the structure, the attached resources with their contexts, the new
  ones as given and the existing ones as stored, and a publication date exactly when it is published.\<close>

theorem create_item_then_get:
  assumes inv: "matrix_inv (env_sha256 env) d" and run: "create_item env pub p by_user d = (Inr it, d')"
  shows "get_item (ip_id p) False d' = (Inr it, d')
    \<and> get_item_by_slug (ns_sheet_key (mi_structure it)) (ip_slug p) False d' = (Inr it, d')
    \<and> mi_id it = ip_id p \<and> mi_slug it = ip_slug p
    \<and> mi_question_ru it = ip_question_ru p \<and> mi_question_en it = ip_question_en p
    \<and> mi_answer_ru it = ip_answer_ru p \<and> mi_answer_en it = ip_answer_en p
    \<and> mi_explanation_ru it = ip_explanation_ru p \<and> mi_explanation_en it = ip_explanation_en p
    \<and> mi_grade it = ip_grade p \<and> mi_interview_frequency it = ip_interview_frequency p
    \<and> get_item_structure_by_subsection_id (ip_subsection_id p) d = (Inr (mi_structure it), d)
    \<and> mset (map Some (mi_resources it)) = mset (map (attachment_of d) (ip_resources p))
    \<and> ns_subsection_id (mi_structure it) = ip_subsection_id p \<and> mi_suggested_by_username it = by_user
    \<and> mi_publish_status it = ip_publish_status p
    \<and> mi_published_at it = (if ip_publish_status p = PUBLISHED then Some (env_now env) else None)"
proof -
  from run obtain d0 rs d1 st d2 d3 where
    steps: "assigned_resources p d0 = (Inr rs, d1)" "get_item_structure_by_subsection_id (ip_subsection_id p) d1 = (Inr st, d2)"
      "ensure_ready_if_published (to_item p rs st None by_user) d2 = (Inr (), d3)"
      "create_competency_matrix_item env (to_item p rs st None by_user) d3 = (Inr it, d')"
      "ensure_allowed pub [ip_publish_status p] d = (Inr (), d0)"
    unfolding create_item_def Let_def by (elim bind_InrE) auto
  have d0: "d0 = d" and pub: "PUBLISHED \<in> set [ip_publish_status p] \<longrightarrow> allowed pub"
    using steps(5) unfolding ensure_allowed_Inr by simp_all
  note core = creation_core[OF steps(1-4) pub, unfolded d0]
  let ?m = "created_row env p rs st by_user" and ?rs = "mi_resources (to_item p rs st None by_user)"
  have inv': "matrix_inv (env_sha256 env) d'" unfolding core(2) by (rule creation_inv[OF inv core(1) refl])
  have m: "?m \<in> set (items d')" unfolding core(2) by (simp add: insert_item_rows_def)
  have id: "im_id ?m = ip_id p" by (simp add: created_row_def new_item_fields item_from_domain_fields)
  have row: "row_by im_id (ip_id p) (items d') = Some ?m" using m id item_facts(1)[OF inv'] by (simp add: row_by_Some_iff)
  have get: "get_competency_matrix_item (ip_id p) d' = (Inr it, d')"
  proof -
    have "\<exists>d1. get_competency_matrix_item (ip_id p) d1 = (Inr it, d')"
      using steps(4) unfolding create_competency_matrix_item_def Let_def by (auto elim!: bind_InrE)
    then show ?thesis using get_item_state by metis
  qed
  then have dom: "item_to_domain d' (item_links d' ?m) ?m = Inr it"
    using row by (simp add: get_competency_matrix_item_def run_simps)
  have fields: "mi_slug it = im_slug ?m" "mi_question_ru it = im_question_ru ?m" "mi_question_en it = im_question_en ?m"
    "mi_answer_ru it = im_answer_ru ?m" "mi_answer_en it = im_answer_en ?m" "mi_explanation_ru it = im_explanation_ru ?m"
    "mi_explanation_en it = im_explanation_en ?m" "mi_grade it = im_grade ?m"
    "mi_interview_frequency it = im_interview_frequency ?m" "mi_suggested_by_username it = im_suggested_by_username ?m"
    "mi_publish_status it = im_publish_status ?m" "mi_published_at it = im_published_at ?m" "mi_id it = im_id ?m"
    using dom by (auto simp: item_to_domain_def split: sum.splits)
  have "ns_subsection_id st = ip_subsection_id p" using core(1) structure_of_subsection(2) unfolding creation_def by blast
  then have "im_slug ?m = ip_slug p" "im_subsection_id ?m = ip_subsection_id p"
    by (simp_all add: created_row_def new_item_fields item_from_domain_fields)
  moreover have "get_item_structure_by_subsection_id (ip_subsection_id p) d = (Inr (mi_structure it), d)"
  proof -
    obtain su where "row_by su_id (im_subsection_id ?m) (subsections d') = Some su" "to_item_structure d' su = Inr (mi_structure it)"
      using dom by (auto simp: item_to_domain_def require_Inr split: sum.splits)
    moreover have tables: "subsections d' = subsections d" "sections d' = sections d" "sheets d' = sheets d"
      unfolding core(2) by (simp_all add: insert_item_rows_def)
    moreover have "to_item_structure d' = to_item_structure d" by (rule ext) (simp only: to_item_structure_def tables)
    ultimately show ?thesis using \<open>im_subsection_id ?m = ip_subsection_id p\<close>
      by (simp add: get_item_structure_by_subsection_id_def get_subsection_model_def run_simps require_def)
  qed
  moreover have "mset (map Some (mi_resources it)) = mset (map (attachment_of d) (ip_resources p))"
  proof -
    have "mi_resources it = ?rs"
      using inserted_resources[OF inv _ dom[unfolded core(2)]] core(1) by (simp add: creation_def)
    then show ?thesis using to_item_resources[OF inv, of p rs st None by_user] core(1) by (simp add: creation_def)
  qed
  ultimately show ?thesis
    using get fields found_by_slug[OF inv' m dom]
    by (simp add: get_item_def run_simps created_row_def ensure_first_published_at_def item_from_domain_def to_item_def)
qed

theorem create_item_then_get_witness:
  "\<exists>it. get_item (u ''q1'') False sample_matrix = (Inr it, sample_matrix) \<and> mi_published_at it = Some 1000"
proof -
  have "matrix_inv (env_sha256 sample_env) sample_tree" by (rule matrix.reachable_inv[OF refl sample_tree_reachable])
  moreover obtain it where "create_item sample_env \<lparr>allowed = True\<rparr> sample_params (u ''me'') sample_tree = (Inr it, sample_matrix)"
    using sample_item_run by (auto simp: run_transactional sample_matrix_def sample_tree_def empty_db_def split: prod.splits sum.splits)
  ultimately show ?thesis
    using create_item_then_get[of sample_env sample_tree "\<lparr>allowed = True\<rparr>" sample_params "u ''me''" it sample_matrix]
    by (auto simp: sample_params_def sample_env_def)
qed

section \<open>Order\<close>

definition section_order :: "db \<Rightarrow> pystr \<Rightarrow> pystr list" where
  "section_order d i = map se_id (sort_key (\<lambda>se. (se_priority se, se_id se)) (filter (\<lambda>se. se_sheet_id se = i) (sections d)))"

lemma find_row:
  assumes "\<And>x. key (f x) = ident x"
  shows "find (\<lambda>y. key y = i) (map f xs) = map_option f (find (\<lambda>x. ident x = i) xs)"
  by (induction xs) (simp_all add: assms)

lemma ensure_order_run:
  "ensure_order_matches existing ids s =
     (if distinct ids \<and> set ids = set existing then (Inr (), s) else (Inl CompetencyMatrixStructurePriorityInvalidError, s))"
proof -
  have "card (set ids) = length ids \<longleftrightarrow> distinct ids" by (metis card_distinct distinct_card)
  then show ?thesis by (simp add: ensure_order_matches_def run_simps)
qed

lemma find_sorted_row:
  assumes "distinct (map key rows)"
  shows "find (\<lambda>x. key x = i) (sort_key f rows) = row_by key i rows"
proof -
  have "distinct (map key (sort_key f rows))"
    using assms by (simp add: distinct_map)
  then have "row_by key i (sort_key f rows) = Some r \<longleftrightarrow> row_by key i rows = Some r" for r
    using assms by (simp add: row_by_Some_iff)
  then show ?thesis unfolding row_by_def[symmetric] by (metis not_None_eq)
qed

lemma sections_reordered:
  assumes inv: "matrix_inv h d" and True: "distinct ids" "set ids = set (section_order d i)"
  defines "d' \<equiv> d\<lparr>sections := update_priorities se_id set_section_priority ids (sections d)\<rparr>"
  shows "section_order d' i = ids" and "\<forall>j. j = i \<or> section_order d' j = section_order d j"
    and "map (\<lambda>se. se\<lparr>se_priority := 0\<rparr>) (sections d') = map (\<lambda>se. se\<lparr>se_priority := 0\<rparr>) (sections d)"
proof -
  let ?ses = "update_priorities se_id set_section_priority ids (sections d)"
  have ids: "set ids = se_id ` {se \<in> set (sections d). se_sheet_id se = i}" using True by (simp add: section_order_def)
  have parent: "map (\<lambda>se. (se_id se, se_sheet_id se)) ?ses = map (\<lambda>se. (se_id se, se_sheet_id se)) (sections d)"
    by (rule section_table.attributes_kept) (simp add: set_section_priority_def)
  have mine: "se_sheet_id se = i \<longleftrightarrow> se_id se \<in> set ids" if se: "se \<in> set ?ses" for se
  proof -
    have "(se_id se, se_sheet_id se) \<in> (\<lambda>se. (se_id se, se_sheet_id se)) ` set (sections d)"
      using set_map_eq[OF parent] se by blast
    then obtain old where old: "old \<in> set (sections d)" "se_id old = se_id se" "se_sheet_id old = se_sheet_id se" by auto
    show ?thesis
    proof
      assume "se_sheet_id se = i"
      then have "se_id old \<in> set ids" using old unfolding ids by blast
      then show "se_id se \<in> set ids" using old(2) by simp
    next
      assume "se_id se \<in> set ids"
      then obtain x where x: "x \<in> set (sections d)" "se_sheet_id x = i" "se_id x = se_id se" unfolding ids by auto
      then have "x = old" using same_row[OF structure_facts(2)[OF inv] x(1) old(1)] old(2) by simp
      then show "se_sheet_id se = i" using x(2) old(3) by simp
    qed
  qed
  then have "filter (\<lambda>se. se_sheet_id se = i) ?ses = filter (\<lambda>se. se_id se \<in> set ids) ?ses"
    by (intro filter_cong) auto
  then have order: "section_order (d\<lparr>sections := ?ses\<rparr>) i = ids"
    using section_table.reordered[of ids "sections d" se_id] True structure_facts(2)[OF inv] ids
    by (auto simp: section_order_def)
  have "filter (\<lambda>se. se_sheet_id se = j) ?ses = filter (\<lambda>se. se_sheet_id se = j) (sections d)" if "j \<noteq> i" for j
  proof -
    have "?ses = map (\<lambda>r. if se_id r \<in> set ids then set_section_priority (position ids (se_id r)) r else r) (sections d)"
      using True by (intro section_table.update_priorities_run) blast
    moreover have "se_sheet_id r = i" if "r \<in> set (sections d)" "se_id r \<in> set ids" for r
      using that ids same_row[OF structure_facts(2)[OF inv] that(1)] by auto
    ultimately show ?thesis using that
      by (auto simp: filter_map comp_def set_section_priority_def intro!: map_idI filter_cong)
  qed
  then have "section_order (d\<lparr>sections := ?ses\<rparr>) j = section_order d j" if "j \<noteq> i" for j
    using that by (simp add: section_order_def)
  then have others: "\<forall>j. j = i \<or> section_order (d\<lparr>sections := ?ses\<rparr>) j = section_order d j" by blast
  have prio: "map (\<lambda>se. se\<lparr>se_priority := 0\<rparr>) ?ses = map (\<lambda>se. se\<lparr>se_priority := 0\<rparr>) (sections d)"
    by (rule section_table.attributes_kept) (simp add: set_section_priority_def)
  show "section_order d' i = ids" "\<forall>j. j = i \<or> section_order d' j = section_order d j"
    "map (\<lambda>se. se\<lparr>se_priority := 0\<rparr>) (sections d') = map (\<lambda>se. se\<lparr>se_priority := 0\<rparr>) (sections d)"
    using order others prio by (simp_all add: d'_def)
qed

text \<open>C27: reordering the sections of a sheet either is refused, because the sheet does not exist or the
  list is not a permutation of its sections, and changes nothing, or succeeds, and then the structure
  lists the sections of that sheet in exactly the requested order; the sections of other sheets keep
  their order, and no name or parent changes.\<close>

theorem section_reorder_exact:
  assumes inv: "matrix_inv h d"
  shows "case update_section_priorities i ids d of
      (Inl e, d') \<Rightarrow> d' = d
        \<and> e = (if i \<notin> sh_id ` set (sheets d) then CompetencyMatrixStructureNotFoundError
               else CompetencyMatrixStructurePriorityInvalidError)
        \<and> (i \<notin> sh_id ` set (sheets d) \<or> \<not> (distinct ids \<and> set ids = set (section_order d i)))
    | (Inr _, d') \<Rightarrow>
        i \<in> sh_id ` set (sheets d) \<and> section_order d' i = ids \<and> (\<forall>j. j = i \<or> section_order d' j = section_order d j)
        \<and> map (\<lambda>se. se\<lparr>se_priority := 0\<rparr>) (sections d') = map (\<lambda>se. se\<lparr>se_priority := 0\<rparr>) (sections d)
        \<and> d' = d\<lparr>sections := sections d'\<rparr>"
proof (cases "row_by sh_id i (sheets d)")
  case None
  then have "i \<notin> sh_id ` set (sheets d)" by (simp add: row_by_None_iff)
  moreover have "find (\<lambda>sheet. ssh_id sheet = i) (map (sheet_to_domain d) (sort_key (\<lambda>sh. (sh_priority sh, sh_id sh)) (sheets d))) = None"
    using None find_sorted_row[OF structure_facts(1)[OF inv], of i "\<lambda>sh. (sh_priority sh, sh_id sh)"]
    by (subst find_row[where ident = sh_id]) (simp_all add: sheet_to_domain_def)
  ultimately show ?thesis
    by (simp add: update_section_priorities_def list_structure_def require_sheet_def require_def run_simps)
next
  case (Some sh)
  then have sh: "sh \<in> set (sheets d)" "sh_id sh = i" by (auto dest: row_by_SomeD)
  have "find (\<lambda>sheet. ssh_id sheet = i) (map (sheet_to_domain d) (sort_key (\<lambda>sh. (sh_priority sh, sh_id sh)) (sheets d)))
      = Some (sheet_to_domain d sh)"
    using Some find_sorted_row[OF structure_facts(1)[OF inv], of i "\<lambda>sh. (sh_priority sh, sh_id sh)"]
    by (subst find_row[where ident = sh_id]) (simp_all add: sheet_to_domain_def)
  moreover have "map sse_id (ssh_sections (sheet_to_domain d sh)) = section_order d i"
    using sh by (simp add: sheet_to_domain_def section_order_def section_to_domain_def comp_def)
  ultimately have run: "update_section_priorities i ids d =
      (if distinct ids \<and> set ids = set (section_order d i)
       then (Inr (), d\<lparr>sections := update_priorities se_id set_section_priority ids (sections d)\<rparr>)
       else (Inl CompetencyMatrixStructurePriorityInvalidError, d))"
    by (simp add: update_section_priorities_def list_structure_def require_sheet_def require_def run_simps
        ensure_section_priority_order_matches_def ensure_order_run storage_update_section_priorities_def)
  show ?thesis
  proof (cases "distinct ids \<and> set ids = set (section_order d i)")
    case False
    then show ?thesis using run sh by auto
  next
    case True
    then show ?thesis using run sh sections_reordered[OF inv] by auto
  qed
qed

theorem section_reorder_exact_witness:
  "section_order (snd (update_section_priorities (u ''id0'') [u ''id0''] sample_matrix)) (u ''id0'') = [u ''id0'']"
proof -
  have "section_order sample_matrix (u ''id0'') = [u ''id0'']" "u ''id0'' \<in> sh_id ` set (sheets sample_matrix)"
    by (simp_all add: section_order_def sample_matrix_def sample_tree_def sample_section_def sample_sheet_def)
  then show ?thesis
    using section_reorder_exact[OF sample_inv, of "u ''id0''" "[u ''id0'']"] by (auto split: prod.splits sum.splits)
qed

section \<open>Suggestions\<close>

lemma run_on_db: "on_db m (d, q) = (fst (m d), (snd (m d), q))"
  by (simp add: on_db_def split: prod.split)

lemma run_on_quota: "on_quota m (d, q) = (fst (m q), (d, snd (m q)))"
  by (simp add: on_quota_def split: prod.split)

definition suggestion_known :: "env \<Rightarrow> pystr \<Rightarrow> pystr \<Rightarrow> db \<Rightarrow> bool" where
  "suggestion_known env question key d \<longleftrightarrow>
     (\<exists>m \<in> set (queued_questions d). qm_question_fingerprint m = fingerprint_digest env question \<and> qm_sheet m = Some key)
     \<or> (\<exists>(i, su, se, sh) \<in> set (join_structure d). sh_key sh = key
          \<and> (im_question_ru_fingerprint i = fingerprint_digest env question
             \<or> im_question_en_fingerprint i = fingerprint_digest env question))"

lemma exists_run: "question_suggestion_exists env question key d = (Inr (suggestion_known env question key d), d)"
  by (simp add: question_suggestion_exists_def suggestion_known_def run_simps Let_def)

text \<open>A question of the matrix appears in the join under the key of its sheet.\<close>

lemma joined_item:
  assumes inv: "matrix_inv h d" and i: "i \<in> set (items d)" and sh: "sh \<in> set (sheets d)" "sh_id sh = im_sheet_id i"
  shows "\<exists>su se. (i, su, se, sh) \<in> set (join_structure d)"
proof -
  have "(im_subsection_id i, im_sheet_id i) \<in> subsection_sheets d" using item_facts(3)[OF inv] i by blast
  then show ?thesis using i sh unfolding join_structure_def subsection_sheets_def by force
qed

lemma suggest_refused:
  assumes "sg_reject_duplicates p" and "qp_sheet (sg_question p) = Some key"
    and "suggestion_known env (qp_question (sg_question p)) key d"
  shows "\<exists>e \<in> {QuestionSuggestionSheetUnavailableError, QuestionSuggestionAlreadyExistsError}.
    suggest_question env ops ns cfg p (d, q) = (Inl e, (d, q))"
  using assms by (simp add: suggest_question_def Let_def run_bind run_on_db run_ensure list_sheets_def run_gets exists_run)

lemma suggest_success:
  assumes "suggest_question env ops ns cfg p (d, q) = (Inr r, (d', q'))" and "qp_sheet (sg_question p) = Some key"
  shows "sg_reject_duplicates p \<longrightarrow> \<not> suggestion_known env (qp_question (sg_question p)) key d"
    and "create_queued_question env (sg_question p) (sg_suggested_by_username p) d = (Inr r, d')"
proof -
  have "(sg_reject_duplicates p \<longrightarrow> \<not> suggestion_known env (qp_question (sg_question p)) key d)
      \<and> (\<exists>q1. on_db (create_queued_question env (sg_question p) (sg_suggested_by_username p)) (d, q1) = (Inr r, (d', q')))"
    using assms unfolding suggest_question_def Let_def
    by (elim bind_InrE)
       (auto simp: run_on_db run_on_quota run_ensure run_bind run_ret run_raise list_sheets_def run_gets exists_run
         split: if_splits option.splits)
  then show "sg_reject_duplicates p \<longrightarrow> \<not> suggestion_known env (qp_question (sg_question p)) key d"
    and "create_queued_question env (sg_question p) (sg_suggested_by_username p) d = (Inr r, d')"
    by (auto simp: run_on_db prod_eq_iff)
qed

lemma create_queued_success:
  assumes "create_queued_question env p by_user d = (Inr r, d')"
  shows "queued_questions d' = queued_questions d @ [queued_from_create_params env 0 (env_now env) by_user p]"
    and "items d' = items d" and "sheets d' = sheets d" and "r = queued_to_domain (queued_from_create_params env 0 (env_now env) by_user p)"
  using assms
  by (auto simp: create_queued_question_def Let_def run_bind run_ret add_queued_run increment_def run_modify split: if_splits)

text \<open>C14: a suggestion that is checked for duplicates is accepted only when no queued question for the sheet
  and no question of the sheet has the same text up to white space and case.  Once accepted it is in the queue, and as
  long as it stays there, whatever else the database holds by then, every suggestion of the same text for the sheet, by
  whatever caller, is refused without a change of the database and without using up quota.  When the queued question is
  deleted, the text is free again.\<close>

theorem suggestions_unique:
  assumes inv: "matrix_inv h d" and h: "env_sha256 env = h" "env_sha256 env2 = h"
    and run: "suggest_question env ops ns cfg p (d, q) = (Inr r, (d', q'))" and key: "qp_sheet (sg_question p) = Some key"
    and p: "sg_reject_duplicates p"
    and p2: "sg_reject_duplicates p2" "qp_sheet (sg_question p2) = Some key"
      "fingerprint_value (qp_question (sg_question p2)) = fingerprint_value (qp_question (sg_question p))"
  shows "(\<forall>m \<in> set (queued_questions d). qm_sheet m = Some key \<longrightarrow>
      fingerprint_value (qm_question m) \<noteq> fingerprint_value (qp_question (sg_question p)))
    \<and> (\<forall>i \<in> set (items d). \<forall>sh \<in> set (sheets d). sh_id sh = im_sheet_id i \<and> sh_key sh = key \<longrightarrow>
      fingerprint_value (qp_question (sg_question p)) \<notin> {fingerprint_value (im_question_ru i), fingerprint_value (im_question_en i)})
    \<and> (\<exists>m \<in> set (queued_questions d'). r = queued_to_domain m \<and> (\<forall>d2. m \<in> set (queued_questions d2) \<longrightarrow>
      (\<exists>e \<in> {QuestionSuggestionSheetUnavailableError, QuestionSuggestionAlreadyExistsError}.
        suggest_question env2 ops2 ns2 cfg2 p2 (d2, q2) = (Inl e, (d2, q2)))))"
proof (intro conjI)
  note ok = suggest_success[OF run key]
  have fresh: "\<not> suggestion_known env (qp_question (sg_question p)) key d" using ok(1) p by blast
  note made = create_queued_success[OF ok(2)]
  have digest: "fingerprint_digest env x = h (fingerprint_value x)" for x using h by (simp add: fingerprint_digest_def)
  show "\<forall>m \<in> set (queued_questions d). qm_sheet m = Some key \<longrightarrow>
      fingerprint_value (qm_question m) \<noteq> fingerprint_value (qp_question (sg_question p))"
    using fresh matrix_invD(5)[OF inv] by (auto simp: suggestion_known_def digest queue_inv_def)
  show "\<forall>i \<in> set (items d). \<forall>sh \<in> set (sheets d). sh_id sh = im_sheet_id i \<and> sh_key sh = key \<longrightarrow>
      fingerprint_value (qp_question (sg_question p)) \<notin> {fingerprint_value (im_question_ru i), fingerprint_value (im_question_en i)}"
  proof (intro ballI impI)
    fix i sh assume i: "i \<in> set (items d)" and sh: "sh \<in> set (sheets d)" and at: "sh_id sh = im_sheet_id i \<and> sh_key sh = key"
    obtain su se where "(i, su, se, sh) \<in> set (join_structure d)" using joined_item[OF inv i sh] at by blast
    then have "im_question_ru_fingerprint i \<noteq> fingerprint_digest env (qp_question (sg_question p))"
      "im_question_en_fingerprint i \<noteq> fingerprint_digest env (qp_question (sg_question p))"
      using fresh at unfolding suggestion_known_def by fastforce+
    then show "fingerprint_value (qp_question (sg_question p)) \<notin> {fingerprint_value (im_question_ru i), fingerprint_value (im_question_en i)}"
      using item_facts(4)[OF inv i] by (auto simp: item_ok_def digest)
  qed
  let ?m = "queued_from_create_params env 0 (env_now env) (sg_suggested_by_username p) (sg_question p)"
  have refused: "\<exists>e \<in> {QuestionSuggestionSheetUnavailableError, QuestionSuggestionAlreadyExistsError}.
      suggest_question env2 ops2 ns2 cfg2 p2 (d2, q2) = (Inl e, (d2, q2))" if "?m \<in> set (queued_questions d2)" for d2
  proof -
    have "suggestion_known env2 (qp_question (sg_question p2)) key d2"
      using that key p2(3) h unfolding suggestion_known_def
      by (auto simp: queued_from_create_params_def fingerprint_digest_def intro!: bexI[of _ ?m])
    then show ?thesis by (rule suggest_refused[OF p2(1,2)])
  qed
  show "\<exists>m \<in> set (queued_questions d'). r = queued_to_domain m \<and> (\<forall>d2. m \<in> set (queued_questions d2) \<longrightarrow>
      (\<exists>e \<in> {QuestionSuggestionSheetUnavailableError, QuestionSuggestionAlreadyExistsError}.
        suggest_question env2 ops2 ns2 cfg2 p2 (d2, q2) = (Inl e, (d2, q2))))"
    using made refused by (intro bexI[of _ ?m]) auto
qed

definition sample_suggestion :: suggestion_params where
  "sample_suggestion = \<lparr>sg_question = \<lparr>qp_question = u ''X y'', qp_sheet = Some (u ''py''), qp_grade = None\<rparr>, sg_limit = None,
     sg_suggested_by_username = u ''me'', sg_reject_duplicates = True, sg_validate_public_sheet = False\<rparr>"

theorem suggestions_unique_witness:
  "\<exists>e r d'. suggest_question sample_env server_ops [] \<lparr>lc_quota_secret = [], lc_anonymous_daily_limit = 1\<rparr> sample_suggestion (sample_tree, empty_server)
      = (Inr r, (d', empty_server))
    \<and> suggest_question sample_env server_ops [] \<lparr>lc_quota_secret = [], lc_anonymous_daily_limit = 1\<rparr> sample_suggestion (d', empty_server)
      = (Inl e, (d', empty_server))"
proof -
  let ?cfg = "\<lparr>lc_quota_secret = [], lc_anonymous_daily_limit = 1\<rparr>"
  have inv: "matrix_inv (env_sha256 sample_env) sample_tree" by (rule matrix.reachable_inv[OF refl sample_tree_reachable])
  have "\<not> suggestion_known sample_env (u ''X y'') (u ''py'') sample_tree"
    by (simp add: suggestion_known_def join_structure_def sample_tree_def empty_db_def)
  then obtain r d' where run: "suggest_question sample_env server_ops [] ?cfg sample_suggestion (sample_tree, empty_server) = (Inr r, (d', empty_server))"
    by (simp add: suggest_question_def Let_def run_bind run_on_db run_ensure run_ret list_sheets_def run_gets exists_run sample_suggestion_def
        create_queued_question_def add_queued_run increment_def run_modify sample_tree_def empty_db_def)
  show ?thesis
    using suggestions_unique[OF inv refl refl run, of "u ''py''" sample_suggestion server_ops "[]" ?cfg empty_server] run
    by (fastforce simp: sample_suggestion_def)
qed

end
