(* ===== verification/Text_Formats.thy ===== *)
theory Text_Formats
  imports Prelude
begin

text \<open>
  What the import of questions uses of Python's standard library: \<open>bytes.decode("utf-8-sig")\<close>,
  \<open>str.splitlines\<close> and \<open>csv.reader\<close> on an \<open>io.StringIO\<close>, as executable functions, and the two
  round trips that the import rests on: decoding what was encoded as UTF-8, and reading rows of
  fields that were written between quotes.
\<close>

section \<open>UTF-8\<close>

definition is_continuation :: "nat \<Rightarrow> bool" where
  "is_continuation b \<longleftrightarrow> 128 \<le> b \<and> b \<le> 191"

text \<open>The admissible pairs of first and second byte; surrogates and overlong forms are excluded.\<close>

definition leads_two :: "nat \<Rightarrow> nat \<Rightarrow> bool" where
  "leads_two a b \<longleftrightarrow> 194 \<le> a \<and> a \<le> 223 \<and> is_continuation b"

definition leads_three :: "nat \<Rightarrow> nat \<Rightarrow> bool" where
  "leads_three a b \<longleftrightarrow> 224 \<le> a \<and> a \<le> 239 \<and> is_continuation b
     \<and> (a = 224 \<longrightarrow> 160 \<le> b) \<and> (a = 237 \<longrightarrow> b \<le> 159)"

definition leads_four :: "nat \<Rightarrow> nat \<Rightarrow> bool" where
  "leads_four a b \<longleftrightarrow> 240 \<le> a \<and> a \<le> 244 \<and> is_continuation b
     \<and> (a = 240 \<longrightarrow> 144 \<le> b) \<and> (a = 244 \<longrightarrow> b \<le> 143)"

fun utf8_decode :: "nat list \<Rightarrow> pystr option" where
  "utf8_decode [] = Some []"
| "utf8_decode (a # bs) =
     (if a < 128 then map_option (Cons a) (utf8_decode bs)
      else case bs of
        [] \<Rightarrow> None
      | b # cs \<Rightarrow>
          if leads_two a b then map_option (Cons ((a - 192) * 64 + (b - 128))) (utf8_decode cs)
          else (case cs of
            [] \<Rightarrow> None
          | c # es \<Rightarrow>
              if leads_three a b \<and> is_continuation c
              then map_option (Cons ((a - 224) * 4096 + (b - 128) * 64 + (c - 128))) (utf8_decode es)
              else (case es of
                [] \<Rightarrow> None
              | e # fs \<Rightarrow>
                  if leads_four a b \<and> is_continuation c \<and> is_continuation e
                  then map_option (Cons ((a - 240) * 262144 + (b - 128) * 4096 + (c - 128) * 64 + (e - 128)))
                         (utf8_decode fs)
                  else None)))"

declare utf8_decode.simps(2) [simp del]

text \<open>The codec \<open>utf-8-sig\<close> skips one byte order mark at the start.\<close>

definition decode_utf8_sig :: "nat list \<Rightarrow> pystr option" where
  "decode_utf8_sig bs = utf8_decode (if take 3 bs = [239, 187, 191] then drop 3 bs else bs)"

definition is_scalar :: "nat \<Rightarrow> bool" where
  "is_scalar c \<longleftrightarrow> c < 55296 \<or> (57344 \<le> c \<and> c < 1114112)"

definition utf8_char :: "nat \<Rightarrow> nat list" where
  "utf8_char c =
     (if c < 128 then [c]
      else if c < 2048 then [192 + c div 64, 128 + c mod 64]
      else if c < 65536 then [224 + c div 4096, 128 + c div 64 mod 64, 128 + c mod 64]
      else [240 + c div 262144, 128 + c div 4096 mod 64, 128 + c div 64 mod 64, 128 + c mod 64])"

definition utf8_encode :: "pystr \<Rightarrow> nat list" where
  "utf8_encode s = concat (map utf8_char s)"

lemma continuation_mod [simp]: "is_continuation (128 + n mod 64)"
  using mod_less_divisor[of 64 n] by (simp add: is_continuation_def)

lemma base64_digits:
  fixes c :: nat
  shows "c div 4096 * 4096 + c div 64 mod 64 * 64 + c mod 64 = c"
    and "c div 262144 * 262144 + c div 4096 mod 64 * 4096 + c div 64 mod 64 * 64 + c mod 64 = c"
proof -
  have two: "c div 4096 = c div 64 div 64" and three: "c div 262144 = c div 64 div 64 div 64"
    by (simp_all flip: div_mult2_eq)
  show "c div 4096 * 4096 + c div 64 mod 64 * 64 + c mod 64 = c"
    unfolding two using div_mult_mod_eq[of c 64] div_mult_mod_eq[of "c div 64" 64] by linarith
  show "c div 262144 * 262144 + c div 4096 mod 64 * 4096 + c div 64 mod 64 * 64 + c mod 64 = c"
    unfolding two three
    using div_mult_mod_eq[of c 64] div_mult_mod_eq[of "c div 64" 64] div_mult_mod_eq[of "c div 64 div 64" 64]
    by linarith
qed

lemma three_bytes:
  assumes "is_scalar c" "2048 \<le> c" "c < 65536"
  shows "leads_three (224 + c div 4096) (128 + c div 64 mod 64)"
proof -
  let ?a = "c div 4096" and ?b = "c div 64 mod 64" and ?m = "c mod 64"
  have c: "c = ?a * 4096 + ?b * 64 + ?m" using base64_digits(1)[of c] by simp
  have b: "?b < 64" "?m < 64" by simp_all
  have "?a < 16" using c b assms(3) by linarith
  moreover have "32 \<le> ?b" if "?a = 0" using c b assms(2) that by linarith
  moreover have "?b < 32" if "?a = 13"
  proof -
    have "c < 57344" using c b that by linarith
    then have "c < 55296" using assms(1) unfolding is_scalar_def by linarith
    then show ?thesis using c that by linarith
  qed
  ultimately show ?thesis using b by (auto simp: leads_three_def)
qed

lemma four_bytes:
  assumes "is_scalar c" "65536 \<le> c"
  shows "leads_four (240 + c div 262144) (128 + c div 4096 mod 64)"
proof -
  let ?a = "c div 262144" and ?b = "c div 4096 mod 64" and ?m = "c div 64 mod 64" and ?n = "c mod 64"
  have c: "c = ?a * 262144 + ?b * 4096 + ?m * 64 + ?n" using base64_digits(2)[of c] by simp
  have b: "?b < 64" "?m < 64" "?n < 64" by simp_all
  have "c < 1114112" using assms by (simp add: is_scalar_def)
  then have "?a < 5" and "?b < 16" if "?a = 4" using c that by linarith+
  moreover have "?a < 5" using c b \<open>c < 1114112\<close> by linarith
  moreover have "16 \<le> ?b" if "?a = 0" using c b assms(2) that by linarith
  ultimately show ?thesis using b by (auto simp: leads_four_def)
qed

lemma utf8_decode_char:
  assumes "is_scalar c"
  shows "utf8_decode (utf8_char c @ r) = map_option (Cons c) (utf8_decode r)"
proof -
  consider (one) "c < 128" | (two) "128 \<le> c" "c < 2048" | (three) "2048 \<le> c" "c < 65536" | (four) "65536 \<le> c"
    by linarith
  then show ?thesis
  proof cases
    case one then show ?thesis by (simp add: utf8_char_def utf8_decode.simps(2))
  next
    case two
    then have "2 \<le> c div 64" "c div 64 \<le> 31" using div_le_mono[of 128 c 64] div_le_mono[of c 2047 64] by simp_all
    with two show ?thesis by (simp add: utf8_char_def utf8_decode.simps(2) leads_two_def)
  next
    case three
    have "\<not> leads_two (224 + c div 4096) b" for b by (simp add: leads_two_def)
    then show ?thesis
      using three three_bytes[OF assms three] base64_digits(1)[of c] by (simp add: utf8_char_def utf8_decode.simps(2))
  next
    case four
    have "\<not> leads_two (240 + c div 262144) b" "\<not> leads_three (240 + c div 262144) b" for b
      by (simp_all add: leads_two_def leads_three_def)
    then show ?thesis
      using four four_bytes[OF assms four] base64_digits(2)[of c] by (simp add: utf8_char_def utf8_decode.simps(2))
  qed
qed

lemma utf8_decode_encode: "\<forall>c \<in> set s. is_scalar c \<Longrightarrow> utf8_decode (utf8_encode s) = Some s"
  by (induction s) (auto simp: utf8_encode_def utf8_decode_char)

lemma utf8_char_bom:
  assumes "is_scalar c" and "take 3 (utf8_char c @ r) = [239, 187, 191]"
  shows "c = 65279"
proof -
  have big: "2048 \<le> c" using assms(2) by (cases "c < 128"; cases "c < 2048") (auto simp: utf8_char_def)
  moreover have "c < 65536"
  proof (rule ccontr)
    assume "\<not> c < 65536"
    then show False using assms(2) big by (simp add: utf8_char_def)
  qed
  ultimately have "224 + c div 4096 = 239" "128 + c div 64 mod 64 = 187" "128 + c mod 64 = 191"
    using assms(2) by (simp_all add: utf8_char_def)
  then show ?thesis using base64_digits(1)[of c] by linarith
qed

text \<open>A text is read back from its encoding, with or without a byte order mark in front.\<close>

lemma decode_encoded:
  assumes "\<forall>c \<in> set s. is_scalar c"
  shows "decode_utf8_sig ([239, 187, 191] @ utf8_encode s) = Some s"
    and "(s = [] \<or> hd s \<noteq> 65279) \<Longrightarrow> decode_utf8_sig (utf8_encode s) = Some s"
proof -
  show "decode_utf8_sig ([239, 187, 191] @ utf8_encode s) = Some s"
    using assms by (simp add: decode_utf8_sig_def utf8_decode_encode)
  assume "s = [] \<or> hd s \<noteq> 65279"
  then have "take 3 (utf8_encode s) \<noteq> [239, 187, 191]"
    using assms utf8_char_bom by (cases s) (auto simp: utf8_encode_def)
  then show "decode_utf8_sig (utf8_encode s) = Some s"
    using assms by (simp add: decode_utf8_sig_def utf8_decode_encode)
qed

section \<open>Lines\<close>

definition is_line_break :: "nat \<Rightarrow> bool" where
  "is_line_break c \<longleftrightarrow> (10 \<le> c \<and> c \<le> 13) \<or> (28 \<le> c \<and> c \<le> 30) \<or> c = 133 \<or> c = 8232 \<or> c = 8233"

fun splitlines_acc :: "pystr \<Rightarrow> pystr \<Rightarrow> pystr list" where
  "splitlines_acc acc [] = (if acc = [] then [] else [acc])"
| "splitlines_acc acc (c # cs) =
     (if is_line_break c then acc # splitlines_acc [] (if c = 13 \<and> take 1 cs = [10] then drop 1 cs else cs)
      else splitlines_acc (acc @ [c]) cs)"

definition splitlines :: "pystr \<Rightarrow> pystr list" where
  "splitlines s = splitlines_acc [] s"

lemma splitlines_acc_line:
  assumes "\<forall>c \<in> set l. \<not> is_line_break c"
  shows "splitlines_acc acc (l @ rest) = splitlines_acc (acc @ l) rest"
  using assms by (induction l arbitrary: acc) auto

text \<open>Lines joined by line feeds come apart again, unless the last line is empty.\<close>

lemma splitlines_join:
  assumes "\<forall>l \<in> set ls. \<forall>c \<in> set l. \<not> is_line_break c" and "ls \<noteq> []" and "last ls \<noteq> []"
  shows "splitlines (join [10] ls) = ls"
  using assms
proof (induction ls)
  case (Cons x ls)
  show ?case
  proof (cases ls)
    case Nil
    then show ?thesis using Cons.prems splitlines_acc_line[of x "[]" "[]"] by (simp add: splitlines_def)
  next
    case (Cons y ys)
    have "splitlines (join [10] ls) = ls" using Cons.prems Cons by (intro Cons.IH) auto
    then show ?thesis
      using Cons Cons.prems splitlines_acc_line[of x "[]"] by (simp add: splitlines_def is_line_break_def)
  qed
qed simp

section \<open>The CSV reader\<close>

text \<open>
  The automaton of \<open>csv.reader\<close> for the dialects of \<open>csv.excel\<close> and \<open>csv.Sniffer\<close>, which have no
  escape character and are not strict.  \<open>None\<close> as a character is the end of a line that
  \<open>io.StringIO\<close> hands out, \<open>None\<close> as a result is \<open>csv.Error\<close>: a line break outside quotes that is not at
  the end of its line, or a field above the limit of the module.
\<close>

record dialect =
  dl_delimiter :: nat
  dl_quotechar :: nat
  dl_doublequote :: bool
  dl_skipinitialspace :: bool

definition excel_dialect :: dialect where
  "excel_dialect = \<lparr>dl_delimiter = 44, dl_quotechar = 34, dl_doublequote = True, dl_skipinitialspace = False\<rparr>"

datatype csv_state = START_RECORD | START_FIELD | IN_FIELD | IN_QUOTED_FIELD | QUOTE_IN_QUOTED_FIELD | EAT_CRNL

record csv_reader =
  rd_state :: csv_state
  rd_field :: pystr
  rd_fields :: "pystr list"

definition csv_field_limit :: nat where
  "csv_field_limit = 131072"

definition new_record :: csv_reader where
  "new_record = \<lparr>rd_state = START_RECORD, rd_field = [], rd_fields = []\<rparr>"

definition parse_save_field :: "csv_state \<Rightarrow> csv_reader \<Rightarrow> csv_reader" where
  "parse_save_field st r = \<lparr>rd_state = st, rd_field = [], rd_fields = rd_fields r @ [rd_field r]\<rparr>"

definition parse_add_char :: "nat \<Rightarrow> csv_state \<Rightarrow> csv_reader \<Rightarrow> csv_reader option" where
  "parse_add_char c st r =
     (if csv_field_limit \<le> length (rd_field r) then None
      else Some (r\<lparr>rd_state := st, rd_field := rd_field r @ [c]\<rparr>))"

text \<open>The end of a field at the end of the line or at a line break.\<close>

definition parse_end_of_line :: "nat option \<Rightarrow> csv_reader \<Rightarrow> csv_reader" where
  "parse_end_of_line c r = parse_save_field (if c = None then START_RECORD else EAT_CRNL) r"

definition ends_line :: "nat option \<Rightarrow> bool" where
  "ends_line c \<longleftrightarrow> c = None \<or> c = Some 10 \<or> c = Some 13"

definition process_start_field :: "dialect \<Rightarrow> nat option \<Rightarrow> csv_reader \<Rightarrow> csv_reader option" where
  "process_start_field dl c r =
     (if ends_line c then Some (parse_end_of_line c r)
      else if c = Some (dl_quotechar dl) then Some (r\<lparr>rd_state := IN_QUOTED_FIELD\<rparr>)
      else if c = Some 32 \<and> dl_skipinitialspace dl then Some (r\<lparr>rd_state := START_FIELD\<rparr>)
      else if c = Some (dl_delimiter dl) then Some (parse_save_field START_FIELD r)
      else parse_add_char (the c) IN_FIELD r)"

definition parse_process_char :: "dialect \<Rightarrow> nat option \<Rightarrow> csv_reader \<Rightarrow> csv_reader option" where
  "parse_process_char dl c r =
     (case rd_state r of
        START_RECORD \<Rightarrow>
          if c = None then Some r
          else if ends_line c then Some (r\<lparr>rd_state := EAT_CRNL\<rparr>)
          else process_start_field dl c r
      | START_FIELD \<Rightarrow> process_start_field dl c r
      | IN_FIELD \<Rightarrow>
          if ends_line c then Some (parse_end_of_line c r)
          else if c = Some (dl_delimiter dl) then Some (parse_save_field START_FIELD r)
          else parse_add_char (the c) IN_FIELD r
      | IN_QUOTED_FIELD \<Rightarrow>
          if c = None then Some r
          else if c = Some (dl_quotechar dl)
          then Some (r\<lparr>rd_state := (if dl_doublequote dl then QUOTE_IN_QUOTED_FIELD else IN_FIELD)\<rparr>)
          else parse_add_char (the c) IN_QUOTED_FIELD r
      | QUOTE_IN_QUOTED_FIELD \<Rightarrow>
          if c = Some (dl_quotechar dl) then parse_add_char (the c) IN_QUOTED_FIELD r
          else if c = Some (dl_delimiter dl) then Some (parse_save_field START_FIELD r)
          else if ends_line c then Some (parse_end_of_line c r)
          else parse_add_char (the c) IN_FIELD r
      | EAT_CRNL \<Rightarrow>
          if c = None then Some (r\<lparr>rd_state := START_RECORD\<rparr>)
          else if ends_line c then Some r
          else None)"

text \<open>
  A row is complete when the automaton is back at the start at the end of a line; otherwise it goes
  on with the next line.  The flag says that characters have been read since the last line ended.
\<close>

definition csv_end :: "csv_reader \<Rightarrow> pystr list list option" where
  "csv_end r =
     Some (if rd_field r \<noteq> [] \<or> rd_state r = IN_QUOTED_FIELD then [rd_fields (parse_save_field START_RECORD r)] else [])"

fun csv_rows :: "dialect \<Rightarrow> pystr \<Rightarrow> bool \<Rightarrow> csv_reader \<Rightarrow> pystr list list option" where
  "csv_rows dl [] mid r =
     (if mid then
        (case parse_process_char dl None r of
           None \<Rightarrow> None
         | Some r' \<Rightarrow> if rd_state r' = START_RECORD then Some [rd_fields r'] else csv_end r')
      else csv_end r)"
| "csv_rows dl (c # cs) mid r =
     (case parse_process_char dl (Some c) r of
        None \<Rightarrow> None
      | Some r1 \<Rightarrow>
          if c \<noteq> 10 then csv_rows dl cs True r1
          else (case parse_process_char dl None r1 of
             None \<Rightarrow> None
           | Some r2 \<Rightarrow>
               if rd_state r2 = START_RECORD then map_option (Cons (rd_fields r2)) (csv_rows dl cs False new_record)
               else csv_rows dl cs False r2))"

definition csv_read :: "dialect \<Rightarrow> pystr \<Rightarrow> pystr list list option" where
  "csv_read dl text = csv_rows dl text False new_record"

text \<open>
  Rows written with every field between quotes, and read again.  Where the dialect does not read a doubled quote as one,
  the fields must not hold quotes.
\<close>

definition csv_quoted :: "dialect \<Rightarrow> pystr \<Rightarrow> pystr" where
  "csv_quoted dl f =
     [dl_quotechar dl] @ concat (map (\<lambda>c. if c = dl_quotechar dl then [c, c] else [c]) f) @ [dl_quotechar dl]"

definition csv_line :: "dialect \<Rightarrow> pystr list \<Rightarrow> pystr" where
  "csv_line dl row = join [dl_delimiter dl] (map (csv_quoted dl) row) @ [13, 10]"

definition csv_write :: "dialect \<Rightarrow> pystr list list \<Rightarrow> pystr" where
  "csv_write dl rows = concat (map (csv_line dl) rows)"

definition quoting_dialect :: "dialect \<Rightarrow> bool" where
  "quoting_dialect dl \<longleftrightarrow> dl_delimiter dl \<noteq> dl_quotechar dl
     \<and> dl_delimiter dl \<notin> {10, 13} \<and> dl_quotechar dl \<notin> {10, 13}"

definition quotable :: "dialect \<Rightarrow> pystr \<Rightarrow> bool" where
  "quotable dl f \<longleftrightarrow> length f \<le> csv_field_limit \<and> (dl_doublequote dl \<or> dl_quotechar dl \<notin> set f)"

lemma csv_rows_mid: "rest \<noteq> [] \<Longrightarrow> csv_rows dl rest mid r = csv_rows dl rest True r"
  by (cases rest) auto

declare csv_rows.simps(2) [simp del]

lemma csv_step:
  "parse_process_char dl (Some c) r = Some r1 \<Longrightarrow> c \<noteq> 10 \<Longrightarrow> csv_rows dl (c # cs) mid r = csv_rows dl cs True r1"
  by (simp add: csv_rows.simps(2))

text \<open>The characters between quotes, a doubled quote for each quote of the field.\<close>

definition csv_escaped :: "dialect \<Rightarrow> pystr \<Rightarrow> pystr" where
  "csv_escaped dl f = concat (map (\<lambda>c. if c = dl_quotechar dl then [c, c] else [c]) f)"

lemma csv_escaped_Cons: "csv_escaped dl (c # f) = (if c = dl_quotechar dl then [c, c] else [c]) @ csv_escaped dl f"
  by (simp add: csv_escaped_def)

lemma csv_quoted_char:
  assumes dl: "quoting_dialect dl" and st: "rd_state r = IN_QUOTED_FIELD"
    and len: "length (rd_field r) < csv_field_limit" and rest: "rest \<noteq> []"
    and c: "dl_doublequote dl \<or> c \<noteq> dl_quotechar dl"
  shows "csv_rows dl ((if c = dl_quotechar dl then [c, c] else [c]) @ rest) mid r =
    csv_rows dl rest True (r\<lparr>rd_field := rd_field r @ [c]\<rparr>)"
proof -
  let ?r = "r\<lparr>rd_field := rd_field r @ [c]\<rparr>"
  have id: "r\<lparr>rd_state := IN_QUOTED_FIELD, rd_field := fd\<rparr> = r\<lparr>rd_field := fd\<rparr>" for fd
    using st by (cases r) simp
  consider (quote) "c = dl_quotechar dl" | (lf) "c \<noteq> dl_quotechar dl" "c = 10" | (other) "c \<noteq> dl_quotechar dl" "c \<noteq> 10"
    by blast
  then show ?thesis
  proof cases
    case quote
    let ?q = "r\<lparr>rd_state := QUOTE_IN_QUOTED_FIELD\<rparr>"
    have nl: "c \<noteq> 10" using dl quote by (simp add: quoting_dialect_def)
    have "parse_process_char dl (Some c) r = Some ?q"
      using c st quote by (simp add: parse_process_char_def)
    moreover have "parse_process_char dl (Some c) ?q = Some ?r"
      using quote len id by (simp add: parse_process_char_def parse_add_char_def)
    ultimately show ?thesis using quote nl by (simp add: csv_step)
  next
    case lf
    have "parse_process_char dl (Some c) r = Some ?r"
      using st lf len id by (simp add: parse_process_char_def parse_add_char_def)
    moreover have "parse_process_char dl None ?r = Some ?r" using st by (simp add: parse_process_char_def)
    ultimately show ?thesis
      using lf st csv_rows_mid[OF rest, of dl False ?r] by (simp add: csv_rows.simps(2))
  next
    case other
    have "parse_process_char dl (Some c) r = Some ?r"
      using st other len id by (simp add: parse_process_char_def parse_add_char_def)
    then show ?thesis using other by (simp add: csv_step)
  qed
qed

lemma csv_quoted_chars:
  assumes dl: "quoting_dialect dl" and st: "rd_state r = IN_QUOTED_FIELD"
    and len: "length (rd_field r) + length f \<le> csv_field_limit" and rest: "rest \<noteq> []"
    and f: "dl_doublequote dl \<or> dl_quotechar dl \<notin> set f"
  shows "csv_rows dl (csv_escaped dl f @ rest) mid r = csv_rows dl rest True (r\<lparr>rd_field := rd_field r @ f\<rparr>)"
  using st len f
proof (induction f arbitrary: r mid)
  case Nil
  then show ?case using csv_rows_mid[OF rest] by (simp add: csv_escaped_def)
next
  case (Cons c f)
  let ?r = "r\<lparr>rd_field := rd_field r @ [c]\<rparr>"
  have "csv_rows dl (csv_escaped dl (c # f) @ rest) mid r = csv_rows dl (csv_escaped dl f @ rest) True ?r"
    using csv_quoted_char[OF dl, of r "csv_escaped dl f @ rest" c mid] Cons.prems rest
    by (auto simp: csv_escaped_Cons)
  also have "\<dots> = csv_rows dl rest True (?r\<lparr>rd_field := rd_field ?r @ f\<rparr>)"
    using Cons.prems by (intro Cons.IH) auto
  finally show ?case by simp
qed

lemma csv_quoted_field:
  assumes dl: "quoting_dialect dl" and st: "rd_state r \<in> {START_RECORD, START_FIELD}"
    and f: "rd_field r = []" "quotable dl f" and x: "x \<in> {dl_delimiter dl, 13}"
  shows "csv_rows dl (csv_quoted dl f @ x # rest) mid r =
    csv_rows dl rest True (parse_save_field (if x = 13 then EAT_CRNL else START_FIELD) (r\<lparr>rd_field := f\<rparr>))"
proof -
  let ?q = "r\<lparr>rd_state := IN_QUOTED_FIELD\<rparr>" and ?e = "r\<lparr>rd_state := if dl_doublequote dl then QUOTE_IN_QUOTED_FIELD else IN_FIELD, rd_field := f\<rparr>"
  have nl: "dl_quotechar dl \<noteq> 10" "x \<noteq> 10" "x \<noteq> dl_quotechar dl" using dl x by (auto simp: quoting_dialect_def)
  have opened: "parse_process_char dl (Some (dl_quotechar dl)) r = Some ?q"
    using dl st by (auto simp: parse_process_char_def process_start_field_def ends_line_def quoting_dialect_def)
  have closed: "parse_process_char dl (Some (dl_quotechar dl)) (?q\<lparr>rd_field := f\<rparr>) = Some ?e"
    using dl by (simp add: parse_process_char_def quoting_dialect_def)
  have ended: "parse_process_char dl (Some x) ?e =
      Some (parse_save_field (if x = 13 then EAT_CRNL else START_FIELD) (r\<lparr>rd_field := f\<rparr>))"
    using dl x nl by (auto simp: parse_process_char_def quoting_dialect_def ends_line_def parse_end_of_line_def parse_save_field_def)
  have "csv_rows dl (csv_quoted dl f @ x # rest) mid r =
      csv_rows dl (csv_escaped dl f @ dl_quotechar dl # x # rest) True ?q"
    using csv_step[OF opened nl(1)] by (simp add: csv_quoted_def csv_escaped_def)
  also have "\<dots> = csv_rows dl (dl_quotechar dl # x # rest) True (?q\<lparr>rd_field := f\<rparr>)"
    using csv_quoted_chars[OF dl, of ?q f "dl_quotechar dl # x # rest" True] f by (simp add: quotable_def)
  also have "\<dots> = csv_rows dl (x # rest) True ?e" by (rule csv_step[OF closed nl(1)])
  also have "\<dots> = csv_rows dl rest True (parse_save_field (if x = 13 then EAT_CRNL else START_FIELD) (r\<lparr>rd_field := f\<rparr>))"
    by (rule csv_step[OF ended nl(2)])
  finally show ?thesis .
qed

lemma csv_one_line:
  assumes dl: "quoting_dialect dl" and st: "rd_state r \<in> {START_RECORD, START_FIELD}" "rd_field r = []"
    and fs: "row \<noteq> []" "\<forall>f \<in> set row. quotable dl f"
  shows "csv_rows dl (csv_line dl row @ rest) mid r =
    map_option (Cons (rd_fields r @ row)) (csv_rows dl rest False new_record)"
  using st fs
proof (induction row arbitrary: r mid)
  case (Cons f row)
  show ?case
  proof (cases row)
    case Nil
    have "csv_rows dl (csv_line dl [f] @ rest) mid r =
        csv_rows dl ([10] @ rest) True (parse_save_field EAT_CRNL (r\<lparr>rd_field := f\<rparr>))"
      using csv_quoted_field[OF dl, of r f 13 "10 # rest" mid] Cons.prems by (simp add: csv_line_def)
    then show ?thesis
      using Nil by (simp add: csv_rows.simps(2) parse_process_char_def parse_save_field_def ends_line_def)
  next
    case (Cons g gs)
    let ?r = "parse_save_field START_FIELD (r\<lparr>rd_field := f\<rparr>)"
    have ne: "dl_delimiter dl \<noteq> 13" using dl by (simp add: quoting_dialect_def)
    have "csv_rows dl (csv_line dl (f # row) @ rest) mid r = csv_rows dl (csv_line dl row @ rest) True ?r"
      using csv_quoted_field[OF dl, of r f "dl_delimiter dl" "csv_line dl row @ rest" mid] Cons.prems Cons ne
      by (simp add: csv_line_def)
    also have "\<dots> = map_option (Cons (rd_fields ?r @ row)) (csv_rows dl rest False new_record)"
      using Cons.prems Cons by (intro Cons.IH) (auto simp: parse_save_field_def)
    finally show ?thesis by (simp add: parse_save_field_def)
  qed
qed simp

lemma csv_read_write:
  assumes dl: "quoting_dialect dl"
    and rows: "\<forall>row \<in> set rows. row \<noteq> [] \<and> (\<forall>f \<in> set row. quotable dl f)"
  shows "csv_read dl (csv_write dl rows) = Some rows"
  using rows
proof (induction rows)
  case Nil
  show ?case by (simp add: csv_read_def csv_write_def csv_end_def new_record_def)
next
  case (Cons row rows)
  then show ?case
    using csv_one_line[OF dl, of new_record row "csv_write dl rows" False]
    by (simp add: csv_read_def csv_write_def new_record_def)
qed

end
