(* ===== verification/Matrix_Import.thy ===== *)
theory Matrix_Import
  imports Text_Formats Matrix_Items
begin

text \<open>
  The import of questions into the queue: \<open>QuestionQueueImportParser\<close> of
  \<open>core/competency_matrix/parsers.py\<close>, the preview of \<open>core/competency_matrix/schemas.py\<close> with its
  duplicate warnings and its selection of rows, and the use cases that show a preview and import the
  selected rows.  The guess of a CSV dialect (\<open>csv.Sniffer\<close>) and the reading of a workbook (openpyxl)
  are parameters; decoding, lines and the CSV reader are those of \<open>Text_Formats\<close>.
\<close>

section \<open>Data\<close>

text \<open>A value of a cell: a text, or another object with the text that \<open>str\<close> gives for it.\<close>

datatype cell_value = CText pystr | COther pystr

fun cell_text :: "cell_value \<Rightarrow> pystr" where
  "cell_text (CText s) = s"
| "cell_text (COther s) = s"

record import_ops =
  io_sniff :: "pystr \<Rightarrow> pystr \<Rightarrow> dialect option"
  io_load_workbook :: "nat list \<Rightarrow> cell_value option list list option"

record import_rules =
  ir_supported_text_extensions :: "pystr list"
  ir_supported_excel_extensions :: "pystr list"
  ir_unsupported_legacy_excel_extensions :: "pystr list"
  ir_supported_extensions_for_message :: "pystr list"
  ir_question_headers :: "pystr list"
  ir_question_headers_for_message :: "pystr list"
  ir_sheet_headers :: "pystr list"
  ir_grade_headers :: "pystr list"
  ir_csv_delimiters :: pystr
  ir_question_max_length :: nat

definition import_constants :: import_rules where
  "import_constants =
     \<lparr>ir_supported_text_extensions = [u ''.txt'', u ''.csv''],
      ir_supported_excel_extensions = [u ''.xlsx'', u ''.xlsm''],
      ir_unsupported_legacy_excel_extensions = [u ''.xls''],
      ir_supported_extensions_for_message = [u ''.txt'', u ''.csv'', u ''.xlsx'', u ''.xlsm''],
      ir_question_headers = [u ''question'', u ''questions'',
        [1074, 1086, 1087, 1088, 1086, 1089], [1074, 1086, 1087, 1088, 1086, 1089, 1099]],
      ir_question_headers_for_message = [u ''question'', u ''questions'',
        [1074, 1086, 1087, 1088, 1086, 1089], [1074, 1086, 1087, 1088, 1086, 1089, 1099]],
      ir_sheet_headers = [u ''sheet'', [1083, 1080, 1089, 1090]],
      ir_grade_headers = [u ''grade'', [1075, 1088, 1077, 1081, 1076]],
      ir_csv_delimiters = [44, 59, 9, 124],
      ir_question_max_length = 255\<rparr>"

record import_file =
  if_filename :: pystr
  if_content :: "nat list"

record parsed_row =
  pr_row_number :: int
  pr_question :: "cell_value option"
  pr_sheet :: "cell_value option"
  pr_grade :: "cell_value option"

record column_indexes =
  ci_question :: nat
  ci_sheet :: "nat option"
  ci_grade :: "nat option"

datatype issue_code =
    QUESTION_NOT_TEXT | QUESTION_BLANK | QUESTION_TOO_LONG | SHEET_NOT_TEXT | GRADE_NOT_TEXT | GRADE_INVALID
  | DUPLICATE_IN_FILE | DUPLICATE_IN_QUEUE

datatype issue_severity = SEVERITY_ERROR | SEVERITY_WARNING

record import_preview_issue =
  pv_code :: issue_code
  pv_severity :: issue_severity
  pv_related_row_numbers :: "int list"

record import_preview_row =
  vr_row_number :: int
  vr_question :: pystr
  vr_sheet :: pystr
  vr_grade :: pystr
  vr_params :: "queue_params option"
  vr_issues :: "import_preview_issue list"

definition can_import :: "import_preview_row \<Rightarrow> bool" where
  "can_import r \<longleftrightarrow> vr_params r \<noteq> None"

definition selected_by_default :: "import_preview_row \<Rightarrow> bool" where
  "selected_by_default r \<longleftrightarrow> can_import r \<and> vr_issues r = []"

definition question_fingerprint :: "import_preview_row \<Rightarrow> pystr option" where
  "question_fingerprint r = map_option (\<lambda>p. fingerprint_value (qp_question p)) (vr_params r)"

definition with_issue :: "import_preview_issue \<Rightarrow> import_preview_row \<Rightarrow> import_preview_row" where
  "with_issue i r = r\<lparr>vr_issues := vr_issues r @ [i]\<rparr>"

fun grade_value :: "grade \<Rightarrow> pystr" where
  "grade_value JUNIOR = u ''Junior''"
| "grade_value JUNIOR_PLUS = u ''Junior+''"
| "grade_value MIDDLE = u ''Middle''"
| "grade_value MIDDLE_PLUS = u ''Middle+''"
| "grade_value SENIOR = u ''Senior''"

definition grades_all :: "grade list" where
  "grades_all = [JUNIOR, JUNIOR_PLUS, MIDDLE, MIDDLE_PLUS, SENIOR]"

section \<open>The parser\<close>

text \<open>No message of the parser holds a brace, so \<open>str.format\<close> leaves it as it is.\<close>

definition issue :: "pystr \<Rightarrow> import_issue" where
  "issue message = \<lparr>ii_message = message, ii_row_number = None\<rparr>"

definition raise_invalid :: "import_issue list \<Rightarrow> error + 'a" where
  "raise_invalid issues = Inl (QuestionQueueImportInvalidError issues)"

definition normalize_question_text :: "pystr \<Rightarrow> pystr" where
  "normalize_question_text value = replace [13] [32] (replace [10] [32] (replace [13, 10] [32] value))"

definition normalize_optional_text :: "pystr option \<Rightarrow> pystr option" where
  "normalize_optional_text value =
     (case value of
        None \<Rightarrow> None
      | Some v \<Rightarrow> (let text = strip (normalize_question_text v) in if text = [] then None else Some text))"

text \<open>\<open>GradeEnum(text)\<close>; the value has been checked before.\<close>

definition normalize_optional_grade :: "pystr option \<Rightarrow> grade option" where
  "normalize_optional_grade value =
     (case normalize_optional_text value of None \<Rightarrow> None | Some text \<Rightarrow> from_value grades_all grade_value text)"

definition display_value :: "cell_value option \<Rightarrow> bool \<Rightarrow> pystr" where
  "display_value value normalized =
     (case value of
        None \<Rightarrow> []
      | Some c \<Rightarrow> if normalized then strip (normalize_question_text (cell_text c)) else cell_text c)"

definition preview_issue :: "issue_code \<Rightarrow> import_preview_issue" where
  "preview_issue code = \<lparr>pv_code = code, pv_severity = SEVERITY_ERROR, pv_related_row_numbers = []\<rparr>"

definition question_issues :: "import_rules \<Rightarrow> cell_value option \<Rightarrow> issue_code list" where
  "question_issues rules value =
     (case value of
        Some (CText s) \<Rightarrow>
          (let question = strip (normalize_question_text s) in
           if question = [] then [QUESTION_BLANK]
           else if ir_question_max_length rules < length question then [QUESTION_TOO_LONG]
           else [])
      | _ \<Rightarrow> [QUESTION_NOT_TEXT])"

definition sheet_issues :: "cell_value option \<Rightarrow> issue_code list" where
  "sheet_issues value = (case value of Some (COther _) \<Rightarrow> [SHEET_NOT_TEXT] | _ \<Rightarrow> [])"

definition grade_issues :: "cell_value option \<Rightarrow> issue_code list" where
  "grade_issues value =
     (case value of
        None \<Rightarrow> []
      | Some (COther _) \<Rightarrow> [GRADE_NOT_TEXT]
      | Some (CText s) \<Rightarrow>
          (case normalize_optional_text (Some s) of
             None \<Rightarrow> []
           | Some grade \<Rightarrow> if grade \<in> set (map grade_value grades_all) then [] else [GRADE_INVALID]))"

definition preview_row :: "import_rules \<Rightarrow> parsed_row \<Rightarrow> import_preview_row" where
  "preview_row rules row =
     (let issues = map preview_issue
            (question_issues rules (pr_question row) @ sheet_issues (pr_sheet row) @ grade_issues (pr_grade row));
          text_of = map_option cell_text
      in \<lparr>vr_row_number = pr_row_number row, vr_question = display_value (pr_question row) True,
          vr_sheet = display_value (pr_sheet row) True, vr_grade = display_value (pr_grade row) True,
          vr_params =
            (if issues = [] then
               Some \<lparr>qp_question = strip (normalize_question_text (case text_of (pr_question row) of Some s \<Rightarrow> s | None \<Rightarrow> [])),
                     qp_sheet = normalize_optional_text (text_of (pr_sheet row)),
                     qp_grade = normalize_optional_grade (text_of (pr_grade row))\<rparr>
             else None),
          vr_issues = issues\<rparr>)"

definition decode_text :: "nat list \<Rightarrow> error + pystr" where
  "decode_text content =
     (case decode_utf8_sig content of
        Some text \<Rightarrow> Inr text
      | None \<Rightarrow> raise_invalid [issue (u ''Import file must be UTF-8 encoded text.'')])"

definition parse_txt :: "nat list \<Rightarrow> error + parsed_row list" where
  "parse_txt content =
     (case decode_text content of
        Inl e \<Rightarrow> Inl e
      | Inr text \<Rightarrow>
          Inr (map (\<lambda>(n, line). \<lparr>pr_row_number = n, pr_question = Some (CText (strip line)),
                                 pr_sheet = None, pr_grade = None\<rparr>)
                (enumerate_from 1 (splitlines text))))"

definition csv_dialect :: "import_ops \<Rightarrow> import_rules \<Rightarrow> pystr \<Rightarrow> dialect" where
  "csv_dialect ops rules text =
     (case io_sniff ops (take 2048 text) (ir_csv_delimiters rules) of Some dl \<Rightarrow> dl | None \<Rightarrow> excel_dialect)"

definition is_header :: "pystr list \<Rightarrow> cell_value option \<Rightarrow> bool" where
  "is_header headers value = (case value of Some (CText s) \<Rightarrow> casefold (strip s) \<in> set headers | _ \<Rightarrow> False)"

definition optional_column_index :: "cell_value option list \<Rightarrow> pystr list \<Rightarrow> nat option" where
  "optional_column_index header headers =
     map_option fst (first (filter (\<lambda>(i, value). is_header headers value) (enumerate 0 header)))"

definition question_column_index :: "import_rules \<Rightarrow> cell_value option list \<Rightarrow> error + nat" where
  "question_column_index rules header =
     (case optional_column_index header (ir_question_headers rules) of
        Some i \<Rightarrow> Inr i
      | None \<Rightarrow> raise_invalid [issue (u ''CSV header must contain one of: ''
          @ join (u '', '') (ir_question_headers_for_message rules) @ u ''.'')])"

definition csv_column_indexes :: "import_rules \<Rightarrow> cell_value option list \<Rightarrow> error + column_indexes" where
  "csv_column_indexes rules header =
     (case question_column_index rules header of
        Inl e \<Rightarrow> Inl e
      | Inr i \<Rightarrow> Inr \<lparr>ci_question = i, ci_sheet = optional_column_index header (ir_sheet_headers rules),
                     ci_grade = optional_column_index header (ir_grade_headers rules)\<rparr>)"

definition excel_column_indexes :: "import_rules \<Rightarrow> cell_value option list list \<Rightarrow> error + (column_indexes \<times> nat)" where
  "excel_column_indexes rules rows =
     (let header = hd rows in
      if \<exists>value \<in> set header. is_header (ir_question_headers rules) value
      then (case csv_column_indexes rules header of Inl e \<Rightarrow> Inl e | Inr ci \<Rightarrow> Inr (ci, 1))
      else Inr (\<lparr>ci_question = 0, ci_sheet = None, ci_grade = None\<rparr>, 0))"

definition cell :: "cell_value option list \<Rightarrow> nat option \<Rightarrow> cell_value option \<Rightarrow> cell_value option" where
  "cell row index missing_value =
     (case index of None \<Rightarrow> missing_value | Some i \<Rightarrow> if length row \<le> i then missing_value else row ! i)"

definition read_row :: "column_indexes \<Rightarrow> cell_value option \<Rightarrow> int \<times> cell_value option list \<Rightarrow> parsed_row" where
  "read_row ci missing_question nr =
     \<lparr>pr_row_number = fst nr, pr_question = cell (snd nr) (Some (ci_question ci)) missing_question,
      pr_sheet = cell (snd nr) (ci_sheet ci) None, pr_grade = cell (snd nr) (ci_grade ci) None\<rparr>"

definition no_questions :: "error + 'a" where
  "no_questions = raise_invalid [issue (u ''Import file must contain at least one question.'')]"

text \<open>\<open>csv.Error\<close> of the reader is not caught.\<close>

definition parse_csv :: "import_ops \<Rightarrow> import_rules \<Rightarrow> nat list \<Rightarrow> error + parsed_row list" where
  "parse_csv ops rules content =
     (case decode_text content of
        Inl e \<Rightarrow> Inl e
      | Inr text \<Rightarrow>
          (case csv_read (csv_dialect ops rules text) text of
             None \<Rightarrow> Inl CsvError
           | Some [] \<Rightarrow> no_questions
           | Some (header # rows) \<Rightarrow>
               (case csv_column_indexes rules (map (\<lambda>s. Some (CText s)) header) of
                  Inl e \<Rightarrow> Inl e
                | Inr ci \<Rightarrow>
                    Inr (map (\<lambda>(n, row). read_row ci (Some (CText [])) (n, map (\<lambda>s. Some (CText s)) row))
                          (enumerate_from 2 rows)))))"

text \<open>
  The reader converts every exception that it lists of openpyxl to one error; \<open>io_load_workbook\<close> is \<open>None\<close> for them
  all.
\<close>

definition read_rows :: "import_ops \<Rightarrow> nat list \<Rightarrow> error + cell_value option list list" where
  "read_rows ops content =
     (case io_load_workbook ops content of
        Some rows \<Rightarrow> Inr rows
      | None \<Rightarrow> raise_invalid [issue (u ''Excel file could not be read.'')])"

definition parse_excel :: "import_ops \<Rightarrow> import_rules \<Rightarrow> nat list \<Rightarrow> error + parsed_row list" where
  "parse_excel ops rules content =
     (case read_rows ops content of
        Inl e \<Rightarrow> Inl e
      | Inr rows \<Rightarrow>
          if rows = [] then no_questions
          else (case excel_column_indexes rules rows of
             Inl e \<Rightarrow> Inl e
           | Inr (ci, start) \<Rightarrow>
               Inr (map (read_row ci None) (enumerate_from (int start + 1) (drop start rows)))))"

definition supported_extensions :: "import_rules \<Rightarrow> pystr list" where
  "supported_extensions rules = ir_supported_text_extensions rules @ ir_supported_excel_extensions rules"

definition parse_rows :: "import_ops \<Rightarrow> import_rules \<Rightarrow> import_file \<Rightarrow> pystr \<Rightarrow> error + parsed_row list" where
  "parse_rows ops rules file extension =
     (if extension = u ''.txt'' then parse_txt (if_content file)
      else if extension = u ''.csv'' then parse_csv ops rules (if_content file)
      else parse_excel ops rules (if_content file))"

definition preview :: "import_ops \<Rightarrow> import_rules \<Rightarrow> import_file \<Rightarrow> error + import_preview_row list" where
  "preview ops rules file =
     (let extension = lower (path_suffix (if_filename file)) in
      if extension \<in> set (ir_unsupported_legacy_excel_extensions rules)
      then raise_invalid [issue (u ''Unsupported import file extension: '' @ extension @ u ''.'')]
      else if extension \<notin> set (supported_extensions rules)
      then raise_invalid [issue (u ''Unsupported import file extension. Supported extensions: ''
             @ join (u '', '') (ir_supported_extensions_for_message rules) @ u ''.'')]
      else (case parse_rows ops rules file extension of
         Inl e \<Rightarrow> Inl e
       | Inr [] \<Rightarrow> no_questions
       | Inr rows \<Rightarrow> Inr (map (preview_row rules) rows)))"

definition preview_issue_message :: "import_rules \<Rightarrow> issue_code \<Rightarrow> int \<Rightarrow> error + pystr" where
  "preview_issue_message rules code row_number =
     (let row = u ''Row '' @ str_of_int row_number in
      case code of
        QUESTION_NOT_TEXT \<Rightarrow> Inr (row @ u '' question must be text.'')
      | QUESTION_BLANK \<Rightarrow> Inr (row @ u '' question must not be blank.'')
      | QUESTION_TOO_LONG \<Rightarrow> Inr (row @ u '' question must be at most ''
          @ str_of_int (int (ir_question_max_length rules)) @ u '' characters.'')
      | SHEET_NOT_TEXT \<Rightarrow> Inr (row @ u '' sheet must be text.'')
      | GRADE_NOT_TEXT \<Rightarrow> Inr (row @ u '' grade must be text.'')
      | GRADE_INVALID \<Rightarrow> Inr (row @ u '' grade must be one of: '' @ join (u '', '') (map grade_value grades_all) @ u ''.'')
      | _ \<Rightarrow> Inl KeyError)"

definition parse :: "import_ops \<Rightarrow> import_rules \<Rightarrow> import_file \<Rightarrow> error + queue_params list" where
  "parse ops rules file =
     (case preview ops rules file of
        Inl e \<Rightarrow> Inl e
      | Inr rows \<Rightarrow>
          (case all_or_error (concat (map (\<lambda>r. map (\<lambda>i.
                  case preview_issue_message rules (pv_code i) (vr_row_number r) of
                    Inl e \<Rightarrow> Inl e
                  | Inr m \<Rightarrow> Inr \<lparr>ii_message = m, ii_row_number = Some (vr_row_number r)\<rparr>)
                (filter (\<lambda>i. pv_severity i = SEVERITY_ERROR) (vr_issues r))) rows)) of
             Inl e \<Rightarrow> Inl e
           | Inr issues \<Rightarrow>
               if issues \<noteq> [] then raise_invalid issues else Inr (List.map_filter vr_params rows)))"

section \<open>The preview\<close>

text \<open>One row of the loop of \<open>with_duplicate_warnings\<close>, with the first rows seen so far.\<close>

definition duplicate_key :: "import_preview_row \<Rightarrow> (pystr option \<times> pystr) option" where
  "duplicate_key r = map_option (\<lambda>p. (qp_sheet p, fingerprint_value (qp_question p))) (vr_params r)"

fun duplicate_warnings ::
  "(pystr option \<times> pystr) set \<Rightarrow> (pystr option \<times> pystr, int) dict \<Rightarrow> import_preview_row list \<Rightarrow> import_preview_row list" where
  "duplicate_warnings queued seen [] = []"
| "duplicate_warnings queued seen (row # rows) =
     (case duplicate_key row of
        None \<Rightarrow> row # duplicate_warnings queued seen rows
      | Some key \<Rightarrow>
          (let (row1, seen1) =
                 (case dict_get key seen of
                    None \<Rightarrow> (row, dict_set key (vr_row_number row) seen)
                  | Some n \<Rightarrow> (with_issue \<lparr>pv_code = DUPLICATE_IN_FILE, pv_severity = SEVERITY_WARNING,
                                         pv_related_row_numbers = [n]\<rparr> row, seen));
               row2 =
                 (if key \<in> queued
                  then with_issue \<lparr>pv_code = DUPLICATE_IN_QUEUE, pv_severity = SEVERITY_WARNING,
                                   pv_related_row_numbers = []\<rparr> row1
                  else row1)
           in row2 # duplicate_warnings queued seen1 rows))"

definition with_duplicate_warnings :: "queued_question list \<Rightarrow> import_preview_row list \<Rightarrow> import_preview_row list" where
  "with_duplicate_warnings queued rows =
     duplicate_warnings ((\<lambda>q. (qq_sheet q, fingerprint_value (qq_question q))) ` set queued) [] rows"

text \<open>The rows by number, the last one of a number winning.\<close>

definition rows_by_number :: "import_preview_row list \<Rightarrow> (int, import_preview_row) dict" where
  "rows_by_number rows = foldl (\<lambda>acc r. dict_set (vr_row_number r) r acc) [] rows"

definition row_issues :: "import_preview_row list \<Rightarrow> int \<Rightarrow> import_issue list" where
  "row_issues rows n =
     (let text = u ''Selected import row '' @ str_of_int n in
      case dict_get n (rows_by_number rows) of
        None \<Rightarrow> [\<lparr>ii_message = text @ u '' does not exist.'', ii_row_number = Some n\<rparr>]
      | Some r \<Rightarrow>
          if \<not> can_import r then [\<lparr>ii_message = text @ u '' is invalid.'', ii_row_number = Some n\<rparr>] else [])"

definition selected_questions :: "import_preview_row list \<Rightarrow> int list \<Rightarrow> error + queue_params list" where
  "selected_questions rows row_numbers =
     (let issues =
        (if row_numbers = [] then [issue (u ''Select at least one valid import row.'')] else [])
        @ (if card (set row_numbers) \<noteq> length row_numbers
           then [issue (u ''Selected import row numbers must be unique.'')] else [])
        @ concat (map (row_issues rows) (fromkeys row_numbers))
      in if issues \<noteq> [] then Inl (QuestionQueueImportInvalidError issues)
         else Inr (List.map_filter vr_params (filter (\<lambda>r. vr_row_number r \<in> set row_numbers) rows)))"

definition parse_selected :: "import_ops \<Rightarrow> import_rules \<Rightarrow> import_file \<Rightarrow> int list \<Rightarrow> error + queue_params list" where
  "parse_selected ops rules file selected_row_numbers =
     (case preview ops rules file of Inl e \<Rightarrow> Inl e | Inr rows \<Rightarrow> selected_questions rows selected_row_numbers)"

definition preview_queued_questions_import :: "import_preview_row list \<Rightarrow> import_preview_row list dbm" where
  "preview_queued_questions_import rows =
     bind list_queued_questions (\<lambda>queued. ret (with_duplicate_warnings queued rows))"

end
