(* ===== verification/Import_Properties.thy ===== *)
theory Import_Properties
  imports Matrix_Import
begin

text \<open>
  The import of questions does what it shows: the preview of any file is sound, the duplicate
  warnings are exact, the selected rows are the ones that are queued, and text and CSV files come
  through unchanged.  One theorem per claim, each with a witness.
\<close>

section \<open>Normalised text\<close>

lemma replace_char: "replace [c] r s = concat (map (\<lambda>x. if x = c then r else [x]) s)"
proof (induction s)
  case (Cons x s)
  then show ?case by (subst replace.simps) auto
qed (simp add: replace.simps)

lemma replace_absent: "c \<notin> set s \<Longrightarrow> replace (c # cs) r s = s"
proof (induction s)
  case (Cons x s)
  then show ?case by (subst replace.simps) simp
qed (simp add: replace.simps)

lemma normalized_no_breaks: "10 \<notin> set (normalize_question_text s)" "13 \<notin> set (normalize_question_text s)"
  by (auto simp: normalize_question_text_def replace_char)

lemma normalize_plain: "10 \<notin> set s \<Longrightarrow> 13 \<notin> set s \<Longrightarrow> normalize_question_text s = s"
  by (simp add: normalize_question_text_def replace_absent)

lemma stripped_no_breaks:
  "10 \<notin> set (strip (normalize_question_text s))" "13 \<notin> set (strip (normalize_question_text s))"
  using normalized_no_breaks[of s] set_strip_by by (auto simp: strip_def)

lemma grade_read_back: "from_value grades_all grade_value s = Some g \<Longrightarrow> grade_value g = s"
  by (auto simp: from_value_def find_Some_iff)

lemma grade_known: "s \<in> set (map grade_value grades_all) \<Longrightarrow> from_value grades_all grade_value s \<noteq> None"
  by (auto simp: from_value_def find_None_iff)

section \<open>The preview\<close>

lemma enumerate_numbers: "map fst (enumerate_from n xs) = map (\<lambda>i. n + int i) [0..<length xs]"
proof (induction xs arbitrary: n)
  case (Cons x xs)
  have "[0..<Suc (length xs)] = 0 # map Suc [0..<length xs]" by (simp add: map_Suc_upt upt_conv_Cons del: upt_Suc)
  then show ?case using Cons[of "n + 1"] by (simp del: upt_Suc)
qed simp

definition numbered :: "int list \<Rightarrow> bool" where
  "numbered ns \<longleftrightarrow> (\<exists>n. ns = map (\<lambda>i. n + int i) [0..<length ns])"

lemma numbered_distinct: "numbered ns \<Longrightarrow> distinct ns"
proof -
  assume "numbered ns"
  then obtain n where n: "ns = map (\<lambda>i. n + int i) [0..<length ns]" unfolding numbered_def by blast
  have "distinct (map (\<lambda>i. n + int i) [0..<length ns])" by (simp add: distinct_map inj_on_def)
  then show ?thesis using n by simp
qed

lemma numbered_enumerate:
  assumes "\<And>x. f (g x) = fst x"
  shows "numbered (map f (map g (enumerate_from n xs)))"
proof -
  have "map f (map g (enumerate_from n xs)) = map fst (enumerate_from n xs)" using assms by simp
  then show ?thesis by (auto simp: numbered_def enumerate_numbers)
qed

lemma parse_rows_numbered:
  assumes "parse_rows ops rules file ext = Inr rows"
  shows "numbered (map pr_row_number rows)"
proof -
  have from_txt: "numbered (map pr_row_number rows)" if p: "parse_txt c = Inr rows" for c
  proof -
    obtain s where "rows = map (\<lambda>(n, line). \<lparr>pr_row_number = n, pr_question = Some (CText (strip line)),
        pr_sheet = None, pr_grade = None\<rparr>) (enumerate_from 1 (splitlines s))"
      using p by (cases "decode_text c") (auto simp: parse_txt_def)
    then show ?thesis by (simp only:) (rule numbered_enumerate, simp split: prod.split)
  qed
  have csv: "numbered (map pr_row_number rows)" if p: "parse_csv ops rules c = Inr rows" for c
  proof -
    obtain ci xs where "rows = map (\<lambda>(n, row). read_row ci (Some (CText [])) (n, map (\<lambda>s. Some (CText s)) row))
        (enumerate_from 2 xs)"
      using p by (auto simp: parse_csv_def no_questions_def raise_invalid_def split: sum.splits option.splits list.splits)
    then show ?thesis by (simp only:) (rule numbered_enumerate, simp add: read_row_def split: prod.split)
  qed
  have excel: "numbered (map pr_row_number rows)" if p: "parse_excel ops rules c = Inr rows" for c
  proof -
    obtain ci n xs where "rows = map (read_row ci None) (enumerate_from n xs)"
      using p by (auto simp: parse_excel_def no_questions_def raise_invalid_def split: sum.splits if_splits prod.splits)
    then show ?thesis by (simp only:) (rule numbered_enumerate, simp add: read_row_def)
  qed
  show ?thesis using assms from_txt csv excel unfolding parse_rows_def by (simp split: if_splits)
qed

lemma preview_success:
  assumes "preview ops rules file = Inr rows"
  obtains prs where "parse_rows ops rules file (lower (path_suffix (if_filename file))) = Inr prs"
    "rows = map (preview_row rules) prs" "rows \<noteq> []"
  using assms unfolding preview_def Let_def
  by (auto simp: raise_invalid_def no_questions_def split: if_splits sum.splits list.splits)

lemma shown_text:
  "normalize_optional_text (map_option cell_text c) = (if display_value c True = [] then None else Some (display_value c True))"
  by (simp add: normalize_optional_text_def display_value_def Let_def split: option.split)

lemma shown_grade:
  assumes "grade_issues c = []"
  shows "map_option grade_value (normalize_optional_grade (map_option cell_text c)) =
    (if display_value c True = [] then None else Some (display_value c True))"
proof (cases "display_value c True = []")
  case True
  then show ?thesis using shown_text[of c] by (simp add: normalize_optional_grade_def)
next
  case False
  then obtain x where x: "c = Some x" by (auto simp: display_value_def split: option.splits)
  with assms obtain s where s: "c = Some (CText s)" by (cases x) (auto simp: grade_issues_def)
  have norm: "normalize_optional_text (Some s) = Some (display_value c True)" using shown_text[of c] s False by simp
  then have "display_value c True \<in> set (map grade_value grades_all)"
    using assms s by (auto simp: grade_issues_def split: if_splits)
  then obtain g where "from_value grades_all grade_value (display_value c True) = Some g"
    using grade_known by blast
  then show ?thesis using grade_read_back[of _ g] False norm s by (simp add: normalize_optional_grade_def)
qed

lemma preview_row_importable:
  assumes "vr_params (preview_row rules row) = Some q"
  shows "vr_issues (preview_row rules row) = []" "qp_question q = vr_question (preview_row rules row)"
    "qp_question q \<noteq> []" "length (qp_question q) \<le> ir_question_max_length rules"
    "strip (qp_question q) = qp_question q" "10 \<notin> set (qp_question q)" "13 \<notin> set (qp_question q)"
    "qp_sheet q = (if vr_sheet (preview_row rules row) = [] then None else Some (vr_sheet (preview_row rules row)))"
    "map_option grade_value (qp_grade q) =
       (if vr_grade (preview_row rules row) = [] then None else Some (vr_grade (preview_row rules row)))"
proof -
  have none: "question_issues rules (pr_question row) = []" "grade_issues (pr_grade row) = []"
    and q: "q = \<lparr>qp_question = strip (normalize_question_text (case map_option cell_text (pr_question row) of Some s \<Rightarrow> s | None \<Rightarrow> [])),
      qp_sheet = normalize_optional_text (map_option cell_text (pr_sheet row)),
      qp_grade = normalize_optional_grade (map_option cell_text (pr_grade row))\<rparr>"
    using assms by (auto simp: preview_row_def Let_def split: if_splits)
  obtain s where s: "pr_question row = Some (CText s)" "strip (normalize_question_text s) \<noteq> []"
      "length (strip (normalize_question_text s)) \<le> ir_question_max_length rules"
    using none(1) by (auto simp: question_issues_def Let_def split: option.splits cell_value.splits if_splits)
  show "vr_issues (preview_row rules row) = []"
    using assms by (auto simp: preview_row_def Let_def split: if_splits)
  show "qp_question q = vr_question (preview_row rules row)"
    using q s(1) by (simp add: preview_row_def Let_def display_value_def)
  show "qp_question q \<noteq> []" "length (qp_question q) \<le> ir_question_max_length rules"
    "strip (qp_question q) = qp_question q" "10 \<notin> set (qp_question q)" "13 \<notin> set (qp_question q)"
    using q s stripped_no_breaks[of s] by (simp_all add: strip_idem)
  show "qp_sheet q = (if vr_sheet (preview_row rules row) = [] then None else Some (vr_sheet (preview_row rules row)))"
    using q shown_text[of "pr_sheet row"] by (simp add: preview_row_def Let_def)
  show "map_option grade_value (qp_grade q) =
       (if vr_grade (preview_row rules row) = [] then None else Some (vr_grade (preview_row rules row)))"
    using q shown_grade[OF none(2)] by (simp add: preview_row_def Let_def)
qed

lemma preview_row_refused:
  "vr_params (preview_row rules row) = None \<Longrightarrow> vr_issues (preview_row rules row) \<noteq> []"
  by (simp add: preview_row_def Let_def split: if_splits)

text \<open>C15: whatever file is uploaded, a preview numbers its rows consecutively, and each row either
  can be imported, has no issue, and imports exactly the question, the sheet and the grade that the
  preview shows, the question being a single stripped line that is not blank and not too long; or
  it cannot be imported and says why.\<close>

theorem preview_sound:
  assumes "preview ops rules file = Inr rows"
  shows "rows \<noteq> [] \<and> numbered (map vr_row_number rows)
    \<and> (\<forall>r \<in> set rows. case vr_params r of
        None \<Rightarrow> vr_issues r \<noteq> []
      | Some q \<Rightarrow> vr_issues r = [] \<and> qp_question q = vr_question r \<and> qp_question q \<noteq> []
          \<and> length (qp_question q) \<le> ir_question_max_length rules
          \<and> strip (qp_question q) = qp_question q \<and> 10 \<notin> set (qp_question q) \<and> 13 \<notin> set (qp_question q)
          \<and> qp_sheet q = (if vr_sheet r = [] then None else Some (vr_sheet r))
          \<and> map_option grade_value (qp_grade q) = (if vr_grade r = [] then None else Some (vr_grade r)))"
proof -
  obtain prs where prs: "parse_rows ops rules file (lower (path_suffix (if_filename file))) = Inr prs"
      "rows = map (preview_row rules) prs" "rows \<noteq> []"
    using preview_success[OF assms] .
  have "map vr_row_number rows = map pr_row_number prs" by (simp add: prs(2) preview_row_def Let_def)
  then have "numbered (map vr_row_number rows)" using parse_rows_numbered[OF prs(1)] by simp
  moreover have "case vr_params r of
        None \<Rightarrow> vr_issues r \<noteq> []
      | Some q \<Rightarrow> vr_issues r = [] \<and> qp_question q = vr_question r \<and> qp_question q \<noteq> []
          \<and> length (qp_question q) \<le> ir_question_max_length rules
          \<and> strip (qp_question q) = qp_question q \<and> 10 \<notin> set (qp_question q) \<and> 13 \<notin> set (qp_question q)
          \<and> qp_sheet q = (if vr_sheet r = [] then None else Some (vr_sheet r))
          \<and> map_option grade_value (qp_grade q) = (if vr_grade r = [] then None else Some (vr_grade r))"
    if r: "r \<in> set rows" for r
  proof -
    obtain pr where pr: "r = preview_row rules pr" using r prs(2) by auto
    show ?thesis
      using preview_row_refused[of rules pr] preview_row_importable[of rules pr] unfolding pr
      by (simp split: option.split)
  qed
  ultimately show ?thesis using prs(3) by blast
qed

section \<open>Text files\<close>

definition queued_text :: "pystr \<Rightarrow> queue_params" where
  "queued_text q = \<lparr>qp_question = q, qp_sheet = None, qp_grade = None\<rparr>"

text \<open>A question that fits on one line of a text file as it is.\<close>

definition plain_question :: "import_rules \<Rightarrow> pystr \<Rightarrow> bool" where
  "plain_question rules q \<longleftrightarrow> q \<noteq> [] \<and> strip q = q \<and> length q \<le> ir_question_max_length rules
     \<and> (\<forall>c \<in> set q. is_scalar c \<and> \<not> is_line_break c)"

lemma set_join: "set (join sep ws) \<subseteq> set sep \<union> \<Union> (set ` set ws)"
  by (induction sep ws rule: join.induct) auto

lemma plain_preview_row:
  assumes "plain_question rules q"
  shows "preview_row rules \<lparr>pr_row_number = n, pr_question = Some (CText q), pr_sheet = None, pr_grade = None\<rparr> =
    \<lparr>vr_row_number = n, vr_question = q, vr_sheet = [], vr_grade = [], vr_params = Some (queued_text q), vr_issues = []\<rparr>"
proof -
  have q: "q \<noteq> []" "strip q = q" "length q \<le> ir_question_max_length rules"
    and plain: "\<forall>c \<in> set q. \<not> is_line_break c"
    using assms unfolding plain_question_def by blast+
  have breaks: "10 \<notin> set q" "13 \<notin> set q" using plain by (auto dest!: bspec simp: is_line_break_def)
  have norm: "strip (normalize_question_text q) = q" using q(2) normalize_plain[OF breaks] by simp
  have "question_issues rules (Some (CText q)) = []" using q norm by (simp add: question_issues_def Let_def)
  moreover have "display_value (Some (CText q)) True = q" using norm by (simp add: display_value_def)
  ultimately show ?thesis
    using norm by (simp add: preview_row_def Let_def sheet_issues_def grade_issues_def display_value_def
      normalize_optional_text_def normalize_optional_grade_def queued_text_def)
qed

lemma enumerate_from_member: "x \<in> set (enumerate_from n xs) \<Longrightarrow> snd x \<in> set xs"
  by (induction xs arbitrary: n) auto

lemma txt_file_preview:
  assumes qs: "qs \<noteq> []" "\<forall>q \<in> set qs. plain_question import_constants q"
    and name: "lower (path_suffix (if_filename file)) = u ''.txt''"
    and content: "if_content file = bom @ utf8_encode (join [10] qs)"
    and bom: "bom = [239, 187, 191] \<or> (bom = [] \<and> hd (hd qs) \<noteq> 65279)"
  shows "preview ops import_constants file =
    Inr (map (\<lambda>(n, q). \<lparr>vr_row_number = n, vr_question = q, vr_sheet = [], vr_grade = [],
      vr_params = Some (queued_text q), vr_issues = []\<rparr>) (enumerate_from 1 qs))"
proof -
  let ?t = "join [10] qs"
  have scalar: "\<forall>c \<in> set ?t. is_scalar c"
    using set_join[of "[10]" qs] qs(2) by (fastforce simp: plain_question_def is_scalar_def)
  have "hd ?t = hd (hd qs)" using qs by (cases qs rule: remdups_adj.cases) (auto simp: plain_question_def)
  then have dec: "decode_utf8_sig (if_content file) = Some ?t"
    using decode_encoded[OF scalar] bom content by auto
  have "splitlines ?t = qs"
    using qs by (intro splitlines_join) (auto simp: plain_question_def)
  moreover have "strip (snd x) = snd x" if "x \<in> set (enumerate_from 1 qs)" for x
    using enumerate_from_member[OF that] qs(2) by (auto simp: plain_question_def)
  ultimately have parsed: "parse_txt (if_content file) =
      Inr (map (\<lambda>(n, q). \<lparr>pr_row_number = n, pr_question = Some (CText q), pr_sheet = None, pr_grade = None\<rparr>) (enumerate_from 1 qs))"
    using dec by (simp add: parse_txt_def decode_text_def split_def)
  have each: "map (preview_row import_constants) (map (\<lambda>(n, q). \<lparr>pr_row_number = n, pr_question = Some (CText q),
      pr_sheet = None, pr_grade = None\<rparr>) (enumerate_from n qs)) =
    map (\<lambda>(n, q). \<lparr>vr_row_number = n, vr_question = q, vr_sheet = [], vr_grade = [],
      vr_params = Some (queued_text q), vr_issues = []\<rparr>) (enumerate_from n qs)" for n
    using qs(2) by (induction qs arbitrary: n) (simp_all add: plain_preview_row)
  have ext: "u ''.txt'' \<notin> set (ir_unsupported_legacy_excel_extensions import_constants)"
    "u ''.txt'' \<in> set (supported_extensions import_constants)"
    by (simp_all add: import_constants_def supported_extensions_def u_def)
  obtain x xs where "qs = x # xs" using qs(1) by (cases qs) auto
  then show ?thesis
    using parsed each[of 1] ext name by (simp add: preview_def parse_rows_def)
qed

lemma parse_clean:
  assumes "preview ops rules file = Inr rows" "\<forall>r \<in> set rows. vr_issues r = []"
  shows "parse ops rules file = Inr (List.map_filter vr_params rows)"
proof -
  have "concat (map (\<lambda>r. map (f r) (filter P (vr_issues r))) rows) = []"
    for f :: "import_preview_row \<Rightarrow> import_preview_issue \<Rightarrow> error + import_issue" and P
    using assms(2) by simp
  note none = this[of "\<lambda>r i. case preview_issue_message rules (pv_code i) (vr_row_number r) of
      Inl e \<Rightarrow> Inl e | Inr m \<Rightarrow> Inr \<lparr>ii_message = m, ii_row_number = Some (vr_row_number r)\<rparr>"
    "\<lambda>i. pv_severity i = SEVERITY_ERROR"]
  show ?thesis unfolding parse_def assms(1) sum.case none by simp
qed

text \<open>C33: a text file of questions, one per line, encoded as UTF-8 with or without a byte order
  mark, imports exactly those questions in their order.\<close>

theorem txt_import_roundtrip:
  assumes "qs \<noteq> []" "\<forall>q \<in> set qs. plain_question import_constants q"
    and "lower (path_suffix (if_filename file)) = u ''.txt''"
    and "if_content file = bom @ utf8_encode (join [10] qs)"
    and "bom = [239, 187, 191] \<or> (bom = [] \<and> hd (hd qs) \<noteq> 65279)"
  shows "parse ops import_constants file = Inr (map queued_text qs)"
proof -
  let ?rows = "map (\<lambda>(n, q). \<lparr>vr_row_number = n, vr_question = q, vr_sheet = [], vr_grade = [],
      vr_params = Some (queued_text q), vr_issues = []\<rparr>) (enumerate_from 1 qs)"
  have "parse ops import_constants file = Inr (List.map_filter vr_params ?rows)"
    using txt_file_preview[OF assms, of ops] by (intro parse_clean) auto
  moreover have "List.map_filter vr_params (map (\<lambda>(n, q). \<lparr>vr_row_number = n, vr_question = q, vr_sheet = [], vr_grade = [],
      vr_params = Some (queued_text q), vr_issues = []\<rparr>) (enumerate_from n qs)) = map queued_text qs" for n
    by (induction qs arbitrary: n) (simp_all add: List.map_filter_simps)
  ultimately show ?thesis by simp
qed

definition sample_import_file :: import_file where
  "sample_import_file = \<lparr>if_filename = u ''q.txt'', if_content = utf8_encode (join [10] [u ''What?'', [1095, 1090, 1086, 63]])\<rparr>"

definition sample_import_ops :: import_ops where
  "sample_import_ops = \<lparr>io_sniff = \<lambda>_ _. None, io_load_workbook = \<lambda>_. None\<rparr>"

lemma sample_plain: "\<forall>q \<in> set [u ''What?'', [1095, 1090, 1086, 63]]. plain_question import_constants q"
  by (simp add: plain_question_def u_def strip_def strip_by_def is_space_def import_constants_def
    is_scalar_def is_line_break_def)

lemma sample_extension: "lower (path_suffix (if_filename sample_import_file)) = u ''.txt''"
  by (simp add: sample_import_file_def u_def path_suffix_def path_name_def lower_def lower_char_def Let_def)

lemma sample_preview:
  "preview sample_import_ops import_constants sample_import_file =
    Inr (map (\<lambda>(n, q). \<lparr>vr_row_number = n, vr_question = q, vr_sheet = [], vr_grade = [],
      vr_params = Some (queued_text q), vr_issues = []\<rparr>) (enumerate_from 1 [u ''What?'', [1095, 1090, 1086, 63]]))"
  by (rule txt_file_preview[where bom = "[]", OF _ sample_plain sample_extension])
     (simp_all add: sample_import_file_def u_def)

theorem txt_import_roundtrip_witness:
  "parse sample_import_ops import_constants sample_import_file = Inr [queued_text (u ''What?''), queued_text [1095, 1090, 1086, 63]]"
  using txt_import_roundtrip[where bom = "[]", OF _ sample_plain sample_extension, of sample_import_ops]
  by (simp add: sample_import_file_def u_def)

theorem preview_sound_witness:
  "\<exists>rows. preview sample_import_ops import_constants sample_import_file = Inr rows \<and> numbered (map vr_row_number rows)"
  using preview_sound[OF sample_preview] sample_preview by blast

section \<open>Duplicate warnings\<close>

text \<open>What a row should be told: the number of the first importable row above it with the same sheet
  and text, and whether the queue holds them already.\<close>

definition first_row :: "import_preview_row list \<Rightarrow> pystr option \<times> pystr \<Rightarrow> int option" where
  "first_row before key = map_option vr_row_number (first (filter (\<lambda>r. duplicate_key r = Some key) before))"

definition expected_warnings ::
  "(pystr option \<times> pystr) set \<Rightarrow> import_preview_row list \<Rightarrow> import_preview_row \<Rightarrow> import_preview_issue list" where
  "expected_warnings queued before row =
     (case duplicate_key row of
        None \<Rightarrow> []
      | Some key \<Rightarrow>
          (case first_row before key of
             None \<Rightarrow> []
           | Some n \<Rightarrow> [\<lparr>pv_code = DUPLICATE_IN_FILE, pv_severity = SEVERITY_WARNING, pv_related_row_numbers = [n]\<rparr>])
          @ (if key \<in> queued
             then [\<lparr>pv_code = DUPLICATE_IN_QUEUE, pv_severity = SEVERITY_WARNING, pv_related_row_numbers = []\<rparr>]
             else []))"

definition annotated ::
  "(pystr option \<times> pystr) set \<Rightarrow> import_preview_row list \<Rightarrow> import_preview_row \<Rightarrow> import_preview_row" where
  "annotated queued before row = row\<lparr>vr_issues := vr_issues row @ expected_warnings queued before row\<rparr>"

lemma first_row_snoc:
  "first_row (before @ [row]) key =
    (case first_row before key of
       Some n \<Rightarrow> Some n
     | None \<Rightarrow> if duplicate_key row = Some key then Some (vr_row_number row) else None)"
  by (cases "filter (\<lambda>r. duplicate_key r = Some key) before") (auto simp: first_row_def)

lemma duplicate_warnings_step:
  assumes "\<And>key. dict_get key seen = first_row before key"
  obtains seen' where "\<And>key. dict_get key seen' = first_row (before @ [row]) key"
    "duplicate_warnings queued seen (row # rows) = annotated queued before row # duplicate_warnings queued seen' rows"
proof (cases "duplicate_key row")
  case None
  then show ?thesis
    using assms by (intro that[of seen]) (simp_all add: first_row_snoc annotated_def expected_warnings_def split: option.split)
next
  case (Some key)
  show ?thesis
  proof (cases "first_row before key")
    case None
    then show ?thesis
      using assms Some by (intro that[of "dict_set key (vr_row_number row) seen"])
        (auto simp: first_row_snoc annotated_def expected_warnings_def with_issue_def split: option.split)
  next
    case (Some n)
    then show ?thesis
      using assms \<open>duplicate_key row = Some key\<close> by (intro that[of seen])
        (auto simp: first_row_snoc annotated_def expected_warnings_def with_issue_def split: option.split)
  qed
qed

lemma duplicate_warnings_exact:
  assumes "\<And>key. dict_get key seen = first_row before key"
  shows "duplicate_warnings queued seen rows =
    map (\<lambda>i. annotated queued (before @ take i rows) (rows ! i)) [0..<length rows]"
  using assms
proof (induction rows arbitrary: seen before)
  case (Cons row rows)
  obtain seen' where seen': "\<And>key. dict_get key seen' = first_row (before @ [row]) key"
    and step: "duplicate_warnings queued seen (row # rows) = annotated queued before row # duplicate_warnings queued seen' rows"
    by (rule duplicate_warnings_step[OF Cons.prems, of row queued rows]) blast
  show ?case
    unfolding step using Cons.IH[OF seen'] by (simp add: map_upt_Suc del: upt_Suc)
qed simp

text \<open>C35: the duplicate warnings are exact: every row keeps the issues it had, and an importable row is
  warned, in this order, of the first importable row above it with the same sheet and the same
  text up to white space and case, naming its number, and of a queued question with that sheet and
  text; no other row is warned.\<close>

theorem duplicate_warnings_sound:
  "\<exists>queue. queue = (\<lambda>m. (qm_sheet m, fingerprint_value (qm_question m))) ` set (queued_questions d)
     \<and> preview_queued_questions_import rows d =
         (Inr (map (\<lambda>i. annotated queue (take i rows) (rows ! i)) [0..<length rows]), d)"
proof -
  have "(\<lambda>q. (qq_sheet q, fingerprint_value (qq_question q))) ` queued_to_domain ` set (queued_questions d) =
      (\<lambda>m. (qm_sheet m, fingerprint_value (qm_question m))) ` set (queued_questions d)"
    by (simp add: image_image queued_to_domain_def)
  then show ?thesis
    using duplicate_warnings_exact[of "[]" "[]" _ rows]
    by (simp add: preview_queued_questions_import_def list_queued_questions_def run_simps with_duplicate_warnings_def
      dict_get_def first_row_def image_image queued_to_domain_def)
qed

section \<open>The selected rows\<close>

lemma rows_by_number_get:
  "distinct (map vr_row_number rows) \<Longrightarrow> dict_get n (rows_by_number rows) = row_by vr_row_number n rows"
proof (induction rows rule: rev_induct)
  case (snoc r rows)
  have "rows_by_number (rows @ [r]) = dict_set (vr_row_number r) r (rows_by_number rows)"
    by (simp add: rows_by_number_def)
  moreover have "row_by vr_row_number n (rows @ [r]) =
      (case row_by vr_row_number n rows of Some x \<Rightarrow> Some x | None \<Rightarrow> if vr_row_number r = n then Some r else None)"
    by (induction rows) (auto simp: row_by_def)
  moreover have "row_by vr_row_number (vr_row_number r) rows = None" using snoc.prems by (auto simp: row_by_None_iff)
  ultimately show ?case using snoc by (auto split: option.split)
qed (simp add: rows_by_number_def row_by_def dict_get_def)

definition importable :: "import_preview_row list \<Rightarrow> int \<Rightarrow> bool" where
  "importable rows n \<longleftrightarrow> (\<exists>r \<in> set rows. vr_row_number r = n \<and> can_import r)"

lemma row_issues_importable:
  assumes "distinct (map vr_row_number rows)"
  shows "row_issues rows n = [] \<longleftrightarrow> importable rows n"
proof (cases "row_by vr_row_number n rows")
  case None
  then have "row_issues rows n \<noteq> []" using rows_by_number_get[OF assms, of n] by (simp add: row_issues_def Let_def)
  then show ?thesis using None by (auto simp: importable_def row_by_None_iff)
next
  case (Some r)
  then have "r \<in> set rows \<and> vr_row_number r = n" by (rule row_by_SomeD)
  moreover have "r' = r" if "r' \<in> set rows" "vr_row_number r' = n" for r'
    using row_by_Some_iff[OF assms, of n r'] that Some by simp
  ultimately show ?thesis
    using rows_by_number_get[OF assms, of n] Some by (auto simp: row_issues_def Let_def importable_def)
qed

lemma selected_one_each:
  assumes "distinct (map vr_row_number rows)" "distinct ns" "\<forall>n \<in> set ns. importable rows n"
  shows "length (List.map_filter vr_params (filter (\<lambda>r. vr_row_number r \<in> set ns) rows)) = length ns"
proof -
  let ?sel = "filter (\<lambda>r. vr_row_number r \<in> set ns) rows"
  have uniq: "inj_on vr_row_number (set rows)" "distinct rows" using assms(1) by (simp_all add: distinct_map)
  have all: "vr_params r \<noteq> None" if r: "r \<in> set ?sel" for r
  proof -
    obtain r' where "r' \<in> set rows" "vr_row_number r' = vr_row_number r" "can_import r'"
      using r assms(3) by (auto simp: importable_def)
    then show ?thesis using r uniq(1) by (auto simp: can_import_def inj_on_def)
  qed
  have "length (List.map_filter vr_params xs) = length xs" if "\<forall>r \<in> set xs. vr_params r \<noteq> None" for xs
    using that by (induction xs) (auto simp: List.map_filter_simps)
  then have "length (List.map_filter vr_params ?sel) = length ?sel" using all by blast
  also have "\<dots> = card (vr_row_number ` set ?sel)"
    using uniq by (simp add: distinct_card[symmetric] card_image inj_on_def)
  also have "vr_row_number ` set ?sel = set ns" using assms(3) by (force simp: importable_def)
  finally show ?thesis using assms(2) by (simp add: distinct_card)
qed

lemma selected_questions_cases:
  assumes "distinct (map vr_row_number rows)"
  shows "if ns \<noteq> [] \<and> distinct ns \<and> (\<forall>n \<in> set ns. importable rows n)
    then selected_questions rows ns = Inr (List.map_filter vr_params (filter (\<lambda>r. vr_row_number r \<in> set ns) rows))
    else \<exists>issues. issues \<noteq> [] \<and> selected_questions rows ns = Inl (QuestionQueueImportInvalidError issues)"
proof -
  have "concat (map (row_issues rows) (fromkeys ns)) = [] \<longleftrightarrow> (\<forall>n \<in> set ns. importable rows n)"
    using row_issues_importable[OF assms] by auto
  moreover have "card (set ns) \<noteq> length ns \<longleftrightarrow> \<not> distinct ns" using card_distinct distinct_card by blast
  ultimately show ?thesis by (auto simp: selected_questions_def Let_def)
qed

lemma import_run:
  assumes "distinct (map (env_new_id env) [0..<length qs])"
    and "env_new_id env ` {..<length qs} \<inter> qm_id ` set (queued_questions d) = {}"
  shows "\<exists>ms. import_queued_questions env qs by_user d =
      (Inr (map queued_to_domain ms), d\<lparr>queued_questions := queued_questions d @ ms\<rparr>)
    \<and> map (\<lambda>m. \<lparr>qp_question = qm_question m, qp_sheet = qm_sheet m, qp_grade = qm_grade m\<rparr>) ms = qs
    \<and> (\<forall>m \<in> set ms. qm_suggested_by_username m = by_user)"
proof -
  let ?f = "\<lambda>(n, p). queued_from_create_params env n (env_now env) by_user p"
  let ?ms = "map ?f (zip [0..<length qs] qs)"
  have ids: "map qm_id ?ms = map (env_new_id env) [0..<length qs]"
    by (rule nth_equalityI) (simp_all add: queued_from_create_params_def)
  have "qm_id ` set ?ms = env_new_id env ` {..<length qs}"
    using arg_cong[OF ids, of set] by (simp only: set_map set_upt atLeast0LessThan)
  then have ok: "distinct (map qm_id ?ms) \<and> qm_id ` set ?ms \<inter> qm_id ` set (queued_questions d) = {}"
    unfolding ids using assms by blast
  have "map (\<lambda>m. \<lparr>qp_question = qm_question m, qp_sheet = qm_sheet m, qp_grade = qm_grade m\<rparr>) ?ms = qs"
    by (rule nth_equalityI) (simp_all add: queued_from_create_params_def)
  moreover have "\<forall>m \<in> set ?ms. qm_suggested_by_username m = by_user"
    by (auto simp: queued_from_create_params_def)
  moreover have "import_queued_questions env qs by_user d =
      (Inr (map queued_to_domain ?ms), d\<lparr>queued_questions := queued_questions d @ ?ms\<rparr>)"
    using ok by (simp only: import_queued_questions_def create_queued_questions_def add_queued_def Let_def run_simps)
      (simp add: run_simps)
  ultimately show ?thesis by blast
qed

text \<open>C16: a selection of rows is accepted exactly when it is not empty, names no row twice and names only
  rows that the preview lets through; then exactly those rows are queued, one question each, in the
  order of the file, in the name of the caller and behind the questions that were queued before.
  Any other selection is refused with a list of issues.\<close>

theorem import_selected_exact:
  assumes rows: "preview ops rules file = Inr rows"
    and fresh: "distinct (map (env_new_id env) [0..<length ns])"
      "env_new_id env ` {..<length ns} \<inter> qm_id ` set (queued_questions d) = {}"
  shows "if ns \<noteq> [] \<and> distinct ns \<and> (\<forall>n \<in> set ns. importable rows n)
    then \<exists>qs ms. parse_selected ops rules file ns = Inr qs \<and> length qs = length ns
      \<and> qs = List.map_filter vr_params (filter (\<lambda>r. vr_row_number r \<in> set ns) rows)
      \<and> import_queued_questions env qs by_user d =
          (Inr (map queued_to_domain ms), d\<lparr>queued_questions := queued_questions d @ ms\<rparr>)
      \<and> map (\<lambda>m. \<lparr>qp_question = qm_question m, qp_sheet = qm_sheet m, qp_grade = qm_grade m\<rparr>) ms = qs
      \<and> (\<forall>m \<in> set ms. qm_suggested_by_username m = by_user)
    else \<exists>issues. issues \<noteq> [] \<and> parse_selected ops rules file ns = Inl (QuestionQueueImportInvalidError issues)"
proof -
  obtain prs where prs: "parse_rows ops rules file (lower (path_suffix (if_filename file))) = Inr prs"
      "rows = map (preview_row rules) prs" "rows \<noteq> []"
    using preview_success[OF rows] .
  have "map vr_row_number rows = map pr_row_number prs" by (simp add: prs(2) preview_row_def Let_def)
  then have d: "distinct (map vr_row_number rows)" using numbered_distinct[OF parse_rows_numbered[OF prs(1)]] by simp
  let ?qs = "List.map_filter vr_params (filter (\<lambda>r. vr_row_number r \<in> set ns) rows)"
  show ?thesis
  proof (cases "ns \<noteq> [] \<and> distinct ns \<and> (\<forall>n \<in> set ns. importable rows n)")
    case True
    have len: "length ?qs = length ns" using selected_one_each[OF d] True by blast
    have "parse_selected ops rules file ns = Inr ?qs"
      using selected_questions_cases[OF d, of ns] True rows by (simp add: parse_selected_def)
    then show ?thesis using True import_run[of env ?qs d by_user] fresh len by auto
  next
    case False
    then show ?thesis
      using selected_questions_cases[OF d, of ns] by (simp only: if_not_P if_False parse_selected_def rows sum.case)
  qed
qed

theorem import_selected_exact_witness:
  "\<exists>qs ms. parse_selected sample_import_ops import_constants sample_import_file [2] = Inr qs \<and> length qs = 1
    \<and> import_queued_questions sample_env qs [] empty_db = (Inr (map queued_to_domain ms), empty_db\<lparr>queued_questions := ms\<rparr>)"
proof -
  let ?rows = "map (\<lambda>(n, q). \<lparr>vr_row_number = n, vr_question = q, vr_sheet = [], vr_grade = [],
      vr_params = Some (queued_text q), vr_issues = []\<rparr>) (enumerate_from 1 [u ''What?'', [1095, 1090, 1086, 63]])"
  have "importable ?rows 2" by (simp add: importable_def can_import_def)
  then show ?thesis
    using import_selected_exact[OF sample_preview, of sample_env "[2]" empty_db "[]"]
    by (auto simp: empty_db_def)
qed

section \<open>CSV files\<close>

definition csv_fields :: "queue_params \<Rightarrow> pystr list" where
  "csv_fields p =
     [qp_question p, case qp_sheet p of None \<Rightarrow> [] | Some s \<Rightarrow> s,
      case qp_grade p of None \<Rightarrow> [] | Some g \<Rightarrow> grade_value g]"

definition csv_text :: "dialect \<Rightarrow> queue_params list \<Rightarrow> pystr" where
  "csv_text dl ps = csv_write dl ([u ''question'', u ''sheet'', u ''grade''] # map csv_fields ps)"

text \<open>A text of one line without white space around it; it may hold delimiters and quotes.\<close>

definition one_line :: "nat \<Rightarrow> pystr \<Rightarrow> bool" where
  "one_line n s \<longleftrightarrow> s \<noteq> [] \<and> strip s = s \<and> length s \<le> n \<and> 10 \<notin> set s \<and> 13 \<notin> set s"

definition csv_question :: "queue_params \<Rightarrow> bool" where
  "csv_question p \<longleftrightarrow> one_line 255 (qp_question p)
     \<and> (case qp_sheet p of None \<Rightarrow> True | Some s \<Rightarrow> one_line csv_field_limit s)"

lemma one_line_normal: "one_line n s \<Longrightarrow> strip (normalize_question_text s) = s"
  by (simp add: one_line_def normalize_plain)

lemma strip_Nil [simp]: "strip [] = []" "normalize_question_text [] = []"
  by (simp_all add: strip_def strip_by_def normalize_plain)

lemma grade_value_normal: "strip (normalize_question_text (grade_value g)) = grade_value g"
proof -
  have "10 \<notin> set (grade_value g)" "13 \<notin> set (grade_value g)" by (cases g; simp add: u_def)+
  moreover have "strip (grade_value g) = grade_value g"
    by (cases g) (simp_all add: u_def strip_def strip_by_def is_space_def)
  ultimately show ?thesis by (simp add: normalize_plain)
qed

lemma grade_value_nonempty: "grade_value g \<noteq> []"
  by (cases g) (simp_all add: u_def)

lemma grade_value_read: "from_value grades_all grade_value (grade_value g) = Some g"
  by (cases g) (simp_all add: from_value_def grades_all_def u_def)

lemma grade_member: "grade_value g \<in> grade_value ` set grades_all"
  by (cases g) (simp_all add: grades_all_def)

lemma grade_value_short: "length (grade_value g) \<le> csv_field_limit"
  by (cases g) (simp_all add: u_def csv_field_limit_def)

definition csv_columns :: column_indexes where
  "csv_columns = \<lparr>ci_question = 0, ci_sheet = Some 1, ci_grade = Some 2\<rparr>"

text \<open>The preview of a written row.\<close>

definition csv_shown :: "int \<Rightarrow> queue_params \<Rightarrow> import_preview_row" where
  "csv_shown n p = preview_row import_constants
     (read_row csv_columns (Some (CText [])) (n, map (\<lambda>s. Some (CText s)) (csv_fields p)))"

lemma csv_header_indexes:
  "csv_column_indexes import_constants (map (\<lambda>s. Some (CText s)) [u ''question'', u ''sheet'', u ''grade'']) =
    Inr csv_columns"
  by (simp add: csv_columns_def csv_column_indexes_def question_column_index_def optional_column_index_def is_header_def
    import_constants_def u_def strip_def strip_by_def is_space_def casefold_def casefold_char_def lower_char_def)

lemma csv_fields_short:
  assumes "csv_question p" "f \<in> set (csv_fields p)"
  shows "length f \<le> csv_field_limit"
proof -
  have "length (qp_question p) \<le> 255" using assms(1) by (simp add: csv_question_def one_line_def)
  then have "length (qp_question p) \<le> csv_field_limit" by (simp add: csv_field_limit_def)
  then show ?thesis
    using assms grade_value_short by (auto simp: csv_fields_def csv_question_def one_line_def split: option.splits)
qed

lemma csv_preview_row:
  assumes "csv_question p"
  shows "vr_params (csv_shown n p) = Some p" and "vr_issues (csv_shown n p) = []"
proof -
  let ?s = "case qp_sheet p of None \<Rightarrow> [] | Some s \<Rightarrow> s" and ?g = "case qp_grade p of None \<Rightarrow> [] | Some g \<Rightarrow> grade_value g"
  have read: "read_row csv_columns (Some (CText [])) (n, map (\<lambda>s. Some (CText s)) (csv_fields p)) =
      \<lparr>pr_row_number = n, pr_question = Some (CText (qp_question p)), pr_sheet = Some (CText ?s), pr_grade = Some (CText ?g)\<rparr>"
    by (simp add: read_row_def csv_fields_def csv_columns_def cell_def)
  have line: "one_line 255 (qp_question p)" using assms by (simp add: csv_question_def)
  have q: "strip (normalize_question_text (qp_question p)) = qp_question p" "qp_question p \<noteq> []" "length (qp_question p) \<le> 255"
    using one_line_normal[OF line] line by (simp_all add: one_line_def)
  have sheet: "normalize_optional_text (Some ?s) = qp_sheet p"
  proof (cases "qp_sheet p")
    case None
    then show ?thesis by (simp add: normalize_optional_text_def)
  next
    case (Some s)
    then have s: "one_line csv_field_limit s" using assms by (simp add: csv_question_def)
    have "strip (normalize_question_text s) = s" "s \<noteq> []" using one_line_normal[OF s] s by (simp_all add: one_line_def)
    then show ?thesis using Some by (simp add: normalize_optional_text_def)
  qed
  have grade: "normalize_optional_text (Some ?g) = map_option grade_value (qp_grade p)"
    by (simp add: normalize_optional_text_def grade_value_normal grade_value_nonempty split: option.split)
  have g: "grade_issues (Some (CText ?g)) = []" "normalize_optional_grade (Some ?g) = qp_grade p"
    using grade grade_member by (cases "qp_grade p"; simp add: grade_issues_def normalize_optional_grade_def grade_value_read)+
  have "question_issues import_constants (Some (CText (qp_question p))) = []"
    using q by (simp add: question_issues_def Let_def import_constants_def)
  then show "vr_params (csv_shown n p) = Some p" "vr_issues (csv_shown n p) = []"
    unfolding csv_shown_def read using q(1) sheet g by (simp_all add: preview_row_def Let_def sheet_issues_def)
qed

text \<open>C34: a CSV file with the columns question, sheet and grade and every field between quotes imports exactly its rows
  when it is read in the dialect that it was written in: with any delimiter and quote character, spaces skipped or not,
  and texts that hold delimiters and, where the dialect reads a doubled quote as a quote, quotes.  The dialect is the
  one that \<open>csv.Sniffer\<close> reports for the beginning of the file, or that of \<open>csv.excel\<close> when it reports none.  Nothing is
  claimed of the sniffer: when it reports another dialect than that of the file, the rows can come out differently.\<close>

theorem csv_import_roundtrip:
  assumes ps: "ps \<noteq> []" "\<forall>p \<in> set ps. csv_question p"
    and name: "lower (path_suffix (if_filename file)) = u ''.csv''"
    and content: "decode_utf8_sig (if_content file) = Some (csv_text dl ps)"
    and dialect: "csv_dialect ops import_constants (csv_text dl ps) = dl" "quoting_dialect dl"
    and quotes: "\<not> dl_doublequote dl \<Longrightarrow>
      \<forall>f \<in> {u ''question'', u ''sheet'', u ''grade''} \<union> \<Union> (set ` csv_fields ` set ps). dl_quotechar dl \<notin> set f"
  shows "parse ops import_constants file = Inr ps"
proof -
  have "csv_read dl (csv_text dl ps) = Some ([u ''question'', u ''sheet'', u ''grade''] # map csv_fields ps)"
    unfolding csv_text_def
  proof (rule csv_read_write[OF dialect(2)], intro ballI conjI)
    fix row f assume row: "row \<in> set ([u ''question'', u ''sheet'', u ''grade''] # map csv_fields ps)"
    then show "row \<noteq> []" by (auto simp: csv_fields_def)
    assume f: "f \<in> set row"
    have "length f \<le> csv_field_limit"
      using row f ps(2) csv_fields_short by (auto simp: csv_field_limit_def u_def)
    moreover have "f \<in> {u ''question'', u ''sheet'', u ''grade''} \<union> \<Union> (set ` csv_fields ` set ps)" using row f by auto
    ultimately show "quotable dl f" using quotes unfolding quotable_def by blast
  qed
  then have parsed: "parse_csv ops import_constants (if_content file) =
      Inr (map (\<lambda>(n, row). read_row csv_columns (Some (CText [])) (n, map (\<lambda>s. Some (CText s)) row)) (enumerate_from 2 (map csv_fields ps)))"
    using content dialect(1) csv_header_indexes by (simp add: parse_csv_def decode_text_def)
  have ext: "u ''.csv'' \<notin> set (ir_unsupported_legacy_excel_extensions import_constants)"
    "u ''.csv'' \<in> set (supported_extensions import_constants)" "u ''.csv'' \<noteq> u ''.txt''"
    by (simp_all add: import_constants_def supported_extensions_def u_def)
  have enum: "map (preview_row import_constants) (map (\<lambda>(n, row). read_row csv_columns (Some (CText [])) (n, map (\<lambda>s. Some (CText s)) row))
      (enumerate_from n (map csv_fields ps))) = map (\<lambda>(n, p). csv_shown n p) (enumerate_from n ps)" for n
    by (induction ps arbitrary: n) (simp_all add: csv_shown_def)
  obtain p ps' where "ps = p # ps'" using ps(1) by (cases ps) auto
  then have "preview ops import_constants file = Inr (map (\<lambda>(n, p). csv_shown n p) (enumerate_from 2 ps))"
    using parsed enum[of 2] ext name by (simp add: preview_def parse_rows_def)
  moreover have "vr_issues r = []" if r: "r \<in> set (map (\<lambda>(n, p). csv_shown n p) (enumerate_from 2 ps))" for r
  proof -
    obtain x where x: "x \<in> set (enumerate_from 2 ps)" "r = csv_shown (fst x) (snd x)" using r by (auto simp: split_def)
    then show ?thesis using csv_preview_row(2) enumerate_from_member[OF x(1)] ps(2) by simp
  qed
  ultimately have "parse ops import_constants file =
      Inr (List.map_filter vr_params (map (\<lambda>(n, p). csv_shown n p) (enumerate_from 2 ps)))"
    by (intro parse_clean ballI)
  moreover have "List.map_filter vr_params (map (\<lambda>(n, p). csv_shown n p) (enumerate_from n ps)) = ps" for n
    using ps(2) by (induction ps arbitrary: n) (simp_all add: List.map_filter_simps csv_preview_row(1))
  ultimately show ?thesis by simp
qed

definition sample_csv_question :: queue_params where
  "sample_csv_question = \<lparr>qp_question = u ''a,b'', qp_sheet = None, qp_grade = Some SENIOR\<rparr>"

definition sample_csv_file :: import_file where
  "sample_csv_file = \<lparr>if_filename = u ''q.csv'', if_content = utf8_encode (csv_text excel_dialect [sample_csv_question])\<rparr>"

text \<open>What the sniffer reports for a file with every field between quotes and no doubled quotes.\<close>

definition sniffed_dialect :: dialect where
  "sniffed_dialect = \<lparr>dl_delimiter = 59, dl_quotechar = 34, dl_doublequote = False, dl_skipinitialspace = True\<rparr>"

definition sniffed_csv_file :: import_file where
  "sniffed_csv_file = \<lparr>if_filename = u ''q.csv'', if_content = utf8_encode (csv_text sniffed_dialect [sample_csv_question])\<rparr>"

lemma sample_csv_texts:
  "csv_question sample_csv_question"
  "decode_utf8_sig (if_content sample_csv_file) = Some (csv_text excel_dialect [sample_csv_question])"
  "decode_utf8_sig (if_content sniffed_csv_file) = Some (csv_text sniffed_dialect [sample_csv_question])"
  "lower (path_suffix (if_filename sample_csv_file)) = u ''.csv''" "lower (path_suffix (if_filename sniffed_csv_file)) = u ''.csv''"
proof -
  show "csv_question sample_csv_question"
    by (simp add: sample_csv_question_def csv_question_def one_line_def u_def strip_def strip_by_def is_space_def)
  note defs = sample_csv_question_def csv_text_def csv_write_def csv_line_def csv_quoted_def csv_fields_def u_def utf8_encode_def
    utf8_char_def decode_utf8_sig_def utf8_decode.simps
  show "decode_utf8_sig (if_content sample_csv_file) = Some (csv_text excel_dialect [sample_csv_question])"
    by (simp add: sample_csv_file_def excel_dialect_def defs)
  show "decode_utf8_sig (if_content sniffed_csv_file) = Some (csv_text sniffed_dialect [sample_csv_question])"
    by (simp add: sniffed_csv_file_def sniffed_dialect_def defs)
  show "lower (path_suffix (if_filename sample_csv_file)) = u ''.csv''" "lower (path_suffix (if_filename sniffed_csv_file)) = u ''.csv''"
    by (simp_all add: sample_csv_file_def sniffed_csv_file_def u_def path_suffix_def path_name_def lower_def lower_char_def Let_def)
qed

theorem csv_import_roundtrip_witness:
  "parse sample_import_ops import_constants sample_csv_file = Inr [sample_csv_question]
   \<and> parse (sample_import_ops\<lparr>io_sniff := \<lambda>_ _. Some sniffed_dialect\<rparr>) import_constants sniffed_csv_file = Inr [sample_csv_question]"
proof (intro conjI)
  show "parse sample_import_ops import_constants sample_csv_file = Inr [sample_csv_question]"
    by (rule csv_import_roundtrip[OF _ _ sample_csv_texts(4,2)])
       (simp_all add: sample_csv_texts(1) csv_dialect_def sample_import_ops_def quoting_dialect_def excel_dialect_def)
  have "dl_quotechar sniffed_dialect \<notin> set f"
    if "f \<in> {u ''question'', u ''sheet'', u ''grade''} \<union> \<Union> (set ` csv_fields ` set [sample_csv_question])" for f
    using that by (auto simp: sniffed_dialect_def sample_csv_question_def csv_fields_def u_def)
  then show "parse (sample_import_ops\<lparr>io_sniff := \<lambda>_ _. Some sniffed_dialect\<rparr>) import_constants sniffed_csv_file = Inr [sample_csv_question]"
    by (intro csv_import_roundtrip[OF _ _ sample_csv_texts(5,3)])
       (simp_all add: sample_csv_texts(1) csv_dialect_def quoting_dialect_def sniffed_dialect_def)
qed

text \<open>A CSV file in which a carriage return alone ends the line of the header is answered with the
  \<open>csv.Error\<close> of the reader, which nothing catches, instead of the error that tells the user that the
  import file is invalid.\<close>

theorem csv_error_escapes:
  assumes name: "lower (path_suffix (if_filename file)) = u ''.csv''"
    and content: "decode_utf8_sig (if_content file) = Some (u ''question'' @ [13, c] @ rest)"
    and c: "c \<noteq> 10" "c \<noteq> 13"
    and sniffed: "io_sniff ops (take 2048 (u ''question'' @ [13, c] @ rest)) (ir_csv_delimiters import_constants) = None"
  shows "preview ops import_constants file = Inl CsvError"
proof -
  have "csv_read excel_dialect (u ''question'' @ [13, c] @ rest) = None"
    using c by (simp add: csv_read_def new_record_def u_def csv_rows.simps parse_process_char_def process_start_field_def
      ends_line_def excel_dialect_def parse_add_char_def csv_field_limit_def parse_end_of_line_def parse_save_field_def)
  then have "parse_csv ops import_constants (if_content file) = Inl CsvError"
    using content sniffed by (simp add: parse_csv_def decode_text_def csv_dialect_def)
  moreover have "u ''.csv'' \<notin> set (ir_unsupported_legacy_excel_extensions import_constants)"
    "u ''.csv'' \<in> set (supported_extensions import_constants)" "u ''.csv'' \<noteq> u ''.txt''"
    by (simp_all add: import_constants_def supported_extensions_def u_def)
  ultimately show ?thesis using name by (simp add: preview_def parse_rows_def)
qed

theorem csv_error_escapes_witness:
  "preview sample_import_ops import_constants \<lparr>if_filename = u ''q.csv'', if_content = u ''question'' @ [13, 97]\<rparr> = Inl CsvError"
  by (rule csv_error_escapes[where c = 97 and rest = "[]"])
     (simp_all add: u_def path_suffix_def path_name_def lower_def lower_char_def Let_def
       decode_utf8_sig_def utf8_decode.simps sample_import_ops_def)

end
