(* ===== verification/Matrix_Workspace.thy ===== *)
theory Matrix_Workspace
  imports Article_Properties Matrix_Properties
begin

text \<open>
  The lists of the competency matrix: the public list of questions, the rows of the sitemap, the
  workspace of the editors with its filters, orders, pages and summary, the options of its filters,
  and the targets of wiki links, which join the questions with the articles.  The queries are those of
  \<open>CompetencyMatrixDatabaseStorage\<close> and the use cases those of \<open>CompetencyMatrixUseCase\<close> and
  \<open>WikiLinksUseCase\<close>.
\<close>

section \<open>Orders\<close>

text \<open>
  The value of one expression of an \<open>ORDER BY\<close>: a number, a text in ascending or descending order, or
  \<open>NULL\<close>, which comes last.  A row is ordered by the list of its values.  Texts compare by code points, the
  collation \<open>C\<close> of PostgreSQL; another collation of the database permutes rows that differ in a text only.
\<close>

datatype order_value = Num int | Asc pystr | Desc pystr | Null

fun order_rank :: "order_value \<Rightarrow> nat" where
  "order_rank (Num _) = 0"
| "order_rank (Asc _) = 1"
| "order_rank (Desc _) = 2"
| "order_rank Null = 3"

instantiation order_value :: linorder
begin

fun less_eq_order_value :: "order_value \<Rightarrow> order_value \<Rightarrow> bool" where
  "less_eq_order_value (Num a) (Num b) = (a \<le> b)"
| "less_eq_order_value (Asc a) (Asc b) = (a \<le> b)"
| "less_eq_order_value (Desc a) (Desc b) = (b \<le> a)"
| "less_eq_order_value x y = (order_rank x \<le> order_rank y)"

definition less_order_value :: "order_value \<Rightarrow> order_value \<Rightarrow> bool" where
  "less_order_value x y \<longleftrightarrow> x \<le> y \<and> \<not> y \<le> x"

instance
proof
  fix x y z :: order_value
  show "x < y \<longleftrightarrow> x \<le> y \<and> \<not> y \<le> x" by (rule less_order_value_def)
  show "x \<le> x" by (cases x) simp_all
  show "x \<le> y \<Longrightarrow> y \<le> z \<Longrightarrow> x \<le> z" by (cases x; cases y; cases z) simp_all
  show "x \<le> y \<Longrightarrow> y \<le> x \<Longrightarrow> x = y" by (cases x; cases y) simp_all
  show "x \<le> y \<or> y \<le> x" by (cases x; cases y) auto
qed

end

fun grade_index :: "grade \<Rightarrow> int" where
  "grade_index JUNIOR = 0"
| "grade_index JUNIOR_PLUS = 1"
| "grade_index MIDDLE = 2"
| "grade_index MIDDLE_PLUS = 3"
| "grade_index SENIOR = 4"

fun frequency_index :: "interview_frequency \<Rightarrow> int" where
  "frequency_index CONSTANTLY = 0"
| "frequency_index OFTEN = 1"
| "frequency_index RARELY = 2"
| "frequency_index NEVER_SEEN = 3"

definition nulls_last :: "int option \<Rightarrow> order_value" where
  "nulls_last v = (case v of Some n \<Rightarrow> Num n | None \<Rightarrow> Null)"

definition structure_ordering :: "item_row \<Rightarrow> order_value list" where
  "structure_ordering = (\<lambda>(i, su, se, sh).
     [Num (sh_priority sh), Asc (sh_id sh), Num (se_priority se), Asc (se_id se), Num (su_priority su), Asc (su_id su)])"

text \<open>\<open>_workspace_ordering\<close> calls it the default; the public list has the same order.\<close>

definition item_default_ordering :: "item_row \<Rightarrow> order_value list" where
  "item_default_ordering r =
     structure_ordering r @ [nulls_last (map_option grade_index (im_grade (fst r))), Asc (im_id (fst r))]"

section \<open>Public lists\<close>

record item_filters =
  mf_sheet_key :: "pystr option"
  mf_only_published :: "bool option"

definition item_filter :: "item_filters \<Rightarrow> item_row \<Rightarrow> bool" where
  "item_filter f = (\<lambda>(i, su, se, sh).
     (case mf_sheet_key f of None \<Rightarrow> True | Some key \<Rightarrow> lower (sh_key sh) = lower key)
     \<and> (mf_only_published f = Some True \<longrightarrow> im_publish_status i = PUBLISHED))"

definition list_competency_matrix_items :: "item_filters \<Rightarrow> matrix_item list dbm" where
  "list_competency_matrix_items f =
     bind (gets (\<lambda>d. all_or_error (map (\<lambda>r. item_to_domain d [] (fst r))
       (sort_key item_default_ordering (filter (item_filter f) (join_structure d)))))) lift"

definition list_items :: "item_filters \<Rightarrow> matrix_item list dbm" where
  "list_items f =
     bind (list_competency_matrix_items f) (\<lambda>matrix.
     ret (if mf_only_published f = Some True then only_available matrix else matrix))"

definition list_published_items_for_seo :: "published_item_for_seo list dbm" where
  "list_published_items_for_seo =
     bind (list_competency_matrix_items \<lparr>mf_sheet_key = None, mf_only_published = Some True\<rparr>) (\<lambda>matrix.
     ret (to_published_for_seo (only_available matrix)))"

section \<open>The workspace\<close>

datatype workspace_sort =
    SORT_GRADE | SORT_INTERVIEW_FREQUENCY | SORT_SECTION | SORT_SUBSECTION | SORT_NEWEST | SORT_OLDEST
  | SORT_MISSING_FIELDS | SORT_DANGEROUS_PUBLISHED

record workspace_filters =
  wf_page :: int
  wf_page_size :: int
  wf_language :: language
  wf_sort :: workspace_sort
  wf_search_query :: "pystr option"
  wf_sheet_keys :: "pystr list"
  wf_grades :: "grade list"
  wf_interview_frequencies :: "interview_frequency list"
  wf_section_ids :: "pystr list"
  wf_subsection_ids :: "pystr list"
  wf_sections :: "pystr list"
  wf_subsections :: "pystr list"
  wf_publish_statuses :: "publish_status list"
  wf_published_from :: "date option"
  wf_published_to :: "date option"
  wf_has_missing_fields :: "bool option"

definition workspace_limit :: "workspace_filters \<Rightarrow> int" where
  "workspace_limit f = wf_page_size f"

definition workspace_offset :: "workspace_filters \<Rightarrow> int" where
  "workspace_offset f = (wf_page f - 1) * wf_page_size f"

record workspace_summary =
  ws_total :: int
  ws_draft :: int
  ws_missing_draft :: int
  ws_dangerous_published :: int
  ws_ready_published :: int

record workspace_item =
  wi_id :: pystr
  wi_slug :: pystr
  wi_question :: pystr
  wi_sheet_key :: pystr
  wi_sheet :: pystr
  wi_grade :: "grade option"
  wi_interview_frequency :: "interview_frequency option"
  wi_section :: pystr
  wi_subsection :: pystr
  wi_publish_status :: publish_status
  wi_published_at :: "datetime option"
  wi_missing_fields :: "missing_field list"

record workspace =
  wk_values :: "workspace_item list"
  wk_total_count :: int
  wk_total_pages :: int
  wk_summary :: workspace_summary

definition workspace_from_page ::
  "workspace_item list \<Rightarrow> int \<Rightarrow> int \<Rightarrow> workspace_summary \<Rightarrow> error + workspace" where
  "workspace_from_page values total_count page_size summary =
     (if total_count > 0 \<and> page_size = 0 then Inl ZeroDivisionError
      else Inr \<lparr>wk_values = values, wk_total_count = total_count,
        wk_total_pages = (if total_count > 0 then - ((- total_count) div page_size) else 0), wk_summary = summary\<rparr>)"

definition question_column :: "language \<Rightarrow> item_model \<Rightarrow> pystr" where
  "question_column lang i = localized lang (im_question_ru i) (im_question_en i)"

definition sheet_column :: "language \<Rightarrow> sheet_model \<Rightarrow> pystr" where
  "sheet_column lang sh = localized lang (sh_name_ru sh) (sh_name_en sh)"

definition section_column :: "language \<Rightarrow> section_model \<Rightarrow> pystr" where
  "section_column lang se = localized lang (se_name_ru se) (se_name_en se)"

definition subsection_column :: "language \<Rightarrow> subsection_model \<Rightarrow> pystr" where
  "subsection_column lang su = localized lang (su_name_ru su) (su_name_en su)"

definition blank_text_condition :: "pystr \<Rightarrow> bool" where
  "blank_text_condition column \<longleftrightarrow> length (sql_trim column) = 0"

definition workspace_missing_field_conditions :: "item_model \<Rightarrow> (missing_field \<times> bool) list" where
  "workspace_missing_field_conditions i =
     [(MF_SLUG, blank_text_condition (im_slug i)), (MF_GRADE, im_grade i = None),
      (MF_QUESTION_RU, blank_text_condition (im_question_ru i)), (MF_QUESTION_EN, blank_text_condition (im_question_en i)),
      (MF_ANSWER_RU, blank_text_condition (im_answer_ru i)), (MF_ANSWER_EN, blank_text_condition (im_answer_en i)),
      (MF_INTERVIEW_ANSWER_EXPLANATION_RU, blank_text_condition (im_explanation_ru i)),
      (MF_INTERVIEW_ANSWER_EXPLANATION_EN, blank_text_condition (im_explanation_en i))]"

definition workspace_missing_condition :: "item_model \<Rightarrow> bool" where
  "workspace_missing_condition i \<longleftrightarrow> (\<exists>c \<in> set (workspace_missing_field_conditions i). snd c)"

definition workspace_missing_count :: "item_model \<Rightarrow> int" where
  "workspace_missing_count i = sum_list (map (\<lambda>c. if snd c then 1 else 0) (workspace_missing_field_conditions i))"

text \<open>A comparison with \<open>NULL\<close> does not hold, and an empty selection does not restrict.\<close>

definition selected_in :: "'a option \<Rightarrow> 'a list \<Rightarrow> bool" where
  "selected_in v xs \<longleftrightarrow> xs = [] \<or> (case v of None \<Rightarrow> False | Some x \<Rightarrow> x \<in> set xs)"

definition workspace_dimension_filter_conditions :: "workspace_filters \<Rightarrow> item_row \<Rightarrow> bool" where
  "workspace_dimension_filter_conditions f = (\<lambda>(i, su, se, sh).
     selected_in (Some (sh_key sh)) (wf_sheet_keys f)
     \<and> selected_in (im_grade i) (wf_grades f)
     \<and> selected_in (im_interview_frequency i) (wf_interview_frequencies f)
     \<and> selected_in (Some (se_id se)) (wf_section_ids f)
     \<and> selected_in (Some (su_id su)) (wf_subsection_ids f)
     \<and> selected_in (Some (section_column (wf_language f) se)) (wf_sections f)
     \<and> selected_in (Some (subsection_column (wf_language f) su)) (wf_subsections f)
     \<and> selected_in (Some (im_publish_status i)) (wf_publish_statuses f))"

definition workspace_state_filter_conditions :: "workspace_filters \<Rightarrow> item_row \<Rightarrow> bool" where
  "workspace_state_filter_conditions f = (\<lambda>(i, su, se, sh).
     (case wf_published_from f of None \<Rightarrow> True
      | Some day \<Rightarrow> (case im_published_at i of None \<Rightarrow> False | Some t \<Rightarrow> date_start day \<le> t))
     \<and> (case wf_published_to f of None \<Rightarrow> True
      | Some day \<Rightarrow> (case im_published_at i of None \<Rightarrow> False | Some t \<Rightarrow> t \<le> date_end day))
     \<and> (case wf_search_query f of None \<Rightarrow> True
      | Some q \<Rightarrow>
          (let search_pattern = u ''%'' @ lower q @ u ''%'' in
           ilike (lower (im_slug i)) search_pattern
           \<or> ilike (lower (question_column (wf_language f) i)) search_pattern))
     \<and> (wf_has_missing_fields f = Some True \<longrightarrow> workspace_missing_condition i)
     \<and> (wf_has_missing_fields f = Some False \<longrightarrow> \<not> workspace_missing_condition i))"

definition workspace_filter_conditions :: "workspace_filters \<Rightarrow> item_row \<Rightarrow> bool" where
  "workspace_filter_conditions f r \<longleftrightarrow>
     workspace_dimension_filter_conditions f r \<and> workspace_state_filter_conditions f r"

definition interview_frequency_ordering :: "item_model \<Rightarrow> int" where
  "interview_frequency_ordering i =
     (case im_interview_frequency i of None \<Rightarrow> 4 | Some fr \<Rightarrow> frequency_index fr)"

definition dangerous_published :: "item_model \<Rightarrow> bool" where
  "dangerous_published i \<longleftrightarrow> im_publish_status i = PUBLISHED \<and> workspace_missing_condition i"

definition workspace_ordering :: "workspace_filters \<Rightarrow> item_row \<Rightarrow> order_value list" where
  "workspace_ordering f r =
     (let (i, su, se, sh) = r;
          question = Asc (question_column (wf_language f) i);
          grade = nulls_last (map_option grade_index (im_grade i))
      in case wf_sort f of
        SORT_GRADE \<Rightarrow> grade # structure_ordering r @ [question, Asc (im_id i)]
      | SORT_INTERVIEW_FREQUENCY \<Rightarrow>
          Num (interview_frequency_ordering i) # structure_ordering r @ [question, Asc (im_id i)]
      | SORT_SECTION \<Rightarrow> item_default_ordering r
      | SORT_SUBSECTION \<Rightarrow>
          [Num (sh_priority sh), Asc (sh_id sh), Num (su_priority su), Asc (su_id su), Num (se_priority se),
           Asc (se_id se), grade, question, Asc (im_id i)]
      | SORT_NEWEST \<Rightarrow> [nulls_last (map_option uminus (im_published_at i)), Desc (im_id i)]
      | SORT_OLDEST \<Rightarrow> [nulls_last (im_published_at i), Asc (im_id i)]
      | SORT_MISSING_FIELDS \<Rightarrow> Num (- workspace_missing_count i) # structure_ordering r @ [Asc (im_id i)]
      | SORT_DANGEROUS_PUBLISHED \<Rightarrow>
          [Num (if dangerous_published i then 0 else 1), nulls_last (map_option uminus (im_published_at i)), Asc (im_id i)])"

definition count_rows :: "(item_model \<Rightarrow> bool) \<Rightarrow> item_row list \<Rightarrow> int" where
  "count_rows p rows = int (length (filter (\<lambda>r. p (fst r)) rows))"

definition summarize :: "item_row list \<Rightarrow> workspace_summary" where
  "summarize rows =
     (let draft = (\<lambda>i. im_publish_status i = DRAFT); published = (\<lambda>i. im_publish_status i = PUBLISHED);
          missing = workspace_missing_condition
      in \<lparr>ws_total = int (length rows), ws_draft = count_rows draft rows,
          ws_missing_draft = count_rows (\<lambda>i. draft i \<and> missing i) rows,
          ws_dangerous_published = count_rows (\<lambda>i. published i \<and> missing i) rows,
          ws_ready_published = count_rows (\<lambda>i. published i \<and> \<not> missing i) rows\<rparr>)"

definition workspace_summary_of :: "workspace_filters \<Rightarrow> workspace_summary dbm" where
  "workspace_summary_of f = gets (\<lambda>d. summarize (filter (workspace_filter_conditions f) (join_structure d)))"

definition to_workspace_item :: "db \<Rightarrow> language \<Rightarrow> item_model \<Rightarrow> error + workspace_item" where
  "to_workspace_item d lang item =
     (case item_to_domain d [] item of
        Inl e \<Rightarrow> Inl e
      | Inr schema \<Rightarrow>
          Inr \<lparr>wi_id = mi_id schema, wi_slug = mi_slug schema,
               wi_question = localized lang (mi_question_ru schema) (mi_question_en schema),
               wi_sheet_key = ns_sheet_key (mi_structure schema),
               wi_sheet = localized lang (ns_sheet_ru (mi_structure schema)) (ns_sheet_en (mi_structure schema)),
               wi_grade = mi_grade schema, wi_interview_frequency = mi_interview_frequency schema,
               wi_section = localized lang (ns_section_ru (mi_structure schema)) (ns_section_en (mi_structure schema)),
               wi_subsection = localized lang (ns_subsection_ru (mi_structure schema)) (ns_subsection_en (mi_structure schema)),
               wi_publish_status = mi_publish_status schema, wi_published_at = mi_published_at schema,
               wi_missing_fields = missing_publication_fields schema\<rparr>)"

definition list_competency_matrix_workspace_items ::
  "workspace_filters \<Rightarrow> (workspace_item list \<times> int \<times> workspace_summary) dbm" where
  "list_competency_matrix_workspace_items f =
     bind (gets (\<lambda>d. sort_key (workspace_ordering f) (filter (workspace_filter_conditions f) (join_structure d)))) (\<lambda>rows.
     bind (lift (limit_rows (workspace_offset f) (workspace_limit f) rows)) (\<lambda>page.
     bind (gets (\<lambda>d. int (length (filter (workspace_filter_conditions f) (join_structure d))))) (\<lambda>total_count.
     bind (workspace_summary_of f) (\<lambda>summary.
     bind (gets (\<lambda>d. all_or_error (map (\<lambda>r. to_workspace_item d (wf_language f) (fst r)) page))) (\<lambda>items.
     bind (lift items) (\<lambda>values. ret (values, total_count, summary)))))))"

definition list_workspace_items :: "workspace_filters \<Rightarrow> workspace dbm" where
  "list_workspace_items f =
     bind (list_competency_matrix_workspace_items f) (\<lambda>(values, total_count, summary).
     lift (workspace_from_page values total_count (wf_page_size f) summary))"

section \<open>Options of the filters\<close>

record subsection_option =
  bo_id :: pystr
  bo_label :: pystr

record section_option =
  co_id :: pystr
  co_label :: pystr
  co_subsections :: "subsection_option list"

record sheet_option =
  ho_key :: pystr
  ho_label :: pystr
  ho_sections :: "section_option list"

record filter_options =
  fx_sheets :: "sheet_option list"
  fx_grades :: "grade list"
  fx_interview_frequencies :: "interview_frequency list"
  fx_sections :: "pystr list"
  fx_subsections :: "pystr list"
  fx_publish_statuses :: "publish_status list"

type_synonym node_row = "sheet_model \<times> section_model \<times> subsection_model"

definition subsection_has_items_condition :: "db \<Rightarrow> subsection_model \<Rightarrow> bool" where
  "subsection_has_items_condition d su \<longleftrightarrow> (\<exists>i \<in> set (items d). im_subsection_id i = su_id su)"

definition join_structure_nodes_with_items :: "db \<Rightarrow> node_row list" where
  "join_structure_nodes_with_items d =
     [(sh, se, su). sh \<leftarrow> sheets d, se \<leftarrow> sections d, se_sheet_id se = sh_id sh,
        su \<leftarrow> subsections d, su_section_id su = se_id se, subsection_has_items_condition d su]"

definition node_ordering :: "node_row \<Rightarrow> order_value list" where
  "node_ordering = (\<lambda>(sh, se, su).
     [Num (sh_priority sh), Asc (sh_id sh), Num (se_priority se), Asc (se_id se), Num (su_priority su), Asc (su_id su)])"

text \<open>\<open>dict.setdefault\<close> followed by an update of the entry.\<close>

definition update_default :: "'k \<Rightarrow> 'v \<Rightarrow> ('v \<Rightarrow> 'v) \<Rightarrow> ('k, 'v) dict \<Rightarrow> ('k, 'v) dict" where
  "update_default k v g m = dict_set k (g (case dict_get k m of None \<Rightarrow> v | Some x \<Rightarrow> x)) m"

type_synonym sections_dict = "(pystr, pystr \<times> (pystr, pystr) dict) dict"

definition add_section :: "language \<Rightarrow> node_row \<Rightarrow> sections_dict \<Rightarrow> sections_dict" where
  "add_section lang = (\<lambda>(sh, se, su) secs.
     if section_column lang se = [] then secs
     else update_default (se_id se) (section_column lang se, [])
       (\<lambda>(label, subs). (label,
          if subsection_column lang su = [] then subs
          else update_default (su_id su) (subsection_column lang su) (\<lambda>x. x) subs)) secs)"

definition add_node ::
  "language \<Rightarrow> (pystr, pystr \<times> sections_dict) dict \<Rightarrow> node_row \<Rightarrow> (pystr, pystr \<times> sections_dict) dict" where
  "add_node lang shs r =
     (let (sh, se, su) = r in
      update_default (sh_key sh) (sheet_column lang sh, []) (\<lambda>(label, secs). (label, add_section lang r secs)) shs)"

definition workspace_filter_sheet_options :: "language \<Rightarrow> node_row list \<Rightarrow> sheet_option list" where
  "workspace_filter_sheet_options lang rows =
     map (\<lambda>(key, label, secs). \<lparr>ho_key = key, ho_label = label, ho_sections =
       map (\<lambda>(sid, slabel, subs). \<lparr>co_id = sid, co_label = slabel, co_subsections =
         map (\<lambda>(bid, blabel). \<lparr>bo_id = bid, bo_label = blabel\<rparr>) subs\<rparr>) secs\<rparr>)
       (foldl (add_node lang) [] rows)"

definition ordered_interview_frequencies :: "interview_frequency list \<Rightarrow> interview_frequency list" where
  "ordered_interview_frequencies values = sort_key frequency_index values"

text \<open>\<open>distinct\<close> and \<open>order_by\<close> on one column; the rows without a value come last and are dropped.\<close>

definition list_competency_matrix_workspace_filter_options :: "language \<Rightarrow> filter_options dbm" where
  "list_competency_matrix_workspace_filter_options lang = gets (\<lambda>d.
     let nodes = join_structure_nodes_with_items d in
     \<lparr>fx_sheets = workspace_filter_sheet_options lang (sort_key node_ordering (remdups nodes)),
      fx_grades = sort_key grade_index (remdups (List.map_filter im_grade (items d))),
      fx_interview_frequencies =
        ordered_interview_frequencies (remdups (List.map_filter im_interview_frequency (items d))),
      fx_sections = filter (\<lambda>s. s \<noteq> []) (sort (remdups (map (\<lambda>(sh, se, su). section_column lang se) nodes))),
      fx_subsections = filter (\<lambda>s. s \<noteq> []) (sort (remdups (map (\<lambda>(sh, se, su). subsection_column lang su) nodes))),
      fx_publish_statuses =
        sort_key (\<lambda>s. if s = DRAFT then (0::int) else 1) (remdups (map im_publish_status (items d)))\<rparr>)"

definition list_workspace_filter_options :: "language \<Rightarrow> filter_options dbm" where
  "list_workspace_filter_options lang = list_competency_matrix_workspace_filter_options lang"

section \<open>Wiki links\<close>

datatype wiki_link_target_type = TARGET_ARTICLES | TARGET_MATRIX

record wiki_link_target =
  wt_slug :: pystr
  wt_title :: pystr
  wt_publish_status :: publish_status

record wiki_link_target_group =
  wg_type :: wiki_link_target_type
  wg_items :: "wiki_link_target list"

definition list_targets :: "language \<Rightarrow> wiki_link_target_group list dbm" where
  "list_targets lang =
     bind (list_tree_items False lang) (\<lambda>article_items.
     bind (list_competency_matrix_items \<lparr>mf_sheet_key = None, mf_only_published = Some False\<rparr>) (\<lambda>matrix_items.
     ret [\<lparr>wg_type = TARGET_ARTICLES, wg_items = map (\<lambda>a.
            \<lparr>wt_slug = td_slug a, wt_title = td_title a, wt_publish_status = td_publish_status a\<rparr>) article_items\<rparr>,
          \<lparr>wg_type = TARGET_MATRIX, wg_items = map (\<lambda>i.
            \<lparr>wt_slug = ns_sheet_key (mi_structure i) @ u '':'' @ mi_slug i,
             wt_title = localized lang (mi_question_ru i) (mi_question_en i),
             wt_publish_status = mi_publish_status i\<rparr>) matrix_items\<rparr>]))"

end
