(* ===== verification/Workspace_Properties.thy ===== *)
theory Workspace_Properties
  imports Matrix_Workspace
begin

text \<open>
  The lists of the matrix: the public list and the sitemap show exactly the published questions, the
  pages of the workspace cut one total order into pieces, its summary adds up, and the conditions of the
  database agree with the rules of the domain except where they do not.
\<close>

section \<open>One row per question\<close>

lemma unique_pick:
  "distinct (map key xs) \<Longrightarrow> r \<in> set xs \<Longrightarrow> concat (map (\<lambda>x. if key x = key r then f x else []) xs) = f r"
proof (induction xs)
  case (Cons x xs)
  show ?case
  proof (cases "x = r")
    case True
    then have "\<forall>y \<in> set xs. key y \<noteq> key r" using Cons.prems(1) by (metis distinct.simps(2) image_eqI list.set_map list.simps(9))
    then have "concat (map (\<lambda>y. if key y = key r then f y else []) xs) = []" by simp
    then show ?thesis using True by simp
  next
    case False
    then show ?thesis using Cons by auto
  qed
qed simp

lemma join_once:
  assumes inv: "matrix_inv h d"
  shows "map fst (join_structure d) = items d"
proof -
  let ?row = "\<lambda>i. concat (map (\<lambda>su. if su_id su = im_subsection_id i then
    concat (map (\<lambda>se. if se_id se = su_section_id su then
      concat (map (\<lambda>sh. if sh_id sh = se_sheet_id se then [(i, su, se, sh)] else []) (sheets d)) else []) (sections d))
    else []) (subsections d))"
  have row: "map fst (?row i) = [i]" if i: "i \<in> set (items d)" for i
  proof -
    have "(im_subsection_id i, im_sheet_id i) \<in> subsection_sheets d" using subsetD[OF item_facts(3)[OF inv]] i by simp
    then obtain su se where su: "su \<in> set (subsections d)" "su_id su = im_subsection_id i"
      and se: "se \<in> set (sections d)" "se_id se = su_section_id su"
      unfolding subsection_sheets_def by auto
    have "se_sheet_id se \<in> sh_id ` set (sheets d)" using subsetD[OF structure_facts(5)[OF inv]] se(1) by simp
    then obtain sh where sh: "sh \<in> set (sheets d)" "sh_id sh = se_sheet_id se" by auto
    note pick = unique_pick[OF structure_facts(1)[OF inv] sh(1), of "\<lambda>sh. [(i, su, se, sh)]", unfolded sh(2)]
      unique_pick[OF structure_facts(2)[OF inv] se(1), of "\<lambda>se. concat (map (\<lambda>sh. if sh_id sh = se_sheet_id se
        then [(i, su, se, sh)] else []) (sheets d))", unfolded se(2)]
      unique_pick[OF structure_facts(3)[OF inv] su(1), of "\<lambda>su. concat (map (\<lambda>se. if se_id se = su_section_id su then
        concat (map (\<lambda>sh. if sh_id sh = se_sheet_id se then [(i, su, se, sh)] else []) (sheets d)) else []) (sections d))", unfolded su(2)]
    show ?thesis unfolding pick(3) pick(2) pick(1) by simp
  qed
  have "map fst (concat (map ?row is)) = is" if "set is \<subseteq> set (items d)" for "is"
    using that by (induction "is") (simp_all add: row)
  moreover have "join_structure d = concat (map ?row (items d))"
    by (simp add: join_structure_def)
  ultimately show ?thesis by simp
qed

lemma joined_items:
  assumes "matrix_inv h d" "r \<in> set (join_structure d)"
  shows "fst r \<in> set (items d)"
  using arg_cong[OF join_once[OF assms(1)], of set] assms(2) by auto

lemma joined_same:
  assumes inv: "matrix_inv h d" and r: "r \<in> set (join_structure d)" "r' \<in> set (join_structure d)"
    and id: "im_id (fst r) = im_id (fst r')"
  shows "r = r'"
proof -
  have "map (\<lambda>r. im_id (fst r)) (join_structure d) = map im_id (items d)"
    using arg_cong[OF join_once[OF inv], of "map im_id"] by (simp add: comp_def)
  then have "distinct (map (\<lambda>r. im_id (fst r)) (join_structure d))" using item_facts(1)[OF inv] by simp
  then show ?thesis using same_row[of "\<lambda>r. im_id (fst r)" "join_structure d" r r'] r id by simp
qed

section \<open>Orders\<close>

definition workspace_rows :: "workspace_filters \<Rightarrow> db \<Rightarrow> item_row list" where
  "workspace_rows f d = sort_key (workspace_ordering f) (filter (workspace_filter_conditions f) (join_structure d))"

text \<open>Every order ends with the identifier of the question.\<close>

lemma ordering_ends_with_id: "last (workspace_ordering f r) \<in> {Asc (im_id (fst r)), Desc (im_id (fst r))}"
  by (cases r; cases "wf_sort f") (simp_all add: workspace_ordering_def item_default_ordering_def Let_def)

lemma ordering_inj:
  assumes "matrix_inv h d"
  shows "inj_on (workspace_ordering f) (set (join_structure d))"
proof (rule inj_onI)
  fix r r' assume r: "r \<in> set (join_structure d)" "r' \<in> set (join_structure d)"
    and eq: "workspace_ordering f r = workspace_ordering f r'"
  have "im_id (fst r) = im_id (fst r')"
    using ordering_ends_with_id[of f r] ordering_ends_with_id[of f r'] eq by auto
  then show "r = r'" by (rule joined_same[OF assms r])
qed

lemma workspace_rows_strict:
  assumes inv: "matrix_inv h d"
  shows "sorted_wrt (<) (map (workspace_ordering f) (workspace_rows f d))"
proof -
  let ?rows = "filter (workspace_filter_conditions f) (join_structure d)"
  have "distinct (join_structure d)"
    using join_once[OF inv] item_facts(1)[OF inv] distinct_map by metis
  then have "distinct (map (workspace_ordering f) ?rows)"
    using ordering_inj[OF inv, of f] by (auto simp: distinct_map intro: inj_on_subset)
  then have "distinct (map (workspace_ordering f) (workspace_rows f d))"
    unfolding workspace_rows_def by (simp add: distinct_map)
  moreover have "sorted (map (workspace_ordering f) (workspace_rows f d))" by (simp add: workspace_rows_def)
  ultimately show ?thesis by (simp add: strict_sorted_iff)
qed

section \<open>Pages\<close>

lemma workspace_item_total:
  assumes "matrix_inv h d" "r \<in> set (join_structure d)"
  shows "\<exists>w. to_workspace_item d lang (fst r) = Inr w \<and> wi_id w = im_id (fst r)"
proof -
  obtain it where "item_to_domain d [] (fst r) = Inr it"
    using item_to_domain_total[OF assms(1) joined_items[OF assms], of "[]"] by auto
  moreover from this have "mi_id it = im_id (fst r)" by (auto simp: item_to_domain_def split: sum.splits)
  ultimately show ?thesis by (simp add: to_workspace_item_def)
qed

lemma workspace_page_run:
  assumes inv: "matrix_inv h d" and page: "wf_page f = int i + 1" "wf_page_size f = int k" and k: "0 < k"
  shows "\<exists>w. list_workspace_items f d = (Inr w, d)
    \<and> map wi_id (wk_values w) = map (\<lambda>r. im_id (fst r)) (take k (drop (i * k) (workspace_rows f d)))
    \<and> wk_total_count w = int (length (workspace_rows f d))
    \<and> wk_total_pages w = (int (length (workspace_rows f d)) + int k - 1) div int k
    \<and> wk_summary w = summarize (filter (workspace_filter_conditions f) (join_structure d))"
proof -
  let ?rows = "workspace_rows f d" and ?item = "\<lambda>r. to_workspace_item d (wf_language f) (fst r)"
  let ?win = "take k (drop (i * k) ?rows)"
  have "set ?win \<subseteq> set (join_structure d)"
    by (auto simp: workspace_rows_def dest!: in_set_takeD in_set_dropD)
  then obtain g where g: "\<And>r. r \<in> set ?win \<Longrightarrow> ?item r = Inr (g r) \<and> wi_id (g r) = im_id (fst r)"
    using bchoice[of "set ?win" "\<lambda>r w. ?item r = Inr w \<and> wi_id w = im_id (fst r)"] workspace_item_total[OF inv] by blast
  then have all: "all_or_error (map ?item ?win) = Inr (map g ?win)" by (intro all_or_error_total) blast
  have ids: "map wi_id (map g ?win) = map (\<lambda>r. im_id (fst r)) ?win" using g by simp
  have lim: "limit_rows (workspace_offset f) (workspace_limit f) ?rows = Inr ?win"
    by (simp add: limit_rows_def workspace_offset_def workspace_limit_def page nat_mult_distrib not_less)
  have count: "length (filter (workspace_filter_conditions f) (join_structure d)) = length ?rows"
    by (simp add: workspace_rows_def)
  have store: "list_competency_matrix_workspace_items f d =
      (Inr (map g ?win, int (length ?rows), summarize (filter (workspace_filter_conditions f) (join_structure d))), d)"
    unfolding list_competency_matrix_workspace_items_def workspace_summary_of_def run_simps
      workspace_rows_def[symmetric] lim prod.case sum.case all count ..
  show ?thesis
    using store ids k ceil_div[of "int (length ?rows)" k]
    by (simp add: list_workspace_items_def run_simps workspace_from_page_def page)
qed

lemma workspace_rows_page [simp]:
  "workspace_rows (f\<lparr>wf_page := a, wf_page_size := b\<rparr>) d = workspace_rows f d"
proof -
  have "workspace_ordering (f\<lparr>wf_page := a, wf_page_size := b\<rparr>) = workspace_ordering f"
    by (simp add: fun_eq_iff workspace_ordering_def)
  moreover have "workspace_filter_conditions (f\<lparr>wf_page := a, wf_page_size := b\<rparr>) = workspace_filter_conditions f"
    by (simp add: fun_eq_iff workspace_filter_conditions_def workspace_dimension_filter_conditions_def
      workspace_state_filter_conditions_def Let_def split: option.split)
  ultimately show ?thesis by (simp add: workspace_rows_def)
qed

text \<open>C21: for every filter and every sort the workspace has one strict order of the matching questions,
  which does not depend on how the rows are stored; every page is served with the full count and the
  number of pages, and the pages one after the other are exactly those questions in that order.\<close>

theorem workspace_pages_partition:
  assumes inv: "matrix_inv h d" and k: "0 < k"
  shows "sorted_wrt (<) (map (workspace_ordering f) (workspace_rows f d))
    \<and> set (workspace_rows f d) = {r \<in> set (join_structure d). workspace_filter_conditions f r}
    \<and> (\<exists>pages. (\<forall>i < length pages.
          list_workspace_items (f\<lparr>wf_page := int i + 1, wf_page_size := int k\<rparr>) d = (Inr (pages ! i), d)
          \<and> wk_total_count (pages ! i) = int (length (workspace_rows f d))
          \<and> wk_total_pages (pages ! i) = int (length pages))
        \<and> concat (map (\<lambda>w. map wi_id (wk_values w)) pages) = map (\<lambda>r. im_id (fst r)) (workspace_rows f d))"
proof -
  let ?rows = "workspace_rows f d" and ?f = "\<lambda>i. f\<lparr>wf_page := int i + 1, wf_page_size := int k\<rparr>"
  let ?n = "(length ?rows + k - 1) div k"
  have "int ?n = (int (length ?rows) + int k - 1) div int k" using k by (simp add: zdiv_int of_nat_diff)
  then have "\<exists>w. list_workspace_items (?f i) d = (Inr w, d)
      \<and> map wi_id (wk_values w) = map (\<lambda>r. im_id (fst r)) (take k (drop (i * k) ?rows))
      \<and> wk_total_count w = int (length ?rows) \<and> wk_total_pages w = int ?n" for i
    using workspace_page_run[OF inv _ _ k, of "?f i" i] by auto
  then obtain w where w: "\<And>i. list_workspace_items (?f i) d = (Inr (w i), d)"
    "\<And>i. map wi_id (wk_values (w i)) = map (\<lambda>r. im_id (fst r)) (take k (drop (i * k) ?rows))"
    "\<And>i. wk_total_count (w i) = int (length ?rows)" "\<And>i. wk_total_pages (w i) = int ?n"
    by metis
  have "concat (map (\<lambda>w. map wi_id (wk_values w)) (map w [0..<?n])) = map (\<lambda>r. im_id (fst r)) ?rows"
    using all_windows[OF k, of "map (\<lambda>r. im_id (fst r)) ?rows"] by (simp add: comp_def w(2) take_map drop_map)
  then have "\<exists>pages. (\<forall>i < length pages. list_workspace_items (?f i) d = (Inr (pages ! i), d)
        \<and> wk_total_count (pages ! i) = int (length ?rows) \<and> wk_total_pages (pages ! i) = int (length pages))
      \<and> concat (map (\<lambda>w. map wi_id (wk_values w)) pages) = map (\<lambda>r. im_id (fst r)) ?rows"
    by (intro exI[of _ "map w [0..<?n]"]) (simp add: w)
  moreover have "set ?rows = {r \<in> set (join_structure d). workspace_filter_conditions f r}"
    by (simp add: workspace_rows_def)
  ultimately show ?thesis using workspace_rows_strict[OF inv] by blast
qed

definition sample_workspace :: workspace_filters where
  "sample_workspace = \<lparr>wf_page = 1, wf_page_size = 10, wf_language = EN, wf_sort = SORT_NEWEST, wf_search_query = None,
     wf_sheet_keys = [], wf_grades = [], wf_interview_frequencies = [], wf_section_ids = [], wf_subsection_ids = [],
     wf_sections = [], wf_subsections = [], wf_publish_statuses = [], wf_published_from = None, wf_published_to = None,
     wf_has_missing_fields = Some False\<rparr>"

theorem workspace_pages_partition_witness:
  "\<exists>pages :: workspace list. concat (map (\<lambda>w. map wi_id (wk_values w)) pages) =
    map (\<lambda>r. im_id (fst r)) (workspace_rows sample_workspace sample_matrix)"
  using workspace_pages_partition[OF sample_inv zero_less_one, of sample_workspace] by blast

section \<open>The summary\<close>

lemma sql_missing_not_ready: "workspace_missing_condition m \<Longrightarrow> \<not> ready m"
  using sql_blank_imp_blank
  by (auto simp: workspace_missing_condition_def workspace_missing_field_conditions_def blank_text_condition_def
    ready_def is_blank_def)

lemma published_not_missing:
  assumes "matrix_inv h d" "r \<in> set (join_structure d)" "im_publish_status (fst r) = PUBLISHED"
  shows "ready (fst r)" "\<not> workspace_missing_condition (fst r)"
  using item_facts(4)[OF assms(1) joined_items[OF assms(1,2)]] assms(3) sql_missing_not_ready
  by (auto simp: item_ok_def)

lemma not_draft: "s \<noteq> DRAFT \<longleftrightarrow> s = PUBLISHED"
  by (cases s) simp_all

lemma count_mono: "(\<And>i. p i \<Longrightarrow> q i) \<Longrightarrow> count_rows p rows \<le> count_rows q rows"
  by (induction rows) (auto simp: count_rows_def)

lemma count_split: "count_rows p rows + count_rows (\<lambda>i. \<not> p i) rows = int (length rows)"
  unfolding count_rows_def using sum_length_filter_compl[of "\<lambda>r. p (fst r)" rows] by linarith

lemma item_domain_fields:
  assumes "item_to_domain d links m = Inr it"
  shows "mi_id it = im_id m" "mi_publish_status it = im_publish_status m" "missing_publication_fields it = [] \<longleftrightarrow> ready m"
  using assms by (auto simp: item_to_domain_def missing_Nil_iff ready_def split: sum.splits)

lemma shown_missing:
  assumes "to_workspace_item d lang m = Inr w"
  shows "wi_publish_status w = im_publish_status m" "wi_missing_fields w = [] \<longleftrightarrow> ready m"
proof -
  obtain it where it: "item_to_domain d [] m = Inr it" "wi_publish_status w = mi_publish_status it"
      "wi_missing_fields w = missing_publication_fields it"
    using assms by (auto simp: to_workspace_item_def split: sum.splits)
  then show "wi_publish_status w = im_publish_status m" "wi_missing_fields w = [] \<longleftrightarrow> ready m"
    using item_domain_fields[OF it(1)] by simp_all
qed

text \<open>The questions that match the filters of the workspace, and a question that lacks what it needs to be published.\<close>

definition matching_questions :: "workspace_filters \<Rightarrow> db \<Rightarrow> item_model set" where
  "matching_questions f d = fst ` {r \<in> set (join_structure d). workspace_filter_conditions f r}"

definition unfinished :: "item_model \<Rightarrow> bool" where
  "unfinished i \<longleftrightarrow> im_grade i = None \<or> (\<exists>t \<in> {im_slug i, im_question_ru i, im_question_en i, im_answer_ru i, im_answer_en i,
     im_explanation_ru i, im_explanation_en i}. set t \<subseteq> {32})"

lemma sql_blank: "blank_text_condition t \<longleftrightarrow> set t \<subseteq> {32}"
  by (auto simp: blank_text_condition_def sql_trim_def strip_by_Nil_iff)

lemma unfinished_missing: "workspace_missing_condition i \<longleftrightarrow> unfinished i"
  by (auto simp: workspace_missing_condition_def workspace_missing_field_conditions_def sql_blank unfinished_def)

lemma count_matching:
  assumes inv: "matrix_inv h d"
  shows "count_rows p (filter (workspace_filter_conditions f) (join_structure d)) = int (card {i \<in> matching_questions f d. p i})"
proof -
  let ?rows = "filter (\<lambda>r. p (fst r)) (filter (workspace_filter_conditions f) (join_structure d))"
  have "distinct (items d)" using item_facts(1)[OF inv] by (simp add: distinct_map)
  then have "distinct (map fst (join_structure d))" using join_once[OF inv] by simp
  then have "distinct (map fst ?rows)" by (intro distinct_map_filter)
  then have "card (set (map fst ?rows)) = length ?rows" by (metis distinct_card length_map)
  moreover have "set (map fst ?rows) = {i \<in> matching_questions f d. p i}" by (auto simp: matching_questions_def)
  ultimately show ?thesis by (simp add: count_rows_def)
qed

text \<open>C22: whatever page of the workspace is served, its summary counts exactly the matching questions of all pages: how
  many there are, how many of them are drafts, unfinished drafts and published.  No published question is unfinished, so
  none is counted or shown as such.\<close>

theorem workspace_summary_sound:
  assumes inv: "matrix_inv h d" and run: "list_workspace_items f d = (Inr w, d')"
  shows "d' = d \<and> wk_total_count w = int (card (matching_questions f d))
    \<and> wk_summary w =
        \<lparr>ws_total = int (card (matching_questions f d)),
         ws_draft = int (card {i \<in> matching_questions f d. im_publish_status i = DRAFT}),
         ws_missing_draft = int (card {i \<in> matching_questions f d. im_publish_status i = DRAFT \<and> unfinished i}),
         ws_dangerous_published = 0,
         ws_ready_published = int (card {i \<in> matching_questions f d. im_publish_status i = PUBLISHED})\<rparr>
    \<and> (\<forall>v \<in> set (wk_values w). wi_publish_status v = PUBLISHED \<longrightarrow> wi_missing_fields v = [])"
proof -
  let ?rows = "filter (workspace_filter_conditions f) (join_structure d)"
  obtain page where state: "d' = d" "wk_summary w = summarize ?rows" "wk_total_count w = int (length ?rows)"
    and page: "limit_rows (workspace_offset f) (workspace_limit f) (sort_key (workspace_ordering f) ?rows) = Inr page"
      "all_or_error (map (\<lambda>r. to_workspace_item d (wf_language f) (fst r)) page) = Inr (wk_values w)"
    using run by (auto simp: list_workspace_items_def list_competency_matrix_workspace_items_def workspace_summary_of_def
      workspace_from_page_def run_simps split: sum.splits if_splits)
  have sub: "set page \<subseteq> set (join_structure d)"
    using page(1) by (auto simp: limit_rows_def split: if_splits dest!: in_set_takeD in_set_dropD)
  have total: "int (length ?rows) = int (card (matching_questions f d))"
    using count_matching[OF inv, of "\<lambda>_. True" f] by (simp add: count_rows_def)
  have "\<not> workspace_missing_condition i" if "i \<in> matching_questions f d" "im_publish_status i = PUBLISHED" for i
    using that published_not_missing(2)[OF inv] by (auto simp: matching_questions_def)
  then have none: "{i \<in> matching_questions f d. im_publish_status i = PUBLISHED \<and> workspace_missing_condition i} = {}"
    and all: "{i \<in> matching_questions f d. im_publish_status i = PUBLISHED \<and> \<not> workspace_missing_condition i} =
      {i \<in> matching_questions f d. im_publish_status i = PUBLISHED}" by auto
  have "summarize ?rows =
        \<lparr>ws_total = int (card (matching_questions f d)),
         ws_draft = int (card {i \<in> matching_questions f d. im_publish_status i = DRAFT}),
         ws_missing_draft = int (card {i \<in> matching_questions f d. im_publish_status i = DRAFT \<and> unfinished i}),
         ws_dangerous_published = 0,
         ws_ready_published = int (card {i \<in> matching_questions f d. im_publish_status i = PUBLISHED})\<rparr>"
    unfolding summarize_def Let_def count_matching[OF inv] total none all unfinished_missing[symmetric] by simp
  moreover have "wi_missing_fields v = []" if v: "v \<in> set (wk_values w)" "wi_publish_status v = PUBLISHED" for v
  proof -
    obtain r where r: "r \<in> set page" "to_workspace_item d (wf_language f) (fst r) = Inr v"
      using page(2) v(1) arg_cong[of _ _ set] unfolding all_or_error_Inr by (metis (no_types, lifting) imageE image_eqI list.set_map)
    then have "r \<in> set (join_structure d)" using sub by blast
    then show ?thesis using shown_missing[OF r(2)] published_not_missing(1)[OF inv, of r] v(2) by simp
  qed
  ultimately show ?thesis using state total by simp
qed

theorem workspace_summary_sound_witness:
  "\<exists>w. list_workspace_items sample_workspace sample_matrix = (Inr w, sample_matrix)
    \<and> ws_total (wk_summary w) = 1 \<and> ws_ready_published (wk_summary w) = 1 \<and> ws_draft (wk_summary w) = 0"
proof -
  obtain w where "list_workspace_items sample_workspace sample_matrix = (Inr w, sample_matrix)"
    using workspace_page_run[OF sample_inv, of sample_workspace 0 10] by (auto simp: sample_workspace_def)
  note run = this
  have "map fst (filter (workspace_filter_conditions sample_workspace) (join_structure sample_matrix)) = [sample_item]" by code_simp
  from arg_cong[OF this, of set] have "matching_questions sample_workspace sample_matrix = {sample_item}"
    unfolding matching_questions_def set_map set_filter list.set .
  moreover have "im_publish_status sample_item = PUBLISHED" by (simp add: sample_item_def)
  ultimately have "card {i \<in> matching_questions sample_workspace sample_matrix. im_publish_status i = DRAFT} = 0"
    "{i \<in> matching_questions sample_workspace sample_matrix. im_publish_status i = PUBLISHED} = {sample_item}"
    "card (matching_questions sample_workspace sample_matrix) = 1"
    by auto
  then show ?thesis using run workspace_summary_sound[OF sample_inv run] by (intro exI[of _ w]) simp
qed

section \<open>Two notions of a blank text\<close>

text \<open>A draft whose Russian answer is a tab.\<close>

definition tab_draft :: item_model where
  "tab_draft = sample_item\<lparr>im_answer_ru := [9], im_publish_status := DRAFT, im_published_at := None\<rparr>"

definition tab_matrix :: db where
  "tab_matrix = sample_matrix\<lparr>items := [tab_draft]\<rparr>"

text \<open>C37: the database trims spaces only, the domain strips every white space: the workspace can list a
  question under the filter for complete questions and show at the same time that fields of it are missing.\<close>

theorem complete_filter_shows_incomplete:
  "\<exists>w. list_workspace_items sample_workspace tab_matrix = (Inr w, tab_matrix)
     \<and> wf_has_missing_fields sample_workspace = Some False
     \<and> map wi_missing_fields (wk_values w) = [[MF_ANSWER_RU]]"
proof -
  let ?row = "(tab_draft, sample_subsection, sample_section, sample_sheet)"
  let ?st = "\<lparr>ns_sheet_id = u ''id0'', ns_sheet_key = u ''py'', ns_sheet_ru = u ''P'', ns_sheet_en = u ''P'', ns_section_id = u ''id0'',
    ns_section_ru = u ''S'', ns_section_en = u ''S'', ns_subsection_id = u ''id0'', ns_subsection_ru = u ''T'', ns_subsection_en = u ''T''\<rparr>"
  have rows: "join_structure tab_matrix = [?row]"
    by (simp add: join_structure_def tab_matrix_def sample_matrix_def sample_tree_def sample_sheet_def sample_section_def
      sample_subsection_def tab_draft_def sample_item_def)
  have complete: "\<not> workspace_missing_condition tab_draft"
    by (simp add: workspace_missing_condition_def workspace_missing_field_conditions_def blank_text_condition_def
      tab_draft_def sample_item_def sql_trim_def strip_by_def u_def)
  have kept: "workspace_filter_conditions sample_workspace ?row"
    using complete by (simp add: workspace_filter_conditions_def workspace_dimension_filter_conditions_def
      workspace_state_filter_conditions_def sample_workspace_def selected_in_def)
  have str: "to_item_structure tab_matrix sample_subsection = Inr ?st"
    by (simp add: to_item_structure_def tab_matrix_def sample_matrix_def sample_tree_def sample_sheet_def sample_section_def
      sample_subsection_def row_by_def require_def)
  have found: "require AttributeError (row_by su_id (im_subsection_id tab_draft) (subsections tab_matrix)) = Inr sample_subsection"
    by (simp add: tab_matrix_def sample_matrix_def sample_tree_def sample_subsection_def tab_draft_def sample_item_def
      row_by_def require_def)
  obtain it where it: "item_to_domain tab_matrix [] tab_draft = Inr it" "mi_slug it = u ''gil''" "mi_grade it = Some JUNIOR"
      "mi_question_ru it = u ''Q''" "mi_question_en it = u ''Q''" "mi_answer_ru it = [9]" "mi_answer_en it = u ''A''"
      "mi_explanation_ru it = u ''E''" "mi_explanation_en it = u ''E''"
    using found str by (simp add: item_to_domain_def tab_draft_def sample_item_def)
  have "missing_publication_fields it = [MF_ANSWER_RU]"
    unfolding missing_publication_fields_def it by (simp add: u_def strip_def strip_by_def is_space_def)
  then obtain v where v: "to_workspace_item tab_matrix EN tab_draft = Inr v" "wi_missing_fields v = [MF_ANSWER_RU]"
    using it(1) by (simp add: to_workspace_item_def)
  have fields: "wf_page sample_workspace = 1" "wf_page_size sample_workspace = 10" "wf_language sample_workspace = EN"
      "wf_has_missing_fields sample_workspace = Some False"
    by (simp_all add: sample_workspace_def)
  have page: "limit_rows (workspace_offset sample_workspace) (workspace_limit sample_workspace) [?row] = Inr [?row]"
    by (simp add: limit_rows_def workspace_offset_def workspace_limit_def fields)
  have items: "all_or_error (map (\<lambda>r. to_workspace_item tab_matrix EN (fst r)) [?row]) = Inr [v]" using v(1) by simp
  have "list_competency_matrix_workspace_items sample_workspace tab_matrix = (Inr ([v], 1, summarize [?row]), tab_matrix)"
    using kept page items by (simp add: list_competency_matrix_workspace_items_def workspace_summary_of_def run_simps rows fields)
  then have "list_workspace_items sample_workspace tab_matrix =
      (Inr \<lparr>wk_values = [v], wk_total_count = 1, wk_total_pages = 1, wk_summary = summarize [?row]\<rparr>, tab_matrix)"
    by (simp add: list_workspace_items_def workspace_from_page_def run_simps fields)
  then show ?thesis using v(2) fields(4) by simp
qed

section \<open>Public lists\<close>

lemma joined_sheet:
  assumes inv: "matrix_inv h d" and r: "(i, su, se, sh) \<in> set (join_structure d)"
  shows "sh \<in> set (sheets d)" "sh_id sh = im_sheet_id i"
proof -
  show "sh \<in> set (sheets d)" using r by (auto simp: join_structure_def)
  have i: "i \<in> set (items d)" using joined_items[OF inv r] by simp
  then have "(im_subsection_id i, im_sheet_id i) \<in> subsection_sheets d" using subsetD[OF item_facts(3)[OF inv]] by simp
  then obtain se' where "se' \<in> set (sections d)" "im_sheet_id i = se_sheet_id se'" by (auto simp: subsection_sheets_def)
  then have "im_sheet_id i \<in> sh_id ` set (sheets d)" using subsetD[OF structure_facts(5)[OF inv]] by simp
  then obtain sh' where sh': "sh' \<in> set (sheets d)" "sh_id sh' = im_sheet_id i" by auto
  then obtain su' se'' where "(i, su', se'', sh') \<in> set (join_structure d)" using joined_item[OF inv i] by blast
  from joined_same[OF inv r this] have "sh = sh'" by simp
  then show "sh_id sh = im_sheet_id i" using sh'(2) by simp
qed

text \<open>
  Where the structure puts a question: its sheet, section and subsection by priority, then by identifier, inside the
  subsection by grade, questions without a grade last, then by the identifier of the question.
\<close>

type_synonym place = "(int \<times> pystr) \<times> (int \<times> pystr) \<times> (int \<times> pystr) \<times> (int \<times> int) \<times> pystr"

definition priority_of :: "('r \<Rightarrow> pystr) \<Rightarrow> ('r \<Rightarrow> int) \<Rightarrow> 'r list \<Rightarrow> pystr \<Rightarrow> int" where
  "priority_of key prio rows k = (case row_by key k rows of None \<Rightarrow> 0 | Some r \<Rightarrow> prio r)"

definition grade_place :: "grade option \<Rightarrow> int \<times> int" where
  "grade_place g = (case g of None \<Rightarrow> (1, 0) | Some x \<Rightarrow> (0, grade_index x))"

definition matrix_place :: "db \<Rightarrow> matrix_item \<Rightarrow> place" where
  "matrix_place d it =
     (let st = mi_structure it in
      ((priority_of sh_id sh_priority (sheets d) (ns_sheet_id st), ns_sheet_id st),
       (priority_of se_id se_priority (sections d) (ns_section_id st), ns_section_id st),
       (priority_of su_id su_priority (subsections d) (ns_subsection_id st), ns_subsection_id st),
       grade_place (mi_grade it), mi_id it))"

definition row_place :: "item_row \<Rightarrow> place" where
  "row_place = (\<lambda>(i, su, se, sh).
     ((sh_priority sh, sh_id sh), (se_priority se, se_id se), (su_priority su, su_id su), grade_place (im_grade i), im_id i))"

lemma row_place_ordered: "row_place r \<le> row_place r' \<longleftrightarrow> item_default_ordering r \<le> item_default_ordering r'"
proof -
  obtain i su se sh i' su' se' sh' where r: "r = (i, su, se, sh)" "r' = (i', su', se', sh')" by (cases r; cases r') auto
  have num: "Num a < Num b \<longleftrightarrow> a < b" "Asc x < Asc y \<longleftrightarrow> x < y" for a b x y by (auto simp: less_order_value_def)
  have grade: "nulls_last (map_option grade_index g) < nulls_last (map_option grade_index g') \<longleftrightarrow> grade_place g < grade_place g'"
    "nulls_last (map_option grade_index g) = nulls_last (map_option grade_index g') \<longleftrightarrow> grade_place g = grade_place g'" for g g'
    by (cases g; cases g'; simp add: nulls_last_def grade_place_def less_order_value_def less_le_not_le)+
  have pairs: "(a, b) \<le> (a', b') \<longleftrightarrow> a < a' \<or> a = a' \<and> b \<le> b'" "(a, b) < (a', b') \<longleftrightarrow> a < a' \<or> a = a' \<and> b < b'"
    for a a' :: "'a :: linorder" and b b' :: "'b :: linorder" by auto
  show ?thesis
    unfolding r row_place_def item_default_ordering_def structure_ordering_def case_prod_conv fst_conv append.simps
      list_le_def[symmetric] Cons_le_Cons num grade pairs prod.inject order_value.inject
    by (auto simp: order.order_iff_strict)
qed

lemma placed_row:
  assumes inv: "matrix_inv h d" and r: "r \<in> set (join_structure d)" and it: "item_to_domain d [] (fst r) = Inr it"
  shows "matrix_place d it = row_place r"
proof -
  obtain i su se sh where row: "r = (i, su, se, sh)" by (cases r) auto
  have tables: "su \<in> set (subsections d)" "su_id su = im_subsection_id i" "se \<in> set (sections d)" "se_id se = su_section_id su"
    "sh \<in> set (sheets d)" "sh_id sh = se_sheet_id se"
    using r by (auto simp: row join_structure_def)
  have found: "row_by su_id (im_subsection_id i) (subsections d) = Some su" "row_by se_id (su_section_id su) (sections d) = Some se"
    "row_by sh_id (se_sheet_id se) (sheets d) = Some sh"
    using tables structure_facts(1-3)[OF inv] by (simp_all add: row_by_Some_iff)
  have st: "to_item_structure d su = Inr (mi_structure it)" "mi_grade it = im_grade i" "mi_id it = im_id i"
    using it found(1) by (auto simp: row item_to_domain_def require_def split: sum.splits)
  have "\<exists>x. to_item_structure d su = Inr x \<and> ns_sheet_id x = sh_id sh \<and> ns_section_id x = se_id se \<and> ns_subsection_id x = su_id su"
    using found(2,3) by (simp add: to_item_structure_def require_def)
  then have "ns_sheet_id (mi_structure it) = sh_id sh" "ns_section_id (mi_structure it) = se_id se" "ns_subsection_id (mi_structure it) = su_id su"
    using st(1) by auto
  then show ?thesis
    using found tables st(2,3) by (simp add: matrix_place_def priority_of_def row_place_def row Let_def)
qed

lemma listed_items:
  assumes inv: "matrix_inv h d"
  shows "\<exists>its. list_competency_matrix_items f d = (Inr its, d)
    \<and> map mi_id its = map (\<lambda>r. im_id (fst r)) (sort_key item_default_ordering (filter (item_filter f) (join_structure d)))
    \<and> (\<forall>it \<in> set its. \<exists>r \<in> set (join_structure d). item_filter f r \<and> item_to_domain d [] (fst r) = Inr it)
    \<and> sorted (map (matrix_place d) its)"
proof -
  let ?rows = "sort_key item_default_ordering (filter (item_filter f) (join_structure d))"
  have sub: "set ?rows = {r \<in> set (join_structure d). item_filter f r}" by simp
  have "\<forall>r \<in> set ?rows. \<exists>it. item_to_domain d [] (fst r) = Inr it"
    using item_to_domain_total[OF inv joined_items[OF inv], of _ "[]"] by auto
  from bchoice[OF this] obtain g where g: "\<And>r. r \<in> set ?rows \<Longrightarrow> item_to_domain d [] (fst r) = Inr (g r)" by blast
  then have "all_or_error (map (\<lambda>r. item_to_domain d [] (fst r)) ?rows) = Inr (map g ?rows)" by (rule all_or_error_total)
  then have run: "list_competency_matrix_items f d = (Inr (map g ?rows), d)"
    by (simp add: list_competency_matrix_items_def run_simps)
  have "mi_id (g r) = im_id (fst r)" if "r \<in> set ?rows" for r
    by (rule item_domain_fields(1)[OF g[OF that]])
  then have ids: "map mi_id (map g ?rows) = map (\<lambda>r. im_id (fst r)) ?rows" by simp
  have "matrix_place d (g r) = row_place r" if "r \<in> set ?rows" for r
    using placed_row[OF inv _ g[OF that]] that by simp
  then have places: "map (matrix_place d) (map g ?rows) = map row_place ?rows" by simp
  have "sorted (map row_place ?rows)"
    using sorted_sort_key[of item_default_ordering] by (simp add: sorted_map row_place_ordered)
  then have "sorted (map (matrix_place d) (map g ?rows))" unfolding places .
  then show ?thesis using run g sub ids by (intro exI[of _ "map g ?rows"]) auto
qed

lemma published_available:
  assumes inv: "matrix_inv h d" and r: "r \<in> set (join_structure d)" "im_publish_status (fst r) = PUBLISHED"
    and it: "item_to_domain d [] (fst r) = Inr it"
  shows "item_is_available it"
  using item_domain_fields[OF it] published_not_missing(1)[OF inv r] r(2)
  by (simp add: item_is_available_def has_missing_publication_fields_def)

lemma public_list_run:
  assumes inv: "matrix_inv h d" and f: "mf_only_published f = Some True"
  shows "\<exists>its. list_competency_matrix_items f d = (Inr its, d) \<and> only_available its = its
    \<and> map mi_id its = map (\<lambda>r. im_id (fst r)) (sort_key item_default_ordering (filter (item_filter f) (join_structure d)))
    \<and> (\<forall>it \<in> set its. item_is_available it) \<and> sorted (map (matrix_place d) its)"
proof -
  obtain its where its: "list_competency_matrix_items f d = (Inr its, d)"
      "map mi_id its = map (\<lambda>r. im_id (fst r)) (sort_key item_default_ordering (filter (item_filter f) (join_structure d)))"
      "\<And>it. it \<in> set its \<Longrightarrow> \<exists>r \<in> set (join_structure d). item_filter f r \<and> item_to_domain d [] (fst r) = Inr it"
      "sorted (map (matrix_place d) its)"
    using listed_items[OF inv, of f] by blast
  have "item_is_available it" if it: "it \<in> set its" for it
  proof -
    obtain r where r: "r \<in> set (join_structure d)" "item_filter f r" "item_to_domain d [] (fst r) = Inr it"
      using its(3)[OF it] by blast
    then have "im_publish_status (fst r) = PUBLISHED" using f r(2) by (simp add: item_filter_def split_def)
    then show ?thesis using published_available[OF inv r(1) _ r(3)] by blast
  qed
  moreover from this have "only_available its = its" by (simp add: only_available_def filter_id_conv)
  ultimately show ?thesis using its(1,2,4) by blast
qed

text \<open>C23: the public list of a sheet and the rows of the sitemap hold exactly the published questions, of
  the sheet with that key without regard to case and of the whole matrix, each of them once and complete:
  nothing published is hidden and no draft is shown.  Both are in the order of the structure: by the priorities of the
  sheets, sections and subsections, then by grade, with identifiers deciding between equal priorities and grades.\<close>

theorem public_list_exact:
  assumes inv: "matrix_inv h d"
  shows "\<exists>its all. list_items \<lparr>mf_sheet_key = Some key, mf_only_published = Some True\<rparr> d = (Inr its, d)
    \<and> list_published_items_for_seo d = (Inr (to_published_for_seo all), d)
    \<and> (\<forall>it \<in> set its \<union> set all. item_is_available it)
    \<and> distinct (map mi_id its) \<and> distinct (map mi_id all)
    \<and> sorted (map (matrix_place d) its) \<and> sorted (map (matrix_place d) all)
    \<and> mi_id ` set its = {im_id i | i sh. i \<in> set (items d) \<and> im_publish_status i = PUBLISHED
        \<and> sh \<in> set (sheets d) \<and> sh_id sh = im_sheet_id i \<and> lower (sh_key sh) = lower key}
    \<and> mi_id ` set all = {im_id i | i. i \<in> set (items d) \<and> im_publish_status i = PUBLISHED}"
proof -
  let ?f = "\<lparr>mf_sheet_key = Some key, mf_only_published = Some True\<rparr>" and ?g = "\<lparr>mf_sheet_key = None, mf_only_published = Some True\<rparr>"
  obtain its where its: "list_competency_matrix_items ?f d = (Inr its, d)" "only_available its = its"
      "map mi_id its = map (\<lambda>r. im_id (fst r)) (sort_key item_default_ordering (filter (item_filter ?f) (join_structure d)))"
      "\<forall>it \<in> set its. item_is_available it" "sorted (map (matrix_place d) its)"
    using public_list_run[OF inv, of ?f] by auto
  obtain all where all: "list_competency_matrix_items ?g d = (Inr all, d)" "only_available all = all"
      "map mi_id all = map (\<lambda>r. im_id (fst r)) (sort_key item_default_ordering (filter (item_filter ?g) (join_structure d)))"
      "\<forall>it \<in> set all. item_is_available it" "sorted (map (matrix_place d) all)"
    using public_list_run[OF inv, of ?g] by auto
  have ids: "distinct (map (\<lambda>r. im_id (fst r)) (sort_key item_default_ordering (filter P (join_structure d))))" for P
  proof -
    have "map (\<lambda>r. im_id (fst r)) (join_structure d) = map im_id (items d)"
      using arg_cong[OF join_once[OF inv], of "map im_id"] by (simp add: comp_def)
    then have "distinct (map (\<lambda>r. im_id (fst r)) (join_structure d))" using item_facts(1)[OF inv] by simp
    then show ?thesis by (simp add: distinct_map inj_on_def)
  qed
  have "mi_id ` set its = (\<lambda>r. im_id (fst r)) ` {r \<in> set (join_structure d). item_filter ?f r}"
    using arg_cong[OF its(3), of set] by simp
  also have "\<dots> = {im_id i | i sh. i \<in> set (items d) \<and> im_publish_status i = PUBLISHED
        \<and> sh \<in> set (sheets d) \<and> sh_id sh = im_sheet_id i \<and> lower (sh_key sh) = lower key}" (is "?A = ?B")
  proof
    show "?A \<subseteq> ?B"
    proof
      fix x assume "x \<in> ?A"
      then obtain i su se sh where r: "(i, su, se, sh) \<in> set (join_structure d)" "item_filter ?f (i, su, se, sh)" "x = im_id i"
        by (auto split: prod.splits)
      have "i \<in> set (items d)" using joined_items[OF inv r(1)] by simp
      then show "x \<in> ?B" using r joined_sheet[OF inv r(1)] by (auto simp: item_filter_def)
    qed
    show "?B \<subseteq> ?A"
    proof
      fix x assume "x \<in> ?B"
      then obtain i sh where i: "i \<in> set (items d)" "im_publish_status i = PUBLISHED" "sh \<in> set (sheets d)"
        "sh_id sh = im_sheet_id i" "lower (sh_key sh) = lower key" "x = im_id i" by blast
      then obtain su se where "(i, su, se, sh) \<in> set (join_structure d)" using joined_item[OF inv] by blast
      moreover have "item_filter ?f (i, su, se, sh)" using i by (simp add: item_filter_def)
      ultimately show "x \<in> ?A" using i(6) by (intro rev_image_eqI[of "(i, su, se, sh)"]) simp_all
    qed
  qed
  finally have one: "mi_id ` set its = \<dots>" .
  have "mi_id ` set all = (\<lambda>r. im_id (fst r)) ` {r \<in> set (join_structure d). im_publish_status (fst r) = PUBLISHED}"
    using arg_cong[OF all(3), of set] by (auto simp: item_filter_def split_def)
  also have "\<dots> = im_id ` {i \<in> fst ` set (join_structure d). im_publish_status i = PUBLISHED}" by auto
  also have "fst ` set (join_structure d) = set (items d)" using arg_cong[OF join_once[OF inv], of set] by simp
  finally have two: "mi_id ` set all = {im_id i | i. i \<in> set (items d) \<and> im_publish_status i = PUBLISHED}" by auto
  have runs: "list_items ?f d = (Inr its, d)" "list_published_items_for_seo d = (Inr (to_published_for_seo all), d)"
    using its(1,2) all(1,2) by (simp_all add: list_items_def list_published_items_for_seo_def run_simps)
  have "distinct (map mi_id its)" "distinct (map mi_id all)" unfolding its(3) all(3) by (rule ids)+
  moreover have "\<forall>it \<in> set its \<union> set all. item_is_available it" using its(4) all(4) by (simp add: ball_Un)
  ultimately show ?thesis by (intro exI[of _ its] exI[of _ all] conjI runs one two its(5) all(5))
qed

theorem public_list_exact_witness:
  "\<exists>its. list_items \<lparr>mf_sheet_key = Some (u ''PY''), mf_only_published = Some True\<rparr> sample_matrix = (Inr its, sample_matrix)"
  using public_list_exact[OF sample_inv, of "u ''PY''"] by (elim exE conjE) (rule exI)

end
