(* ===== verification/Timestamps.thy ===== *)
theory Timestamps
  imports Analytics
begin

text \<open>
  \<open>datetime.isoformat\<close> of a timestamp in UTC, as the API and the records of cache operations write it.
\<close>

definition minute_us :: int where
  "minute_us = 60000000"

definition hour_us :: int where
  "hour_us = 3600000000"

definition datetime_isoformat :: "datetime \<Rightarrow> pystr" where
  "datetime_isoformat t =
     (let r = t mod day_us; us = r mod 1000000 in
      isoformat (date_of t) @ u ''T'' @ pad 2 (r div hour_us) @ u '':'' @ pad 2 (r mod hour_us div minute_us)
        @ u '':'' @ pad 2 (r mod minute_us div 1000000) @ (if us = 0 then [] else u ''.'' @ pad 6 us) @ u ''+00:00'')"

end
