(* ===== verification/Api_Validation.thy ===== *)
theory Api_Validation
  imports Timestamps
begin

text \<open>
  The field types of \<open>entrypoints/litestar/api/validation.py\<close>.  A field type maps the value of the
  request to the value of the schema or rejects it: pydantic checks the declared lengths first and then calls
  the validators, and turns a \<open>ValueError\<close> of a validator into its \<open>ValidationError\<close>.  The
  adapters of pydantic for URLs and addresses are the parameter \<open>adapters\<close>.
\<close>

record adapters =
  ad_http_url :: "pystr \<Rightarrow> bool"
  ad_email :: "pystr \<Rightarrow> bool"

definition short_text_max_length :: nat where
  "short_text_max_length = 255"

definition url_max_length :: nat where
  "url_max_length = 2048"

definition seo_description_max_length :: nat where
  "seo_description_max_length = 320"

definition email_max_length :: nat where
  "email_max_length = 254"

definition article_content_max_length :: nat where
  "article_content_max_length = 100000"

definition matrix_long_text_max_length :: nat where
  "matrix_long_text_max_length = 20000"

section \<open>Results of validation\<close>

definition and_then :: "'e + 'a \<Rightarrow> ('a \<Rightarrow> 'e + 'b) \<Rightarrow> 'e + 'b" where
  "and_then r f = (case r of Inl e \<Rightarrow> Inl e | Inr a \<Rightarrow> f a)"

lemma and_then_simps [simp]:
  "and_then (Inl e) f = Inl e"
  "and_then (Inr a) f = f a"
  by (simp_all add: and_then_def)

lemma and_then_Inr: "and_then r f = Inr b \<longleftrightarrow> (\<exists>a. r = Inr a \<and> f a = Inr b)"
  by (cases r) simp_all

definition field_length :: "nat \<Rightarrow> nat \<Rightarrow> pystr \<Rightarrow> error + pystr" where
  "field_length lo hi v = (if lo \<le> length v \<and> length v \<le> hi then Inr v else Inl ValidationError)"

definition optional_field :: "(pystr \<Rightarrow> error + pystr) \<Rightarrow> pystr option \<Rightarrow> error + pystr option" where
  "optional_field f v =
     (case v of None \<Rightarrow> Inr None | Some x \<Rightarrow> and_then (f x) (\<lambda>y. Inr (Some y)))"

definition after_validator :: "('a \<Rightarrow> error + 'b) \<Rightarrow> 'a \<Rightarrow> error + 'b" where
  "after_validator f v =
     (case f v of Inl e \<Rightarrow> Inl (if e = ValueError then ValidationError else e) | Inr x \<Rightarrow> Inr x)"

section \<open>Validators\<close>

definition trim_required :: "pystr \<Rightarrow> error + pystr" where
  "trim_required v = (if strip v = [] then Inl ValueError else Inr (strip v))"

definition is_slug_char :: "nat \<Rightarrow> bool" where
  "is_slug_char c \<longleftrightarrow> (97 \<le> c \<and> c \<le> 122) \<or> (48 \<le> c \<and> c \<le> 57)"

text \<open>
  \<open>^[a-z0-9]+(?:-[a-z0-9]+)*$\<close>: the automaton of the pattern, with the state that tells whether the
  last character belonged to a word.
\<close>

fun slug_match :: "bool \<Rightarrow> pystr \<Rightarrow> bool" where
  "slug_match in_word [] \<longleftrightarrow> in_word"
| "slug_match in_word (c # cs) \<longleftrightarrow>
     (if is_slug_char c then slug_match True cs else c = 45 \<and> in_word \<and> slug_match False cs)"

definition is_slug :: "pystr \<Rightarrow> bool" where
  "is_slug s \<longleftrightarrow> slug_match False s"

definition validate_slug :: "pystr \<Rightarrow> error + pystr" where
  "validate_slug v =
     and_then (trim_required v) (\<lambda>trimmed. if \<not> is_slug trimmed then Inl ValueError else Inr trimmed)"

definition validate_http_url_format :: "adapters \<Rightarrow> pystr \<Rightarrow> error + unit" where
  "validate_http_url_format ops v = (if ad_http_url ops v then Inr () else Inl ValueError)"

definition validate_required_http_url :: "adapters \<Rightarrow> pystr \<Rightarrow> error + pystr" where
  "validate_required_http_url ops v =
     and_then (trim_required v) (\<lambda>trimmed. and_then (validate_http_url_format ops trimmed) (\<lambda>_. Inr trimmed))"

definition validate_optional_http_url :: "adapters \<Rightarrow> pystr option \<Rightarrow> error + pystr option" where
  "validate_optional_http_url ops v =
     (case v of
        None \<Rightarrow> Inr None
      | Some x \<Rightarrow>
          if strip x = [] then Inr None
          else and_then (validate_http_url_format ops (strip x)) (\<lambda>_. Inr (Some (strip x))))"

definition validate_blankable_http_url :: "adapters \<Rightarrow> pystr \<Rightarrow> error + pystr" where
  "validate_blankable_http_url ops v =
     (if strip v = [] then Inr []
      else and_then (validate_http_url_format ops (strip v)) (\<lambda>_. Inr (strip v)))"

definition validate_blankable_email :: "adapters \<Rightarrow> pystr \<Rightarrow> error + pystr" where
  "validate_blankable_email ops v =
     (if strip v = [] then Inr [] else if \<not> ad_email ops (strip v) then Inl ValueError else Inr (strip v))"

definition validate_optional_email :: "adapters \<Rightarrow> pystr option \<Rightarrow> error + pystr option" where
  "validate_optional_email ops v =
     (case v of
        None \<Rightarrow> Inr None
      | Some x \<Rightarrow>
          if strip x = [] then Inl ValueError
          else if \<not> ad_email ops (strip x) then Inl ValueError else Inr (Some (strip x)))"

section \<open>Field types\<close>

definition required_short_text :: "pystr \<Rightarrow> error + pystr" where
  "required_short_text v =
     and_then (field_length 1 short_text_max_length v) (after_validator trim_required)"

definition slug_string :: "pystr \<Rightarrow> error + pystr" where
  "slug_string v = and_then (field_length 1 short_text_max_length v) (after_validator validate_slug)"

definition article_content_text :: "pystr \<Rightarrow> error + pystr" where
  "article_content_text v =
     and_then (field_length 1 article_content_max_length v) (after_validator trim_required)"

definition required_http_url_string :: "adapters \<Rightarrow> pystr \<Rightarrow> error + pystr" where
  "required_http_url_string ops v =
     and_then (field_length 1 url_max_length v) (after_validator (validate_required_http_url ops))"

definition optional_http_url_string :: "adapters \<Rightarrow> pystr option \<Rightarrow> error + pystr option" where
  "optional_http_url_string ops v =
     and_then (optional_field (field_length 0 url_max_length) v) (after_validator (validate_optional_http_url ops))"

definition blankable_http_url_string :: "adapters \<Rightarrow> pystr \<Rightarrow> error + pystr" where
  "blankable_http_url_string ops v =
     and_then (field_length 0 url_max_length v) (after_validator (validate_blankable_http_url ops))"

definition blankable_email_string :: "adapters \<Rightarrow> pystr \<Rightarrow> error + pystr" where
  "blankable_email_string ops v =
     and_then (field_length 0 email_max_length v) (after_validator (validate_blankable_email ops))"

definition optional_email_string :: "adapters \<Rightarrow> pystr option \<Rightarrow> error + pystr option" where
  "optional_email_string ops v =
     and_then (optional_field (field_length 1 email_max_length) v) (after_validator (validate_optional_email ops))"

definition matrix_long_text :: "pystr \<Rightarrow> error + pystr" where
  "matrix_long_text v = field_length 0 matrix_long_text_max_length v"

definition short_text :: "pystr \<Rightarrow> error + pystr" where
  "short_text v = field_length 0 short_text_max_length v"

section \<open>What a validated value is\<close>

definition trimmed_text :: "nat \<Rightarrow> pystr \<Rightarrow> bool" where
  "trimmed_text hi v \<longleftrightarrow> v \<noteq> [] \<and> strip v = v \<and> length v \<le> hi"

lemma after_validator_Inr: "after_validator f v = Inr x \<longleftrightarrow> f v = Inr x"
  by (simp add: after_validator_def split: sum.split)

lemma length_strip_by: "length (strip_by p v) \<le> length v"
proof -
  have "length (dropWhile p (rev (dropWhile p v))) \<le> length (dropWhile p v)"
    using length_dropWhile_le[of p "rev (dropWhile p v)"] by simp
  then show ?thesis using length_dropWhile_le[of p v] by (simp add: strip_by_def)
qed

lemma length_strip: "length (strip v) \<le> length v"
  by (simp add: strip_def length_strip_by)

lemma strip_empty: "strip [] = []"
  by (simp add: strip_def strip_by_def)

lemma trimmed_field:
  "and_then (field_length 1 hi v) (after_validator trim_required) = Inr x \<longleftrightarrow>
     x = strip v \<and> x \<noteq> [] \<and> length v \<le> hi"
  by (cases v) (auto simp: and_then_Inr after_validator_Inr field_length_def trim_required_def strip_empty)

lemma trimmed_field_text:
  "and_then (field_length 1 hi v) (after_validator trim_required) = Inr x \<Longrightarrow> trimmed_text hi x"
  unfolding trimmed_field using length_strip[of v] by (auto simp: trimmed_text_def)

lemma trimmed_field_again:
  assumes "trimmed_text hi x"
  shows "and_then (field_length 1 hi x) (after_validator trim_required) = Inr x"
  unfolding trimmed_field using assms by (simp add: trimmed_text_def)

lemma required_short_text_text: "required_short_text v = Inr x \<Longrightarrow> trimmed_text short_text_max_length x"
  unfolding required_short_text_def by (rule trimmed_field_text)

lemma required_short_text_again: "trimmed_text short_text_max_length x \<Longrightarrow> required_short_text x = Inr x"
  unfolding required_short_text_def by (rule trimmed_field_again)

lemma article_content_text_text: "article_content_text v = Inr x \<Longrightarrow> trimmed_text article_content_max_length x"
  unfolding article_content_text_def by (rule trimmed_field_text)

lemma article_content_text_again: "trimmed_text article_content_max_length x \<Longrightarrow> article_content_text x = Inr x"
  unfolding article_content_text_def by (rule trimmed_field_again)

lemma slug_match_chars: "slug_match b s \<Longrightarrow> c \<in> set s \<Longrightarrow> is_slug_char c \<or> c = 45"
  by (induction b s rule: slug_match.induct) (auto split: if_splits)

lemma slug_string_text:
  assumes "slug_string v = Inr x"
  shows "is_slug x" and "trimmed_text short_text_max_length x"
proof -
  have "x = strip v \<and> x \<noteq> [] \<and> length v \<le> short_text_max_length \<and> is_slug x"
    using assms by (cases v)
      (auto simp: slug_string_def and_then_Inr after_validator_Inr field_length_def validate_slug_def trim_required_def
        split: if_splits)
  then show "is_slug x" "trimmed_text short_text_max_length x"
    using length_strip[of v] by (auto simp: trimmed_text_def)
qed

lemma slug_string_again:
  assumes "is_slug x" "trimmed_text short_text_max_length x"
  shows "slug_string x = Inr x"
  using assms by (cases x)
    (auto simp: slug_string_def and_then_def after_validator_def field_length_def validate_slug_def trim_required_def
      trimmed_text_def)

lemma field_length_Inr [simp]: "field_length lo hi v = Inr x \<longleftrightarrow> x = v \<and> lo \<le> length v \<and> length v \<le> hi"
  by (auto simp: field_length_def)

end
