(* ===== verification/Api_Articles.thy ===== *)
theory Api_Articles
  imports Api_Validation Article_Analytics
begin

text \<open>
  The schemas of \<open>entrypoints/litestar/api/articles/schemas.py\<close> and the filters of
  \<open>entrypoints/litestar/api/articles/dependencies.py\<close>.  A request schema is validated field by field and
  then converted into the parameters of a use case; a response schema is built from the result of a
  use case, and the fields that it shares with the requests are validated again.
\<close>

section \<open>Translations of a name\<close>

text \<open>
  Tags and folders (and the nodes and resources of the matrix) have schemas of the same shape for the two
  translations of a name, with the field type \<open>RequiredShortText\<close>.
\<close>

record name_translations =
  nt_ru :: pystr
  nt_en :: pystr

definition validate_name_translations :: "name_translations \<Rightarrow> error + name_translations" where
  "validate_name_translations t =
     and_then (required_short_text (nt_ru t)) (\<lambda>ru.
     and_then (required_short_text (nt_en t)) (\<lambda>en. Inr \<lparr>nt_ru = ru, nt_en = en\<rparr>))"

section \<open>Tags and folders\<close>

record tag_response =
  tr_id :: pystr
  tr_name :: pystr
  tr_slug :: pystr
  tr_translations :: name_translations

definition validate_tag_response :: "tag_response \<Rightarrow> error + tag_response" where
  "validate_tag_response r =
     and_then (validate_name_translations (tr_translations r)) (\<lambda>t. Inr (r\<lparr>tr_translations := t\<rparr>))"

definition tag_translations_response :: "tag \<Rightarrow> error + name_translations" where
  "tag_translations_response t = validate_name_translations \<lparr>nt_ru = tg_name_ru t, nt_en = tg_name_en t\<rparr>"

definition tag_response_of :: "language \<Rightarrow> tag \<Rightarrow> error + tag_response" where
  "tag_response_of lang t =
     and_then (tag_translations_response t) (\<lambda>tl.
     Inr \<lparr>tr_id = tg_id t, tr_name = localized lang (tg_name_ru t) (tg_name_en t), tr_slug = tg_slug t,
       tr_translations = tl\<rparr>)"

definition tags_response :: "language \<Rightarrow> tag list \<Rightarrow> error + tag_response list" where
  "tags_response lang ts = all_or_error (map (tag_response_of lang) ts)"

record tag_request =
  tq_slug :: pystr
  tq_translations :: name_translations

definition validate_tag_request :: "tag_request \<Rightarrow> error + tag_request" where
  "validate_tag_request q =
     and_then (slug_string (tq_slug q)) (\<lambda>slug.
     and_then (validate_name_translations (tq_translations q)) (\<lambda>t.
     Inr \<lparr>tq_slug = slug, tq_translations = t\<rparr>))"

definition tag_to_params :: "tag_request \<Rightarrow> tag_params" where
  "tag_to_params q = \<lparr>tp_name_ru = nt_ru (tq_translations q), tp_name_en = nt_en (tq_translations q), tp_slug = tq_slug q\<rparr>"

record folder_response =
  fs_id :: pystr
  fs_key :: pystr
  fs_name :: pystr
  fs_priority :: int
  fs_translations :: name_translations

definition folder_response_of :: "language \<Rightarrow> article_folder \<Rightarrow> error + folder_response" where
  "folder_response_of lang fo =
     and_then (validate_name_translations \<lparr>nt_ru = fo_name_ru fo, nt_en = fo_name_en fo\<rparr>) (\<lambda>t.
     Inr \<lparr>fs_id = fo_id fo, fs_key = fo_key fo, fs_name = localized lang (fo_name_ru fo) (fo_name_en fo),
       fs_priority = fo_priority fo, fs_translations = t\<rparr>)"

definition folders_response :: "language \<Rightarrow> article_folder list \<Rightarrow> error + folder_response list" where
  "folders_response lang fs = all_or_error (map (folder_response_of lang) fs)"

record folder_request =
  fq_key :: pystr
  fq_translations :: name_translations

definition validate_folder_request :: "folder_request \<Rightarrow> error + folder_request" where
  "validate_folder_request q =
     and_then (slug_string (fq_key q)) (\<lambda>key.
     and_then (validate_name_translations (fq_translations q)) (\<lambda>t.
     Inr \<lparr>fq_key = key, fq_translations = t\<rparr>))"

definition folder_to_create_schema :: "pystr \<Rightarrow> folder_request \<Rightarrow> folder_create_params" where
  "folder_to_create_schema fid q =
     \<lparr>fp_id = fid, fp_key = fq_key q, fp_name_ru = nt_ru (fq_translations q), fp_name_en = nt_en (fq_translations q)\<rparr>"

section \<open>Metadata\<close>

record metadata_request =
  mq_seo_title_ru :: "pystr option"
  mq_seo_title_en :: "pystr option"
  mq_seo_description_ru :: "pystr option"
  mq_seo_description_en :: "pystr option"
  mq_cover_image_file_id :: "pystr option"
  mq_cover_image_alt_ru :: "pystr option"
  mq_cover_image_alt_en :: "pystr option"

definition short_option :: "nat \<Rightarrow> pystr option \<Rightarrow> bool" where
  "short_option hi v \<longleftrightarrow> (case v of None \<Rightarrow> True | Some x \<Rightarrow> length x \<le> hi)"

definition metadata_lengths :: "'a metadata_request_scheme \<Rightarrow> bool" where
  "metadata_lengths m \<longleftrightarrow>
     short_option short_text_max_length (mq_seo_title_ru m) \<and> short_option short_text_max_length (mq_seo_title_en m)
     \<and> short_option seo_description_max_length (mq_seo_description_ru m)
     \<and> short_option seo_description_max_length (mq_seo_description_en m)
     \<and> short_option short_text_max_length (mq_cover_image_alt_ru m)
     \<and> short_option short_text_max_length (mq_cover_image_alt_en m)"

definition validate_metadata_request :: "metadata_request \<Rightarrow> error + metadata_request" where
  "validate_metadata_request m = (if metadata_lengths m then Inr m else Inl ValidationError)"

definition metadata_to_domain :: "metadata_request \<Rightarrow> article_metadata" where
  "metadata_to_domain m =
     \<lparr>md_seo_title_ru = mq_seo_title_ru m, md_seo_title_en = mq_seo_title_en m,
      md_seo_description_ru = mq_seo_description_ru m, md_seo_description_en = mq_seo_description_en m,
      md_cover_image_file_id = mq_cover_image_file_id m, md_cover_image_file = None, md_cover_image_url = None,
      md_cover_image_alt_ru = mq_cover_image_alt_ru m, md_cover_image_alt_en = mq_cover_image_alt_en m\<rparr>"

record metadata_response = metadata_request +
  mr_cover_image_url :: "pystr option"

definition validate_metadata_response :: "adapters \<Rightarrow> metadata_response \<Rightarrow> error + metadata_response" where
  "validate_metadata_response ops m =
     (if metadata_lengths m
      then and_then (optional_http_url_string ops (mr_cover_image_url m)) (\<lambda>url. Inr (m\<lparr>mr_cover_image_url := url\<rparr>))
      else Inl ValidationError)"

definition metadata_response_of :: "adapters \<Rightarrow> article_metadata \<Rightarrow> error + metadata_response" where
  "metadata_response_of ops m =
     validate_metadata_response ops
       \<lparr>mq_seo_title_ru = md_seo_title_ru m, mq_seo_title_en = md_seo_title_en m,
        mq_seo_description_ru = md_seo_description_ru m, mq_seo_description_en = md_seo_description_en m,
        mq_cover_image_file_id = md_cover_image_file_id m, mq_cover_image_alt_ru = md_cover_image_alt_ru m,
        mq_cover_image_alt_en = md_cover_image_alt_en m, mr_cover_image_url = md_cover_image_url m\<rparr>"

section \<open>Excerpts\<close>

definition excerpt_character_limit :: nat where
  "excerpt_character_limit = 180"

text \<open>The characters of the class \<open>[`*_#>\-[\]()!]\<close>.\<close>

definition markdown_marks :: "nat set" where
  "markdown_marks = {96, 42, 95, 35, 62, 45, 91, 93, 40, 41, 33}"

text \<open>\<open>re.sub(r"\s+", " ", text)\<close>\<close>

function squeeze_spaces :: "pystr \<Rightarrow> pystr" where
  "squeeze_spaces [] = []"
| "squeeze_spaces (c # cs) =
     (if is_space c then 32 # squeeze_spaces (dropWhile is_space cs) else c # squeeze_spaces cs)"
  by pat_completeness auto

termination
  by (relation "measure length") (simp_all add: le_imp_less_Suc length_dropWhile_le)

text \<open>\<open>text.find(" ", start)\<close>\<close>

definition find_space :: "nat \<Rightarrow> pystr \<Rightarrow> nat option" where
  "find_space start t =
     (let n = start + length (takeWhile (\<lambda>c. c \<noteq> 32) (drop start t)) in if n < length t then Some n else None)"

definition build_excerpt :: "pystr \<Rightarrow> pystr" where
  "build_excerpt content =
     (let t = strip (squeeze_spaces (map (\<lambda>c. if c \<in> markdown_marks then 32 else c) content)) in
      if length t \<le> excerpt_character_limit then t
      else case find_space excerpt_character_limit t of None \<Rightarrow> t | Some word_end \<Rightarrow> take word_end t @ [8230])"

section \<open>Articles\<close>

record article_summary_response =
  sr_id :: pystr
  sr_title :: pystr
  sr_slug :: pystr
  sr_folder :: pystr
  sr_folder_id :: pystr
  sr_folder_key :: pystr
  sr_author_username :: pystr
  sr_published_at :: "pystr option"
  sr_publish_status :: publish_status
  sr_updated_at :: pystr
  sr_excerpt :: pystr
  sr_metadata :: metadata_response
  sr_tags :: "tag_response list"

definition article_summary_of :: "adapters \<Rightarrow> language \<Rightarrow> article \<Rightarrow> error + article_summary_response" where
  "article_summary_of ops lang a =
     and_then (metadata_response_of ops (ac_metadata a)) (\<lambda>md.
     and_then (all_or_error (map (tag_response_of lang) (ac_tags a))) (\<lambda>ts.
     Inr \<lparr>sr_id = ac_id a, sr_title = localized_title lang a, sr_slug = ac_slug a,
       sr_folder = localized_folder lang a, sr_folder_id = fo_id (ac_folder a), sr_folder_key = fo_key (ac_folder a),
       sr_author_username = ac_author_username a,
       sr_published_at = map_option datetime_isoformat (ac_published_at a),
       sr_publish_status = ac_publish_status a, sr_updated_at = datetime_isoformat (ac_updated_at a),
       sr_excerpt = build_excerpt (localized_content lang a), sr_metadata = md, sr_tags = ts\<rparr>))"

record article_translation =
  an_title :: pystr
  an_content :: pystr

definition validate_article_translation :: "article_translation \<Rightarrow> error + article_translation" where
  "validate_article_translation t =
     and_then (required_short_text (an_title t)) (\<lambda>title.
     and_then (article_content_text (an_content t)) (\<lambda>content.
     Inr \<lparr>an_title = title, an_content = content\<rparr>))"

record article_translations =
  ats_ru :: article_translation
  ats_en :: article_translation

definition validate_article_translations :: "article_translations \<Rightarrow> error + article_translations" where
  "validate_article_translations t =
     and_then (validate_article_translation (ats_ru t)) (\<lambda>ru.
     and_then (validate_article_translation (ats_en t)) (\<lambda>en. Inr \<lparr>ats_ru = ru, ats_en = en\<rparr>))"

definition article_translations_response :: "article \<Rightarrow> error + article_translations" where
  "article_translations_response a =
     validate_article_translations
       \<lparr>ats_ru = \<lparr>an_title = ac_title_ru a, an_content = ac_content_ru a\<rparr>,
        ats_en = \<lparr>an_title = ac_title_en a, an_content = ac_content_en a\<rparr>\<rparr>"

record article_detail_response = article_summary_response +
  dr_content :: pystr
  dr_created_at :: pystr
  dr_translations :: article_translations

text \<open>
  The summary is dumped into keyword arguments, so the schemas inside it, the metadata and the tags, are
  validated once more.
\<close>

definition article_detail_of :: "adapters \<Rightarrow> language \<Rightarrow> article \<Rightarrow> error + article_detail_response" where
  "article_detail_of ops lang a =
     and_then (article_summary_of ops lang a) (\<lambda>s.
     and_then (article_translations_response a) (\<lambda>t.
     and_then (validate_metadata_response ops (sr_metadata s)) (\<lambda>md.
     and_then (all_or_error (map validate_tag_response (sr_tags s))) (\<lambda>ts.
     Inr (article_summary_response.extend (s\<lparr>sr_metadata := md, sr_tags := ts\<rparr>)
       (article_detail_response.fields (localized_content lang a) (datetime_isoformat (ac_created_at a)) t))))))"

record article_list_response =
  lr_total_count :: int
  lr_total_pages :: int
  lr_articles :: "article_summary_response list"

definition article_list_of :: "adapters \<Rightarrow> language \<Rightarrow> articles_page \<Rightarrow> error + article_list_response" where
  "article_list_of ops lang p =
     and_then (all_or_error (map (article_summary_of ops lang) (pg_values p))) (\<lambda>as.
     Inr \<lparr>lr_total_count = pg_total_count p, lr_total_pages = pg_total_pages p, lr_articles = as\<rparr>)"

record article_request =
  rq_slug :: pystr
  rq_folder_id :: pystr
  rq_publish_status :: publish_status
  rq_tag_ids :: "pystr list"
  rq_translations :: article_translations
  rq_metadata :: metadata_request

definition validate_article_request :: "article_request \<Rightarrow> error + article_request" where
  "validate_article_request q =
     and_then (slug_string (rq_slug q)) (\<lambda>slug.
     and_then (required_short_text (rq_folder_id q)) (\<lambda>fid.
     and_then (validate_article_translations (rq_translations q)) (\<lambda>t.
     and_then (validate_metadata_request (rq_metadata q)) (\<lambda>md.
     Inr (q\<lparr>rq_slug := slug, rq_folder_id := fid, rq_translations := t, rq_metadata := md\<rparr>)))))"

definition article_to_create_schema :: "pystr \<Rightarrow> pystr \<Rightarrow> article_request \<Rightarrow> article_create_params" where
  "article_to_create_schema aid author q =
     \<lparr>cp_id = aid, cp_slug = rq_slug q,
      cp_title_ru = an_title (ats_ru (rq_translations q)), cp_title_en = an_title (ats_en (rq_translations q)),
      cp_content_ru = an_content (ats_ru (rq_translations q)), cp_content_en = an_content (ats_en (rq_translations q)),
      cp_folder_id = rq_folder_id q, cp_author_username = author, cp_publish_status = rq_publish_status q,
      cp_metadata = metadata_to_domain (rq_metadata q), cp_tag_ids = rq_tag_ids q\<rparr>"

definition article_to_update_schema :: "article_request \<Rightarrow> article_update_params" where
  "article_to_update_schema q =
     \<lparr>ap_slug = rq_slug q,
      ap_title_ru = an_title (ats_ru (rq_translations q)), ap_title_en = an_title (ats_en (rq_translations q)),
      ap_content_ru = an_content (ats_ru (rq_translations q)), ap_content_en = an_content (ats_en (rq_translations q)),
      ap_folder_id = rq_folder_id q, ap_publish_status = rq_publish_status q,
      ap_metadata = metadata_to_domain (rq_metadata q), ap_tag_ids = rq_tag_ids q\<rparr>"

section \<open>The tree\<close>

record tree_item_response =
  xi_title :: pystr
  xi_slug :: pystr
  xi_publish_status :: publish_status
  xi_published_at :: "pystr option"
  xi_updated_at :: pystr

definition tree_item_response_of :: "tree_item \<Rightarrow> tree_item_response" where
  "tree_item_response_of i =
     \<lparr>xi_title = ti_title i, xi_slug = ti_slug i, xi_publish_status = ti_publish_status i,
      xi_published_at = map_option datetime_isoformat (ti_published_at i),
      xi_updated_at = datetime_isoformat (ti_updated_at i)\<rparr>"

record tree_folder_response =
  xf_folder_id :: pystr
  xf_folder_key :: pystr
  xf_folder :: pystr
  xf_articles :: "tree_item_response list"

definition tree_folder_response_of :: "tree_folder \<Rightarrow> tree_folder_response" where
  "tree_folder_response_of f =
     \<lparr>xf_folder_id = tf_folder_id f, xf_folder_key = tf_folder_key f, xf_folder = tf_folder f,
      xf_articles = map tree_item_response_of (tf_articles f)\<rparr>"

definition tree_response :: "tree_folder list \<Rightarrow> tree_folder_response list" where
  "tree_response fs = map tree_folder_response_of fs"

section \<open>Reactions and statistics\<close>

record reaction_request =
  rr_reaction_kind :: "reaction_kind option"
  rr_client_token :: pystr

definition validate_reaction_request :: "reaction_request \<Rightarrow> error + reaction_request" where
  "validate_reaction_request q = and_then (field_length 1 255 (rr_client_token q)) (\<lambda>_. Inr q)"

record reaction_counts_response =
  cr_heart :: int
  cr_fire :: int
  cr_thinking :: int
  cr_neutral :: int
  cr_poop :: int

definition reaction_counts_response_of :: "reaction_counts \<Rightarrow> reaction_counts_response" where
  "reaction_counts_response_of c =
     \<lparr>cr_heart = rn_heart c, cr_fire = rn_fire c, cr_thinking = rn_thinking c, cr_neutral = rn_neutral c, cr_poop = rn_poop c\<rparr>"

record public_stats_response =
  ps_article_id :: pystr
  ps_view_count :: int
  ps_reaction_counts :: reaction_counts_response

definition public_stats_response_of :: "public_stats \<Rightarrow> public_stats_response" where
  "public_stats_response_of s =
     \<lparr>ps_article_id = pb_article_id s, ps_view_count = pb_view_count s,
      ps_reaction_counts = reaction_counts_response_of (pb_reaction_counts s)\<rparr>"

definition public_stats_collection_response :: "public_stats list \<Rightarrow> public_stats_response list" where
  "public_stats_collection_response xs = map public_stats_response_of xs"

record totals_response =
  tt_view_count :: int
  tt_engaged_view_count :: int
  tt_reaction_count :: int

definition totals_response_of :: "analytics_totals \<Rightarrow> totals_response" where
  "totals_response_of t =
     \<lparr>tt_view_count = to_view_count t, tt_engaged_view_count = to_engaged_view_count t,
      tt_reaction_count = to_reaction_count t\<rparr>"

record article_stats_response =
  as_article_id :: pystr
  as_title :: pystr
  as_slug :: pystr
  as_view_count :: int
  as_engaged_view_count :: int
  as_reaction_counts :: reaction_counts_response

definition article_stats_response_of :: "article_stats \<Rightarrow> article_stats_response" where
  "article_stats_response_of s =
     \<lparr>as_article_id = sa_article_id s, as_title = sa_title s, as_slug = sa_slug s, as_view_count = sa_view_count s,
      as_engaged_view_count = sa_engaged_view_count s,
      as_reaction_counts = reaction_counts_response_of (sa_reaction_counts s)\<rparr>"

record daily_stats_response =
  ds_article_id :: pystr
  ds_title :: pystr
  ds_slug :: pystr
  ds_date :: date
  ds_source_category :: view_source
  ds_view_count :: int
  ds_engaged_view_count :: int

definition daily_stats_response_of :: "daily_stats \<Rightarrow> daily_stats_response" where
  "daily_stats_response_of s =
     \<lparr>ds_article_id = dy_article_id s, ds_title = dy_title s, ds_slug = dy_slug s, ds_date = dy_date s,
      ds_source_category = dy_source_category s, ds_view_count = dy_view_count s,
      ds_engaged_view_count = dy_engaged_view_count s\<rparr>"

record analytics_stats_response =
  ss_date_from :: date
  ss_date_to :: date
  ss_totals :: totals_response
  ss_articles :: "article_stats_response list"
  ss_daily :: "daily_stats_response list"

definition analytics_stats_response_of :: "analytics_stats \<Rightarrow> analytics_stats_response" where
  "analytics_stats_response_of s =
     \<lparr>ss_date_from = st_date_from s, ss_date_to = st_date_to s, ss_totals = totals_response_of (st_totals s),
      ss_articles = map article_stats_response_of (st_articles s), ss_daily = map daily_stats_response_of (st_daily s)\<rparr>"

section \<open>Filters of the lists\<close>

definition normalized_search_query :: "pystr option \<Rightarrow> pystr option" where
  "normalized_search_query q =
     (case q of None \<Rightarrow> None | Some s \<Rightarrow> if strip s = [] then None else Some (strip s))"

record list_query =
  lq_page :: int
  lq_page_size :: int
  lq_language :: language
  lq_tag_slug :: "pystr option"
  lq_published_from :: "date option"
  lq_published_to :: "date option"
  lq_search_query :: "pystr option"

text \<open>The declared bounds of \<open>PageQuery\<close> and \<open>PageSizeQuery\<close>.\<close>

definition page_query :: "int \<Rightarrow> error + int" where
  "page_query n = (if 1 \<le> n then Inr n else Inl ValidationError)"

definition page_size_query :: "int \<Rightarrow> error + int" where
  "page_size_query n = (if 1 \<le> n \<and> n \<le> 100 then Inr n else Inl ValidationError)"

definition provide_public_article_filters :: "list_query \<Rightarrow> error + article_filters" where
  "provide_public_article_filters q =
     and_then (page_query (lq_page q)) (\<lambda>page.
     and_then (page_size_query (lq_page_size q)) (\<lambda>page_size.
     Inr (default_filters\<lparr>af_page := Some page, af_page_size := Some page_size, af_language := lq_language q,
       af_only_published := Some True, af_tag_slug := lq_tag_slug q, af_published_from := lq_published_from q,
       af_published_to := lq_published_to q, af_search_query := normalized_search_query (lq_search_query q),
       af_include_tags := True\<rparr>)))"

definition provide_article_filters :: "list_query \<Rightarrow> publish_status option \<Rightarrow> error + article_filters" where
  "provide_article_filters q st =
     and_then (page_query (lq_page q)) (\<lambda>page.
     and_then (page_size_query (lq_page_size q)) (\<lambda>page_size.
     Inr (default_filters\<lparr>af_page := Some page, af_page_size := Some page_size, af_language := lq_language q,
       af_only_published := Some False, af_publish_status := st, af_tag_slug := lq_tag_slug q,
       af_published_from := lq_published_from q, af_published_to := lq_published_to q,
       af_search_query := normalized_search_query (lq_search_query q), af_include_tags := True\<rparr>)))"

end
