(* ===== verification/Api_Matrix.thy ===== *)
theory Api_Matrix
  imports Api_Articles Matrix_Import Matrix_Workspace
begin

text \<open>
  The schemas of \<open>entrypoints/litestar/api/competency_matrix/schemas.py\<close> and the parameters of
  \<open>entrypoints/litestar/api/competency_matrix/dependencies.py\<close>.
\<close>

section \<open>Structure\<close>

record structure_subsection_response =
  rsu_id :: pystr
  rsu_name :: pystr
  rsu_priority :: int
  rsu_translations :: name_translations

definition structure_subsection_response_of ::
  "language \<Rightarrow> structure_subsection \<Rightarrow> error + structure_subsection_response" where
  "structure_subsection_response_of lang s =
     and_then (validate_name_translations \<lparr>nt_ru = ssu_name_ru s, nt_en = ssu_name_en s\<rparr>) (\<lambda>t.
     Inr \<lparr>rsu_id = ssu_id s, rsu_name = localized lang (ssu_name_ru s) (ssu_name_en s), rsu_priority = ssu_priority s,
       rsu_translations = t\<rparr>)"

record structure_section_response =
  rse_id :: pystr
  rse_name :: pystr
  rse_priority :: int
  rse_translations :: name_translations
  rse_subsections :: "structure_subsection_response list"

definition structure_section_response_of :: "language \<Rightarrow> structure_section \<Rightarrow> error + structure_section_response" where
  "structure_section_response_of lang s =
     and_then (validate_name_translations \<lparr>nt_ru = sse_name_ru s, nt_en = sse_name_en s\<rparr>) (\<lambda>t.
     and_then (all_or_error (map (structure_subsection_response_of lang) (sse_subsections s))) (\<lambda>subs.
     Inr \<lparr>rse_id = sse_id s, rse_name = localized lang (sse_name_ru s) (sse_name_en s), rse_priority = sse_priority s,
       rse_translations = t, rse_subsections = subs\<rparr>))"

record structure_sheet_response =
  rsh_id :: pystr
  rsh_key :: pystr
  rsh_name :: pystr
  rsh_priority :: int
  rsh_translations :: name_translations
  rsh_sections :: "structure_section_response list"

definition structure_sheet_response_of :: "language \<Rightarrow> structure_sheet \<Rightarrow> error + structure_sheet_response" where
  "structure_sheet_response_of lang s =
     and_then (validate_name_translations \<lparr>nt_ru = ssh_name_ru s, nt_en = ssh_name_en s\<rparr>) (\<lambda>t.
     and_then (all_or_error (map (structure_section_response_of lang) (ssh_sections s))) (\<lambda>secs.
     Inr \<lparr>rsh_id = ssh_id s, rsh_key = ssh_key s, rsh_name = localized lang (ssh_name_ru s) (ssh_name_en s),
       rsh_priority = ssh_priority s, rsh_translations = t, rsh_sections = secs\<rparr>))"

definition structure_response :: "language \<Rightarrow> structure_sheet list \<Rightarrow> error + structure_sheet_response list" where
  "structure_response lang shs = all_or_error (map (structure_sheet_response_of lang) shs)"

record sheet_create_request =
  hq_key :: pystr
  hq_translations :: name_translations

definition validate_sheet_create_request :: "sheet_create_request \<Rightarrow> error + sheet_create_request" where
  "validate_sheet_create_request q =
     and_then (slug_string (hq_key q)) (\<lambda>key.
     and_then (validate_name_translations (hq_translations q)) (\<lambda>t. Inr \<lparr>hq_key = key, hq_translations = t\<rparr>))"

definition sheet_to_schema :: "sheet_create_request \<Rightarrow> sheet_create_params" where
  "sheet_to_schema q =
     \<lparr>shp_key = hq_key q, shp_name_ru = nt_ru (hq_translations q), shp_name_en = nt_en (hq_translations q)\<rparr>"

definition section_to_schema :: "pystr \<Rightarrow> name_translations \<Rightarrow> section_create_params" where
  "section_to_schema sheet_id t = \<lparr>sep_sheet_id = sheet_id, sep_name_ru = nt_ru t, sep_name_en = nt_en t\<rparr>"

definition subsection_to_schema :: "pystr \<Rightarrow> name_translations \<Rightarrow> subsection_create_params" where
  "subsection_to_schema section_id t = \<lparr>sup_section_id = section_id, sup_name_ru = nt_ru t, sup_name_en = nt_en t\<rparr>"

section \<open>Suggestions and the queue\<close>

record suggestion_request =
  gq_question :: pystr
  gq_sheet :: "pystr option"

text \<open>
  The validators of the class run after those of the field types: \<open>normalize_question\<close> and
  \<open>normalize_sheet\<close> strip again.  An omitted sheet is \<open>None\<close> for the editors; the public schema
  requires it.
\<close>

definition normalize_question :: "pystr \<Rightarrow> error + pystr" where
  "normalize_question v = (if strip v = [] then Inl ValueError else Inr (strip v))"

definition normalize_sheet :: "pystr option \<Rightarrow> error + pystr option" where
  "normalize_sheet v =
     (case v of None \<Rightarrow> Inr None | Some s \<Rightarrow> if strip s = [] then Inr None else Inr (Some (strip s)))"

definition validate_suggestion_request :: "suggestion_request \<Rightarrow> error + suggestion_request" where
  "validate_suggestion_request q =
     and_then (and_then (required_short_text (gq_question q)) (after_validator normalize_question)) (\<lambda>question.
     and_then (and_then (optional_field required_short_text (gq_sheet q)) (after_validator normalize_sheet)) (\<lambda>sheet.
     Inr \<lparr>gq_question = question, gq_sheet = sheet\<rparr>))"

definition validate_public_suggestion_request :: "suggestion_request \<Rightarrow> error + suggestion_request" where
  "validate_public_suggestion_request q =
     (if gq_sheet q = None then Inl ValidationError else validate_suggestion_request q)"

definition suggestion_to_schema ::
  "limit_params option \<Rightarrow> pystr \<Rightarrow> bool \<Rightarrow> bool \<Rightarrow> suggestion_request \<Rightarrow> suggestion_params" where
  "suggestion_to_schema limit user reject_duplicates validate_public_sheet q =
     \<lparr>sg_question = \<lparr>qp_question = gq_question q, qp_sheet = gq_sheet q, qp_grade = None\<rparr>, sg_limit = limit,
      sg_suggested_by_username = user, sg_reject_duplicates = reject_duplicates,
      sg_validate_public_sheet = validate_public_sheet\<rparr>"

record queued_question_response =
  qr_id :: pystr
  qr_question :: pystr
  qr_grade :: "grade option"
  qr_sheet :: "pystr option"
  qr_section :: "pystr option"
  qr_subsection :: "pystr option"
  qr_suggested_by_username :: pystr
  qr_created_at :: pystr

definition queued_question_response_of :: "queued_question \<Rightarrow> queued_question_response" where
  "queued_question_response_of q =
     \<lparr>qr_id = qq_id q, qr_question = qq_question q, qr_grade = qq_grade q, qr_sheet = qq_sheet q,
      qr_section = qq_section q, qr_subsection = qq_subsection q,
      qr_suggested_by_username = qq_suggested_by_username q, qr_created_at = datetime_isoformat (qq_created_at q)\<rparr>"

definition queued_questions_response :: "queued_question list \<Rightarrow> queued_question_response list" where
  "queued_questions_response qs = map queued_question_response_of qs"

record preview_issue_response =
  pi_code :: issue_code
  pi_severity :: issue_severity
  pi_related_row_numbers :: "int list"

definition preview_issue_response_of :: "import_preview_issue \<Rightarrow> preview_issue_response" where
  "preview_issue_response_of i =
     \<lparr>pi_code = pv_code i, pi_severity = pv_severity i, pi_related_row_numbers = pv_related_row_numbers i\<rparr>"

record preview_row_response =
  rw_row_number :: int
  rw_question :: pystr
  rw_sheet :: pystr
  rw_grade :: pystr
  rw_can_import :: bool
  rw_selected_by_default :: bool
  rw_issues :: "preview_issue_response list"

definition preview_row_response_of :: "import_preview_row \<Rightarrow> preview_row_response" where
  "preview_row_response_of r =
     \<lparr>rw_row_number = vr_row_number r, rw_question = vr_question r, rw_sheet = vr_sheet r, rw_grade = vr_grade r,
      rw_can_import = can_import r, rw_selected_by_default = selected_by_default r,
      rw_issues = map preview_issue_response_of (vr_issues r)\<rparr>"

definition preview_response :: "import_preview_row list \<Rightarrow> preview_row_response list" where
  "preview_response rows = map preview_row_response_of rows"

definition validate_selected_row_numbers :: "int list \<Rightarrow> error + int list" where
  "validate_selected_row_numbers ns = (if 1 \<le> length ns then Inr ns else Inl ValidationError)"

section \<open>Resources\<close>

record resource_response =
  er_response_id :: pystr
  er_response_name :: pystr
  er_response_url :: pystr
  er_response_translations :: name_translations

definition resource_response_of :: "language \<Rightarrow> external_resource \<Rightarrow> error + resource_response" where
  "resource_response_of lang r =
     and_then (validate_name_translations \<lparr>nt_ru = er_name_ru r, nt_en = er_name_en r\<rparr>) (\<lambda>t.
     Inr \<lparr>er_response_id = er_id r, er_response_name = localized lang (er_name_ru r) (er_name_en r),
       er_response_url = er_url r, er_response_translations = t\<rparr>)"

definition resources_response :: "language \<Rightarrow> external_resource list \<Rightarrow> error + resource_response list" where
  "resources_response lang rs = all_or_error (map (resource_response_of lang) rs)"

record resource_request =
  eq_url :: pystr
  eq_translations :: name_translations

definition validate_resource_request :: "adapters \<Rightarrow> resource_request \<Rightarrow> error + resource_request" where
  "validate_resource_request ops q =
     and_then (required_http_url_string ops (eq_url q)) (\<lambda>url.
     and_then (validate_name_translations (eq_translations q)) (\<lambda>t. Inr \<lparr>eq_url = url, eq_translations = t\<rparr>))"

definition resource_to_schema :: "pystr \<Rightarrow> resource_request \<Rightarrow> external_resource" where
  "resource_to_schema rid q =
     \<lparr>er_id = rid, er_name_ru = nt_ru (eq_translations q), er_name_en = nt_en (eq_translations q), er_url = eq_url q\<rparr>"

record context_translations =
  ct_ru :: pystr
  ct_en :: pystr

definition validate_context_translations :: "context_translations \<Rightarrow> error + context_translations" where
  "validate_context_translations t =
     and_then (matrix_long_text (ct_ru t)) (\<lambda>ru. and_then (matrix_long_text (ct_en t)) (\<lambda>en.
     Inr \<lparr>ct_ru = ru, ct_en = en\<rparr>))"

datatype attachment_request =
    ExistingAttachmentRequest pystr context_translations
  | NewAttachmentRequest resource_request context_translations

fun validate_attachment_request :: "adapters \<Rightarrow> attachment_request \<Rightarrow> error + attachment_request" where
  "validate_attachment_request ops (ExistingAttachmentRequest rid t) =
     and_then (validate_context_translations t) (\<lambda>t'. Inr (ExistingAttachmentRequest rid t'))"
| "validate_attachment_request ops (NewAttachmentRequest q t) =
     and_then (validate_resource_request ops q) (\<lambda>q'.
     and_then (validate_context_translations t) (\<lambda>t'. Inr (NewAttachmentRequest q' t')))"

record attached_translation =
  ax_name :: pystr
  ax_context :: pystr

record attached_resource_response =
  ar_response_id :: pystr
  ar_response_name :: pystr
  ar_response_url :: pystr
  ar_response_context :: pystr
  ar_response_ru :: attached_translation
  ar_response_en :: attached_translation

definition attached_resource_response_of :: "language \<Rightarrow> attached_resource \<Rightarrow> attached_resource_response" where
  "attached_resource_response_of lang r =
     \<lparr>ar_response_id = at_id r, ar_response_name = localized lang (at_name_ru r) (at_name_en r), ar_response_url = at_url r,
      ar_response_context = localized lang (at_context_ru r) (at_context_en r),
      ar_response_ru = \<lparr>ax_name = at_name_ru r, ax_context = at_context_ru r\<rparr>,
      ar_response_en = \<lparr>ax_name = at_name_en r, ax_context = at_context_en r\<rparr>\<rparr>"

text \<open>
  Each new resource takes the next identifier of the generator; \<open>ids\<close> are the identifiers that it
  returns, from the one at \<open>n\<close> on.
\<close>

fun to_resource_attachments :: "(nat \<Rightarrow> pystr) \<Rightarrow> nat \<Rightarrow> attachment_request list \<Rightarrow> attachment list" where
  "to_resource_attachments ids n [] = []"
| "to_resource_attachments ids n (ExistingAttachmentRequest rid t # rs) =
     ExistingAttachment rid (ct_ru t) (ct_en t) # to_resource_attachments ids n rs"
| "to_resource_attachments ids n (NewAttachmentRequest q t # rs) =
     NewAttachment (resource_to_schema (ids n) q) (ct_ru t) (ct_en t) # to_resource_attachments ids (Suc n) rs"

section \<open>Questions\<close>

record item_translation =
  iz_question :: pystr
  iz_answer :: pystr
  iz_explanation :: pystr

definition validate_item_translation :: "item_translation \<Rightarrow> error + item_translation" where
  "validate_item_translation t =
     and_then (required_short_text (iz_question t)) (\<lambda>question.
     and_then (matrix_long_text (iz_answer t)) (\<lambda>answer.
     and_then (matrix_long_text (iz_explanation t)) (\<lambda>explanation.
     Inr \<lparr>iz_question = question, iz_answer = answer, iz_explanation = explanation\<rparr>)))"

record item_translations =
  its_ru :: item_translation
  its_en :: item_translation

definition validate_item_translations :: "item_translations \<Rightarrow> error + item_translations" where
  "validate_item_translations t =
     and_then (validate_item_translation (its_ru t)) (\<lambda>ru.
     and_then (validate_item_translation (its_en t)) (\<lambda>en. Inr \<lparr>its_ru = ru, its_en = en\<rparr>))"

definition item_translations_of :: "matrix_item \<Rightarrow> error + item_translations" where
  "item_translations_of i =
     and_then (validate_item_translation
       \<lparr>iz_question = mi_question_ru i, iz_answer = mi_answer_ru i, iz_explanation = mi_explanation_ru i\<rparr>) (\<lambda>ru.
     and_then (validate_item_translation
       \<lparr>iz_question = mi_question_en i, iz_answer = mi_answer_en i, iz_explanation = mi_explanation_en i\<rparr>) (\<lambda>en.
     Inr \<lparr>its_ru = ru, its_en = en\<rparr>))"

record public_item_response =
  pir_slug :: pystr
  pir_question :: pystr
  pir_interview_frequency :: "interview_frequency option"

definition public_item_response_of :: "language \<Rightarrow> matrix_item \<Rightarrow> public_item_response" where
  "public_item_response_of lang i =
     \<lparr>pir_slug = mi_slug i, pir_question = localized lang (mi_question_ru i) (mi_question_en i),
      pir_interview_frequency = mi_interview_frequency i\<rparr>"

record item_response = public_item_response +
  itr_id :: pystr

definition item_response_of :: "language \<Rightarrow> matrix_item \<Rightarrow> item_response" where
  "item_response_of lang i =
     public_item_response.extend (public_item_response_of lang i) (item_response.fields (mi_id i))"

record item_detail_body =
  idb_answer :: pystr
  idb_explanation :: pystr
  idb_sheet_key :: pystr
  idb_sheet :: pystr
  idb_grade :: "grade option"
  idb_section :: pystr
  idb_subsection :: pystr
  idb_publish_status :: publish_status
  idb_resources :: "attached_resource_response list"
  idb_translations :: item_translations
  idb_suggested_by_username :: pystr

text \<open>The fields that the public detail and the detail of the editors declare alike.\<close>

definition item_detail_body_of :: "language \<Rightarrow> matrix_item \<Rightarrow> error + item_detail_body" where
  "item_detail_body_of lang i =
     and_then (item_translations_of i) (\<lambda>t.
     Inr \<lparr>idb_answer = localized lang (mi_answer_ru i) (mi_answer_en i),
       idb_explanation = localized lang (mi_explanation_ru i) (mi_explanation_en i),
       idb_sheet_key = ns_sheet_key (mi_structure i),
       idb_sheet = localized lang (ns_sheet_ru (mi_structure i)) (ns_sheet_en (mi_structure i)),
       idb_grade = mi_grade i,
       idb_section = localized lang (ns_section_ru (mi_structure i)) (ns_section_en (mi_structure i)),
       idb_subsection = localized lang (ns_subsection_ru (mi_structure i)) (ns_subsection_en (mi_structure i)),
       idb_publish_status = mi_publish_status i,
       idb_resources = map (attached_resource_response_of lang) (mi_resources i),
       idb_translations = t, idb_suggested_by_username = mi_suggested_by_username i\<rparr>)"

record public_item_detail_response =
  pdr_summary :: public_item_response
  pdr_body :: item_detail_body

definition public_item_detail_of :: "language \<Rightarrow> matrix_item \<Rightarrow> error + public_item_detail_response" where
  "public_item_detail_of lang i =
     and_then (item_detail_body_of lang i) (\<lambda>b.
     Inr \<lparr>pdr_summary = public_item_response_of lang i, pdr_body = b\<rparr>)"

record item_detail_response =
  idr_summary :: item_response
  idr_body :: item_detail_body
  idr_subsection_id :: pystr

definition item_detail_of :: "language \<Rightarrow> matrix_item \<Rightarrow> error + item_detail_response" where
  "item_detail_of lang i =
     and_then (item_detail_body_of lang i) (\<lambda>b.
     Inr \<lparr>idr_summary = item_response_of lang i, idr_body = b, idr_subsection_id = ns_subsection_id (mi_structure i)\<rparr>)"

record item_request =
  iq_slug :: pystr
  iq_subsection_id :: pystr
  iq_grade :: "grade option"
  iq_interview_frequency :: "interview_frequency option"
  iq_publish_status :: publish_status
  iq_translations :: item_translations
  iq_resources :: "attachment_request list"

definition validate_item_request :: "adapters \<Rightarrow> item_request \<Rightarrow> error + item_request" where
  "validate_item_request ops q =
     and_then (slug_string (iq_slug q)) (\<lambda>slug.
     and_then (validate_item_translations (iq_translations q)) (\<lambda>t.
     and_then (all_or_error (map (validate_attachment_request ops) (iq_resources q))) (\<lambda>rs.
     Inr (q\<lparr>iq_slug := slug, iq_translations := t, iq_resources := rs\<rparr>))))"

text \<open>Creating and updating take the same values; the identifier is generated or that of the path.\<close>

definition item_to_params :: "pystr \<Rightarrow> (nat \<Rightarrow> pystr) \<Rightarrow> nat \<Rightarrow> item_request \<Rightarrow> item_params" where
  "item_to_params iid ids n q =
     \<lparr>ip_id = iid, ip_slug = iq_slug q,
      ip_question_ru = iz_question (its_ru (iq_translations q)), ip_question_en = iz_question (its_en (iq_translations q)),
      ip_publish_status = iq_publish_status q,
      ip_answer_ru = iz_answer (its_ru (iq_translations q)), ip_answer_en = iz_answer (its_en (iq_translations q)),
      ip_explanation_ru = iz_explanation (its_ru (iq_translations q)),
      ip_explanation_en = iz_explanation (its_en (iq_translations q)),
      ip_subsection_id = iq_subsection_id q, ip_grade = iq_grade q, ip_interview_frequency = iq_interview_frequency q,
      ip_resources = to_resource_attachments ids n (iq_resources q)\<rparr>"

definition item_to_create_schema :: "(nat \<Rightarrow> pystr) \<Rightarrow> item_request \<Rightarrow> item_params" where
  "item_to_create_schema ids q = item_to_params (ids 0) ids 1 q"

definition item_to_update_schema :: "pystr \<Rightarrow> (nat \<Rightarrow> pystr) \<Rightarrow> item_request \<Rightarrow> item_params" where
  "item_to_update_schema iid ids q = item_to_params iid ids 0 q"

section \<open>The grouped list\<close>

text \<open>\<open>itertools.groupby\<close>: the runs of consecutive elements with the same key.\<close>

function groupby :: "('a \<Rightarrow> 'k) \<Rightarrow> 'a list \<Rightarrow> ('k \<times> 'a list) list" where
  "groupby f [] = []"
| "groupby f (x # xs) =
     (f x, x # takeWhile (\<lambda>y. f y = f x) xs) # groupby f (dropWhile (\<lambda>y. f y = f x) xs)"
  by pat_completeness auto

termination
  by (relation "measure (length \<circ> snd)") (simp_all add: le_imp_less_Suc length_dropWhile_le)

definition localized_section :: "language \<Rightarrow> matrix_item \<Rightarrow> pystr" where
  "localized_section lang i = localized lang (ns_section_ru (mi_structure i)) (ns_section_en (mi_structure i))"

definition localized_subsection :: "language \<Rightarrow> matrix_item \<Rightarrow> pystr" where
  "localized_subsection lang i = localized lang (ns_subsection_ru (mi_structure i)) (ns_subsection_en (mi_structure i))"

text \<open>
  The schemas of the public list and of the list of the editors differ only in the schema of an item, the type
  parameter of the groups.
\<close>

record 'i grouped_grades =
  gg_grade :: "grade option"
  gg_items :: "'i list"

definition grouped_grades_of :: "(matrix_item \<Rightarrow> 'i) \<Rightarrow> grade option \<Rightarrow> matrix_item list \<Rightarrow> 'i grouped_grades" where
  "grouped_grades_of f grade its = \<lparr>gg_grade = grade, gg_items = map f its\<rparr>"

record 'i grouped_subsections =
  gb_subsection :: pystr
  gb_grades :: "'i grouped_grades list"

definition grouped_subsections_of :: "(matrix_item \<Rightarrow> 'i) \<Rightarrow> pystr \<Rightarrow> matrix_item list \<Rightarrow> 'i grouped_subsections" where
  "grouped_subsections_of f subsection its =
     \<lparr>gb_subsection = subsection, gb_grades = map (\<lambda>(g, xs). grouped_grades_of f g xs) (groupby mi_grade its)\<rparr>"

record 'i grouped_sections =
  gs_section :: pystr
  gs_subsections :: "'i grouped_subsections list"

definition grouped_sections_of ::
  "language \<Rightarrow> (matrix_item \<Rightarrow> 'i) \<Rightarrow> pystr \<Rightarrow> matrix_item list \<Rightarrow> 'i grouped_sections" where
  "grouped_sections_of lang f section its =
     \<lparr>gs_section = section,
      gs_subsections = map (\<lambda>(b, xs). grouped_subsections_of f b xs) (groupby (localized_subsection lang) its)\<rparr>"

record 'i items_list =
  gl_sheet_key :: pystr
  gl_sheet :: pystr
  gl_sections :: "'i grouped_sections list"

definition items_list_of :: "language \<Rightarrow> (matrix_item \<Rightarrow> 'i) \<Rightarrow> pystr \<Rightarrow> matrix_item list \<Rightarrow> 'i items_list" where
  "items_list_of lang f sheet_key values =
     (case filter (\<lambda>i. ns_sheet_key (mi_structure i) = sheet_key) values of
        [] \<Rightarrow> \<lparr>gl_sheet_key = sheet_key, gl_sheet = [], gl_sections = []\<rparr>
      | i # its \<Rightarrow>
          \<lparr>gl_sheet_key = sheet_key,
           gl_sheet = localized lang (ns_sheet_ru (mi_structure i)) (ns_sheet_en (mi_structure i)),
           gl_sections = map (\<lambda>(s, xs). grouped_sections_of lang f s xs) (groupby (localized_section lang) (i # its))\<rparr>)"

definition admin_items_list :: "language \<Rightarrow> pystr \<Rightarrow> matrix_item list \<Rightarrow> item_response items_list" where
  "admin_items_list lang = items_list_of lang (item_response_of lang)"

definition public_items_list :: "language \<Rightarrow> pystr \<Rightarrow> matrix_item list \<Rightarrow> public_item_response items_list" where
  "public_items_list lang = items_list_of lang (public_item_response_of lang)"

record sheet_response =
  hr_key :: pystr
  hr_name :: pystr

definition sheet_response_of :: "language \<Rightarrow> public_sheet \<Rightarrow> sheet_response" where
  "sheet_response_of lang s = \<lparr>hr_key = pk_key s, hr_name = localized lang (pk_name_ru s) (pk_name_en s)\<rparr>"

definition sheets_response :: "language \<Rightarrow> public_sheet list \<Rightarrow> sheet_response list" where
  "sheets_response lang shs = map (sheet_response_of lang) shs"

section \<open>The workspace\<close>

record workspace_item_response =
  wr_id :: pystr
  wr_slug :: pystr
  wr_question :: pystr
  wr_sheet_key :: pystr
  wr_sheet :: pystr
  wr_grade :: "grade option"
  wr_interview_frequency :: "interview_frequency option"
  wr_section :: pystr
  wr_subsection :: pystr
  wr_publish_status :: publish_status
  wr_published_at :: "pystr option"
  wr_missing_fields :: "missing_field list"

definition workspace_item_response_of :: "workspace_item \<Rightarrow> workspace_item_response" where
  "workspace_item_response_of i =
     \<lparr>wr_id = wi_id i, wr_slug = wi_slug i, wr_question = wi_question i, wr_sheet_key = wi_sheet_key i,
      wr_sheet = wi_sheet i, wr_grade = wi_grade i, wr_interview_frequency = wi_interview_frequency i,
      wr_section = wi_section i, wr_subsection = wi_subsection i, wr_publish_status = wi_publish_status i,
      wr_published_at = map_option datetime_isoformat (wi_published_at i), wr_missing_fields = wi_missing_fields i\<rparr>"

record workspace_summary_response =
  wsr_total :: int
  wsr_draft :: int
  wsr_missing_draft :: int
  wsr_dangerous_published :: int
  wsr_ready_published :: int

definition workspace_summary_response_of :: "workspace_summary \<Rightarrow> workspace_summary_response" where
  "workspace_summary_response_of s =
     \<lparr>wsr_total = ws_total s, wsr_draft = ws_draft s, wsr_missing_draft = ws_missing_draft s,
      wsr_dangerous_published = ws_dangerous_published s, wsr_ready_published = ws_ready_published s\<rparr>"

record workspace_response =
  wkr_total_count :: int
  wkr_total_pages :: int
  wkr_summary :: workspace_summary_response
  wkr_items :: "workspace_item_response list"

definition workspace_response_of :: "workspace \<Rightarrow> workspace_response" where
  "workspace_response_of w =
     \<lparr>wkr_total_count = wk_total_count w, wkr_total_pages = wk_total_pages w,
      wkr_summary = workspace_summary_response_of (wk_summary w),
      wkr_items = map workspace_item_response_of (wk_values w)\<rparr>"

record subsection_option_response =
  bor_id :: pystr
  bor_label :: pystr

definition subsection_option_response_of :: "subsection_option \<Rightarrow> subsection_option_response" where
  "subsection_option_response_of o1 = \<lparr>bor_id = bo_id o1, bor_label = bo_label o1\<rparr>"

record section_option_response =
  cor_id :: pystr
  cor_label :: pystr
  cor_subsections :: "subsection_option_response list"

definition section_option_response_of :: "section_option \<Rightarrow> section_option_response" where
  "section_option_response_of s =
     \<lparr>cor_id = co_id s, cor_label = co_label s, cor_subsections = map subsection_option_response_of (co_subsections s)\<rparr>"

record sheet_option_response =
  hor_key :: pystr
  hor_label :: pystr
  hor_sections :: "section_option_response list"

definition sheet_option_response_of :: "sheet_option \<Rightarrow> sheet_option_response" where
  "sheet_option_response_of s =
     \<lparr>hor_key = ho_key s, hor_label = ho_label s, hor_sections = map section_option_response_of (ho_sections s)\<rparr>"

record filter_options_response =
  fxr_sheets :: "sheet_option_response list"
  fxr_grades :: "grade list"
  fxr_interview_frequencies :: "interview_frequency list"
  fxr_sections :: "pystr list"
  fxr_subsections :: "pystr list"
  fxr_publish_statuses :: "publish_status list"

definition filter_options_response_of :: "filter_options \<Rightarrow> filter_options_response" where
  "filter_options_response_of x =
     \<lparr>fxr_sheets = map sheet_option_response_of (fx_sheets x), fxr_grades = fx_grades x,
      fxr_interview_frequencies = fx_interview_frequencies x, fxr_sections = fx_sections x,
      fxr_subsections = fx_subsections x, fxr_publish_statuses = fx_publish_statuses x\<rparr>"

section \<open>Dependencies\<close>

record workspace_query =
  wq_page :: int
  wq_page_size :: int
  wq_language :: language
  wq_sort :: workspace_sort
  wq_search_query :: "pystr option"
  wq_sheet_keys :: "pystr list option"
  wq_grades :: "grade list option"
  wq_interview_frequencies :: "interview_frequency list option"
  wq_section_ids :: "pystr list option"
  wq_subsection_ids :: "pystr list option"
  wq_sections :: "pystr list option"
  wq_subsections :: "pystr list option"
  wq_publish_statuses :: "publish_status list option"
  wq_published_from :: "date option"
  wq_published_to :: "date option"
  wq_has_missing_fields :: "bool option"

definition or_empty :: "'a list option \<Rightarrow> 'a list" where
  "or_empty v = (case v of None \<Rightarrow> [] | Some xs \<Rightarrow> xs)"

definition provide_workspace_filters :: "workspace_query \<Rightarrow> error + workspace_filters" where
  "provide_workspace_filters q =
     and_then (page_query (wq_page q)) (\<lambda>page.
     and_then (page_size_query (wq_page_size q)) (\<lambda>page_size.
     Inr \<lparr>wf_page = page, wf_page_size = page_size, wf_language = wq_language q, wf_sort = wq_sort q,
       wf_search_query = normalized_search_query (wq_search_query q), wf_sheet_keys = or_empty (wq_sheet_keys q),
       wf_grades = or_empty (wq_grades q), wf_interview_frequencies = or_empty (wq_interview_frequencies q),
       wf_section_ids = or_empty (wq_section_ids q), wf_subsection_ids = or_empty (wq_subsection_ids q),
       wf_sections = or_empty (wq_sections q), wf_subsections = or_empty (wq_subsections q),
       wf_publish_statuses = or_empty (wq_publish_statuses q), wf_published_from = wq_published_from q,
       wf_published_to = wq_published_to q, wf_has_missing_fields = wq_has_missing_fields q\<rparr>))"

record client_request =
  cl_forwarded_for :: "pystr option"
  cl_real_ip :: "pystr option"
  cl_host :: "pystr option"

definition nonblank :: "pystr option \<Rightarrow> pystr option" where
  "nonblank v = (case v of None \<Rightarrow> None | Some s \<Rightarrow> if strip s = [] then None else Some (strip s))"

definition provide_limit_params :: "env \<Rightarrow> client_request \<Rightarrow> limit_params" where
  "provide_limit_params env r =
     \<lparr>lp_client_identifier =
        (case nonblank (map_option (\<lambda>s. fst (partition_at 44 s)) (cl_forwarded_for r)) of
           Some client \<Rightarrow> client
         | None \<Rightarrow> (case nonblank (cl_real_ip r) of
             Some client \<Rightarrow> client
           | None \<Rightarrow> (case cl_host r of None \<Rightarrow> [] | Some host \<Rightarrow> host))),
      lp_now = env_now env\<rparr>"

fun role_value :: "role \<Rightarrow> pystr" where
  "role_value ANON = u ''anon''"
| "role_value USER = u ''user''"
| "role_value MODERATOR = u ''moderator''"
| "role_value ADMIN = u ''admin''"
| "role_value OWNER = u ''owner''"

definition provide_suggested_by_username :: "user_identity \<Rightarrow> pystr" where
  "provide_suggested_by_username i = (if is_anon i then role_value (role i) else username i)"

end
