(* ===== verification/Response_Cache.thy ===== *)
theory Response_Cache
  imports Api_Matrix
begin

text \<open>
  The cache of responses: \<open>ResponseCacheDomain\<close> and \<open>ResponseCacheDomainStore\<close> of
  \<open>entrypoints/litestar/response_cache.py\<close>.  A key starts with the value of a domain, and each domain
  has a store of its own.  The stores are those of the web framework; the record \<open>store_ops\<close> is what
  the code calls of them and the locale \<open>kv_store\<close> what their documentation promises.
\<close>

section \<open>Stores\<close>

text \<open>
  \<open>so_get k renew s\<close> returns the value and the store after the time to live of a hit has been renewed.
\<close>

record ('st, 'v) store_ops =
  so_set :: "pystr \<Rightarrow> 'v \<Rightarrow> int option \<Rightarrow> 'st \<Rightarrow> 'st"
  so_get :: "pystr \<Rightarrow> int option \<Rightarrow> 'st \<Rightarrow> 'v option \<times> 'st"
  so_delete :: "pystr \<Rightarrow> 'st \<Rightarrow> 'st"
  so_delete_all :: "'st \<Rightarrow> 'st"
  so_exists :: "pystr \<Rightarrow> 'st \<Rightarrow> bool"
  so_expires_in :: "pystr \<Rightarrow> 'st \<Rightarrow> int option"

locale kv_store =
  fixes ops :: "('st, 'v) store_ops"
    and view :: "'st \<Rightarrow> pystr \<Rightarrow> 'v option"
  assumes set_view: "view (so_set ops k v expires s) = (view s)(k \<mapsto> v)"
    and get_value: "fst (so_get ops k renew s) = view s k"
    and get_view: "view (snd (so_get ops k renew s)) = view s"
    and delete_view: "view (so_delete ops k s) = (view s)(k := None)"
    and delete_all_view: "view (so_delete_all ops s) = Map.empty"
    and exists_view: "so_exists ops k s \<longleftrightarrow> view s k \<noteq> None"

text \<open>A store in memory: a map with the time to live that each value was stored with.\<close>

definition memory_ops :: "(pystr \<rightharpoonup> 'v \<times> int option, 'v) store_ops" where
  "memory_ops =
     \<lparr>so_set = (\<lambda>k v expires m. m(k \<mapsto> (v, expires))),
      so_get = (\<lambda>k renew m. case m k of
          None \<Rightarrow> (None, m)
        | Some (v, expires) \<Rightarrow> (Some v, m(k \<mapsto> (v, if renew = None then expires else renew)))),
      so_delete = (\<lambda>k m. m(k := None)),
      so_delete_all = (\<lambda>m. Map.empty),
      so_exists = (\<lambda>k m. m k \<noteq> None),
      so_expires_in = (\<lambda>k m. case m k of None \<Rightarrow> None | Some (v, expires) \<Rightarrow> expires)\<rparr>"

definition memory_view :: "(pystr \<rightharpoonup> 'v \<times> int option) \<Rightarrow> pystr \<rightharpoonup> 'v" where
  "memory_view m = (\<lambda>k. map_option fst (m k))"

interpretation memory: kv_store memory_ops memory_view
  by unfold_locales
    (auto simp: memory_ops_def memory_view_def fun_eq_iff split: option.splits)

section \<open>Domains\<close>

datatype cache_domain = DOMAIN_HEALTHCHECK | DOMAIN_ARTICLES | DOMAIN_MATRIX

fun cache_domain_value :: "cache_domain \<Rightarrow> pystr" where
  "cache_domain_value DOMAIN_HEALTHCHECK = u ''healthcheck''"
| "cache_domain_value DOMAIN_ARTICLES = u ''articles''"
| "cache_domain_value DOMAIN_MATRIX = u ''competency_matrix''"

definition cache_domains_all :: "cache_domain list" where
  "cache_domains_all = [DOMAIN_HEALTHCHECK, DOMAIN_ARTICLES, DOMAIN_MATRIX]"

definition domain_key_separator :: nat where
  "domain_key_separator = 58"

text \<open>The key that the builder of a domain makes of the key of the framework for the request.\<close>

definition cache_key :: "cache_domain \<Rightarrow> pystr \<Rightarrow> pystr" where
  "cache_key domain key = cache_domain_value domain @ [domain_key_separator] @ key"

type_synonym 'st stores = "cache_domain \<Rightarrow> 'st"

definition get_domain_store :: "pystr \<Rightarrow> error + cache_domain \<times> pystr" where
  "get_domain_store key =
     (case partition_at domain_key_separator key of
        (domain_value, None) \<Rightarrow> Inl ImproperlyConfiguredException
      | (domain_value, Some store_key) \<Rightarrow>
          if store_key = [] then Inl ImproperlyConfiguredException
          else (case from_value cache_domains_all cache_domain_value domain_value of
                  None \<Rightarrow> Inl ImproperlyConfiguredException
                | Some domain \<Rightarrow> Inr (domain, store_key)))"

definition domain_set :: "('st, 'v) store_ops \<Rightarrow> pystr \<Rightarrow> 'v \<Rightarrow> int option \<Rightarrow> (error, 'st stores, unit) action" where
  "domain_set ops key value expires =
     bind (lift (get_domain_store key)) (\<lambda>(domain, store_key).
     modify (\<lambda>ss. ss(domain := so_set ops store_key value expires (ss domain))))"

definition domain_get :: "('st, 'v) store_ops \<Rightarrow> pystr \<Rightarrow> int option \<Rightarrow> (error, 'st stores, 'v option) action" where
  "domain_get ops key renew =
     bind (lift (get_domain_store key)) (\<lambda>(domain, store_key). \<lambda>ss.
       case so_get ops store_key renew (ss domain) of (v, s) \<Rightarrow> (Inr v, ss(domain := s)))"

definition domain_delete :: "('st, 'v) store_ops \<Rightarrow> pystr \<Rightarrow> (error, 'st stores, unit) action" where
  "domain_delete ops key =
     bind (lift (get_domain_store key)) (\<lambda>(domain, store_key).
     modify (\<lambda>ss. ss(domain := so_delete ops store_key (ss domain))))"

definition domain_exists :: "('st, 'v) store_ops \<Rightarrow> pystr \<Rightarrow> (error, 'st stores, bool) action" where
  "domain_exists ops key =
     bind (lift (get_domain_store key)) (\<lambda>(domain, store_key). gets (\<lambda>ss. so_exists ops store_key (ss domain)))"

definition domain_expires_in :: "('st, 'v) store_ops \<Rightarrow> pystr \<Rightarrow> (error, 'st stores, int option) action" where
  "domain_expires_in ops key =
     bind (lift (get_domain_store key)) (\<lambda>(domain, store_key). gets (\<lambda>ss. so_expires_in ops store_key (ss domain)))"

definition delete_all :: "('st, 'v) store_ops \<Rightarrow> (error, 'st stores, unit) action" where
  "delete_all ops = modify (\<lambda>ss domain. so_delete_all ops (ss domain))"

definition delete_domain :: "('st, 'v) store_ops \<Rightarrow> cache_domain \<Rightarrow> (error, 'st stores, unit) action" where
  "delete_domain ops domain = modify (\<lambda>ss. ss(domain := so_delete_all ops (ss domain)))"

text \<open>The domains of the administration: those of the response cache without the health check.\<close>

datatype admin_domain = ADMIN_ARTICLES | ADMIN_MATRIX

fun admin_domain_value :: "admin_domain \<Rightarrow> pystr" where
  "admin_domain_value ADMIN_ARTICLES = u ''articles''"
| "admin_domain_value ADMIN_MATRIX = u ''competency_matrix''"

definition clear_domains :: "('st, 'v) store_ops \<Rightarrow> admin_domain list \<Rightarrow> (error, 'st stores, unit) action" where
  "clear_domains ops domains =
     for_each domains (\<lambda>domain.
       bind (lift (require ValueError (from_value cache_domains_all cache_domain_value (admin_domain_value domain))))
         (delete_domain ops))"

section \<open>Routing\<close>

lemma domain_values:
  "from_value cache_domains_all cache_domain_value (cache_domain_value domain) = Some domain"
  "domain_key_separator \<notin> set (cache_domain_value domain)"
  by (cases domain; simp add: from_value_def cache_domains_all_def u_def domain_key_separator_def)+

lemma get_domain_store_key: "key \<noteq> [] \<Longrightarrow> get_domain_store (cache_key domain key) = Inr (domain, key)"
  using partition_at_found[OF domain_values(2)[of domain], of key] domain_values(1)[of domain]
  by (simp add: get_domain_store_def cache_key_def)

fun domain_of_admin :: "admin_domain \<Rightarrow> cache_domain" where
  "domain_of_admin ADMIN_ARTICLES = DOMAIN_ARTICLES"
| "domain_of_admin ADMIN_MATRIX = DOMAIN_MATRIX"

lemma domain_of_admin: "from_value cache_domains_all cache_domain_value (admin_domain_value d) = Some (domain_of_admin d)"
  by (cases d) (simp_all add: from_value_def cache_domains_all_def u_def)

context kv_store
begin

lemma domain_set_run:
  "key \<noteq> [] \<Longrightarrow> domain_set ops (cache_key domain key) v expires ss =
     (Inr (), ss(domain := so_set ops key v expires (ss domain)))"
  by (simp add: domain_set_def run_simps get_domain_store_key)

lemma domain_get_run:
  "key \<noteq> [] \<Longrightarrow> domain_get ops (cache_key domain key) renew ss =
     (Inr (view (ss domain) key), ss(domain := snd (so_get ops key renew (ss domain))))"
  by (simp add: domain_get_def run_simps get_domain_store_key get_value prod.case_eq_if)

lemma delete_domain_run:
  "fst (delete_domain ops domain ss) = Inr ()"
  "view (snd (delete_domain ops domain ss) domain') = (if domain' = domain then Map.empty else view (ss domain'))"
  by (simp_all add: delete_domain_def run_simps delete_all_view)

lemma clear_domains_run:
  "fst (clear_domains ops domains ss) = Inr ()
   \<and> view (snd (clear_domains ops domains ss) domain) =
       (if domain \<in> domain_of_admin ` set domains then Map.empty else view (ss domain))"
proof (induction domains arbitrary: ss)
  case Nil
  then show ?case by (simp add: clear_domains_def run_simps)
next
  case (Cons d ds)
  have step: "clear_domains ops (d # ds) ss = clear_domains ops ds (snd (delete_domain ops (domain_of_admin d) ss))"
    by (simp add: clear_domains_def run_simps domain_of_admin require_def delete_domain_def)
  show ?case unfolding step using Cons.IH by (auto simp: delete_domain_run)
qed

end

end
