(* ===== verification/Api_Analytics.thy ===== *)
theory Api_Analytics
  imports Api_Matrix
begin

text \<open>
  The API of the site analytics: the use case of \<open>core/analytics/use_cases.py\<close>, the schemas of
  \<open>entrypoints/litestar/api/analytics/schemas.py\<close> and the filters of its \<open>dependencies.py\<close>.  The tokens of a
  request are the canonical texts of its UUIDs, which pydantic has read before.
\<close>

section \<open>Use case\<close>

definition record_public_visit :: "env \<Rightarrow> analytics_config \<Rightarrow> analytics_visit \<Rightarrow> date \<Rightarrow> unit dbm" where
  "record_public_visit env cfg visit day =
     (if av_kind visit = KIND_MATRIX
      then (case partition_at 47 (av_target_id visit) of
              (_, None) \<Rightarrow> raise ValueError
            | (sheet_key, Some slug) \<Rightarrow>
                bind (get_competency_matrix_item_by_slug sheet_key slug) (\<lambda>item.
                if \<not> item_is_available item then raise CompetencyMatrixItemNotFoundError
                else record_visit env cfg (visit\<lparr>av_target_id := mi_id item\<rparr>) day))
      else if av_kind visit = KIND_SITE
      then (case from_value public_pages_all public_page_value (av_target_id visit) of
              None \<Rightarrow> raise ValueError
            | Some _ \<Rightarrow> record_visit env cfg visit day)
      else record_visit env cfg visit day)"

record analytics_report =
  rep_daily :: "report_line list"
  rep_current_reactions :: "(pystr, reaction_counts) dict"

definition report_article_ids :: "report_line list \<Rightarrow> pystr list" where
  "report_article_ids daily = fromkeys (map ay_target_id daily)"

definition get_report :: "analytics_filters \<Rightarrow> analytics_report dbm" where
  "get_report filters =
     bind (get_daily filters) (\<lambda>daily.
     if gf_kind filters = KIND_ARTICLES
     then bind (get_reaction_counts (report_article_ids daily)) (\<lambda>counts.
       ret \<lparr>rep_daily = daily, rep_current_reactions = counts\<rparr>)
     else ret \<lparr>rep_daily = daily, rep_current_reactions = []\<rparr>)"

section \<open>Visits\<close>

record visit_request =
  vq_kind :: analytics_kind
  vq_target_id :: pystr
  vq_event :: analytics_event
  vq_source :: view_source
  vq_visitor_token :: pystr
  vq_visit_token :: pystr

text \<open>\<open>[a-z0-9]+(?:-[a-z0-9]+)*/[a-z0-9]+(?:-[a-z0-9]+)*\<close> on the whole text: no slug contains the separator.\<close>

definition is_matrix_target :: "pystr \<Rightarrow> bool" where
  "is_matrix_target t \<longleftrightarrow>
     (case partition_at 47 t of
        (_, None) \<Rightarrow> False
      | (sheet_key, Some slug) \<Rightarrow> is_slug sheet_key \<and> is_slug slug)"

definition validate_target :: "visit_request \<Rightarrow> error + visit_request" where
  "validate_target q =
     (if vq_kind q = KIND_SITE
      then (case from_value public_pages_all public_page_value (vq_target_id q) of None \<Rightarrow> Inl ValueError | Some _ \<Rightarrow> Inr q)
      else if \<not> is_matrix_target (vq_target_id q) then Inl ValueError
      else Inr q)"

definition validate_visit_request :: "visit_request \<Rightarrow> error + visit_request" where
  "validate_visit_request q =
     (if vq_kind q \<notin> {KIND_SITE, KIND_MATRIX} then Inl ValidationError
      else and_then (field_length 1 511 (vq_target_id q)) (\<lambda>_. after_validator validate_target q))"

definition visit_to_domain :: "visit_request \<Rightarrow> analytics_visit" where
  "visit_to_domain q =
     \<lparr>av_kind = vq_kind q, av_target_id = vq_target_id q, av_event = vq_event q, av_source = vq_source q,
      av_visitor_token = vq_visitor_token q, av_visit_token = vq_visit_token q\<rparr>"

section \<open>Reports\<close>

record report_query =
  gq_kind :: analytics_kind
  gq_date_from :: date
  gq_date_to :: date
  gq_language :: language
  gq_source :: "view_source option"
  gq_target_id :: "pystr option"
  gq_group_id :: "pystr option"
  gq_section_id :: "pystr option"
  gq_search :: "pystr option"

definition maximum_range_days :: int where
  "maximum_range_days = 1095"

text \<open>The parameters of the query are texts of at most 255 characters; today comes from the clock.\<close>

definition provide_analytics_filters :: "date \<Rightarrow> report_query \<Rightarrow> error + analytics_filters" where
  "provide_analytics_filters today q =
     (if \<exists>v \<in> {gq_target_id q, gq_group_id q, gq_section_id q, gq_search q}. \<not> short_option 255 v then Inl ValidationError
      else if gq_date_to q < gq_date_from q \<or> gq_date_to q - gq_date_from q > maximum_range_days then Inl ValidationError
      else if gq_date_to q > today then Inl ValidationError
      else Inr \<lparr>gf_kind = gq_kind q, gf_date_from = gq_date_from q, gf_date_to = gq_date_to q, gf_language = gq_language q,
        gf_source = gq_source q, gf_target_id = gq_target_id q, gf_group_id = gq_group_id q,
        gf_section_id = gq_section_id q,
        gf_search = (case gq_search q of None \<Rightarrow> None | Some s \<Rightarrow> if s = [] then None else Some (strip s))\<rparr>)"

record analytics_daily_response =
  adr_date :: date
  adr_target_id :: pystr
  adr_title :: pystr
  adr_group_id :: pystr
  adr_group_title :: pystr
  adr_section_id :: pystr
  adr_section_title :: pystr
  adr_source :: view_source
  adr_counts :: increments

definition analytics_daily_response_of :: "report_line \<Rightarrow> analytics_daily_response" where
  "analytics_daily_response_of l =
     \<lparr>adr_date = ay_date l, adr_target_id = ay_target_id l, adr_title = ay_title l, adr_group_id = ay_group_id l,
      adr_group_title = ay_group_title l, adr_section_id = ay_section_id l, adr_section_title = ay_section_title l,
      adr_source = ay_source l, adr_counts = ay_counts l\<rparr>"

record analytics_report_response =
  arr_date_from :: date
  arr_date_to :: date
  arr_kind :: analytics_kind
  arr_daily :: "analytics_daily_response list"
  arr_current_reactions :: "(pystr \<times> reaction_counts_response) list"

definition analytics_report_response_of :: "analytics_filters \<Rightarrow> analytics_report \<Rightarrow> analytics_report_response" where
  "analytics_report_response_of filters report =
     \<lparr>arr_date_from = gf_date_from filters, arr_date_to = gf_date_to filters, arr_kind = gf_kind filters,
      arr_daily = map analytics_daily_response_of (rep_daily report),
      arr_current_reactions = map (\<lambda>(aid, counts). (aid, reaction_counts_response_of counts)) (rep_current_reactions report)\<rparr>"

end
