(* ===== verification/Api_Endpoints.thy ===== *)
theory Api_Endpoints
  imports Response_Cache Api_Analytics
begin

text \<open>
  The endpoints of \<open>entrypoints/litestar/api\<close>: those of the articles, of the competency matrix, of the
  files and of the wiki links.  An endpoint validates its request, calls a use case, registers what has to happen
  after the commit and builds its response.  The session of a request is committed when the endpoint returns and
  rolled back when it raises (\<open>infra/ioc/prodivers/database_provider.py\<close>).  The guards of the routes
  belong to the authentication library and run before the endpoint.  The searches of tags and resources by
  trigrams are not modelled.
\<close>

section \<open>Requests and sessions\<close>

text \<open>
  What the container provides to an endpoint: the environment, the parameters for the libraries, the
  permission to publish, the user, the identifiers that the generator returns, the current time, the
  setting of the cache and the key that the framework builds for a path and a query.
\<close>

record api =
  ax_env :: env
  ax_search :: search_ops
  ax_adapters :: adapters
  ax_images :: image_ops
  ax_imports :: import_ops
  ax_publication :: publication_access
  ax_user :: user_identity
  ax_new_id :: "nat \<Rightarrow> pystr"
  ax_now :: datetime
  ax_use_cache :: bool
  ax_default_key :: "pystr \<Rightarrow> (pystr \<times> pystr) list \<Rightarrow> pystr"

record 'q session =
  sn_world :: world
  sn_quota :: 'q
  sn_post_commit :: "cache_domain list"

type_synonym ('q, 'a) handler = "(error, 'q session, 'a) action"

definition on_world :: "'a wm \<Rightarrow> ('q, 'a) handler" where
  "on_world m = (\<lambda>s. case m (sn_world s) of (r, w) \<Rightarrow> (r, s\<lparr>sn_world := w\<rparr>))"

definition on_database :: "'a dbm \<Rightarrow> ('q, 'a) handler" where
  "on_database m = on_world (in_db m)"

definition on_database_and_quota :: "(error, db \<times> 'q, 'a) action \<Rightarrow> ('q, 'a) handler" where
  "on_database_and_quota m = (\<lambda>s.
     case m (w_db (sn_world s), sn_quota s) of
       (r, (d, q)) \<Rightarrow> (r, s\<lparr>sn_world := (sn_world s)\<lparr>w_db := d\<rparr>, sn_quota := q\<rparr>))"

definition invalidate_response_cache_domain_for_mutation :: "api \<Rightarrow> cache_domain \<Rightarrow> ('q, unit) handler" where
  "invalidate_response_cache_domain_for_mutation c domain =
     (if \<not> ax_use_cache c then ret ()
      else modify (\<lambda>s. s\<lparr>sn_post_commit := sn_post_commit s @ [domain]\<rparr>))"

record file_response =
  fl_id :: pystr
  fl_purpose :: file_purpose
  fl_namespace :: pystr
  fl_relative_path :: pystr
  fl_mime_type :: pystr
  fl_size_bytes :: int
  fl_name :: pystr
  fl_original_name :: pystr
  fl_access_url :: pystr
  fl_markdown_url :: pystr
  fl_created_at :: datetime
  fl_updated_at :: datetime

definition file_response_of :: "adapters \<Rightarrow> file_read \<Rightarrow> error + file_response" where
  "file_response_of ops r =
     (if ad_http_url ops (fr_access_url r) \<and> ad_http_url ops (fr_markdown_url r)
      then let f = fr_file r in
        Inr \<lparr>fl_id = sf_id f, fl_purpose = sf_purpose f, fl_namespace = sf_namespace f,
          fl_relative_path = sf_relative_path f, fl_mime_type = sf_mime_type f, fl_size_bytes = sf_size_bytes f,
          fl_name = sf_name f, fl_original_name = sf_original_name f, fl_access_url = fr_access_url r,
          fl_markdown_url = fr_markdown_url r, fl_created_at = sf_created_at f, fl_updated_at = sf_updated_at f\<rparr>
      else Inl ValidationError)"

datatype response =
    NoContent
  | ArticleListResponse article_list_response
  | ArticleTreeResponse "tree_folder_response list"
  | ArticleDetailResponse article_detail_response
  | TagsResponse "tag_response list"
  | TagResponse tag_response
  | FoldersResponse "folder_response list"
  | FolderResponse folder_response
  | PublicStatsResponse "public_stats_response list"
  | ArticleStatsResponse analytics_stats_response
  | SheetsResponse "sheet_response list"
  | PublicItemsResponse "public_item_response items_list"
  | PublicItemDetailResponse public_item_detail_response
  | StructureResponse "structure_sheet_response list"
  | StructureSheetResponse structure_sheet_response
  | StructureSectionResponse structure_section_response
  | StructureSubsectionResponse structure_subsection_response
  | QueuedQuestionsResponse "queued_question_response list"
  | QueuedQuestionResponse queued_question_response
  | ImportPreviewResponse "preview_row_response list"
  | WorkspaceResponse workspace_response
  | FilterOptionsResponse filter_options_response
  | ItemsResponse "item_response items_list"
  | ItemDetailResponse item_detail_response
  | FileResponse file_response
  | FilesResponse "file_response list"
  | WikiLinkTargetsResponse "wiki_link_target_group list"
  | AnalyticsReportResponse analytics_report_response

definition respond :: "('a \<Rightarrow> response) \<Rightarrow> error + 'a \<Rightarrow> ('q, response) handler" where
  "respond f r = lift (case r of Inl e \<Rightarrow> Inl e | Inr a \<Rightarrow> Inr (f a))"

section \<open>Public endpoints with cached responses\<close>

definition public_list_articles :: "api \<Rightarrow> list_query \<Rightarrow> ('q, response) handler" where
  "public_list_articles c q =
     bind (lift (provide_public_article_filters q)) (\<lambda>filters.
     bind (on_database (uc_list_articles (ax_env c) (ax_search c) filters)) (\<lambda>articles.
     respond ArticleListResponse (article_list_of (ax_adapters c) (af_language filters) articles)))"

definition public_list_articles_tree :: "api \<Rightarrow> language \<Rightarrow> ('q, response) handler" where
  "public_list_articles_tree c lang =
     bind (on_database (list_tree True lang)) (\<lambda>tree. ret (ArticleTreeResponse (tree_response tree)))"

definition public_get_article :: "api \<Rightarrow> pystr \<Rightarrow> language \<Rightarrow> ('q, response) handler" where
  "public_get_article c slug lang =
     bind (on_database (get_article (ax_env c) slug True)) (\<lambda>article.
     respond ArticleDetailResponse (article_detail_of (ax_adapters c) lang article))"

definition public_list_tags :: "api \<Rightarrow> language \<Rightarrow> ('q, response) handler" where
  "public_list_tags c lang =
     bind (on_database (list_tags lang True)) (\<lambda>tags. respond TagsResponse (tags_response lang tags))"

definition public_list_sheets :: "api \<Rightarrow> language \<Rightarrow> ('q, response) handler" where
  "public_list_sheets c lang =
     bind (on_database list_sheets) (\<lambda>sheets. ret (SheetsResponse (sheets_response lang sheets)))"

definition public_list_items :: "api \<Rightarrow> pystr \<Rightarrow> language \<Rightarrow> ('q, response) handler" where
  "public_list_items c sheet_key lang =
     bind (on_database (list_items \<lparr>mf_sheet_key = Some sheet_key, mf_only_published = Some True\<rparr>)) (\<lambda>items.
     ret (PublicItemsResponse (public_items_list lang sheet_key items)))"

definition public_get_item :: "api \<Rightarrow> pystr \<Rightarrow> pystr \<Rightarrow> language \<Rightarrow> ('q, response) handler" where
  "public_get_item c sheet_key slug lang =
     bind (on_database (get_item_by_slug sheet_key slug True)) (\<lambda>item.
     respond PublicItemDetailResponse (public_item_detail_of lang item))"

section \<open>Public endpoints without cache\<close>

definition public_get_stats :: "api \<Rightarrow> pystr list \<Rightarrow> ('q, response) handler" where
  "public_get_stats c article_ids =
     bind (ensure (article_ids \<noteq> []) ValidationError) (\<lambda>_.
     bind (on_database (get_public_stats article_ids)) (\<lambda>stats.
     ret (PublicStatsResponse (public_stats_collection_response stats))))"

definition post_article_view ::
  "api \<Rightarrow> article_analytics_config \<Rightarrow> pystr \<Rightarrow> view_source option \<Rightarrow> pystr option \<Rightarrow> ('q, response) handler" where
  "post_article_view c cfg slug source referer =
     (if can_manage_content (ax_user c) then ret NoContent
      else
        bind (on_database (get_article (ax_env c) slug True)) (\<lambda>article.
        bind (on_database (case source of
                Some category \<Rightarrow> track_view (ax_env c) article category
              | None \<Rightarrow> track_public_view (ax_env c) article referer cfg)) (\<lambda>_.
        ret NoContent)))"

definition post_article_engaged_view :: "api \<Rightarrow> pystr \<Rightarrow> view_source option \<Rightarrow> ('q, response) handler" where
  "post_article_engaged_view c slug source =
     (if can_manage_content (ax_user c) then ret NoContent
      else bind (on_database (track_engaged_view (ax_env c) slug (case source of None \<Rightarrow> SRC_UNKNOWN | Some s \<Rightarrow> s)))
        (\<lambda>_. ret NoContent))"

definition post_article_reaction ::
  "api \<Rightarrow> article_analytics_config \<Rightarrow> pystr \<Rightarrow> reaction_request \<Rightarrow> ('q, response) handler" where
  "post_article_reaction c cfg slug raw =
     bind (lift (validate_reaction_request raw)) (\<lambda>data.
     bind (on_database (set_reaction (ax_env c) slug (rr_client_token data) (rr_reaction_kind data) cfg)) (\<lambda>_.
     ret NoContent))"

definition post_question_suggestion ::
  "api \<Rightarrow> 'q valkey_ops \<Rightarrow> pystr \<Rightarrow> limiter_config \<Rightarrow> client_request \<Rightarrow> suggestion_request \<Rightarrow> ('q, response) handler" where
  "post_question_suggestion c vk ns cfg client raw =
     bind (lift (validate_public_suggestion_request raw)) (\<lambda>data.
     bind (on_database_and_quota (suggest_question (ax_env c) vk ns cfg
       (suggestion_to_schema (Some (provide_limit_params (ax_env c) client)) (provide_suggested_by_username (ax_user c))
          True True data))) (\<lambda>_.
     ret NoContent))"

section \<open>Endpoints of the editors: articles\<close>

definition admin_list_articles :: "api \<Rightarrow> list_query \<Rightarrow> publish_status option \<Rightarrow> ('q, response) handler" where
  "admin_list_articles c q st =
     bind (lift (provide_article_filters q st)) (\<lambda>filters.
     bind (on_database (uc_list_articles (ax_env c) (ax_search c) filters)) (\<lambda>articles.
     respond ArticleListResponse (article_list_of (ax_adapters c) (af_language filters) articles)))"

definition post_article :: "api \<Rightarrow> language \<Rightarrow> article_request \<Rightarrow> ('q, response) handler" where
  "post_article c lang raw =
     bind (lift (validate_article_request raw)) (\<lambda>data.
     bind (on_database (create_article (ax_env c) (ax_publication c)
       (article_to_create_schema (ax_new_id c 0) (username (ax_user c)) data) (ax_now c))) (\<lambda>article.
     bind (invalidate_response_cache_domain_for_mutation c DOMAIN_ARTICLES) (\<lambda>_.
     respond ArticleDetailResponse (article_detail_of (ax_adapters c) lang article))))"

definition admin_list_articles_tree :: "api \<Rightarrow> language \<Rightarrow> ('q, response) handler" where
  "admin_list_articles_tree c lang =
     bind (on_database (list_tree False lang)) (\<lambda>tree. ret (ArticleTreeResponse (tree_response tree)))"

definition admin_list_folders :: "api \<Rightarrow> language \<Rightarrow> ('q, response) handler" where
  "admin_list_folders c lang =
     bind (on_database (list_folders lang)) (\<lambda>folders. respond FoldersResponse (folders_response lang folders))"

definition post_folder :: "api \<Rightarrow> language \<Rightarrow> folder_request \<Rightarrow> ('q, response) handler" where
  "post_folder c lang raw =
     bind (lift (validate_folder_request raw)) (\<lambda>data.
     bind (on_database (create_folder (folder_to_create_schema (ax_new_id c 0) data))) (\<lambda>folder.
     bind (invalidate_response_cache_domain_for_mutation c DOMAIN_ARTICLES) (\<lambda>_.
     respond FolderResponse (folder_response_of lang folder))))"

definition delete_folder_endpoint :: "api \<Rightarrow> pystr \<Rightarrow> ('q, response) handler" where
  "delete_folder_endpoint c folder_id =
     bind (on_database (delete_folder folder_id)) (\<lambda>_.
     bind (invalidate_response_cache_domain_for_mutation c DOMAIN_ARTICLES) (\<lambda>_. ret NoContent))"

definition put_folder_priorities :: "api \<Rightarrow> pystr list \<Rightarrow> ('q, response) handler" where
  "put_folder_priorities c ordered_ids =
     bind (on_database (update_folder_priorities ordered_ids)) (\<lambda>_.
     bind (invalidate_response_cache_domain_for_mutation c DOMAIN_ARTICLES) (\<lambda>_. ret NoContent))"

definition admin_get_article :: "api \<Rightarrow> pystr \<Rightarrow> bool \<Rightarrow> language \<Rightarrow> ('q, response) handler" where
  "admin_get_article c slug only_published lang =
     bind (on_database (get_article (ax_env c) slug only_published)) (\<lambda>article.
     respond ArticleDetailResponse (article_detail_of (ax_adapters c) lang article))"

definition admin_get_stats :: "api \<Rightarrow> date \<Rightarrow> date \<Rightarrow> language \<Rightarrow> ('q, response) handler" where
  "admin_get_stats c date_from date_to lang =
     bind (on_database (get_stats date_from date_to lang)) (\<lambda>stats.
     ret (ArticleStatsResponse (analytics_stats_response_of stats)))"

definition put_article :: "api \<Rightarrow> language \<Rightarrow> pystr \<Rightarrow> article_request \<Rightarrow> ('q, response) handler" where
  "put_article c lang slug raw =
     bind (lift (validate_article_request raw)) (\<lambda>data.
     bind (on_database (update_article (ax_env c) (ax_publication c) slug (article_to_update_schema data) (ax_now c)))
       (\<lambda>article.
     bind (invalidate_response_cache_domain_for_mutation c DOMAIN_ARTICLES) (\<lambda>_.
     respond ArticleDetailResponse (article_detail_of (ax_adapters c) lang article))))"

definition delete_article_endpoint :: "api \<Rightarrow> pystr \<Rightarrow> ('q, response) handler" where
  "delete_article_endpoint c slug =
     bind (on_database (delete_article (ax_env c) (ax_publication c) slug (ax_now c))) (\<lambda>_.
     bind (invalidate_response_cache_domain_for_mutation c DOMAIN_ARTICLES) (\<lambda>_. ret NoContent))"

definition set_article_status :: "api \<Rightarrow> pystr \<Rightarrow> publish_status \<Rightarrow> ('q, response) handler" where
  "set_article_status c slug st =
     bind (on_database (switch_article_publish_status (ax_env c) (ax_publication c) slug st)) (\<lambda>_.
     bind (invalidate_response_cache_domain_for_mutation c DOMAIN_ARTICLES) (\<lambda>_. ret NoContent))"

definition admin_list_tags :: "api \<Rightarrow> language \<Rightarrow> ('q, response) handler" where
  "admin_list_tags c lang =
     bind (on_database (list_tags lang False)) (\<lambda>tags. respond TagsResponse (tags_response lang tags))"

definition post_tag :: "api \<Rightarrow> language \<Rightarrow> tag_request \<Rightarrow> ('q, response) handler" where
  "post_tag c lang raw =
     bind (lift (validate_tag_request raw)) (\<lambda>data.
     bind (on_database (create_tag (tag_to_params data) (ax_new_id c 0))) (\<lambda>tag.
     bind (invalidate_response_cache_domain_for_mutation c DOMAIN_ARTICLES) (\<lambda>_.
     respond TagResponse (tag_response_of lang tag))))"

definition put_tag :: "api \<Rightarrow> language \<Rightarrow> pystr \<Rightarrow> tag_request \<Rightarrow> ('q, response) handler" where
  "put_tag c lang tag_id raw =
     bind (lift (validate_tag_request raw)) (\<lambda>data.
     bind (on_database (update_tag tag_id (tag_to_params data))) (\<lambda>tag.
     bind (invalidate_response_cache_domain_for_mutation c DOMAIN_ARTICLES) (\<lambda>_.
     respond TagResponse (tag_response_of lang tag))))"

definition delete_tag_endpoint :: "api \<Rightarrow> pystr \<Rightarrow> ('q, response) handler" where
  "delete_tag_endpoint c tag_id =
     bind (on_database (delete_tag tag_id)) (\<lambda>_.
     bind (invalidate_response_cache_domain_for_mutation c DOMAIN_ARTICLES) (\<lambda>_. ret NoContent))"

section \<open>Endpoints of the editors: matrix\<close>

definition admin_list_structure :: "api \<Rightarrow> language \<Rightarrow> ('q, response) handler" where
  "admin_list_structure c lang =
     bind (on_database list_structure) (\<lambda>structure. respond StructureResponse (structure_response lang structure))"

definition post_sheet :: "api \<Rightarrow> language \<Rightarrow> sheet_create_request \<Rightarrow> ('q, response) handler" where
  "post_sheet c lang raw =
     bind (lift (validate_sheet_create_request raw)) (\<lambda>data.
     bind (on_database (create_sheet (ax_env c) (sheet_to_schema data))) (\<lambda>sheet.
     respond StructureSheetResponse (structure_sheet_response_of lang sheet)))"

definition post_section :: "api \<Rightarrow> language \<Rightarrow> pystr \<Rightarrow> name_translations \<Rightarrow> ('q, response) handler" where
  "post_section c lang sheet_id raw =
     bind (lift (validate_name_translations raw)) (\<lambda>data.
     bind (on_database (create_section (ax_env c) (section_to_schema sheet_id data))) (\<lambda>section.
     respond StructureSectionResponse (structure_section_response_of lang section)))"

definition post_subsection :: "api \<Rightarrow> language \<Rightarrow> pystr \<Rightarrow> name_translations \<Rightarrow> ('q, response) handler" where
  "post_subsection c lang section_id raw =
     bind (lift (validate_name_translations raw)) (\<lambda>data.
     bind (on_database (create_subsection (ax_env c) (subsection_to_schema section_id data))) (\<lambda>subsection.
     respond StructureSubsectionResponse (structure_subsection_response_of lang subsection)))"

definition delete_structure_endpoint :: "api \<Rightarrow> node_kind \<Rightarrow> pystr \<Rightarrow> bool \<Rightarrow> ('q, response) handler" where
  "delete_structure_endpoint c kind node_id delete_with_questions =
     bind (on_database (delete_structure_node kind node_id delete_with_questions)) (\<lambda>_.
     bind (invalidate_response_cache_domain_for_mutation c DOMAIN_MATRIX) (\<lambda>_. ret NoContent))"

definition put_sheet_priorities :: "api \<Rightarrow> pystr list \<Rightarrow> ('q, response) handler" where
  "put_sheet_priorities c ordered_ids =
     bind (on_database (update_sheet_priorities ordered_ids)) (\<lambda>_.
     bind (invalidate_response_cache_domain_for_mutation c DOMAIN_MATRIX) (\<lambda>_. ret NoContent))"

definition put_section_priorities :: "api \<Rightarrow> pystr \<Rightarrow> pystr list \<Rightarrow> ('q, response) handler" where
  "put_section_priorities c sheet_id ordered_ids =
     bind (on_database (update_section_priorities sheet_id ordered_ids)) (\<lambda>_.
     bind (invalidate_response_cache_domain_for_mutation c DOMAIN_MATRIX) (\<lambda>_. ret NoContent))"

definition put_subsection_priorities :: "api \<Rightarrow> pystr \<Rightarrow> pystr list \<Rightarrow> ('q, response) handler" where
  "put_subsection_priorities c section_id ordered_ids =
     bind (on_database (update_subsection_priorities section_id ordered_ids)) (\<lambda>_.
     bind (invalidate_response_cache_domain_for_mutation c DOMAIN_MATRIX) (\<lambda>_. ret NoContent))"

definition admin_list_queued_questions :: "api \<Rightarrow> ('q, response) handler" where
  "admin_list_queued_questions c =
     bind (on_database list_queued_questions) (\<lambda>qs. ret (QueuedQuestionsResponse (queued_questions_response qs)))"

definition post_queued_question ::
  "api \<Rightarrow> 'q valkey_ops \<Rightarrow> pystr \<Rightarrow> limiter_config \<Rightarrow> suggestion_request \<Rightarrow> ('q, response) handler" where
  "post_queued_question c vk ns cfg raw =
     bind (lift (validate_suggestion_request raw)) (\<lambda>data.
     bind (on_database_and_quota (suggest_question (ax_env c) vk ns cfg
       (suggestion_to_schema None (provide_suggested_by_username (ax_user c)) False False data))) (\<lambda>question.
     ret (QueuedQuestionResponse (queued_question_response_of question))))"

definition post_import_preview :: "api \<Rightarrow> import_file \<Rightarrow> ('q, response) handler" where
  "post_import_preview c file =
     bind (lift (preview (ax_imports c) import_constants file)) (\<lambda>parsed.
     bind (on_database (preview_queued_questions_import parsed)) (\<lambda>rows.
     ret (ImportPreviewResponse (preview_response rows))))"

definition post_import :: "api \<Rightarrow> import_file \<Rightarrow> int list \<Rightarrow> ('q, response) handler" where
  "post_import c file selected =
     bind (lift (validate_selected_row_numbers selected)) (\<lambda>row_numbers.
     bind (lift (parse_selected (ax_imports c) import_constants file row_numbers)) (\<lambda>params.
     bind (on_database (import_queued_questions (ax_env c) params (provide_suggested_by_username (ax_user c)))) (\<lambda>qs.
     ret (QueuedQuestionsResponse (queued_questions_response qs)))))"

definition delete_queued_endpoint :: "api \<Rightarrow> pystr \<Rightarrow> ('q, response) handler" where
  "delete_queued_endpoint c pk = bind (on_database (delete_queued_question pk)) (\<lambda>_. ret NoContent)"

definition post_item_from_queue :: "api \<Rightarrow> language \<Rightarrow> pystr \<Rightarrow> item_request \<Rightarrow> ('q, response) handler" where
  "post_item_from_queue c lang pk raw =
     bind (lift (validate_item_request (ax_adapters c) raw)) (\<lambda>data.
     bind (on_database (create_item_from_queue (ax_env c) (ax_publication c) pk (item_to_create_schema (ax_new_id c) data)))
       (\<lambda>item.
     bind (invalidate_response_cache_domain_for_mutation c DOMAIN_MATRIX) (\<lambda>_.
     respond ItemDetailResponse (item_detail_of lang item))))"

definition admin_list_workspace :: "api \<Rightarrow> workspace_query \<Rightarrow> ('q, response) handler" where
  "admin_list_workspace c q =
     bind (lift (provide_workspace_filters q)) (\<lambda>filters.
     bind (on_database (list_workspace_items filters)) (\<lambda>workspace.
     ret (WorkspaceResponse (workspace_response_of workspace))))"

definition admin_list_filter_options :: "api \<Rightarrow> language \<Rightarrow> ('q, response) handler" where
  "admin_list_filter_options c lang =
     bind (on_database (list_workspace_filter_options lang)) (\<lambda>options.
     ret (FilterOptionsResponse (filter_options_response_of options)))"

definition admin_list_items :: "api \<Rightarrow> pystr \<Rightarrow> bool \<Rightarrow> language \<Rightarrow> ('q, response) handler" where
  "admin_list_items c sheet_key only_published lang =
     bind (on_database (list_items \<lparr>mf_sheet_key = Some sheet_key, mf_only_published = Some only_published\<rparr>)) (\<lambda>items.
     ret (ItemsResponse (admin_items_list lang sheet_key items)))"

definition post_item :: "api \<Rightarrow> language \<Rightarrow> item_request \<Rightarrow> ('q, response) handler" where
  "post_item c lang raw =
     bind (lift (validate_item_request (ax_adapters c) raw)) (\<lambda>data.
     bind (on_database (create_item (ax_env c) (ax_publication c) (item_to_create_schema (ax_new_id c) data)
       (provide_suggested_by_username (ax_user c)))) (\<lambda>item.
     bind (invalidate_response_cache_domain_for_mutation c DOMAIN_MATRIX) (\<lambda>_.
     respond ItemDetailResponse (item_detail_of lang item))))"

definition admin_get_item :: "api \<Rightarrow> pystr \<Rightarrow> bool \<Rightarrow> language \<Rightarrow> ('q, response) handler" where
  "admin_get_item c pk only_published lang =
     bind (on_database (get_item pk only_published)) (\<lambda>item.
     respond ItemDetailResponse (item_detail_of lang item))"

definition put_item :: "api \<Rightarrow> language \<Rightarrow> pystr \<Rightarrow> item_request \<Rightarrow> ('q, response) handler" where
  "put_item c lang pk raw =
     bind (lift (validate_item_request (ax_adapters c) raw)) (\<lambda>data.
     bind (on_database (update_item (ax_env c) (ax_publication c) (item_to_update_schema pk (ax_new_id c) data))) (\<lambda>item.
     bind (invalidate_response_cache_domain_for_mutation c DOMAIN_MATRIX) (\<lambda>_.
     respond ItemDetailResponse (item_detail_of lang item))))"

definition delete_item_endpoint :: "api \<Rightarrow> pystr \<Rightarrow> ('q, response) handler" where
  "delete_item_endpoint c pk =
     bind (on_database (delete_item (ax_publication c) pk)) (\<lambda>_.
     bind (invalidate_response_cache_domain_for_mutation c DOMAIN_MATRIX) (\<lambda>_. ret NoContent))"

definition set_item_status :: "api \<Rightarrow> pystr \<Rightarrow> publish_status \<Rightarrow> ('q, response) handler" where
  "set_item_status c pk st =
     bind (on_database (switch_item_publish_status (ax_env c) (ax_publication c) pk st)) (\<lambda>_.
     bind (invalidate_response_cache_domain_for_mutation c DOMAIN_MATRIX) (\<lambda>_. ret NoContent))"

section \<open>Endpoints of the editors: files and wiki links\<close>

record upload_request =
  uq_purpose :: file_purpose
  uq_name :: pystr
  uq_filename :: "pystr option"
  uq_content_type :: "pystr option"
  uq_content :: "nat list"

definition post_file :: "api \<Rightarrow> upload_request \<Rightarrow> ('q, response) handler" where
  "post_file c q =
     (case uq_filename q of
        None \<Rightarrow> raise InvalidFileDataError
      | Some filename \<Rightarrow>
          bind (on_world (upload_file (ax_env c) (ax_images c)
            \<lparr>up_id = ax_new_id c 0, up_purpose = uq_purpose q, up_name = uq_name q, up_original_name = filename,
             up_mime_type = (case uq_content_type q of
                 None \<Rightarrow> u ''application/octet-stream''
               | Some t \<Rightarrow> if t = [] then u ''application/octet-stream'' else t),
             up_content = uq_content q\<rparr> (ax_now c))) (\<lambda>file.
          respond FileResponse (file_response_of (ax_adapters c) file)))"

definition admin_list_files :: "api \<Rightarrow> file_purpose \<Rightarrow> ('q, response) handler" where
  "admin_list_files c purpose =
     bind (on_world (service_list_files (ax_env c) purpose)) (\<lambda>files.
     respond FilesResponse (all_or_error (map (file_response_of (ax_adapters c)) files)))"

definition admin_get_file :: "api \<Rightarrow> pystr \<Rightarrow> ('q, response) handler" where
  "admin_get_file c file_id =
     bind (on_world (service_get_file (ax_env c) file_id)) (\<lambda>file.
     respond FileResponse (file_response_of (ax_adapters c) file))"

definition put_file :: "api \<Rightarrow> pystr \<Rightarrow> pystr \<Rightarrow> ('q, response) handler" where
  "put_file c file_id name =
     bind (on_world (service_update_file (ax_env c) file_id name (ax_now c))) (\<lambda>file.
     respond FileResponse (file_response_of (ax_adapters c) file))"

definition delete_file_endpoint :: "api \<Rightarrow> pystr \<Rightarrow> ('q, response) handler" where
  "delete_file_endpoint c file_id = bind (on_world (service_delete_file (ax_env c) file_id)) (\<lambda>_. ret NoContent)"

definition admin_list_wiki_link_targets :: "api \<Rightarrow> language \<Rightarrow> ('q, response) handler" where
  "admin_list_wiki_link_targets c lang =
     bind (on_database (list_targets lang)) (\<lambda>targets. ret (WikiLinkTargetsResponse targets))"

section \<open>Site analytics\<close>

text \<open>The body is validated before the endpoint runs; \<open>dnt\<close> is the header of that name.\<close>

definition post_visit :: "api \<Rightarrow> analytics_config \<Rightarrow> pystr option \<Rightarrow> visit_request \<Rightarrow> ('q, response) handler" where
  "post_visit c cfg dnt body =
     bind (lift (validate_visit_request body)) (\<lambda>data.
     if can_manage_content (ax_user c) \<or> dnt = Some (u ''1'') then ret NoContent
     else
       bind (on_database (record_public_visit (ax_env c) cfg (visit_to_domain data) (date_of (env_now (ax_env c))))) (\<lambda>_.
       ret NoContent))"

definition admin_get_report :: "api \<Rightarrow> report_query \<Rightarrow> ('q, response) handler" where
  "admin_get_report c q =
     bind (lift (provide_analytics_filters (date_of (env_now (ax_env c))) q)) (\<lambda>filters.
     bind (on_database (get_report filters)) (\<lambda>report.
     ret (AnalyticsReportResponse (analytics_report_response_of filters report))))"

end
