(* ===== verification/Cache_Warm.thy ===== *)
theory Cache_Warm
  imports Api_Endpoints
begin

text \<open>
  The application around the endpoints: the cached public requests, what runs after a commit
  (\<open>infra/post_commit_actions.py\<close>, \<open>entrypoints/litestar/response_cache.py\<close>), and the warming of the
  cache by the background tasks (\<open>entrypoints/taskiq/cache_warm\<close>).
\<close>

section \<open>Public requests\<close>

datatype public_request =
    GetArticles list_query
  | GetArticlesTree language
  | GetArticle pystr language
  | GetTags language
  | GetSheets language
  | GetItems pystr language
  | GetItem pystr pystr language

fun request_domain :: "public_request \<Rightarrow> cache_domain" where
  "request_domain (GetArticles _) = DOMAIN_ARTICLES"
| "request_domain (GetArticlesTree _) = DOMAIN_ARTICLES"
| "request_domain (GetArticle _ _) = DOMAIN_ARTICLES"
| "request_domain (GetTags _) = DOMAIN_ARTICLES"
| "request_domain (GetSheets _) = DOMAIN_MATRIX"
| "request_domain (GetItems _ _) = DOMAIN_MATRIX"
| "request_domain (GetItem _ _ _) = DOMAIN_MATRIX"

fun request_path :: "public_request \<Rightarrow> pystr" where
  "request_path (GetArticles _) = u ''/api/articles''"
| "request_path (GetArticlesTree _) = u ''/api/articles/tree''"
| "request_path (GetArticle slug _) = u ''/api/articles/detail/'' @ slug"
| "request_path (GetTags _) = u ''/api/articles/tags''"
| "request_path (GetSheets _) = u ''/api/competency-matrix/sheets''"
| "request_path (GetItems _ _) = u ''/api/competency-matrix/items''"
| "request_path (GetItem sheet_key slug _) = u ''/api/competency-matrix/items/public/'' @ sheet_key @ u ''/'' @ slug"

fun language_value :: "language \<Rightarrow> pystr" where
  "language_value RU = u ''ru''"
| "language_value EN = u ''en''"

definition optional_parameter :: "pystr \<Rightarrow> pystr option \<Rightarrow> (pystr \<times> pystr) list" where
  "optional_parameter name v = (case v of None \<Rightarrow> [] | Some x \<Rightarrow> [(name, x)])"

text \<open>The query of a request, its parameters in the order of their names.\<close>

fun request_query :: "public_request \<Rightarrow> (pystr \<times> pystr) list" where
  "request_query (GetArticles q) =
     [(u ''language'', language_value (lq_language q)), (u ''page'', str_of_int (lq_page q)),
      (u ''pageSize'', str_of_int (lq_page_size q))]
     @ optional_parameter (u ''publishedFrom'') (map_option isoformat (lq_published_from q))
     @ optional_parameter (u ''publishedTo'') (map_option isoformat (lq_published_to q))
     @ optional_parameter (u ''searchQuery'') (lq_search_query q)
     @ optional_parameter (u ''tagSlug'') (lq_tag_slug q)"
| "request_query (GetArticlesTree lang) = [(u ''language'', language_value lang)]"
| "request_query (GetArticle _ lang) = [(u ''language'', language_value lang)]"
| "request_query (GetTags lang) = [(u ''language'', language_value lang)]"
| "request_query (GetSheets lang) = [(u ''language'', language_value lang)]"
| "request_query (GetItems sheet_key lang) = [(u ''language'', language_value lang), (u ''sheetKey'', sheet_key)]"
| "request_query (GetItem _ _ lang) = [(u ''language'', language_value lang)]"

fun public_endpoint :: "api \<Rightarrow> public_request \<Rightarrow> ('q, response) handler" where
  "public_endpoint c (GetArticles q) = public_list_articles c q"
| "public_endpoint c (GetArticlesTree lang) = public_list_articles_tree c lang"
| "public_endpoint c (GetArticle slug lang) = public_get_article c slug lang"
| "public_endpoint c (GetTags lang) = public_list_tags c lang"
| "public_endpoint c (GetSheets lang) = public_list_sheets c lang"
| "public_endpoint c (GetItems sheet_key lang) = public_list_items c sheet_key lang"
| "public_endpoint c (GetItem sheet_key slug lang) = public_get_item c sheet_key slug lang"

section \<open>The application\<close>

record ('q, 'st) app =
  ap_world :: world
  ap_quota :: 'q
  ap_cache :: "'st stores"
  ap_tasks :: "cache_domain list"

definition on_cache :: "(error, 'st stores, 'a) action \<Rightarrow> (error, ('q, 'st) app, 'a) action" where
  "on_cache m = (\<lambda>a. case m (ap_cache a) of (r, ss) \<Rightarrow> (r, a\<lparr>ap_cache := ss\<rparr>))"

definition invalidate_response_cache_domain ::
  "api \<Rightarrow> ('st, response) store_ops \<Rightarrow> cache_domain \<Rightarrow> (error, ('q, 'st) app, unit) action" where
  "invalidate_response_cache_domain c ops domain =
     (if \<not> ax_use_cache c then ret () else on_cache (delete_domain ops domain))"

definition invalidate_and_enqueue_response_cache_warm_domain ::
  "api \<Rightarrow> ('st, response) store_ops \<Rightarrow> cache_domain \<Rightarrow> (error, ('q, 'st) app, unit) action" where
  "invalidate_and_enqueue_response_cache_warm_domain c ops domain =
     bind (invalidate_response_cache_domain c ops domain) (\<lambda>_.
     if \<not> ax_use_cache c then ret () else modify (\<lambda>a. a\<lparr>ap_tasks := ap_tasks a @ [domain]\<rparr>))"

definition run_post_commit_actions ::
  "api \<Rightarrow> ('st, response) store_ops \<Rightarrow> cache_domain list \<Rightarrow> (error, ('q, 'st) app, unit) action" where
  "run_post_commit_actions c ops domains = for_each domains (invalidate_and_enqueue_response_cache_warm_domain c ops)"

text \<open>
  A request: the endpoint in its session, then the commit and the actions after it, or the rollback of the
  database.
\<close>

definition run_endpoint ::
  "api \<Rightarrow> ('st, response) store_ops \<Rightarrow> ('q, 'r) handler \<Rightarrow> (error, ('q, 'st) app, 'r) action" where
  "run_endpoint c ops h = (\<lambda>a.
     case h \<lparr>sn_world = ap_world a, sn_quota = ap_quota a, sn_post_commit = []\<rparr> of
       (Inl e, s) \<Rightarrow>
         (Inl e, a\<lparr>ap_world := (sn_world s)\<lparr>w_db := w_db (ap_world a)\<rparr>, ap_quota := sn_quota s\<rparr>)
     | (Inr r, s) \<Rightarrow>
         bind (run_post_commit_actions c ops (sn_post_commit s)) (\<lambda>_. ret r)
           (a\<lparr>ap_world := sn_world s, ap_quota := sn_quota s\<rparr>))"

definition default_ttl_seconds :: int where
  "default_ttl_seconds = 86400"

definition request_key :: "api \<Rightarrow> public_request \<Rightarrow> pystr" where
  "request_key c r = cache_key (request_domain r) (ax_default_key c (request_path r) (request_query r))"

text \<open>A cached route of the framework: the stored response, or the endpoint and the response stored.\<close>

definition serve :: "api \<Rightarrow> ('st, response) store_ops \<Rightarrow> public_request \<Rightarrow> (error, ('q, 'st) app, response) action" where
  "serve c ops r =
     (if \<not> ax_use_cache c then run_endpoint c ops (public_endpoint c r)
      else
        bind (on_cache (domain_get ops (request_key c r) None)) (\<lambda>hit.
        case hit of
          Some resp \<Rightarrow> ret resp
        | None \<Rightarrow>
            bind (run_endpoint c ops (public_endpoint c r)) (\<lambda>resp.
            bind (on_cache (domain_set ops (request_key c r) resp (Some default_ttl_seconds))) (\<lambda>_.
            ret resp))))"

section \<open>Targets of the warming\<close>

record warm_target =
  wa_domain :: cache_domain
  wa_path :: pystr
  wa_query :: "(pystr \<times> pystr) list"
  wa_response :: response

text \<open>\<open>urllib.parse.urlencode\<close> with \<open>quote_plus\<close> on text.\<close>

definition is_unreserved :: "nat \<Rightarrow> bool" where
  "is_unreserved b \<longleftrightarrow>
     (65 \<le> b \<and> b \<le> 90) \<or> (97 \<le> b \<and> b \<le> 122) \<or> (48 \<le> b \<and> b \<le> 57) \<or> b \<in> {95, 46, 45, 126}"

definition hex_digit :: "nat \<Rightarrow> nat" where
  "hex_digit n = (if n < 10 then 48 + n else 55 + n)"

definition quote_byte :: "nat \<Rightarrow> pystr" where
  "quote_byte b =
     (if is_unreserved b then [b] else if b = 32 then [43] else [37, hex_digit (b div 16), hex_digit (b mod 16)])"

definition quote_plus :: "pystr \<Rightarrow> pystr" where
  "quote_plus s = concat (map quote_byte (utf8_encode s))"

definition urlencode :: "(pystr \<times> pystr) list \<Rightarrow> pystr" where
  "urlencode query = join (u ''&'') (map (\<lambda>(k, v). quote_plus k @ u ''='' @ quote_plus v) query)"

definition path_and_query_key :: "pystr \<Rightarrow> (pystr \<times> pystr) list \<Rightarrow> pystr" where
  "path_and_query_key path query = u ''GET'' @ path @ urlencode (sort query)"

definition build_cache_key :: "warm_target \<Rightarrow> pystr" where
  "build_cache_key t = cache_key (wa_domain t) (path_and_query_key (wa_path t) (wa_query t))"

definition build_query :: "(pystr \<times> pystr) list \<Rightarrow> (pystr \<times> pystr) list" where
  "build_query values = sort_key fst values"

subsection \<open>Articles\<close>

definition warm_list_filters :: "int \<Rightarrow> language \<Rightarrow> article_filters" where
  "warm_list_filters page_size lang =
     default_filters\<lparr>af_page := Some 1, af_page_size := Some page_size, af_language := lang,
       af_only_published := Some True, af_tag_slug := None, af_published_from := None, af_published_to := None,
       af_search_query := None, af_include_tags := True, af_order_for_seo := False\<rparr>"

definition to_target :: "cache_domain \<Rightarrow> pystr \<Rightarrow> (pystr \<times> pystr) list \<Rightarrow> ('a \<Rightarrow> response) \<Rightarrow> error + 'a \<Rightarrow> warm_target dbm" where
  "to_target domain path query f r =
     bind (lift r) (\<lambda>x. ret \<lparr>wa_domain = domain, wa_path = path, wa_query = build_query query, wa_response = f x\<rparr>)"

definition tags_target :: "language \<Rightarrow> tag list \<Rightarrow> warm_target dbm" where
  "tags_target lang ts =
     to_target DOMAIN_ARTICLES (u ''/api/articles/tags'') [(u ''language'', language_value lang)] TagsResponse
       (tags_response lang ts)"

definition tree_target :: "language \<Rightarrow> tree_folder list \<Rightarrow> warm_target dbm" where
  "tree_target lang tree =
     to_target DOMAIN_ARTICLES (u ''/api/articles/tree'') [(u ''language'', language_value lang)] ArticleTreeResponse
       (Inr (tree_response tree))"

definition list_target :: "adapters \<Rightarrow> int \<Rightarrow> language \<Rightarrow> articles_page \<Rightarrow> warm_target dbm" where
  "list_target ops page_size lang page =
     to_target DOMAIN_ARTICLES (u ''/api/articles'')
       [(u ''language'', language_value lang), (u ''page'', u ''1''), (u ''pageSize'', str_of_int page_size)]
       ArticleListResponse (article_list_of ops lang page)"

definition detail_target :: "adapters \<Rightarrow> language \<Rightarrow> article \<Rightarrow> article \<Rightarrow> warm_target dbm" where
  "detail_target ops lang article detail =
     to_target DOMAIN_ARTICLES (u ''/api/articles/detail/'' @ ac_slug article) [(u ''language'', language_value lang)]
       ArticleDetailResponse (article_detail_of ops lang detail)"

definition detail_targets :: "api \<Rightarrow> language \<Rightarrow> articles_page \<Rightarrow> warm_target list dbm" where
  "detail_targets c lang page =
     map_action (\<lambda>article.
       bind (get_article (ax_env c) (ac_slug article) True) (\<lambda>detail.
       detail_target (ax_adapters c) lang article detail)) (pg_values page)"

definition collect_article_language_targets :: "api \<Rightarrow> int \<Rightarrow> language \<Rightarrow> warm_target list dbm" where
  "collect_article_language_targets c page_size lang =
     bind (list_tags lang True) (\<lambda>ts.
     bind (list_tree True lang) (\<lambda>tree.
     bind (uc_list_articles (ax_env c) (ax_search c) (warm_list_filters page_size lang)) (\<lambda>page.
     bind (tags_target lang ts) (\<lambda>tags_t.
     bind (tree_target lang tree) (\<lambda>tree_t.
     bind (list_target (ax_adapters c) page_size lang page) (\<lambda>list_t.
     bind (detail_targets c lang page) (\<lambda>details.
     ret ([tags_t, tree_t, list_t] @ details))))))))"

definition collect_over_languages :: "(language \<Rightarrow> warm_target list dbm) \<Rightarrow> warm_target list dbm" where
  "collect_over_languages f = bind (map_action f [RU, EN]) (\<lambda>ts. ret (concat ts))"

definition collect_articles :: "api \<Rightarrow> int \<Rightarrow> warm_target list dbm" where
  "collect_articles c page_size = collect_over_languages (collect_article_language_targets c page_size)"

subsection \<open>Matrix\<close>

definition sheets_target :: "language \<Rightarrow> public_sheet list \<Rightarrow> warm_target dbm" where
  "sheets_target lang shs =
     to_target DOMAIN_MATRIX (u ''/api/competency-matrix/sheets'') [(u ''language'', language_value lang)] SheetsResponse
       (Inr (sheets_response lang shs))"

definition items_target :: "language \<Rightarrow> pystr \<Rightarrow> matrix_item list \<Rightarrow> warm_target dbm" where
  "items_target lang sheet_key its =
     to_target DOMAIN_MATRIX (u ''/api/competency-matrix/items'')
       [(u ''language'', language_value lang), (u ''sheetKey'', sheet_key)] ItemsResponse
       (Inr (admin_items_list lang sheet_key its))"

definition public_detail_target :: "language \<Rightarrow> matrix_item \<Rightarrow> matrix_item \<Rightarrow> warm_target dbm" where
  "public_detail_target lang item detail =
     to_target DOMAIN_MATRIX
       (u ''/api/competency-matrix/items/public/'' @ ns_sheet_key (mi_structure item) @ u ''/'' @ mi_slug item)
       [(u ''language'', language_value lang)] ItemDetailResponse (item_detail_of lang detail)"

definition item_detail_targets :: "language \<Rightarrow> matrix_item list \<Rightarrow> warm_target list dbm" where
  "item_detail_targets lang its =
     map_action (\<lambda>item.
       bind (get_item_by_slug (ns_sheet_key (mi_structure item)) (mi_slug item) True) (\<lambda>detail.
       public_detail_target lang item detail)) its"

definition sheet_item_targets :: "language \<Rightarrow> public_sheet list \<Rightarrow> warm_target list dbm" where
  "sheet_item_targets lang shs =
     bind (map_action (\<lambda>sheet.
       bind (list_items \<lparr>mf_sheet_key = Some (pk_key sheet), mf_only_published = Some True\<rparr>) (\<lambda>its.
       bind (items_target lang (pk_key sheet) its) (\<lambda>t.
       bind (item_detail_targets lang its) (\<lambda>ts. ret (t # ts))))) shs) (\<lambda>ts.
     ret (concat ts))"

definition collect_matrix_language_targets :: "language \<Rightarrow> warm_target list dbm" where
  "collect_matrix_language_targets lang =
     bind list_sheets (\<lambda>shs.
     bind (sheets_target lang shs) (\<lambda>t.
     bind (sheet_item_targets lang shs) (\<lambda>ts. ret (t # ts))))"

definition collect_matrix :: "warm_target list dbm" where
  "collect_matrix = collect_over_languages collect_matrix_language_targets"

definition collect_targets :: "api \<Rightarrow> int \<Rightarrow> cache_domain list \<Rightarrow> warm_target list dbm" where
  "collect_targets c page_size domains =
     bind (if DOMAIN_ARTICLES \<in> set domains then collect_articles c page_size else ret []) (\<lambda>as.
     bind (if DOMAIN_MATRIX \<in> set domains then collect_matrix else ret []) (\<lambda>ms.
     ret (as @ ms)))"

section \<open>The service\<close>

record warm_summary =
  wu_attempted :: int
  wu_written :: int
  wu_skipped :: int

record warm_service =
  we_use_cache :: bool
  we_supported_domains :: "cache_domain list"
  we_articles_page_size :: int

definition write_target :: "('st, response) store_ops \<Rightarrow> warm_target \<Rightarrow> (error, ('q, 'st) app, unit) action" where
  "write_target ops t = on_cache (domain_set ops (build_cache_key t) (wa_response t) (Some default_ttl_seconds))"

definition can_warm_domain :: "warm_service \<Rightarrow> cache_domain \<Rightarrow> bool" where
  "can_warm_domain sv domain \<longleftrightarrow> domain \<in> set (we_supported_domains sv)"

definition warm_domains ::
  "api \<Rightarrow> ('st, response) store_ops \<Rightarrow> warm_service \<Rightarrow> cache_domain list \<Rightarrow> (error, ('q, 'st) app, warm_summary) action" where
  "warm_domains c ops sv requested =
     (let warmable = filter (can_warm_domain sv) requested in
      if \<not> we_use_cache sv then ret \<lparr>wu_attempted = 0, wu_written = 0, wu_skipped = int (length requested)\<rparr>
      else
        bind (run_endpoint c ops (on_database (collect_targets c (we_articles_page_size sv) warmable))) (\<lambda>targets.
        bind (for_each targets (write_target ops)) (\<lambda>_.
        ret \<lparr>wu_attempted = int (length targets), wu_written = int (length targets),
             wu_skipped = int (length requested) - int (length warmable)\<rparr>)))"

definition warm_domain ::
  "api \<Rightarrow> ('st, response) store_ops \<Rightarrow> warm_service \<Rightarrow> cache_domain \<Rightarrow> (error, ('q, 'st) app, warm_summary) action" where
  "warm_domain c ops sv domain =
     (if \<not> can_warm_domain sv domain then ret \<lparr>wu_attempted = 0, wu_written = 0, wu_skipped = 1\<rparr>
      else warm_domains c ops sv [domain])"

definition warm_all ::
  "api \<Rightarrow> ('st, response) store_ops \<Rightarrow> warm_service \<Rightarrow> (error, ('q, 'st) app, warm_summary) action" where
  "warm_all c ops sv = warm_domains c ops sv (we_supported_domains sv)"

end
