(* ===== verification/Api_Frames.thy ===== *)
theory Api_Frames
  imports Cache_Warm
begin

text \<open>
  What the use cases leave alone.  The public responses are read from two parts of the database, the
  articles with their folders, tags and files, and the matrix with its resources; the use cases of the one
  do not touch the tables of the other, and the counters, the queue and the reads touch neither.
\<close>

section \<open>The two parts\<close>

definition matrix_fields :: "db \<Rightarrow> (sheet_model list \<times> section_model list \<times> subsection_model list \<times> item_model list
    \<times> external_resource list \<times> resource_link list) \<times> queued_question_model list" where
  "matrix_fields d = ((sheets d, sections d, subsections d, items d, resources d, resource_links d), queued_questions d)"

definition article_fields :: "db \<Rightarrow> (stored_file list \<times> article_folder list \<times> tag list \<times> article_model list
    \<times> article_tag_link list \<times> article_file_usage list) \<times> article_daily list \<times> article_reaction list" where
  "article_fields d =
     ((files d, folders d, tags d, articles d, tag_links d, file_usages d), article_dailies d, reactions d)"

lemma keeps_read [keeps_intros]: "keeps I (\<lambda>s. lift (f s) s)"
  by (simp add: keeps_def run_simps)

lemma keeps_case_prod [keeps_intros]: "(\<And>a b. x = (a, b) \<Longrightarrow> keeps I (f a b)) \<Longrightarrow> keeps I (case x of (a, b) \<Rightarrow> f a b)"
  by (cases x) simp

lemma keeps_let [keeps_intros]: "keeps I (f x) \<Longrightarrow> keeps I (Let x f)"
  by simp

lemma keeps_map_error [keeps_intros]: "keeps I m \<Longrightarrow> keeps I (map_error f m)"
  unfolding map_error_def by (intro keeps_intros)

section \<open>Reads\<close>

lemma get_article_by_slug_reads [keeps_intros]: "keeps I (get_article_by_slug slug)"
  unfolding get_article_by_slug_def by (intro keeps_intros)

lemma hydrate_reads [keeps_intros]: "keeps I (hydrate env a)"
  unfolding hydrate_def get_access_url_def ensure_valid_namespace_def by (intro keeps_intros)

lemma get_article_reads [keeps_intros]: "keeps I (get_article env slug b)"
  unfolding get_article_def by (intro keeps_intros)

lemma list_articles_reads [keeps_intros]: "keeps I (list_articles ops f)"
  unfolding list_articles_def by (intro keeps_intros)

lemma uc_list_articles_reads [keeps_intros]: "keeps I (uc_list_articles env ops f)"
  unfolding uc_list_articles_def by (intro keeps_intros)

lemma article_queries_read [keeps_intros]:
  "keeps I (list_tree b lang)" "keeps I (list_tags lang b)" "keeps I (list_folders lang)" "keeps I (get_tags_by_ids ids)"
  "keeps I (get_folder_by_id fid)" "keeps I (folder_key_exists key)" "keeps I next_folder_priority"
  "keeps I (get_article_model slug)" "keeps I (get_published_article slug)"
  by (auto simp: list_tree_def list_tree_items_def list_published_tree_items_def list_tags_def list_folders_def
    get_tags_by_ids_def get_folder_by_id_def folder_key_exists_def next_folder_priority_def get_article_model_def
    get_published_article_def intro!: keeps_intros)

lemma check_references_read [keeps_intros]:
  "keeps I (check_article_references tag_ids fid cover ids)" "keeps I (ensure_files_allowed ids purpose)"
  "keeps I (lock_file_usage_transitions ids)" "keeps I (ensure_priority_order_matches fs ordered)"
proof -
  show *: "keeps I (ensure_files_allowed ids purpose)" for ids purpose
    unfolding ensure_files_allowed_def by (intro keeps_intros)
  show "keeps I (check_article_references tag_ids fid cover ids)"
    unfolding check_article_references_def by (intro keeps_intros *)
  show "keeps I (lock_file_usage_transitions ids)" "keeps I (ensure_priority_order_matches fs ordered)"
    by (simp_all add: lock_file_usage_transitions_def lock_files_def ensure_priority_order_matches_def Let_def keeps_intros)
qed

lemma matrix_queries_read [keeps_intros]:
  "keeps I list_sheets" "keeps I list_structure" "keeps I (list_items f)" "keeps I (list_competency_matrix_items f)"
  "keeps I (get_item pk b)" "keeps I (get_item_by_slug key slug b)" "keeps I (get_competency_matrix_item pk)"
  "keeps I (list_queued_questions)" "keeps I (get_queued_question pk)" "keeps I (question_suggestion_exists env q key)"
  "keeps I (get_resources_by_ids ids)" "keeps I (get_item_structure_by_subsection_id sid)"
  "keeps I (get_competency_matrix_item_model pk)" "keeps I (ensure_ready_if_published item)"
  "keeps I (assigned_resources p)"
  by (auto simp: list_sheets_def list_structure_def list_items_def list_competency_matrix_items_def get_item_def
    get_item_by_slug_def get_competency_matrix_item_def get_competency_matrix_item_by_slug_def list_queued_questions_def
    get_queued_question_def question_suggestion_exists_def get_resources_by_ids_def get_item_structure_by_subsection_id_def
    get_subsection_model_def get_competency_matrix_item_model_def ensure_ready_if_published_def ensure_public_ready_def
    assigned_resources_def intro!: keeps_intros)

section \<open>Articles do not touch the matrix\<close>

lemma sync_file_usages_frame [keeps_intros]: "keeps (\<lambda>d. matrix_fields d = x) (sync_file_usages env ids ids' t)"
  unfolding sync_file_usages_def set_files_attached_def set_files_orphaned_if_unused_def lock_files_def
  by (intro keeps_intros keeps_modify) (simp_all add: matrix_fields_def)

lemma article_storage_frames [keeps_intros]:
  "keeps (\<lambda>d. matrix_fields d = x) (storage_create_article a)"
  "keeps (\<lambda>d. matrix_fields d = x) (storage_update_article a)"
  "keeps (\<lambda>d. matrix_fields d = x) (storage_delete_article slug)"
  "keeps (\<lambda>d. matrix_fields d = x) (update_article_publish_status env slug st)"
  unfolding storage_create_article_def storage_update_article_def storage_delete_article_def
    update_article_publish_status_def article_references_def
  by (intro keeps_intros keeps_modify; simp add: matrix_fields_def remove_article_def)+

lemma article_frames [keeps_intros]:
  "keeps (\<lambda>d. matrix_fields d = x) (create_article env pub p t)"
  "keeps (\<lambda>d. matrix_fields d = x) (update_article env pub slug p' t)"
  "keeps (\<lambda>d. matrix_fields d = x) (delete_article env pub slug t)"
  "keeps (\<lambda>d. matrix_fields d = x) (switch_article_publish_status env pub slug st)"
  unfolding create_article_def update_article_def delete_article_def switch_article_publish_status_def
  by (intro keeps_intros)+

lemma folder_and_tag_frames [keeps_intros]:
  "keeps (\<lambda>d. matrix_fields d = x) (create_folder p)"
  "keeps (\<lambda>d. matrix_fields d = x) (delete_folder fid)"
  "keeps (\<lambda>d. matrix_fields d = x) (update_folder_priorities ids)"
  "keeps (\<lambda>d. matrix_fields d = x) (create_tag q tid)"
  "keeps (\<lambda>d. matrix_fields d = x) (update_tag tid q)"
  "keeps (\<lambda>d. matrix_fields d = x) (delete_tag tid)"
  unfolding create_folder_def delete_folder_def update_folder_priorities_def create_tag_def update_tag_def delete_tag_def
    storage_create_folder_def storage_delete_folder_def storage_update_folder_priorities_def storage_create_tag_def
    storage_update_tag_def storage_delete_tag_def
  by (intro keeps_intros keeps_modify; simp add: matrix_fields_def)+

section \<open>The matrix does not touch the articles\<close>

lemma structure_creation_frames [keeps_intros]:
  "keeps (\<lambda>d. article_fields d = x) (create_sheet env p)"
  "keeps (\<lambda>d. article_fields d = x) (create_section env p')"
  "keeps (\<lambda>d. article_fields d = x) (create_subsection env p'')"
  unfolding create_sheet_def create_section_def create_subsection_def sheet_exists_by_key_def next_sheet_priority_def
    get_sheet_model_def section_exists_by_name_def next_section_priority_def get_section_model_def
    subsection_exists_by_name_def next_subsection_priority_def
  by (intro keeps_intros keeps_modify; simp add: article_fields_def)+

lemma structure_frames [keeps_intros]:
  "keeps (\<lambda>d. article_fields d = x) (delete_structure_node kind node_id b)"
  "keeps (\<lambda>d. article_fields d = x) (update_sheet_priorities ids)"
  "keeps (\<lambda>d. article_fields d = x) (update_section_priorities sid ids)"
  "keeps (\<lambda>d. article_fields d = x) (update_subsection_priorities sid ids)"
proof -
  have "keeps (\<lambda>d. article_fields d = x) (storage_delete_structure_node kind node_id subs)" for subs
    unfolding storage_delete_structure_node_def remove_items_def remove_subsections_def remove_sections_def remove_sheet_def
    by (cases kind) (simp_all, (intro keeps_intros keeps_modify; simp add: article_fields_def)+)
  moreover have "keeps (\<lambda>d. article_fields d = x) (inspect_structure_deletion kind node_id)"
    unfolding inspect_structure_deletion_def subsection_ids_of_def lock_structure_ids_def
    by (cases kind) (simp_all, (intro keeps_intros)+)
  ultimately show "keeps (\<lambda>d. article_fields d = x) (delete_structure_node kind node_id b)"
    unfolding delete_structure_node_def by (intro keeps_intros)
  show "keeps (\<lambda>d. article_fields d = x) (update_sheet_priorities ids)"
    "keeps (\<lambda>d. article_fields d = x) (update_section_priorities sid ids)"
    "keeps (\<lambda>d. article_fields d = x) (update_subsection_priorities sid ids)"
    unfolding update_sheet_priorities_def update_section_priorities_def update_subsection_priorities_def
      storage_update_sheet_priorities_def storage_update_section_priorities_def storage_update_subsection_priorities_def
    by (intro keeps_intros keeps_modify; simp add: article_fields_def)+
qed

lemma item_storage_frames [keeps_intros]:
  "keeps (\<lambda>d. article_fields d = x) (create_competency_matrix_item env i)"
  "keeps (\<lambda>d. article_fields d = x) (update_competency_matrix_item env i)"
  "keeps (\<lambda>d. article_fields d = x) (delete_competency_matrix_item pk)"
  "keeps (\<lambda>d. article_fields d = x) (update_competency_matrix_item_publish_status env pk st)"
  unfolding create_competency_matrix_item_def update_competency_matrix_item_def delete_competency_matrix_item_def
    update_competency_matrix_item_publish_status_def flush_new_item_def flush_item_def flush_item_links_def
  by (intro keeps_intros keeps_modify; simp add: article_fields_def remove_items_def)+

lemma item_frames [keeps_intros]:
  "keeps (\<lambda>d. article_fields d = x) (create_item env pub p user)"
  "keeps (\<lambda>d. article_fields d = x) (create_item_from_queue env pub pk p)"
  "keeps (\<lambda>d. article_fields d = x) (update_item env pub p)"
  "keeps (\<lambda>d. article_fields d = x) (delete_item pub pk)"
  "keeps (\<lambda>d. article_fields d = x) (switch_item_publish_status env pub pk st)"
  unfolding create_item_def create_item_from_queue_def update_item_def delete_item_def switch_item_publish_status_def
    storage_delete_queued_question_def ensure_public_ready_def
  by (intro keeps_intros keeps_modify; simp add: article_fields_def)+

section \<open>Counters and the queue\<close>

definition public_fields :: "db \<Rightarrow> (stored_file list \<times> article_folder list \<times> tag list \<times> article_model list
    \<times> article_tag_link list \<times> article_file_usage list) \<times> (sheet_model list \<times> section_model list \<times> subsection_model list
    \<times> item_model list \<times> external_resource list \<times> resource_link list)" where
  "public_fields d = (fst (article_fields d), fst (matrix_fields d))"

lemma increment_frame [keeps_intros]: "keeps (\<lambda>d. public_fields d = x) (increment day kind target source n)"
  unfolding increment_def
  by (intro keeps_intros keeps_modify) (simp add: public_fields_def article_fields_def matrix_fields_def)

lemma counter_frames [keeps_intros]:
  "keeps (\<lambda>d. public_fields d = x) (track_view env a source)"
  "keeps (\<lambda>d. public_fields d = x) (track_public_view env a referrer cfg)"
  "keeps (\<lambda>d. public_fields d = x) (track_engaged_view env slug source)"
proof -
  have *: "keeps (\<lambda>d. public_fields d = x) (increment_daily_counter env aid source day n)" for aid source day n
    unfolding increment_daily_counter_def
    by (intro keeps_intros keeps_modify) (simp add: public_fields_def article_fields_def matrix_fields_def)
  show view: "keeps (\<lambda>d. public_fields d = x) (track_view env a source)" for source
    unfolding track_view_def increment_view_def by (intro keeps_intros *)
  show "keeps (\<lambda>d. public_fields d = x) (track_public_view env a referrer cfg)"
    unfolding track_public_view_def by (intro keeps_intros view)
  show "keeps (\<lambda>d. public_fields d = x) (track_engaged_view env slug source)"
    unfolding track_engaged_view_def increment_engaged_view_def by (intro keeps_intros *)
qed

lemma reaction_frame [keeps_intros]: "keeps (\<lambda>d. public_fields d = x) (set_reaction env slug token kind cfg)"
  unfolding set_reaction_def storage_set_reaction_def
  by (intro keeps_intros keeps_modify; simp add: public_fields_def article_fields_def matrix_fields_def)+

lemma queue_frames [keeps_intros]:
  "keeps (\<lambda>d. public_fields d = x) (create_queued_question env p user)"
  "keeps (\<lambda>d. public_fields d = x) (import_queued_questions env ps user)"
  "keeps (\<lambda>d. public_fields d = x) (delete_queued_question pk)"
  unfolding create_queued_question_def import_queued_questions_def create_queued_questions_def add_queued_def
    delete_queued_question_def storage_delete_queued_question_def
  by (intro keeps_intros keeps_modify; simp add: public_fields_def article_fields_def matrix_fields_def)+

section \<open>Tables besides those of an operation\<close>

definition side_fields :: "db \<Rightarrow> ((sheet_model list \<times> section_model list \<times> subsection_model list \<times> item_model list
    \<times> external_resource list \<times> resource_link list) \<times> queued_question_model list) \<times> article_daily list \<times> article_reaction list" where
  "side_fields d = (matrix_fields d, article_dailies d, reactions d)"

lemma counters_of_matrix [keeps_intros]:
  "keeps (\<lambda>d. matrix_fields d = x) (track_view env a source)"
  "keeps (\<lambda>d. matrix_fields d = x) (track_public_view env a referrer cfg)"
  "keeps (\<lambda>d. matrix_fields d = x) (track_engaged_view env slug source)"
  "keeps (\<lambda>d. matrix_fields d = x) (set_reaction env slug token kind acfg)"
proof -
  have *: "keeps (\<lambda>d. matrix_fields d = x) (increment_daily_counter env aid source day n)" for aid source day n
    unfolding increment_daily_counter_def by (intro keeps_intros keeps_modify) (simp add: matrix_fields_def)
  have inc: "keeps (\<lambda>d. matrix_fields d = x) (increment day kind target source n)" for day kind target source n
    unfolding increment_def by (intro keeps_intros keeps_modify) (simp add: matrix_fields_def)
  show view: "keeps (\<lambda>d. matrix_fields d = x) (track_view env a source)" for source
    unfolding track_view_def increment_view_def by (intro keeps_intros * inc)
  show "keeps (\<lambda>d. matrix_fields d = x) (track_public_view env a referrer cfg)"
    unfolding track_public_view_def by (intro keeps_intros view)
  show "keeps (\<lambda>d. matrix_fields d = x) (track_engaged_view env slug source)"
    unfolding track_engaged_view_def increment_engaged_view_def by (intro keeps_intros * inc)
  show "keeps (\<lambda>d. matrix_fields d = x) (set_reaction env slug token kind acfg)"
    unfolding set_reaction_def storage_set_reaction_def
    by (intro keeps_intros keeps_modify inc; simp add: matrix_fields_def)
qed

lemma queue_of_articles [keeps_intros]:
  "keeps (\<lambda>d. article_fields d = x) (create_queued_question env p user)"
  "keeps (\<lambda>d. article_fields d = x) (import_queued_questions env ps user)"
  "keeps (\<lambda>d. article_fields d = x) (delete_queued_question pk)"
  unfolding create_queued_question_def import_queued_questions_def create_queued_questions_def add_queued_def
    delete_queued_question_def storage_delete_queued_question_def increment_def
  by (intro keeps_intros keeps_modify; simp add: article_fields_def)+

lemma file_service_frames [keeps_intros]:
  "keeps (\<lambda>w. side_fields (w_db w) = x) (upload_file env ops p now)"
  "keeps (\<lambda>w. side_fields (w_db w) = x) (service_update_file env fid name now)"
  "keeps (\<lambda>w. side_fields (w_db w) = x) (service_delete_file env fid)"
  "keeps (\<lambda>w. side_fields (w_db w) = x) (prune env limit cutoff)"
proof -
  have frames: "keeps (\<lambda>d. side_fields d = x) (create_file f)" "keeps (\<lambda>d. side_fields d = x) (refresh_file_orphaned_at env fid t)"
    "keeps (\<lambda>d. side_fields d = x) (update_file_name fid name t)" "keeps (\<lambda>d. side_fields d = x) (delete_file_row fid)"
    for f fid t name
    unfolding create_file_def refresh_file_orphaned_at_def update_file_name_def delete_file_row_def get_file_def
    by (intro keeps_intros keeps_modify; simp add: side_fields_def matrix_fields_def)+
  show "keeps (\<lambda>w. side_fields (w_db w) = x) (upload_file env ops p now)"
    unfolding upload_file_def Let_def by (auto intro!: keeps_intros frames split: option.splits)
  show "keeps (\<lambda>w. side_fields (w_db w) = x) (service_update_file env fid name now)"
    "keeps (\<lambda>w. side_fields (w_db w) = x) (service_delete_file env fid)"
    unfolding service_update_file_def service_delete_file_def by (intro keeps_intros frames)+
  show "keeps (\<lambda>w. side_fields (w_db w) = x) (prune env limit cutoff)"
    by (rule keepsI) (simp add: prune_run Let_def without_files_def side_fields_def matrix_fields_def)
qed

lemma file_service_reads [keeps_intros]:
  "keeps (\<lambda>w. I (w_db w)) (service_get_file env fid)" "keeps (\<lambda>w. I (w_db w)) (service_list_files env purpose)"
  unfolding service_get_file_def service_list_files_def get_file_def list_files_def by (intro keeps_intros)+

section \<open>Counters of articles\<close>

lemma storage_counters [keeps_intros]:
  "keeps article_counters_inv (storage_create_article a)" "keeps article_counters_inv (storage_update_article a)"
  "keeps article_counters_inv (storage_delete_article slug)"
  "keeps article_counters_inv (update_article_publish_status env slug st)"
  "keeps article_counters_inv (sync_file_usages env ids ids' t)"
  unfolding storage_create_article_def storage_update_article_def storage_delete_article_def sync_file_usages_def
    update_article_publish_status_def article_references_def set_files_attached_def set_files_orphaned_if_unused_def lock_files_def
  by (intro keeps_intros keeps_modify; simp add: article_counters_inv_def remove_article_def distinct_map_filter delete_where_def)+

lemma article_counters [keeps_intros]:
  "keeps article_counters_inv (create_article env pub p t)" "keeps article_counters_inv (update_article env pub slug p' t)"
  "keeps article_counters_inv (delete_article env pub slug t)"
  "keeps article_counters_inv (switch_article_publish_status env pub slug st)"
  unfolding create_article_def update_article_def delete_article_def switch_article_publish_status_def
  by (intro keeps_intros)+

lemma folder_and_tag_counters [keeps_intros]:
  "keeps article_counters_inv (create_folder p)" "keeps article_counters_inv (delete_folder fid)"
  "keeps article_counters_inv (update_folder_priorities ids)" "keeps article_counters_inv (create_tag q tid)"
  "keeps article_counters_inv (update_tag tid q)" "keeps article_counters_inv (delete_tag tid)"
  unfolding create_folder_def delete_folder_def update_folder_priorities_def create_tag_def update_tag_def delete_tag_def
    storage_create_folder_def storage_delete_folder_def storage_update_folder_priorities_def storage_create_tag_def
    storage_update_tag_def storage_delete_tag_def
  by (intro keeps_intros keeps_modify; simp add: article_counters_inv_def)+

end
