(* ===== verification/Cache_Views.thy ===== *)
theory Cache_Views
  imports Api_Frames
begin

text \<open>
  What the public responses are computed from.  The view of the articles leaves out of the files
  everything but the location of the covers, the view of the matrix leaves out the nodes of the structure
  without questions.  The cached endpoints give the same answer on a database and on its view, and the
  operations that do not invalidate the cache keep the views.
\<close>

section \<open>View of the articles\<close>

definition public_file :: "stored_file \<Rightarrow> stored_file" where
  "public_file f =
     \<lparr>sf_id = sf_id f, sf_purpose = ATTACHMENT, sf_namespace = sf_namespace f, sf_relative_path = sf_relative_path f,
      sf_mime_type = [], sf_size_bytes = 0, sf_name = [], sf_original_name = [], sf_original_sha256 = None,
      sf_orphaned_at = None, sf_created_at = 0, sf_updated_at = 0\<rparr>"

definition is_cover :: "db \<Rightarrow> stored_file \<Rightarrow> bool" where
  "is_cover d f \<longleftrightarrow> (\<exists>m \<in> set (articles d). am_cover_image_file_id m = Some (sf_id f))"

definition article_view :: "db \<Rightarrow> db" where
  "article_view d =
     empty_db\<lparr>files := map public_file (filter (is_cover d) (files d)), folders := folders d, tags := tags d,
       articles := articles d, tag_links := tag_links d, file_usages := file_usages d\<rparr>"

definition with_public_cover :: "article \<Rightarrow> article" where
  "with_public_cover a =
     a\<lparr>ac_metadata := (ac_metadata a)\<lparr>md_cover_image_file := map_option public_file (md_cover_image_file (ac_metadata a))\<rparr>\<rparr>"

lemma row_by_filter: "(\<And>r. r \<in> set rows \<Longrightarrow> key r = k \<Longrightarrow> q r) \<Longrightarrow> row_by key k (filter q rows) = row_by key k rows"
  by (induction rows) (auto simp: row_by_def)

lemma article_view_fields [simp]:
  "articles (article_view d) = articles d" "folders (article_view d) = folders d" "tags (article_view d) = tags d"
  "tag_links (article_view d) = tag_links d" "file_usages (article_view d) = file_usages d"
  by (simp_all add: article_view_def)

lemma cover_in_view:
  assumes "m \<in> set (articles d)" "am_cover_image_file_id m = Some fid"
  shows "row_by sf_id fid (files (article_view d)) = map_option public_file (row_by sf_id fid (files d))"
proof -
  have "row_by sf_id fid (filter (is_cover d) (files d)) = row_by sf_id fid (files d)"
    using assms by (intro row_by_filter) (auto simp: is_cover_def)
  then show ?thesis by (simp add: article_view_def row_by_map public_file_def)
qed

lemma to_domain_schema_view:
  assumes "m \<in> set (articles d)"
  shows "to_domain_schema (article_view d) with_tags with_files m =
    map_sum id with_public_cover (to_domain_schema d with_tags with_files m)"
proof -
  have meta: "to_metadata_domain_schema (article_view d) with_files m =
      (to_metadata_domain_schema d with_files m)\<lparr>md_cover_image_file :=
        map_option public_file (md_cover_image_file (to_metadata_domain_schema d with_files m))\<rparr>"
    using cover_in_view[OF assms]
    by (cases "am_cover_image_file_id m") (simp_all add: to_metadata_domain_schema_def)
  have ids: "article_tag_ids (article_view d) aid = article_tag_ids d aid"
    "article_usage_ids (article_view d) aid = article_usage_ids d aid" for aid
    by (simp_all add: article_tag_ids_def article_usage_ids_def)
  show ?thesis unfolding to_domain_schema_def meta ids article_view_fields
    by (simp add: with_public_cover_def split: sum.splits)
qed

lemma hydrate_view:
  assumes "env_object_url env' = env_object_url env"
  shows "fst (hydrate env' (with_public_cover a) s') = map_sum id with_public_cover (fst (hydrate env a s))"
  by (simp add: hydrate_def with_public_cover_def public_file_def get_access_url_def ensure_valid_namespace_def
      run_simps assms with_cover_image_url_def split: option.splits)

lemma hydrate_keeps: "snd (hydrate env a s) = s"
  by (simp add: hydrate_def get_access_url_def ensure_valid_namespace_def run_simps split: option.splits)

lemma response_view:
  "article_summary_of ops lang (with_public_cover a) = article_summary_of ops lang a"
  "article_detail_of ops lang (with_public_cover a) = article_detail_of ops lang a"
proof -
  show summary: "article_summary_of ops lang (with_public_cover a) = article_summary_of ops lang a"
    by (simp add: article_summary_of_def metadata_response_of_def with_public_cover_def localized_title_def
        localized_folder_def localized_content_def)
  show "article_detail_of ops lang (with_public_cover a) = article_detail_of ops lang a"
    unfolding article_detail_of_def summary
    by (simp add: article_translations_response_def with_public_cover_def localized_content_def)
qed

lemma get_article_view:
  assumes "env_object_url env' = env_object_url env"
  shows "fst (get_article env' slug b (article_view d)) = map_sum id with_public_cover (fst (get_article env slug b d))"
proof (cases "row_by am_slug slug (articles d)")
  case None
  then show ?thesis by (simp add: get_article_def get_article_by_slug_def run_simps)
next
  case (Some m)
  have "m \<in> set (articles d)" using row_by_SomeD[OF Some] by simp
  then have dom: "to_domain_schema (article_view d) True True m = map_sum id with_public_cover (to_domain_schema d True True m)"
    by (rule to_domain_schema_view)
  have av: "is_available (with_public_cover a) = is_available a" for a
    by (simp add: is_available_def with_public_cover_def)
  show ?thesis
    using hydrate_view[OF assms, of _ "article_view d" d]
    by (cases "to_domain_schema d True True m")
       (simp_all add: get_article_def get_article_by_slug_def run_simps Some dom av)
qed

lemma all_or_error_map_sum: "all_or_error (map (map_sum id f) rs) = map_sum id (map f) (all_or_error rs)"
  by (induction rs rule: all_or_error.induct) (auto split: sum.splits)

lemma fst_bind: "fst (bind m k s) = (case fst (m s) of Inl e \<Rightarrow> Inl e | Inr a \<Rightarrow> fst (k a (snd (m s))))"
  by (simp add: bind_def split: prod.splits sum.splits)

lemma read_state: "keeps (\<lambda>t. t = s) m \<Longrightarrow> snd (m s) = s"
  by (simp add: keeps_def)

lemmas fst_runs = run_ret run_raise run_gets run_lift

lemma map_hydrate_view:
  assumes "env_object_url env' = env_object_url env"
  shows "fst (map_action (hydrate env') (map with_public_cover as) s') =
    map_sum id (map with_public_cover) (fst (map_action (hydrate env) as s))"
proof (induction as)
  case Nil
  then show ?case by (simp add: run_simps)
next
  case (Cons a as)
  then show ?case
    using hydrate_view[OF assms, of a s' s]
    by (simp add: fst_bind fst_runs hydrate_keeps split: sum.splits)
qed

lemma list_articles_view:
  "fst (list_articles ops f (article_view d)) =
    map_sum id (map_prod (map with_public_cover) id) (fst (list_articles ops f d))"
proof -
  let ?rows = "sort_key (row_order ops f) (filter (apply_article_filters ops d f) (articles d))"
  have rows: "apply_article_filters ops (article_view d) f = apply_article_filters ops d f"
  proof -
    have "has_tag_slug (article_view d) = has_tag_slug d" by (simp add: fun_eq_iff has_tag_slug_def)
    then show ?thesis by (intro ext) (simp add: apply_article_filters_def split: option.splits)
  qed
  have dom: "all_or_error (map (to_domain_schema (article_view d) b1 b2) ms) =
      map_sum id (map with_public_cover) (all_or_error (map (to_domain_schema d b1 b2) ms))"
    if "set ms \<subseteq> set (articles d)" for b1 b2 ms
  proof -
    have "map (to_domain_schema (article_view d) b1 b2) ms = map (map_sum id with_public_cover) (map (to_domain_schema d b1 b2) ms)"
      using that by (auto simp: to_domain_schema_view)
    then show ?thesis by (simp only: all_or_error_map_sum)
  qed
  have rows_in: "set ?rows \<subseteq> set (articles d)" by auto
  have page_in: "limit_rows a b ?rows = Inr ms \<Longrightarrow> set ms \<subseteq> set (articles d)" for a b ms
    using rows_in by (auto simp: limit_rows_def split: if_splits dest!: in_set_takeD in_set_dropD)
  show ?thesis
    unfolding list_articles_def
    by (auto simp: fst_bind fst_runs rows Let_def dom[OF rows_in] dom[OF page_in] split: option.splits sum.splits)
qed

lemma uc_list_articles_view:
  assumes "env_object_url env' = env_object_url env"
  shows "fst (uc_list_articles env' ops f (article_view d)) =
    map_sum id (\<lambda>p. p\<lparr>pg_values := map with_public_cover (pg_values p)\<rparr>) (fst (uc_list_articles env ops f d))"
proof -
  have page: "from_page (map with_public_cover as) total size =
      map_sum id (\<lambda>p. p\<lparr>pg_values := map with_public_cover (pg_values p)\<rparr>) (from_page as total size)" for as total size
    by (simp add: from_page_def)
  have st: "snd (list_articles ops f x) = x" for x by (rule read_state) (intro keeps_intros)
  have st': "snd (map_action (hydrate e) as x) = x" for e as and x :: 'x by (rule read_state) (intro keeps_intros)
  show ?thesis
    using list_articles_view[of ops f d] map_hydrate_view[OF assms, of _ "article_view d" d]
    unfolding uc_list_articles_def
    by (auto simp: fst_bind fst_runs st st' page map_prod_def split: option.splits sum.splits prod.splits)
qed

section \<open>View of the matrix\<close>

definition used_subsections :: "db \<Rightarrow> subsection_model list" where
  "used_subsections d = filter (\<lambda>su. su_id su \<in> im_subsection_id ` set (items d)) (subsections d)"

definition used_sections :: "db \<Rightarrow> section_model list" where
  "used_sections d = filter (\<lambda>se. se_id se \<in> su_section_id ` set (used_subsections d)) (sections d)"

definition used_sheets :: "db \<Rightarrow> sheet_model list" where
  "used_sheets d =
     filter (\<lambda>sh. sh_id sh \<in> se_sheet_id ` set (used_sections d) \<union> im_sheet_id ` set (items d)) (sheets d)"

definition matrix_view :: "db \<Rightarrow> db" where
  "matrix_view d =
     empty_db\<lparr>items := items d, resources := resources d, resource_links := resource_links d,
       subsections := used_subsections d, sections := used_sections d, sheets := used_sheets d\<rparr>"

lemma matrix_view_fields [simp]:
  "items (matrix_view d) = items d" "resources (matrix_view d) = resources d"
  "resource_links (matrix_view d) = resource_links d" "subsections (matrix_view d) = used_subsections d"
  "sections (matrix_view d) = used_sections d" "sheets (matrix_view d) = used_sheets d"
  by (simp_all add: matrix_view_def)

text \<open>A comprehension that tests each row may as well run over the rows that can pass the test.\<close>

lemma concat_map_filter:
  "(\<And>x. x \<in> set xs \<Longrightarrow> \<not> q x \<Longrightarrow> f x = []) \<Longrightarrow> concat (map f (filter q xs)) = concat (map f xs)"
  by (induction xs) auto

lemma used_rows:
  "set (used_subsections d) \<subseteq> set (subsections d)" "set (used_sections d) \<subseteq> set (sections d)"
  "i \<in> set (items d) \<Longrightarrow> su \<in> set (subsections d) \<Longrightarrow> su_id su = im_subsection_id i \<Longrightarrow> su \<in> set (used_subsections d)"
  "su \<in> set (used_subsections d) \<Longrightarrow> se \<in> set (sections d) \<Longrightarrow> se_id se = su_section_id su \<Longrightarrow> se \<in> set (used_sections d)"
  by (auto simp: used_subsections_def used_sections_def)

lemma join_structure_view: "join_structure (matrix_view d) = join_structure d"
proof -
  let ?row = "\<lambda>i su se sh. if sh_id sh = se_sheet_id se then [(i, su, se, sh)] else []"
  have sh: "concat (map (?row i su se) (used_sheets d)) = concat (map (?row i su se) (sheets d))"
    if "se \<in> set (used_sections d)" for i su se
    unfolding used_sheets_def using that by (intro concat_map_filter) auto
  let ?sec = "\<lambda>i su shs se. if se_id se = su_section_id su then concat (map (?row i su se) shs) else []"
  have se: "concat (map (?sec i su (used_sheets d)) (used_sections d)) = concat (map (?sec i su (sheets d)) (sections d))"
    if "su \<in> set (used_subsections d)" for i su
  proof -
    have "map (?sec i su (used_sheets d)) (used_sections d) = map (?sec i su (sheets d)) (used_sections d)"
      using sh by (intro map_cong) auto
    moreover have "concat (map (?sec i su (sheets d)) (used_sections d)) = concat (map (?sec i su (sheets d)) (sections d))"
      unfolding used_sections_def using that by (intro concat_map_filter) auto
    ultimately show ?thesis by (rule trans[OF arg_cong[of _ _ concat]])
  qed
  let ?sub = "\<lambda>i ses shs su. if su_id su = im_subsection_id i then concat (map (?sec i su shs) ses) else []"
  have rows: "concat (map (?sub i (used_sections d) (used_sheets d)) (used_subsections d)) =
      concat (map (?sub i (sections d) (sheets d)) (subsections d))" if "i \<in> set (items d)" for i
  proof -
    have "map (?sub i (used_sections d) (used_sheets d)) (used_subsections d) =
        map (?sub i (sections d) (sheets d)) (used_subsections d)"
      using se by (intro map_cong) auto
    moreover have "concat (map (?sub i (sections d) (sheets d)) (used_subsections d)) =
        concat (map (?sub i (sections d) (sheets d)) (subsections d))"
      unfolding used_subsections_def using that by (intro concat_map_filter) auto
    ultimately show ?thesis by (rule trans[OF arg_cong[of _ _ concat]])
  qed
  show ?thesis unfolding join_structure_def matrix_view_fields
    by (rule arg_cong[of _ _ concat], rule map_cong[OF refl]) (rule rows)
qed

lemma list_sheets_view: "fst (list_sheets (matrix_view d)) = fst (list_sheets d)"
proof -
  have "filter (\<lambda>sh. \<exists>r \<in> set (join_structure d). snd (snd (snd r)) = sh \<and> im_publish_status (fst r) = PUBLISHED) (used_sheets d) =
      filter (\<lambda>sh. \<exists>r \<in> set (join_structure d). snd (snd (snd r)) = sh \<and> im_publish_status (fst r) = PUBLISHED) (sheets d)"
  proof -
    have "snd (snd (snd r)) \<in> set (used_sheets d)" if "r \<in> set (join_structure d)" for r
      using that by (auto simp: join_structure_def used_sheets_def used_sections_def used_subsections_def split: if_splits)
    then have "\<And>sh. (sh_id sh \<in> se_sheet_id ` set (used_sections d) \<union> im_sheet_id ` set (items d)
        \<and> (\<exists>r \<in> set (join_structure d). snd (snd (snd r)) = sh \<and> im_publish_status (fst r) = PUBLISHED)) =
        (\<exists>r \<in> set (join_structure d). snd (snd (snd r)) = sh \<and> im_publish_status (fst r) = PUBLISHED)"
      by (fastforce simp: used_sheets_def)
    then show ?thesis unfolding used_sheets_def filter_filter by (intro filter_cong) auto
  qed
  then show ?thesis by (simp add: list_sheets_def run_simps join_structure_view)
qed

lemma item_to_domain_view:
  assumes "i \<in> set (items d)"
  shows "item_to_domain (matrix_view d) ls i = item_to_domain d ls i"
proof -
  have su: "row_by su_id (im_subsection_id i) (used_subsections d) = row_by su_id (im_subsection_id i) (subsections d)"
    unfolding used_subsections_def using assms by (intro row_by_filter) auto
  have "to_item_structure (matrix_view d) su = to_item_structure d su" if "su \<in> set (used_subsections d)" for su
  proof -
    have se: "row_by se_id (su_section_id su) (used_sections d) = row_by se_id (su_section_id su) (sections d)"
      unfolding used_sections_def using that by (intro row_by_filter) auto
    have sh: "row_by sh_id (se_sheet_id se) (used_sheets d) = row_by sh_id (se_sheet_id se) (sheets d)"
      if "se \<in> set (used_sections d)" for se
      unfolding used_sheets_def using that by (intro row_by_filter) auto
    show ?thesis
    proof (cases "row_by se_id (su_section_id su) (sections d)")
      case None
      then show ?thesis by (simp add: to_item_structure_def require_def se)
    next
      case (Some x)
      then have "x \<in> set (used_sections d)"
        using row_by_SomeD[of se_id "su_section_id su" "used_sections d" x] se by simp
      then show ?thesis by (simp add: to_item_structure_def require_def se sh Some)
    qed
  qed
  then have st: "to_item_structure (matrix_view d) su = to_item_structure d su"
    if "row_by su_id (im_subsection_id i) (subsections d) = Some su" for su
    using row_by_SomeD[of su_id "im_subsection_id i" "used_subsections d" su] su that by simp
  have links: "link_to_domain (matrix_view d) = link_to_domain d" by (simp add: fun_eq_iff link_to_domain_def)
  show ?thesis unfolding item_to_domain_def links
    by (cases "row_by su_id (im_subsection_id i) (subsections d)") (simp_all add: su st require_def)
qed

lemma list_items_view: "fst (list_items f (matrix_view d)) = fst (list_items f d)"
proof -
  have "item_to_domain (matrix_view d) [] (fst r) = item_to_domain d [] (fst r)" if "r \<in> set (join_structure d)" for r
    using that by (intro item_to_domain_view) (auto simp: join_structure_def split: if_splits)
  then have rows: "map (\<lambda>r. item_to_domain (matrix_view d) [] (fst r)) (sort_key item_default_ordering (filter (item_filter f) (join_structure d))) =
      map (\<lambda>r. item_to_domain d [] (fst r)) (sort_key item_default_ordering (filter (item_filter f) (join_structure d)))"
    by (intro map_cong) auto
  show ?thesis
    unfolding list_items_def list_competency_matrix_items_def fst_bind fst_runs join_structure_view rows
    by (simp split: sum.splits)
qed

lemma get_item_by_slug_view: "fst (get_item_by_slug key slug b (matrix_view d)) = fst (get_item_by_slug key slug b d)"
proof -
  let ?row = "\<lambda>i sh. if sh_id sh = im_sheet_id i \<and> sh_key sh = key \<and> im_slug i = slug then [i] else []"
  have "concat (map (?row i) (used_sheets d)) = concat (map (?row i) (sheets d))" if "i \<in> set (items d)" for i
    unfolding used_sheets_def using that by (intro concat_map_filter) auto
  then have rows: "concat (map (\<lambda>i. concat (map (?row i) (used_sheets d))) (items d)) =
      concat (map (\<lambda>i. concat (map (?row i) (sheets d))) (items d))"
    by (metis (no_types, lifting) map_cong)
  have "item_to_domain (matrix_view d) ls i = item_to_domain d ls i"
    if "first (concat (map (\<lambda>i. concat (map (?row i) (sheets d))) (items d))) = Some i" for i ls
  proof (rule item_to_domain_view)
    have "i \<in> set (concat (map (\<lambda>i. concat (map (?row i) (sheets d))) (items d)))"
      using that by (cases "concat (map (\<lambda>i. concat (map (?row i) (sheets d))) (items d))") (auto simp: first_def)
    then show "i \<in> set (items d)" by (auto split: if_splits)
  qed
  moreover have "item_links (matrix_view d) = item_links d" by (simp add: fun_eq_iff item_links_def)
  ultimately show ?thesis
    by (auto simp: get_item_by_slug_def get_competency_matrix_item_by_slug_def fst_bind fst_runs rows
        split: option.splits sum.splits if_splits)
qed

section \<open>Answers\<close>

text \<open>The answer of a cached endpoint on a database, whatever the rest of the session is.\<close>

definition answer :: "api \<Rightarrow> public_request \<Rightarrow> db \<Rightarrow> error + response" where
  "answer c r d =
     fst (public_endpoint c r \<lparr>sn_world = \<lparr>w_db = d, w_objects = Map.empty\<rparr>, sn_quota = (), sn_post_commit = []\<rparr>)"

text \<open>The requests of one site share what the public responses depend on.\<close>

definition same_site :: "api \<Rightarrow> api \<Rightarrow> bool" where
  "same_site c c' \<longleftrightarrow>
     env_object_url (ax_env c) = env_object_url (ax_env c') \<and> env_sha256 (ax_env c) = env_sha256 (ax_env c')
     \<and> ax_search c = ax_search c' \<and> ax_adapters c = ax_adapters c'
     \<and> ax_use_cache c = ax_use_cache c' \<and> ax_default_key c = ax_default_key c'"

lemma fst_on_database: "fst (on_database m s) = fst (m (w_db (sn_world s)))"
  by (simp add: on_database_def on_world_def in_db_def prod.case_eq_if)

lemma read_on_database: "keeps (\<lambda>t. t = w_db (sn_world s)) m \<Longrightarrow> snd (on_database m s) = s"
  by (simp add: on_database_def on_world_def in_db_def prod.case_eq_if keeps_def)

lemma fst_respond: "fst (respond f r s) = map_sum id f r" "snd (respond f r s) = s"
  by (simp_all add: respond_def run_simps split: sum.splits)

lemmas endpoint_reads = fst_bind fst_runs fst_on_database fst_respond

lemmas cached_endpoints = public_list_articles_def public_list_articles_tree_def public_get_article_def public_list_tags_def
  public_list_sheets_def public_list_items_def public_get_item_def

lemma snd_bind_read: "snd (m s) = s \<Longrightarrow> (\<And>a. snd (k a s) = s) \<Longrightarrow> snd (bind m k s) = s"
  by (cases "m s") (auto simp: bind_def split: sum.splits)

lemma snd_runs: "snd (ret a s) = s" "snd (lift x s) = s"
  by (simp_all add: run_simps)

lemma public_endpoint_state: "snd (public_endpoint c r s) = s"
  by (cases r)
     (simp_all add: cached_endpoints,
      (intro snd_bind_read read_on_database keeps_intros; simp add: snd_runs fst_respond)+)

lemma public_endpoint_run: "public_endpoint c r s = (answer c r (w_db (sn_world s)), s)"
proof -
  have "fst (public_endpoint c r s) = answer c r (w_db (sn_world s))"
    by (cases r) (simp_all add: answer_def cached_endpoints endpoint_reads cong: sum.case_cong)
  then show ?thesis using public_endpoint_state[of c r s] by (simp add: prod_eq_iff)
qed

lemma answer_articles_view:
  assumes "request_domain r = DOMAIN_ARTICLES" "same_site c c'"
  shows "answer c' r (article_view d) = answer c r d"
proof -
  have url: "env_object_url (ax_env c') = env_object_url (ax_env c)" and
    site: "ax_search c' = ax_search c" "ax_adapters c' = ax_adapters c"
    using assms by (simp_all add: same_site_def)
  have lists: "article_list_of ops lang (p\<lparr>pg_values := map with_public_cover (pg_values p)\<rparr>) = article_list_of ops lang p"
    for ops lang p by (simp add: article_list_of_def response_view comp_def)
  have tree: "fst (list_tree True lang (article_view d)) = fst (list_tree True lang d)" for lang
    by (simp add: list_tree_def list_tree_items_def list_published_tree_items_def fst_bind fst_runs)
  have tags: "fst (list_tags lang True (article_view d)) = fst (list_tags lang True d)" for lang
    by (simp add: list_tags_def run_simps)
  show ?thesis
    using assms(1) get_article_view[OF url, of _ True d] uc_list_articles_view[OF url, of _ _ d] tree tags
    by (cases r) (auto simp: answer_def cached_endpoints endpoint_reads site lists response_view split: sum.splits)
qed

lemma answer_matrix_view:
  "request_domain r = DOMAIN_MATRIX \<Longrightarrow> answer c' r (matrix_view d) = answer c r d"
  by (cases r) (auto simp: answer_def cached_endpoints endpoint_reads list_sheets_view list_items_view get_item_by_slug_view
      split: sum.splits)

section \<open>Operations that keep the views\<close>

definition covers_exist :: "db \<Rightarrow> bool" where
  "covers_exist d \<longleftrightarrow> (\<forall>m \<in> set (articles d). \<forall>fid. am_cover_image_file_id m = Some fid \<longrightarrow> fid \<in> sf_id ` set (files d))"

lemma covers_exist: "content_inv d \<Longrightarrow> covers_exist d"
  by (force simp: covers_exist_def content_inv_def articles_inv_def article_usage_inv_def file_purposes_def)

definition shown :: "db \<Rightarrow> db \<Rightarrow> bool" where
  "shown x d \<longleftrightarrow> covers_exist d \<and> article_view d = x"

lemma shown_files:
  assumes "shown x d"
    and "map public_file (filter (is_cover d) fs) = map public_file (filter (is_cover d) (files d))"
  shows "shown x (d\<lparr>files := fs\<rparr>)"
proof -
  have "article_view (d\<lparr>files := fs\<rparr>) = article_view d"
    using assms(2) by (simp add: article_view_def is_cover_def[abs_def])
  moreover have "fid \<in> sf_id ` set fs" if m: "m \<in> set (articles d)" "am_cover_image_file_id m = Some fid" for m fid
  proof -
    obtain f where f: "f \<in> set (files d)" "sf_id f = fid" using assms(1) m by (auto simp: shown_def covers_exist_def)
    then have "public_file f \<in> public_file ` set (filter (is_cover d) (files d))" using m by (auto simp: is_cover_def)
    then have "public_file f \<in> public_file ` set (filter (is_cover d) fs)" using assms(2) by (metis set_map)
    then show ?thesis using f by (auto simp: public_file_def)
  qed
  ultimately show ?thesis using assms(1) by (auto simp: shown_def covers_exist_def)
qed

lemma is_cover_public: "public_file f = public_file g \<Longrightarrow> is_cover d f = is_cover d g"
  by (simp add: is_cover_def public_file_def)

lemma shown_update:
  assumes "shown x d" "\<And>f. public_file (g f) = public_file f"
  shows "shown x (d\<lparr>files := update_where p g (files d)\<rparr>)"
proof (rule shown_files[OF assms(1)])
  have one: "public_file (if p f then g f else f) = public_file f" for f by (simp add: assms)
  show "map public_file (filter (is_cover d) (update_where p g (files d))) = map public_file (filter (is_cover d) (files d))"
    unfolding update_where_def filter_map map_map comp_def using is_cover_public[OF one, of d] one by (simp only:)
qed

lemma create_file_shown: "keeps (shown x) (create_file f)"
proof -
  have "shown x (d\<lparr>files := files d @ [f]\<rparr>)" if "shown x d" "sf_id f \<notin> sf_id ` set (files d)" for d
    using that by (intro shown_files) (auto simp: is_cover_def shown_def covers_exist_def)
  then show ?thesis by (auto simp: keeps_def create_file_def run_simps)
qed

lemma file_updates_shown:
  "keeps (shown x) (refresh_file_orphaned_at env fid t)" "keeps (shown x) (update_file_name fid name t)"
  unfolding refresh_file_orphaned_at_def update_file_name_def get_file_def
  by (intro keeps_intros keeps_modify shown_update; simp add: public_file_def)+

lemma shown_delete:
  "shown x d \<Longrightarrow> (\<And>f. p f \<Longrightarrow> \<not> file_used d (sf_id f)) \<Longrightarrow> shown x (d\<lparr>files := delete_where p (files d)\<rparr>)"
  by (rule shown_files) (auto simp: delete_where_def is_cover_def file_used_def intro!: arg_cong[of _ _ "map public_file"] filter_cong)

lemma delete_file_row_shown: "keeps (shown x) (delete_file_row fid)"
proof (rule keepsI)
  fix d assume *: "shown x d"
  show "shown x (snd (delete_file_row fid d))"
  proof (cases "fid \<in> sf_id ` set (files d)")
    case True
    then show ?thesis using * by (auto simp: delete_file_row_def run_simps intro!: shown_delete)
  next
    case False
    then have "delete_where (\<lambda>f. sf_id f = fid) (files d) = files d" by (auto simp: delete_where_def filter_id_conv)
    then show ?thesis using * False by (simp add: delete_file_row_def run_simps)
  qed
qed

lemma file_service_shown:
  "keeps (\<lambda>w. shown x (w_db w)) (upload_file env ops p now)"
  "keeps (\<lambda>w. shown x (w_db w)) (service_update_file env fid name now)"
  "keeps (\<lambda>w. shown x (w_db w)) (service_delete_file env fid)"
proof -
  show "keeps (\<lambda>w. shown x (w_db w)) (upload_file env ops p now)"
    unfolding upload_file_def Let_def
    by (auto intro!: keeps_intros create_file_shown file_updates_shown split: option.splits)
  show "keeps (\<lambda>w. shown x (w_db w)) (service_update_file env fid name now)"
    "keeps (\<lambda>w. shown x (w_db w)) (service_delete_file env fid)"
    unfolding service_update_file_def service_delete_file_def
    by (intro keeps_intros file_updates_shown delete_file_row_shown)+
qed

lemma prune_shown: "keeps (\<lambda>w. shown x (w_db w)) (prune env limit cutoff)"
proof (rule keepsI)
  fix w :: world assume "shown x (w_db w)"
  then show "shown x (w_db (snd (prune env limit cutoff w)))"
    using cleanup_candidates_sound[of _ "w_db w" cutoff limit]
    by (auto simp: prune_run Let_def without_files_def deletable_def intro!: shown_delete)
qed

section \<open>Creating nodes of the structure\<close>

lemma references_of_items:
  assumes "matrix_inv h d"
  shows "im_subsection_id ` set (items d) \<subseteq> su_id ` set (subsections d)"
    "su_section_id ` set (subsections d) \<subseteq> se_id ` set (sections d)"
    "se_sheet_id ` set (sections d) \<subseteq> sh_id ` set (sheets d)"
    "im_sheet_id ` set (items d) \<subseteq> sh_id ` set (sheets d)"
proof -
  have *: "(\<lambda>m. (im_subsection_id m, im_sheet_id m)) ` set (items d) \<subseteq> subsection_sheets d"
    using assms by (simp add: matrix_inv_def items_inv_def)
  show refs: "su_section_id ` set (subsections d) \<subseteq> se_id ` set (sections d)"
    "se_sheet_id ` set (sections d) \<subseteq> sh_id ` set (sheets d)"
    using assms by (auto simp: matrix_inv_def structure_refs_inv_def)
  have pair: "(im_subsection_id m, im_sheet_id m) \<in> subsection_sheets d" if "m \<in> set (items d)" for m using * that by auto
  show "im_subsection_id ` set (items d) \<subseteq> su_id ` set (subsections d)"
    using pair by (fastforce simp: subsection_sheets_def)
  show "im_sheet_id ` set (items d) \<subseteq> sh_id ` set (sheets d)"
    using pair refs(2) by (fastforce simp: subsection_sheets_def)
qed

lemma fresh_node_views:
  assumes inv: "matrix_inv h d"
  shows "sh_id x \<notin> sh_id ` set (sheets d) \<Longrightarrow> matrix_view (d\<lparr>sheets := sheets d @ [x]\<rparr>) = matrix_view d"
    "se_id y \<notin> se_id ` set (sections d) \<Longrightarrow> matrix_view (d\<lparr>sections := sections d @ [y]\<rparr>) = matrix_view d"
    "su_id z \<notin> su_id ` set (subsections d) \<Longrightarrow> matrix_view (d\<lparr>subsections := subsections d @ [z]\<rparr>) = matrix_view d"
proof -
  note refs = references_of_items[OF inv]
  have subs: "set (used_subsections d) \<subseteq> set (subsections d)" "set (used_sections d) \<subseteq> set (sections d)" by (rule used_rows)+
  show "matrix_view (d\<lparr>sheets := sheets d @ [x]\<rparr>) = matrix_view d" if "sh_id x \<notin> sh_id ` set (sheets d)"
  proof -
    have u: "used_subsections (d\<lparr>sheets := sheets d @ [x]\<rparr>) = used_subsections d"
      "used_sections (d\<lparr>sheets := sheets d @ [x]\<rparr>) = used_sections d"
      by (simp_all add: used_subsections_def used_sections_def)
    have "sh_id x \<notin> se_sheet_id ` set (used_sections d) \<union> im_sheet_id ` set (items d)"
      using that refs(3,4) subs(2) by blast
    then have "used_sheets (d\<lparr>sheets := sheets d @ [x]\<rparr>) = used_sheets d" by (simp add: used_sheets_def u)
    then show ?thesis by (simp add: matrix_view_def u)
  qed
  show "matrix_view (d\<lparr>sections := sections d @ [y]\<rparr>) = matrix_view d" if "se_id y \<notin> se_id ` set (sections d)"
  proof -
    have u: "used_subsections (d\<lparr>sections := sections d @ [y]\<rparr>) = used_subsections d" by (simp add: used_subsections_def)
    have "se_id y \<notin> su_section_id ` set (used_subsections d)" using that refs(2) subs(1) by blast
    then have v: "used_sections (d\<lparr>sections := sections d @ [y]\<rparr>) = used_sections d" by (simp add: used_sections_def u)
    then show ?thesis by (simp add: matrix_view_def used_sheets_def u)
  qed
  show "matrix_view (d\<lparr>subsections := subsections d @ [z]\<rparr>) = matrix_view d" if "su_id z \<notin> su_id ` set (subsections d)"
  proof -
    have "su_id z \<notin> im_subsection_id ` set (items d)" using that refs(1) by blast
    then have "used_subsections (d\<lparr>subsections := subsections d @ [z]\<rparr>) = used_subsections d" by (simp add: used_subsections_def)
    then show ?thesis by (simp add: matrix_view_def used_sheets_def used_sections_def)
  qed
qed

lemma structure_creation_views:
  assumes "matrix_inv h d"
  shows "matrix_view (snd (create_sheet env p d)) = matrix_view d"
    "matrix_view (snd (create_section env p' d)) = matrix_view d"
    "matrix_view (snd (create_subsection env p'' d)) = matrix_view d"
  using fresh_node_views[OF assms]
  by (simp_all add: create_sheet_def create_section_def create_subsection_def sheet_exists_by_key_def next_sheet_priority_def
      get_sheet_model_def section_exists_by_name_def next_section_priority_def get_section_model_def
      subsection_exists_by_name_def next_subsection_priority_def run_simps Let_def require_def split: option.splits)

section \<open>Views and fields\<close>

lemma view_of_fields:
  "public_fields d = public_fields d' \<Longrightarrow> article_view d = article_view d'"
  "public_fields d = public_fields d' \<Longrightarrow> matrix_view d = matrix_view d'"
  "article_fields d = article_fields d' \<Longrightarrow> article_view d = article_view d'"
  "matrix_fields d = matrix_fields d' \<Longrightarrow> matrix_view d = matrix_view d'"
  by (auto simp: public_fields_def article_fields_def matrix_fields_def article_view_def is_cover_def[abs_def]
      matrix_view_def used_sheets_def used_sections_def used_subsections_def)

lemma inv_of_fields:
  "article_fields d = article_fields d' \<Longrightarrow> content_inv d = content_inv d'"
  "matrix_fields d = matrix_fields d' \<Longrightarrow> matrix_inv h d = matrix_inv h d'"
proof -
  show "article_fields d = article_fields d' \<Longrightarrow> content_inv d = content_inv d'"
    by (simp add: article_fields_def content_inv_def files_inv_def articles_inv_defs file_used_def used_file_ids_def
        article_usage_ids_def file_purposes_def)
  show "matrix_fields d = matrix_fields d' \<Longrightarrow> matrix_inv h d = matrix_inv h d'"
    by (rule matrix_inv_cong) (simp_all add: matrix_fields_def)
qed

end
