(* ===== verification/Cache_Coherence.thy ===== *)
theory Cache_Coherence
  imports Cache_Views
begin

text \<open>
  The cache of responses is coherent: whatever the editors, the readers and the background tasks do, an
  answer found in the cache is the one that the endpoint would give now.  Each endpoint either keeps the
  view that a domain of the cache is computed from, or registers the domain for invalidation after its
  commit.
\<close>

section \<open>What an endpoint touches\<close>

definition site_inv :: "(pystr \<Rightarrow> pystr) \<Rightarrow> db \<Rightarrow> bool" where
  "site_inv h d \<longleftrightarrow> content_inv d \<and> article_counters_inv d \<and> matrix_inv h d"

definition view_of :: "cache_domain \<Rightarrow> db \<Rightarrow> db" where
  "view_of domain d =
     (case domain of DOMAIN_ARTICLES \<Rightarrow> article_view d | DOMAIN_MATRIX \<Rightarrow> matrix_view d | DOMAIN_HEALTHCHECK \<Rightarrow> empty_db)"

lemma view_of_simps [simp]:
  "view_of DOMAIN_ARTICLES d = article_view d" "view_of DOMAIN_MATRIX d = matrix_view d"
  "view_of DOMAIN_HEALTHCHECK d = empty_db"
  by (simp_all add: view_of_def)

abbreviation session_db :: "'q session \<Rightarrow> db" where
  "session_db s \<equiv> w_db (sn_world s)"

text \<open>
  A successful run keeps the invariants, changes no view but those of \<open>X\<close> and leaves at least the domains
  \<open>Y\<close> registered.
\<close>

definition touches ::
  "(pystr \<Rightarrow> pystr) \<Rightarrow> cache_domain set \<Rightarrow> cache_domain set \<Rightarrow> ('q, 'r) handler \<Rightarrow> bool" where
  "touches h X Y m \<longleftrightarrow> (\<forall>s r s'. site_inv h (session_db s) \<longrightarrow> m s = (Inr r, s') \<longrightarrow>
     site_inv h (session_db s')
     \<and> (\<forall>domain. domain \<notin> X \<longrightarrow> view_of domain (session_db s') = view_of domain (session_db s))
     \<and> set (sn_post_commit s) \<union> Y \<subseteq> set (sn_post_commit s'))"

lemma touches_run:
  assumes "touches h X Y m" "site_inv h (session_db s)" "m s = (Inr r, s')"
  shows "site_inv h (session_db s')"
    "domain \<notin> X \<Longrightarrow> view_of domain (session_db s') = view_of domain (session_db s)"
    "set (sn_post_commit s) \<subseteq> set (sn_post_commit s')" "Y \<subseteq> set (sn_post_commit s')"
  using assms unfolding touches_def by blast+

named_theorems touches_intros \<open>rules that derive what an endpoint touches\<close>

lemma touches_bind:
  assumes "touches h X {} m" "\<And>a. touches h X Y (k a)"
  shows "touches h X Y (bind m k)"
  unfolding touches_def
proof (intro allI impI)
  fix s r s' assume inv: "site_inv h (session_db s)" and "bind m k s = (Inr r, s')"
  then obtain a t where m: "m s = (Inr a, t)" and k: "k a t = (Inr r, s')"
    by (auto simp: bind_def split: prod.splits sum.splits)
  note 1 = touches_run[OF assms(1) inv m] and 2 = touches_run[OF assms(2) touches_run(1)[OF assms(1) inv m] k]
  show "site_inv h (session_db s')
     \<and> (\<forall>domain. domain \<notin> X \<longrightarrow> view_of domain (session_db s') = view_of domain (session_db s))
     \<and> set (sn_post_commit s) \<union> Y \<subseteq> set (sn_post_commit s')"
    using 1 2 by fastforce
qed

lemma touches_invalidation:
  assumes "ax_use_cache c" "\<And>a. touches h X {} (k a)"
  shows "touches h X {domain} (bind (invalidate_response_cache_domain_for_mutation c domain) k)"
  unfolding touches_def
proof (intro allI impI)
  fix s r s' assume inv: "site_inv h (session_db s)"
    and run: "bind (invalidate_response_cache_domain_for_mutation c domain) k s = (Inr r, s')"
  let ?s = "s\<lparr>sn_post_commit := sn_post_commit s @ [domain]\<rparr>"
  have "k () ?s = (Inr r, s')"
    using run assms(1) by (simp add: invalidate_response_cache_domain_for_mutation_def run_simps)
  then show "site_inv h (session_db s')
     \<and> (\<forall>domain. domain \<notin> X \<longrightarrow> view_of domain (session_db s') = view_of domain (session_db s))
     \<and> set (sn_post_commit s) \<union> {domain} \<subseteq> set (sn_post_commit s')"
    using touches_run[OF assms(2), of ?s "()" r s'] inv by auto
qed

lemma touches_pure [touches_intros]:
  "touches h X {} (ret a)" "touches h X {} (raise e)" "touches h X {} (lift x)" "touches h X {} (ensure b e)"
  "touches h X {} (respond f y)"
  by (auto simp: touches_def run_simps respond_def split: if_splits)

lemma touches_cases [touches_intros]:
  "(b \<Longrightarrow> touches h X Y m) \<Longrightarrow> (\<not> b \<Longrightarrow> touches h X Y m') \<Longrightarrow> touches h X Y (if b then m else m')"
  "(x = None \<Longrightarrow> touches h X Y m) \<Longrightarrow> (\<And>a. x = Some a \<Longrightarrow> touches h X Y (k a)) \<Longrightarrow> touches h X Y (case x of None \<Rightarrow> m | Some a \<Rightarrow> k a)"
  by (cases x; simp)+

lemma touches_on_world:
  assumes "\<And>w r w'. site_inv h (w_db w) \<Longrightarrow> m w = (Inr r, w') \<Longrightarrow>
    site_inv h (w_db w') \<and> (\<forall>domain. domain \<notin> X \<longrightarrow> view_of domain (w_db w') = view_of domain (w_db w))"
  shows "touches h X {} (on_world m)"
  using assms by (fastforce simp: touches_def on_world_def split: prod.splits)

lemma touches_on_database:
  assumes "\<And>d r d'. site_inv h d \<Longrightarrow> m d = (Inr r, d') \<Longrightarrow>
    site_inv h d' \<and> (\<forall>domain. domain \<notin> X \<longrightarrow> view_of domain d' = view_of domain d)"
  shows "touches h X {} (on_database m)"
  unfolding on_database_def using assms
  by (intro touches_on_world) (fastforce simp: in_db_def split: prod.splits)

lemma keeps_run: "keeps I m \<Longrightarrow> m s = (r, s') \<Longrightarrow> I s \<Longrightarrow> I s'"
  by (metis keepsD snd_conv)

lemma touches_read [touches_intros]:
  assumes "\<And>I. keeps I m"
  shows "touches h X {} (on_database m)"
proof (rule touches_on_database)
  fix d r d' assume "site_inv h d" "m d = (Inr r, d')"
  moreover from this have "d' = d" using keeps_run[OF assms, of d "Inr r" d' "\<lambda>x. x = d"] by simp
  ultimately show "site_inv h d' \<and> (\<forall>domain. domain \<notin> X \<longrightarrow> view_of domain d' = view_of domain d)" by simp
qed

lemma touches_read_world:
  assumes "\<And>I. keeps (\<lambda>w. I (w_db w)) m"
  shows "touches h X {} (on_world m)"
proof (rule touches_on_world)
  fix w r w' assume "site_inv h (w_db w)" "m w = (Inr r, w')"
  moreover from this have "w_db w' = w_db w" using keeps_run[OF assms, of w "Inr r" w' "\<lambda>x. x = w_db w"] by simp
  ultimately show "site_inv h (w_db w') \<and> (\<forall>domain. domain \<notin> X \<longrightarrow> view_of domain (w_db w') = view_of domain (w_db w))"
    by simp
qed

lemma view_cases:
  assumes "DOMAIN_ARTICLES \<notin> X \<Longrightarrow> article_view d' = article_view d" "DOMAIN_MATRIX \<notin> X \<Longrightarrow> matrix_view d' = matrix_view d"
  shows "\<forall>domain. domain \<notin> X \<longrightarrow> view_of domain d' = view_of domain d"
proof (intro allI impI)
  fix domain assume "domain \<notin> X"
  then show "view_of domain d' = view_of domain d" using assms by (cases domain) simp_all
qed

lemma touches_articles:
  assumes "\<And>d r d'. content_inv d \<Longrightarrow> m d = (Inr r, d') \<Longrightarrow> content_inv d'" "keeps article_counters_inv m"
    and frame: "\<And>x. keeps (\<lambda>d. matrix_fields d = x) m"
  shows "touches h {DOMAIN_ARTICLES} {} (on_database m)"
proof (rule touches_on_database)
  fix d r d' assume inv: "site_inv h d" and run: "m d = (Inr r, d')"
  have fields: "matrix_fields d' = matrix_fields d" using keeps_run[OF frame run] by simp
  have "site_inv h d'"
    using inv assms(1)[OF _ run] keeps_run[OF assms(2) run] inv_of_fields(2)[OF fields] by (simp add: site_inv_def)
  then show "site_inv h d' \<and> (\<forall>domain. domain \<notin> {DOMAIN_ARTICLES} \<longrightarrow> view_of domain d' = view_of domain d)"
    using view_of_fields(4)[OF fields] by (auto intro!: view_cases[THEN spec, THEN mp])
qed

lemma touches_matrix:
  assumes "keeps (matrix_inv h) (transactional m)" and frame: "\<And>x. keeps (\<lambda>d. article_fields d = x) m"
  shows "touches h {DOMAIN_MATRIX} {} (on_database m)"
proof (rule touches_on_database)
  fix d r d' assume inv: "site_inv h d" and run: "m d = (Inr r, d')"
  have fields: "article_fields d' = article_fields d" using keeps_run[OF frame run] by simp
  have "transactional m d = (Inr r, d')" using run by (simp add: run_simps)
  then have "matrix_inv h d'" using keeps_run[OF assms(1)] inv by (auto simp: site_inv_def)
  moreover have "article_counters_inv d' = article_counters_inv d" using fields by (simp add: article_fields_def article_counters_inv_def)
  ultimately have "site_inv h d'" using inv inv_of_fields(1)[OF fields] by (simp add: site_inv_def)
  then show "site_inv h d' \<and> (\<forall>domain. domain \<notin> {DOMAIN_MATRIX} \<longrightarrow> view_of domain d' = view_of domain d)"
    using view_of_fields(3)[OF fields] by (auto intro!: view_cases[THEN spec, THEN mp])
qed

lemma touches_counters:
  assumes "keeps (\<lambda>d. content_inv d \<and> article_counters_inv d) m" and frame: "\<And>x. keeps (\<lambda>d. matrix_fields d = x) m"
    and public: "\<And>x. keeps (\<lambda>d. public_fields d = x) m"
  shows "touches h {} {} (on_database m)"
proof (rule touches_on_database)
  fix d r d' assume inv: "site_inv h d" and run: "m d = (Inr r, d')"
  have fields: "matrix_fields d' = matrix_fields d" "public_fields d' = public_fields d"
    using keeps_run[OF frame run] keeps_run[OF public run] by simp_all
  have "site_inv h d'"
    using inv keeps_run[OF assms(1) run] inv_of_fields(2)[OF fields(1)] by (simp add: site_inv_def)
  then show "site_inv h d' \<and> (\<forall>domain. domain \<notin> {} \<longrightarrow> view_of domain d' = view_of domain d)"
    using view_of_fields(1,2)[OF fields(2)] by (auto intro!: view_cases[THEN spec, THEN mp])
qed

lemma touches_queue_run:
  assumes "keeps (matrix_inv h) m" and frame: "\<And>x. keeps (\<lambda>d. article_fields d = x) m"
    and public: "\<And>x. keeps (\<lambda>d. public_fields d = x) m" and inv: "site_inv h d" and run: "m d = (Inr r, d')"
  shows "site_inv h d' \<and> (\<forall>domain. domain \<notin> {} \<longrightarrow> view_of domain d' = view_of domain d)"
proof -
  have fields: "article_fields d' = article_fields d" "public_fields d' = public_fields d"
    using keeps_run[OF frame run] keeps_run[OF public run] by simp_all
  moreover have "article_counters_inv d' = article_counters_inv d" using fields by (simp add: article_fields_def article_counters_inv_def)
  ultimately have "site_inv h d'" using inv keeps_run[OF assms(1) run] inv_of_fields(1)[OF fields(1)] by (simp add: site_inv_def)
  then show ?thesis using view_of_fields(1,2)[OF fields(2)] by (auto intro!: view_cases[THEN spec, THEN mp])
qed

lemmas touches_queue = touches_on_database[OF touches_queue_run]

lemma file_operation:
  assumes "keeps (\<lambda>w. content_inv (w_db w)) m" and shown: "\<And>x. keeps (\<lambda>w. shown x (w_db w)) m"
    and side: "\<And>x. keeps (\<lambda>w. side_fields (w_db w) = x) m" and inv: "site_inv h (w_db w)" and run: "m w = (r, w')"
  shows "site_inv h (w_db w') \<and> (\<forall>domain. domain \<notin> X \<longrightarrow> view_of domain (w_db w') = view_of domain (w_db w))"
proof -
  have fields: "side_fields (w_db w') = side_fields (w_db w)" using keeps_run[OF side run] by simp
  then have mx: "matrix_fields (w_db w') = matrix_fields (w_db w)" by (simp add: side_fields_def)
  have "article_counters_inv (w_db w') = article_counters_inv (w_db w)"
    using fields by (simp add: side_fields_def article_counters_inv_def)
  then have "site_inv h (w_db w')"
    using inv keeps_run[OF assms(1) run] inv_of_fields(2)[OF mx] by (simp add: site_inv_def)
  moreover have "shown (article_view (w_db w)) (w_db w')"
    using keeps_run[OF shown run] inv covers_exist by (simp add: shown_def site_inv_def)
  ultimately show ?thesis
    using view_of_fields(4)[OF mx] by (auto simp: shown_def intro!: view_cases[THEN spec, THEN mp])
qed

lemmas touches_files = touches_on_world[OF file_operation]

lemma touches_file_service [touches_intros]:
  "touches h X {} (on_world (upload_file env ops p now))"
  "touches h X {} (on_world (service_update_file env fid name now))"
  "touches h X {} (on_world (service_delete_file env fid))"
  "touches h X {} (on_world (service_get_file env fid))" "touches h X {} (on_world (service_list_files env purpose))"
proof -
  show "touches h X {} (on_world (upload_file env ops p now))"
    by (rule touches_files[OF upload_file_content file_service_shown(1) file_service_frames(1)])
  show "touches h X {} (on_world (service_update_file env fid name now))"
    by (rule touches_files[OF service_update_file_content file_service_shown(2) file_service_frames(2)])
  show "touches h X {} (on_world (service_delete_file env fid))"
    by (rule touches_files[OF service_delete_file_content file_service_shown(3) file_service_frames(3)])
  show "touches h X {} (on_world (service_get_file env fid))" "touches h X {} (on_world (service_list_files env purpose))"
    by (rule touches_read_world, rule file_service_reads)+
qed

lemma creation_run:
  assumes "keeps (matrix_inv h) m" and frame: "\<And>x. keeps (\<lambda>d. article_fields d = x) m"
    and view: "\<And>d. matrix_inv h d \<Longrightarrow> matrix_view (snd (m d)) = matrix_view d"
    and inv: "site_inv h d" and run: "m d = (Inr r, d')"
  shows "site_inv h d' \<and> (\<forall>domain. domain \<notin> X \<longrightarrow> view_of domain d' = view_of domain d)"
proof -
  have fields: "article_fields d' = article_fields d" using keeps_run[OF frame run] by simp
  moreover have "article_counters_inv d' = article_counters_inv d" using fields by (simp add: article_fields_def article_counters_inv_def)
  ultimately have "site_inv h d'"
    using inv keeps_run[OF assms(1) run] inv_of_fields(1)[OF fields] by (simp add: site_inv_def)
  moreover have "matrix_view d' = matrix_view d" using view[of d] inv run by (simp add: site_inv_def)
  ultimately show ?thesis using view_of_fields(3)[OF fields] by (auto intro!: view_cases[THEN spec, THEN mp])
qed

lemmas touches_creation = touches_on_database[OF creation_run]

lemma touches_structure_creation [touches_intros]:
  "touches h X {} (on_database (create_sheet env p))" "touches h X {} (on_database (create_section env p'))"
  "touches h X {} (on_database (create_subsection env p''))"
proof -
  show "touches h X {} (on_database (create_sheet env p))"
    by (rule touches_creation[OF create_sheet_keeps structure_creation_frames(1) structure_creation_views(1)])
  show "touches h X {} (on_database (create_section env p'))"
    by (rule touches_creation[OF create_section_keeps structure_creation_frames(2) structure_creation_views(2)])
  show "touches h X {} (on_database (create_subsection env p''))"
    by (rule touches_creation[OF create_subsection_keeps structure_creation_frames(3) structure_creation_views(3)])
qed

section \<open>The endpoints\<close>

lemma keeps_success: "keeps I m \<Longrightarrow> I d \<Longrightarrow> m d = (Inr r, d') \<Longrightarrow> I d'"
  by (rule keeps_run)

lemma touches_article_use_cases:
  "touches h {DOMAIN_ARTICLES} {} (on_database (create_article env pub p t))"
  "touches h {DOMAIN_ARTICLES} {} (on_database (update_article env pub slug p' t))"
  "touches h {DOMAIN_ARTICLES} {} (on_database (delete_article env pub slug t))"
  "touches h {DOMAIN_ARTICLES} {} (on_database (switch_article_publish_status env pub slug st))"
  "touches h {DOMAIN_ARTICLES} {} (on_database (create_folder fp))"
  "touches h {DOMAIN_ARTICLES} {} (on_database (delete_folder fid))"
  "touches h {DOMAIN_ARTICLES} {} (on_database (update_folder_priorities ids))"
  "touches h {DOMAIN_ARTICLES} {} (on_database (create_tag q tid))"
  "touches h {DOMAIN_ARTICLES} {} (on_database (update_tag tid q))"
  "touches h {DOMAIN_ARTICLES} {} (on_database (delete_tag tid))"
  by (rule touches_articles, erule (1) create_article_content, intro keeps_intros, intro keeps_intros)
     (rule touches_articles, erule (1) update_article_content delete_article_content
        keeps_success[OF switch_article_content] keeps_success[OF create_folder_content] keeps_success[OF delete_folder_content]
        keeps_success[OF update_folder_priorities_content] keeps_success[OF create_tag_content]
        keeps_success[OF update_tag_content] keeps_success[OF delete_tag_content], intro keeps_intros, intro keeps_intros)+

lemma touches_matrix_use_cases:
  assumes "env_sha256 env = h"
  shows "touches h {DOMAIN_MATRIX} {} (on_database (create_item env pub p user))"
    "touches h {DOMAIN_MATRIX} {} (on_database (create_item_from_queue env pub pk p))"
    "touches h {DOMAIN_MATRIX} {} (on_database (update_item env pub p))"
    "touches h {DOMAIN_MATRIX} {} (on_database (delete_item pub pk))"
    "touches h {DOMAIN_MATRIX} {} (on_database (switch_item_publish_status env pub pk st))"
    "touches h {DOMAIN_MATRIX} {} (on_database (delete_structure_node kind node_id force))"
    "touches h {DOMAIN_MATRIX} {} (on_database (update_sheet_priorities ids))"
    "touches h {DOMAIN_MATRIX} {} (on_database (update_section_priorities sid ids))"
    "touches h {DOMAIN_MATRIX} {} (on_database (update_subsection_priorities sid ids))"
  by (intro touches_matrix create_item_keeps[OF assms] create_from_queue_keeps[OF assms] update_item_keeps[OF assms]
      switch_item_keeps keeps_transactional[OF delete_item_keeps] keeps_transactional[OF delete_structure_node_keeps]
      keeps_transactional[OF update_sheet_priorities_keeps] keeps_transactional[OF update_section_priorities_keeps]
      keeps_transactional[OF update_subsection_priorities_keeps] item_frames structure_frames)+

lemma touches_counter_use_cases [touches_intros]:
  "touches h {} {} (on_database (track_view env a source))"
  "touches h {} {} (on_database (track_public_view env a referrer cfg))"
  "touches h {} {} (on_database (track_engaged_view env slug source))"
  "touches h {} {} (on_database (set_reaction env slug token kind acfg))"
proof -
  let ?inv = "\<lambda>d. content_inv d \<and> article_counters_inv d"
  have view: "keeps ?inv (track_view env a source)" for source
    unfolding track_view_def increment_view_def by (intro keeps_intros increment_daily_counter_keeps)
  have public: "keeps ?inv (track_public_view env a referrer cfg)"
    unfolding track_public_view_def by (intro keeps_intros view)
  have engaged: "keeps ?inv (track_engaged_view env slug source)"
    unfolding track_engaged_view_def increment_engaged_view_def by (intro keeps_intros increment_daily_counter_keeps)
  show "touches h {} {} (on_database (track_view env a source))"
    "touches h {} {} (on_database (track_public_view env a referrer cfg))"
    "touches h {} {} (on_database (track_engaged_view env slug source))"
    "touches h {} {} (on_database (set_reaction env slug token kind acfg))"
    by (intro touches_counters view public engaged set_reaction_keeps keeps_intros)+
qed

lemma keeps_on_db [keeps_intros]:
  "keeps I m \<Longrightarrow> keeps (\<lambda>p. I (fst p)) (on_db m)" "keeps (\<lambda>p. I (fst p)) (on_quota n)"
  by (auto simp: keeps_def on_db_def on_quota_def split: prod.splits)

lemma suggest_question_keeps:
  assumes "\<And>q user. keeps I (create_queued_question env q user)"
  shows "keeps (\<lambda>p. I (fst p)) (suggest_question env vk ns cfg sp)"
  unfolding suggest_question_def Let_def by (intro keeps_intros assms)

lemma touches_suggestion:
  assumes "env_sha256 env = h"
  shows "touches h {} {} (on_database_and_quota (suggest_question env vk ns cfg p))"
  unfolding touches_def
proof (intro allI impI)
  fix s r s' assume inv: "site_inv h (session_db s)"
    and "on_database_and_quota (suggest_question env vk ns cfg p) s = (Inr r, s')"
  then obtain d q where run: "suggest_question env vk ns cfg p (session_db s, sn_quota s) = (Inr r, (d, q))"
    and s': "s' = s\<lparr>sn_world := (sn_world s)\<lparr>w_db := d\<rparr>, sn_quota := q\<rparr>"
    by (auto simp: on_database_and_quota_def split: prod.splits)
  have keep: "I (session_db s) \<Longrightarrow> I d" if "\<And>q user. keeps I (create_queued_question env q user)" for I
    using keeps_run[OF suggest_question_keeps[of I env vk ns cfg p, OF that] run] by simp
  have "matrix_inv h d" using keep[OF create_queued_question_keeps[OF assms]] inv by (simp add: site_inv_def)
  moreover have fields: "article_fields d = article_fields (session_db s)" "public_fields d = public_fields (session_db s)"
    using keep[OF queue_of_articles(1)] keep[OF queue_frames(1)] by simp_all
  moreover have "article_counters_inv d = article_counters_inv (session_db s)"
    using fields by (simp add: article_fields_def article_counters_inv_def)
  ultimately show "site_inv h (session_db s')
     \<and> (\<forall>domain. domain \<notin> {} \<longrightarrow> view_of domain (session_db s') = view_of domain (session_db s))
     \<and> set (sn_post_commit s) \<union> {} \<subseteq> set (sn_post_commit s')"
    using inv inv_of_fields(1)[OF fields(1)] view_of_fields(1,2)[OF fields(2)]
    by (auto simp: s' site_inv_def intro!: view_cases[THEN spec, THEN mp])
qed

lemma touches_queue_use_cases:
  assumes "env_sha256 env = h"
  shows "touches h {} {} (on_database (import_queued_questions env ps user))"
    "touches h {} {} (on_database (delete_queued_question pk))"
  by (rule touches_queue[OF import_queued_questions_keeps[OF assms] queue_of_articles(2) queue_frames(2)], assumption+)
     (rule touches_queue[OF delete_queued_question_keeps queue_of_articles(3) queue_frames(3)], assumption+)

text \<open>The endpoints of the site under the container \<open>c\<close>.\<close>

inductive endpoint :: "api \<Rightarrow> ('q, response) handler \<Rightarrow> bool" for c where
  "endpoint c (public_endpoint c r)"
| "endpoint c (public_get_stats c ids)"
| "endpoint c (post_article_view c acfg slug source referer)"
| "endpoint c (post_article_engaged_view c slug source)"
| "endpoint c (post_article_reaction c acfg slug reaction)"
| "endpoint c (post_question_suggestion c vk ns cfg client suggestion)"
| "endpoint c (admin_list_articles c q st)"
| "endpoint c (post_article c lang article)"
| "endpoint c (admin_list_articles_tree c lang)"
| "endpoint c (admin_list_folders c lang)"
| "endpoint c (post_folder c lang folder)"
| "endpoint c (delete_folder_endpoint c pk)"
| "endpoint c (put_folder_priorities c ids)"
| "endpoint c (admin_get_article c slug only_published lang)"
| "endpoint c (admin_get_stats c day day' lang)"
| "endpoint c (put_article c lang slug article)"
| "endpoint c (delete_article_endpoint c slug)"
| "endpoint c (set_article_status c slug status)"
| "endpoint c (admin_list_tags c lang)"
| "endpoint c (post_tag c lang tag)"
| "endpoint c (put_tag c lang pk tag)"
| "endpoint c (delete_tag_endpoint c pk)"
| "endpoint c (admin_list_structure c lang)"
| "endpoint c (post_sheet c lang sheet)"
| "endpoint c (post_section c lang pk names)"
| "endpoint c (post_subsection c lang pk names)"
| "endpoint c (delete_structure_endpoint c kind pk delete_with_questions)"
| "endpoint c (put_sheet_priorities c ids)"
| "endpoint c (put_section_priorities c pk ids)"
| "endpoint c (put_subsection_priorities c pk ids)"
| "endpoint c (admin_list_queued_questions c)"
| "endpoint c (post_queued_question c vk ns cfg suggestion)"
| "endpoint c (post_import_preview c file)"
| "endpoint c (post_import c file selected)"
| "endpoint c (delete_queued_endpoint c pk)"
| "endpoint c (post_item_from_queue c lang pk item)"
| "endpoint c (admin_list_workspace c wq)"
| "endpoint c (admin_list_filter_options c lang)"
| "endpoint c (admin_list_items c key only_published lang)"
| "endpoint c (post_item c lang item)"
| "endpoint c (admin_get_item c pk only_published lang)"
| "endpoint c (put_item c lang pk item)"
| "endpoint c (delete_item_endpoint c pk)"
| "endpoint c (set_item_status c pk status)"
| "endpoint c (post_file c upload)"
| "endpoint c (admin_list_files c purpose)"
| "endpoint c (admin_get_file c pk)"
| "endpoint c (put_file c pk name)"
| "endpoint c (delete_file_endpoint c pk)"
| "endpoint c (admin_list_wiki_link_targets c lang)"
| "endpoint c (post_visit c gcfg dnt visit)"
| "endpoint c (admin_get_report c rq)"

lemma reads_touch_nothing:
  "touches h {} {} (public_endpoint c r)" "touches h {} {} (public_get_stats c ids)"
  "touches h {} {} (admin_list_articles c q st)" "touches h {} {} (admin_list_articles_tree c lang)"
  "touches h {} {} (admin_list_folders c lang)" "touches h {} {} (admin_get_article c slug only_published lang)"
  "touches h {} {} (admin_get_stats c day day' lang)" "touches h {} {} (admin_list_tags c lang)"
  "touches h {} {} (admin_list_structure c lang)" "touches h {} {} (admin_list_queued_questions c)"
  "touches h {} {} (post_import_preview c file)" "touches h {} {} (admin_list_workspace c wq)"
  "touches h {} {} (admin_list_filter_options c lang)" "touches h {} {} (admin_list_items c key only_published lang)"
  "touches h {} {} (admin_get_item c pk only_published lang)" "touches h {} {} (admin_list_files c purpose)"
  "touches h {} {} (admin_get_file c pk)" "touches h {} {} (admin_list_wiki_link_targets c lang)"
proof -
  show "touches h {} {} (public_endpoint c r)"
    by (auto simp: touches_def public_endpoint_run)
  have more: "keeps I (get_public_stats ids)" "keeps I (get_stats day day' lang)" "keeps I (preview_queued_questions_import rows)"
    "keeps I (list_workspace_items wf)" "keeps I (list_workspace_filter_options lang)" "keeps I (list_targets lang)"
    for I ids day day' lang rows wf
    by (auto simp: get_public_stats_def get_stats_def preview_queued_questions_import_def list_workspace_items_def
        list_workspace_filter_options_def list_targets_def storage_get_public_stats_def get_daily_stats_def
        get_reaction_counts_def get_view_counts_def list_competency_matrix_workspace_items_def
        list_competency_matrix_workspace_filter_options_def list_tree_items_def list_published_tree_items_def
        workspace_summary_of_def Let_def intro!: keeps_intros)
  show "touches h {} {} (public_get_stats c ids)" 
  "touches h {} {} (admin_list_articles c q st)" "touches h {} {} (admin_list_articles_tree c lang)"
  "touches h {} {} (admin_list_folders c lang)" "touches h {} {} (admin_get_article c slug only_published lang)"
  "touches h {} {} (admin_get_stats c day day' lang)" "touches h {} {} (admin_list_tags c lang)"
  "touches h {} {} (admin_list_structure c lang)" "touches h {} {} (admin_list_queued_questions c)"
  "touches h {} {} (post_import_preview c file)" "touches h {} {} (admin_list_workspace c wq)"
  "touches h {} {} (admin_list_filter_options c lang)" "touches h {} {} (admin_list_items c key only_published lang)"
  "touches h {} {} (admin_get_item c pk only_published lang)" "touches h {} {} (admin_list_files c purpose)"
  "touches h {} {} (admin_get_file c pk)" "touches h {} {} (admin_list_wiki_link_targets c lang)"
    unfolding public_get_stats_def admin_list_articles_def admin_list_articles_tree_def admin_list_folders_def
      admin_get_article_def admin_get_stats_def admin_list_tags_def admin_list_structure_def admin_list_queued_questions_def
      post_import_preview_def admin_list_workspace_def admin_list_filter_options_def admin_list_items_def admin_get_item_def
      admin_list_files_def admin_get_file_def admin_list_wiki_link_targets_def
    by (intro touches_bind touches_intros keeps_intros more)+
qed

lemma record_visit_frames:
  "keeps (\<lambda>d. public_fields d = x) (record_visit env gcfg v day)"
  "keeps (\<lambda>d. matrix_fields d = y) (record_visit env gcfg v day)"
  "keeps content_inv (record_visit env gcfg v day)" "keeps article_counters_inv (record_visit env gcfg v day)"
proof -
  note rules = keeps_intros keeps_modify
  note fields = public_fields_def article_fields_def matrix_fields_def article_counters_inv_def content_inv_def files_inv_def
    articles_inv_defs file_used_def used_file_ids_def file_purposes_def article_usage_ids_def
  show "keeps (\<lambda>d. public_fields d = x) (record_visit env gcfg v day)"
    "keeps (\<lambda>d. matrix_fields d = y) (record_visit env gcfg v day)"
    "keeps content_inv (record_visit env gcfg v day)" "keeps article_counters_inv (record_visit env gcfg v day)"
    unfolding record_visit_def Let_def purge_receipts_def insert_receipt_def engage_receipt_def increment_def
    by ((intro rules; simp add: fields)+)
qed

lemma site_analytics_touch_nothing:
  "touches h {} {} (post_visit c gcfg dnt visit)" "touches h {} {} (admin_get_report c rq)"
proof -
  have visit: "keeps I (record_public_visit env gcfg v day)" if "\<And>w. keeps I (record_visit env gcfg w day)" for I env v day
    unfolding record_public_visit_def get_competency_matrix_item_by_slug_def by (intro keeps_intros that)
  show "touches h {} {} (post_visit c gcfg dnt visit)"
    unfolding post_visit_def
    by (intro touches_bind touches_counters visit keeps_conj record_visit_frames touches_intros keeps_intros)
  show "touches h {} {} (admin_get_report c rq)"
    unfolding admin_get_report_def get_report_def get_daily_def get_reaction_counts_def by (intro touches_bind touches_intros keeps_intros)
qed

lemma readers_touch_nothing:
  assumes "env_sha256 (ax_env c) = h"
  shows "touches h {} {} (post_article_view c acfg slug source referer)"
    "touches h {} {} (post_article_engaged_view c slug source)" "touches h {} {} (post_article_reaction c acfg slug reaction)"
    "touches h {} {} (post_question_suggestion c vk ns cfg client suggestion)"
    "touches h {} {} (post_queued_question c vk ns cfg suggestion)"
    "touches h {} {} (post_import c file selected)" "touches h {} {} (delete_queued_endpoint c pk)"
    "touches h {} {} (post_sheet c lang sheet)" "touches h {} {} (post_section c lang pk names)"
    "touches h {} {} (post_subsection c lang pk names)" "touches h {} {} (post_file c upload)"
    "touches h {} {} (put_file c pk name)" "touches h {} {} (delete_file_endpoint c pk)"
  unfolding post_article_view_def post_article_engaged_view_def post_article_reaction_def post_question_suggestion_def
    post_queued_question_def post_import_def delete_queued_endpoint_def post_sheet_def post_section_def post_subsection_def
    post_file_def put_file_def delete_file_endpoint_def option.case_distrib[of on_database]
  by (intro touches_bind touches_suggestion[OF assms] touches_queue_use_cases[OF assms] touches_counter_use_cases
      touches_structure_creation touches_file_service touches_intros keeps_intros)+

lemma editors_invalidate:
  assumes "ax_use_cache c" "env_sha256 (ax_env c) = h"
  shows "touches h {DOMAIN_ARTICLES} {DOMAIN_ARTICLES} (post_article c lang article)"
    "touches h {DOMAIN_ARTICLES} {DOMAIN_ARTICLES} (post_folder c lang folder)"
    "touches h {DOMAIN_ARTICLES} {DOMAIN_ARTICLES} (delete_folder_endpoint c pk)"
    "touches h {DOMAIN_ARTICLES} {DOMAIN_ARTICLES} (put_folder_priorities c ids)"
    "touches h {DOMAIN_ARTICLES} {DOMAIN_ARTICLES} (put_article c lang slug article)"
    "touches h {DOMAIN_ARTICLES} {DOMAIN_ARTICLES} (delete_article_endpoint c slug)"
    "touches h {DOMAIN_ARTICLES} {DOMAIN_ARTICLES} (set_article_status c slug status)"
    "touches h {DOMAIN_ARTICLES} {DOMAIN_ARTICLES} (post_tag c lang tag)"
    "touches h {DOMAIN_ARTICLES} {DOMAIN_ARTICLES} (put_tag c lang pk tag)"
    "touches h {DOMAIN_ARTICLES} {DOMAIN_ARTICLES} (delete_tag_endpoint c pk)"
    "touches h {DOMAIN_MATRIX} {DOMAIN_MATRIX} (delete_structure_endpoint c kind pk delete_with_questions)"
    "touches h {DOMAIN_MATRIX} {DOMAIN_MATRIX} (put_sheet_priorities c ids)"
    "touches h {DOMAIN_MATRIX} {DOMAIN_MATRIX} (put_section_priorities c pk ids)"
    "touches h {DOMAIN_MATRIX} {DOMAIN_MATRIX} (put_subsection_priorities c pk ids)"
    "touches h {DOMAIN_MATRIX} {DOMAIN_MATRIX} (post_item_from_queue c lang pk item)"
    "touches h {DOMAIN_MATRIX} {DOMAIN_MATRIX} (post_item c lang item)"
    "touches h {DOMAIN_MATRIX} {DOMAIN_MATRIX} (put_item c lang pk item)"
    "touches h {DOMAIN_MATRIX} {DOMAIN_MATRIX} (delete_item_endpoint c pk)"
    "touches h {DOMAIN_MATRIX} {DOMAIN_MATRIX} (set_item_status c pk status)"
  unfolding post_article_def post_folder_def delete_folder_endpoint_def put_folder_priorities_def put_article_def
    delete_article_endpoint_def set_article_status_def post_tag_def put_tag_def delete_tag_endpoint_def
    delete_structure_endpoint_def put_sheet_priorities_def put_section_priorities_def put_subsection_priorities_def
    post_item_from_queue_def post_item_def put_item_def delete_item_endpoint_def set_item_status_def
  by (intro touches_invalidation[OF assms(1)] touches_bind touches_pure touches_article_use_cases
      touches_matrix_use_cases[OF assms(2)])+

definition guarded :: "(pystr \<Rightarrow> pystr) \<Rightarrow> ('q, 'r) handler \<Rightarrow> bool" where
  "guarded h m \<longleftrightarrow> (\<exists>X. touches h X X m)"

lemma guardedI: "touches h X X m \<Longrightarrow> guarded h m"
  by (auto simp: guarded_def)

lemma endpoint_guarded:
  assumes "endpoint c m" "ax_use_cache c" "env_sha256 (ax_env c) = h"
  shows "guarded h m"
  using assms(1)
  by induction
     (rule reads_touch_nothing[THEN guardedI] site_analytics_touch_nothing[THEN guardedI] readers_touch_nothing[OF assms(3), THEN guardedI]
       editors_invalidate[OF assms(2,3), THEN guardedI])+

end
