(* ===== verification/Calendar.thy ===== *)
theory Calendar
  imports Timestamps
begin

text \<open>
  Numbers and dates as text determine what they were written from: decimal numbers, and the dates of
  \<open>date.isoformat\<close> within the years that Python's dates have.
\<close>

section \<open>Decimal numbers\<close>

definition digits_value :: "pystr \<Rightarrow> nat" where
  "digits_value s = foldl (\<lambda>n c. 10 * n + (c - 48)) 0 s"

lemma digits_value_snoc: "digits_value (s @ [c]) = 10 * digits_value s + (c - 48)"
  by (simp add: digits_value_def)

lemma digits_value_str: "digits_value (str_of_nat n) = n"
proof (induction n rule: str_of_nat.induct)
  case (1 n)
  show ?case
  proof (cases "n < 10")
    case True
    then show ?thesis by (simp add: str_of_nat.simps[of n] digits_value_def)
  next
    case False
    then show ?thesis using 1 by (simp add: str_of_nat.simps[of n] digits_value_snoc)
  qed
qed

lemma digits_value_zeros: "digits_value (replicate k 48 @ s) = digits_value s"
  by (induction k) (simp_all add: digits_value_def)

lemma str_of_nat_digits: "set (str_of_nat n) \<subseteq> {48..57}" "str_of_nat n \<noteq> []"
proof -
  show "set (str_of_nat n) \<subseteq> {48..57}"
  proof (induction n rule: str_of_nat.induct)
    case (1 n)
    then show ?case by (cases "n < 10") (auto simp: str_of_nat.simps[of n])
  qed
  show "str_of_nat n \<noteq> []" by (simp add: str_of_nat.simps[of n])
qed

lemma str_of_int_inj: "str_of_int i = str_of_int j \<longleftrightarrow> i = j"
proof
  assume eq: "str_of_int i = str_of_int j"
  have no_minus: "45 # s \<noteq> str_of_nat n" for s n using str_of_nat_digits(1)[of n] by (cases "str_of_nat n") auto
  have inj: "str_of_nat m = str_of_nat n \<Longrightarrow> m = n" for m n by (metis digits_value_str)
  show "i = j"
    using eq inj no_minus no_minus[symmetric] by (fastforce simp: str_of_int_def split: if_splits)
qed simp

lemma pad_value: "0 \<le> i \<Longrightarrow> digits_value (pad n i) = nat i"
  by (simp add: pad_def str_of_int_def digits_value_zeros digits_value_str Let_def)

lemma pad_digits: "0 \<le> i \<Longrightarrow> 45 \<notin> set (pad n i)"
  using str_of_nat_digits(1)[of "nat i"] by (auto simp: pad_def str_of_int_def Let_def)

section \<open>Dates\<close>

text \<open>The day of a four-hundred-year era on which its year \<open>y\<close>, counted from March, starts.\<close>

definition year_start :: "int \<Rightarrow> int" where
  "year_start y = 365 * y + y div 4 - y div 100"

definition year_scale :: "int \<Rightarrow> int" where
  "year_scale doe = doe - doe div 1460 + doe div 36524 - doe div 146096"

text \<open>The year \<open>y\<close> as centuries, leap cycles and years.\<close>

lemma year_parts:
  assumes "0 \<le> (y::int)" "y \<le> 399"
  obtains c q r where "y = 100 * c + 4 * q + r" "0 \<le> c" "c \<le> 3" "0 \<le> q" "q \<le> 24" "0 \<le> r" "r \<le> 3"
proof
  show "y = 100 * (y div 100) + 4 * (y mod 100 div 4) + y mod 100 mod 4"
    using div_mult_mod_eq[of y 100] div_mult_mod_eq[of "y mod 100" 4] by linarith
  show "0 \<le> y div 100" "y div 100 \<le> 3" "0 \<le> y mod 100 div 4" "y mod 100 div 4 \<le> 24" "0 \<le> y mod 100 mod 4"
    "y mod 100 mod 4 \<le> 3" using assms by auto
qed

lemma div_unique_int: "0 < (k::int) \<Longrightarrow> k * n \<le> x \<Longrightarrow> x < k * n + k \<Longrightarrow> x div k = n"
  by (intro int_div_pos_eq[of x k n "x - k * n"]) auto

lemma year_scale_starts:
  assumes "0 \<le> y" "y \<le> 399"
  shows "365 * y \<le> year_scale (year_start y)" "0 < y \<Longrightarrow> year_scale (year_start y - 1) < 365 * y"
    "year_start (y + 1) - year_start y \<le> 366"
proof -
  obtain c q r where y: "y = 100 * c + 4 * q + r" and c: "0 \<le> c" "c \<le> 3" and q: "0 \<le> q" "q \<le> 24" and r: "0 \<le> r" "r \<le> 3"
    using year_parts[OF assms] by blast
  have "y div 4 = 25 * c + q" "y div 100 = c" using c q r by (auto simp: y intro!: div_unique_int)
  then have start: "year_start y = 36524 * c + 1461 * q + 365 * r" by (simp add: year_start_def y)
  have centuries: "(36524 * c + x) div 36524 = c" "(36524 * c + x) div 146096 = 0" if "0 \<le> x" "x < 36524" for x
    using c that by (auto intro!: div_unique_int)
  have cycles: "(36524 * c + (1461 * q + x)) div 1460 = 25 * c + q" if "0 \<le> 24 * c + q + x" "24 * c + q + x < 1460" for x
    using that by (intro div_unique_int) auto
  have "year_scale (year_start y) = 365 * y"
    unfolding year_scale_def start using c q r centuries[of "1461 * q + 365 * r"] cycles[of "365 * r"]
    by (simp add: y add.assoc)
  then show "365 * y \<le> year_scale (year_start y)" by simp
  show "year_scale (year_start y - 1) < 365 * y" if "0 < y"
  proof -
    have "0 < 24 * c + q + 365 * r" using that c q r by (auto simp: y)
    then have cyc: "(year_start y - 1) div 1460 = 25 * c + q"
      using cycles[of "365 * r - 1"] c q r by (simp add: start add.assoc)
    have "(year_start y - 1) div 36524 \<le> c"
      using zdiv_mono1[of "year_start y - 1" "year_start y" 36524] c q r centuries(1)[of "1461 * q + 365 * r"]
      by (simp add: start add.assoc)
    moreover have "0 \<le> (year_start y - 1) div 146096"
    proof -
      have "0 \<le> year_start y - 1" using that[unfolded y] c q r unfolding start by linarith
      then show ?thesis by simp
    qed
    moreover have "year_start y - 1 - (25 * c + q) + a - b < 365 * y" if "a \<le> c" "0 \<le> b" for a b
      using that unfolding start y[symmetric] by (simp add: y)
    ultimately show ?thesis unfolding year_scale_def cyc by blast
  qed
  show "year_start (y + 1) - year_start y \<le> 366"
  proof -
    have "(y + 1) div 4 \<le> y div 4 + 1" "y div 100 \<le> (y + 1) div 100" by (auto intro: zdiv_mono1)
    then show ?thesis by (simp add: year_start_def)
  qed
qed

lemma year_scale_mono:
  assumes "0 \<le> a" "a \<le> b" "b \<le> 146096"
  shows "year_scale a \<le> year_scale b"
proof -
  have "a - a div 1460 \<le> b - b div 1460"
  proof -
    have "b div 1460 \<le> a div 1460 + (b - a)" using assms by linarith
    then show ?thesis by simp
  qed
  moreover have "a div 36524 - a div 146096 \<le> b div 36524 - b div 146096"
  proof (cases "b = 146096")
    case True
    then show ?thesis using assms by (cases "a = 146096") auto
  next
    case False
    then show ?thesis using assms zdiv_mono1[of a b 36524] by auto
  qed
  ultimately show ?thesis by (simp add: year_scale_def)
qed

lemma below_next_year: "(n::int) < 365 * (n div 365 + 1)"
  using div_mult_mod_eq[of n 365] pos_mod_bound[of 365 n] by (simp add: algebra_simps)

lemma era_bounds:
  assumes doe: "0 \<le> doe" "doe \<le> 146096" and yoe: "yoe = year_scale doe div 365"
  shows "0 \<le> yoe" "yoe \<le> 399" "year_start yoe \<le> doe" "doe - year_start yoe \<le> 365"
proof -
  have top: "year_scale 146096 = 145999" "year_scale 0 = 0" by (simp_all add: year_scale_def)
  have "0 \<le> year_scale doe" "year_scale doe \<le> 145999"
    using year_scale_mono[of 0 doe] year_scale_mono[of doe 146096] doe top by simp_all
  then show y: "0 \<le> yoe" "yoe \<le> 399" using yoe by auto
  have start: "0 \<le> year_start k" "year_start k \<le> 146096" if "0 \<le> k" "k \<le> 399" for k
    using that by (auto simp: year_start_def)
  show "year_start yoe \<le> doe"
  proof (rule ccontr)
    assume "\<not> year_start yoe \<le> doe"
    then have less: "doe \<le> year_start yoe - 1" by simp
    then have pos: "0 < yoe" using doe y(1) by (cases "yoe = 0") (auto simp: year_start_def)
    have "year_scale doe \<le> year_scale (year_start yoe - 1)" using less doe start[OF y] by (intro year_scale_mono) auto
    also have "\<dots> < 365 * yoe" using year_scale_starts(2)[OF y] pos by blast
    finally show False using yoe by linarith
  qed
  show "doe - year_start yoe \<le> 365"
  proof (rule ccontr)
    assume late: "\<not> doe - year_start yoe \<le> 365"
    have "year_start (yoe + 1) - year_start yoe \<le> 366" by (rule year_scale_starts(3)[OF y])
    then have next_year: "year_start (yoe + 1) \<le> doe" using late by simp
    show False
    proof (cases "yoe = 399")
      case True
      then show False using late doe by (simp add: year_start_def)
    next
      case False
      then have k: "0 \<le> yoe + 1" "yoe + 1 \<le> 399" using y by auto
      have "365 * (yoe + 1) \<le> year_scale (year_start (yoe + 1))" by (rule year_scale_starts(1)[OF k])
      also have "\<dots> \<le> year_scale doe" using next_year doe start[OF k] by (intro year_scale_mono) auto
      finally show False using below_next_year[of "year_scale doe"] unfolding yoe by (meson leD)
    qed
  qed
qed

text \<open>The day number of a year, a month and a day: the inverse of \<open>civil_date\<close>.\<close>

definition day_number :: "int \<times> int \<times> int \<Rightarrow> date" where
  "day_number = (\<lambda>(year, month, day).
     let y = (if month \<le> 2 then year - 1 else year); mp = (if month \<le> 2 then month + 9 else month - 3) in
     y div 400 * 146097 + year_start (y mod 400) + (153 * mp + 2) div 5 + day - 1 - 719468)"

lemma day_number_civil_date: "day_number (civil_date d) = d"
proof -
  define z where "z = d + 719468"
  define era where "era = z div 146097"
  define doe where "doe = z mod 146097"
  define yoe where "yoe = year_scale doe div 365"
  define doy where "doy = doe - year_start yoe"
  define mp where "mp = (5 * doy + 2) div 153"
  have doe: "0 \<le> doe" "doe \<le> 146096" by (simp_all add: doe_def)
  note bounds = era_bounds[OF doe yoe_def]
  have mp: "0 \<le> mp" "mp \<le> 11" using bounds(3,4) by (auto simp: mp_def doy_def)
  let ?month = "if mp < 10 then mp + 3 else mp - 9"
  let ?year = "yoe + era * 400 + (if ?month \<le> 2 then 1 else 0)"
  have civil: "civil_date d = (?year, ?month, doy - (153 * mp + 2) div 5 + 1)"
    unfolding civil_date_def Let_def z_def era_def doe_def yoe_def doy_def mp_def year_scale_def year_start_def by (rule refl)
  have month: "(?month \<le> 2) = (10 \<le> mp)" using mp by auto
  have "day_number (civil_date d) =
      (yoe + era * 400) div 400 * 146097 + year_start ((yoe + era * 400) mod 400) + doy - 719468"
    unfolding civil day_number_def Let_def prod.case month by simp
  also have "\<dots> = era * 146097 + year_start yoe + doy - 719468" using bounds(1,2) by simp
  also have "\<dots> = d" by (simp add: doy_def doe_def era_def z_def)
  finally show ?thesis .
qed

text \<open>The dates that Python has.\<close>

definition valid_date :: "date \<Rightarrow> bool" where
  "valid_date d \<longleftrightarrow> 1 \<le> fst (civil_date d) \<and> fst (civil_date d) \<le> 9999"

lemma civil_date_nonneg: "0 \<le> fst (snd (civil_date d))" "0 \<le> snd (snd (civil_date d))"
proof -
  define doe where "doe = (d + 719468) mod 146097"
  define yoe where "yoe = year_scale doe div 365"
  define doy where "doy = doe - year_start yoe"
  have doe: "0 \<le> doe" "doe \<le> 146096" by (simp_all add: doe_def)
  have doy: "0 \<le> doy" "doy \<le> 365" using era_bounds(3,4)[OF doe yoe_def] by (simp_all add: doy_def)
  have civil: "snd (civil_date d) = (let mp = (5 * doy + 2) div 153 in
      (if mp < 10 then mp + 3 else mp - 9, doy - (153 * mp + 2) div 5 + 1))"
    unfolding civil_date_def Let_def doe_def yoe_def doy_def year_scale_def year_start_def by (simp only: snd_conv)
  show "0 \<le> fst (snd (civil_date d))" "0 \<le> snd (snd (civil_date d))" using doy by (auto simp: civil Let_def)
qed

lemma split_at_first: "c \<notin> set a \<Longrightarrow> c \<notin> set a' \<Longrightarrow> a @ c # b = a' @ c # b' \<Longrightarrow> a = a' \<and> b = b'"
  by (induction a arbitrary: a') (auto simp: Cons_eq_append_conv append_eq_Cons_conv)

lemma isoformat_inj:
  assumes "valid_date d" "valid_date e" "isoformat d = isoformat e"
  shows "d = e"
proof -
  obtain y m k where d: "civil_date d = (y, m, k)" by (metis prod_cases3)
  obtain y' m' k' where e: "civil_date e = (y', m', k')" by (metis prod_cases3)
  have pos: "0 \<le> y" "0 \<le> y'" "0 \<le> m" "0 \<le> m'" "0 \<le> k" "0 \<le> k'"
    using assms(1,2) civil_date_nonneg[of d] civil_date_nonneg[of e] d e by (simp_all add: valid_date_def)
  have eq: "pad 4 y @ 45 # pad 2 m @ 45 # pad 2 k = pad 4 y' @ 45 # pad 2 m' @ 45 # pad 2 k'"
    using assms(3) by (simp add: isoformat_def d e)
  note 1 = split_at_first[OF pad_digits[OF pos(1)] pad_digits[OF pos(2)] eq]
  note 2 = split_at_first[OF pad_digits[OF pos(3)] pad_digits[OF pos(4)] conjunct2[OF 1]]
  have num: "i = j" if "0 \<le> i" "0 \<le> j" "pad n i = pad n j" for i j n
    using pad_value[OF that(1), of n] pad_value[OF that(2), of n] that by (metis nat_eq_iff2)
  have "y = y'" "m = m'" "k = k'"
    by (rule num[OF pos(1,2) conjunct1[OF 1]], rule num[OF pos(3,4) conjunct1[OF 2]], rule num[OF pos(5,6) conjunct2[OF 2]])
  then show ?thesis using day_number_civil_date[of d] day_number_civil_date[of e] d e by simp
qed

end
