(* ===== verification/Cache_Keys.thy ===== *)
theory Cache_Keys
  imports Cache_Warm Calendar
begin

text \<open>
  The keys of the cache tell the public requests apart.  The key is the method, the path and the encoded query
  without a separator in between, yet no two requests share one.
\<close>

section \<open>Percent encoding\<close>

lemma hex_digits:
  assumes "n < 16"
  shows "hex_digit n \<noteq> 38" "hex_digit n \<noteq> 61" "m < 16 \<Longrightarrow> hex_digit m = hex_digit n \<longleftrightarrow> m = n"
  using assms by (auto simp: hex_digit_def split: if_splits)

lemma quote_byte_separators: "b < 256 \<Longrightarrow> 38 \<notin> set (quote_byte b) \<and> 61 \<notin> set (quote_byte b)"
  using hex_digits(1,2)[of "b div 16"] hex_digits(1,2)[of "b mod 16"]
  by (auto simp: quote_byte_def is_unreserved_def split: if_splits)

lemma quote_byte_head:
  assumes "b < 256" "b' < 256" "quote_byte b @ s = quote_byte b' @ s'"
  shows "b = b' \<and> s = s'"
proof -
  have "b = b'" if "hex_digit (b div 16) = hex_digit (b' div 16)" "hex_digit (b mod 16) = hex_digit (b' mod 16)"
  proof -
    have "b div 16 = b' div 16" "b mod 16 = b' mod 16"
      using that hex_digits(3)[of "b' div 16" "b div 16"] hex_digits(3)[of "b' mod 16" "b mod 16"] assms(1,2) by auto
    then show ?thesis by (metis div_mult_mod_eq)
  qed
  then show ?thesis using assms(3) by (auto simp: quote_byte_def is_unreserved_def split: if_splits)
qed

lemma quote_bytes_inj:
  "\<forall>b \<in> set bs. b < 256 \<Longrightarrow> \<forall>b \<in> set bs'. b < 256 \<Longrightarrow>
   concat (map quote_byte bs) = concat (map quote_byte bs') \<Longrightarrow> bs = bs'"
proof (induction bs arbitrary: bs')
  case Nil
  then show ?case by (cases bs') (auto simp: quote_byte_def split: if_splits)
next
  case (Cons b bs)
  show ?case
  proof (cases bs')
    case Nil
    then show ?thesis using Cons.prems by (auto simp: quote_byte_def split: if_splits)
  next
    case (Cons b' cs)
    then show ?thesis using quote_byte_head[of b b'] Cons.prems Cons.IH[of cs] by auto
  qed
qed

definition valid_text :: "pystr \<Rightarrow> bool" where
  "valid_text s \<longleftrightarrow> (\<forall>c \<in> set s. is_scalar c)"

lemma utf8_bytes: "valid_text s \<Longrightarrow> b \<in> set (utf8_encode s) \<Longrightarrow> b < 256"
proof -
  have "b < 256" if "is_scalar c" "b \<in> set (utf8_char c)" for c
    using that by (auto simp: utf8_char_def is_scalar_def split: if_splits)
  then show "valid_text s \<Longrightarrow> b \<in> set (utf8_encode s) \<Longrightarrow> b < 256"
    by (auto simp: valid_text_def utf8_encode_def)
qed

lemma quote_plus_inj:
  assumes "valid_text s" "valid_text t" "quote_plus s = quote_plus t"
  shows "s = t"
proof -
  have "utf8_encode s = utf8_encode t"
    using utf8_bytes[OF assms(1)] utf8_bytes[OF assms(2)] quote_bytes_inj[OF _ _ assms(3)[unfolded quote_plus_def]] by blast
  then show ?thesis using assms(1,2) utf8_decode_encode unfolding valid_text_def by (metis option.inject)
qed

lemma quote_plus_separators: "valid_text s \<Longrightarrow> 38 \<notin> set (quote_plus s) \<and> 61 \<notin> set (quote_plus s)"
  using utf8_bytes[of s] quote_byte_separators by (auto simp: quote_plus_def)

lemma join_inj:
  "\<forall>w \<in> set ws. c \<notin> set w \<Longrightarrow> \<forall>w \<in> set ws'. c \<notin> set w \<Longrightarrow> ws \<noteq> [] \<Longrightarrow> ws' \<noteq> [] \<Longrightarrow>
   join [c] ws = join [c] ws' \<Longrightarrow> ws = ws'"
proof (induction ws arbitrary: ws')
  case (Cons w ws)
  obtain v vs where ws': "ws' = v # vs" using Cons.prems(4) by (cases ws') auto
  show ?case
  proof (cases ws; cases vs)
    fix a as b bs assume ws: "ws = a # as" and vs: "vs = b # bs"
    have "w = v \<and> join [c] ws = join [c] vs"
      using Cons.prems ws vs ws' by (intro split_at_first[of c]) auto
    then show ?thesis using Cons.IH[of vs] Cons.prems ws vs ws' by auto
  next
    fix a as assume "ws = a # as" "vs = []"
    then have "c \<in> set v" using Cons.prems(5) ws' by (metis append_Cons in_set_conv_decomp join.simps(2,3))
    then show ?thesis using Cons.prems(2) ws' by simp
  next
    fix b bs assume "ws = []" "vs = b # bs"
    then have "c \<in> set w" using Cons.prems(5) ws' by (metis append_Cons in_set_conv_decomp join.simps(2,3))
    then show ?thesis using Cons.prems(1) by simp
  next
    assume "ws = []" "vs = []"
    then show ?thesis using Cons.prems(5) ws' by simp
  qed
qed simp

lemma urlencode_inj:
  assumes "\<forall>(k, v) \<in> set q. valid_text k \<and> valid_text v" "\<forall>(k, v) \<in> set q'. valid_text k \<and> valid_text v"
    and "q \<noteq> []" "q' \<noteq> []" "urlencode q = urlencode q'"
  shows "q = q'"
proof -
  let ?pair = "\<lambda>(k, v). quote_plus k @ u ''='' @ quote_plus v"
  have safe: "\<forall>w \<in> set (map ?pair p). 38 \<notin> set w" if "\<forall>(k, v) \<in> set p. valid_text k \<and> valid_text v" for p
    using that quote_plus_separators by (fastforce simp: u_def)
  have pairs: "map ?pair q = map ?pair q'"
    using join_inj[OF safe[OF assms(1)] safe[OF assms(2)]] assms(3,4,5) by (simp add: urlencode_def u_def)
  have "x = y" if "x \<in> set q" "y \<in> set q'" "?pair x = ?pair y" for x y
  proof -
    obtain k v where x: "x = (k, v)" by (cases x)
    obtain k' v' where y: "y = (k', v')" by (cases y)
    have valid: "valid_text k" "valid_text v" "valid_text k'" "valid_text v'" using assms(1,2) that x y by auto
    have "quote_plus k = quote_plus k' \<and> quote_plus v = quote_plus v'"
      using that(3) quote_plus_separators[OF valid(1)] quote_plus_separators[OF valid(3)]
      by (intro split_at_first[of 61]) (auto simp: x y u_def)
    then show ?thesis using quote_plus_inj valid x y by auto
  qed
  then show ?thesis using pairs by (rule list.inj_map_strong)
qed

section \<open>Keys of requests\<close>

text \<open>
  The requests that the routes take: their texts are Unicode texts, their dates those of the calendar and a part of a
  path has no slash.
\<close>

fun routable :: "public_request \<Rightarrow> bool" where
  "routable (GetArticles q) \<longleftrightarrow>
     pred_option valid_text (lq_search_query q) \<and> pred_option valid_text (lq_tag_slug q)
     \<and> pred_option valid_date (lq_published_from q) \<and> pred_option valid_date (lq_published_to q)"
| "routable (GetItems key lang) \<longleftrightarrow> valid_text key"
| "routable (GetItem key slug lang) \<longleftrightarrow> 47 \<notin> set key \<and> 47 \<notin> set slug"
| "routable _ \<longleftrightarrow> True"

abbreviation query_key :: "public_request \<Rightarrow> pystr" where
  "query_key r \<equiv> path_and_query_key (request_path r) (request_query r)"

lemma sorted_queries: "sort (request_query r) = request_query r"
  by (cases r) (auto intro!: sorted_sort_id simp: optional_parameter_def u_def split: option.splits)

lemma ascii_valid: "\<forall>c \<in> set s. c < 128 \<Longrightarrow> valid_text s"
  by (auto simp: valid_text_def is_scalar_def)

lemma u_valid [simp]: "valid_text (u s)" if "\<forall>c \<in> set s. of_char c < (128 :: nat)"
  using that by (intro ascii_valid) (auto simp: u_def)

lemma query_key_form: "query_key r = u ''GET'' @ request_path r @ urlencode (request_query r)"
  by (simp add: path_and_query_key_def sorted_queries)

lemma quote_language:
  "quote_plus (u ''language'') = u ''language''" "quote_plus (language_value lang) = language_value lang"
  by (cases lang; simp add: quote_plus_def utf8_encode_def utf8_char_def quote_byte_def is_unreserved_def u_def)+

lemma urlencode_language:
  "urlencode ((u ''language'', language_value lang) # q) =
     u ''language='' @ language_value lang @ (if q = [] then [] else u ''&'' @ urlencode q)"
proof -
  have "u ''language'' @ u ''='' = u ''language=''" by (simp add: u_def)
  then have "u ''language'' @ u ''='' @ s = u ''language='' @ s" for s by (metis append_assoc)
  then show ?thesis by (cases q) (simp_all add: urlencode_def quote_language)
qed

lemma language_values: "length (language_value lang) = 2" "language_value lang = language_value lang' \<longleftrightarrow> lang = lang'"
  by (cases lang; cases lang'; simp add: u_def)+

definition request_kind :: "public_request \<Rightarrow> nat" where
  "request_kind r =
     (case r of GetArticles _ \<Rightarrow> 0 | GetArticlesTree _ \<Rightarrow> 1 | GetArticle _ _ \<Rightarrow> 2 | GetTags _ \<Rightarrow> 3 | GetSheets _ \<Rightarrow> 4
      | GetItems _ _ \<Rightarrow> 5 | GetItem _ _ _ \<Rightarrow> 6)"

lemma query_starts: "\<exists>rest. urlencode (request_query r) = u ''language='' @ rest"
  by (cases r) (auto simp: urlencode_language)

lemma query_key_kind:
  assumes "query_key r = query_key r'"
  shows "request_kind r = request_kind r'"
proof -
  obtain x x' where "urlencode (request_query r) = u ''language='' @ x" "urlencode (request_query r') = u ''language='' @ x'"
    using query_starts[of r] query_starts[of r'] by blast
  then have "request_path r @ u ''language='' @ x = request_path r' @ u ''language='' @ x'"
    using assms by (simp add: query_key_form)
  then show ?thesis by (cases r; cases r'; simp add: request_kind_def; simp add: u_def)
qed

lemma map_of_optional: "map_of (optional_parameter name v) = (if v = None then Map.empty else [name \<mapsto> the v])"
  by (auto simp: optional_parameter_def split: option.splits)

lemma list_query_inj:
  assumes "routable (GetArticles q)" "routable (GetArticles q')" "request_query (GetArticles q) = request_query (GetArticles q')"
  shows "q = q'"
proof -
  have names: "u ''publishedFrom'' \<noteq> u ''publishedTo''" "u ''publishedFrom'' \<noteq> u ''searchQuery''" "u ''publishedFrom'' \<noteq> u ''tagSlug''"
    "u ''publishedTo'' \<noteq> u ''searchQuery''" "u ''publishedTo'' \<noteq> u ''tagSlug''" "u ''searchQuery'' \<noteq> u ''tagSlug''"
    by (simp_all add: u_def)
  let ?opt = "\<lambda>q. optional_parameter (u ''publishedFrom'') (map_option isoformat (lq_published_from q))
     @ optional_parameter (u ''publishedTo'') (map_option isoformat (lq_published_to q))
     @ optional_parameter (u ''searchQuery'') (lq_search_query q)
     @ optional_parameter (u ''tagSlug'') (lq_tag_slug q)"
  have eq: "language_value (lq_language q) = language_value (lq_language q')" "str_of_int (lq_page q) = str_of_int (lq_page q')"
    "str_of_int (lq_page_size q) = str_of_int (lq_page_size q')" "?opt q = ?opt q'"
    using assms(3) by simp_all
  have lookup: "map_of (?opt p) (u ''publishedFrom'') = map_option isoformat (lq_published_from p)"
    "map_of (?opt p) (u ''publishedTo'') = map_option isoformat (lq_published_to p)"
    "map_of (?opt p) (u ''searchQuery'') = lq_search_query p" "map_of (?opt p) (u ''tagSlug'') = lq_tag_slug p" for p
    using names by (auto simp: map_of_optional map_add_def split: option.splits)
  have dates: "a = b" if "map_option isoformat a = map_option isoformat b" "pred_option valid_date a" "pred_option valid_date b" for a b
    using that isoformat_inj by (cases a; cases b) auto
  have "lq_published_from q = lq_published_from q'" "lq_published_to q = lq_published_to q'"
    using dates lookup(1,2)[of q] lookup(1,2)[of q'] assms(1,2) eq(4) by auto
  moreover have "lq_search_query q = lq_search_query q'" "lq_tag_slug q = lq_tag_slug q'"
    using lookup(3,4)[of q] lookup(3,4)[of q'] eq(4) by simp_all
  ultimately show ?thesis using eq(1-3) by (simp add: str_of_int_inj language_values)
qed

lemma numbers_valid: "valid_text (str_of_int i)" "valid_text (pad n i)" "valid_text (isoformat d)"
proof -
  have ascii: "c < 128" if "c \<in> set (str_of_int i)" for c i
    using that str_of_nat_digits(1)[of "nat i"] str_of_nat_digits(1)[of "nat (- i)"]
    by (fastforce simp: str_of_int_def split: if_splits)
  then show "valid_text (str_of_int i)" for i by (auto intro: ascii_valid)
  show pad: "valid_text (pad n i)" for n i using ascii by (auto simp: pad_def Let_def intro!: ascii_valid)
  show "valid_text (isoformat d)"
    using pad by (auto simp: isoformat_def valid_text_def is_scalar_def split: prod.splits)
qed

lemma optional_valid:
  "pred_option valid_text v \<Longrightarrow> valid_text name \<Longrightarrow> \<forall>(k, x) \<in> set (optional_parameter name v). valid_text k \<and> valid_text x"
  by (cases v) (simp_all add: optional_parameter_def)

lemma query_texts_valid:
  assumes "routable r" "\<And>slug lang. r \<noteq> GetArticle slug lang" "\<And>key slug lang. r \<noteq> GetItem key slug lang"
  shows "\<forall>(k, v) \<in> set (request_query r). valid_text k \<and> valid_text v"
proof -
  have lang: "valid_text (language_value lang)" for lang by (cases lang) (simp_all add: u_def valid_text_def is_scalar_def)
  have names: "valid_text (u ''language'')" "valid_text (u ''page'')" "valid_text (u ''pageSize'')"
    "valid_text (u ''publishedFrom'')" "valid_text (u ''publishedTo'')" "valid_text (u ''searchQuery'')"
    "valid_text (u ''tagSlug'')" "valid_text (u ''sheetKey'')"
    by (simp_all add: u_def valid_text_def is_scalar_def)
  have iso: "pred_option valid_text (map_option isoformat x)" for x by (cases x) (simp_all add: numbers_valid)
  show ?thesis
  proof (cases r)
    case (GetArticles q)
    then have "pred_option valid_text (lq_search_query q)" "pred_option valid_text (lq_tag_slug q)" using assms(1) by simp_all
    note optional_valid[OF iso names(4), of "lq_published_from q"] optional_valid[OF iso names(5), of "lq_published_to q"]
      optional_valid[OF this(1) names(6)] optional_valid[OF this(2) names(7)]
    then show ?thesis unfolding GetArticles request_query.simps set_append ball_Un by (simp add: lang names numbers_valid)
  qed (use assms in \<open>simp_all add: lang names\<close>)
qed

text \<open>Two requests with the same key are the same request.\<close>

lemma query_key_inj:
  assumes "routable r" "routable r'" "query_key r = query_key r'"
  shows "r = r'"
proof -
  have eq: "request_path r @ urlencode (request_query r) = request_path r' @ urlencode (request_query r')"
    using assms(3) by (simp add: query_key_form)
  have kind: "request_kind r = request_kind r'" using assms(3) by (rule query_key_kind)
  have one: "urlencode [(u ''language'', language_value lang)] = u ''language='' @ language_value lang" for lang
    by (simp add: urlencode_language)
  show ?thesis
  proof (cases r)
    case (GetArticles q)
    then obtain q' where r': "r' = GetArticles q'" using kind by (cases r') (auto simp: request_kind_def)
    have "request_query r = request_query r'"
      using eq query_texts_valid[OF assms(1)] query_texts_valid[OF assms(2)]
      by (intro urlencode_inj) (auto simp: GetArticles r')
    then show ?thesis using list_query_inj assms(1,2) GetArticles r' by blast
  next
    case (GetItems key lang)
    then obtain key' lang' where r': "r' = GetItems key' lang'" using kind by (cases r') (auto simp: request_kind_def)
    have "request_query r = request_query r'"
      using eq query_texts_valid[OF assms(1)] query_texts_valid[OF assms(2)]
      by (intro urlencode_inj) (auto simp: GetItems r')
    then show ?thesis by (simp add: GetItems r' language_values)
  next
    case (GetArticle slug lang)
    then obtain slug' lang' where r': "r' = GetArticle slug' lang'" using kind by (cases r') (auto simp: request_kind_def)
    have "(slug @ u ''language='') @ language_value lang = (slug' @ u ''language='') @ language_value lang'"
      using eq by (simp add: GetArticle r' one)
    then show ?thesis by (simp add: append_eq_append_conv language_values GetArticle r' del: append_assoc)
  next
    case (GetItem key slug lang)
    then obtain key' slug' lang' where r': "r' = GetItem key' slug' lang'" using kind by (cases r') (auto simp: request_kind_def)
    have "(key @ u ''/'' @ slug @ u ''language='') @ language_value lang = (key' @ u ''/'' @ slug' @ u ''language='') @ language_value lang'"
      using eq by (simp add: GetItem r' one)
    then have "key @ 47 # slug = key' @ 47 # slug' \<and> lang = lang'"
      by (simp add: append_eq_append_conv language_values u_def del: append_assoc)
    then show ?thesis using split_at_first[of 47 key key' slug slug'] assms(1,2) by (simp add: GetItem r')
  qed (use eq kind in \<open>cases r'; simp add: request_kind_def one language_values\<close>)+
qed

end
