(* ===== verification/Cache_Properties.thy ===== *)
theory Cache_Properties
  imports Cache_Coherence Cache_Keys "HOL-Library.Multiset"
begin

text \<open>
  The application as a whole: requests, background tasks, the administration and the expiry of cached
  responses.  A cached answer is the answer of the endpoint; the warming writes the answers of the public
  endpoints for the articles, and something else for the questions of the matrix.
\<close>

section \<open>What the warming collects\<close>

text \<open>A reading action, when it succeeds, leaves the database alone and returns what satisfies \<open>P\<close>.\<close>

definition finds :: "db \<Rightarrow> 'a dbm \<Rightarrow> ('a \<Rightarrow> bool) \<Rightarrow> bool" where
  "finds d m P \<longleftrightarrow> (\<forall>a d'. m d = (Inr a, d') \<longrightarrow> d' = d \<and> P a)"

named_theorems finds_intros \<open>rules that derive what a reading action finds\<close>

lemma finds_bind: "finds d m P \<Longrightarrow> (\<And>a. P a \<Longrightarrow> finds d (k a) Q) \<Longrightarrow> finds d (bind m k) Q"
  by (fastforce simp: finds_def bind_def split: prod.splits sum.splits)

lemma finds_ret: "P a \<Longrightarrow> finds d (ret a) P"
  by (simp add: finds_def run_simps)

lemma finds_read: "(\<And>I. keeps I m) \<Longrightarrow> finds d m (\<lambda>a. fst (m d) = Inr a)"
  by (auto simp: finds_def dest: keeps_run[where I = "\<lambda>x. x = d"])

lemma finds_map_action:
  "(\<And>x. x \<in> set xs \<Longrightarrow> finds d (f x) P) \<Longrightarrow> finds d (map_action f xs) (\<lambda>ys. \<forall>y \<in> set ys. P y)"
proof (induction xs)
  case Nil
  then show ?case by (simp add: finds_def run_simps)
next
  case (Cons x xs)
  have "finds d (map_action f xs) (\<lambda>ys. \<forall>y \<in> set ys. P y)" using Cons by simp
  then show ?case using Cons.prems[of x]
    by (auto intro!: finds_bind[where P = P] finds_bind[where P = "\<lambda>ys. \<forall>y \<in> set ys. P y"] finds_ret)
qed

lemma finds_weaken: "finds d m P \<Longrightarrow> (\<And>a. P a \<Longrightarrow> Q a) \<Longrightarrow> finds d m Q"
  by (auto simp: finds_def)

text \<open>
  A target writes under the key of a public request; the requests for lists and details of questions apart
  it writes their answer.  For those two it writes the response of the editors' endpoints: for the sheets that are
  listed their published questions, for a published question its detail.
\<close>

definition exactly_warmed :: "public_request \<Rightarrow> bool" where
  "exactly_warmed r \<longleftrightarrow> request_kind r < 5"

fun warmed_answer :: "public_request \<Rightarrow> db \<Rightarrow> response option" where
  "warmed_answer (GetItems key lang) d =
     (case (fst (list_sheets d), fst (list_items \<lparr>mf_sheet_key = Some key, mf_only_published = Some True\<rparr> d)) of
        (Inr shs, Inr its) \<Rightarrow>
          if key \<in> pk_key ` set shs then Some (ItemsResponse (admin_items_list lang key its)) else None
      | _ \<Rightarrow> None)"
| "warmed_answer (GetItem key slug lang) d =
     (case fst (get_item_by_slug key slug True d) of
        Inr detail \<Rightarrow> (case item_detail_of lang detail of Inr body \<Rightarrow> Some (ItemDetailResponse body) | _ \<Rightarrow> None)
      | _ \<Rightarrow> None)"
| "warmed_answer _ d = None"

definition target_for :: "api \<Rightarrow> db \<Rightarrow> warm_target \<Rightarrow> public_request \<Rightarrow> bool" where
  "target_for c d t r \<longleftrightarrow>
     wa_domain t = request_domain r \<and> path_and_query_key (wa_path t) (wa_query t) = query_key r
     \<and> (if exactly_warmed r then routable r \<and> answer c r d = Inr (wa_response t)
         else warmed_answer r d = Some (wa_response t))"

definition target_ok :: "bool \<Rightarrow> api \<Rightarrow> db \<Rightarrow> warm_target \<Rightarrow> bool" where
  "target_ok exact c d t \<longleftrightarrow> (\<exists>r. target_for c d t r \<and> (exact \<longrightarrow> exactly_warmed r))"

lemma key_of_query: "path_and_query_key path (build_query q) = path_and_query_key path q"
proof -
  have "sort (build_query q) = sort q"
    by (rule properties_for_sort) (simp_all add: build_query_def)
  then show ?thesis by (simp add: path_and_query_key_def)
qed

lemma to_target_finds:
  assumes "\<And>x. y = Inr x \<Longrightarrow> target_ok exact c d \<lparr>wa_domain = domain, wa_path = path, wa_query = build_query q, wa_response = f x\<rparr>"
  shows "finds d (to_target domain path q f y) (target_ok exact c d)"
  using assms by (auto simp: finds_def to_target_def run_simps split: sum.splits)

lemma article_targets:
  "fst (list_tags lang True d) = Inr ts \<Longrightarrow> finds d (tags_target lang ts) (target_ok True c d)"
  "fst (list_tree True lang d) = Inr tree \<Longrightarrow> finds d (tree_target lang tree) (target_ok True c d)"
  "fst (get_article (ax_env c) (ac_slug a) True d) = Inr detail \<Longrightarrow>
     finds d (detail_target (ax_adapters c) lang a detail) (target_ok True c d)"
proof -
  show "finds d (tags_target lang ts) (target_ok True c d)" if "fst (list_tags lang True d) = Inr ts"
    unfolding tags_target_def
    by (rule to_target_finds, unfold target_ok_def target_for_def, rule exI[of _ "GetTags lang"])
       (simp add: exactly_warmed_def request_kind_def key_of_query answer_def cached_endpoints endpoint_reads that)
  show "finds d (tree_target lang tree) (target_ok True c d)" if "fst (list_tree True lang d) = Inr tree"
    unfolding tree_target_def
    by (rule to_target_finds, unfold target_ok_def target_for_def, rule exI[of _ "GetArticlesTree lang"])
       (simp add: exactly_warmed_def request_kind_def key_of_query answer_def cached_endpoints endpoint_reads that)
  show "finds d (detail_target (ax_adapters c) lang a detail) (target_ok True c d)"
    if "fst (get_article (ax_env c) (ac_slug a) True d) = Inr detail"
    unfolding detail_target_def
    by (rule to_target_finds, unfold target_ok_def target_for_def, rule exI[of _ "GetArticle (ac_slug a) lang"])
       (simp add: exactly_warmed_def request_kind_def key_of_query answer_def cached_endpoints endpoint_reads that)
qed

lemma list_target_finds:
  assumes "1 \<le> n" "n \<le> 100" "fst (uc_list_articles (ax_env c) (ax_search c) (warm_list_filters n lang) d) = Inr page"
  shows "finds d (list_target (ax_adapters c) n lang page) (target_ok True c d)"
proof -
  let ?q = "\<lparr>lq_page = 1, lq_page_size = n, lq_language = lang, lq_tag_slug = None, lq_published_from = None,
     lq_published_to = None, lq_search_query = None\<rparr>"
  have filters: "provide_public_article_filters ?q = Inr (warm_list_filters n lang)"
    using assms(1,2) by (simp add: provide_public_article_filters_def page_query_def page_size_query_def and_then_def
        warm_list_filters_def normalized_search_query_def default_filters_def)
  have lang': "af_language (warm_list_filters n lang) = lang" by (simp add: warm_list_filters_def)
  have one: "u ''1'' = str_of_int 1" by (simp add: u_def str_of_int_def str_of_nat.simps)
  show ?thesis
    unfolding list_target_def
    by (rule to_target_finds, unfold target_ok_def target_for_def, rule exI[of _ "GetArticles ?q"])
       (simp add: exactly_warmed_def request_kind_def key_of_query answer_def cached_endpoints endpoint_reads filters assms(3) lang' one optional_parameter_def)
qed

lemma finds_language: "(\<And>lang. finds d (f lang) (\<lambda>ts. \<forall>t \<in> set ts. P t)) \<Longrightarrow> finds d (collect_over_languages f) (\<lambda>ts. \<forall>t \<in> set ts. P t)"
  unfolding collect_over_languages_def
  by (rule finds_bind[OF finds_map_action[of _ _ _ "\<lambda>ts. \<forall>t \<in> set ts. P t"]]) (auto intro!: finds_ret)

abbreviation targets_ok :: "bool \<Rightarrow> api \<Rightarrow> db \<Rightarrow> warm_target list \<Rightarrow> bool" where
  "targets_ok exact c d ts \<equiv> \<forall>t \<in> set ts. target_ok exact c d t"

lemma target_ok_weaken: "target_ok True c d t \<Longrightarrow> target_ok exact c d t"
  by (auto simp: target_ok_def)

lemma collect_articles_finds:
  assumes "1 \<le> n" "n \<le> 100"
  shows "finds d (collect_articles c n) (targets_ok True c d)"
proof -
  have details: "finds d (detail_targets c lang page) (targets_ok True c d)" for lang page
    unfolding detail_targets_def
    by (rule finds_map_action, rule finds_bind, rule finds_read, intro keeps_intros) (rule article_targets(3))
  have "finds d (collect_article_language_targets c n lang) (targets_ok True c d)" for lang
    unfolding collect_article_language_targets_def
  proof (rule finds_bind[OF finds_read[OF article_queries_read(2)]], rule finds_bind[OF finds_read[OF article_queries_read(1)]],
      rule finds_bind[OF finds_read[OF uc_list_articles_reads]], rule finds_bind[OF article_targets(1)], assumption,
      rule finds_bind[OF article_targets(2)], assumption, rule finds_bind[OF list_target_finds[OF assms]], assumption,
      rule finds_bind[OF details], rule finds_ret)
  qed auto
  then show ?thesis unfolding collect_articles_def by (rule finds_language)
qed

lemma matrix_targets:
  "fst (list_sheets d) = Inr shs \<Longrightarrow> finds d (sheets_target lang shs) (target_ok True c d)"
  "fst (list_sheets d) = Inr shs \<Longrightarrow> sheet \<in> set shs \<Longrightarrow>
     fst (list_items \<lparr>mf_sheet_key = Some (pk_key sheet), mf_only_published = Some True\<rparr> d) = Inr its \<Longrightarrow>
     finds d (items_target lang (pk_key sheet) its) (target_ok False c d)"
  "fst (get_item_by_slug (ns_sheet_key (mi_structure item)) (mi_slug item) True d) = Inr detail \<Longrightarrow>
     finds d (public_detail_target lang item detail) (target_ok False c d)"
proof -
  show "finds d (sheets_target lang shs) (target_ok True c d)" if "fst (list_sheets d) = Inr shs"
    unfolding sheets_target_def
    by (rule to_target_finds, unfold target_ok_def target_for_def, rule exI[of _ "GetSheets lang"])
       (simp add: exactly_warmed_def request_kind_def key_of_query answer_def cached_endpoints endpoint_reads that)
  show "finds d (items_target lang (pk_key sheet) its) (target_ok False c d)"
    if "fst (list_sheets d) = Inr shs" "sheet \<in> set shs"
      "fst (list_items \<lparr>mf_sheet_key = Some (pk_key sheet), mf_only_published = Some True\<rparr> d) = Inr its"
    unfolding items_target_def
    by (rule to_target_finds, unfold target_ok_def target_for_def, rule exI[of _ "GetItems (pk_key sheet) lang"])
       (use that in \<open>auto simp: exactly_warmed_def request_kind_def key_of_query\<close>)
  show "finds d (public_detail_target lang item detail) (target_ok False c d)"
    if "fst (get_item_by_slug (ns_sheet_key (mi_structure item)) (mi_slug item) True d) = Inr detail"
    unfolding public_detail_target_def
    by (rule to_target_finds, unfold target_ok_def target_for_def,
        rule exI[of _ "GetItem (ns_sheet_key (mi_structure item)) (mi_slug item) lang"])
       (simp add: exactly_warmed_def request_kind_def key_of_query that)
qed

lemma collect_matrix_finds: "finds d collect_matrix (targets_ok False c d)"
proof -
  have details: "finds d (item_detail_targets lang its) (targets_ok False c d)" for lang its
    unfolding item_detail_targets_def
    by (rule finds_map_action, rule finds_bind, rule finds_read, intro keeps_intros) (rule matrix_targets(3))
  have sheet: "finds d (bind (list_items \<lparr>mf_sheet_key = Some (pk_key sheet), mf_only_published = Some True\<rparr>) (\<lambda>its.
      bind (items_target lang (pk_key sheet) its) (\<lambda>t.
      bind (item_detail_targets lang its) (\<lambda>ts. ret (t # ts))))) (targets_ok False c d)"
    if "fst (list_sheets d) = Inr shs" "sheet \<in> set shs" for lang sheet shs
    by (rule finds_bind[OF finds_read[OF matrix_queries_read(3)]], rule finds_bind[OF matrix_targets(2)[OF that]], assumption,
        rule finds_bind[OF details], rule finds_ret) auto
  have sheets: "finds d (sheet_item_targets lang shs) (targets_ok False c d)" if "fst (list_sheets d) = Inr shs" for lang shs
    unfolding sheet_item_targets_def
    by (rule finds_bind[OF finds_map_action[of _ _ _ "targets_ok False c d", OF sheet[OF that]]], assumption, rule finds_ret) auto
  have "finds d (collect_matrix_language_targets lang) (targets_ok False c d)" for lang
    unfolding collect_matrix_language_targets_def
    by (rule finds_bind[OF finds_read[OF matrix_queries_read(1)]], rule finds_bind[OF matrix_targets(1)], assumption,
        rule finds_bind[OF sheets], assumption, rule finds_ret) (auto intro: target_ok_weaken)
  then show ?thesis unfolding collect_matrix_def by (rule finds_language)
qed

lemma collect_targets_finds:
  assumes "1 \<le> n" "n \<le> 100" "exact \<longrightarrow> DOMAIN_MATRIX \<notin> set domains"
  shows "finds d (collect_targets c n domains) (targets_ok exact c d)"
  unfolding collect_targets_def
  using assms(3) collect_articles_finds[OF assms(1,2), of d c] collect_matrix_finds[of d c]
  by (cases exact) (auto intro: target_ok_weaken intro!: finds_bind[where P = "targets_ok exact c d"] finds_ret elim!: finds_weaken split: if_splits)

section \<open>Runs of the application\<close>

text \<open>
  The steps of the application at a site: an endpoint, a cached request, the warming task, the clearing of domains by the
  administration, the expiry of entries and the cleanup of orphaned files.  Requests and tasks run one after the
  other.  \<open>warmed\<close> says whether the warming of the matrix is enabled.
\<close>

inductive app_step ::
  "api \<Rightarrow> ('st, response) store_ops \<Rightarrow> ('st \<Rightarrow> pystr \<Rightarrow> response option) \<Rightarrow> bool \<Rightarrow> ('q, 'st) app \<Rightarrow> ('q, 'st) app \<Rightarrow> bool"
  for site ops view warmed where
  request: "same_site site c \<Longrightarrow> endpoint c m \<Longrightarrow> run_endpoint c ops m a = (x, a') \<Longrightarrow> app_step site ops view warmed a a'"
| cached_request: "same_site site c \<Longrightarrow> routable r \<Longrightarrow> serve c ops r a = (x, a') \<Longrightarrow> app_step site ops view warmed a a'"
| warming: "same_site site c \<Longrightarrow> 1 \<le> we_articles_page_size sv \<Longrightarrow> we_articles_page_size sv \<le> 100 \<Longrightarrow>
    (\<not> warmed \<longrightarrow> DOMAIN_MATRIX \<notin> set requested) \<Longrightarrow> warm_domains c ops sv requested a = (x, a') \<Longrightarrow>
    app_step site ops view warmed a a'"
| clearing: "on_cache (clear_domains ops domains) a = (x, a') \<Longrightarrow> app_step site ops view warmed a a'"
| expiry: "(\<And>domain. view (ss domain) \<subseteq>\<^sub>m view (ap_cache a domain)) \<Longrightarrow> app_step site ops view warmed a (a\<lparr>ap_cache := ss\<rparr>)"
| cleanup: "prune env limit cutoff (ap_world a) = (x, w) \<Longrightarrow> app_step site ops view warmed a (a\<lparr>ap_world := w\<rparr>)"

abbreviation app_db :: "('q, 'st) app \<Rightarrow> db" where
  "app_db a \<equiv> w_db (ap_world a)"

text \<open>
  A cached response is current: the answer of the endpoint or, where the matrix is warmed, what the warming would write
  under that key now.
\<close>

definition writable :: "public_request \<Rightarrow> db \<Rightarrow> response \<Rightarrow> bool" where
  "writable r d resp \<longleftrightarrow> (\<exists>r'. query_key r' = query_key r \<and> warmed_answer r' d = Some resp)"

definition current :: "api \<Rightarrow> bool \<Rightarrow> db \<Rightarrow> public_request \<Rightarrow> response \<Rightarrow> bool" where
  "current site warmed d r resp \<longleftrightarrow> answer site r d = Inr resp \<or> (warmed \<and> writable r d resp)"

definition coherent :: "api \<Rightarrow> ('st \<Rightarrow> pystr \<Rightarrow> response option) \<Rightarrow> bool \<Rightarrow> db \<Rightarrow> 'st stores \<Rightarrow> bool" where
  "coherent site view warmed d ss \<longleftrightarrow>
     (\<forall>r resp. routable r \<longrightarrow> view (ss (request_domain r)) (query_key r) = Some resp \<longrightarrow> current site warmed d r resp)"

definition app_inv :: "api \<Rightarrow> ('st \<Rightarrow> pystr \<Rightarrow> response option) \<Rightarrow> bool \<Rightarrow> ('q, 'st) app \<Rightarrow> bool" where
  "app_inv site view warmed a \<longleftrightarrow>
     site_inv (env_sha256 (ax_env site)) (app_db a) \<and> coherent site view warmed (app_db a) (ap_cache a)"

lemma answer_site: "same_site site c \<Longrightarrow> answer c r d = answer site r d"
proof (cases "request_domain r")
  case DOMAIN_HEALTHCHECK
  then show ?thesis by (cases r) simp_all
qed (metis answer_articles_view answer_matrix_view same_site_def)+

lemma warmed_answer_kind: "warmed_answer r d = Some resp \<Longrightarrow> \<not> exactly_warmed r \<and> request_domain r = DOMAIN_MATRIX"
  by (cases r) (simp_all add: exactly_warmed_def request_kind_def)

lemma exactly_warmed_key: "query_key r' = query_key r \<Longrightarrow> exactly_warmed r' = exactly_warmed r"
  by (drule query_key_kind) (simp add: exactly_warmed_def)

lemma not_writable: "exactly_warmed r \<Longrightarrow> \<not> writable r d resp"
  by (auto simp: writable_def dest: warmed_answer_kind exactly_warmed_key)

lemma warmed_answer_view: "warmed_answer r (matrix_view d) = warmed_answer r d"
  by (cases r) (simp_all add: list_sheets_view list_items_view get_item_by_slug_view)

lemma current_view:
  assumes "view_of (request_domain r) d' = view_of (request_domain r) d" "current site warmed d r resp"
  shows "current site warmed d' r resp"
proof (cases "request_domain r")
  case DOMAIN_HEALTHCHECK
  then show ?thesis by (cases r) simp_all
next
  case DOMAIN_ARTICLES
  then have "\<not> writable r x resp" for x by (cases r) (auto intro!: not_writable simp: exactly_warmed_def request_kind_def)
  then show ?thesis using assms answer_articles_view[OF DOMAIN_ARTICLES, of site site] DOMAIN_ARTICLES
    unfolding current_def by (metis same_site_def view_of_simps(1))
next
  case DOMAIN_MATRIX
  then have "matrix_view d' = matrix_view d" using assms(1) by simp
  then have "answer site r d' = answer site r d" "warmed_answer q d' = warmed_answer q d" for q
    using answer_matrix_view[OF DOMAIN_MATRIX] warmed_answer_view by metis+
  then show ?thesis using assms(2) by (simp add: current_def writable_def)
qed

lemma coherent_views:
  assumes "coherent site view warmed d ss"
    and "\<And>domain. view_of domain d' = view_of domain d \<or> view (ss' domain) = Map.empty"
    and "\<And>domain. view (ss' domain) \<subseteq>\<^sub>m view (ss domain)"
  shows "coherent site view warmed d' ss'"
  unfolding coherent_def
proof (intro allI impI)
  fix r resp assume r: "routable r" "view (ss' (request_domain r)) (query_key r) = Some resp"
  then have "view (ss (request_domain r)) (query_key r) = Some resp"
    using assms(3)[of "request_domain r"] by (auto simp: map_le_def dom_def)
  then have old: "current site warmed d r resp" using assms(1) r(1) by (auto simp: coherent_def)
  have "view_of (request_domain r) d' = view_of (request_domain r) d" using assms(2)[of "request_domain r"] r(2) by auto
  then show "current site warmed d' r resp" using old by (rule current_view)
qed

lemma coherent_shrink:
  "coherent site view warmed d ss \<Longrightarrow> (\<And>domain. view (ss' domain) \<subseteq>\<^sub>m view (ss domain)) \<Longrightarrow> coherent site view warmed d ss'"
  using coherent_views[of site view warmed d ss d ss'] by blast

lemma run_public_endpoint: "run_endpoint c ops (public_endpoint c r) a = (answer c r (app_db a), a)"
  by (simp add: run_endpoint_def public_endpoint_run run_post_commit_actions_def run_simps split: sum.splits)

text \<open>A store of responses.\<close>

locale response_store = kv_store ops view
  for ops :: "('st, response) store_ops" and view :: "'st \<Rightarrow> pystr \<Rightarrow> response option"
begin

lemma post_commit_run:
  assumes "ax_use_cache c"
  shows "\<exists>a'. run_post_commit_actions c ops domains a = (Inr (), a') \<and> ap_world a' = ap_world a
    \<and> (\<forall>domain. view (ap_cache a' domain) = (if domain \<in> set domains then Map.empty else view (ap_cache a domain)))"
proof (induction domains arbitrary: a)
  case Nil
  then show ?case by (simp add: run_post_commit_actions_def run_simps)
next
  case (Cons x xs)
  let ?b = "a\<lparr>ap_cache := snd (delete_domain ops x (ap_cache a)), ap_tasks := ap_tasks a @ [x]\<rparr>"
  have "run_post_commit_actions c ops (x # xs) a = run_post_commit_actions c ops xs ?b"
    using assms delete_domain_run(1)[of x "ap_cache a"]
    by (simp add: run_post_commit_actions_def run_simps invalidate_and_enqueue_response_cache_warm_domain_def
        invalidate_response_cache_domain_def on_cache_def prod.case_eq_if)
  then show ?case using Cons.IH[of ?b] by (auto simp: delete_domain_run(2))
qed

lemma run_endpoint_inv:
  assumes "app_inv site view warmed a" "same_site site c" "ax_use_cache site" "guarded (env_sha256 (ax_env site)) m"
    and run: "run_endpoint c ops m a = (x, a')"
  shows "app_inv site view warmed a'"
proof -
  let ?s = "\<lparr>sn_world = ap_world a, sn_quota = ap_quota a, sn_post_commit = []\<rparr>"
  have inv: "site_inv (env_sha256 (ax_env site)) (app_db a)" "coherent site view warmed (app_db a) (ap_cache a)"
    using assms(1) by (simp_all add: app_inv_def)
  obtain X where X: "touches (env_sha256 (ax_env site)) X X m" using assms(4) by (auto simp: guarded_def)
  show ?thesis
  proof (cases "m ?s")
    case (Pair y s)
    show ?thesis
    proof (cases y)
      case (Inl e)
      then show ?thesis using run Pair inv by (auto simp: run_endpoint_def app_inv_def)
    next
      case (Inr r)
      have "site_inv (env_sha256 (ax_env site)) (session_db ?s)" using inv(1) by simp
      note t = touches_run[OF X this Pair[unfolded Inr]]
      let ?b = "a\<lparr>ap_world := sn_world s, ap_quota := sn_quota s\<rparr>"
      have "ax_use_cache c" using assms(2,3) by (simp add: same_site_def)
      then obtain b where b: "run_post_commit_actions c ops (sn_post_commit s) ?b = (Inr (), b)"
        "ap_world b = sn_world s"
        "\<And>domain. view (ap_cache b domain) = (if domain \<in> set (sn_post_commit s) then Map.empty else view (ap_cache a domain))"
        using post_commit_run[of c "sn_post_commit s" ?b] by auto
      then have a': "a' = b" using run Pair Inr by (simp add: run_endpoint_def run_simps)
      have "coherent site view warmed (session_db s) (ap_cache b)"
      proof (rule coherent_views[OF inv(2)])
        show "view_of domain (session_db s) = view_of domain (app_db a) \<or> view (ap_cache b domain) = Map.empty" for domain
          using t(2)[of domain] t(4) b(3)[of domain] by auto
        show "view (ap_cache b domain) \<subseteq>\<^sub>m view (ap_cache a domain)" for domain using b(3)[of domain] by simp
      qed
      then show ?thesis using t(1) by (simp add: a' app_inv_def b(2))
    qed
  qed
qed

lemma coherent_write:
  assumes "coherent site view warmed d ss"
    and "\<And>r. routable r \<Longrightarrow> request_domain r = domain \<Longrightarrow> query_key r = k \<Longrightarrow> current site warmed d r v"
  shows "coherent site view warmed d (ss(domain := so_set ops k v expires (ss domain)))"
  using assms by (auto simp: coherent_def set_view)

definition looked_up :: "public_request \<Rightarrow> ('q, 'st) app \<Rightarrow> ('q, 'st) app" where
  "looked_up r a =
     a\<lparr>ap_cache := (ap_cache a)(request_domain r := snd (so_get ops (query_key r) None (ap_cache a (request_domain r))))\<rparr>"

definition stored :: "public_request \<Rightarrow> response \<Rightarrow> ('q, 'st) app \<Rightarrow> ('q, 'st) app" where
  "stored r resp a =
     a\<lparr>ap_cache := (ap_cache a)(request_domain r :=
       so_set ops (query_key r) resp (Some default_ttl_seconds) (ap_cache a (request_domain r)))\<rparr>"

lemma looked_up: "view (ap_cache (looked_up r a) domain) = view (ap_cache a domain)" "ap_world (looked_up r a) = ap_world a"
  by (simp_all add: looked_up_def get_view)

lemma serve_run:
  assumes "ax_use_cache c" "ax_default_key c = path_and_query_key"
  shows "serve c ops r a =
    (case view (ap_cache a (request_domain r)) (query_key r) of
       Some resp \<Rightarrow> (Inr resp, looked_up r a)
     | None \<Rightarrow> (case answer c r (app_db a) of
         Inl e \<Rightarrow> (Inl e, looked_up r a)
       | Inr resp \<Rightarrow> (Inr resp, stored r resp (looked_up r a))))"
proof -
  have key: "request_key c r = cache_key (request_domain r) (query_key r)" using assms(2) by (simp add: request_key_def)
  have some: "query_key r \<noteq> []" by (simp add: query_key_form u_def)
  have get: "on_cache (domain_get ops (request_key c r) None) a =
      (Inr (view (ap_cache a (request_domain r)) (query_key r)), looked_up r a)"
    using domain_get_run[OF some] by (simp add: on_cache_def key looked_up_def)
  have put: "on_cache (domain_set ops (request_key c r) resp (Some default_ttl_seconds)) b = (Inr (), stored r resp b)" for resp b
    using domain_set_run[OF some] by (simp add: on_cache_def key stored_def)
  show ?thesis
    by (simp add: serve_def assms(1) run_bind run_ret get put run_public_endpoint looked_up(2) split: option.splits sum.splits)
qed

lemma serve_inv:
  assumes inv: "app_inv site view warmed a" and "same_site site c" "ax_use_cache site" "ax_default_key site = path_and_query_key"
    and r: "routable r" and run: "serve c ops r a = (x, a')"
  shows "app_inv site view warmed a'"
proof -
  have c: "ax_use_cache c" "ax_default_key c = path_and_query_key" using assms(2,3,4) by (simp_all add: same_site_def)
  have coh: "coherent site view warmed (app_db a) (ap_cache (looked_up r a))"
    using inv unfolding app_inv_def coherent_def looked_up by simp
  have "coherent site view warmed (app_db a) (ap_cache (stored r resp (looked_up r a)))" if "answer c r (app_db a) = Inr resp" for resp
  proof -
    have "current site warmed (app_db a) r' resp" if "routable r'" "query_key r' = query_key r" for r'
      using query_key_inj[of r' r] that r \<open>answer c r (app_db a) = Inr resp\<close> answer_site[OF assms(2), of r "app_db a"]
      by (simp add: current_def)
    then show ?thesis using coherent_write[OF coh] by (simp add: stored_def)
  qed
  then show ?thesis
    using run coh inv unfolding serve_run[OF c]
    by (auto simp: app_inv_def looked_up stored_def split: option.splits sum.splits)
qed

lemma writes_run:
  assumes "targets_ok (\<not> warmed) c (app_db a) ts" "same_site site c" "coherent site view warmed (app_db a) (ap_cache a)"
  shows "\<exists>ss. for_each ts (write_target ops) a = (Inr (), a\<lparr>ap_cache := ss\<rparr>) \<and> coherent site view warmed (app_db a) ss"
  using assms(1,3)
proof (induction ts arbitrary: a)
  case Nil
  then show ?case by (auto simp: run_simps intro: exI[of _ "ap_cache a"])
next
  case (Cons t ts)
  obtain r where r: "target_for c (app_db a) t r" "\<not> warmed \<longrightarrow> exactly_warmed r"
    using Cons.prems(1) by (auto simp: target_ok_def)
  then have key: "path_and_query_key (wa_path t) (wa_query t) = query_key r" "wa_domain t = request_domain r"
    by (simp_all add: target_for_def)
  let ?ss = "(ap_cache a)(request_domain r := so_set ops (query_key r) (wa_response t) (Some default_ttl_seconds) (ap_cache a (request_domain r)))"
  have wrote: "write_target ops t a = (Inr (), a\<lparr>ap_cache := ?ss\<rparr>)"
    using domain_set_run[of "query_key r" "request_domain r"]
    by (simp add: write_target_def build_cache_key_def key on_cache_def query_key_form u_def)
  have "current site warmed (app_db a) r' (wa_response t)" if r': "routable r'" "query_key r' = query_key r" for r'
  proof (cases "exactly_warmed r")
    case True
    then show ?thesis
      using r(1) query_key_inj[of r' r] r' answer_site[OF assms(2), of r "app_db a"] by (simp add: target_for_def current_def)
  next
    case False
    then show ?thesis using r r'(2) by (auto simp: target_for_def current_def writable_def intro: exI[of _ r])
  qed
  then have "coherent site view warmed (app_db a) ?ss"
    using coherent_write[OF Cons.prems(2), of "request_domain r" "query_key r" "wa_response t"] by simp
  then show ?case
    using Cons.IH[of "a\<lparr>ap_cache := ?ss\<rparr>"] Cons.prems(1) by (simp add: run_simps wrote del: fun_upd_apply)
qed

lemma warm_inv:
  assumes "app_inv site view warmed (a :: ('q, 'st) app)" "same_site site c" "ax_use_cache site"
    and "1 \<le> we_articles_page_size sv" "we_articles_page_size sv \<le> 100" "\<not> warmed \<longrightarrow> DOMAIN_MATRIX \<notin> set requested"
    and run: "warm_domains c ops sv requested a = (x, a')"
  shows "app_inv site view warmed a'"
proof (cases "we_use_cache sv")
  case False
  then show ?thesis using run assms(1) by (simp add: warm_domains_def Let_def run_simps)
next
  case True
  let ?collect = "collect_targets c (we_articles_page_size sv) (filter (can_warm_domain sv) requested)"
  have finds: "finds (app_db a) ?collect (targets_ok (\<not> warmed) c (app_db a))"
    using assms(4-6) by (intro collect_targets_finds) auto
  let ?m = "on_database ?collect :: ('q, warm_target list) handler"
  have reads: "(\<And>ts d'. ?collect (app_db a) = (Inr ts, d') \<Longrightarrow> d' = app_db a \<and> targets_ok (\<not> warmed) c (app_db a) ts)"
    using finds by (auto simp: finds_def)
  show ?thesis
  proof (cases "?collect (app_db a)")
    case (Pair z d')
    have z: "run_endpoint c ops ?m a = (z, a)"
      using Pair reads by (cases z) (auto simp: run_endpoint_def on_database_def on_world_def in_db_def
          run_post_commit_actions_def run_simps)
    show ?thesis
    proof (cases z)
      case (Inl e)
      then show ?thesis using run z True assms(1) by (simp add: warm_domains_def Let_def run_bind)
    next
      case (Inr ts)
      then obtain ss where ss: "for_each ts (write_target ops) a = (Inr (), a\<lparr>ap_cache := ss\<rparr>)"
        "coherent site view warmed (app_db a) ss"
        using writes_run[where ts = ts and c = c and site = site and warmed = warmed and a = a] reads Pair assms(1,2) by (auto simp: app_inv_def)
      then have "a' = a\<lparr>ap_cache := ss\<rparr>" using run z Inr True by (simp add: warm_domains_def Let_def run_bind run_ret)
      then show ?thesis using ss(2) assms(1) by (simp add: app_inv_def)
    qed
  qed
qed

lemma step_inv:
  assumes "app_step site ops view warmed a a'" "app_inv site view warmed a" "ax_use_cache site"
    "ax_default_key site = path_and_query_key"
  shows "app_inv site view warmed a'"
  using assms(1)
proof cases
  case (request c m x)
  have "ax_use_cache c" "env_sha256 (ax_env c) = env_sha256 (ax_env site)"
    using request(1) assms(3) by (simp_all add: same_site_def)
  then show ?thesis using run_endpoint_inv[OF assms(2) request(1) assms(3) endpoint_guarded[OF request(2)] request(3)] by blast
next
  case (cached_request c r x)
  then show ?thesis using serve_inv assms(2-4) by blast
next
  case (warming c sv requested x)
  then show ?thesis using warm_inv assms(2,3) by blast
next
  case (clearing domains x)
  let ?ss = "snd (clear_domains ops domains (ap_cache a))"
  have a': "a' = a\<lparr>ap_cache := ?ss\<rparr>" using clearing by (auto simp: on_cache_def split: prod.splits)
  have "coherent site view warmed (app_db a) ?ss"
  proof (rule coherent_shrink)
    show "coherent site view warmed (app_db a) (ap_cache a)" using assms(2) by (simp add: app_inv_def)
    show "view (?ss domain) \<subseteq>\<^sub>m view (ap_cache a domain)" for domain
      using clear_domains_run[of domains "ap_cache a" domain] by simp
  qed
  then show ?thesis using assms(2) by (simp add: a' app_inv_def)
next
  case (expiry ss)
  have "coherent site view warmed (app_db a) ss"
    using assms(2) expiry(2) unfolding app_inv_def by (blast intro: coherent_shrink)
  then show ?thesis using assms(2) by (simp add: expiry app_inv_def)
next
  case (cleanup env limit cutoff x w)
  have inv: "site_inv (env_sha256 (ax_env site)) (app_db a)" "coherent site view warmed (app_db a) (ap_cache a)"
    using assms(2) by (simp_all add: app_inv_def)
  note op = file_operation[OF prune_content prune_shown file_service_frames(4) inv(1) cleanup(2), of "{}"]
  have "coherent site view warmed (w_db w) (ap_cache a)"
  proof (rule coherent_views[OF inv(2)])
    show "view_of domain (w_db w) = view_of domain (app_db a) \<or> view (ap_cache a domain) = Map.empty" for domain
      using op by blast
  qed (rule map_le_refl)
  then show ?thesis using op by (simp add: cleanup app_inv_def)
qed

lemma serve_current:
  assumes "app_inv site view warmed a" "same_site site c" "ax_use_cache site" "ax_default_key site = path_and_query_key"
    and "routable r"
  shows "fst (serve c ops r a) = answer c r (app_db a)
    \<or> (warmed \<and> (\<exists>resp. fst (serve c ops r a) = Inr resp \<and> writable r (app_db a) resp))"
proof -
  have c: "ax_use_cache c" "ax_default_key c = path_and_query_key" using assms(2,3,4) by (simp_all add: same_site_def)
  show ?thesis
    using assms(1,5) answer_site[OF assms(2)]
    by (fastforce simp: serve_run[OF c] app_inv_def coherent_def current_def split: option.splits sum.splits)
qed

lemma reachable_inv:
  assumes "(app_step site ops view warmed)\<^sup>*\<^sup>* a a'" "app_inv site view warmed a" "ax_use_cache site"
    "ax_default_key site = path_and_query_key"
  shows "app_inv site view warmed a'"
  using assms(1) by (induction rule: rtranclp_induct) (use assms step_inv in blast)+

end

interpretation response_memory: response_store memory_ops memory_view ..

section \<open>The application at its start\<close>

definition fresh_app :: "('st \<Rightarrow> pystr \<Rightarrow> response option) \<Rightarrow> ('q, 'st) app \<Rightarrow> bool" where
  "fresh_app view a \<longleftrightarrow> app_db a = empty_db \<and> (\<forall>domain. view (ap_cache a domain) = Map.empty)"

lemma fresh_app_inv:
  assumes "fresh_app view a"
  shows "app_inv site view warmed a"
proof -
  have "article_counters_inv empty_db" by (simp add: article_counters_inv_def empty_db_def)
  then show ?thesis
    using assms by (simp add: fresh_app_def app_inv_def site_inv_def content_inv_empty matrix_inv_empty coherent_def)
qed

definition sample_api :: api where
  "sample_api =
     \<lparr>ax_env = sample_env, ax_search = sample_search, ax_adapters = \<lparr>ad_http_url = (\<lambda>_. True), ad_email = (\<lambda>_. True)\<rparr>,
      ax_images = sample_image_ops, ax_imports = \<lparr>io_sniff = (\<lambda>_ _. None), io_load_workbook = (\<lambda>_. None)\<rparr>,
      ax_publication = \<lparr>allowed = True\<rparr>, ax_user = \<lparr>username = u ''editor'', role = OWNER\<rparr>,
      ax_new_id = (\<lambda>n. u ''id'' @ str_of_nat n), ax_now = 1000, ax_use_cache = True, ax_default_key = path_and_query_key\<rparr>"

definition sample_app :: "(unit, pystr \<rightharpoonup> response \<times> int option) app" where
  "sample_app = \<lparr>ap_world = \<lparr>w_db = empty_db, w_objects = Map.empty\<rparr>, ap_quota = (), ap_cache = (\<lambda>_. Map.empty), ap_tasks = []\<rparr>"

section \<open>What the warming writes\<close>

text \<open>C38: each response that the warming writes for the articles is the answer of a public endpoint, under the key
  that the cached route of that endpoint looks up; collecting them changes nothing.\<close>

theorem article_warming_exact:
  assumes "ax_default_key c = path_and_query_key" "1 \<le> n" "n \<le> 100"
    and "collect_targets c n [DOMAIN_ARTICLES] (app_db a) = (Inr ts, d')" "t \<in> set ts"
  shows "d' = app_db a \<and> (\<exists>r. build_cache_key t = request_key c r
    \<and> run_endpoint c ops (public_endpoint c r) a = (Inr (wa_response t), a))"
proof -
  have ok: "d' = app_db a" "target_ok True c (app_db a) t"
    using collect_targets_finds[OF assms(2,3), of True "[DOMAIN_ARTICLES]" "app_db a" c] assms(4,5) by (auto simp: finds_def)
  then obtain r where "target_for c (app_db a) t r" "exactly_warmed r" by (auto simp: target_ok_def)
  then show ?thesis using ok(1) assms(1)
    by (auto simp: target_for_def build_cache_key_def request_key_def run_public_endpoint intro!: exI[of _ r])
qed

lemma sample_targets:
  "\<exists>t ts. collect_targets sample_api 10 [DOMAIN_ARTICLES] empty_db = (Inr (t # ts), empty_db)"
  by (simp add: collect_targets_def collect_articles_def collect_over_languages_def collect_article_language_targets_def
      list_tags_def list_tree_def list_tree_items_def list_published_tree_items_def uc_list_articles_def list_articles_def
      warm_list_filters_def default_filters_def filters_offset_def filters_limit_def limit_rows_def from_page_def
      tags_target_def tree_target_def list_target_def detail_targets_def to_target_def tags_response_def tree_response_def
      article_list_of_def and_then_def run_simps empty_db_def tree_from_items_def Let_def)

theorem article_warming_exact_witness:
  "\<exists>t r. run_endpoint sample_api memory_ops (public_endpoint sample_api r) sample_app = (Inr (wa_response t), sample_app)
    \<and> build_cache_key t = request_key sample_api r"
proof -
  obtain t ts where run: "collect_targets sample_api 10 [DOMAIN_ARTICLES] empty_db = (Inr (t # ts), empty_db)"
    using sample_targets by blast
  have db: "app_db sample_app = empty_db" by (simp add: sample_app_def)
  show ?thesis
    using article_warming_exact[of sample_api 10 sample_app "t # ts" empty_db t memory_ops, unfolded db, OF _ _ _ run]
    by (auto simp: sample_api_def)
qed

text \<open>C39: for the questions of the matrix the warming writes, under the keys of the public routes, the responses of the
  editors, with the internal identifiers of the questions and of their subsections, where the public endpoints answer
  without them.\<close>

theorem matrix_warming_differs:
  assumes "ax_default_key c = path_and_query_key"
    and "items_target lang key its d = (Inr t, d)" "public_detail_target lang item detail d = (Inr t', d)"
  shows "build_cache_key t = request_key c (GetItems key lang) \<and> wa_response t = ItemsResponse (admin_items_list lang key its)
    \<and> (\<forall>resp. fst (run_endpoint c ops (public_endpoint c (GetItems key lang)) a) = Inr resp \<longrightarrow>
          (\<exists>body. resp = PublicItemsResponse body))
    \<and> build_cache_key t' = request_key c (GetItem (ns_sheet_key (mi_structure item)) (mi_slug item) lang)
    \<and> (\<exists>body. wa_response t' = ItemDetailResponse body \<and> item_detail_of lang detail = Inr body)
    \<and> (\<forall>resp. fst (run_endpoint c ops (public_endpoint c (GetItem (ns_sheet_key (mi_structure item)) (mi_slug item) lang)) a) = Inr resp \<longrightarrow>
          (\<exists>body. resp = PublicItemDetailResponse body))"
proof -
  have "\<exists>body. resp = PublicItemsResponse body" if "answer c (GetItems key lang) (app_db a) = Inr resp" for resp
    using that by (auto simp: answer_def cached_endpoints endpoint_reads split: sum.splits)
  moreover have "\<exists>body. resp = PublicItemDetailResponse body" if "answer c (GetItem k s lang) (app_db a) = Inr resp" for resp k s
  proof -
    have "\<exists>x. y = f x" if "map_sum id f z = Inr y" for f :: "public_item_detail_response \<Rightarrow> response" and z and y
      using that by (cases z) auto
    then show ?thesis using that by (auto simp: answer_def cached_endpoints endpoint_reads split: sum.splits)
  qed
  ultimately show ?thesis
    unfolding run_public_endpoint fst_conv
    using assms by (auto simp: items_target_def public_detail_target_def to_target_def run_simps
        build_cache_key_def request_key_def key_of_query split: sum.splits)
qed

definition sample_question :: matrix_item where
  "sample_question =
     \<lparr>mi_id = u ''1'', mi_slug = u ''s'', mi_question_ru = u ''q'', mi_question_en = u ''q'', mi_publish_status = PUBLISHED,
      mi_answer_ru = [], mi_answer_en = [], mi_explanation_ru = [], mi_explanation_en = [],
      mi_structure = \<lparr>ns_sheet_id = u ''2'', ns_sheet_key = u ''k'', ns_sheet_ru = [], ns_sheet_en = [], ns_section_id = u ''3'',
        ns_section_ru = [], ns_section_en = [], ns_subsection_id = u ''4'', ns_subsection_ru = [], ns_subsection_en = []\<rparr>,
      mi_grade = None, mi_interview_frequency = None, mi_suggested_by_username = [], mi_published_at = None, mi_resources = []\<rparr>"

lemma sample_question_detail: "\<exists>body. item_detail_of RU sample_question = Inr body"
  by (simp add: item_detail_of_def item_detail_body_of_def item_translations_of_def validate_item_translation_def
      sample_question_def and_then_def required_short_text_def matrix_long_text_def field_length_def trim_required_def
      after_validator_def u_def strip_def strip_by_def is_space_def short_text_max_length_def)

theorem matrix_warming_differs_witness:
  "\<exists>t. build_cache_key t = request_key sample_api (GetItem (u ''k'') (u ''s'') RU)
    \<and> (\<exists>body. wa_response t = ItemDetailResponse body \<and> item_detail_of RU sample_question = Inr body)"
proof -
  obtain body where body: "item_detail_of RU sample_question = Inr body" using sample_question_detail by blast
  obtain t where t: "items_target RU [] [] empty_db = (Inr t, empty_db)" by (simp add: items_target_def to_target_def run_simps)
  obtain t' where t': "public_detail_target RU sample_question sample_question empty_db = (Inr t', empty_db)"
    by (simp add: public_detail_target_def to_target_def run_simps body)
  have "ax_default_key sample_api = path_and_query_key" by (simp add: sample_api_def)
  from matrix_warming_differs[OF this t t', of memory_ops sample_app] show ?thesis
    by (auto simp: sample_question_def)
qed

end
