(* ===== verification/Timestamp_Parsing.thy ===== *)
theory Timestamp_Parsing
  imports Calendar
begin

text \<open>
  \<open>datetime.fromisoformat\<close> on the texts that \<open>datetime.isoformat\<close> writes for a timestamp in UTC, which are the only
  ones that the code reads: four, two and two digits of a date, \<open>T\<close>, the time with or without microseconds, and the
  offset.  A month, a day or a time outside its range is a \<open>ValueError\<close>.
\<close>

definition digits_at :: "nat \<Rightarrow> pystr \<Rightarrow> (int \<times> pystr) option" where
  "digits_at n s =
     (if n \<le> length s \<and> (\<forall>c \<in> set (take n s). 48 \<le> c \<and> c \<le> 57)
      then Some (int (digits_value (take n s)), drop n s) else None)"

definition expect :: "nat \<Rightarrow> pystr \<Rightarrow> pystr option" where
  "expect c s = (case s of [] \<Rightarrow> None | x # r \<Rightarrow> if x = c then Some r else None)"

definition microseconds_at :: "pystr \<Rightarrow> (int \<times> pystr) option" where
  "microseconds_at s = (case expect 46 s of None \<Rightarrow> Some (0, s) | Some r \<Rightarrow> digits_at 6 r)"

definition date_at :: "pystr \<Rightarrow> (date \<times> pystr) option" where
  "date_at s =
     Option.bind (digits_at 4 s) (\<lambda>(year, s1).
     Option.bind (expect 45 s1) (\<lambda>s2.
     Option.bind (digits_at 2 s2) (\<lambda>(month, s3).
     Option.bind (expect 45 s3) (\<lambda>s4.
     Option.bind (digits_at 2 s4) (\<lambda>(day, s5).
     if 1 \<le> year \<and> civil_date (day_number (year, month, day)) = (year, month, day)
     then Some (day_number (year, month, day), s5) else None)))))"

definition datetime_fromisoformat :: "pystr \<Rightarrow> datetime option" where
  "datetime_fromisoformat s =
     Option.bind (date_at s) (\<lambda>(day, s1).
     Option.bind (expect 84 s1) (\<lambda>s2.
     Option.bind (digits_at 2 s2) (\<lambda>(hours, s3).
     Option.bind (expect 58 s3) (\<lambda>s4.
     Option.bind (digits_at 2 s4) (\<lambda>(minutes, s5).
     Option.bind (expect 58 s5) (\<lambda>s6.
     Option.bind (digits_at 2 s6) (\<lambda>(seconds, s7).
     Option.bind (microseconds_at s7) (\<lambda>(us, s8).
     if hours < 24 \<and> minutes < 60 \<and> seconds < 60 \<and> s8 = u ''+00:00''
     then Some (date_start day + hours * hour_us + minutes * minute_us + seconds * 1000000 + us) else None))))))))"

lemma str_of_nat_length: "0 < k \<Longrightarrow> n < 10 ^ k \<Longrightarrow> length (str_of_nat n) \<le> k"
proof (induction n arbitrary: k rule: str_of_nat.induct)
  case (1 n)
  show ?case
  proof (cases "n < 10")
    case True
    then show ?thesis using 1(2) by (simp add: str_of_nat.simps[of n])
  next
    case False
    obtain j where k: "k = Suc j" using 1(2) by (cases k) auto
    then have j: "k = Suc j" "0 < j" using False 1(3) by (cases j; simp)+
    then have "n div 10 < 10 ^ j" using 1(3) by (simp add: less_mult_imp_div_less)
    then show ?thesis using 1(1)[OF False j(2)] False j by (simp add: str_of_nat.simps[of n])
  qed
qed

lemma digits_at_pad:
  assumes "0 < n" "0 \<le> i" "i < 10 ^ n"
  shows "digits_at n (pad n i @ r) = Some (i, r)"
proof -
  have "nat i < 10 ^ n" using assms(2,3) by (simp add: nat_less_iff)
  then have len: "length (pad n i) = n"
    using str_of_nat_length[OF assms(1)] assms(2) by (simp add: pad_def str_of_int_def Let_def)
  have "set (pad n i) \<subseteq> {48..57}"
    using str_of_nat_digits(1)[of "nat i"] assms(2) by (auto simp: pad_def str_of_int_def Let_def)
  then show ?thesis using len pad_value[OF assms(2), of n] assms(2) by (auto simp: digits_at_def)
qed

lemma expect_Cons [simp]: "expect c (x # r) = (if x = c then Some r else None)"
  by (simp add: expect_def)


lemma civil_date_small: "fst (snd (civil_date d)) < 100" "snd (snd (civil_date d)) < 100"
proof -
  define doe where "doe = (d + 719468) mod 146097"
  define yoe where "yoe = year_scale doe div 365"
  define doy where "doy = doe - year_start yoe"
  define mp where "mp = (5 * doy + 2) div 153"
  have doe: "0 \<le> doe" "doe \<le> 146096" by (simp_all add: doe_def)
  have doy: "0 \<le> doy" "doy \<le> 365" using era_bounds(3,4)[OF doe yoe_def] by (simp_all add: doy_def)
  have civil: "snd (civil_date d) = (if mp < 10 then mp + 3 else mp - 9, doy - (153 * mp + 2) div 5 + 1)"
    unfolding civil_date_def Let_def doe_def yoe_def doy_def mp_def year_scale_def year_start_def by (simp only: snd_conv)
  have mp: "5 * doy + 2 = 153 * mp + (5 * doy + 2) mod 153" unfolding mp_def by (rule mult_div_mod_eq[symmetric])
  have "153 * mp + 2 = 5 * ((153 * mp + 2) div 5) + (153 * mp + 2) mod 5" by (rule mult_div_mod_eq[symmetric])
  moreover have "0 \<le> (153 * mp + 2) mod 5" "(153 * mp + 2) mod 5 < 5" "0 \<le> (5 * doy + 2) mod 153" "(5 * doy + 2) mod 153 < 153"
    by simp_all
  ultimately have "mp \<le> 12" "doy - (153 * mp + 2) div 5 + 1 < 100" using doy mp by linarith+
  then show "fst (snd (civil_date d)) < 100" "snd (snd (civil_date d)) < 100" by (auto simp: civil)
qed

lemma date_at_isoformat:
  assumes "valid_date d"
  shows "date_at (isoformat d @ r) = Some (d, r)"
proof -
  obtain y m k where d: "civil_date d = (y, m, k)" by (metis prod_cases3)
  have "0 \<le> m" "0 \<le> k" "m < 10 ^ 2" "k < 10 ^ 2" "1 \<le> y" "0 \<le> y" "y < 10 ^ 4"
    using assms civil_date_nonneg[of d] civil_date_small[of d] d by (simp_all add: valid_date_def)
  moreover have "day_number (y, m, k) = d" using day_number_civil_date[of d] d by simp
  ultimately show ?thesis by (simp add: date_at_def isoformat_def d digits_at_pad)
qed

lemma microseconds_at_isoformat:
  assumes "0 \<le> us" "us < 1000000"
  shows "microseconds_at ((if us = 0 then [] else u ''.'' @ pad 6 us) @ u ''+00:00'') = Some (us, u ''+00:00'')"
  using assms by (simp add: microseconds_at_def u_def digits_at_pad)

lemma time_parts:
  fixes r :: int
  assumes "0 \<le> r" "r < day_us"
  shows "r div hour_us < 24" "r mod hour_us div minute_us < 60" "r mod minute_us div 1000000 < 60"
    and "r div hour_us * hour_us + r mod hour_us div minute_us * minute_us + r mod minute_us div 1000000 * 1000000 + r mod 1000000 = r"
proof -
  have dvd: "minute_us dvd hour_us" "1000000 dvd minute_us" by (simp_all add: minute_us_def hour_us_def)
  define b e where "b = r mod hour_us" and "e = b mod minute_us"
  have e: "r mod minute_us = e" "r mod 1000000 = e mod 1000000"
    using dvd dvd_trans[OF dvd(2,1)] by (simp_all add: e_def b_def mod_mod_cancel)
  have bounds: "0 \<le> b" "b < hour_us" "0 \<le> e" "e < minute_us" by (simp_all add: b_def e_def hour_us_def minute_us_def)
  have split: "r = hour_us * (r div hour_us) + b" "b = minute_us * (b div minute_us) + e"
    "e = 1000000 * (e div 1000000) + e mod 1000000"
    by (simp_all add: b_def e_def)
  show "r div hour_us * hour_us + r mod hour_us div minute_us * minute_us + r mod minute_us div 1000000 * 1000000 + r mod 1000000 = r"
    using split unfolding e b_def[symmetric] by (simp add: mult.commute)
  show "r div hour_us < 24" using split(1) bounds assms unfolding hour_us_def day_us_def by linarith
  show "r mod hour_us div minute_us < 60"
    using split(2) bounds unfolding b_def[symmetric] hour_us_def minute_us_def by linarith
  show "r mod minute_us div 1000000 < 60"
    using split(3) bounds pos_mod_sign[of 1000000 e] unfolding e minute_us_def by linarith
qed

lemma datetime_fromisoformat_isoformat:
  assumes "valid_date (date_of t)"
  shows "datetime_fromisoformat (datetime_isoformat t) = Some t"
proof -
  define r where "r = t mod day_us"
  have r: "0 \<le> r" "r < day_us" by (simp_all add: r_def day_us_def)
  note parts = time_parts[OF r]
  have nonneg: "0 \<le> r div hour_us" "0 \<le> r mod hour_us div minute_us" "0 \<le> r mod minute_us div 1000000"
    using r by (simp_all add: hour_us_def minute_us_def pos_imp_zdiv_nonneg_iff)
  have iso: "datetime_isoformat t = isoformat (date_of t) @ 84 # pad 2 (r div hour_us) @ 58 # pad 2 (r mod hour_us div minute_us)
      @ 58 # pad 2 (r mod minute_us div 1000000)
      @ (if r mod 1000000 = 0 then [] else u ''.'' @ pad 6 (r mod 1000000)) @ u ''+00:00''"
    by (simp add: datetime_isoformat_def Let_def r_def u_def)
  have "date_start (date_of t) + r = t" by (simp add: date_start_def date_of_def r_def)
  then show ?thesis
    unfolding iso datetime_fromisoformat_def
    using parts nonneg by (simp add: date_at_isoformat[OF assms] digits_at_pad microseconds_at_isoformat del: append_assoc) 
qed


lemma pad_ascii: "0 \<le> i \<Longrightarrow> c \<in> set (pad n i) \<Longrightarrow> c < 128"
  using str_of_nat_digits(1)[of "nat i"] by (force simp: pad_def str_of_int_def Let_def)

lemma datetime_isoformat_ascii:
  assumes "valid_date (date_of t)" "c \<in> set (datetime_isoformat t)"
  shows "c < 128"
proof -
  obtain y m k where d: "civil_date (date_of t) = (y, m, k)" by (metis prod_cases3)
  have "0 \<le> y" "0 \<le> m" "0 \<le> k"
    using assms(1) civil_date_nonneg[of "date_of t"] d by (simp_all add: valid_date_def)
  then have day: "c \<in> set (isoformat (date_of t)) \<Longrightarrow> c < 128"
    using pad_ascii[of y c 4] pad_ascii[of m c 2] pad_ascii[of k c 2] by (auto simp: isoformat_def d)
  define r where "r = t mod day_us"
  have "0 \<le> r div hour_us" "0 \<le> r mod hour_us div minute_us" "0 \<le> r mod minute_us div 1000000" "0 \<le> r mod 1000000"
    by (simp_all add: r_def day_us_def hour_us_def minute_us_def pos_imp_zdiv_nonneg_iff)
  note times = this[THEN pad_ascii]
  show ?thesis
    using assms(2) day times[of c] unfolding datetime_isoformat_def Let_def r_def[symmetric]
    by (auto simp: u_def split: if_splits)
qed

end
