(* ===== verification/Json.thy ===== *)
theory Json
  imports Timestamp_Parsing Text_Formats
begin

text \<open>
  Python's \<open>json\<close> as the records of the cache operations use it: \<open>json.dumps\<close> with the separators
  \<open>","\<close> and \<open>":"\<close>, and \<open>json.loads\<close>.  Numbers with a fraction or an exponent, which no record holds, are
  not read.  What is dumped is loaded again.
\<close>

section \<open>Writing\<close>

datatype json =
    JNull
  | JBool bool
  | JInt int
  | JString pystr
  | JArray "json list"
  | JObject "(pystr \<times> json) list"

definition hex_char :: "nat \<Rightarrow> nat" where
  "hex_char n = (if n < 10 then 48 + n else 87 + n)"

definition hex4 :: "nat \<Rightarrow> pystr" where
  "hex4 n = [hex_char (n div 4096), hex_char (n div 256 mod 16), hex_char (n div 16 mod 16), hex_char (n mod 16)]"

text \<open>The escapes of \<open>ensure_ascii\<close>: short ones, code units, and a pair of surrogates beyond the first plane.\<close>

definition short_escapes :: "(nat \<times> nat) list" where
  "short_escapes = [(92, 92), (34, 34), (8, 98), (12, 102), (10, 110), (13, 114), (9, 116)]"

definition escape_char :: "nat \<Rightarrow> pystr" where
  "escape_char c =
     (case map_of short_escapes c of
        Some e \<Rightarrow> [92, e]
      | None \<Rightarrow>
          if 32 \<le> c \<and> c \<le> 126 then [c]
          else if c < 65536 then 92 # 117 # hex4 c
          else 92 # 117 # hex4 (55296 + (c - 65536) div 1024) @ 92 # 117 # hex4 (56320 + (c - 65536) mod 1024))"

definition encode_string :: "pystr \<Rightarrow> pystr" where
  "encode_string s = 34 # concat (map escape_char s) @ [34]"

fun dumps :: "json \<Rightarrow> pystr" where
  "dumps JNull = u ''null''"
| "dumps (JBool b) = (if b then u ''true'' else u ''false'')"
| "dumps (JInt i) = str_of_int i"
| "dumps (JString s) = encode_string s"
| "dumps (JArray vs) = 91 # join [44] (map dumps vs) @ [93]"
| "dumps (JObject kvs) = 123 # join [44] (map (\<lambda>(k, v). encode_string k @ 58 # dumps v) kvs) @ [125]"

section \<open>Reading\<close>

definition skip_ws :: "pystr \<Rightarrow> pystr" where
  "skip_ws s = dropWhile (\<lambda>c. c \<in> {32, 9, 10, 13}) s"

definition hex_digit_value :: "nat \<Rightarrow> nat option" where
  "hex_digit_value c =
     (if 48 \<le> c \<and> c \<le> 57 then Some (c - 48)
      else if 97 \<le> c \<and> c \<le> 102 then Some (c - 87)
      else if 65 \<le> c \<and> c \<le> 70 then Some (c - 55) else None)"

fun hex4_at :: "pystr \<Rightarrow> (nat \<times> pystr) option" where
  "hex4_at (a # b # c # d # r) =
     Option.bind (hex_digit_value a) (\<lambda>x. Option.bind (hex_digit_value b) (\<lambda>y.
     Option.bind (hex_digit_value c) (\<lambda>z. Option.bind (hex_digit_value d) (\<lambda>w.
     Some (x * 4096 + y * 256 + z * 16 + w, r)))))"
| "hex4_at _ = None"

text \<open>After \<open>\u\<close>: four digits, and a second escape when the first is the first half of a pair.\<close>

definition unicode_at :: "pystr \<Rightarrow> (nat \<times> pystr) option" where
  "unicode_at s =
     Option.bind (hex4_at s) (\<lambda>(hi, r).
     if 55296 \<le> hi \<and> hi \<le> 56319 \<and> starts_with [92, 117] r
     then Option.bind (hex4_at (drop 2 r)) (\<lambda>(lo, r').
          if 56320 \<le> lo \<and> lo \<le> 57343 then Some (65536 + (hi - 55296) * 1024 + (lo - 56320), r') else Some (hi, r))
     else Some (hi, r))"

definition short_unescape :: "nat \<Rightarrow> nat option" where
  "short_unescape e = (if e = 47 then Some 47 else map_of (map prod.swap short_escapes) e)"

text \<open>One character of a string, and what follows it.\<close>

fun next_char :: "pystr \<Rightarrow> (nat \<times> pystr) option" where
  "next_char [] = None"
| "next_char (c # r) =
     (if c = 92 then
        (case r of
           [] \<Rightarrow> None
         | e # r' \<Rightarrow> if e = 117 then unicode_at r' else map_option (\<lambda>ch. (ch, r')) (short_unescape e))
      else if c < 32 then None else Some (c, r))"

lemma hex4_at_shorter: "hex4_at s = Some (n, r) \<Longrightarrow> length r < length s"
  by (induction s rule: hex4_at.induct) (auto split: Option.bind_splits)

lemma unicode_at_shorter: "unicode_at s = Some (c, r) \<Longrightarrow> length r < length s"
  by (auto simp: unicode_at_def dest!: hex4_at_shorter split: Option.bind_splits if_splits)

lemma next_char_shorter: "next_char s = Some (c, r) \<Longrightarrow> length r < length s"
  by (cases s) (auto dest: unicode_at_shorter split: if_splits list.splits)

function scan_string :: "pystr \<Rightarrow> (pystr \<times> pystr) option" where
  "scan_string s =
     (case s of
        [] \<Rightarrow> None
      | c # r \<Rightarrow>
          if c = 34 then Some ([], r)
          else (case next_char s of
                  None \<Rightarrow> None
                | Some (ch, r') \<Rightarrow> map_option (\<lambda>(t, r''). (ch # t, r'')) (scan_string r')))"
  by pat_completeness auto
termination
  by (relation "measure length") (auto dest: next_char_shorter simp del: next_char.simps)

declare scan_string.simps [simp del]

definition scan_nat :: "pystr \<Rightarrow> (nat \<times> pystr) option" where
  "scan_nat s =
     (let ds = takeWhile (\<lambda>c. 48 \<le> c \<and> c \<le> 57) s; n = (if starts_with [48] s then 1 else length ds); r = drop n s in
      if ds = [] \<or> starts_with [46] r \<or> starts_with [101] r \<or> starts_with [69] r then None
      else Some (digits_value (take n s), r))"

definition scan_int :: "pystr \<Rightarrow> (int \<times> pystr) option" where
  "scan_int s =
     (case expect 45 s of
        None \<Rightarrow> map_option (\<lambda>(n, r). (int n, r)) (scan_nat s)
      | Some s' \<Rightarrow> map_option (\<lambda>(n, r). (- int n, r)) (scan_nat s'))"

definition dict_of_pairs :: "(pystr \<times> json) list \<Rightarrow> (pystr \<times> json) list" where
  "dict_of_pairs kvs = fold (\<lambda>(k, v). dict_set k v) kvs []"

text \<open>The scanner, with the number of characters as a bound on its depth.\<close>

fun scan_value :: "nat \<Rightarrow> pystr \<Rightarrow> (json \<times> pystr) option"
  and scan_elements :: "nat \<Rightarrow> pystr \<Rightarrow> (json list \<times> pystr) option"
  and scan_members :: "nat \<Rightarrow> pystr \<Rightarrow> ((pystr \<times> json) list \<times> pystr) option" where
  "scan_value 0 s = None"
| "scan_value (Suc n) s =
     (case s of
        [] \<Rightarrow> None
      | c # r \<Rightarrow>
          if c = 34 then map_option (\<lambda>(t, r'). (JString t, r')) (scan_string r)
          else if c = 123 then
            (case expect 125 (skip_ws r) of
               Some r' \<Rightarrow> Some (JObject [], r')
             | None \<Rightarrow> map_option (\<lambda>(kvs, r'). (JObject (dict_of_pairs kvs), r')) (scan_members n (skip_ws r)))
          else if c = 91 then
            (case expect 93 (skip_ws r) of
               Some r' \<Rightarrow> Some (JArray [], r')
             | None \<Rightarrow> map_option (\<lambda>(vs, r'). (JArray vs, r')) (scan_elements n (skip_ws r)))
          else if starts_with (u ''null'') s then Some (JNull, drop 4 s)
          else if starts_with (u ''true'') s then Some (JBool True, drop 4 s)
          else if starts_with (u ''false'') s then Some (JBool False, drop 5 s)
          else map_option (\<lambda>(i, r'). (JInt i, r')) (scan_int s))"
| "scan_elements 0 s = None"
| "scan_elements (Suc n) s =
     Option.bind (scan_value n s) (\<lambda>(v, r).
     case expect 93 (skip_ws r) of
       Some r' \<Rightarrow> Some ([v], r')
     | None \<Rightarrow>
         Option.bind (expect 44 (skip_ws r)) (\<lambda>r'.
         map_option (\<lambda>(vs, r''). (v # vs, r'')) (scan_elements n (skip_ws r'))))"
| "scan_members 0 s = None"
| "scan_members (Suc n) s =
     Option.bind (expect 34 s) (\<lambda>r.
     Option.bind (scan_string r) (\<lambda>(k, r1).
     Option.bind (expect 58 (skip_ws r1)) (\<lambda>r2.
     Option.bind (scan_value n (skip_ws r2)) (\<lambda>(v, r3).
     case expect 125 (skip_ws r3) of
       Some r' \<Rightarrow> Some ([(k, v)], r')
     | None \<Rightarrow>
         Option.bind (expect 44 (skip_ws r3)) (\<lambda>r'.
         map_option (\<lambda>(kvs, r''). ((k, v) # kvs, r'')) (scan_members n (skip_ws r')))))))"

definition loads :: "pystr \<Rightarrow> json option" where
  "loads s =
     Option.bind (scan_value (Suc (length s)) (skip_ws s)) (\<lambda>(v, r). if skip_ws r = [] then Some v else None)"

section \<open>Strings\<close>

lemma hex_digit_value_char: "n < 16 \<Longrightarrow> hex_digit_value (hex_char n) = Some n"
  by (simp add: hex_digit_value_def hex_char_def)

lemma hex4_at_hex4:
  assumes "n < 65536"
  shows "hex4_at (hex4 n @ r) = Some (n, r)"
proof -
  have "n = 16 * (n div 16) + n mod 16" by simp
  moreover have "n div 16 = 16 * (n div 256) + n div 16 mod 16" using mult_div_mod_eq[of 16 "n div 16"] by (simp add: div_mult2_eq[symmetric])
  moreover have "n div 256 = 16 * (n div 4096) + n div 256 mod 16" using mult_div_mod_eq[of 16 "n div 256"] by (simp add: div_mult2_eq[symmetric])
  ultimately have "n div 4096 * 4096 + n div 256 mod 16 * 256 + n div 16 mod 16 * 16 + n mod 16 = n" by linarith
  moreover have "n div 4096 < 16" using assms by (simp add: less_mult_imp_div_less)
  ultimately show ?thesis by (simp add: hex4_def hex_digit_value_char)
qed

lemma short_escapes_found: "map_of short_escapes c = Some e \<Longrightarrow> c \<in> {92, 34, 8, 12, 10, 13, 9}"
  by (auto simp: short_escapes_def split: if_splits)

lemma next_char_escape:
  assumes "is_scalar c"
  shows "next_char (escape_char c @ r) = Some (c, r)"
proof (cases "map_of short_escapes c")
  case (Some e)
  then show ?thesis
    using short_escapes_found[OF Some] by (auto simp: escape_char_def short_escapes_def short_unescape_def)
next
  case None
  then have c: "c \<noteq> 92" "c \<noteq> 34" by (auto simp: short_escapes_def)
  consider "32 \<le> c \<and> c \<le> 126" | "\<not> (32 \<le> c \<and> c \<le> 126)" "c < 65536" | "65536 \<le> c" by linarith
  then show ?thesis
  proof cases
    case 1
    then show ?thesis using None c by (simp add: escape_char_def)
  next
    case 2
    then have "\<not> (55296 \<le> c \<and> c \<le> 56319)" using assms by (auto simp: is_scalar_def)
    then show ?thesis using None 2 c hex4_at_hex4[OF 2(2)] by (auto simp: escape_char_def unicode_at_def)
  next
    case 3
    define v where "v = c - 65536"
    have v: "v div 1024 < 1024" "c = 65536 + v" using assms 3 by (simp_all add: v_def is_scalar_def less_mult_imp_div_less)
    have esc: "escape_char c = 92 # 117 # hex4 (55296 + v div 1024) @ 92 # 117 # hex4 (56320 + v mod 1024)"
      using None 3 by (simp add: escape_char_def v_def)
    have "v div 1024 * 1024 + v mod 1024 = v" by simp
    moreover have "hex4_at (hex4 (55296 + v div 1024) @ q) = Some (55296 + v div 1024, q)" for q
      using v(1) by (intro hex4_at_hex4) simp
    moreover have "hex4_at (hex4 (56320 + v mod 1024) @ q) = Some (56320 + v mod 1024, q)" for q
    proof (rule hex4_at_hex4)
      have "v mod 1024 < 1024" by simp
      then show "56320 + v mod 1024 < 65536" by linarith
    qed
    moreover have "56320 + v mod 1024 \<le> 57343" "55296 + v div 1024 \<le> 56319"
      using v(1) mod_less_divisor[of 1024 v] by linarith+
    ultimately show ?thesis unfolding esc using v(2) by (simp add: unicode_at_def)
  qed
qed

lemma escape_char_head: "\<exists>x y. escape_char c = x # y \<and> x \<noteq> 34"
proof (cases "map_of short_escapes c")
  case None
  then have "c \<noteq> 34" by (auto simp: short_escapes_def)
  then show ?thesis using None by (simp add: escape_char_def)
qed (simp add: escape_char_def)

lemma scan_string_step:
  assumes "is_scalar c"
  shows "scan_string (escape_char c @ r) = map_option (\<lambda>(t, r'). (c # t, r')) (scan_string r)"
proof -
  obtain x y where e: "escape_char c = x # y" "x \<noteq> 34" using escape_char_head by blast
  then show ?thesis
    using next_char_escape[OF assms, of r] by (simp add: scan_string.simps[of "x # y @ r"] del: next_char.simps)
qed

lemma scan_string_encode:
  "\<forall>c \<in> set s. is_scalar c \<Longrightarrow> scan_string (concat (map escape_char s) @ 34 # r) = Some (s, r)"
  by (induction s) (simp_all add: scan_string.simps[of "34 # r"] scan_string_step)

section \<open>Numbers\<close>

lemma str_of_nat_leading: "starts_with [48] (str_of_nat n @ r) \<longleftrightarrow> n = 0"
proof (induction n arbitrary: r rule: str_of_nat.induct)
  case (1 n)
  then show ?case by (cases "n < 10") (auto simp: str_of_nat.simps[of n])
qed

text \<open>What may follow a value.\<close>

definition value_end :: "pystr \<Rightarrow> bool" where
  "value_end r \<longleftrightarrow> r = [] \<or> hd r \<in> {44, 93, 125}"

lemma scan_nat_str:
  assumes "value_end r"
  shows "scan_nat (str_of_nat n @ r) = Some (n, r)"
proof -
  have digits: "takeWhile (\<lambda>c. 48 \<le> c \<and> c \<le> 57) (str_of_nat n @ r) = str_of_nat n"
    using str_of_nat_digits(1)[of n] assms by (cases r) (auto simp: value_end_def subset_iff takeWhile_append2)
  have "length (str_of_nat 0) = 1" by (simp add: str_of_nat.simps[of 0])
  then have n: "(if starts_with [48] (str_of_nat n @ r) then 1 else length (str_of_nat n)) = length (str_of_nat n)"
    unfolding str_of_nat_leading by simp
  have "\<not> starts_with [46] r" "\<not> starts_with [101] r" "\<not> starts_with [69] r"
    using assms by (cases r; auto simp: value_end_def)+
  then show ?thesis
    unfolding scan_nat_def digits Let_def n by (simp add: str_of_nat_digits(2) digits_value_str)
qed

lemma scan_int_str:
  assumes "value_end r"
  shows "scan_int (str_of_int i @ r) = Some (i, r)"
proof -
  have "expect 45 (str_of_nat n @ r) = None" for n
    using str_of_nat_digits[of n] by (cases "str_of_nat n") (auto simp: expect_def)
  then show ?thesis by (simp add: scan_int_def str_of_int_def scan_nat_str[OF assms])
qed

section \<open>Values\<close>

text \<open>Texts of Unicode characters, and objects without a repeated key.\<close>

fun json_ok :: "json \<Rightarrow> bool" where
  "json_ok (JString s) = (\<forall>c \<in> set s. is_scalar c)"
| "json_ok (JArray vs) = (\<forall>v \<in> set vs. json_ok v)"
| "json_ok (JObject kvs) = (distinct (map fst kvs) \<and> (\<forall>(k, v) \<in> set kvs. (\<forall>c \<in> set k. is_scalar c) \<and> json_ok v))"
| "json_ok _ = True"

definition reads :: "json \<Rightarrow> bool" where
  "reads v \<longleftrightarrow> (\<forall>n r. length (dumps v) \<le> n \<longrightarrow> value_end r \<longrightarrow> scan_value n (dumps v @ r) = Some (v, r))"

lemma dumps_head: "\<exists>x y. dumps v = x # y \<and> x \<notin> {32, 9, 10, 13, 93, 125}"
proof (cases v)
  case (JInt i)
  have "\<exists>x y. str_of_nat n = x # y \<and> 48 \<le> x \<and> x \<le> 57" for n
    using str_of_nat_digits[of n] by (cases "str_of_nat n") auto
  then show ?thesis unfolding JInt by (cases "i < 0") (force simp: str_of_int_def)+
qed (auto simp: u_def encode_string_def)

lemma skip_ws_Cons [simp]: "x \<notin> {32, 9, 10, 13} \<Longrightarrow> skip_ws (x # y) = x # y"
  by (simp add: skip_ws_def)

lemma skip_ws_dumps [simp]: "skip_ws (dumps v @ r) = dumps v @ r"
  using dumps_head[of v] by (auto simp: skip_ws_def)

lemma join_Cons: "ws \<noteq> [] \<Longrightarrow> join sep (w # ws) = w @ sep @ join sep ws"
  by (cases ws) simp_all

lemma scan_elements_dumps:
  assumes "\<forall>v \<in> set vs. reads v" "vs \<noteq> []" "length (join [44] (map dumps vs)) < n"
  shows "scan_elements n (join [44] (map dumps vs) @ 93 # r) = Some (vs, r)"
  using assms(2,1,3)
proof (induction vs arbitrary: n rule: list_nonempty_induct)
  case (single v)
  then obtain m where n: "n = Suc m" by (cases n) auto
  have "scan_value m (dumps v @ 93 # r) = Some (v, 93 # r)"
    using single by (simp add: reads_def n value_end_def)
  then show ?case by (simp add: n)
next
  case (cons v vs)
  then obtain m where n: "n = Suc m" by (cases n) auto
  let ?rest = "join [44] (map dumps vs) @ 93 # r"
  have whole: "join [44] (map dumps (v # vs)) @ 93 # r = dumps v @ 44 # ?rest" using cons.hyps by (simp add: join_Cons)
  have "scan_value m (dumps v @ 44 # ?rest) = Some (v, 44 # ?rest)"
    using cons by (simp add: reads_def n value_end_def join_Cons)
  moreover have "skip_ws ?rest = ?rest" using cons.hyps by (cases vs; cases "tl vs") (simp_all add: join_Cons)
  moreover have "scan_elements m ?rest = Some (vs, r)"
    using cons.IH[of m] cons.prems cons.hyps dumps_head[of v] by (auto simp: n join_Cons)
  ultimately show ?case unfolding whole by (simp add: n)
qed

lemma scan_members_dumps:
  assumes "\<forall>(k, v) \<in> set kvs. (\<forall>c \<in> set k. is_scalar c) \<and> reads v" "kvs \<noteq> []"
    and "length (join [44] (map (\<lambda>(k, v). encode_string k @ 58 # dumps v) kvs)) < n"
  shows "scan_members n (join [44] (map (\<lambda>(k, v). encode_string k @ 58 # dumps v) kvs) @ 125 # r) = Some (kvs, r)"
  using assms(2,1,3)
proof (induction kvs arbitrary: n rule: list_nonempty_induct)
  case (single kv)
  obtain k v where kv: "kv = (k, v)" by fastforce
  obtain m where n: "n = Suc m" using single by (cases n) auto
  have "scan_value m (dumps v @ 125 # r) = Some (v, 125 # r)"
    using single by (simp add: reads_def n kv value_end_def)
  then show ?case using single by (simp add: n kv encode_string_def scan_string_encode)
next
  case (cons kv kvs)
  obtain k v where kv: "kv = (k, v)" by fastforce
  obtain m where n: "n = Suc m" using cons by (cases n) auto
  let ?rest = "join [44] (map (\<lambda>(k, v). encode_string k @ 58 # dumps v) kvs) @ 125 # r"
  have whole: "join [44] (map (\<lambda>(k, v). encode_string k @ 58 # dumps v) (kv # kvs)) @ 125 # r
      = 34 # concat (map escape_char k) @ 34 # 58 # dumps v @ 44 # ?rest"
    using cons.hyps by (simp add: join_Cons kv encode_string_def)
  have "scan_value m (dumps v @ 44 # ?rest) = Some (v, 44 # ?rest)"
    using cons by (simp add: reads_def n kv value_end_def join_Cons)
  moreover have "skip_ws ?rest = ?rest"
    using cons.hyps by (cases kvs; cases "tl kvs") (auto simp: join_Cons encode_string_def)
  moreover have "scan_members m ?rest = Some (kvs, r)"
    using cons.IH[of m] cons.prems cons.hyps by (auto simp: n kv join_Cons encode_string_def)
  moreover have "scan_string (concat (map escape_char k) @ 34 # q) = Some (k, q)" for q
    using cons.prems(1) by (intro scan_string_encode) (simp add: kv)
  ultimately show ?case unfolding whole by (simp add: n kv)
qed

lemma dict_set_new: "k \<notin> fst ` set d \<Longrightarrow> dict_set k v d = d @ [(k, v)]"
  by (induction d) auto

lemma dict_of_pairs_distinct:
  assumes "distinct (map fst kvs)"
  shows "dict_of_pairs kvs = kvs"
proof -
  have "distinct (map fst (acc @ kvs)) \<Longrightarrow> fold (\<lambda>(k, v). dict_set k v) kvs acc = acc @ kvs" for acc
    by (induction kvs arbitrary: acc) (auto simp: dict_set_new)
  from this[of "[]"] show ?thesis using assms by (simp add: dict_of_pairs_def)
qed

lemma scan_value_dumps: "json_ok v \<Longrightarrow> reads v"
proof (induction v)
  case JNull
  show ?case unfolding reads_def
  proof (intro allI impI)
    fix n r assume "length (dumps JNull) \<le> n"
    then obtain m where "n = Suc m" by (cases n) (auto simp: u_def)
    then show "scan_value n (dumps JNull @ r) = Some (JNull, r)" by (simp add: u_def)
  qed
next
  case (JBool b)
  show ?case unfolding reads_def
  proof (intro allI impI)
    fix n r assume "length (dumps (JBool b)) \<le> n"
    then obtain m where "n = Suc m" by (cases n) (auto simp: u_def split: if_splits)
    then show "scan_value n (dumps (JBool b) @ r) = Some (JBool b, r)" by (cases b) (simp_all add: u_def)
  qed
next
  case (JInt i)
  show ?case unfolding reads_def
  proof (intro allI impI)
    fix n r assume "length (dumps (JInt i)) \<le> n" and r: "value_end r"
    then obtain m where n: "n = Suc m" using dumps_head[of "JInt i"] by (cases n) auto
    have digits: "\<exists>x y. str_of_nat k = x # y \<and> 48 \<le> x \<and> x \<le> 57" for k
      using str_of_nat_digits[of k] by (cases "str_of_nat k") auto
    then obtain x y where "str_of_int i = x # y" "x = 45 \<or> 48 \<le> x \<and> x \<le> 57"
      by (cases "i < 0") (force simp: str_of_int_def)+
    then show "scan_value n (dumps (JInt i) @ r) = Some (JInt i, r)"
      using scan_int_str[OF r, of i] by (auto simp: n u_def)
  qed
next
  case (JString s)
  show ?case unfolding reads_def
  proof (intro allI impI)
    fix n r assume "length (dumps (JString s)) \<le> n"
    then obtain m where n: "n = Suc m" by (cases n) (auto simp: encode_string_def)
    show "scan_value n (dumps (JString s) @ r) = Some (JString s, r)"
      using scan_string_encode[of s r] JString by (simp add: n encode_string_def)
  qed
next
  case (JArray vs)
  show ?case unfolding reads_def
  proof (intro allI impI)
    fix n r assume len: "length (dumps (JArray vs)) \<le> n"
    then obtain m where n: "n = Suc m" by (cases n) auto
    show "scan_value n (dumps (JArray vs) @ r) = Some (JArray vs, r)"
    proof (cases "vs = []")
      case False
      then obtain v ws where vs: "vs = v # ws" by (cases vs) auto
      have "scan_elements m (join [44] (map dumps vs) @ 93 # r) = Some (vs, r)"
        using JArray False len by (intro scan_elements_dumps) (auto simp: n)
      moreover obtain x y where "join [44] (map dumps vs) = x # y" "x \<notin> {32, 9, 10, 13, 93, 125}"
        using dumps_head[of v] by (cases ws) (auto simp: vs)
      ultimately show ?thesis by (simp add: n)
    qed (simp add: n)
  qed
next
  case (JObject kvs)
  show ?case unfolding reads_def
  proof (intro allI impI)
    fix n r assume len: "length (dumps (JObject kvs)) \<le> n"
    then obtain m where n: "n = Suc m" by (cases n) auto
    show "scan_value n (dumps (JObject kvs) @ r) = Some (JObject kvs, r)"
    proof (cases "kvs = []")
      case False
      then obtain k v ws where kvs: "kvs = (k, v) # ws" by (cases kvs) auto
      let ?t = "join [44] (map (\<lambda>(k, v). encode_string k @ 58 # dumps v) kvs)"
      have "scan_members m (?t @ 125 # r) = Some (kvs, r)"
        using JObject False len by (intro scan_members_dumps) (fastforce simp: n)+
      moreover obtain y where "?t = 34 # y" by (cases ws) (auto simp: kvs encode_string_def)
      ultimately show ?thesis using JObject.prems by (simp add: n dict_of_pairs_distinct)
    qed (simp add: n)
  qed
qed

lemma loads_dumps:
  assumes "json_ok v"
  shows "loads (dumps v) = Some v"
proof -
  have "scan_value (Suc (length (dumps v))) (dumps v @ []) = Some (v, [])"
    by (rule scan_value_dumps[OF assms, unfolded reads_def, rule_format]) (simp_all add: value_end_def)
  then show ?thesis using skip_ws_dumps[of v "[]"] by (simp add: loads_def skip_ws_def del: scan_value.simps)
qed

section \<open>The text is ASCII\<close>

lemma hex4_ascii: "n < 65536 \<Longrightarrow> x \<in> set (hex4 n) \<Longrightarrow> x < 128"
  using less_mult_imp_div_less[of n 16 4096] by (auto simp: hex4_def hex_char_def)

lemma escape_char_ascii:
  assumes "is_scalar c" "x \<in> set (escape_char c)"
  shows "x < 128"
proof (cases "map_of short_escapes c")
  case (Some e)
  then show ?thesis using assms(2) by (auto simp: escape_char_def short_escapes_def split: if_splits)
next
  case None
  have "c - 65536 < 1024 * 1024" using assms(1) by (auto simp: is_scalar_def)
  then have "(c - 65536) div 1024 < 1024" by (simp add: less_mult_imp_div_less)
  moreover have "(c - 65536) mod 1024 < 1024" by simp
  ultimately have units: "55296 + (c - 65536) div 1024 < 65536" "56320 + (c - 65536) mod 1024 < 65536" by linarith+
  show ?thesis
    using assms(2) None hex4_ascii[OF units(1)] hex4_ascii[OF units(2)] hex4_ascii[of c]
    by (auto simp: escape_char_def split: if_splits)
qed

lemma encode_string_ascii: "\<forall>c \<in> set s. is_scalar c \<Longrightarrow> x \<in> set (encode_string s) \<Longrightarrow> x < 128"
  by (auto simp: encode_string_def dest: escape_char_ascii)

lemma join_chars: "set (join sep ws) \<subseteq> set sep \<union> (\<Union>w \<in> set ws. set w)"
  by (induction sep ws rule: join.induct) auto

lemma dumps_ascii: "json_ok v \<Longrightarrow> x \<in> set (dumps v) \<Longrightarrow> x < 128"
proof (induction v)
  case (JInt i)
  then show ?case
    using str_of_nat_digits(1)[of "nat i"] str_of_nat_digits(1)[of "nat (- i)"]
    by (force simp: str_of_int_def split: if_splits)
next
  case (JString s)
  then show ?case using encode_string_ascii by simp
next
  case (JArray vs)
  then show ?case using join_chars[of "[44]" "map dumps vs"] by fastforce
next
  case (JObject kvs)
  have fields: "x < 128" if kv: "(k, v) \<in> set kvs" and x: "x \<in> set (encode_string k @ 58 # dumps v)" for k v
  proof -
    have ok: "\<forall>c \<in> set k. is_scalar c" "json_ok v" using JObject.prems(1) kv by auto
    have "x < 128" if "x \<in> set (dumps v)" by (rule JObject.IH[OF kv _ ok(2) that]) simp
    then show ?thesis using encode_string_ascii[OF ok(1)] x by auto
  qed
  have "x \<in> {123, 125, 44} \<union> (\<Union>w \<in> set (map (\<lambda>(k, v). encode_string k @ 58 # dumps v) kvs). set w)"
    using JObject.prems(2) join_chars[of "[44]" "map (\<lambda>(k, v). encode_string k @ 58 # dumps v) kvs"] by auto
  then consider "x \<in> {123, 125, 44}" | k v where "(k, v) \<in> set kvs" "x \<in> set (encode_string k @ 58 # dumps v)" by auto
  then show ?case using fields by cases auto
qed (auto simp: u_def split: if_splits)

lemma decode_dumps:
  assumes "json_ok v"
  shows "Option.bind (utf8_decode (utf8_encode (dumps v))) loads = Some v"
proof -
  have "\<forall>c \<in> set (dumps v). is_scalar c" using dumps_ascii[OF assms] by (fastforce simp: is_scalar_def)
  then show ?thesis by (simp add: utf8_decode_encode loads_dumps[OF assms])
qed

end
