(* ===== verification/Cache_Tools.thy ===== *)
theory Cache_Tools
  imports Json Cache_Properties
begin

text \<open>
  The tools of the administration for the cache: \<open>core/cache_tools\<close>, the Valkey storages of
  \<open>infra/valkey/storages.py\<close>, the tasks of \<open>entrypoints/taskiq/cache_warm/tasks.py\<close> and the endpoints of
  \<open>entrypoints/litestar/api/admin_tools\<close>.  A manual warming is an operation that a request queues, a worker runs
  and the administration polls; its record is kept as JSON in a store of the framework.
\<close>

section \<open>Data\<close>

datatype warm_status = WARM_QUEUED | WARM_RUNNING | WARM_SUCCEEDED | WARM_FAILED

fun warm_status_value :: "warm_status \<Rightarrow> pystr" where
  "warm_status_value WARM_QUEUED = u ''queued''"
| "warm_status_value WARM_RUNNING = u ''running''"
| "warm_status_value WARM_SUCCEEDED = u ''succeeded''"
| "warm_status_value WARM_FAILED = u ''failed''"

definition warm_statuses_all :: "warm_status list" where
  "warm_statuses_all = [WARM_QUEUED, WARM_RUNNING, WARM_SUCCEEDED, WARM_FAILED]"

record warm_operation =
  wo_operation_id :: pystr
  wo_status :: warm_status
  wo_queued_at :: datetime
  wo_summary :: "warm_summary option"

record domain_status =
  dm_domain :: admin_domain
  dm_key_count :: int
  dm_minimum_remaining_ttl_seconds :: "int option"
  dm_non_expiring_key_count :: int

record tools_status =
  tt_enabled :: bool
  tt_configured_ttl_seconds :: int
  tt_scheduled_warm_interval_seconds :: int
  tt_domains :: "domain_status list"
  tt_last_manual_warm_operation :: "warm_operation option"

record tools_policy =
  tp_enabled :: bool
  tp_configured_ttl_seconds :: int
  tp_scheduled_warm_interval_seconds :: int
  tp_domains :: "admin_domain list"

definition provide_cache_tools_policy :: "bool \<Rightarrow> int \<Rightarrow> tools_policy" where
  "provide_cache_tools_policy use_cache interval =
     \<lparr>tp_enabled = use_cache, tp_configured_ttl_seconds = default_ttl_seconds,
      tp_scheduled_warm_interval_seconds = interval, tp_domains = [ADMIN_ARTICLES, ADMIN_MATRIX]\<rparr>"

section \<open>Records of operations\<close>

definition summary_payload :: "warm_summary \<Rightarrow> json" where
  "summary_payload w =
     JObject [(u ''attempted'', JInt (wu_attempted w)), (u ''written'', JInt (wu_written w)), (u ''skipped'', JInt (wu_skipped w))]"

definition operation_payload :: "warm_operation \<Rightarrow> json" where
  "operation_payload op =
     JObject [(u ''operation_id'', JString (wo_operation_id op)),
       (u ''status'', JString (warm_status_value (wo_status op))),
       (u ''queued_at'', JString (datetime_isoformat (wo_queued_at op))),
       (u ''summary'', (case wo_summary op of None \<Rightarrow> JNull | Some w \<Rightarrow> summary_payload w))]"

definition serialize :: "warm_operation \<Rightarrow> nat list" where
  "serialize op = utf8_encode (dumps (operation_payload op))"

text \<open>
  \<open>payload[key]\<close>, and the field as the type that the payload declares.  The types are declared, not
  checked; the storage reads only what it wrote, so the branches for another type are never taken.
\<close>

definition payload_field :: "pystr \<Rightarrow> json \<Rightarrow> error + json" where
  "payload_field key payload =
     (case payload of
        JObject kvs \<Rightarrow> (case map_of kvs key of None \<Rightarrow> Inl KeyError | Some v \<Rightarrow> Inr v)
      | _ \<Rightarrow> Inl TypeError)"

definition string_field :: "pystr \<Rightarrow> json \<Rightarrow> error + pystr" where
  "string_field key payload =
     and_then (payload_field key payload) (\<lambda>v. case v of JString s \<Rightarrow> Inr s | _ \<Rightarrow> Inl TypeError)"

definition int_field :: "pystr \<Rightarrow> json \<Rightarrow> error + int" where
  "int_field key payload =
     and_then (payload_field key payload) (\<lambda>v. case v of JInt i \<Rightarrow> Inr i | _ \<Rightarrow> Inl TypeError)"

definition summary_of_payload :: "json \<Rightarrow> error + warm_summary option" where
  "summary_of_payload payload =
     (if payload = JNull then Inr None
      else
        and_then (int_field (u ''attempted'') payload) (\<lambda>attempted.
        and_then (int_field (u ''written'') payload) (\<lambda>written.
        and_then (int_field (u ''skipped'') payload) (\<lambda>skipped.
        Inr (Some \<lparr>wu_attempted = attempted, wu_written = written, wu_skipped = skipped\<rparr>)))))"

definition deserialize :: "nat list \<Rightarrow> error + warm_operation" where
  "deserialize value =
     and_then (require ValueError (Option.bind (utf8_decode value) loads)) (\<lambda>payload.
     and_then (payload_field (u ''summary'') payload) (\<lambda>summary_value.
     and_then (string_field (u ''operation_id'') payload) (\<lambda>operation_id.
     and_then (string_field (u ''status'') payload) (\<lambda>status_value.
     and_then (require ValueError (from_value warm_statuses_all warm_status_value status_value)) (\<lambda>status.
     and_then (string_field (u ''queued_at'') payload) (\<lambda>queued_text.
     and_then (require ValueError (datetime_fromisoformat queued_text)) (\<lambda>queued_at.
     and_then (summary_of_payload summary_value) (\<lambda>summary.
     Inr \<lparr>wo_operation_id = operation_id, wo_status = status, wo_queued_at = queued_at, wo_summary = summary\<rparr>))))))))"

section \<open>The storage of operations\<close>

definition latest_operation_key :: pystr where
  "latest_operation_key = u ''latest''"

definition operation_key :: "pystr \<Rightarrow> pystr" where
  "operation_key operation_id = u ''operation'' @ u '':'' @ operation_id"

definition storage_set :: "('os, nat list) store_ops \<Rightarrow> pystr \<Rightarrow> nat list \<Rightarrow> int option \<Rightarrow> (error, 'os, unit) action" where
  "storage_set ops key value expires_in = modify (so_set ops key value expires_in)"

definition storage_get :: "('os, nat list) store_ops \<Rightarrow> pystr \<Rightarrow> int option \<Rightarrow> (error, 'os, nat list option) action" where
  "storage_get ops key renew_for = (\<lambda>s. case so_get ops key renew_for s of (v, s') \<Rightarrow> (Inr v, s'))"

definition operation_create :: "('os, nat list) store_ops \<Rightarrow> int \<Rightarrow> warm_operation \<Rightarrow> (error, 'os, unit) action" where
  "operation_create ops expires_in op =
     bind (storage_set ops (operation_key (wo_operation_id op)) (serialize op) (Some expires_in)) (\<lambda>_.
     storage_set ops latest_operation_key (utf8_encode (wo_operation_id op)) (Some expires_in))"

definition operation_update :: "('os, nat list) store_ops \<Rightarrow> int \<Rightarrow> warm_operation \<Rightarrow> (error, 'os, unit) action" where
  "operation_update ops expires_in op =
     bind (storage_set ops (operation_key (wo_operation_id op)) (serialize op) (Some expires_in)) (\<lambda>_.
     bind (storage_get ops latest_operation_key (Some expires_in)) (\<lambda>_. ret ()))"

definition operation_get :: "('os, nat list) store_ops \<Rightarrow> pystr \<Rightarrow> (error, 'os, warm_operation option) action" where
  "operation_get ops operation_id =
     bind (storage_get ops (operation_key operation_id) None) (\<lambda>value.
     case value of
       None \<Rightarrow> ret None
     | Some v \<Rightarrow> bind (lift (deserialize v)) (\<lambda>op. ret (Some op)))"

definition operation_get_latest :: "('os, nat list) store_ops \<Rightarrow> (error, 'os, warm_operation option) action" where
  "operation_get_latest ops =
     bind (storage_get ops latest_operation_key None) (\<lambda>value.
     case value of
       None \<Rightarrow> ret None
     | Some v \<Rightarrow> bind (lift (require ValueError (utf8_decode v))) (operation_get ops))"

section \<open>The status of a domain\<close>

text \<open>
  The commands \<open>SCAN\<close> with a pattern and a count, and the \<open>TTL\<close> of several keys in a pipeline.
\<close>

record 'sv scan_ops =
  sc_scan :: "nat \<Rightarrow> pystr \<Rightarrow> int \<Rightarrow> 'sv \<Rightarrow> (nat \<times> pystr list) \<times> 'sv"
  sc_ttls :: "pystr list \<Rightarrow> 'sv \<Rightarrow> int list \<times> 'sv"

record ttl_counts =
  tc_key_count :: int
  tc_minimum :: "int option"
  tc_non_expiring :: int

definition count_ttl :: "int \<Rightarrow> ttl_counts \<Rightarrow> ttl_counts" where
  "count_ttl ttl_seconds acc =
     (if ttl_seconds = -2 then acc
      else
        let counted = acc\<lparr>tc_key_count := tc_key_count acc + 1\<rparr> in
        if ttl_seconds = -1 then counted\<lparr>tc_non_expiring := tc_non_expiring acc + 1\<rparr>
        else if (case tc_minimum acc of None \<Rightarrow> True | Some m \<Rightarrow> ttl_seconds < m)
        then counted\<lparr>tc_minimum := Some ttl_seconds\<rparr>
        else counted)"

text \<open>One turn of the loop: the keys that were not seen before are looked up and counted.\<close>

definition count_keys ::
  "'sv scan_ops \<Rightarrow> pystr list \<Rightarrow> pystr list \<Rightarrow> ttl_counts \<Rightarrow> 'sv \<Rightarrow> pystr list \<times> ttl_counts \<times> 'sv" where
  "count_keys ops keys seen acc s =
     (let new_keys = filter (\<lambda>k. k \<notin> set seen) keys in
      if new_keys = [] then (seen, acc, s)
      else (case sc_ttls ops new_keys s of (ttls, s') \<Rightarrow> (seen @ new_keys, fold count_ttl ttls acc, s')))"

partial_function (option) scan_loop ::
  "'sv scan_ops \<Rightarrow> pystr \<Rightarrow> int \<Rightarrow> nat \<Rightarrow> pystr list \<Rightarrow> ttl_counts \<Rightarrow> 'sv \<Rightarrow> (ttl_counts \<times> 'sv) option" where
  "scan_loop ops pattern batch cursor seen acc s =
     (case sc_scan ops cursor pattern batch s of ((cursor', keys), s') \<Rightarrow>
        (case count_keys ops keys seen acc s' of (seen', acc', s'') \<Rightarrow>
           if cursor' = 0 then Some (acc', s'')
           else scan_loop ops pattern batch cursor' seen' acc' s''))"

definition domain_namespace :: "admin_domain \<Rightarrow> pystr" where
  "domain_namespace domain = u ''LITESTAR'' @ u ''_'' @ admin_domain_value domain"

definition status_scan_batch_size :: int where
  "status_scan_batch_size = 200"

definition get_domain_status :: "'sv scan_ops \<Rightarrow> admin_domain \<Rightarrow> 'sv \<Rightarrow> (domain_status \<times> 'sv) option" where
  "get_domain_status ops domain s =
     map_option (\<lambda>(acc, s').
         (\<lparr>dm_domain = domain, dm_key_count = tc_key_count acc,
           dm_minimum_remaining_ttl_seconds = tc_minimum acc, dm_non_expiring_key_count = tc_non_expiring acc\<rparr>, s'))
       (scan_loop ops (domain_namespace domain @ u '':*'') status_scan_batch_size 0 []
         \<lparr>tc_key_count = 0, tc_minimum = None, tc_non_expiring = 0\<rparr> s)"

section \<open>Use cases\<close>

text \<open>The application with the store of the operations and the queue of the manual warm tasks.\<close>

record ('q, 'st, 'os) tools =
  ts_app :: "('q, 'st) app"
  ts_operations :: 'os
  ts_queue :: "pystr list"

definition on_operations :: "(error, 'os, 'a) action \<Rightarrow> (error, ('q, 'st, 'os) tools, 'a) action" where
  "on_operations m = (\<lambda>s. case m (ts_operations s) of (r, st) \<Rightarrow> (r, s\<lparr>ts_operations := st\<rparr>))"

definition on_app :: "(error, ('q, 'st) app, 'a) action \<Rightarrow> (error, ('q, 'st, 'os) tools, 'a) action" where
  "on_app m = (\<lambda>s. case m (ts_app s) of (r, a) \<Rightarrow> (r, s\<lparr>ts_app := a\<rparr>))"

fun gather_statuses :: "'sv scan_ops \<Rightarrow> admin_domain list \<Rightarrow> 'sv \<Rightarrow> (domain_status list \<times> 'sv) option" where
  "gather_statuses ops [] s = Some ([], s)"
| "gather_statuses ops (domain # domains) s =
     Option.bind (get_domain_status ops domain s) (\<lambda>(status, s').
     map_option (\<lambda>(statuses, s''). (status # statuses, s'')) (gather_statuses ops domains s'))"

definition disabled_status :: "admin_domain \<Rightarrow> domain_status" where
  "disabled_status domain =
     \<lparr>dm_domain = domain, dm_key_count = 0, dm_minimum_remaining_ttl_seconds = None, dm_non_expiring_key_count = 0\<rparr>"

text \<open>\<open>None\<close> is a scan that never ends.\<close>

definition get_status ::
  "'st stores scan_ops \<Rightarrow> ('os, nat list) store_ops \<Rightarrow> tools_policy \<Rightarrow> ('q, 'st, 'os) tools
    \<Rightarrow> ((error + tools_status) \<times> ('q, 'st, 'os) tools) option" where
  "get_status scans wops policy s =
     Option.bind
       (if tp_enabled policy then gather_statuses scans (tp_domains policy) (ap_cache (ts_app s))
        else Some (map disabled_status (tp_domains policy), ap_cache (ts_app s)))
       (\<lambda>(statuses, ss).
          Some (bind (on_operations (operation_get_latest wops)) (\<lambda>latest.
            ret \<lparr>tt_enabled = tp_enabled policy, tt_configured_ttl_seconds = tp_configured_ttl_seconds policy,
                 tt_scheduled_warm_interval_seconds = tp_scheduled_warm_interval_seconds policy,
                 tt_domains = statuses, tt_last_manual_warm_operation = latest\<rparr>)
            (s\<lparr>ts_app := (ts_app s)\<lparr>ap_cache := ss\<rparr>\<rparr>)))"

definition clear ::
  "('st, response) store_ops \<Rightarrow> 'st stores scan_ops \<Rightarrow> ('os, nat list) store_ops \<Rightarrow> tools_policy \<Rightarrow> ('q, 'st, 'os) tools
    \<Rightarrow> ((error + tools_status) \<times> ('q, 'st, 'os) tools) option" where
  "clear ops scans wops policy s =
     (if tp_enabled policy
      then (case on_app (on_cache (clear_domains ops (tp_domains policy))) s of
              (Inl e, s') \<Rightarrow> Some (Inl e, s')
            | (Inr _, s') \<Rightarrow> get_status scans wops policy s')
      else get_status scans wops policy s)"

text \<open>The broker takes a task (\<open>None\<close>) or raises.\<close>

type_synonym broker = "pystr \<Rightarrow> error option"

definition dispatch :: "broker \<Rightarrow> pystr \<Rightarrow> (error, ('q, 'st, 'os) tools, unit) action" where
  "dispatch broker operation_id =
     (case broker operation_id of
        Some e \<Rightarrow> raise e
      | None \<Rightarrow> modify (\<lambda>s. s\<lparr>ts_queue := ts_queue s @ [operation_id]\<rparr>))"

definition enqueue_manual_warm ::
  "('os, nat list) store_ops \<Rightarrow> int \<Rightarrow> broker \<Rightarrow> pystr \<Rightarrow> datetime \<Rightarrow> (error, ('q, 'st, 'os) tools, warm_operation) action" where
  "enqueue_manual_warm wops expires_in broker new_id current_datetime =
     (let operation = \<lparr>wo_operation_id = new_id, wo_status = WARM_QUEUED, wo_queued_at = current_datetime, wo_summary = None\<rparr> in
      bind (on_operations (operation_create wops expires_in operation)) (\<lambda>_.
      bind (attempt (dispatch broker (wo_operation_id operation))) (\<lambda>outcome.
      case outcome of
        Inl e \<Rightarrow>
          bind (on_operations (operation_update wops expires_in (operation\<lparr>wo_status := WARM_FAILED\<rparr>))) (\<lambda>_. raise e)
      | Inr _ \<Rightarrow> ret operation)))"

definition get_manual_warm_operation ::
  "('os, nat list) store_ops \<Rightarrow> pystr \<Rightarrow> (error, ('q, 'st, 'os) tools, warm_operation) action" where
  "get_manual_warm_operation wops operation_id =
     bind (on_operations (operation_get wops operation_id)) (\<lambda>operation.
     lift (require CacheWarmOperationNotFoundError operation))"

definition run_manual_warm ::
  "api \<Rightarrow> ('st, response) store_ops \<Rightarrow> warm_service \<Rightarrow> ('os, nat list) store_ops \<Rightarrow> int \<Rightarrow> pystr
    \<Rightarrow> (error, ('q, 'st, 'os) tools, warm_operation) action" where
  "run_manual_warm c ops sv wops expires_in operation_id =
     bind (on_operations (operation_get wops operation_id)) (\<lambda>found.
     bind (lift (require CacheWarmOperationNotFoundError found)) (\<lambda>operation.
     let running = operation\<lparr>wo_status := WARM_RUNNING, wo_summary := None\<rparr> in
     bind (on_operations (operation_update wops expires_in running)) (\<lambda>_.
     bind (attempt (on_app (warm_all c ops sv))) (\<lambda>outcome.
     case outcome of
       Inl e \<Rightarrow>
         bind (on_operations (operation_update wops expires_in (running\<lparr>wo_status := WARM_FAILED\<rparr>))) (\<lambda>_. raise e)
     | Inr summary \<Rightarrow>
         let succeeded = running\<lparr>wo_status := WARM_SUCCEEDED, wo_summary := Some summary\<rparr> in
         bind (on_operations (operation_update wops expires_in succeeded)) (\<lambda>_. ret succeeded)))))"

section \<open>Tasks and endpoints\<close>

definition summary_as_dict :: "warm_summary \<Rightarrow> (pystr \<times> int) list" where
  "summary_as_dict w =
     [(u ''attempted'', wu_attempted w), (u ''written'', wu_written w), (u ''skipped'', wu_skipped w)]"

definition cache_warm_all ::
  "api \<Rightarrow> ('st, response) store_ops \<Rightarrow> warm_service \<Rightarrow> (error, ('q, 'st) app, (pystr \<times> int) list) action" where
  "cache_warm_all c ops sv = bind (warm_all c ops sv) (\<lambda>w. ret (summary_as_dict w))"

definition cache_warm_domain ::
  "api \<Rightarrow> ('st, response) store_ops \<Rightarrow> warm_service \<Rightarrow> pystr \<Rightarrow> (error, ('q, 'st) app, (pystr \<times> int) list) action" where
  "cache_warm_domain c ops sv domain_value =
     bind (lift (require ValueError (from_value cache_domains_all cache_domain_value domain_value))) (\<lambda>domain.
     bind (warm_domain c ops sv domain) (\<lambda>w. ret (summary_as_dict w)))"

definition manual_cache_warm ::
  "api \<Rightarrow> ('st, response) store_ops \<Rightarrow> warm_service \<Rightarrow> ('os, nat list) store_ops \<Rightarrow> int \<Rightarrow> pystr
    \<Rightarrow> (error, ('q, 'st, 'os) tools, (pystr \<times> pystr) list) action" where
  "manual_cache_warm c ops sv wops expires_in operation_id =
     bind (run_manual_warm c ops sv wops expires_in operation_id) (\<lambda>operation.
     ret [(u ''operationId'', wo_operation_id operation), (u ''status'', warm_status_value (wo_status operation))])"

record warm_summary_response =
  wsr_attempted :: int
  wsr_written :: int
  wsr_skipped :: int

record warm_operation_response =
  wor_operation_id :: pystr
  wor_status :: warm_status
  wor_queued_at :: datetime
  wor_summary :: "warm_summary_response option"

record domain_status_response =
  dsr_domain :: admin_domain
  dsr_key_count :: int
  dsr_minimum_remaining_ttl_seconds :: "int option"
  dsr_non_expiring_key_count :: int

record cache_status_response =
  csr_enabled :: bool
  csr_configured_ttl_seconds :: int
  csr_scheduled_warm_interval_seconds :: int
  csr_domains :: "domain_status_response list"
  csr_last_manual_warm_operation :: "warm_operation_response option"

definition warm_summary_response_of :: "warm_summary \<Rightarrow> warm_summary_response" where
  "warm_summary_response_of w =
     \<lparr>wsr_attempted = wu_attempted w, wsr_written = wu_written w, wsr_skipped = wu_skipped w\<rparr>"

definition warm_operation_response_of :: "warm_operation \<Rightarrow> warm_operation_response" where
  "warm_operation_response_of op =
     \<lparr>wor_operation_id = wo_operation_id op, wor_status = wo_status op, wor_queued_at = wo_queued_at op,
      wor_summary = map_option warm_summary_response_of (wo_summary op)\<rparr>"

definition domain_status_response_of :: "domain_status \<Rightarrow> domain_status_response" where
  "domain_status_response_of ds =
     \<lparr>dsr_domain = dm_domain ds, dsr_key_count = dm_key_count ds,
      dsr_minimum_remaining_ttl_seconds = dm_minimum_remaining_ttl_seconds ds,
      dsr_non_expiring_key_count = dm_non_expiring_key_count ds\<rparr>"

definition cache_status_response_of :: "tools_status \<Rightarrow> cache_status_response" where
  "cache_status_response_of t =
     \<lparr>csr_enabled = tt_enabled t, csr_configured_ttl_seconds = tt_configured_ttl_seconds t,
      csr_scheduled_warm_interval_seconds = tt_scheduled_warm_interval_seconds t,
      csr_domains = map domain_status_response_of (tt_domains t),
      csr_last_manual_warm_operation = map_option warm_operation_response_of (tt_last_manual_warm_operation t)\<rparr>"

definition get_cache_status ::
  "'st stores scan_ops \<Rightarrow> ('os, nat list) store_ops \<Rightarrow> tools_policy \<Rightarrow> ('q, 'st, 'os) tools
    \<Rightarrow> ((error + cache_status_response) \<times> ('q, 'st, 'os) tools) option" where
  "get_cache_status scans wops policy s =
     map_option (map_prod (map_sum id cache_status_response_of) id) (get_status scans wops policy s)"

definition clear_cache ::
  "('st, response) store_ops \<Rightarrow> 'st stores scan_ops \<Rightarrow> ('os, nat list) store_ops \<Rightarrow> tools_policy \<Rightarrow> ('q, 'st, 'os) tools
    \<Rightarrow> ((error + cache_status_response) \<times> ('q, 'st, 'os) tools) option" where
  "clear_cache ops scans wops policy s =
     map_option (map_prod (map_sum id cache_status_response_of) id) (clear ops scans wops policy s)"

definition warm_cache ::
  "('os, nat list) store_ops \<Rightarrow> int \<Rightarrow> broker \<Rightarrow> pystr \<Rightarrow> datetime
    \<Rightarrow> (error, ('q, 'st, 'os) tools, warm_operation_response) action" where
  "warm_cache wops expires_in broker new_id current_datetime =
     bind (enqueue_manual_warm wops expires_in broker new_id current_datetime) (\<lambda>op. ret (warm_operation_response_of op))"

definition get_cache_warm_operation ::
  "('os, nat list) store_ops \<Rightarrow> pystr \<Rightarrow> (error, ('q, 'st, 'os) tools, warm_operation_response) action" where
  "get_cache_warm_operation wops operation_id =
     bind (get_manual_warm_operation wops operation_id) (\<lambda>op. ret (warm_operation_response_of op))"

section \<open>What is written is read back\<close>

text \<open>The operations that occur: an identifier of Unicode characters and a time within Python's calendar.\<close>

definition operation_ok :: "warm_operation \<Rightarrow> bool" where
  "operation_ok op \<longleftrightarrow> (\<forall>c \<in> set (wo_operation_id op). is_scalar c) \<and> valid_date (date_of (wo_queued_at op))"

lemma status_value_from: "from_value warm_statuses_all warm_status_value (warm_status_value st) = Some st"
  by (cases st) (simp_all add: from_value_def warm_statuses_all_def u_def)

lemma operation_payload_ok: "operation_ok op \<Longrightarrow> json_ok (operation_payload op)"
  using datetime_isoformat_ascii[of "wo_queued_at op"]
  by (cases "wo_status op"; cases "wo_summary op")
    (force simp: operation_payload_def summary_payload_def operation_ok_def u_def is_scalar_def)+

lemma deserialize_serialize:
  assumes "operation_ok op"
  shows "deserialize (serialize op) = Inr op"
proof -
  have decoded: "Option.bind (utf8_decode (serialize op)) loads = Some (operation_payload op)"
    unfolding serialize_def by (rule decode_dumps[OF operation_payload_ok[OF assms]])
  have time: "datetime_fromisoformat (datetime_isoformat (wo_queued_at op)) = Some (wo_queued_at op)"
    using assms by (simp add: operation_ok_def datetime_fromisoformat_isoformat)
  have fields: "payload_field (u ''summary'') (operation_payload op) = Inr (case wo_summary op of None \<Rightarrow> JNull | Some w \<Rightarrow> summary_payload w)"
    "string_field (u ''operation_id'') (operation_payload op) = Inr (wo_operation_id op)"
    "string_field (u ''status'') (operation_payload op) = Inr (warm_status_value (wo_status op))"
    "string_field (u ''queued_at'') (operation_payload op) = Inr (datetime_isoformat (wo_queued_at op))"
    by (simp_all add: payload_field_def string_field_def operation_payload_def u_def and_then_def)
  have summary: "summary_of_payload (case wo_summary op of None \<Rightarrow> JNull | Some w \<Rightarrow> summary_payload w) = Inr (wo_summary op)"
    by (cases "wo_summary op")
      (simp_all add: summary_of_payload_def summary_payload_def int_field_def payload_field_def u_def and_then_def)
  show ?thesis
    unfolding deserialize_def decoded
    by (simp add: require_def and_then_def fields time summary status_value_from)
qed

end
