(* ===== verification/Cache_Tools_Properties.thy ===== *)
theory Cache_Tools_Properties
  imports Cache_Tools
begin

text \<open>
  The tools for the cache end and tell the truth: the scan of a domain ends and counts every key in the first reply
  that returns it, the
  records of the operations survive their storage, and every manual warming that was queued is settled once the
  workers have emptied the queue.
\<close>

section \<open>Full iterations\<close>

text \<open>The replies of a full iteration over the keys, from a cursor to the reply that returns the cursor 0.\<close>

inductive iterates :: "'sv scan_ops \<Rightarrow> pystr \<Rightarrow> int \<Rightarrow> 'sv \<Rightarrow> nat \<Rightarrow> pystr list list \<Rightarrow> bool" for ops p n s where
  last: "sc_scan ops c p n s = ((0, ks), s) \<Longrightarrow> iterates ops p n s c [ks]"
| more: "sc_scan ops c p n s = ((c', ks), s) \<Longrightarrow> c' \<noteq> 0 \<Longrightarrow> iterates ops p n s c' rs \<Longrightarrow> iterates ops p n s c (ks # rs)"

text \<open>
  What the documentation of \<open>SCAN\<close> and \<open>TTL\<close> promises of a server that nobody else uses meanwhile: a full
  iteration ends, and returns every key that matches at least once.  The same key may come back any number of times, in
  other replies or in the same.  A
  pattern of plain characters before a final star matches the keys with that prefix; the time to live of a missing key
  is -2.
\<close>

definition plain_pattern :: "pystr \<Rightarrow> bool" where
  "plain_pattern p \<longleftrightarrow> (\<forall>c \<in> set p. c \<notin> {42, 63, 91, 92, 93, 94})"

text \<open>How often a key occurs in the first of the replies that has it.\<close>

fun first_occurrences :: "'a list list \<Rightarrow> 'a \<Rightarrow> nat" where
  "first_occurrences [] k = 0"
| "first_occurrences (ks # rs) k = (if k \<in> set ks then count_list ks k else first_occurrences rs k)"

lemma first_occurrences_once:
  "\<forall>ks \<in> set rs. distinct ks \<Longrightarrow> k \<in> (\<Union>ks \<in> set rs. set ks) \<Longrightarrow> first_occurrences rs k = 1"
proof (induction rs)
  case (Cons ks rs)
  have "count_list ks k = 1" if "k \<in> set ks" "distinct ks" using that by (induction ks) (auto simp: count_list_0_iff)
  then show ?case using Cons by auto
qed simp

lemma count_list_filter: "count_list (filter P xs) k = (if P k then count_list xs k else 0)"
  by (induction xs) auto

locale scan_server =
  fixes ops :: "'sv scan_ops"
    and live :: "'sv \<Rightarrow> pystr set"
    and ttl_of :: "'sv \<Rightarrow> pystr \<Rightarrow> int"
  assumes full_iteration: "0 < n \<Longrightarrow> plain_pattern p \<Longrightarrow>
      \<exists>rs. iterates ops (p @ [42]) n s 0 rs \<and> (\<Union>ks \<in> set rs. set ks) = {k \<in> live s. starts_with p k}"
    and ttls: "sc_ttls ops ks s = (map (ttl_of s) ks, s)"
    and missing: "ttl_of s k = -2 \<longleftrightarrow> k \<notin> live s"
begin

lemma count_keys_run:
  "count_keys ops ks seen acc s =
     (let new = filter (\<lambda>k. k \<notin> set seen) ks in (seen @ new, fold count_ttl (map (ttl_of s) new) acc, s))"
  by (simp add: count_keys_def ttls Let_def)

lemma scan_loop_run:
  assumes "iterates ops p n s c rs"
  shows "\<exists>ks. scan_loop ops p n c seen acc s = Some (fold count_ttl (map (ttl_of s) ks) acc, s)
    \<and> (\<forall>k. count_list ks k = (if k \<in> set seen then 0 else first_occurrences rs k))
    \<and> set ks = (\<Union>ks \<in> set rs. set ks) - set seen"
  using assms
proof (induction arbitrary: seen acc rule: iterates.induct)
  case (last c ks)
  then show ?case
    by (subst scan_loop.simps)
       (auto simp: count_keys_run Let_def count_list_filter intro!: exI[of _ "filter (\<lambda>k. k \<notin> set seen) ks"])
next
  case (more c c' ks rs)
  let ?new = "filter (\<lambda>k. k \<notin> set seen) ks"
  obtain ks' where ks': "scan_loop ops p n c' (seen @ ?new) (fold count_ttl (map (ttl_of s) ?new) acc) s =
      Some (fold count_ttl (map (ttl_of s) ks') (fold count_ttl (map (ttl_of s) ?new) acc), s)"
    "\<forall>k. count_list ks' k = (if k \<in> set (seen @ ?new) then 0 else first_occurrences rs k)"
    "set ks' = (\<Union>ks \<in> set rs. set ks) - set (seen @ ?new)"
    using more.IH[of "seen @ ?new" "fold count_ttl (map (ttl_of s) ?new) acc"] by (elim exE conjE)
  have "scan_loop ops p n c seen acc s = Some (fold count_ttl (map (ttl_of s) (?new @ ks')) acc, s)"
    by (subst scan_loop.simps) (simp add: more.hyps count_keys_run Let_def ks'(1))
  moreover have "count_list (?new @ ks') k = (if k \<in> set seen then 0 else first_occurrences (ks # rs) k)" for k
    using ks'(2) by (auto simp: count_list_filter)
  moreover have "set (?new @ ks') = (\<Union>ks \<in> set (ks # rs). set ks) - set seen"
    using ks'(3) by auto
  ultimately show ?case by blast
qed

end

section \<open>Counting\<close>

lemma fold_count_ttl:
  "tc_key_count (fold count_ttl ts acc) = tc_key_count acc + int (length (filter (\<lambda>t. t \<noteq> -2) ts))"
  "tc_non_expiring (fold count_ttl ts acc) = tc_non_expiring acc + int (length (filter (\<lambda>t. t = -1) ts))"
  by (induction ts arbitrary: acc) (auto simp: count_ttl_def Let_def)

definition least_of :: "int option \<Rightarrow> int set \<Rightarrow> int option" where
  "least_of m T = (let A = set_option m \<union> T in if A = {} then None else Some (Min A))"

lemma fold_count_minimum:
  "tc_minimum (fold count_ttl ts acc) = least_of (tc_minimum acc) {t \<in> set ts. t \<noteq> -1 \<and> t \<noteq> -2}"
proof (induction ts arbitrary: acc)
  case Nil
  then show ?case by (cases "tc_minimum acc") (simp_all add: least_of_def)
next
  case (Cons t ts)
  define T where "T = {t \<in> set ts. t \<noteq> -1 \<and> t \<noteq> -2}"
  have fin: "finite T" by (simp add: T_def)
  show ?case
  proof (cases "t = -1 \<or> t = -2")
    case True
    then have "{t' \<in> set (t # ts). t' \<noteq> -1 \<and> t' \<noteq> -2} = T" by (auto simp: T_def)
    moreover have "tc_minimum (count_ttl t acc) = tc_minimum acc" using True by (auto simp: count_ttl_def Let_def)
    ultimately show ?thesis using Cons.IH[of "count_ttl t acc"] by (simp add: T_def)
  next
    case False
    then have T: "{t' \<in> set (t # ts). t' \<noteq> -1 \<and> t' \<noteq> -2} = insert t T" by (auto simp: T_def)
    have new: "tc_minimum (count_ttl t acc) = Some (case tc_minimum acc of None \<Rightarrow> t | Some m \<Rightarrow> min t m)"
      using False by (auto simp: count_ttl_def Let_def min_def split: option.split)
    show ?thesis
      using Cons.IH[of "count_ttl t acc", folded T_def] fin unfolding T
      by (cases "tc_minimum acc"; cases "T = {}") (simp_all add: new least_of_def Let_def insert_commute min.assoc min.left_commute min.commute)
  qed
qed

section \<open>A server in memory\<close>

text \<open>Keys in some order, perhaps with repetitions, each with a time to live or without; a cursor is a position.\<close>

type_synonym key_server = "pystr list \<times> (pystr \<Rightarrow> nat option)"

definition prefix_pattern :: "pystr \<Rightarrow> pystr \<Rightarrow> bool" where
  "prefix_pattern p k = starts_with (butlast p) k"

definition key_server_ttl :: "key_server \<Rightarrow> pystr \<Rightarrow> int" where
  "key_server_ttl s k = (if k \<notin> set (fst s) then -2 else case snd s k of None \<Rightarrow> -1 | Some n \<Rightarrow> int n)"

definition key_server_ops :: "key_server scan_ops" where
  "key_server_ops =
     \<lparr>sc_scan = (\<lambda>c p n s.
        ((if c + nat n < length (fst s) then c + nat n else 0,
          filter (prefix_pattern p) (take (nat n) (drop c (fst s)))), s)),
      sc_ttls = (\<lambda>ks s. (map (key_server_ttl s) ks, s))\<rparr>"

lemma key_server_iterates:
  assumes "0 < n"
  shows "\<exists>rs. iterates key_server_ops (p @ [42]) n s c rs
    \<and> (\<Union>ks \<in> set rs. set ks) = {k \<in> set (drop c (fst s)). starts_with p k}"
proof (induction "length (fst s) - c" arbitrary: c rule: less_induct)
  case less
  let ?page = "take (nat n) (drop c (fst s))" and ?ks = "\<lambda>page. filter (prefix_pattern (p @ [42])) page"
  have matches: "set (?ks page) = {k \<in> set page. starts_with p k}" for page by (auto simp: prefix_pattern_def)
  show ?case
  proof (cases "c + nat n < length (fst s)")
    case False
    then have "sc_scan key_server_ops c (p @ [42]) n s = ((0, ?ks (drop c (fst s))), s)" by (simp add: key_server_ops_def)
    then have "iterates key_server_ops (p @ [42]) n s c [?ks (drop c (fst s))]" by (rule iterates.last)
    then show ?thesis using matches[of "drop c (fst s)"] by (intro exI[of _ "[?ks (drop c (fst s))]"]) simp
  next
    case True
    let ?c = "c + nat n"
    have scan: "sc_scan key_server_ops c (p @ [42]) n s = ((?c, ?ks ?page), s)" using True by (simp add: key_server_ops_def)
    have "length (fst s) - ?c < length (fst s) - c" using True assms by linarith
    from less[OF this] obtain rs where rs: "iterates key_server_ops (p @ [42]) n s ?c rs"
      "(\<Union>ks \<in> set rs. set ks) = {k \<in> set (drop ?c (fst s)). starts_with p k}" by blast
    have "iterates key_server_ops (p @ [42]) n s c (?ks ?page # rs)" using assms by (intro iterates.more[OF scan _ rs(1)]) simp
    moreover have "drop c (fst s) = ?page @ drop ?c (fst s)"
      using append_take_drop_id[of "nat n" "drop c (fst s)"] by (simp add: add.commute)
    then have "set (drop c (fst s)) = set ?page \<union> set (drop ?c (fst s))" by (metis set_append)
    ultimately show ?thesis using rs(2) matches[of ?page] by (intro exI[of _ "?ks ?page # rs"]) auto
  qed
qed

interpretation key_server: scan_server key_server_ops "\<lambda>s. set (fst s)" key_server_ttl
proof unfold_locales
  fix n :: int and p :: pystr and s :: key_server
  assume "0 < n"
  then show "\<exists>rs. iterates key_server_ops (p @ [42]) n s 0 rs \<and> (\<Union>ks \<in> set rs. set ks) = {k \<in> set (fst s). starts_with p k}"
    using key_server_iterates[of n p s 0] by simp
next
  show "sc_ttls key_server_ops ks s = (map (key_server_ttl s) ks, s)" for ks and s :: key_server
    by (simp add: key_server_ops_def)
  show "key_server_ttl s k = -2 \<longleftrightarrow> k \<notin> set (fst s)" for k and s :: key_server
    by (simp add: key_server_ttl_def split: option.split)
qed

section \<open>The status of a domain is exact\<close>

lemma namespace_plain: "plain_pattern (domain_namespace domain @ u '':'')"
  by (cases domain) (simp_all add: plain_pattern_def domain_namespace_def u_def)

text \<open>C10: the status of a cache domain is always found.  The scan ends after a full iteration of the server; the least
  time to live is exactly that of the keys of the domain that expire, however often a key is returned; and every key of
  the domain is counted as often as the first reply with it has it, in the number of keys and, when it does not expire, in
  the number of those.  So both numbers are exact when no single reply repeats a key, even if later replies return it
  again; within a reply the code does not look for repetitions.\<close>

theorem domain_status_exact:
  assumes "scan_server ops live ttl_of"
    and "K = {k \<in> live s. starts_with (domain_namespace domain @ u '':'') k}"
  shows "\<exists>rs status. iterates ops (domain_namespace domain @ u '':*'') status_scan_batch_size s 0 rs
    \<and> get_domain_status ops domain s = Some (status, s) \<and> dm_domain status = domain
    \<and> dm_minimum_remaining_ttl_seconds status =
        (if \<forall>k \<in> K. ttl_of s k = -1 then None else Some (Min {ttl_of s k | k. k \<in> K \<and> ttl_of s k \<noteq> -1}))
    \<and> dm_key_count status = int (\<Sum>k \<in> K. first_occurrences rs k)
    \<and> dm_non_expiring_key_count status = int (\<Sum>k | k \<in> K \<and> ttl_of s k = -1. first_occurrences rs k)
    \<and> ((\<forall>ks \<in> set rs. distinct ks) \<longrightarrow>
        dm_key_count status = int (card K) \<and> dm_non_expiring_key_count status = int (card {k \<in> K. ttl_of s k = -1}))"
proof -
  have batch: "0 < status_scan_batch_size" by (simp add: status_scan_batch_size_def)
  have star: "(domain_namespace domain @ u '':'') @ [42] = domain_namespace domain @ u '':*''" by (simp add: u_def)
  obtain rs where rs: "iterates ops (domain_namespace domain @ u '':*'') status_scan_batch_size s 0 rs"
    "(\<Union>ks \<in> set rs. set ks) = K"
    using scan_server.full_iteration[OF assms(1) batch namespace_plain[of domain], of s] assms(2) unfolding star by blast
  let ?acc = "\<lparr>tc_key_count = 0, tc_minimum = None, tc_non_expiring = 0\<rparr>"
  obtain ks where ks: "scan_loop ops (domain_namespace domain @ u '':*'') status_scan_batch_size 0 [] ?acc s =
      Some (fold count_ttl (map (ttl_of s) ks) ?acc, s)" "\<forall>k. count_list ks k = first_occurrences rs k" "set ks = K"
    using scan_server.scan_loop_run[OF assms(1) rs(1), of "[]" ?acc] rs(2) by auto
  have fin: "finite K" using ks(3) by auto
  have present: "ttl_of s k \<noteq> -2" if "k \<in> K" for k using that assms(2) scan_server.missing[OF assms(1)] by auto
  have "filter (\<lambda>t. t \<noteq> -2) (map (ttl_of s) ks) = map (ttl_of s) ks" using present ks(3) by (auto simp: filter_id_conv)
  moreover have "length ks = (\<Sum>k \<in> K. first_occurrences rs k)"
    using sum_count_set[of ks K] fin ks(2,3) by simp
  moreover have "length (filter (\<lambda>t. t = -1) (map (ttl_of s) ks)) = (\<Sum>k | k \<in> K \<and> ttl_of s k = -1. first_occurrences rs k)"
    using sum_count_set[of "filter (\<lambda>k. ttl_of s k = -1) ks" "{k \<in> K. ttl_of s k = -1}"] fin ks(2,3)
    by (simp add: filter_map o_def count_list_filter)
  moreover have "{t \<in> set (map (ttl_of s) ks). t \<noteq> -1 \<and> t \<noteq> -2} = {ttl_of s k | k. k \<in> K \<and> ttl_of s k \<noteq> -1}"
    using present ks(3) by auto
  moreover have "(\<Sum>k \<in> A. first_occurrences rs k) = card A" if "\<forall>ks \<in> set rs. distinct ks" "A \<subseteq> K" for A
  proof -
    have "first_occurrences rs k = 1" if "k \<in> A" for k
      using first_occurrences_once[of rs k] that \<open>\<forall>ks \<in> set rs. distinct ks\<close> \<open>A \<subseteq> K\<close> rs(2) by blast
    then show ?thesis by simp
  qed
  ultimately show ?thesis
    using rs(1) by (intro exI[of _ rs]) (auto simp: get_domain_status_def ks(1) fold_count_ttl fold_count_minimum least_of_def Let_def
        simp del: of_nat_sum)
qed

theorem domain_status_exact_witness:
  "let s = ([u ''LITESTAR_articles:a'', u ''LITESTAR_articles:b'', u ''x''], \<lambda>k. Some 5) in
   \<exists>status. get_domain_status key_server_ops ADMIN_ARTICLES s = Some (status, s)
    \<and> dm_key_count status = 2 \<and> dm_non_expiring_key_count status = 0"
proof -
  let ?s = "([u ''LITESTAR_articles:a'', u ''LITESTAR_articles:b'', u ''x''], \<lambda>k. Some 5) :: key_server"
  let ?K = "{k \<in> set (fst ?s). starts_with (domain_namespace ADMIN_ARTICLES @ u '':'') k}"
  have "?K = {u ''LITESTAR_articles:a'', u ''LITESTAR_articles:b''}"
    by (auto simp: domain_namespace_def u_def)
  then have K: "card ?K = 2" "{k \<in> ?K. key_server_ttl ?s k = -1} = {}"
    by (simp_all add: key_server_ttl_def u_def)
  have scan: "sc_scan key_server_ops 0 (domain_namespace ADMIN_ARTICLES @ u '':*'') status_scan_batch_size ?s =
      ((0, [u ''LITESTAR_articles:a'', u ''LITESTAR_articles:b'']), ?s)"
    by (simp add: key_server_ops_def status_scan_batch_size_def prefix_pattern_def domain_namespace_def u_def)
  have one: "rs = [[u ''LITESTAR_articles:a'', u ''LITESTAR_articles:b'']]"
    if "iterates key_server_ops (domain_namespace ADMIN_ARTICLES @ u '':*'') status_scan_batch_size ?s 0 rs" for rs
    using that by (rule iterates.cases) (simp_all add: scan)
  have distinct: "u ''LITESTAR_articles:a'' \<noteq> u ''LITESTAR_articles:b''" by (simp add: u_def)
  obtain rs status where st: "iterates key_server_ops (domain_namespace ADMIN_ARTICLES @ u '':*'') status_scan_batch_size ?s 0 rs"
    "get_domain_status key_server_ops ADMIN_ARTICLES ?s = Some (status, ?s)"
    "(\<forall>ks \<in> set rs. distinct ks) \<longrightarrow> dm_key_count status = int (card ?K)
       \<and> dm_non_expiring_key_count status = int (card {k \<in> ?K. key_server_ttl ?s k = -1})"
    using domain_status_exact[OF key_server.scan_server_axioms refl, of ADMIN_ARTICLES ?s] by blast
  have "dm_key_count status = 2" "dm_non_expiring_key_count status = 0"
    using st(3) distinct unfolding one[OF st(1)] K by auto
  then show ?thesis using st(2) by (simp add: Let_def)
qed

text \<open>A key that one reply repeats is counted twice.\<close>

lemma repeated_key_counted_twice:
  "let s = ([u ''LITESTAR_articles:a'', u ''LITESTAR_articles:a''], \<lambda>k. Some 5) in
   map_option (dm_key_count \<circ> fst) (get_domain_status key_server_ops ADMIN_ARTICLES s) = Some 2"
  by (simp add: Let_def get_domain_status_def scan_loop.simps key_server_ops_def status_scan_batch_size_def
      prefix_pattern_def domain_namespace_def admin_domain_value.simps u_def count_keys_def count_ttl_def key_server_ttl_def)

section \<open>Manual warmings\<close>

lemma operation_key_simps [simp]:
  "operation_key i = operation_key j \<longleftrightarrow> i = j" "operation_key i \<noteq> latest_operation_key" "latest_operation_key \<noteq> operation_key i"
  by (simp_all add: operation_key_def latest_operation_key_def u_def)

definition settled :: "warm_operation \<Rightarrow> bool" where
  "settled op \<longleftrightarrow> (wo_status op = WARM_SUCCEEDED \<and> wo_summary op \<noteq> None) \<or> (wo_status op = WARM_FAILED \<and> wo_summary op = None)"

text \<open>
  What happens to the operations: the administration queues one or polls one, a worker takes the next task, the rest of
  the application goes on, records expire.
\<close>

inductive tools_step ::
  "('os, nat list) store_ops \<Rightarrow> ('os \<Rightarrow> pystr \<Rightarrow> nat list option) \<Rightarrow> ('q, 'st, 'os) tools \<Rightarrow> ('q, 'st, 'os) tools \<Rightarrow> bool"
  for wops wview where
  enqueue: "operation_ok \<lparr>wo_operation_id = new_id, wo_status = WARM_QUEUED, wo_queued_at = now, wo_summary = None\<rparr> \<Longrightarrow>
    warm_cache wops expires_in broker new_id now s = (x, s') \<Longrightarrow> tools_step wops wview s s'"
| poll: "get_cache_warm_operation wops i s = (x, s') \<Longrightarrow> tools_step wops wview s s'"
| work: "ts_queue s = i # q \<Longrightarrow> manual_cache_warm c ops sv wops expires_in i (s\<lparr>ts_queue := q\<rparr>) = (x, s') \<Longrightarrow>
    tools_step wops wview s s'"
| application: "tools_step wops wview s (s\<lparr>ts_app := a\<rparr>)"
| expiry: "wview os \<subseteq>\<^sub>m wview (ts_operations s) \<Longrightarrow> tools_step wops wview s (s\<lparr>ts_operations := os\<rparr>)"

text \<open>A worker takes the first task of the queue.\<close>

definition work_once ::
  "api \<Rightarrow> ('st, response) store_ops \<Rightarrow> warm_service \<Rightarrow> ('os, nat list) store_ops \<Rightarrow> int \<Rightarrow> ('q, 'st, 'os) tools \<Rightarrow> ('q, 'st, 'os) tools" where
  "work_once c ops sv wops expires_in s =
     (case ts_queue s of
        [] \<Rightarrow> s
      | i # q \<Rightarrow> snd (manual_cache_warm c ops sv wops expires_in i (s\<lparr>ts_queue := q\<rparr>)))"

text \<open>Each record is that of its operation, which is settled or waits in the queue.\<close>

definition record_ok :: "pystr list \<Rightarrow> pystr \<Rightarrow> nat list \<Rightarrow> bool" where
  "record_ok queue i v \<longleftrightarrow>
     (\<exists>op. operation_ok op \<and> wo_operation_id op = i \<and> v = serialize op \<and> (settled op \<or> i \<in> set queue))"

definition tools_inv :: "('os \<Rightarrow> pystr \<Rightarrow> nat list option) \<Rightarrow> ('q, 'st, 'os) tools \<Rightarrow> bool" where
  "tools_inv wview s \<longleftrightarrow> (\<forall>i v. wview (ts_operations s) (operation_key i) = Some v \<longrightarrow> record_ok (ts_queue s) i v)"

lemma record_ok_operation:
  "operation_ok op \<Longrightarrow> settled op \<or> wo_operation_id op \<in> set q \<Longrightarrow> record_ok q (wo_operation_id op) (serialize op)"
  by (auto simp: record_ok_def)

lemma record_ok_more: "record_ok q i v \<Longrightarrow> set q \<subseteq> set q' \<Longrightarrow> record_ok q' i v"
  by (auto simp: record_ok_def)

lemma record_ok_other: "record_ok (j # q) i v \<Longrightarrow> i \<noteq> j \<Longrightarrow> record_ok q i v"
  by (auto simp: record_ok_def)

locale operation_store = kv_store wops wview
  for wops :: "('os, nat list) store_ops" and wview :: "'os \<Rightarrow> pystr \<Rightarrow> nat list option"
begin

lemma update_run:
  "\<exists>os. operation_update wops n op s = (Inr (), os) \<and> wview os = (wview s)(operation_key (wo_operation_id op) \<mapsto> serialize op)"
  by (auto simp: operation_update_def storage_set_def storage_get_def run_simps set_view prod.case_eq_if get_view)

lemma create_run:
  "\<exists>os. operation_create wops n op s = (Inr (), os)
    \<and> (\<forall>i. wview os (operation_key i) = (if i = wo_operation_id op then Some (serialize op) else wview s (operation_key i)))"
  by (auto simp: operation_create_def storage_set_def run_simps set_view)

lemma get_run:
  "\<exists>os. operation_get wops i s =
      ((case wview s (operation_key i) of None \<Rightarrow> Inr None | Some v \<Rightarrow> map_sum id Some (deserialize v)), os) \<and> wview os = wview s"
  by (cases "so_get wops (operation_key i) None s"; cases "wview s (operation_key i)")
    (insert get_value[of "operation_key i" None s] get_view[of "operation_key i" None s],
      auto simp: operation_get_def storage_get_def run_simps split: sum.splits)

text \<open>A worker either finds no record or leaves a settled one.\<close>

lemma manual_warm_run:
  assumes "\<And>v. wview (ts_operations s) (operation_key i) = Some v \<Longrightarrow> \<exists>op. operation_ok op \<and> wo_operation_id op = i \<and> v = serialize op"
    and run: "manual_cache_warm c ops sv wops n i s = (x, s')"
  shows "ts_queue s' = ts_queue s \<and>
    ((wview (ts_operations s) (operation_key i) = None \<and> wview (ts_operations s') = wview (ts_operations s))
     \<or> (\<exists>op. operation_ok op \<and> wo_operation_id op = i \<and> settled op \<and> wview (ts_operations s) (operation_key i) \<noteq> None
          \<and> wview (ts_operations s') = (wview (ts_operations s))(operation_key i \<mapsto> serialize op)))"
proof -
  obtain os where get: "operation_get wops i (ts_operations s) =
      ((case wview (ts_operations s) (operation_key i) of None \<Rightarrow> Inr None | Some v \<Rightarrow> map_sum id Some (deserialize v)), os)"
    "wview os = wview (ts_operations s)" using get_run[of i "ts_operations s"] by blast
  show ?thesis
  proof (cases "wview (ts_operations s) (operation_key i)")
    case None
    then show ?thesis
      using run get by (auto simp: manual_cache_warm_def run_manual_warm_def on_operations_def require_def run_simps)
  next
    case (Some v)
    then obtain op where op: "operation_ok op" "wo_operation_id op = i" "v = serialize op" using assms(1) by blast
    let ?running = "op\<lparr>wo_status := WARM_RUNNING, wo_summary := None\<rparr>"
    obtain os1 where os1: "operation_update wops n ?running os = (Inr (), os1)"
      "wview os1 = (wview os)(operation_key i \<mapsto> serialize ?running)" using update_run[of n ?running os] op(2) by auto
    obtain y a where warm: "warm_all c ops sv (ts_app s) = (y, a)" by (cases "warm_all c ops sv (ts_app s)")
    define final where "final = (case y of Inl e \<Rightarrow> ?running\<lparr>wo_status := WARM_FAILED\<rparr>
        | Inr w \<Rightarrow> ?running\<lparr>wo_status := WARM_SUCCEEDED, wo_summary := Some w\<rparr>)"
    obtain os2 where os2: "operation_update wops n final os1 = (Inr (), os2)"
      "wview os2 = (wview os1)(operation_key i \<mapsto> serialize final)" using update_run[of n final os1] op(2) by (cases y) (auto simp: final_def)
    have found: "operation_get wops i (ts_operations s) = (Inr (Some op), os)"
      using get(1) Some op(3) deserialize_serialize[OF op(1)] by simp
    have "s' = s\<lparr>ts_app := a, ts_operations := os2\<rparr>"
    proof (cases y)
      case (Inl e)
      have "operation_update wops n (?running\<lparr>wo_status := WARM_FAILED\<rparr>) os1 = (Inr (), os2)" using os2(1) by (simp add: final_def Inl)
      then show ?thesis
        using run by (simp add: manual_cache_warm_def run_manual_warm_def on_operations_def on_app_def require_def run_simps Let_def found os1(1) warm Inl)
    next
      case (Inr w)
      have "operation_update wops n (?running\<lparr>wo_status := WARM_SUCCEEDED, wo_summary := Some w\<rparr>) os1 = (Inr (), os2)"
        using os2(1) by (simp add: final_def Inr)
      then show ?thesis
        using run by (simp add: manual_cache_warm_def run_manual_warm_def on_operations_def on_app_def require_def run_simps Let_def found os1(1) warm Inr)
    qed
    then have "ts_queue s' = ts_queue s" "ts_operations s' = os2" by simp_all
    moreover have "operation_ok final" "wo_operation_id final = i" "settled final"
      using op(1,2) by (cases y; simp add: final_def operation_ok_def settled_def)+
    moreover have "wview os2 = (wview (ts_operations s))(operation_key i \<mapsto> serialize final)" using os2(2) os1(2) get(2) by simp
    ultimately show ?thesis using Some by auto
  qed
qed

lemma work_inv:
  assumes inv: "tools_inv wview s" and s: "ts_queue s = i # q"
    and run: "manual_cache_warm c ops sv wops n i (s\<lparr>ts_queue := q\<rparr>) = (x, s')"
  shows "tools_inv wview s' \<and> ts_queue s' = q
    \<and> dom (wview (ts_operations s')) = dom (wview (ts_operations s))"
proof -
  have ok: "record_ok (i # q) j v" if "wview (ts_operations s) (operation_key j) = Some v" for j v
    using inv that s by (auto simp: tools_inv_def)
  have "\<exists>op. operation_ok op \<and> wo_operation_id op = i \<and> v = serialize op"
    if "wview (ts_operations (s\<lparr>ts_queue := q\<rparr>)) (operation_key i) = Some v" for v
    using ok[of i v] that by (auto simp: record_ok_def)
  from manual_warm_run[OF this run] have queue: "ts_queue s' = q"
    and cases: "(wview (ts_operations s) (operation_key i) = None \<and> wview (ts_operations s') = wview (ts_operations s))
     \<or> (\<exists>op. operation_ok op \<and> wo_operation_id op = i \<and> settled op \<and> wview (ts_operations s) (operation_key i) \<noteq> None
          \<and> wview (ts_operations s') = (wview (ts_operations s))(operation_key i \<mapsto> serialize op))" by auto
  show ?thesis using cases
  proof (elim disjE exE conjE)
    assume "wview (ts_operations s) (operation_key i) = None" and same: "wview (ts_operations s') = wview (ts_operations s)"
    then show ?thesis using ok record_ok_other queue unfolding tools_inv_def by (metis option.distinct(1))
  next
    fix op assume op: "operation_ok op" "wo_operation_id op = i" "settled op"
      and found: "wview (ts_operations s) (operation_key i) \<noteq> None"
      and upd: "wview (ts_operations s') = (wview (ts_operations s))(operation_key i \<mapsto> serialize op)"
    have "record_ok q j v" if "wview (ts_operations s') (operation_key j) = Some v" for j v
      using that record_ok_other[OF ok[of j v]] record_ok_operation[of op q] op by (cases "j = i") (auto simp: upd)
    then show ?thesis using queue found by (auto simp: tools_inv_def upd)
  qed
qed

lemma enqueue_inv:
  assumes inv: "tools_inv wview s"
    and ok: "operation_ok \<lparr>wo_operation_id = i, wo_status = WARM_QUEUED, wo_queued_at = now, wo_summary = None\<rparr>" (is "operation_ok ?op")
    and run: "warm_cache wops n broker i now s = (x, s')"
  shows "tools_inv wview s'"
proof -
  obtain os1 where os1: "operation_create wops n ?op (ts_operations s) = (Inr (), os1)"
    "\<forall>j. wview os1 (operation_key j) = (if j = i then Some (serialize ?op) else wview (ts_operations s) (operation_key j))"
    using create_run[of n ?op "ts_operations s"] by auto
  have old: "record_ok (ts_queue s) j v" if "wview (ts_operations s) (operation_key j) = Some v" for j v
    using inv that by (simp add: tools_inv_def)
  show ?thesis
  proof (cases "broker i")
    case None
    then have s': "s' = s\<lparr>ts_operations := os1, ts_queue := ts_queue s @ [i]\<rparr>"
      using run os1(1) by (auto simp: warm_cache_def enqueue_manual_warm_def on_operations_def dispatch_def run_simps Let_def)
    show ?thesis
      using os1(2) record_ok_operation[OF ok, of "ts_queue s @ [i]"] record_ok_more[OF old, of _ _ "ts_queue s @ [i]"]
      by (auto simp: tools_inv_def s' split: if_splits)
  next
    case (Some e)
    let ?failed = "?op\<lparr>wo_status := WARM_FAILED\<rparr>"
    obtain os2 where os2: "operation_update wops n ?failed os1 = (Inr (), os2)"
      "wview os2 = (wview os1)(operation_key i \<mapsto> serialize ?failed)" using update_run[of n ?failed os1] by auto
    have s': "s' = s\<lparr>ts_operations := os2\<rparr>"
      using run os1(1) os2(1) Some by (auto simp: warm_cache_def enqueue_manual_warm_def on_operations_def dispatch_def run_simps Let_def)
    have "operation_ok ?failed" "settled ?failed" using ok by (simp_all add: operation_ok_def settled_def)
    then show ?thesis
      using os1(2) os2(2) old record_ok_operation[of ?failed "ts_queue s"] by (auto simp: tools_inv_def s' split: if_splits)
  qed
qed

lemma poll_run:
  "\<exists>os. get_cache_warm_operation wops i s = (x, s') \<longrightarrow> s' = s\<lparr>ts_operations := os\<rparr> \<and> wview os = wview (ts_operations s)"
  using get_run[of i "ts_operations s"]
  by (auto simp: get_cache_warm_operation_def get_manual_warm_operation_def on_operations_def run_simps split: sum.splits)

lemma step_keeps_records:
  assumes "tools_step wops wview s s'" "tools_inv wview s"
  shows "tools_inv wview s'"
  using assms(1)
proof cases
  case (enqueue i now n broker x)
  then show ?thesis using enqueue_inv[OF assms(2)] by blast
next
  case (poll i x)
  then show ?thesis using poll_run[of i s x s'] assms(2) by (auto simp: tools_inv_def)
next
  case (work i q c ops sv n x)
  then show ?thesis using work_inv[OF assms(2)] by blast
next
  case (application a)
  then show ?thesis using assms(2) by (simp add: tools_inv_def)
next
  case (expiry os)
  then show ?thesis using assms(2) by (auto simp: tools_inv_def map_le_def dom_def)
qed

lemma reachable_records:
  "(tools_step wops wview)\<^sup>*\<^sup>* s s' \<Longrightarrow> tools_inv wview s \<Longrightarrow> tools_inv wview s'"
  by (induction rule: rtranclp_induct) (auto intro: step_keeps_records)

lemma drained:
  assumes "tools_inv wview s"
  shows "let s' = (work_once c ops sv wops n ^^ length (ts_queue s)) s in
    tools_inv wview s' \<and> ts_queue s' = [] \<and> dom (wview (ts_operations s')) = dom (wview (ts_operations s))"
  using assms
proof (induction "ts_queue s" arbitrary: s)
  case Nil
  then show ?case by simp
next
  case (Cons i q)
  obtain x s1 where run: "manual_cache_warm c ops sv wops n i (s\<lparr>ts_queue := q\<rparr>) = (x, s1)"
    by (cases "manual_cache_warm c ops sv wops n i (s\<lparr>ts_queue := q\<rparr>)")
  then have s1: "work_once c ops sv wops n s = s1" using Cons.hyps(2) by (simp add: work_once_def flip: Cons.hyps(2))
  note step = work_inv[OF Cons.prems Cons.hyps(2)[symmetric] run]
  then have "(work_once c ops sv wops n ^^ length (ts_queue s)) s = (work_once c ops sv wops n ^^ length (ts_queue s1)) s1"
    by (simp add: funpow_swap1 s1 flip: Cons.hyps(2))
  then show ?case using Cons.hyps(1)[of s1] step by (simp add: Let_def)
qed

end

interpretation operation_memory: operation_store memory_ops memory_view ..

section \<open>Manual warmings settle\<close>

text \<open>C9: every manual warming settles.  Whatever was queued, polled, run or has expired before, and whether the broker
  and the warming fail or not: once the workers have taken as many tasks as the queue holds, the queue is empty and the
  administration sees every operation that is still recorded as succeeded, with its summary, or failed.\<close>

theorem manual_warmings_settle:
  assumes "kv_store wops wview" "(tools_step wops wview)\<^sup>*\<^sup>* s0 s" "wview (ts_operations s0) = Map.empty"
    and "wview (ts_operations s) (operation_key i) \<noteq> None"
  shows "let s' = (work_once c ops sv wops expires_in ^^ length (ts_queue s)) s in
    ts_queue s' = [] \<and> (\<exists>op. fst (get_manual_warm_operation wops i s') = Inr op \<and> wo_operation_id op = i \<and> settled op)"
proof -
  have store: "operation_store wops wview" using assms(1) by (rule operation_store.intro)
  let ?s' = "(work_once c ops sv wops expires_in ^^ length (ts_queue s)) s"
  have "tools_inv wview s" by (rule operation_store.reachable_records[OF store assms(2)]) (simp add: tools_inv_def assms(3))
  from operation_store.drained[OF store this, of c ops sv expires_in]
  have s': "tools_inv wview ?s'" "ts_queue ?s' = []" "dom (wview (ts_operations ?s')) = dom (wview (ts_operations s))"
    by (simp_all add: Let_def)
  obtain v where v: "wview (ts_operations ?s') (operation_key i) = Some v" using assms(4) s'(3) by blast
  then obtain op where op: "operation_ok op" "wo_operation_id op = i" "v = serialize op" "settled op"
    using s'(1,2) by (auto simp: tools_inv_def record_ok_def)
  have "fst (get_manual_warm_operation wops i ?s') = Inr op"
    using operation_store.get_run[OF store, of i "ts_operations ?s'"] v deserialize_serialize[OF op(1)] op(3)
    by (auto simp: get_manual_warm_operation_def on_operations_def require_def run_simps)
  then show ?thesis using s'(2) op(2,4) by (auto simp: Let_def)
qed

definition sample_tools :: "(unit, pystr \<rightharpoonup> response \<times> int option, pystr \<rightharpoonup> nat list \<times> int option) tools" where
  "sample_tools = \<lparr>ts_app = sample_app, ts_operations = Map.empty, ts_queue = []\<rparr>"

definition sample_warm_service :: warm_service where
  "sample_warm_service = \<lparr>we_use_cache = True, we_supported_domains = [DOMAIN_ARTICLES, DOMAIN_MATRIX], we_articles_page_size = 10\<rparr>"

lemma accepted_run:
  "snd (warm_cache wops n (\<lambda>_. None) i now s) =
    s\<lparr>ts_operations := so_set wops latest_operation_key (utf8_encode i) (Some n)
        (so_set wops (operation_key i) (serialize \<lparr>wo_operation_id = i, wo_status = WARM_QUEUED, wo_queued_at = now, wo_summary = None\<rparr>)
          (Some n) (ts_operations s)),
      ts_queue := ts_queue s @ [i]\<rparr>"
  by (simp add: warm_cache_def enqueue_manual_warm_def on_operations_def operation_create_def storage_set_def dispatch_def
      run_simps Let_def)

theorem manual_warmings_settle_witness:
  "let s = snd (warm_cache memory_ops 60 (\<lambda>_. None) (u ''ab'') 1000 sample_tools);
       s' = work_once sample_api memory_ops sample_warm_service memory_ops 60 s
   in ts_queue s = [u ''ab''] \<and> ts_queue s' = []
     \<and> (\<exists>op. fst (get_manual_warm_operation memory_ops (u ''ab'') s') = Inr op \<and> wo_operation_id op = u ''ab'' \<and> settled op)"
proof -
  let ?op = "\<lparr>wo_operation_id = u ''ab'', wo_status = WARM_QUEUED, wo_queued_at = 1000, wo_summary = None\<rparr>"
  let ?s = "snd (warm_cache memory_ops 60 (\<lambda>_. None) (u ''ab'') 1000 sample_tools)"
  have "valid_date 0" by code_simp
  then have ok: "operation_ok ?op" by (simp add: operation_ok_def u_def is_scalar_def date_of_def day_us_def)
  have queue: "ts_queue ?s = [u ''ab'']" unfolding accepted_run by (simp add: sample_tools_def)
  have found: "memory_view (ts_operations ?s) (operation_key (u ''ab'')) \<noteq> None"
    unfolding accepted_run by (simp add: memory.set_view)
  have "tools_step memory_ops memory_view sample_tools ?s"
    by (rule tools_step.enqueue[OF ok]) (rule prod.collapse[symmetric])
  then have "(tools_step memory_ops memory_view)\<^sup>*\<^sup>* sample_tools ?s" by (rule r_into_rtranclp)
  note settle = manual_warmings_settle[where wview = memory_view, OF memory.kv_store_axioms this _ found,
      of sample_api memory_ops sample_warm_service 60]
  have "memory_view (ts_operations sample_tools) = Map.empty" by (simp add: sample_tools_def memory_view_def fun_eq_iff)
  then show ?thesis using settle unfolding Let_def queue by simp
qed

end
