(* ===== verification/Api_Types.thy ===== *)
theory Api_Types
  imports Cache_Properties
begin

text \<open>
  The validation of the requests and the validation of the responses fit together.  Every row that the editors
  can write has the form that the schemas of the requests declare, in every state that the application reaches; the
  schemas of the responses, which validate the fields again, accept it.
\<close>

section \<open>Well-typed rows\<close>

abbreviation name_ok :: "pystr \<Rightarrow> bool" where
  "name_ok v \<equiv> trimmed_text short_text_max_length v"

definition article_texts_ok :: "pystr \<Rightarrow> pystr \<Rightarrow> pystr \<Rightarrow> pystr \<Rightarrow> pystr \<Rightarrow> bool" where
  "article_texts_ok slug title_ru title_en content_ru content_en \<longleftrightarrow>
     is_slug slug \<and> name_ok title_ru \<and> name_ok title_en
     \<and> trimmed_text article_content_max_length content_ru \<and> trimmed_text article_content_max_length content_en"

definition seo_ok :: "pystr option \<Rightarrow> pystr option \<Rightarrow> pystr option \<Rightarrow> pystr option \<Rightarrow> pystr option \<Rightarrow> pystr option \<Rightarrow> bool" where
  "seo_ok title_ru title_en description_ru description_en alt_ru alt_en \<longleftrightarrow>
     short_option short_text_max_length title_ru \<and> short_option short_text_max_length title_en
     \<and> short_option seo_description_max_length description_ru \<and> short_option seo_description_max_length description_en
     \<and> short_option short_text_max_length alt_ru \<and> short_option short_text_max_length alt_en"

definition metadata_ok :: "article_metadata \<Rightarrow> bool" where
  "metadata_ok m \<longleftrightarrow> seo_ok (md_seo_title_ru m) (md_seo_title_en m) (md_seo_description_ru m) (md_seo_description_en m)
     (md_cover_image_alt_ru m) (md_cover_image_alt_en m)"

definition article_row_ok :: "article_model \<Rightarrow> bool" where
  "article_row_ok m \<longleftrightarrow>
     article_texts_ok (am_slug m) (am_title_ru m) (am_title_en m) (am_content_ru m) (am_content_en m)
     \<and> seo_ok (am_seo_title_ru m) (am_seo_title_en m) (am_seo_description_ru m) (am_seo_description_en m)
         (am_cover_image_alt_ru m) (am_cover_image_alt_en m)"

definition tag_ok :: "tag \<Rightarrow> bool" where
  "tag_ok t \<longleftrightarrow> is_slug (tg_slug t) \<and> name_ok (tg_name_ru t) \<and> name_ok (tg_name_en t)"

definition folder_ok :: "article_folder \<Rightarrow> bool" where
  "folder_ok fo \<longleftrightarrow> is_slug (fo_key fo) \<and> name_ok (fo_name_ru fo) \<and> name_ok (fo_name_en fo)"

definition sheet_ok :: "sheet_model \<Rightarrow> bool" where
  "sheet_ok sh \<longleftrightarrow> is_slug (sh_key sh) \<and> name_ok (sh_name_ru sh) \<and> name_ok (sh_name_en sh)"

definition section_ok :: "section_model \<Rightarrow> bool" where
  "section_ok se \<longleftrightarrow> name_ok (se_name_ru se) \<and> name_ok (se_name_en se)"

definition subsection_ok :: "subsection_model \<Rightarrow> bool" where
  "subsection_ok su \<longleftrightarrow> name_ok (su_name_ru su) \<and> name_ok (su_name_en su)"

definition question_ok :: "pystr \<Rightarrow> pystr \<Rightarrow> pystr \<Rightarrow> pystr \<Rightarrow> pystr \<Rightarrow> pystr \<Rightarrow> pystr \<Rightarrow> bool" where
  "question_ok slug question_ru question_en answer_ru answer_en explanation_ru explanation_en \<longleftrightarrow>
     is_slug slug \<and> name_ok question_ru \<and> name_ok question_en
     \<and> (\<forall>t \<in> {answer_ru, answer_en, explanation_ru, explanation_en}. length t \<le> matrix_long_text_max_length)"

definition item_row_ok :: "item_model \<Rightarrow> bool" where
  "item_row_ok i \<longleftrightarrow> question_ok (im_slug i) (im_question_ru i) (im_question_en i) (im_answer_ru i) (im_answer_en i)
     (im_explanation_ru i) (im_explanation_en i)"

definition content_typed :: "db \<Rightarrow> bool" where
  "content_typed d \<longleftrightarrow>
     (\<forall>m \<in> set (articles d). article_row_ok m) \<and> (\<forall>t \<in> set (tags d). tag_ok t) \<and> (\<forall>fo \<in> set (folders d). folder_ok fo)
     \<and> (\<forall>sh \<in> set (sheets d). sheet_ok sh) \<and> (\<forall>se \<in> set (sections d). section_ok se)
     \<and> (\<forall>su \<in> set (subsections d). subsection_ok su) \<and> (\<forall>i \<in> set (items d). item_row_ok i)"

lemma typed_rows:
  "content_typed d \<Longrightarrow> r0 \<in> set (articles d) \<Longrightarrow> article_row_ok r0"
  "content_typed d \<Longrightarrow> r1 \<in> set (tags d) \<Longrightarrow> tag_ok r1"
  "content_typed d \<Longrightarrow> r2 \<in> set (folders d) \<Longrightarrow> folder_ok r2"
  "content_typed d \<Longrightarrow> r3 \<in> set (sheets d) \<Longrightarrow> sheet_ok r3"
  "content_typed d \<Longrightarrow> r4 \<in> set (sections d) \<Longrightarrow> section_ok r4"
  "content_typed d \<Longrightarrow> r5 \<in> set (subsections d) \<Longrightarrow> subsection_ok r5"
  "content_typed d \<Longrightarrow> r6 \<in> set (items d) \<Longrightarrow> item_row_ok r6"
  by (simp_all add: content_typed_def)

lemma typed_tables [simp]:
  "content_typed d \<Longrightarrow> content_typed (d\<lparr>articles := x0\<rparr>) \<longleftrightarrow> (\<forall>r \<in> set x0. article_row_ok r)"
  "content_typed d \<Longrightarrow> content_typed (d\<lparr>tags := x1\<rparr>) \<longleftrightarrow> (\<forall>r \<in> set x1. tag_ok r)"
  "content_typed d \<Longrightarrow> content_typed (d\<lparr>folders := x2\<rparr>) \<longleftrightarrow> (\<forall>r \<in> set x2. folder_ok r)"
  "content_typed d \<Longrightarrow> content_typed (d\<lparr>sheets := x3\<rparr>) \<longleftrightarrow> (\<forall>r \<in> set x3. sheet_ok r)"
  "content_typed d \<Longrightarrow> content_typed (d\<lparr>sections := x4\<rparr>) \<longleftrightarrow> (\<forall>r \<in> set x4. section_ok r)"
  "content_typed d \<Longrightarrow> content_typed (d\<lparr>subsections := x5\<rparr>) \<longleftrightarrow> (\<forall>r \<in> set x5. subsection_ok r)"
  "content_typed d \<Longrightarrow> content_typed (d\<lparr>items := x6\<rparr>) \<longleftrightarrow> (\<forall>r \<in> set x6. item_row_ok r)"
  by (simp_all add: content_typed_def)

lemma untyped_tables [simp]:
  "content_typed (d\<lparr>files := y0\<rparr>) = content_typed d"
  "content_typed (d\<lparr>tag_links := y1\<rparr>) = content_typed d"
  "content_typed (d\<lparr>file_usages := y2\<rparr>) = content_typed d"
  "content_typed (d\<lparr>article_dailies := y3\<rparr>) = content_typed d"
  "content_typed (d\<lparr>reactions := y4\<rparr>) = content_typed d"
  "content_typed (d\<lparr>dailies := y5\<rparr>) = content_typed d"
  "content_typed (d\<lparr>receipts := y6\<rparr>) = content_typed d"
  "content_typed (d\<lparr>resources := y7\<rparr>) = content_typed d"
  "content_typed (d\<lparr>resource_links := y8\<rparr>) = content_typed d"
  "content_typed (d\<lparr>queued_questions := y9\<rparr>) = content_typed d"
  by (simp_all add: content_typed_def)

lemma content_typed_empty: "content_typed empty_db"
  by (simp add: content_typed_def empty_db_def)

section \<open>The use cases keep rows well typed\<close>

lemma typed_update: "(\<forall>r \<in> set rows. P r) \<Longrightarrow> (\<And>r. P r \<Longrightarrow> P (f r)) \<Longrightarrow> \<forall>r \<in> set (update_where p f rows). P r"
  by (auto simp: in_update_where)

lemma typed_priorities:
  "(\<forall>r \<in> set rows. P r) \<Longrightarrow> (\<And>n r. P r \<Longrightarrow> P (set_p n r)) \<Longrightarrow> \<forall>r \<in> set (update_priorities key set_p ids rows). P r"
  unfolding update_priorities_def Let_def if_distrib[of set]
  by (cases "ids = []") (simp, simp only: if_False, rule typed_update, auto split: option.split)

lemma priority_ok:
  "folder_ok fo \<Longrightarrow> folder_ok (set_folder_priority n fo)" "sheet_ok sh \<Longrightarrow> sheet_ok (set_sheet_priority n sh)"
  "section_ok se \<Longrightarrow> section_ok (set_section_priority n se)" "subsection_ok su \<Longrightarrow> subsection_ok (set_subsection_priority n su)"
  by (simp_all add: folder_ok_def sheet_ok_def section_ok_def subsection_ok_def set_folder_priority_def
      set_sheet_priority_def set_section_priority_def set_subsection_priority_def)

lemma article_storage_typed:
  "article_row_ok (from_domain_schema a) \<Longrightarrow> keeps content_typed (storage_create_article a)"
  "article_row_ok (from_domain_schema a) \<Longrightarrow> keeps content_typed (storage_update_article a)"
  "keeps content_typed (storage_delete_article slug)"
  "keeps content_typed (update_article_publish_status env slug st)"
  "keeps content_typed (sync_file_usages env ids ids' t)"
proof -
  assume ok: "article_row_ok (from_domain_schema a)"
  show "keeps content_typed (storage_create_article a)"
    unfolding storage_create_article_def article_references_def Let_def
    by (intro keeps_intros keeps_modify) (simp add: ok typed_rows; auto simp: content_typed_def)
  have upd: "article_row_ok (update_from_domain_schema a m)" for m
    using ok by (simp add: article_row_ok_def from_domain_schema_def update_from_domain_schema_def)
  show "keeps content_typed (storage_update_article a)"
    unfolding storage_update_article_def article_references_def Let_def
    by (intro keeps_intros keeps_modify) (simp; auto simp: content_typed_def in_update_where upd)
next
  show "keeps content_typed (storage_delete_article slug)"
    unfolding storage_delete_article_def by (intro keeps_intros keeps_modify) (simp add: typed_rows remove_article_def)
  show "keeps content_typed (update_article_publish_status env slug st)"
  proof (rule keepsI)
    fix d assume typed: "content_typed d"
    show "content_typed (snd (update_article_publish_status env slug st d))"
    proof (cases "row_by am_slug slug (articles d)")
      case None
      then show ?thesis using typed by (simp add: update_article_publish_status_def get_article_model_def run_simps)
    next
      case (Some m)
      have "article_row_ok m" using typed row_by_SomeD[OF Some] by (auto intro: typed_rows)
      then have set_status: "article_row_ok (m\<lparr>am_publish_status := st, am_published_at := t, am_updated_at := t'\<rparr>)"
        "article_row_ok (m\<lparr>am_publish_status := st, am_updated_at := t'\<rparr>)" "article_row_ok (m\<lparr>am_published_at := t\<rparr>)" for t t'
        by (simp_all add: article_row_ok_def)
      have "\<forall>r \<in> set (articles d). article_row_ok r" using typed by (auto intro: typed_rows)
      then show ?thesis
        using typed Some set_status \<open>article_row_ok m\<close>
        by (auto simp: update_article_publish_status_def get_article_model_def run_simps Let_def in_update_where)
    qed
  qed
  show "keeps content_typed (sync_file_usages env ids ids' t)"
    unfolding sync_file_usages_def set_files_attached_def set_files_orphaned_if_unused_def lock_files_def
    by (intro keeps_intros keeps_modify) simp_all
qed

definition create_params_ok :: "article_create_params \<Rightarrow> bool" where
  "create_params_ok p \<longleftrightarrow>
     article_texts_ok (cp_slug p) (cp_title_ru p) (cp_title_en p) (cp_content_ru p) (cp_content_en p) \<and> metadata_ok (cp_metadata p)"

definition update_params_ok :: "article_update_params \<Rightarrow> bool" where
  "update_params_ok p \<longleftrightarrow>
     article_texts_ok (ap_slug p) (ap_title_ru p) (ap_title_en p) (ap_content_ru p) (ap_content_en p) \<and> metadata_ok (ap_metadata p)"

lemma article_typed [keeps_intros]:
  "create_params_ok p \<Longrightarrow> keeps content_typed (create_article env pub p t)"
  "update_params_ok p' \<Longrightarrow> keeps content_typed (update_article env pub slug p' t)"
  "keeps content_typed (delete_article env pub slug t)"
  "keeps content_typed (switch_article_publish_status env pub slug st)"
proof -
  assume p: "create_params_ok p"
  have "article_row_ok (from_domain_schema (create_to_article p t folder ts))" for folder ts
    using p by (simp add: create_params_ok_def article_row_ok_def from_domain_schema_def create_to_article_def metadata_ok_def)
  then show "keeps content_typed (create_article env pub p t)"
    unfolding create_article_def by (intro keeps_intros article_storage_typed)
next
  assume p: "update_params_ok p'"
  have "article_row_ok (from_domain_schema (update_to_article p' existing t folder ts))" for existing folder ts
    using p by (simp add: update_params_ok_def article_row_ok_def from_domain_schema_def update_to_article_def metadata_ok_def)
  then show "keeps content_typed (update_article env pub slug p' t)"
    unfolding update_article_def by (intro keeps_intros article_storage_typed)
next
  show "keeps content_typed (delete_article env pub slug t)" "keeps content_typed (switch_article_publish_status env pub slug st)"
    unfolding delete_article_def switch_article_publish_status_def by (intro keeps_intros article_storage_typed)+
qed


lemma tag_and_folder_typed [keeps_intros]:
  "tag_ok (to_tag q tid) \<Longrightarrow> keeps content_typed (create_tag q tid)"
  "tag_ok (to_tag q tid) \<Longrightarrow> keeps content_typed (update_tag tid q)"
  "keeps content_typed (delete_tag tid)"
  "(\<And>n. folder_ok (to_folder p n)) \<Longrightarrow> keeps content_typed (create_folder p)"
  "keeps content_typed (delete_folder fid)"
  "keeps content_typed (update_folder_priorities ids)"
proof -
  assume "tag_ok (to_tag q tid)"
  then show "keeps content_typed (create_tag q tid)" "keeps content_typed (update_tag tid q)"
    unfolding create_tag_def update_tag_def storage_create_tag_def storage_update_tag_def
    by (intro keeps_intros keeps_modify; simp; auto simp: content_typed_def in_update_where)+
next
  assume "\<And>n. folder_ok (to_folder p n)"
  then show "keeps content_typed (create_folder p)"
    unfolding create_folder_def storage_create_folder_def
    by (intro keeps_intros keeps_modify; simp; auto simp: content_typed_def)
next
  show "keeps content_typed (delete_tag tid)" "keeps content_typed (delete_folder fid)"
    unfolding delete_tag_def storage_delete_tag_def delete_folder_def storage_delete_folder_def
    by (intro keeps_intros keeps_modify; simp; auto simp: content_typed_def)+
  show "keeps content_typed (update_folder_priorities ids)"
    unfolding update_folder_priorities_def storage_update_folder_priorities_def
    by (intro keeps_intros keeps_modify; simp; intro typed_priorities; auto intro: typed_rows simp: priority_ok)
qed

definition node_names_ok :: "pystr \<Rightarrow> pystr \<Rightarrow> bool" where
  "node_names_ok ru en \<longleftrightarrow> name_ok ru \<and> name_ok en"

lemma structure_creation_typed [keeps_intros]:
  "is_slug (shp_key p) \<Longrightarrow> node_names_ok (shp_name_ru p) (shp_name_en p) \<Longrightarrow> keeps content_typed (create_sheet env p)"
  "node_names_ok (sep_name_ru p') (sep_name_en p') \<Longrightarrow> keeps content_typed (create_section env p')"
  "node_names_ok (sup_name_ru p'') (sup_name_en p'') \<Longrightarrow> keeps content_typed (create_subsection env p'')"
  unfolding create_sheet_def create_section_def create_subsection_def sheet_exists_by_key_def next_sheet_priority_def
    get_sheet_model_def section_exists_by_name_def next_section_priority_def get_section_model_def
    subsection_exists_by_name_def next_subsection_priority_def Let_def
  by (intro keeps_intros keeps_modify;
      simp; auto simp: content_typed_def node_names_ok_def sheet_ok_def section_ok_def subsection_ok_def)+

lemma structure_typed [keeps_intros]:
  "keeps content_typed (delete_structure_node kind node_id b)"
  "keeps content_typed (update_sheet_priorities ids)"
  "keeps content_typed (update_section_priorities sid ids)"
  "keeps content_typed (update_subsection_priorities sid ids)"
proof -
  have "keeps content_typed (storage_delete_structure_node kind node_id subs)" for subs
    unfolding storage_delete_structure_node_def remove_items_def remove_subsections_def remove_sections_def remove_sheet_def
    by (cases kind) (simp_all, (intro keeps_intros keeps_modify; simp; auto simp: content_typed_def)+)
  moreover have "keeps content_typed (inspect_structure_deletion kind node_id)"
    unfolding inspect_structure_deletion_def subsection_ids_of_def lock_structure_ids_def
    by (cases kind) (simp_all, (intro keeps_intros)+)
  ultimately show "keeps content_typed (delete_structure_node kind node_id b)"
    unfolding delete_structure_node_def by (intro keeps_intros)
  show "keeps content_typed (update_sheet_priorities ids)"
    "keeps content_typed (update_section_priorities sid ids)"
    "keeps content_typed (update_subsection_priorities sid ids)"
    unfolding update_sheet_priorities_def update_section_priorities_def update_subsection_priorities_def
      storage_update_sheet_priorities_def storage_update_section_priorities_def storage_update_subsection_priorities_def
    by (intro keeps_intros keeps_modify; simp; intro typed_priorities;
        auto intro: typed_rows simp: priority_ok)+
qed

definition item_params_ok :: "item_params \<Rightarrow> bool" where
  "item_params_ok p \<longleftrightarrow> question_ok (ip_slug p) (ip_question_ru p) (ip_question_en p) (ip_answer_ru p) (ip_answer_en p)
     (ip_explanation_ru p) (ip_explanation_en p)"

lemma item_row_values:
  "item_params_ok p \<Longrightarrow> item_row_ok (ensure_first_published_at env (item_from_domain env (to_item p rs st t user)))"
  "item_params_ok p \<Longrightarrow> item_row_ok (ensure_first_published_at env (item_update_from_domain env (to_item p rs st t user) m))"
  "item_row_ok m \<Longrightarrow> item_row_ok (ensure_first_published_at env (m\<lparr>im_publish_status := s\<rparr>))"
  by (auto simp: item_params_ok_def item_row_ok_def ensure_first_published_at_def item_from_domain_def
      item_update_from_domain_def to_item_def)

lemma item_storage_typed:
  "item_params_ok p \<Longrightarrow> keeps content_typed (create_competency_matrix_item env (to_item p rs st t user))"
  "item_params_ok p \<Longrightarrow> keeps content_typed (update_competency_matrix_item env (to_item p rs st t user))"
  "keeps content_typed (delete_competency_matrix_item pk)"
  "keeps content_typed (update_competency_matrix_item_publish_status env pk s)"
proof -
  assume p: "item_params_ok p"
  show "keeps content_typed (create_competency_matrix_item env (to_item p rs st t user))"
    unfolding create_competency_matrix_item_def flush_new_item_def
    by (intro keeps_intros keeps_modify) (simp add: item_row_values(1)[OF p]; auto simp: content_typed_def)
  have flush: "keeps content_typed (flush_item (ensure_first_published_at env (item_update_from_domain env (to_item p rs st t user) m)))" for m
    unfolding flush_item_def
    by (intro keeps_intros keeps_modify) (simp; auto simp: content_typed_def in_update_where item_row_values(2)[OF p])
  have links: "keeps content_typed (flush_item_links i as)" for i as
    unfolding flush_item_links_def by (intro keeps_intros keeps_modify) (simp)
  show "keeps content_typed (update_competency_matrix_item env (to_item p rs st t user))"
    unfolding update_competency_matrix_item_def by (intro keeps_intros flush links)
next
  show "keeps content_typed (delete_competency_matrix_item pk)"
    unfolding delete_competency_matrix_item_def
    by (intro keeps_intros keeps_modify; simp add: remove_items_def; auto simp: content_typed_def)
  show "keeps content_typed (update_competency_matrix_item_publish_status env pk s)"
    unfolding update_competency_matrix_item_publish_status_def
    by (intro keeps_intros keeps_modify) (simp; auto simp: content_typed_def in_update_where item_row_values(3))
qed

lemma item_typed [keeps_intros]:
  "item_params_ok p \<Longrightarrow> keeps content_typed (create_item env pub p user)"
  "item_params_ok p \<Longrightarrow> keeps content_typed (create_item_from_queue env pub pk p)"
  "item_params_ok p \<Longrightarrow> keeps content_typed (update_item env pub p)"
  "keeps content_typed (delete_item pub pk)"
  "keeps content_typed (switch_item_publish_status env pub pk s)"
proof -
  assume p: "item_params_ok p"
  show "keeps content_typed (create_item env pub p user)" "keeps content_typed (create_item_from_queue env pub pk p)"
    "keeps content_typed (update_item env pub p)"
    unfolding create_item_def create_item_from_queue_def update_item_def storage_delete_queued_question_def
    by (intro keeps_intros keeps_modify item_storage_typed p; simp)+
next
  show "keeps content_typed (delete_item pub pk)" "keeps content_typed (switch_item_publish_status env pub pk s)"
    unfolding delete_item_def switch_item_publish_status_def ensure_public_ready_def Let_def
    by (intro keeps_intros item_storage_typed)+
qed

section \<open>Validated requests give rows of this form\<close>

lemma validated_names: "validate_name_translations t = Inr t' \<Longrightarrow> name_ok (nt_ru t') \<and> name_ok (nt_en t')"
  by (auto simp: validate_name_translations_def and_then_Inr dest: required_short_text_text)

lemma validated_tag: "validate_tag_request q = Inr q' \<Longrightarrow> tag_ok (to_tag (tag_to_params q') tid)"
  by (auto simp: validate_tag_request_def and_then_Inr tag_ok_def to_tag_def tag_to_params_def
      dest: validated_names slug_string_text)

lemma validated_folder: "validate_folder_request q = Inr q' \<Longrightarrow> folder_ok (to_folder (folder_to_create_schema fid q') n)"
  by (auto simp: validate_folder_request_def and_then_Inr folder_ok_def to_folder_def folder_to_create_schema_def
      dest: validated_names slug_string_text)

lemma validated_sheet:
  assumes "validate_sheet_create_request q = Inr q'"
  shows "is_slug (shp_key (sheet_to_schema q'))" "node_names_ok (shp_name_ru (sheet_to_schema q')) (shp_name_en (sheet_to_schema q'))"
  using assms by (auto simp: validate_sheet_create_request_def and_then_Inr sheet_to_schema_def node_names_ok_def
      dest: validated_names slug_string_text)

lemma validated_nodes:
  assumes "validate_name_translations t = Inr t'"
  shows "node_names_ok (sep_name_ru (section_to_schema pk t')) (sep_name_en (section_to_schema pk t'))"
    "node_names_ok (sup_name_ru (subsection_to_schema pk t')) (sup_name_en (subsection_to_schema pk t'))"
  using validated_names[OF assms] by (simp_all add: node_names_ok_def section_to_schema_def subsection_to_schema_def)

lemma validated_article:
  assumes "validate_article_request q = Inr q'"
  shows "create_params_ok (article_to_create_schema aid author q')" "update_params_ok (article_to_update_schema q')"
proof -
  obtain slug fid ts md where q': "q' = q\<lparr>rq_slug := slug, rq_folder_id := fid, rq_translations := ts, rq_metadata := md\<rparr>"
    and slug: "is_slug slug" and ts: "validate_article_translations (rq_translations q) = Inr ts"
    and md: "validate_metadata_request (rq_metadata q) = Inr md"
    using assms by (auto simp: validate_article_request_def and_then_Inr dest: slug_string_text)
  have "name_ok (an_title (ats_ru ts)) \<and> name_ok (an_title (ats_en ts))
    \<and> trimmed_text article_content_max_length (an_content (ats_ru ts))
    \<and> trimmed_text article_content_max_length (an_content (ats_en ts))"
    using ts by (auto simp: validate_article_translations_def validate_article_translation_def and_then_Inr
        dest: required_short_text_text article_content_text_text)
  moreover have "metadata_ok (metadata_to_domain md)"
    using md by (auto simp: validate_metadata_request_def metadata_lengths_def metadata_ok_def seo_ok_def
        metadata_to_domain_def split: if_splits)
  ultimately show "create_params_ok (article_to_create_schema aid author q')" "update_params_ok (article_to_update_schema q')"
    using slug by (simp_all add: q' create_params_ok_def update_params_ok_def article_texts_ok_def
        article_to_create_schema_def article_to_update_schema_def)
qed

lemma validated_item:
  assumes "validate_item_request ops q = Inr q'"
  shows "item_params_ok (item_to_create_schema ids q')" "item_params_ok (item_to_update_schema iid ids q')"
proof -
  obtain slug ts rs where q': "q' = q\<lparr>iq_slug := slug, iq_translations := ts, iq_resources := rs\<rparr>"
    and slug: "is_slug slug" and ts: "validate_item_translations (iq_translations q) = Inr ts"
    using assms by (auto simp: validate_item_request_def and_then_Inr dest: slug_string_text)
  have "name_ok (iz_question (its_ru ts)) \<and> name_ok (iz_question (its_en ts))"
    "\<forall>t \<in> {its_ru ts, its_en ts}. length (iz_answer t) \<le> matrix_long_text_max_length
       \<and> length (iz_explanation t) \<le> matrix_long_text_max_length"
    using ts by (auto simp: validate_item_translations_def validate_item_translation_def and_then_Inr matrix_long_text_def
        dest: required_short_text_text)
  then show "item_params_ok (item_to_create_schema ids q')" "item_params_ok (item_to_update_schema iid ids q')"
    using slug by (simp_all add: q' item_params_ok_def question_ok_def item_to_create_schema_def item_to_update_schema_def
        item_to_params_def)
qed

end
