(* ===== verification/Api_Shown.thy ===== *)
theory Api_Shown
  imports Api_Types
begin

text \<open>
  What is stored can be shown.  Every request, cached or not, and every background task keeps the rows well typed;
  the reads of the site therefore pass the validation of the schemas of their responses, whatever has been written
  before.
\<close>

section \<open>Requests keep rows well typed\<close>

definition session_typed :: "'q session \<Rightarrow> bool" where
  "session_typed s \<longleftrightarrow> content_typed (session_db s)"

named_theorems session_intros \<open>rules that derive what an endpoint keeps of its session\<close>

lemma keeps_validated: "(\<And>a. r = Inr a \<Longrightarrow> keeps I (k a)) \<Longrightarrow> keeps I (bind (lift r) k)"
  by (auto simp: keeps_def bind_def lift_def ret_def raise_def split: sum.splits prod.splits)

lemma keeps_on_database: "keeps content_typed m \<Longrightarrow> keeps session_typed (on_database m)"
  by (auto simp: keeps_def session_typed_def on_database_def on_world_def in_db_def split: prod.splits)

lemma keeps_on_world: "keeps (\<lambda>w. content_typed (w_db w)) m \<Longrightarrow> keeps session_typed (on_world m)"
  by (auto simp: keeps_def session_typed_def on_world_def split: prod.splits)

lemma keeps_on_quota:
  fixes m :: "(error, db \<times> 'q, 'a) action"
  assumes "keeps (\<lambda>p. content_typed (fst p)) m"
  shows "keeps session_typed (on_database_and_quota m)"
proof (rule keepsI)
  fix s :: "'q session" assume "session_typed s"
  then have "content_typed (fst (snd (m (session_db s, sn_quota s))))"
    using keepsD[OF assms, of "(session_db s, sn_quota s)"] by (simp add: session_typed_def)
  then show "session_typed (snd (on_database_and_quota m s))"
    by (auto simp: session_typed_def on_database_and_quota_def split: prod.splits)
qed

lemma session_plain [session_intros]:
  "keeps session_typed (invalidate_response_cache_domain_for_mutation c domain)" "keeps session_typed (respond f r)"
proof -
  show "keeps session_typed (invalidate_response_cache_domain_for_mutation c domain)"
    unfolding invalidate_response_cache_domain_for_mutation_def by (intro keeps_intros keeps_modify) (simp add: session_typed_def)
  show "keeps session_typed (respond f r)"
    unfolding respond_def by (rule keeps_lift)
qed

lemma typed_of_public_fields: "public_fields d' = public_fields d \<Longrightarrow> content_typed d' = content_typed d"
  by (simp add: public_fields_def article_fields_def matrix_fields_def content_typed_def)

lemma typed_by_public_fields:
  assumes "\<And>x. keeps (\<lambda>d. public_fields d = x) m"
  shows "keeps content_typed m"
proof (rule keepsI)
  fix d assume typed: "content_typed d"
  have "public_fields (snd (m d)) = public_fields d"
    using keepsD[OF assms[of "public_fields d"], of d] by simp
  then show "content_typed (snd (m d))" using typed typed_of_public_fields by blast
qed

lemma reader_typed:
  "keeps content_typed (track_view env a source)" "keeps content_typed (track_public_view env a referrer cfg)"
  "keeps content_typed (track_engaged_view env slug source)" "keeps content_typed (set_reaction env slug token kind acfg)"
  "keeps content_typed (create_queued_question env p user)" "keeps content_typed (import_queued_questions env ps user)"
  "keeps content_typed (delete_queued_question pk)"
  by (rule typed_by_public_fields, intro keeps_intros)+

lemma file_service_typed:
  "keeps (\<lambda>w. content_typed (w_db w)) (upload_file env ops p now)"
  "keeps (\<lambda>w. content_typed (w_db w)) (service_update_file env fid name now)"
  "keeps (\<lambda>w. content_typed (w_db w)) (service_delete_file env fid)"
  "keeps (\<lambda>w. content_typed (w_db w)) (prune env limit cutoff)"
proof -
  have rows: "keeps content_typed (create_file f)" "keeps content_typed (refresh_file_orphaned_at env fid t)"
    "keeps content_typed (update_file_name fid name t)" "keeps content_typed (delete_file_row fid)"
    for f fid t name
    unfolding create_file_def refresh_file_orphaned_at_def update_file_name_def delete_file_row_def get_file_def
    by (intro keeps_intros keeps_modify; auto simp: content_typed_def)+
  show "keeps (\<lambda>w. content_typed (w_db w)) (upload_file env ops p now)"
    unfolding upload_file_def Let_def by (auto intro!: keeps_intros rows split: option.splits)
  show "keeps (\<lambda>w. content_typed (w_db w)) (service_update_file env fid name now)"
    "keeps (\<lambda>w. content_typed (w_db w)) (service_delete_file env fid)"
    unfolding service_update_file_def service_delete_file_def by (intro keeps_intros rows)+
  show "keeps (\<lambda>w. content_typed (w_db w)) (prune env limit cutoff)"
    by (rule keepsI) (auto simp: prune_run Let_def without_files_def content_typed_def)
qed

lemma reads_keep:
  "keeps I (get_public_stats ids)" "keeps I (get_stats day day' lang)" "keeps I (preview_queued_questions_import rows)"
  "keeps I (list_workspace_items filters)" "keeps I (list_workspace_filter_options lang)" "keeps I (list_targets lang)"
  by (auto simp: get_public_stats_def get_stats_def preview_queued_questions_import_def list_workspace_items_def
      list_workspace_filter_options_def list_targets_def storage_get_public_stats_def get_daily_stats_def
      get_reaction_counts_def get_view_counts_def list_competency_matrix_workspace_items_def
      list_competency_matrix_workspace_filter_options_def list_tree_items_def list_published_tree_items_def
      workspace_summary_of_def Let_def intro!: keeps_intros)

lemmas session_use_cases =
  keeps_on_database[OF article_typed(1)] keeps_on_database[OF article_typed(2)] keeps_on_database[OF article_typed(3)]
  keeps_on_database[OF article_typed(4)] keeps_on_database[OF tag_and_folder_typed(1)] keeps_on_database[OF tag_and_folder_typed(2)]
  keeps_on_database[OF tag_and_folder_typed(3)] keeps_on_database[OF tag_and_folder_typed(4)]
  keeps_on_database[OF tag_and_folder_typed(5)] keeps_on_database[OF tag_and_folder_typed(6)]
  keeps_on_database[OF structure_creation_typed(1)] keeps_on_database[OF structure_creation_typed(2)]
  keeps_on_database[OF structure_creation_typed(3)] keeps_on_database[OF structure_typed(1)]
  keeps_on_database[OF structure_typed(2)] keeps_on_database[OF structure_typed(3)] keeps_on_database[OF structure_typed(4)]
  keeps_on_database[OF item_typed(1)] keeps_on_database[OF item_typed(2)] keeps_on_database[OF item_typed(3)]
  keeps_on_database[OF item_typed(4)] keeps_on_database[OF item_typed(5)]
  keeps_on_database[OF reader_typed(1)] keeps_on_database[OF reader_typed(2)] keeps_on_database[OF reader_typed(3)]
  keeps_on_database[OF reader_typed(4)] keeps_on_database[OF reader_typed(6)] keeps_on_database[OF reader_typed(7)]
  keeps_on_quota[OF suggest_question_keeps[OF reader_typed(5)]]
  keeps_on_world[OF file_service_typed(1)] keeps_on_world[OF file_service_typed(2)] keeps_on_world[OF file_service_typed(3)]
  keeps_on_world[OF file_service_reads(1)] keeps_on_world[OF file_service_reads(2)]

lemma readings_typed:
  "keeps session_typed (public_endpoint c r)" "keeps session_typed (public_get_stats c ids)"
  "keeps session_typed (admin_list_articles c q st)" "keeps session_typed (admin_list_articles_tree c lang)"
  "keeps session_typed (admin_list_folders c lang)" "keeps session_typed (admin_get_article c slug only_published lang)"
  "keeps session_typed (admin_get_stats c day day' lang)" "keeps session_typed (admin_list_tags c lang)"
  "keeps session_typed (admin_list_structure c lang)" "keeps session_typed (admin_list_queued_questions c)"
  "keeps session_typed (post_import_preview c file)" "keeps session_typed (admin_list_workspace c wq)"
  "keeps session_typed (admin_list_filter_options c lang)" "keeps session_typed (admin_list_items c key only_published lang)"
  "keeps session_typed (admin_get_item c pk only_published lang)" "keeps session_typed (admin_list_files c purpose)"
  "keeps session_typed (admin_get_file c pk)" "keeps session_typed (admin_list_wiki_link_targets c lang)"
proof -
  show "keeps session_typed (public_endpoint c r)"
    by (simp add: keeps_def public_endpoint_run)
  show "keeps session_typed (public_get_stats c ids)"
    "keeps session_typed (admin_list_articles c q st)" "keeps session_typed (admin_list_articles_tree c lang)"
    "keeps session_typed (admin_list_folders c lang)" "keeps session_typed (admin_get_article c slug only_published lang)"
    "keeps session_typed (admin_get_stats c day day' lang)" "keeps session_typed (admin_list_tags c lang)"
    "keeps session_typed (admin_list_structure c lang)" "keeps session_typed (admin_list_queued_questions c)"
    "keeps session_typed (post_import_preview c file)" "keeps session_typed (admin_list_workspace c wq)"
    "keeps session_typed (admin_list_filter_options c lang)" "keeps session_typed (admin_list_items c key only_published lang)"
    "keeps session_typed (admin_get_item c pk only_published lang)" "keeps session_typed (admin_list_files c purpose)"
    "keeps session_typed (admin_get_file c pk)" "keeps session_typed (admin_list_wiki_link_targets c lang)"
    unfolding public_get_stats_def admin_list_articles_def admin_list_articles_tree_def admin_list_folders_def
      admin_get_article_def admin_get_stats_def admin_list_tags_def admin_list_structure_def admin_list_queued_questions_def
      post_import_preview_def admin_list_workspace_def admin_list_filter_options_def admin_list_items_def admin_get_item_def
      admin_list_files_def admin_get_file_def admin_list_wiki_link_targets_def
    by (intro session_intros session_use_cases keeps_on_database reads_keep keeps_intros)+
qed

lemma requests_typed:
  "keeps session_typed (post_article_view c acfg slug source referer)"
  "keeps session_typed (post_article_engaged_view c slug source)" "keeps session_typed (post_article_reaction c acfg slug reaction)"
  "keeps session_typed (post_question_suggestion c vk ns cfg client suggestion)"
  "keeps session_typed (post_queued_question c vk ns cfg suggestion)"
  "keeps session_typed (post_import c file selected)" "keeps session_typed (delete_queued_endpoint c pk)"
  "keeps session_typed (post_file c upload)" "keeps session_typed (put_file c pk name)"
  "keeps session_typed (delete_file_endpoint c pk)"
  unfolding post_article_view_def post_article_engaged_view_def post_article_reaction_def post_question_suggestion_def
    post_queued_question_def post_import_def delete_queued_endpoint_def post_file_def put_file_def delete_file_endpoint_def
    option.case_distrib[of on_database]
  by (intro session_intros session_use_cases keeps_on_database[OF get_article_reads] keeps_intros)+

lemma editors_typed:
  "keeps session_typed (post_article c lang article)" "keeps session_typed (post_folder c lang folder)"
  "keeps session_typed (put_article c lang slug article)" "keeps session_typed (post_tag c lang tag)"
  "keeps session_typed (put_tag c lang pk tag)" "keeps session_typed (post_sheet c lang sheet)"
  "keeps session_typed (post_section c lang pk names)" "keeps session_typed (post_subsection c lang pk names)"
  "keeps session_typed (post_item_from_queue c lang pk item)" "keeps session_typed (post_item c lang item)"
  "keeps session_typed (put_item c lang pk item)"
  unfolding post_article_def post_folder_def put_article_def post_tag_def put_tag_def post_sheet_def post_section_def
    post_subsection_def post_item_from_queue_def post_item_def put_item_def
  by (rule keeps_validated,
      intro keeps_bind session_intros session_use_cases; elim validated_article validated_folder validated_tag
        validated_sheet validated_nodes validated_item)+

lemma deletions_typed:
  "keeps session_typed (delete_folder_endpoint c pk)" "keeps session_typed (put_folder_priorities c ids)"
  "keeps session_typed (delete_article_endpoint c slug)" "keeps session_typed (set_article_status c slug status)"
  "keeps session_typed (delete_tag_endpoint c pk)" "keeps session_typed (delete_structure_endpoint c kind pk delete_with_questions)"
  "keeps session_typed (put_sheet_priorities c ids)" "keeps session_typed (put_section_priorities c pk ids)"
  "keeps session_typed (put_subsection_priorities c pk ids)" "keeps session_typed (delete_item_endpoint c pk)"
  "keeps session_typed (set_item_status c pk status)"
  unfolding delete_folder_endpoint_def put_folder_priorities_def delete_article_endpoint_def set_article_status_def
    delete_tag_endpoint_def delete_structure_endpoint_def put_sheet_priorities_def put_section_priorities_def
    put_subsection_priorities_def delete_item_endpoint_def set_item_status_def
  by (intro session_intros session_use_cases keeps_intros)+

lemma site_analytics_typed:
  "keeps session_typed (post_visit c gcfg dnt visit)" "keeps session_typed (admin_get_report c rq)"
proof -
  have visit: "keeps content_typed (record_public_visit env gcfg v day)" for env v day
    unfolding record_public_visit_def get_competency_matrix_item_by_slug_def
    by (intro keeps_intros typed_by_public_fields record_visit_frames)
  show "keeps session_typed (post_visit c gcfg dnt visit)"
    unfolding post_visit_def by (intro session_intros keeps_on_database visit keeps_intros)
  show "keeps session_typed (admin_get_report c rq)"
    unfolding admin_get_report_def get_report_def get_daily_def get_reaction_counts_def
    by (intro session_intros keeps_on_database keeps_intros)
qed

lemma endpoint_typed: "endpoint c m \<Longrightarrow> keeps session_typed m"
  by (induction rule: endpoint.induct) (rule readings_typed requests_typed editors_typed deletions_typed site_analytics_typed)+

section \<open>Every step keeps rows well typed\<close>

definition app_typed :: "('q, 'st) app \<Rightarrow> bool" where
  "app_typed a \<longleftrightarrow> content_typed (app_db a)"

lemma app_typed_plain [keeps_intros]:
  "keeps app_typed (on_cache m)" "keeps app_typed (run_post_commit_actions c ops domains)" "keeps app_typed (write_target ops t)"
proof -
  show cached: "keeps app_typed (on_cache m)" for m
    by (auto simp: keeps_def app_typed_def on_cache_def split: prod.splits)
  show "keeps app_typed (write_target ops t)" unfolding write_target_def by (rule cached)
  show "keeps app_typed (run_post_commit_actions c ops domains)"
    unfolding run_post_commit_actions_def invalidate_and_enqueue_response_cache_warm_domain_def invalidate_response_cache_domain_def
    by (intro cached keeps_intros keeps_modify) (simp add: app_typed_def)
qed

lemma run_endpoint_typed:
  fixes m :: "('q, 'r) handler" and ops :: "('st, response) store_ops"
  assumes "\<And>s r s'. session_typed s \<Longrightarrow> m s = (Inr r, s') \<Longrightarrow> session_typed s'"
  shows "keeps app_typed (run_endpoint c ops m)"
proof (rule keepsI)
  fix a :: "('q, 'st) app" assume typed: "app_typed a"
  let ?s = "\<lparr>sn_world = ap_world a, sn_quota = ap_quota a, sn_post_commit = []\<rparr>"
  obtain x s where run: "m ?s = (x, s)" by (cases "m ?s")
  show "app_typed (snd (run_endpoint c ops m a))"
  proof (cases x)
    case (Inl e)
    then show ?thesis using typed run by (simp add: run_endpoint_def app_typed_def)
  next
    case (Inr r)
    have "session_typed s" using assms[OF _ run[unfolded Inr]] typed by (simp add: session_typed_def app_typed_def)
    then have "app_typed (a\<lparr>ap_world := sn_world s, ap_quota := sn_quota s\<rparr>)" by (simp add: session_typed_def app_typed_def)
    moreover have "keeps app_typed (bind (run_post_commit_actions c ops (sn_post_commit s)) (\<lambda>_. ret r))"
      by (intro keeps_intros)
    ultimately have "app_typed (snd (bind (run_post_commit_actions c ops (sn_post_commit s)) (\<lambda>_. ret r)
        (a\<lparr>ap_world := sn_world s, ap_quota := sn_quota s\<rparr>)))" by (rule keepsD[rotated])
    then show ?thesis using run Inr by (simp add: run_endpoint_def)
  qed
qed

lemma run_typed_endpoint: "keeps session_typed m \<Longrightarrow> keeps app_typed (run_endpoint c ops m)"
  by (rule run_endpoint_typed) (rule keeps_run)

lemma collecting_typed:
  assumes "1 \<le> n" "n \<le> 100" "session_typed s" "on_database (collect_targets c n domains) s = (Inr r, s')"
  shows "session_typed s'"
  using assms collect_targets_finds[OF assms(1,2), of False domains "session_db s" c]
  by (auto simp: on_database_def on_world_def in_db_def finds_def session_typed_def split: prod.splits)

lemma step_typed:
  assumes "app_step site ops view warmed a a'" "app_typed a"
  shows "app_typed a'"
  using assms(1)
proof cases
  case (request c m x)
  show ?thesis by (rule keeps_run[OF run_typed_endpoint[OF endpoint_typed[OF request(2)]] request(3) assms(2)])
next
  case (cached_request c r x)
  have "keeps app_typed (serve c ops r)"
    unfolding serve_def by (intro run_typed_endpoint[OF readings_typed(1)] keeps_intros)
  from keeps_run[OF this cached_request(3) assms(2)] show ?thesis .
next
  case (warming c sv requested x)
  have "keeps app_typed (warm_domains c ops sv requested)"
    unfolding warm_domains_def Let_def by (intro run_endpoint_typed[OF collecting_typed[OF warming(2,3)]] keeps_intros)
  from keeps_run[OF this warming(5) assms(2)] show ?thesis .
next
  case (clearing domains x)
  show ?thesis by (rule keeps_run[OF app_typed_plain(1) clearing assms(2)])
next
  case (expiry ss)
  then show ?thesis using assms(2) by (simp add: app_typed_def)
next
  case (cleanup env limit cutoff x w)
  then show ?thesis using keeps_run[OF file_service_typed(4) cleanup(2)] assms(2) by (simp add: app_typed_def)
qed

lemma reachable_typed: "(app_step site ops view warmed)\<^sup>*\<^sup>* a a' \<Longrightarrow> app_typed a \<Longrightarrow> app_typed a'"
  by (induction rule: rtranclp_induct) (blast intro: step_typed)+

section \<open>Well-typed rows pass the validation of the responses\<close>

lemma names_shown: "name_ok ru \<Longrightarrow> name_ok en \<Longrightarrow> validate_name_translations \<lparr>nt_ru = ru, nt_en = en\<rparr> = Inr \<lparr>nt_ru = ru, nt_en = en\<rparr>"
  by (simp add: validate_name_translations_def required_short_text_again)

lemma all_shown: "(\<And>x. x \<in> set xs \<Longrightarrow> \<exists>y. f x = Inr y) \<Longrightarrow> \<exists>ys. all_or_error (map f xs) = Inr ys"
  by (induction xs) (auto split: sum.splits; fastforce)+

lemma tag_shown: "tag_ok t \<Longrightarrow> tag_response_of lang t = Inr \<lparr>tr_id = tg_id t, tr_name = localized lang (tg_name_ru t) (tg_name_en t),
    tr_slug = tg_slug t, tr_translations = \<lparr>nt_ru = tg_name_ru t, nt_en = tg_name_en t\<rparr>\<rparr>"
  by (simp add: tag_response_of_def tag_translations_response_def names_shown tag_ok_def)

lemma tag_shown_again: "tag_ok t \<Longrightarrow> tag_response_of lang t = Inr r \<Longrightarrow> validate_tag_response r = Inr r"
  by (auto simp: tag_shown validate_tag_response_def names_shown tag_ok_def)

lemma folder_shown: "folder_ok fo \<Longrightarrow> \<exists>r. folder_response_of lang fo = Inr r"
  by (simp add: folder_response_of_def names_shown folder_ok_def)

section \<open>Reading well-typed rows\<close>

text \<open>A reading action leaves the database alone, raises no validation error and returns what satisfies \<open>P\<close>.\<close>

definition sound_read :: "db \<Rightarrow> 'a dbm \<Rightarrow> ('a \<Rightarrow> bool) \<Rightarrow> bool" where
  "sound_read d m P \<longleftrightarrow> (case m d of (Inl e, d') \<Rightarrow> e \<noteq> ValidationError | (Inr a, d') \<Rightarrow> d' = d \<and> P a)"

lemma sound_bind: "sound_read d m P \<Longrightarrow> (\<And>a. P a \<Longrightarrow> sound_read d (k a) Q) \<Longrightarrow> sound_read d (bind m k) Q"
  by (fastforce simp: sound_read_def bind_def split: prod.splits sum.splits)

lemma sound_plain:
  "P a \<Longrightarrow> sound_read d (ret a) P" "e \<noteq> ValidationError \<Longrightarrow> sound_read d (raise e) P'"
  "P'' (f d) \<Longrightarrow> sound_read d (gets f) P''"
  by (simp_all add: sound_read_def run_simps)

lemma sound_lift: "r \<noteq> Inl ValidationError \<Longrightarrow> (\<And>a. r = Inr a \<Longrightarrow> P a) \<Longrightarrow> sound_read d (lift r) P"
  by (cases r) (auto simp: sound_read_def run_simps)

lemma sound_map_action:
  "(\<And>x. x \<in> set xs \<Longrightarrow> sound_read d (f x) P) \<Longrightarrow> sound_read d (map_action f xs) (\<lambda>ys. \<forall>y \<in> set ys. P y)"
proof (induction xs)
  case Nil
  then show ?case by (simp add: sound_read_def run_simps)
next
  case (Cons x xs)
  have "sound_read d (map_action f xs) (\<lambda>ys. \<forall>y \<in> set ys. P y)" using Cons by simp
  then show ?case using Cons.prems[of x]
    by (auto intro!: sound_bind[where P = P] sound_bind[where P = "\<lambda>ys. \<forall>y \<in> set ys. P y"] sound_plain)
qed

lemma all_sound:
  "(\<And>x. x \<in> set xs \<Longrightarrow> f x \<noteq> Inl ValidationError) \<Longrightarrow> all_or_error (map f xs) \<noteq> Inl ValidationError"
  by (induction xs) (auto split: sum.splits)

lemma all_found: "all_or_error (map f xs) = Inr ys \<Longrightarrow> y \<in> set ys \<Longrightarrow> \<exists>x \<in> set xs. f x = Inr y"
  by (auto simp: all_or_error_Inr map_eq_conv dest: map_eq_imp_length_eq) (metis image_iff list.set_map sum.inject(2))

lemma required_sound: "e \<noteq> ValidationError \<Longrightarrow> require e v \<noteq> Inl ValidationError"
  by (simp add: require_def split: option.split)

section \<open>Articles are shown\<close>

definition url_accepted :: "api \<Rightarrow> stored_file \<Rightarrow> bool" where
  "url_accepted c f \<longleftrightarrow>
     (let url = env_object_url (ax_env c) (sf_namespace f) (sf_relative_path f) in
      length url \<le> url_max_length \<and> ad_http_url (ax_adapters c) (strip url))"

definition article_texts :: "article \<Rightarrow> bool" where
  "article_texts a \<longleftrightarrow>
     article_texts_ok (ac_slug a) (ac_title_ru a) (ac_title_en a) (ac_content_ru a) (ac_content_en a)
     \<and> metadata_ok (ac_metadata a) \<and> (\<forall>t \<in> set (ac_tags a). tag_ok t)"

definition article_ok :: "adapters \<Rightarrow> article \<Rightarrow> bool" where
  "article_ok ops a \<longleftrightarrow> article_texts a
     \<and> (case md_cover_image_url (ac_metadata a) of None \<Rightarrow> True
        | Some url \<Rightarrow> length url \<le> url_max_length \<and> ad_http_url ops (strip url))"

lemma metadata_shown:
  assumes "metadata_lengths m"
    and "case mr_cover_image_url m of None \<Rightarrow> True | Some url \<Rightarrow> length url \<le> url_max_length \<and> ad_http_url ops (strip url)"
  obtains m' where "validate_metadata_response ops m = Inr m'" "validate_metadata_response ops m' = Inr m'"
proof (cases "mr_cover_image_url m")
  case None
  then show ?thesis using assms(1) that[of m]
    by (simp add: validate_metadata_response_def optional_http_url_string_def optional_field_def after_validator_def
        validate_optional_http_url_def)
next
  case (Some url)
  let ?url = "if strip url = [] then None else Some (strip url)"
  have "optional_http_url_string ops (Some url) = Inr ?url" "optional_http_url_string ops ?url = Inr ?url"
    using assms(2) Some length_strip[of url]
    by (auto simp: optional_http_url_string_def optional_field_def after_validator_def validate_optional_http_url_def
        validate_http_url_format_def field_length_def)
  then show ?thesis using assms(1) Some that[of "m\<lparr>mr_cover_image_url := ?url\<rparr>"]
    by (simp add: validate_metadata_response_def metadata_lengths_def)
qed

lemma article_summary_shown:
  assumes "article_ok ops a"
  obtains s where "article_summary_of ops lang a = Inr s" "validate_metadata_response ops (sr_metadata s) = Inr (sr_metadata s)"
    "all_or_error (map validate_tag_response (sr_tags s)) = Inr (sr_tags s)"
proof -
  have md: "metadata_ok (ac_metadata a)" and ts: "\<forall>t \<in> set (ac_tags a). tag_ok t"
    using assms by (simp_all add: article_ok_def article_texts_def)
  have seo: "seo_ok (md_seo_title_ru (ac_metadata a)) (md_seo_title_en (ac_metadata a)) (md_seo_description_ru (ac_metadata a))
      (md_seo_description_en (ac_metadata a)) (md_cover_image_alt_ru (ac_metadata a)) (md_cover_image_alt_en (ac_metadata a))"
    using md by (simp add: metadata_ok_def)
  have url: "case md_cover_image_url (ac_metadata a) of None \<Rightarrow> True
      | Some url \<Rightarrow> length url \<le> url_max_length \<and> ad_http_url ops (strip url)" using assms by (simp add: article_ok_def)
  obtain m where m: "metadata_response_of ops (ac_metadata a) = Inr m" "validate_metadata_response ops m = Inr m"
    unfolding metadata_response_of_def
  proof (rule metadata_shown)
    show "metadata_lengths \<lparr>mq_seo_title_ru = md_seo_title_ru (ac_metadata a), mq_seo_title_en = md_seo_title_en (ac_metadata a),
        mq_seo_description_ru = md_seo_description_ru (ac_metadata a), mq_seo_description_en = md_seo_description_en (ac_metadata a),
        mq_cover_image_file_id = md_cover_image_file_id (ac_metadata a), mq_cover_image_alt_ru = md_cover_image_alt_ru (ac_metadata a),
        mq_cover_image_alt_en = md_cover_image_alt_en (ac_metadata a), mr_cover_image_url = md_cover_image_url (ac_metadata a)\<rparr>"
      using seo by (simp add: metadata_lengths_def seo_ok_def)
  qed (use url in simp)
  obtain rs where rs: "all_or_error (map (tag_response_of lang) (ac_tags a)) = Inr rs"
    using all_shown[of "ac_tags a" "tag_response_of lang"] ts tag_shown by blast
  have "validate_tag_response r = Inr r" if "r \<in> set rs" for r
    using all_found[OF rs that] ts tag_shown_again by blast
  then have "all_or_error (map validate_tag_response rs) = Inr (map id rs)" by (intro all_or_error_total) simp
  then show ?thesis using m rs by (intro that) (auto simp: article_summary_of_def)
qed

lemma article_detail_shown:
  assumes "article_ok ops a"
  shows "\<exists>r. article_detail_of ops lang a = Inr r"
proof -
  obtain s where s: "article_summary_of ops lang a = Inr s" "validate_metadata_response ops (sr_metadata s) = Inr (sr_metadata s)"
    "all_or_error (map validate_tag_response (sr_tags s)) = Inr (sr_tags s)"
    using article_summary_shown[OF assms] by blast
  have "\<exists>t. article_translations_response a = Inr t"
    using assms by (simp add: article_ok_def article_texts_def article_texts_ok_def article_translations_response_def
        validate_article_translations_def validate_article_translation_def required_short_text_again article_content_text_again)
  then show ?thesis using s by (auto simp: article_detail_of_def)
qed

lemma article_row_shown:
  assumes "content_typed d" "m \<in> set (articles d)"
  shows "to_domain_schema d with_tags with_files m \<noteq> Inl ValidationError"
    and "to_domain_schema d with_tags with_files m = Inr a \<Longrightarrow> article_texts a \<and> md_cover_image_url (ac_metadata a) = None
      \<and> (case md_cover_image_file (ac_metadata a) of None \<Rightarrow> True | Some f \<Rightarrow> f \<in> set (files d))"
proof -
  let ?ts = "all_or_error (map (\<lambda>tid. require AttributeError (row_by tg_id tid (tags d))) (article_tag_ids d (am_id m)))"
  have "?ts \<noteq> Inl ValidationError" by (rule all_sound) (rule required_sound, simp)
  then show "to_domain_schema d with_tags with_files m \<noteq> Inl ValidationError"
    by (auto simp: to_domain_schema_def require_def split: sum.splits option.splits)
  have row: "article_row_ok m" using assms by (rule typed_rows)
  have tag: "tag_ok t" if loaded: "?ts = Inr ts" "t \<in> set ts" for ts t
  proof -
    obtain tid where "require AttributeError (row_by tg_id tid (tags d)) = Inr t" using all_found[OF loaded] by blast
    then have "t \<in> set (tags d)" by (auto simp: require_def split: option.splits dest: row_by_SomeD)
    then show ?thesis using assms(1) by (auto intro: typed_rows)
  qed
  have cover: "f \<in> set (files d)" if "Option.bind v (\<lambda>fid. row_by sf_id fid (files d)) = Some f" for v f
    using that by (auto simp: bind_eq_Some_conv dest: row_by_SomeD)
  assume "to_domain_schema d with_tags with_files m = Inr a"
  then show "article_texts a \<and> md_cover_image_url (ac_metadata a) = None
      \<and> (case md_cover_image_file (ac_metadata a) of None \<Rightarrow> True | Some f \<Rightarrow> f \<in> set (files d))"
    using row tag cover
    by (auto simp: to_domain_schema_def to_metadata_domain_schema_def article_texts_def article_row_ok_def metadata_ok_def
        split: sum.splits if_splits option.splits)
qed

lemma hydrate_sound:
  assumes "article_texts a" "md_cover_image_url (ac_metadata a) = None"
    and "case md_cover_image_file (ac_metadata a) of None \<Rightarrow> True | Some f \<Rightarrow> url_accepted c f"
  shows "sound_read d (hydrate (ax_env c) a) (article_ok (ax_adapters c))"
  using assms
  by (auto simp: hydrate_def get_access_url_def ensure_valid_namespace_def sound_read_def run_simps with_cover_image_url_def
      article_ok_def article_texts_def metadata_ok_def url_accepted_def Let_def split: option.splits)

definition readable :: "api \<Rightarrow> db \<Rightarrow> bool" where
  "readable c d \<longleftrightarrow> content_typed d \<and> (\<forall>f \<in> set (files d). url_accepted c f)"

lemma row_hydrated:
  assumes "readable c d" "m \<in> set (articles d)" "to_domain_schema d with_tags with_files m = Inr a"
  shows "sound_read d (hydrate (ax_env c) a) (article_ok (ax_adapters c))"
  using assms article_row_shown(2)[OF _ assms(2,3)]
  by (intro hydrate_sound) (auto simp: readable_def split: option.splits)

lemma get_article_sound:
  assumes "readable c d"
  shows "sound_read d (get_article (ax_env c) slug only_published) (article_ok (ax_adapters c))"
proof (cases "row_by am_slug slug (articles d)")
  case None
  then show ?thesis by (simp add: get_article_def get_article_by_slug_def sound_read_def run_simps)
next
  case (Some m)
  then have m: "m \<in> set (articles d)" by (auto dest: row_by_SomeD)
  have "content_typed d" using assms by (simp add: readable_def)
  note shown = article_row_shown(1)[OF this m, of True True]
  have "sound_read d (get_article_by_slug slug) (\<lambda>a. to_domain_schema d True True m = Inr a)"
    using shown Some by (auto simp: get_article_by_slug_def sound_read_def run_simps split: sum.splits)
  then show ?thesis unfolding get_article_def
    by (rule sound_bind) (auto intro!: row_hydrated[OF assms m] sound_plain)
qed

lemma list_articles_sound:
  assumes "readable c d"
  shows "sound_read d (uc_list_articles (ax_env c) ops f) (\<lambda>p. \<forall>a \<in> set (pg_values p). article_ok (ax_adapters c) a)"
proof -
  have typed: "content_typed d" using assms by (simp add: readable_def)
  let ?found = "\<lambda>a. \<exists>m \<in> set (articles d). to_domain_schema d (af_include_tags f) (af_include_files f) m = Inr a"
  let ?dom = "\<lambda>ms d. lift (all_or_error (map (to_domain_schema d (af_include_tags f) (af_include_files f)) ms)) d"
  have to_domain: "sound_read d (?dom ms) (\<lambda>as. \<forall>a \<in> set as. ?found a)" if "set ms \<subseteq> set (articles d)" for ms
  proof -
    have "all_or_error (map (to_domain_schema d (af_include_tags f) (af_include_files f)) ms) \<noteq> Inl ValidationError"
      using that article_row_shown(1)[OF typed] by (intro all_sound) blast
    moreover have "?found a" if "all_or_error (map (to_domain_schema d (af_include_tags f) (af_include_files f)) ms) = Inr as" "a \<in> set as" for as a
      using all_found[OF that] \<open>set ms \<subseteq> set (articles d)\<close> by blast
    ultimately show ?thesis by (auto simp: sound_read_def run_simps split: sum.splits)
  qed
  have rows: "sound_read d (list_articles ops f) (\<lambda>(as, n). \<forall>a \<in> set as. ?found a)"
  proof -
    have sub: "x \<in> set (articles d)" if "limit_rows offset limit rows = Inr ms" "x \<in> set ms" "set rows \<subseteq> set (articles d)"
      for offset limit ms x and rows :: "article_model list"
      using that by (auto simp: limit_rows_def split: if_splits dest: in_set_takeD in_set_dropD)
    have limited: "limit_rows offset limit rows \<noteq> Inl ValidationError" for offset limit and rows :: "article_model list"
      by (simp add: limit_rows_def)
    show ?thesis unfolding list_articles_def Let_def
      by (auto intro!: sound_bind[OF sound_plain(3)[where P'' = "\<lambda>rows. set rows \<subseteq> set (articles d)"]]
          sound_bind[OF sound_lift[where P = "\<lambda>_. True"]] sound_bind[OF sound_lift[where P = "\<lambda>ms. set ms \<subseteq> set (articles d)"]]
          sound_bind[OF to_domain] sound_plain dest: sub
          simp: limited filters_offset_def filters_limit_def split: option.splits)
  qed
  have hydrated: "sound_read d (map_action (hydrate (ax_env c)) as) (\<lambda>as'. \<forall>a \<in> set as'. article_ok (ax_adapters c) a)"
    if "\<forall>a \<in> set as. ?found a" for as
    using that row_hydrated[OF assms] by (intro sound_map_action) blast
  show ?thesis unfolding uc_list_articles_def
    by (auto intro!: sound_bind[OF rows] sound_bind[OF hydrated] sound_lift sound_plain
        simp: from_page_def split: option.splits if_splits)
qed

section \<open>Questions and the structure are shown\<close>

definition item_texts :: "matrix_item \<Rightarrow> bool" where
  "item_texts i \<longleftrightarrow> question_ok (mi_slug i) (mi_question_ru i) (mi_question_en i) (mi_answer_ru i) (mi_answer_en i)
     (mi_explanation_ru i) (mi_explanation_en i)"

lemma item_body_shown: "item_texts i \<Longrightarrow> \<exists>b. item_detail_body_of lang i = Inr b"
  by (simp add: item_texts_def question_ok_def item_detail_body_of_def item_translations_of_def validate_item_translation_def
      required_short_text_again matrix_long_text_def field_length_def)

lemma item_row_shown:
  assumes "content_typed d" "m \<in> set (items d)"
  shows "item_to_domain d links m \<noteq> Inl ValidationError"
    and "item_to_domain d links m = Inr i \<Longrightarrow> item_texts i"
proof -
  have "all_or_error (map (link_to_domain d) links) \<noteq> Inl ValidationError"
    by (rule all_sound) (auto simp: link_to_domain_def require_def split: sum.splits option.splits)
  then show "item_to_domain d links m \<noteq> Inl ValidationError"
    by (auto simp: item_to_domain_def to_item_structure_def require_def split: sum.splits option.splits)
  have "item_row_ok m" using assms by (rule typed_rows)
  then show "item_to_domain d links m = Inr i \<Longrightarrow> item_texts i"
    by (auto simp: item_to_domain_def item_row_ok_def item_texts_def split: sum.splits)
qed

lemma item_reads_sound:
  assumes "content_typed d"
  shows "sound_read d (get_item pk only_published) item_texts"
    and "sound_read d (get_item_by_slug key slug only_published) item_texts"
    and "sound_read d (list_items f) (\<lambda>_. True)"
proof -
  have row: "sound_read d (case v of None \<Rightarrow> raise CompetencyMatrixItemNotFoundError
      | Some m \<Rightarrow> bind (gets (\<lambda>d. item_to_domain d (item_links d m) m)) lift) item_texts"
    if "\<And>m. v = Some m \<Longrightarrow> m \<in> set (items d)" for v
    using that item_row_shown[OF assms]
    by (auto simp: sound_read_def run_simps split: option.splits sum.splits)
  have chosen: "first [i. i \<leftarrow> items d, sh \<leftarrow> sheets d, sh_id sh = im_sheet_id i \<and> sh_key sh = key \<and> im_slug i = slug] = Some m
      \<Longrightarrow> m \<in> set (items d)" for m
    by (auto dest!: first_SomeD split: if_splits)
  note found = sound_bind[OF sound_plain(3)[where P'' = "\<lambda>v. \<forall>m. v = Some m \<longrightarrow> m \<in> set (items d)"] row]
  have "sound_read d (get_competency_matrix_item pk) item_texts"
    unfolding get_competency_matrix_item_def by (rule found) (auto dest: row_by_SomeD)
  then show "sound_read d (get_item pk only_published) item_texts"
    unfolding get_item_def by (rule sound_bind) (auto intro: sound_plain)
  have "sound_read d (get_competency_matrix_item_by_slug key slug) item_texts"
    unfolding get_competency_matrix_item_by_slug_def by (rule found) (auto intro: chosen)
  then show "sound_read d (get_item_by_slug key slug only_published) item_texts"
    unfolding get_item_by_slug_def by (rule sound_bind) (auto intro: sound_plain)
  have "all_or_error (map (\<lambda>r. item_to_domain d [] (fst r)) (sort_key item_default_ordering (filter (item_filter f) (join_structure d))))
      \<noteq> Inl ValidationError"
    by (rule all_sound) (auto simp: join_structure_def item_row_shown(1)[OF assms])
  then show "sound_read d (list_items f) (\<lambda>_. True)"
    unfolding list_items_def list_competency_matrix_items_def
    by (auto simp: sound_read_def run_simps split: sum.splits)
qed

lemma structure_shown:
  assumes "content_typed d"
  shows "sound_read d list_structure (\<lambda>shs. \<exists>r. structure_response lang shs = Inr r)"
proof -
  have sub: "\<exists>r. structure_subsection_response_of lang (subsection_to_domain su) = Inr r" if "su \<in> set (subsections d)" for su
    using typed_rows(6)[OF assms that]
    by (simp add: structure_subsection_response_of_def subsection_to_domain_def names_shown subsection_ok_def)
  have sec: "\<exists>r. structure_section_response_of lang (section_to_domain d se) = Inr r" if "se \<in> set (sections d)" for se
  proof -
    have "\<exists>rs. all_or_error (map (structure_subsection_response_of lang) (sse_subsections (section_to_domain d se))) = Inr rs"
      by (rule all_shown) (auto simp: section_to_domain_def intro: sub)
    then show ?thesis using typed_rows(5)[OF assms that]
      by (auto simp: structure_section_response_of_def section_ok_def section_to_domain_def names_shown)
  qed
  have "\<exists>r. structure_sheet_response_of lang (sheet_to_domain d sh) = Inr r" if "sh \<in> set (sheets d)" for sh
  proof -
    have "\<exists>rs. all_or_error (map (structure_section_response_of lang) (ssh_sections (sheet_to_domain d sh))) = Inr rs"
      by (rule all_shown) (auto simp: sheet_to_domain_def intro: sec)
    then show ?thesis using typed_rows(4)[OF assms that]
      by (auto simp: structure_sheet_response_of_def sheet_ok_def sheet_to_domain_def names_shown)
  qed
  then have "\<exists>r. structure_response lang (map (sheet_to_domain d) (sort_key (\<lambda>sh. (sh_priority sh, sh_id sh)) (sheets d))) = Inr r"
    unfolding structure_response_def by (intro all_shown) auto
  then show ?thesis by (simp add: list_structure_def sound_plain)
qed

section \<open>The reads of the site\<close>

text \<open>The reads whose responses carry validated fields, under the container \<open>c\<close>.\<close>

inductive reading :: "api \<Rightarrow> ('q, response) handler \<Rightarrow> bool" for c where
  "(\<And>q. r = GetArticles q \<Longrightarrow> \<exists>filters. provide_public_article_filters q = Inr filters) \<Longrightarrow> reading c (public_endpoint c r)"
| "provide_article_filters q st = Inr filters \<Longrightarrow> reading c (admin_list_articles c q st)"
| "reading c (admin_get_article c slug only_published lang)"
| "reading c (admin_list_folders c lang)"
| "reading c (admin_list_tags c lang)"
| "reading c (admin_list_structure c lang)"
| "reading c (admin_get_item c pk only_published lang)"

definition answers :: "db \<Rightarrow> ('q, response) handler \<Rightarrow> bool" where
  "answers d m \<longleftrightarrow> (\<forall>s. session_db s = d \<longrightarrow> fst (m s) \<noteq> Inl ValidationError)"

lemma answers_read:
  assumes "sound_read d m P" "\<And>a. P a \<Longrightarrow> answers d (k a)"
  shows "answers d (bind (on_database m) k)"
  using assms
  by (fastforce simp: answers_def sound_read_def bind_def on_database_def on_world_def in_db_def split: prod.splits sum.splits)

lemma answers_respond: "(\<exists>a. r = Inr a) \<Longrightarrow> answers d (respond f r)"
  by (auto simp: answers_def respond_def run_simps)

lemma answers_ret: "answers d (ret a)"
  by (simp add: answers_def run_simps)

lemma answers_lift: "(\<exists>a. r = Inr a) \<Longrightarrow> (\<And>a. answers d (k a)) \<Longrightarrow> answers d (bind (lift r) k)"
  by (auto simp: answers_def run_simps)

lemma reading_answers:
  assumes "readable c d" "reading c m"
  shows "answers d m"
proof -
  have typed: "content_typed d" using assms(1) by (simp add: readable_def)
  have one: "\<exists>r. tag_response_of lang t = Inr r" if "t \<in> set (tags d)" for lang t
    using tag_shown[OF typed_rows(2)[OF typed that]] by blast
  have tags: "sound_read d (list_tags lang b) (\<lambda>ts. \<exists>r. tags_response lang' ts = Inr r)" for lang lang' b
    by (auto simp: list_tags_def tags_response_def intro!: sound_plain all_shown one)
  have folders: "sound_read d (list_folders lang) (\<lambda>fs. \<exists>r. folders_response lang' fs = Inr r)" for lang lang'
    by (auto simp: list_folders_def folders_response_def intro!: sound_plain all_shown folder_shown dest: typed_rows(3)[OF typed])
  have page: "\<exists>r. article_list_of (ax_adapters c) lang p = Inr r"
    if "\<forall>a \<in> set (pg_values p). article_ok (ax_adapters c) a" for p lang
  proof -
    have "\<exists>rs. all_or_error (map (article_summary_of (ax_adapters c) lang) (pg_values p)) = Inr rs"
      using that article_summary_shown by (intro all_shown) blast
    then show ?thesis by (auto simp: article_list_of_def)
  qed
  have tree: "sound_read d (list_tree b lang) (\<lambda>_. True)" for b lang
    by (auto simp: list_tree_def list_tree_items_def list_published_tree_items_def intro!: sound_bind[OF sound_plain(3)[where P'' = "\<lambda>_. True"]] sound_plain)
  have sheets: "sound_read d list_sheets (\<lambda>_. True)" by (simp add: list_sheets_def sound_plain)
  have details: "\<exists>r. public_item_detail_of lang i = Inr r" "\<exists>r. item_detail_of lang i = Inr r" if "item_texts i" for i lang
    using item_body_shown[OF that, of lang] by (auto simp: public_item_detail_of_def item_detail_of_def)
  note rules = answers_lift answers_ret answers_respond
  from assms(2) show ?thesis
  proof cases
    case (1 r)
    then show ?thesis
      by (cases r) (auto simp: cached_endpoints intro!: rules answers_read[OF list_articles_sound[OF assms(1)]] page
          answers_read[OF get_article_sound[OF assms(1)]] article_detail_shown answers_read[OF tags] answers_read[OF tree]
          answers_read[OF sheets] answers_read[OF item_reads_sound(2)[OF typed]] answers_read[OF item_reads_sound(3)[OF typed]] details)
  qed (auto simp: admin_list_articles_def admin_get_article_def admin_list_folders_def admin_list_tags_def admin_list_structure_def
      admin_get_item_def intro!: rules answers_read[OF list_articles_sound[OF assms(1)]] page
      answers_read[OF get_article_sound[OF assms(1)]] article_detail_shown answers_read[OF tags] answers_read[OF folders]
      answers_read[OF structure_shown[OF typed]] answers_read[OF item_reads_sound(1)[OF typed]] details)
qed

lemma run_reading:
  assumes "answers (app_db a) m"
  shows "fst (run_endpoint c ops m a) \<noteq> Inl ValidationError"
proof -
  let ?s = "\<lparr>sn_world = ap_world a, sn_quota = ap_quota a, sn_post_commit = []\<rparr>"
  have total: "fst (run_post_commit_actions c ops ds b) = Inr ()" for ds b
  proof (induction ds arbitrary: b)
    case (Cons x ds)
    have "\<exists>b'. invalidate_and_enqueue_response_cache_warm_domain c ops x b = (Inr (), b')"
      by (simp add: invalidate_and_enqueue_response_cache_warm_domain_def invalidate_response_cache_domain_def on_cache_def
          delete_domain_def run_simps prod.case_eq_if)
    then show ?case using Cons.IH by (auto simp: run_post_commit_actions_def run_simps)
  qed (simp add: run_post_commit_actions_def run_simps)
  have "fst (m ?s) \<noteq> Inl ValidationError" using assms by (simp add: answers_def)
  then show ?thesis
    by (auto simp: run_endpoint_def run_bind run_ret total split: prod.splits sum.splits dest!: arg_cong[where f = fst])
qed

text \<open>C8: what the site stores, it can show.  Whatever the requests with any input, the background tasks and the cleanup of
  files have written, every stored text and name has the form that the schemas declare; so no read of articles, tags,
  folders, questions or the structure fails with a validation error of its own response, as long as the object store
  gives the stored files addresses that the schema of URLs accepts.\<close>

theorem stored_content_shown:
  assumes "app_db a0 = empty_db" "(app_step site ops view warmed)\<^sup>*\<^sup>* a0 a"
    and "\<forall>f \<in> set (files (app_db a)). url_accepted c f" "reading c m"
  shows "content_typed (app_db a) \<and> fst (run_endpoint c ops m a) \<noteq> Inl ValidationError"
proof -
  have "app_typed a0" using assms(1) by (simp add: app_typed_def content_typed_empty)
  from reachable_typed[OF assms(2) this] have typed: "content_typed (app_db a)" by (simp add: app_typed_def)
  then have "answers (app_db a) m" using reading_answers[OF _ assms(4)] assms(3) by (simp add: readable_def)
  then show ?thesis using typed run_reading by blast
qed

definition raw_tag :: tag_request where
  "raw_tag = \<lparr>tq_slug = u '' python '', tq_translations = \<lparr>nt_ru = u ''Python '', nt_en = u '' Python''\<rparr>\<rparr>"

definition stored_tag :: tag where
  "stored_tag = \<lparr>tg_id = u ''id0'', tg_name_ru = u ''Python'', tg_name_en = u ''Python'', tg_slug = u ''python''\<rparr>"

lemma raw_tag_validated:
  "validate_tag_request raw_tag = Inr \<lparr>tq_slug = u ''python'', tq_translations = \<lparr>nt_ru = u ''Python'', nt_en = u ''Python''\<rparr>\<rparr>"
  by (simp add: raw_tag_def validate_tag_request_def slug_string_def validate_name_translations_def required_short_text_def
      after_validator_def trim_required_def validate_slug_def is_slug_def is_slug_char_def field_length_def
      short_text_max_length_def u_def strip_def strip_by_def is_space_def)

lemma raw_tag_stored:
  "app_db (snd (run_endpoint sample_api memory_ops (post_tag sample_api EN raw_tag) sample_app)) = empty_db\<lparr>tags := [stored_tag]\<rparr>"
proof -
  have id: "ax_new_id sample_api 0 = u ''id0''" by (simp add: sample_api_def str_of_nat.simps u_def)
  have "on_database (create_tag (tag_to_params \<lparr>tq_slug = u ''python'', tq_translations = \<lparr>nt_ru = u ''Python'', nt_en = u ''Python''\<rparr>\<rparr>)
      (ax_new_id sample_api 0)) \<lparr>sn_world = ap_world sample_app, sn_quota = (), sn_post_commit = []\<rparr> =
    (Inr stored_tag, \<lparr>sn_world = \<lparr>w_db = empty_db\<lparr>tags := [stored_tag]\<rparr>, w_objects = Map.empty\<rparr>, sn_quota = (), sn_post_commit = []\<rparr>)"
    unfolding id by (simp add: on_database_def on_world_def in_db_def create_tag_def storage_create_tag_def
        check_constraint_def tag_to_params_def to_tag_def stored_tag_def sample_app_def empty_db_def run_simps)
  moreover have "tag_ok stored_tag"
    by (simp add: tag_ok_def stored_tag_def trimmed_text_def is_slug_def is_slug_char_def short_text_max_length_def
        u_def strip_def strip_by_def is_space_def)
  then have "\<exists>r. tag_response_of EN stored_tag = Inr r" using tag_shown by blast
  ultimately show ?thesis
    by (auto simp: run_endpoint_def post_tag_def raw_tag_validated run_simps respond_def
        invalidate_response_cache_domain_for_mutation_def sample_app_def run_post_commit_actions_def
        invalidate_and_enqueue_response_cache_warm_domain_def invalidate_response_cache_domain_def on_cache_def delete_domain_def)
qed

theorem stored_content_shown_witness:
  "let a = snd (run_endpoint sample_api memory_ops (post_tag sample_api EN raw_tag) sample_app) in
   map tg_slug (tags (app_db a)) = [u ''python'']
   \<and> fst (run_endpoint sample_api memory_ops (admin_list_tags sample_api RU) a) \<noteq> Inl ValidationError"
proof -
  let ?a = "snd (run_endpoint sample_api memory_ops (post_tag sample_api EN raw_tag) sample_app)"
  have "same_site sample_api sample_api" by (simp add: same_site_def)
  from app_step.request[OF this endpoint.intros(20) prod.collapse[symmetric]]
  have "(app_step sample_api memory_ops memory_view True)\<^sup>*\<^sup>* sample_app ?a" by (rule r_into_rtranclp)
  moreover have "app_db sample_app = empty_db" by (simp add: sample_app_def)
  moreover have "\<forall>f \<in> set (files (app_db ?a)). url_accepted sample_api f" by (simp add: raw_tag_stored empty_db_def)
  ultimately have "content_typed (app_db ?a)
      \<and> fst (run_endpoint sample_api memory_ops (admin_list_tags sample_api RU) ?a) \<noteq> Inl ValidationError"
    by (intro stored_content_shown reading.intros)
  then show ?thesis by (simp add: raw_tag_stored stored_tag_def)
qed

end
