(* ===== verification/Cache_Transparency.thy ===== *)
theory Cache_Transparency
  imports Api_Shown
begin

text \<open>
  The cache of responses never answers with anything outdated.  What a cached route answers is the answer of its endpoint
  on the current database; for the questions of the matrix, where the warming of the matrix runs, it can also be the
  response that this warming would write on the current database.
\<close>

section \<open>What the warming writes is asked for by one request\<close>

lemma slug_routable: "is_slug s \<Longrightarrow> 47 \<notin> set s \<and> valid_text s"
  by (fastforce simp: is_slug_def is_slug_char_def intro!: ascii_valid dest: slug_match_chars)

lemma warmed_routable:
  assumes "content_typed d" "warmed_answer r d = Some resp"
  shows "routable r"
proof (cases r)
  case (GetItems key lang)
  then have "\<exists>sh \<in> set (sheets d). sh_key sh = key"
    using assms(2) by (auto simp: list_sheets_def run_simps split: sum.splits if_splits)
  then show ?thesis using typed_rows(4)[OF assms(1)] slug_routable GetItems by (auto simp: sheet_ok_def)
next
  case (GetItem key slug lang)
  let ?found = "[i. i \<leftarrow> items d, sh \<leftarrow> sheets d, sh_id sh = im_sheet_id i \<and> sh_key sh = key \<and> im_slug i = slug]"
  obtain detail where "fst (get_item_by_slug key slug True d) = Inr detail"
    using assms(2) GetItem by (auto split: sum.splits)
  then obtain m where "first ?found = Some m"
    by (auto simp: get_item_by_slug_def get_competency_matrix_item_by_slug_def run_bind run_gets run_raise split: option.splits)
  then have "m \<in> set ?found" by (rule first_SomeD)
  then have "m \<in> set (items d)" "im_slug m = slug" "\<exists>sh \<in> set (sheets d). sh_key sh = key" by auto
  then show ?thesis
    using typed_rows(4,7)[OF assms(1)] slug_routable GetItem by (auto simp: sheet_ok_def item_row_ok_def question_ok_def)
qed (use assms(2) in simp_all)

lemma writable_warmed:
  assumes "content_typed d" "routable r" "writable r d resp"
  shows "warmed_answer r d = Some resp"
proof -
  obtain r' where r': "query_key r' = query_key r" "warmed_answer r' d = Some resp" using assms(3) by (auto simp: writable_def)
  have "routable r'" using assms(1) r'(2) by (rule warmed_routable)
  then have "r' = r" using assms(2) r'(1) by (intro query_key_inj)
  then show ?thesis using r'(2) by simp
qed

lemma reachable_served:
  assumes "kv_store ops view" "ax_use_cache site" "ax_default_key site = path_and_query_key"
    and "fresh_app view a0" "(app_step site ops view warmed)\<^sup>*\<^sup>* a0 a"
    and "same_site site c" "routable r"
  shows "fst (serve c ops r a) = answer c r (app_db a)
    \<or> (warmed \<and> (\<exists>resp. fst (serve c ops r a) = Inr resp \<and> warmed_answer r (app_db a) = Some resp))"
    and "site_inv (env_sha256 (ax_env site)) (app_db a)" "content_typed (app_db a)"
proof -
  have store: "response_store ops view" using assms(1) by (rule response_store.intro)
  have inv: "app_inv site view warmed a"
    using response_store.reachable_inv[OF store assms(5) fresh_app_inv[OF assms(4)] assms(2,3)] .
  then show "site_inv (env_sha256 (ax_env site)) (app_db a)" by (simp add: app_inv_def)
  have "app_typed a0" using assms(4) by (simp add: fresh_app_def app_typed_def content_typed_empty)
  from reachable_typed[OF assms(5) this] show typed: "content_typed (app_db a)" by (simp add: app_typed_def)
  show "fst (serve c ops r a) = answer c r (app_db a)
    \<or> (warmed \<and> (\<exists>resp. fst (serve c ops r a) = Inr resp \<and> warmed_answer r (app_db a) = Some resp))"
    using response_store.serve_current[OF store inv assms(6,2,3,7)] writable_warmed[OF typed assms(7)] by blast
qed

section \<open>The cache is transparent\<close>

text \<open>C1: the response cache never answers with anything outdated.  Whatever the editors, the readers, the background
  tasks, the administration and the expiry of entries do, every cached route answers what its endpoint would answer on the
  current database, or what the warming of the matrix would write for that request on the current database.  The second
  happens only where the warming of the matrix runs and only for the list of questions of a sheet and the detail of a
  question, for which the warming writes the responses of the editors; the lists and details of articles, the tags, the
  tree and the sheets always get the answer of their endpoint, and so does every route without that warming.\<close>

theorem cache_transparent:
  assumes "kv_store ops view" "ax_use_cache site" "ax_default_key site = path_and_query_key"
    and "fresh_app view a0" "(app_step site ops view warmed)\<^sup>*\<^sup>* a0 a"
    and "same_site site c" "routable r"
  shows "(fst (serve c ops r a) = fst (run_endpoint c ops (public_endpoint c r) a)
      \<or> (\<exists>resp. fst (serve c ops r a) = Inr resp \<and> warmed_answer r (app_db a) = Some resp))
    \<and> (\<not> warmed \<or> exactly_warmed r \<longrightarrow> fst (serve c ops r a) = fst (run_endpoint c ops (public_endpoint c r) a))"
  using reachable_served(1)[OF assms] warmed_answer_kind[of r "app_db a"] by (auto simp: run_public_endpoint)

theorem cache_transparent_witness:
  "let a = snd (serve sample_api memory_ops (GetTags RU) sample_app) in
   memory_view (ap_cache a DOMAIN_ARTICLES) (query_key (GetTags RU)) = Some (TagsResponse [])
   \<and> fst (serve sample_api memory_ops (GetTags RU) a) = fst (run_endpoint sample_api memory_ops (public_endpoint sample_api (GetTags RU)) a)"
proof -
  let ?a = "snd (serve sample_api memory_ops (GetTags RU) sample_app)"
  have site: "same_site sample_api sample_api" by (simp add: same_site_def)
  have "app_step sample_api memory_ops memory_view True sample_app ?a"
    by (rule app_step.cached_request[OF site, where r = "GetTags RU"]) (simp, rule prod.collapse[symmetric])
  then have reach: "(app_step sample_api memory_ops memory_view True)\<^sup>*\<^sup>* sample_app ?a" by (rule r_into_rtranclp)
  have fresh: "fresh_app memory_view sample_app" by (simp add: fresh_app_def sample_app_def memory_view_def fun_eq_iff)
  have cfg: "ax_use_cache sample_api" "ax_default_key sample_api = path_and_query_key" by (simp_all add: sample_api_def)
  have route: "routable (GetTags RU)" "exactly_warmed (GetTags RU)" by (simp_all add: exactly_warmed_def request_kind_def)
  have "fst (serve sample_api memory_ops (GetTags RU) ?a) = fst (run_endpoint sample_api memory_ops (public_endpoint sample_api (GetTags RU)) ?a)"
    using cache_transparent[OF memory.kv_store_axioms cfg fresh reach site route(1)] route(2) by blast
  moreover have "memory_view (ap_cache ?a DOMAIN_ARTICLES) (query_key (GetTags RU)) = Some (TagsResponse [])"
  proof -
    have miss: "memory_view (ap_cache sample_app (request_domain (GetTags RU))) (query_key (GetTags RU)) = None"
      by (simp add: memory_view_def sample_app_def)
    have ans: "answer sample_api (GetTags RU) empty_db = Inr (TagsResponse [])"
      by (simp add: answer_def public_list_tags_def endpoint_reads list_tags_def empty_db_def tags_response_def)
    have db: "app_db sample_app = empty_db" by (simp add: sample_app_def)
    have settings: "ax_use_cache sample_api" "ax_default_key sample_api = path_and_query_key" by (simp_all add: sample_api_def)
    show ?thesis
      unfolding response_memory.serve_run[OF settings] miss db ans by (simp add: response_memory.stored_def memory.set_view)
  qed
  ultimately show ?thesis by simp
qed

end
