(* ===== verification/Api_Errors.thy ===== *)
theory Api_Errors
  imports Cache_Properties
begin

text \<open>
  The answers to the errors of the domain: \<open>entrypoints/litestar/exception_handlers.py\<close>.  The exceptions of
  \<open>verbose_http_exceptions\<close> appear as the names of their classes; how that library renders them, and its
  handlers for what is no error of the domain, are parameters.
\<close>

section \<open>Errors of the domain\<close>

text \<open>\<open>isinstance(error, DomainError)\<close>: the exceptions of Python and of the libraries are no errors of the domain.\<close>

fun is_domain_error :: "error \<Rightarrow> bool" where
  "is_domain_error ValueError = False"
| "is_domain_error TypeError = False"
| "is_domain_error KeyError = False"
| "is_domain_error IndexError = False"
| "is_domain_error AttributeError = False"
| "is_domain_error ZeroDivisionError = False"
| "is_domain_error CsvError = False"
| "is_domain_error BotoCoreError = False"
| "is_domain_error (DataError _) = False"
| "is_domain_error (IntegrityError _) = False"
| "is_domain_error ValidationError = False"
| "is_domain_error ImproperlyConfiguredException = False"
| "is_domain_error (TaskError _) = False"
| "is_domain_error _ = True"

text \<open>The subclasses of \<open>InvalidFileDataError\<close>.\<close>

fun is_invalid_file_data :: "error \<Rightarrow> bool" where
  "is_invalid_file_data InvalidFileDataError = True"
| "is_invalid_file_data (ContentTypeNotAllowedError _) = True"
| "is_invalid_file_data (FileSizeTooLargeError _ _) = True"
| "is_invalid_file_data (NamespaceNotAllowedError _) = True"
| "is_invalid_file_data FilePurposeNotAllowedError = True"
| "is_invalid_file_data FileNameInvalidError = True"
| "is_invalid_file_data FileImageOptimizationError = True"
| "is_invalid_file_data _ = False"

fun error_message :: "error \<Rightarrow> pystr" where
  "error_message EntryNotFoundError = u ''Entry not found''"
| "error_message UnauthorizedError = u ''Unauthorized error''"
| "error_message ForbiddenError = u ''Forbidden error''"
| "error_message CompetencyMatrixItemNotFoundError = u ''Competency matrix item not found''"
| "error_message CompetencyMatrixItemConflictError = u ''Competency matrix item already exists''"
| "error_message CompetencyMatrixStructureNotFoundError = u ''Competency matrix structure entry not found''"
| "error_message CompetencyMatrixStructureAlreadyExistsError = u ''Competency matrix structure entry already exists''"
| "error_message CompetencyMatrixStructureContainsQuestionsError = u ''Competency matrix structure entry contains questions''"
| "error_message CompetencyMatrixStructurePriorityInvalidError = u ''Competency matrix structure priority order is invalid''"
| "error_message (CompetencyMatrixItemNotPublicReadyError _) = u ''Competency matrix item is not public-ready.''"
| "error_message QueuedCompetencyMatrixQuestionNotFoundError = u ''Queued competency matrix question not found''"
| "error_message QuestionSuggestionQuotaExceededError = u ''Question suggestion daily quota exceeded''"
| "error_message QuestionSuggestionAlreadyExistsError =
     u ''Question already exists in the competency matrix or suggestion queue''"
| "error_message QuestionSuggestionSheetUnavailableError = u ''Selected competency matrix sheet is not publicly available''"
| "error_message (QuestionQueueImportInvalidError _) = u ''Question queue import file is invalid.''"
| "error_message ArticleNotFoundError = u ''Article not found''"
| "error_message TagNotFoundError = u ''Tag not found''"
| "error_message ArticleFolderNotFoundError = u ''Article folder not found''"
| "error_message ArticleFolderAlreadyExistsError = u ''Article folder already exists''"
| "error_message ArticleFolderPriorityInvalidError = u ''Article folder priority order is invalid''"
| "error_message ArticleFolderInUseError = u ''Article folder contains articles''"
| "error_message InvalidFileDataError = u ''File data is invalid.''"
| "error_message (ContentTypeNotAllowedError t) = u ''Content type '' @ [39] @ t @ [39] @ u '' is not allowed.''"
| "error_message (FileSizeTooLargeError n m) = u ''File size '' @ str_of_int n @ u '' exceeds limit '' @ str_of_int m @ u ''.''"
| "error_message (NamespaceNotAllowedError n) = u ''Namespace '' @ [39] @ n @ [39] @ u '' is not allowed.''"
| "error_message FilePurposeNotAllowedError = u ''File purpose is not allowed.''"
| "error_message FileNameInvalidError = u ''File name is invalid.''"
| "error_message FileImageOptimizationError = u ''File image data is invalid.''"
| "error_message (FileClientInternalError m) = m"
| "error_message FileInUseError = u ''File is used and cannot be deleted.''"
| "error_message CacheWarmOperationNotFoundError = u ''Cache warm operation not found''"
| "error_message _ = []"

section \<open>The mapping to HTTP exceptions\<close>

datatype http_exception =
    NotFoundHTTPException
  | UnauthorizedHTTPException
  | ForbiddenHTTPException
  | BadRequestHTTPException
  | InternalServerErrorHTTPException
  | ConflictHTTPException
  | TooManyRequestsHTTPException

text \<open>The rows in the order of the dictionary; the first argument decides \<open>isinstance\<close>.\<close>

definition domain_error_mapping :: "((error \<Rightarrow> bool) \<times> http_exception) list" where
  "domain_error_mapping =
     [(is_entry_not_found, NotFoundHTTPException),
      ((=) UnauthorizedError, UnauthorizedHTTPException),
      ((=) ForbiddenError, ForbiddenHTTPException),
      (is_invalid_file_data, BadRequestHTTPException),
      ((=) FileInUseError, BadRequestHTTPException),
      (is_file_client_internal_error, InternalServerErrorHTTPException),
      (\<lambda>e. case e of CompetencyMatrixItemNotPublicReadyError _ \<Rightarrow> True | _ \<Rightarrow> False, BadRequestHTTPException),
      ((=) CompetencyMatrixStructureAlreadyExistsError, BadRequestHTTPException),
      ((=) CompetencyMatrixStructureContainsQuestionsError, ConflictHTTPException),
      ((=) CompetencyMatrixStructurePriorityInvalidError, BadRequestHTTPException),
      ((=) QuestionSuggestionQuotaExceededError, TooManyRequestsHTTPException),
      ((=) QuestionSuggestionAlreadyExistsError, ConflictHTTPException),
      ((=) QuestionSuggestionSheetUnavailableError, BadRequestHTTPException),
      (\<lambda>e. case e of QuestionQueueImportInvalidError _ \<Rightarrow> True | _ \<Rightarrow> False, BadRequestHTTPException),
      ((=) ArticleFolderAlreadyExistsError, BadRequestHTTPException),
      ((=) ArticleFolderInUseError, ConflictHTTPException),
      ((=) ArticleFolderPriorityInvalidError, BadRequestHTTPException)]"

definition find_verbose_exception_type :: "error \<Rightarrow> http_exception" where
  "find_verbose_exception_type e =
     (case find (\<lambda>(is_instance, _). is_instance e) domain_error_mapping of
        Some (_, t) \<Rightarrow> t
      | None \<Rightarrow> InternalServerErrorHTTPException)"

record nested_error =
  ne_type :: http_exception
  ne_message :: pystr
  ne_location :: pystr
  ne_attr_name :: pystr

record verbose_exception =
  ve_type :: http_exception
  ve_message :: pystr
  ve_nested :: "nested_error list"

definition create_verbose_exception :: "error \<Rightarrow> http_exception \<Rightarrow> verbose_exception" where
  "create_verbose_exception e t =
     (case e of
        QuestionQueueImportInvalidError issues \<Rightarrow>
          \<lparr>ve_type = t, ve_message = error_message e,
           ve_nested = map (\<lambda>i. \<lparr>ne_type = BadRequestHTTPException, ne_message = ii_message i, ne_location = u ''body'',
             ne_attr_name = attr_name i\<rparr>) issues\<rparr>
      | _ \<Rightarrow> \<lparr>ve_type = t, ve_message = error_message e, ve_nested = []\<rparr>)"

text \<open>\<open>verbose\<close> is the handler of the library for its own exceptions, \<open>str_of\<close> the text of an exception.\<close>

definition domain_to_verbose_response_handler ::
  "(verbose_exception \<Rightarrow> 'r) \<Rightarrow> (error \<Rightarrow> pystr) \<Rightarrow> error \<Rightarrow> 'r" where
  "domain_to_verbose_response_handler verbose str_of e =
     (if \<not> is_domain_error e
      then verbose \<lparr>ve_type = InternalServerErrorHTTPException, ve_message = str_of e, ve_nested = []\<rparr>
      else verbose (create_verbose_exception e (find_verbose_exception_type e)))"

section \<open>What the errors of the domain become\<close>

lemma not_found_answered: "find_verbose_exception_type e = NotFoundHTTPException \<longleftrightarrow> is_entry_not_found e"
  by (cases e) (simp_all add: find_verbose_exception_type_def domain_error_mapping_def)

lemma internal_errors:
  "is_domain_error e \<Longrightarrow> find_verbose_exception_type e = InternalServerErrorHTTPException \<longleftrightarrow>
     is_file_client_internal_error e \<or> e = CompetencyMatrixItemConflictError"
  by (cases e) (simp_all add: find_verbose_exception_type_def domain_error_mapping_def)

section \<open>A slug that is taken\<close>

lemma create_item_taken:
  assumes "ip_publish_status p = DRAFT" "ip_resources p = []"
    and su: "row_by su_id (ip_subsection_id p) (subsections d) = Some su" "to_item_structure d su = Inr st"
    and fresh: "ip_id p \<notin> im_id ` set (items d)"
    and taken: "i \<in> set (items d)" "im_sheet_id i = ns_sheet_id st" "im_slug i = ip_slug p"
  shows "create_item env pub p user d = (Inl CompetencyMatrixItemConflictError, d)"
proof -
  have rs: "assigned_resources p d = (Inr [], d)"
    using assms(2) by (simp add: assigned_resources_def get_resource_ids_to_assign_def all_resources_exists_by_ids_def run_simps)
  have str: "get_item_structure_by_subsection_id (ip_subsection_id p) d = (Inr st, d)"
    using su by (simp add: get_item_structure_by_subsection_id_def get_subsection_model_def require_def run_simps)
  let ?m = "ensure_first_published_at env (item_from_domain env (to_item p [] st None user))"
  have m: "im_id ?m = ip_id p" "im_sheet_id ?m = ns_sheet_id st" "im_slug ?m = ip_slug p"
    by (simp_all add: ensure_first_published_at_def item_from_domain_def to_item_def)
  have "im_id i \<noteq> ip_id p" using fresh taken(1) by (metis imageI)
  then have "\<not> slug_free ?m (items d)" using taken m by (auto simp: slug_free_def)
  moreover have "im_id ?m \<notin> im_id ` set (items d)" using fresh m(1) by simp
  ultimately have "map_error create_item_error (flush_new_item ?m rs') d = (Inl CompetencyMatrixItemConflictError, d)" for rs'
    by (simp add: map_error_def flush_new_item_def check_constraint_def run_simps)
  then show ?thesis
    using assms(1) rs str
    by (simp add: create_item_def ensure_allowed_def ensure_ready_if_published_def to_item_def create_competency_matrix_item_def
        run_simps Let_def)
qed

text \<open>C40: a slug that its sheet has already.  The request of an editor to create a draft without resources under it, with a valid body
  and an existing place in the structure, ends in an internal error and changes nothing: the storage raises its own error
  for the conflict, but the mapping of the handlers has no entry for it, where the other names that are taken are answered
  as bad requests or conflicts.\<close>

theorem taken_slug_internal_error:
  assumes "validate_item_request (ax_adapters c) raw = Inr data" "p = item_to_create_schema (ax_new_id c) data"
    and "ip_publish_status p = DRAFT" "ip_resources p = []"
    and "row_by su_id (ip_subsection_id p) (subsections (app_db a)) = Some su" "to_item_structure (app_db a) su = Inr st"
    and "ip_id p \<notin> im_id ` set (items (app_db a))"
    and "i \<in> set (items (app_db a))" "im_sheet_id i = ns_sheet_id st" "im_slug i = ip_slug p"
  shows "\<exists>e. fst (run_endpoint c ops (post_item c lang raw) a) = Inl e
    \<and> app_db (snd (run_endpoint c ops (post_item c lang raw) a)) = app_db a
    \<and> domain_to_verbose_response_handler verbose str_of e =
        verbose \<lparr>ve_type = InternalServerErrorHTTPException, ve_message = u ''Competency matrix item already exists'', ve_nested = []\<rparr>"
proof -
  have "create_item (ax_env c) (ax_publication c) p (provide_suggested_by_username (ax_user c)) (app_db a) =
      (Inl CompetencyMatrixItemConflictError, app_db a)"
    by (rule create_item_taken[OF assms(3-10)])
  then have "fst (run_endpoint c ops (post_item c lang raw) a) = Inl CompetencyMatrixItemConflictError
      \<and> app_db (snd (run_endpoint c ops (post_item c lang raw) a)) = app_db a"
    by (simp add: run_endpoint_def post_item_def assms(1,2) on_database_def on_world_def in_db_def run_simps)
  moreover have "find_verbose_exception_type CompetencyMatrixItemConflictError = InternalServerErrorHTTPException"
    using internal_errors[of CompetencyMatrixItemConflictError] by simp
  ultimately show ?thesis by (simp add: domain_to_verbose_response_handler_def create_verbose_exception_def)
qed

definition taken_request :: item_request where
  "taken_request =
     (let t = \<lparr>iz_question = u ''Why'', iz_answer = [], iz_explanation = []\<rparr> in
      \<lparr>iq_slug = u ''gil'', iq_subsection_id = u ''id0'', iq_grade = None, iq_interview_frequency = None,
       iq_publish_status = DRAFT, iq_translations = \<lparr>its_ru = t, its_en = t\<rparr>, iq_resources = []\<rparr>)"

definition matrix_app :: "(unit, pystr \<rightharpoonup> response \<times> int option) app" where
  "matrix_app = sample_app\<lparr>ap_world := \<lparr>w_db = sample_matrix, w_objects = Map.empty\<rparr>\<rparr>"

theorem taken_slug_internal_error_witness:
  "\<exists>e. fst (run_endpoint sample_api memory_ops (post_item sample_api EN taken_request) matrix_app) = Inl e
    \<and> ve_type (domain_to_verbose_response_handler id (\<lambda>_. []) e) = InternalServerErrorHTTPException"
proof -
  have raw: "validate_item_request (ax_adapters sample_api) taken_request = Inr taken_request"
    by (simp add: validate_item_request_def taken_request_def Let_def slug_string_def validate_item_translations_def
        validate_item_translation_def required_short_text_def after_validator_def trim_required_def validate_slug_def is_slug_def
        is_slug_char_def field_length_def short_text_max_length_def matrix_long_text_def and_then_def u_def strip_def strip_by_def is_space_def)
  let ?p = "item_to_create_schema (ax_new_id sample_api) taken_request"
  have p: "ip_publish_status ?p = DRAFT" "ip_resources ?p = []" "ip_subsection_id ?p = u ''id0''" "ip_slug ?p = u ''gil''"
    "ip_id ?p = u ''id0''"
    by (simp_all add: item_to_create_schema_def item_to_params_def taken_request_def Let_def sample_api_def str_of_nat.simps u_def)
  have db: "app_db matrix_app = sample_matrix" by (simp add: matrix_app_def)
  obtain st where st: "to_item_structure sample_matrix sample_subsection = Inr st" "ns_sheet_id st = u ''id0''"
    by (simp add: to_item_structure_def sample_matrix_def sample_tree_def sample_sheet_def sample_section_def sample_subsection_def
        row_by_def require_def)
  have su: "row_by su_id (ip_subsection_id ?p) (subsections sample_matrix) = Some sample_subsection"
    by (simp add: p sample_matrix_def sample_tree_def sample_subsection_def row_by_def)
  have "ip_id ?p \<notin> im_id ` set (items sample_matrix)" "sample_item \<in> set (items sample_matrix)"
    "im_sheet_id sample_item = ns_sheet_id st" "im_slug sample_item = ip_slug ?p"
    by (simp_all add: p st(2) sample_matrix_def sample_item_def) (simp add: u_def)?
  from taken_slug_internal_error[OF raw refl p(1,2), of matrix_app sample_subsection st sample_item memory_ops EN id "\<lambda>_. []",
      unfolded db, OF su st(1) this]
  show ?thesis by auto
qed

end
