(* ===== verification/Api_Answers.thy ===== *)
theory Api_Answers
  imports Cache_Transparency Api_Errors Workspace_Properties
begin

text \<open>
  The public routes never fail internally: what exists publicly is answered, what does not is not found.  The
  invariants of the database, the types of its rows and the mapping of the errors meet here.
\<close>

section \<open>Articles\<close>

lemma articles_page_answered:
  assumes inv: "content_inv d" and q: "provide_public_article_filters q = Inr f"
  shows "\<exists>pg. fst (uc_list_articles env ops f d) = Inr pg"
proof -
  have "1 \<le> lq_page q" "1 \<le> lq_page_size q" and f: "af_page f = Some (lq_page q)" "af_page_size f = Some (lq_page_size q)"
    using q by (auto simp: provide_public_article_filters_def page_query_def page_size_query_def and_then_def split: if_splits)
  then have "af_page f = Some (int (nat (lq_page q - 1)) + 1)" "af_page_size f = Some (int (nat (lq_page_size q)))"
    "0 < nat (lq_page_size q)" by simp_all
  from page_run[OF inv this, of env ops] show ?thesis by auto
qed

lemma article_answered:
  assumes inv: "content_inv d"
  shows "if \<exists>m \<in> set (articles d). am_slug m = slug \<and> am_publish_status m = PUBLISHED
    then \<exists>a. fst (get_article env slug True d) = Inr a else fst (get_article env slug True d) = Inl ArticleNotFoundError"
proof (cases "row_by am_slug slug (articles d)")
  case None
  then have "fst (get_article env slug True d) = Inl ArticleNotFoundError"
    by (simp add: get_article_def get_article_by_slug_def run_simps)
  moreover have "\<not> (\<exists>m \<in> set (articles d). am_slug m = slug \<and> am_publish_status m = PUBLISHED)"
    using None by (auto simp: row_by_None_iff)
  ultimately show ?thesis by simp
next
  case (Some m)
  then have m: "m \<in> set (articles d)" "am_slug m = slug" by (auto dest: row_by_SomeD)
  obtain a where a: "to_domain_schema d True True m = Inr a" using to_domain_total[OF inv m(1)] by blast
  have st: "is_available a \<longleftrightarrow> am_publish_status m = PUBLISHED" using to_domain_fields(3)[OF a] by (simp add: is_available_def)
  have run: "get_article env slug True d = (if is_available a then hydrate env a d else (Inl ArticleNotFoundError, d))"
    by (simp add: get_article_def get_article_by_slug_def Some a run_simps)
  have "distinct (map am_slug (articles d))" using inv by (simp add: content_inv_def articles_inv_defs)
  then have "(\<exists>m' \<in> set (articles d). am_slug m' = slug \<and> am_publish_status m' = PUBLISHED) \<longleftrightarrow> am_publish_status m = PUBLISHED"
    using m by (auto dest: same_row)
  then show ?thesis using hydrate_total[OF inv a, of env d] run st by auto
qed

section \<open>Questions\<close>

lemma question_answered:
  assumes inv: "matrix_inv h d"
  shows "if \<exists>i \<in> set (items d). \<exists>sh \<in> set (sheets d). sh_id sh = im_sheet_id i \<and> sh_key sh = key \<and> im_slug i = slug
      \<and> im_publish_status i = PUBLISHED
    then \<exists>it. fst (get_item_by_slug key slug True d) = Inr it
    else fst (get_item_by_slug key slug True d) = Inl CompetencyMatrixItemNotFoundError"
proof -
  define found where "found = [i. i \<leftarrow> items d, sh \<leftarrow> sheets d, sh_id sh = im_sheet_id i \<and> sh_key sh = key \<and> im_slug i = slug]"
  have rows: "i \<in> set found \<longleftrightarrow>
      i \<in> set (items d) \<and> (\<exists>sh \<in> set (sheets d). sh_id sh = im_sheet_id i \<and> sh_key sh = key \<and> im_slug i = slug)" for i
    by (auto simp: found_def)
  have run: "get_competency_matrix_item_by_slug key slug d =
      (case first found of None \<Rightarrow> (Inl CompetencyMatrixItemNotFoundError, d)
       | Some i \<Rightarrow> (item_to_domain d (item_links d i) i, d))"
    unfolding get_competency_matrix_item_by_slug_def run_bind run_gets found_def[symmetric] by (simp add: run_simps split: option.split)
  show ?thesis
  proof (cases "first found")
    case None
    then have "i \<notin> set found" for i by simp
    moreover have "fst (get_item_by_slug key slug True d) = Inl CompetencyMatrixItemNotFoundError"
      using None by (simp add: get_item_by_slug_def run_bind run)
    ultimately show ?thesis unfolding rows by auto
  next
    case (Some m)
    then have "m \<in> set found" by (rule first_SomeD)
    then obtain sh where m: "m \<in> set (items d)" "sh \<in> set (sheets d)" "sh_id sh = im_sheet_id m" "sh_key sh = key" "im_slug m = slug"
      unfolding rows by blast
    have only: "i = m" if "i \<in> set found" for i
    proof -
      from that obtain sh' where i: "i \<in> set (items d)" "sh' \<in> set (sheets d)" "sh_id sh' = im_sheet_id i" "sh_key sh' = key"
        "im_slug i = slug" unfolding rows by blast
      have "sh' = sh" using same_row[OF structure_facts(4)[OF inv] i(2) m(2)] i(4) m(4) by simp
      then show ?thesis using same_row[OF item_facts(2)[OF inv] i(1) m(1)] i(3,5) m(3,5) by simp
    qed
    obtain it where it: "item_to_domain d (item_links d m) m = Inr it"
      using item_to_domain_total[OF inv m(1), of "item_links d m"] by (auto simp: item_links_def)
    have got: "get_item_by_slug key slug True d =
        (if item_is_available it then (Inr it, d) else (Inl CompetencyMatrixItemNotFoundError, d))"
      by (simp add: get_item_by_slug_def run_bind run Some it run_ret run_raise)
    have "item_is_available it \<longleftrightarrow> im_publish_status m = PUBLISHED"
      using item_domain_fields[OF it] item_facts(4)[OF inv] m(1)
      by (auto simp: item_is_available_def has_missing_publication_fields_def item_ok_def)
    then show ?thesis using got only rows m by auto
  qed
qed

section \<open>Every public route\<close>

text \<open>What the requests ask for: articles and questions by name have to be published, lists are always there.\<close>

definition exists_publicly :: "db \<Rightarrow> public_request \<Rightarrow> bool" where
  "exists_publicly d r \<longleftrightarrow>
     (case r of
        GetArticle slug _ \<Rightarrow> \<exists>m \<in> set (articles d). am_slug m = slug \<and> am_publish_status m = PUBLISHED
      | GetItem key slug _ \<Rightarrow> \<exists>i \<in> set (items d). \<exists>sh \<in> set (sheets d). sh_id sh = im_sheet_id i \<and> sh_key sh = key
          \<and> im_slug i = slug \<and> im_publish_status i = PUBLISHED
      | _ \<Rightarrow> True)"

definition well_formed_request :: "public_request \<Rightarrow> bool" where
  "well_formed_request r \<longleftrightarrow> (\<forall>q. r = GetArticles q \<longrightarrow> (\<exists>f. provide_public_article_filters q = Inr f))"

lemma sound_value: "sound_read d m P \<Longrightarrow> fst (m d) = Inr a \<Longrightarrow> P a"
  by (auto simp: sound_read_def split: prod.splits)

lemma answer_cases:
  assumes inv: "site_inv h d" and shown: "readable c d" and q: "well_formed_request r"
  shows "if exists_publicly d r then \<exists>resp. answer c r d = Inr resp else \<exists>e. answer c r d = Inl e \<and> is_entry_not_found e"
proof -
  have content: "content_inv d" and matrix: "matrix_inv h d" using inv by (simp_all add: site_inv_def)
  have typed: "content_typed d" using shown by (simp add: readable_def)
  have "answers d (public_endpoint c r :: (unit, response) handler)"
    by (rule reading_answers[OF shown reading.intros(1)]) (use q in \<open>simp add: well_formed_request_def\<close>)
  then have valid: "answer c r d \<noteq> Inl ValidationError" by (simp add: answers_def answer_def)
  show ?thesis
  proof (cases r)
    case (GetArticles q')
    then obtain f where f: "provide_public_article_filters q' = Inr f" using q by (auto simp: well_formed_request_def)
    obtain pg where pg: "fst (uc_list_articles (ax_env c) (ax_search c) f d) = Inr pg"
      using articles_page_answered[OF content f] by blast
    from sound_value[OF list_articles_sound[OF shown] pg] have "\<forall>a \<in> set (pg_values pg). article_ok (ax_adapters c) a" .
    then have "\<exists>rs. all_or_error (map (article_summary_of (ax_adapters c) (af_language f)) (pg_values pg)) = Inr rs"
      using article_summary_shown by (intro all_shown) blast
    then show ?thesis
      using f pg GetArticles by (auto simp: answer_def cached_endpoints endpoint_reads exists_publicly_def article_list_of_def)
  next
    case (GetArticle slug lang)
    note found = article_answered[OF content, of slug "ax_env c"]
    have "\<exists>resp. answer c r d = Inr resp" if "fst (get_article (ax_env c) slug True d) = Inr a" for a
      using article_detail_shown[OF sound_value[OF get_article_sound[OF shown] that], of lang] that
      by (auto simp: GetArticle answer_def cached_endpoints endpoint_reads)
    moreover have "answer c r d = Inl e" if "fst (get_article (ax_env c) slug True d) = Inl e" for e
      using that by (simp add: GetArticle answer_def cached_endpoints endpoint_reads)
    ultimately show ?thesis using found by (auto simp: GetArticle exists_publicly_def split: if_splits)
  next
    case (GetItem key slug lang)
    note found = question_answered[OF matrix, of key slug]
    have "\<exists>resp. answer c r d = Inr resp" if "fst (get_item_by_slug key slug True d) = Inr it" for it
    proof -
      from sound_value[OF item_reads_sound(2)[OF typed] that] have "item_texts it" .
      from item_body_shown[OF this, of lang] that show ?thesis
        by (auto simp: GetItem answer_def cached_endpoints endpoint_reads public_item_detail_of_def)
    qed
    moreover have "answer c r d = Inl e" if "fst (get_item_by_slug key slug True d) = Inl e" for e
      using that by (simp add: GetItem answer_def cached_endpoints endpoint_reads)
    ultimately show ?thesis using found by (auto simp: GetItem exists_publicly_def split: if_splits)
  next
    case (GetItems key lang)
    obtain its where "list_competency_matrix_items \<lparr>mf_sheet_key = Some key, mf_only_published = Some True\<rparr> d = (Inr its, d)"
      using listed_items[OF matrix] by blast
    then show ?thesis
      by (simp add: GetItems answer_def cached_endpoints endpoint_reads exists_publicly_def list_items_def)
  next
    case (GetTags lang)
    obtain ts where ts: "fst (list_tags lang True d) = Inr ts" "set ts \<subseteq> set (tags d)"
      by (auto simp: list_tags_def run_simps)
    then have "\<exists>rs. tags_response lang ts = Inr rs"
      unfolding tags_response_def using tag_shown[OF typed_rows(2)[OF typed]] by (intro all_shown) blast
    then show ?thesis using ts(1) by (auto simp: GetTags answer_def cached_endpoints endpoint_reads exists_publicly_def)
  qed (auto simp: answer_def cached_endpoints endpoint_reads exists_publicly_def list_tree_def list_tree_items_def
      list_published_tree_items_def list_sheets_def)
qed

lemma warmed_exists:
  assumes "matrix_inv h d" "warmed_answer r d = Some resp"
  shows "exists_publicly d r"
proof (cases r)
  case (GetItem key slug lang)
  then have "\<exists>it. fst (get_item_by_slug key slug True d) = Inr it" using assms(2) by (auto split: sum.splits)
  then show ?thesis using question_answered[OF assms(1), of key slug] by (auto simp: GetItem exists_publicly_def split: if_splits)
qed (use assms(2) in \<open>simp_all add: exists_publicly_def\<close>)

text \<open>C2: no public route fails internally.  After any history of requests, background tasks, administration and
  expiry of cached responses, a public route with a well-formed query is answered, from the cache or not, whenever what it
  asks for is there: a list always, an article or a question by its name exactly when it is published.  Otherwise the
  error is one that the API answers as not found: no missing row, no failed validation and no internal error is ever
  met.  The object store has to give the stored files addresses that the schema of URLs accepts.\<close>

theorem public_requests_answered:
  assumes "kv_store ops view" "ax_use_cache site" "ax_default_key site = path_and_query_key"
    and "fresh_app view a0" "(app_step site ops view warmed)\<^sup>*\<^sup>* a0 a"
    and "same_site site c" "routable r"
    and "\<forall>f \<in> set (files (app_db a)). url_accepted c f" "well_formed_request r"
  shows "if exists_publicly (app_db a) r
    then (\<exists>resp. fst (serve c ops r a) = Inr resp) \<and> (\<exists>resp. fst (run_endpoint c ops (public_endpoint c r) a) = Inr resp)
    else \<exists>e. fst (serve c ops r a) = Inl e \<and> fst (run_endpoint c ops (public_endpoint c r) a) = Inl e
      \<and> find_verbose_exception_type e = NotFoundHTTPException"
proof -
  note served = reachable_served[OF assms(1-7)]
  have "readable c (app_db a)" using assms(8) served(3) by (simp add: readable_def)
  note cases = answer_cases[OF served(2) this assms(9)]
  have "exists_publicly (app_db a) r" if "warmed_answer r (app_db a) = Some resp" for resp
    using that warmed_exists[of "env_sha256 (ax_env site)" "app_db a"] served(2) by (simp add: site_inv_def)
  then show ?thesis using cases served(1) by (auto simp: run_public_endpoint not_found_answered)
qed

theorem public_requests_answered_witness:
  "let a = snd (run_endpoint sample_api memory_ops (post_tag sample_api EN raw_tag) sample_app) in
   (\<exists>resp. fst (serve sample_api memory_ops (GetTags EN) a) = Inr resp)
   \<and> (\<exists>e. fst (serve sample_api memory_ops (GetArticle (u ''python'') EN) a) = Inl e
        \<and> find_verbose_exception_type e = NotFoundHTTPException)"
proof -
  let ?a = "snd (run_endpoint sample_api memory_ops (post_tag sample_api EN raw_tag) sample_app)"
  have same: "same_site sample_api sample_api" by (simp add: same_site_def)
  from app_step.request[OF same endpoint.intros(20) prod.collapse[symmetric]]
  have reach: "(app_step sample_api memory_ops memory_view True)\<^sup>*\<^sup>* sample_app ?a" by (rule r_into_rtranclp)
  have fresh: "fresh_app memory_view sample_app" by (simp add: fresh_app_def sample_app_def memory_view_def fun_eq_iff)
  have cfg: "ax_use_cache sample_api" "ax_default_key sample_api = path_and_query_key" by (simp_all add: sample_api_def)
  have files: "\<forall>f \<in> set (files (app_db ?a)). url_accepted sample_api f" by (simp add: raw_tag_stored empty_db_def)
  have route: "routable (GetTags EN)" "routable (GetArticle (u ''python'') EN)" by simp_all
  have query: "well_formed_request (GetTags EN)" "well_formed_request (GetArticle (u ''python'') EN)"
    by (simp_all add: well_formed_request_def)
  have there: "exists_publicly (app_db ?a) (GetTags EN)" "\<not> exists_publicly (app_db ?a) (GetArticle (u ''python'') EN)"
    by (simp_all add: exists_publicly_def raw_tag_stored empty_db_def)
  show ?thesis
    unfolding Let_def
    using public_requests_answered[OF memory.kv_store_axioms cfg fresh reach same route(1) files query(1)]
      public_requests_answered[OF memory.kv_store_axioms cfg fresh reach same route(2) files query(2)] there
    by auto
qed

end
