(* ===== verification/Visit_Properties.thy ===== *)
theory Visit_Properties
  imports Cache_Properties
begin

text \<open>
  The visits of the site, end to end: requests to \<open>/analytics/visits\<close>, from the validation of the body to the rows
  of the counters.  The checks of the body and of the use case matter: the storage accepts any target, and a site visit
  to the target \<open>audience\<close> would be taken for a visitor.
\<close>

section \<open>What a recorded visit leaves\<close>

definition apart_from_visits :: "db \<Rightarrow> db" where
  "apart_from_visits d = d\<lparr>dailies := [], receipts := []\<rparr>"

text \<open>What a row of the counters can count: a page of the site, its audience, or a published question.\<close>

definition known_target :: "db \<Rightarrow> analytics_kind \<Rightarrow> pystr \<Rightarrow> bool" where
  "known_target d kind target \<longleftrightarrow>
     (case kind of
        KIND_SITE \<Rightarrow> target = u ''_audience'' \<or> target \<in> set (map public_page_value public_pages_all)
      | KIND_MATRIX \<Rightarrow> (\<exists>i \<in> set (items d). im_id i = target \<and> im_publish_status i = PUBLISHED)
      | _ \<Rightarrow> False)"

text \<open>The visitors of a day agree with the receipts of the audience.\<close>

definition audience_on :: "db \<Rightarrow> date \<Rightarrow> bool" where
  "audience_on d day \<longleftrightarrow> (\<forall>source. counter_of an_visitors d (day, KIND_SITE, u ''_audience'', source) =
     int (length (receipts_for d day KIND_SITE (u ''audience'') source)))"

definition visitable :: "db \<Rightarrow> analytics_visit \<Rightarrow> bool" where
  "visitable d v \<longleftrightarrow> known_target d (av_kind v) (av_target_id v)
     \<and> (av_kind v, av_target_id v) \<notin> {(KIND_SITE, u ''_audience''), (KIND_SITE, u ''audience'')}"

lemma record_visit_frame: "keeps (\<lambda>d. apart_from_visits d = x) (record_visit env cfg v day)"
  unfolding record_visit_def Let_def purge_receipts_def insert_receipt_def engage_receipt_def increment_def
  by (intro keeps_intros keeps_modify; simp add: apart_from_visits_def)

lemma increment_rows:
  assumes "P kind target"
  shows "keeps (\<lambda>d. \<forall>r \<in> set (dailies d). P (an_kind r) (an_target_id r)) (increment day kind target source n)"
proof (rule keepsI)
  fix d :: db assume rows: "\<forall>r \<in> set (dailies d). P (an_kind r) (an_target_id r)"
  let ?d = "snd (increment day kind target source n d)"
  have "daily_key ` set (dailies ?d) = insert (day, kind, target, source) (daily_key ` set (dailies d))"
    by (simp add: increment_state views_counter.keys_upsert)
  then have "daily_key r \<in> insert (day, kind, target, source) (daily_key ` set (dailies d))" if "r \<in> set (dailies ?d)" for r
    using that by blast
  then show "\<forall>r \<in> set (dailies ?d). P (an_kind r) (an_target_id r)"
    using rows assms by (fastforce simp: daily_key_def)
qed

lemma record_visit_rows:
  assumes "P (av_kind v) (av_target_id v)" "P KIND_SITE (u ''_audience'')"
  shows "keeps (\<lambda>d. \<forall>r \<in> set (dailies d). P (an_kind r) (an_target_id r)) (record_visit env cfg v day)"
  unfolding record_visit_def Let_def purge_receipts_def insert_receipt_def engage_receipt_def
  by (intro keeps_intros increment_rows keeps_modify; simp add: assms)

section \<open>Visitors\<close>

lemma audience_scope: "u ''Site:audience'' = analytics_kind_value KIND_SITE @ 58 # u ''audience''"
  by (simp add: u_def)

lemma audience_purge:
  assumes "audience_on d D" and "day - ag_receipt_retention_days cfg \<le> D"
  shows "audience_on (snd (purge_receipts cfg day d)) D"
proof -
  have "receipts_for (snd (purge_receipts cfg day d)) D k t s = receipts_for d D k t s" for k t s
    using assms(2) by (auto simp: receipts_for_def purge_receipts_def run_simps delete_where_def intro!: filter_cong)
  moreover have "counter_of val (snd (purge_receipts cfg day d)) k = counter_of val d k" for val k
    by (simp add: purge_receipts_def run_simps)
  ultimately show ?thesis using assms(1) by (simp add: audience_on_def)
qed

lemma audience_increment:
  assumes "audience_on d D" "analytics_inv d" "ic_visitors n = 0"
  shows "audience_on (snd (increment day kind target source n d)) D"
  using assms by (simp add: audience_on_def increment_counters)

lemma audience_new_visitor:
  assumes aud: "audience_on d D" and inv: "analytics_inv d" and new: "receipt_key r \<notin> receipt_key ` set (receipts d)"
    and r: "rc_date r = day" "rc_scope r = u ''Site:audience''" "rc_source r = source"
  shows "audience_on (snd (increment day KIND_SITE (u ''_audience'') source (no_increments\<lparr>ic_visitors := 1\<rparr>)
    (d\<lparr>receipts := receipts d @ [r]\<rparr>))) D"
proof -
  let ?d = "d\<lparr>receipts := receipts d @ [r]\<rparr>"
  have inv': "analytics_inv ?d" using inv new by (simp add: analytics_inv_def)
  have "receipts_for ?d D KIND_SITE (u ''audience'') s = receipts_for d D KIND_SITE (u ''audience'') s
      @ (if D = day \<and> s = source then [r] else [])" for s
    using r by (auto simp: receipts_for_def audience_scope)
  moreover have "counter_of an_visitors ?d k = counter_of an_visitors d k" for k by simp
  ultimately show ?thesis using aud
    unfolding audience_on_def increment_counters(5)[OF inv'] receipts_for_increment
    by (simp add: no_increments_def del: counter_of_receipts)
qed

lemma audience_view:
  assumes aud: "audience_on d D" and inv: "analytics_inv d" and view: "av_event v = EVENT_VIEW"
    and purged: "snd (purge_receipts cfg day d) = d" and v: "visitable e v"
  shows "audience_on (snd (record_visit env cfg v day d)) D"
proof (cases "receipt_key (view_receipt env cfg v day) \<in> receipt_key ` set (receipts d)")
  case True
  then show ?thesis using aud by (simp add: record_view_run[OF view purged])
next
  case False
  let ?r = "view_receipt env cfg v day" and ?a = "audience_receipt env cfg v day"
  let ?d0 = "d\<lparr>receipts := receipts d @ [?r]\<rparr>"
  let ?d1 = "snd (increment day (av_kind v) (av_target_id v) (av_source v) (no_increments\<lparr>ic_views := 1\<rparr>) ?d0)"
  let ?d2 = "?d1\<lparr>receipts := receipts ?d1 @ [?a]\<rparr>"
  let ?d3 = "snd (increment day KIND_SITE (u ''_audience'') (av_source v) (no_increments\<lparr>ic_visitors := 1\<rparr>) ?d2)"
  have "rc_scope ?r \<noteq> analytics_kind_value KIND_SITE @ 58 # u ''audience''"
    using v by (simp add: view_receipt_def visit_scope_def scope_inj visitable_def del: analytics_kind_value.simps)
  then have "receipts_for ?d0 day' KIND_SITE (u ''audience'') s = receipts_for d day' KIND_SITE (u ''audience'') s" for day' s
    by (simp add: receipts_for_def)
  then have "audience_on ?d0 D" using aud by (simp add: audience_on_def)
  moreover have inv0: "analytics_inv ?d0" using inv False by (simp add: analytics_inv_def)
  ultimately have aud1: "audience_on ?d1 D" by (rule audience_increment) (simp add: no_increments_def)
  have inv1: "analytics_inv ?d1" using inv0 by (rule keepsD[OF increment_keeps])
  have "audience_on ?d3 D" if new: "receipt_key ?a \<notin> receipt_key ` set (receipts ?d1)"
    by (rule audience_new_visitor[OF aud1 inv1 new]) (simp_all add: audience_receipt_def)
  then show ?thesis
    unfolding record_view_run[OF view purged] Let_def if_not_P[OF False] using aud1 by (simp only: split: if_split) blast
qed

lemma audience_engage:
  assumes aud: "audience_on d D" and inv: "analytics_inv d" and engaged: "av_event v \<noteq> EVENT_VIEW"
    and purged: "snd (purge_receipts cfg day d) = d"
  shows "audience_on (snd (record_visit env cfg v day d)) D"
proof -
  let ?rs = "update_where (engage_hit env cfg v day) (\<lambda>r. r\<lparr>rc_engaged := True\<rparr>) (receipts d)"
  let ?d1 = "d\<lparr>receipts := ?rs\<rparr>"
  have "length (receipts_for ?d1 D KIND_SITE (u ''audience'') s) = length (receipts_for d D KIND_SITE (u ''audience'') s)" for s
    using engaged_updates(2)[of "engage_hit env cfg v day"
        "\<lambda>r. rc_date r = D \<and> rc_scope r = analytics_kind_value KIND_SITE @ 58 # u ''audience'' \<and> rc_source r = s" "receipts d"]
    by (simp add: receipts_for_def engage_hit_def)
  then have "audience_on ?d1 D" using aud by (simp add: audience_on_def)
  moreover have "analytics_inv ?d1" using inv by (simp add: analytics_inv_def map_update_where receipt_key_def)
  ultimately show ?thesis
    unfolding record_engage_run[OF engaged purged] Let_def
    by (auto intro: audience_increment simp: no_increments_def split: option.split)
qed

lemma record_visit_audience:
  assumes aud: "audience_on d D" and inv: "analytics_inv d" and kept: "day - ag_receipt_retention_days cfg \<le> D"
    and v: "visitable e v"
  shows "audience_on (snd (record_visit env cfg v day d)) D"
proof -
  let ?e = "snd (purge_receipts cfg day d)"
  have "audience_on ?e D" using aud kept by (rule audience_purge)
  moreover have "analytics_inv ?e" using inv by (rule keepsD[OF purge_receipts_keeps])
  ultimately have "audience_on (snd (record_visit env cfg v day ?e)) D"
    using audience_view[of ?e D v cfg day e env] audience_engage[of ?e D v cfg day env] v
    by (cases "av_event v = EVENT_VIEW") (simp_all add: purge_idem)
  then show ?thesis using record_visit_purged[of env cfg v day d] by simp
qed

section \<open>Requests\<close>

lemma field_length_run: "field_length a b t = Inr t' \<Longrightarrow> t' = t"
  by (simp add: field_length_def split: if_splits)

lemma validated_visit:
  assumes "validate_visit_request q = Inr data"
  shows "data = q" and "vq_kind q = KIND_SITE \<or> vq_kind q = KIND_MATRIX"
    and "vq_kind q = KIND_SITE \<Longrightarrow> vq_target_id q \<in> set (map public_page_value public_pages_all)"
  using assms
  by (auto simp: validate_visit_request_def validate_target_def after_validator_def from_value_def and_then_def find_Some_iff
      split: if_splits sum.splits option.splits dest!: field_length_run) (metis image_eqI nth_mem)

lemma site_pages_not_audience:
  "u ''_audience'' \<notin> set (map public_page_value public_pages_all)" "u ''audience'' \<notin> set (map public_page_value public_pages_all)"
  by (simp_all add: public_pages_all_def u_def)

lemma item_to_domain_fields: "item_to_domain d links i = Inr it \<Longrightarrow> mi_id it = im_id i \<and> mi_publish_status it = im_publish_status i"
  by (auto simp: item_to_domain_def split: sum.splits)

lemma item_by_slug_found:
  assumes "get_competency_matrix_item_by_slug key slug d = (Inr it, d1)"
  shows "d1 = d \<and> (\<exists>i \<in> set (items d). mi_id it = im_id i \<and> mi_publish_status it = im_publish_status i)"
proof -
  let ?rows = "[i. i \<leftarrow> items d, sh \<leftarrow> sheets d, sh_id sh = im_sheet_id i \<and> sh_key sh = key \<and> im_slug i = slug]"
  obtain i where i: "first ?rows = Some i"
    using assms by (cases "first ?rows") (simp_all add: get_competency_matrix_item_by_slug_def run_simps)
  have "item_to_domain d (item_links d i) i = Inr it" "d1 = d"
    using assms by (auto simp: get_competency_matrix_item_by_slug_def run_simps i split: sum.splits)
  moreover have "i \<in> set (items d)" using first_SomeD[OF i] by (auto split: if_splits)
  ultimately show ?thesis using item_to_domain_fields by blast
qed

lemma record_public_visit_run:
  assumes "validate_visit_request q = Inr data" "record_public_visit env cfg (visit_to_domain data) day d = (Inr (), d')"
  shows "\<exists>v. visitable d v \<and> d' = snd (record_visit env cfg v day d)"
proof (cases "vq_kind q = KIND_SITE")
  case True
  then have "record_visit env cfg (visit_to_domain data) day d = (Inr (), d')"
    using assms(2) validated_visit(1)[OF assms(1)]
    by (auto simp: record_public_visit_def visit_to_domain_def raise_def split: option.splits)
  moreover have "visitable d (visit_to_domain data)"
    using validated_visit(3)[OF assms(1) True] site_pages_not_audience validated_visit(1)[OF assms(1)] True
    by (auto simp: visitable_def known_target_def visit_to_domain_def)
  ultimately show ?thesis by (metis snd_conv)
next
  case False
  then have kind: "vq_kind q = KIND_MATRIX" using validated_visit(2)[OF assms(1)] by simp
  let ?v = "visit_to_domain data"
  obtain key slug where parts: "partition_at 47 (av_target_id ?v) = (key, Some slug)"
    using assms(2) kind validated_visit(1)[OF assms(1)]
    by (auto simp: record_public_visit_def visit_to_domain_def raise_def split: option.splits prod.splits)
  then obtain it d1 where it: "get_competency_matrix_item_by_slug key slug d = (Inr it, d1)" "item_is_available it"
    and rec: "record_visit env cfg (?v\<lparr>av_target_id := mi_id it\<rparr>) day d1 = (Inr (), d')"
    using assms(2) kind validated_visit(1)[OF assms(1)]
    by (auto simp: record_public_visit_def visit_to_domain_def bind_def raise_def split: prod.splits sum.splits if_splits)
  from it(1) obtain i where i: "i \<in> set (items d)" "mi_id it = im_id i" "mi_publish_status it = im_publish_status i" "d1 = d"
    using item_by_slug_found by blast
  have "visitable d (?v\<lparr>av_target_id := mi_id it\<rparr>)"
    using i it(2) kind validated_visit(1)[OF assms(1)]
    by (auto simp: visitable_def known_target_def visit_to_domain_def item_is_available_def)
  moreover have "d' = snd (record_visit env cfg (?v\<lparr>av_target_id := mi_id it\<rparr>) day d)" using rec i(4) by simp
  ultimately show ?thesis by blast
qed

lemma post_visit_run:
  assumes "post_visit c cfg dnt body s = (Inr r, s')"
  shows "sn_post_commit s' = sn_post_commit s"
    and "session_db s' = session_db s \<or> (\<exists>v. visitable (session_db s) v
      \<and> session_db s' = snd (record_visit (ax_env c) cfg v (date_of (env_now (ax_env c))) (session_db s)))"
    and "dnt = Some (u ''1'') \<or> can_manage_content (ax_user c) \<Longrightarrow> s' = s"
proof -
  let ?day = "date_of (env_now (ax_env c))"
  obtain data where data: "validate_visit_request body = Inr data"
    using assms by (cases "validate_visit_request body") (simp_all add: post_visit_def run_simps)
  show ignored: "s' = s" if "dnt = Some (u ''1'') \<or> can_manage_content (ax_user c)"
    using assms that by (auto simp: post_visit_def data run_simps)
  have "sn_post_commit s' = sn_post_commit s \<and> (\<exists>v. visitable (session_db s) v
      \<and> session_db s' = snd (record_visit (ax_env c) cfg v ?day (session_db s)))"
    if "\<not> (dnt = Some (u ''1'') \<or> can_manage_content (ax_user c))"
  proof -
    obtain x d1 where run: "record_public_visit (ax_env c) cfg (visit_to_domain data) ?day (session_db s) = (x, d1)" by fastforce
    then have "x = Inr ()" "s' = s\<lparr>sn_world := (sn_world s)\<lparr>w_db := d1\<rparr>\<rparr>"
      using assms that
      by (auto simp: post_visit_def data run_simps on_database_def on_world_def in_db_def split: sum.splits)
    then show ?thesis using record_public_visit_run[OF data] run by auto
  qed
  then show "sn_post_commit s' = sn_post_commit s" and "session_db s' = session_db s \<or> (\<exists>v. visitable (session_db s) v
      \<and> session_db s' = snd (record_visit (ax_env c) cfg v ?day (session_db s)))"
    using ignored by blast+
qed

lemma run_endpoint_plain:
  assumes "\<And>s r s'. m s = (Inr r, s') \<Longrightarrow> sn_post_commit s = [] \<Longrightarrow> sn_post_commit s' = []"
  shows "app_db (snd (run_endpoint c ops m a)) = app_db a
    \<or> (\<exists>r s'. m \<lparr>sn_world = ap_world a, sn_quota = ap_quota a, sn_post_commit = []\<rparr> = (Inr r, s')
        \<and> app_db (snd (run_endpoint c ops m a)) = session_db s')"
proof -
  let ?s = "\<lparr>sn_world = ap_world a, sn_quota = ap_quota a, sn_post_commit = []\<rparr>"
  obtain x s' where run: "m ?s = (x, s')" by fastforce
  then show ?thesis using assms[of ?s _ s']
    by (cases x) (simp_all add: run_endpoint_def run_post_commit_actions_def run_simps)
qed

section \<open>Histories of requests\<close>

text \<open>The clock of the requests never goes back; their bodies, users and headers are arbitrary.\<close>

inductive visit_request_step ::
  "analytics_config \<Rightarrow> ('st, response) store_ops \<Rightarrow> ('q, 'st) app \<times> date \<Rightarrow> ('q, 'st) app \<times> date \<Rightarrow> bool" for cfg ops where
  "today \<le> date_of (env_now (ax_env c)) \<Longrightarrow>
     visit_request_step cfg ops (a, today) (snd (run_endpoint c ops (post_visit c cfg dnt body) a), date_of (env_now (ax_env c)))"

inductive_cases visit_request_stepE: "visit_request_step cfg ops (a, today) s"

definition counted_inv :: "db \<Rightarrow> analytics_config \<Rightarrow> db \<Rightarrow> date \<Rightarrow> bool" where
  "counted_inv d0 cfg d today \<longleftrightarrow>
     analytics_inv d \<and> apart_from_visits d = apart_from_visits d0
     \<and> (\<forall>D. today - ag_receipt_retention_days cfg \<le> D \<longrightarrow> exact_on d D \<and> audience_on d D)
     \<and> (\<forall>r \<in> set (dailies d). known_target d0 (an_kind r) (an_target_id r))"

lemma counted_later: "counted_inv d0 cfg d today \<Longrightarrow> today \<le> day \<Longrightarrow> counted_inv d0 cfg d day"
  by (simp add: counted_inv_def)

lemma visitable_apart: "apart_from_visits d = apart_from_visits d0 \<Longrightarrow> visitable d v = visitable d0 v"
  by (drule arg_cong[where f = items]) (auto simp: apart_from_visits_def visitable_def known_target_def split: analytics_kind.split)

lemma counted_visit:
  assumes inv: "counted_inv d0 cfg d today" and later: "today \<le> day" and v: "visitable d v"
  shows "counted_inv d0 cfg (snd (record_visit env cfg v day d)) day"
proof -
  let ?d = "snd (record_visit env cfg v day d)"
  from inv have "analytics_inv d" "apart_from_visits d = apart_from_visits d0"
    and exact: "\<And>D. today - ag_receipt_retention_days cfg \<le> D \<Longrightarrow> exact_on d D \<and> audience_on d D"
    and rows: "\<forall>r \<in> set (dailies d). known_target d0 (an_kind r) (an_target_id r)"
    by (simp_all add: counted_inv_def)
  have v0: "visitable d0 v" using v visitable_apart[OF \<open>apart_from_visits d = apart_from_visits d0\<close>] by simp
  have "analytics_inv ?d" by (rule keepsD[OF record_visit_keeps \<open>analytics_inv d\<close>])
  moreover have "apart_from_visits ?d = apart_from_visits d0"
    by (rule keepsD[OF record_visit_frame \<open>apart_from_visits d = apart_from_visits d0\<close>])
  moreover have "exact_on ?d D \<and> audience_on ?d D" if "day - ag_receipt_retention_days cfg \<le> D" for D
    using exact[of D] later that record_visit_exact[OF _ \<open>analytics_inv d\<close> that]
      record_visit_audience[OF _ \<open>analytics_inv d\<close> that v] by simp
  moreover have "known_target d0 (av_kind v) (av_target_id v)" using v0 by (simp add: visitable_def)
  then have "\<forall>r \<in> set (dailies ?d). known_target d0 (an_kind r) (an_target_id r)"
    by (rule keepsD[OF record_visit_rows rows]) (simp add: known_target_def)
  ultimately show ?thesis by (simp add: counted_inv_def)
qed

definition visits_start :: "db \<Rightarrow> ('q, 'st) app \<times> date \<Rightarrow> bool" where
  "visits_start d0 s \<longleftrightarrow> app_db (fst s) = d0 \<and> dailies d0 = [] \<and> receipts d0 = []"

interpretation visit_requests: machine "visits_start d0" "visit_request_step cfg ops" "\<lambda>s. counted_inv d0 cfg (app_db (fst s)) (snd s)"
  for d0 cfg and ops :: "('st, response) store_ops"
proof
  fix s :: "('q, 'st) app \<times> date" assume "visits_start d0 s"
  then show "counted_inv d0 cfg (app_db (fst s)) (snd s)"
    by (auto simp: visits_start_def counted_inv_def analytics_inv_def exact_on_def audience_on_def counter_of_def receipts_for_def)
next
  fix s t :: "('q, 'st) app \<times> date" assume step: "visit_request_step cfg ops s t" and inv: "counted_inv d0 cfg (app_db (fst s)) (snd s)"
  obtain a today where s: "s = (a, today)" by fastforce
  from step[unfolded s] obtain c dnt body where later: "today \<le> date_of (env_now (ax_env c))"
    and t: "t = (snd (run_endpoint c ops (post_visit c cfg dnt body) a), date_of (env_now (ax_env c)))"
    by (rule visit_request_stepE)
  have "app_db (fst t) = app_db a \<or> (\<exists>v. visitable (app_db a) v
      \<and> app_db (fst t) = snd (record_visit (ax_env c) cfg v (date_of (env_now (ax_env c))) (app_db a)))"
    using run_endpoint_plain[of "post_visit c cfg dnt body" c ops a] post_visit_run(1,2)[of c cfg dnt body] unfolding t
    by fastforce
  then show "counted_inv d0 cfg (app_db (fst t)) (snd t)"
    using inv later counted_later counted_visit unfolding s t by fastforce
qed

text \<open>C5: the statistics of visits end to end.  Whatever bodies, users and headers the requests to record a visit
  have, after any history of them: nothing but the counters and the receipts has changed; every row of the counters
  belongs to a page of the site, to its audience, or to a question that is published; for every day whose receipts are
  still kept the views and the engaged views of a target are exactly its receipts and its engaged receipts, and the
  visitors of the site exactly the receipts of its audience, of which there is one for a visitor and a day; and a further
  request with the header \<open>DNT: 1\<close> or of somebody who manages the content changes nothing.\<close>

theorem public_visits_exact:
  assumes "(visit_request_step cfg ops)\<^sup>*\<^sup>* (a0, start) (a, today)" "dailies (app_db a0) = []" "receipts (app_db a0) = []"
  shows "app_db a = (app_db a0)\<lparr>dailies := dailies (app_db a), receipts := receipts (app_db a)\<rparr>
    \<and> (\<forall>r \<in> set (dailies (app_db a)). known_target (app_db a0) (an_kind r) (an_target_id r))
    \<and> (\<forall>day source. today - ag_receipt_retention_days cfg \<le> day \<longrightarrow>
         (\<forall>kind target. (kind, target) \<noteq> (KIND_SITE, u ''audience'') \<longrightarrow>
            counter_of an_views (app_db a) (day, kind, target, source) = int (length (receipts_for (app_db a) day kind target source))
            \<and> counter_of an_engaged (app_db a) (day, kind, target, source) =
                int (length (filter rc_engaged (receipts_for (app_db a) day kind target source))))
         \<and> counter_of an_visitors (app_db a) (day, KIND_SITE, u ''_audience'', source) =
             int (length (receipts_for (app_db a) day KIND_SITE (u ''audience'') source)))
    \<and> distinct (map receipt_key (receipts (app_db a)))
    \<and> (\<forall>c dnt body. dnt = Some (u ''1'') \<or> can_manage_content (ax_user c) \<longrightarrow>
         app_db (snd (run_endpoint c ops (post_visit c cfg dnt body) a)) = app_db a)"
proof -
  have "visits_start (app_db a0) (a0, start)" using assms(2,3) by (simp add: visits_start_def)
  from visit_requests.reachable_inv[OF this assms(1)] have inv: "counted_inv (app_db a0) cfg (app_db a) today" by simp
  then have "apart_from_visits (app_db a) = apart_from_visits (app_db a0)" by (simp add: counted_inv_def)
  then have "app_db a = (app_db a0)\<lparr>dailies := dailies (app_db a), receipts := receipts (app_db a)\<rparr>"
    unfolding apart_from_visits_def by (cases "app_db a"; cases "app_db a0") simp
  moreover have "app_db (snd (run_endpoint c ops (post_visit c cfg dnt body) a)) = app_db a"
    if "dnt = Some (u ''1'') \<or> can_manage_content (ax_user c)" for c dnt body
    using run_endpoint_plain[of "post_visit c cfg dnt body" c ops a] post_visit_run(1,3)[of c cfg dnt body] that
    by fastforce
  ultimately show ?thesis using inv unfolding counted_inv_def exact_on_def audience_on_def analytics_inv_def by blast
qed

definition about_visit :: visit_request where
  "about_visit = \<lparr>vq_kind = KIND_SITE, vq_target_id = u ''about'', vq_event = EVENT_VIEW, vq_source = SRC_DIRECT,
     vq_visitor_token = u ''p'', vq_visit_token = u ''q''\<rparr>"

definition reader_api :: api where
  "reader_api = sample_api\<lparr>ax_user := anonymous\<rparr>"

lemma about_visit_recorded:
  "app_db (snd (run_endpoint reader_api memory_ops (post_visit reader_api sample_config None about_visit) sample_app)) =
     snd (record_visit sample_env sample_config (visit_to_domain about_visit) (date_of (env_now sample_env)) empty_db)"
proof -
  have valid: "validate_visit_request about_visit = Inr about_visit"
    by (simp add: validate_visit_request_def about_visit_def field_length_def after_validator_def validate_target_def
        from_value_def public_pages_all_def u_def)
  have env: "ax_env reader_api = sample_env" "\<not> can_manage_content (ax_user reader_api)"
    by (simp_all add: reader_api_def sample_api_def can_manage_content_def anonymous_def)
  have site: "record_public_visit sample_env sample_config (visit_to_domain about_visit) day =
      record_visit sample_env sample_config (visit_to_domain about_visit) day" for day
    by (simp add: record_public_visit_def visit_to_domain_def about_visit_def from_value_def public_pages_all_def u_def)
  obtain x d where run: "record_visit sample_env sample_config (visit_to_domain about_visit) (date_of (env_now sample_env)) empty_db = (x, d)"
    by fastforce
  have "fst (record_visit sample_env sample_config (visit_to_domain about_visit) (date_of (env_now sample_env)) empty_db) = Inr ()"
    by code_simp
  then have "x = Inr ()" by (simp add: run)
  then show ?thesis
    by (simp add: run_endpoint_def post_visit_def valid env site run_simps on_database_def on_world_def in_db_def run
        sample_app_def run_post_commit_actions_def)
qed

theorem public_visits_exact_witness:
  "let day = date_of (env_now sample_env);
       d = app_db (snd (run_endpoint reader_api memory_ops (post_visit reader_api sample_config None about_visit) sample_app))
   in counter_of an_visitors d (day, KIND_SITE, u ''_audience'', SRC_DIRECT) = 1"
proof -
  let ?day = "date_of (env_now sample_env)"
  let ?a = "snd (run_endpoint reader_api memory_ops (post_visit reader_api sample_config None about_visit) sample_app)"
  have "(visit_request_step sample_config memory_ops)\<^sup>*\<^sup>* (sample_app, ?day) (?a, ?day)"
    using visit_request_step.intros[of ?day reader_api sample_config memory_ops sample_app None about_visit]
    by (intro r_into_rtranclp) (simp add: reader_api_def sample_api_def)
  moreover have "dailies (app_db sample_app) = []" "receipts (app_db sample_app) = []" by (simp_all add: sample_app_def empty_db_def)
  moreover have "?day - ag_receipt_retention_days sample_config \<le> ?day" by (simp add: sample_config_def)
  ultimately have "counter_of an_visitors (app_db ?a) (?day, KIND_SITE, u ''_audience'', SRC_DIRECT) =
      int (length (receipts_for (app_db ?a) ?day KIND_SITE (u ''audience'') SRC_DIRECT))"
    using public_visits_exact[of sample_config memory_ops sample_app ?day ?a ?day] by blast
  also have "length (receipts_for (app_db ?a) ?day KIND_SITE (u ''audience'') SRC_DIRECT) = 1"
    unfolding about_visit_recorded by code_simp
  finally show ?thesis by (simp add: Let_def)
qed

end
