(* ===== verification/Discovery.thy ===== *)
theory Discovery
  imports Cache_Properties Workspace_Properties
begin

text \<open>
  The routes for search engines in \<open>entrypoints/litestar/public\<close>: the sitemap and \<open>robots.txt\<close>.  The
  address of the site (\<open>settings.app\<close>) is a parameter of the definitions.
\<close>

section \<open>Addresses\<close>

record app_settings =
  st_url_schema :: pystr
  st_debug :: bool
  st_domain :: pystr

definition is_local_domain :: "app_settings \<Rightarrow> bool" where
  "is_local_domain cfg \<longleftrightarrow> st_domain cfg \<in> {u ''localhost'', u ''127.0.0.1'', u ''0.0.0.0''}"

definition base_url :: "app_settings \<Rightarrow> pystr" where
  "base_url cfg = st_url_schema cfg @ u ''://'' @ st_domain cfg
     @ (if st_debug cfg \<and> is_local_domain cfg then u '':8000'' else [])"

definition get_url :: "app_settings \<Rightarrow> pystr \<Rightarrow> pystr" where
  "get_url cfg path = base_url cfg @ u ''/'' @ removeprefix (u ''/'') path"

record public_url =
  pu_path :: pystr
  pu_updated_at :: "pystr option"

definition absolute_url :: "app_settings \<Rightarrow> public_url \<Rightarrow> pystr" where
  "absolute_url cfg url = get_url cfg (pu_path url)"

text \<open>\<open>path.split("/", maxsplit=2)[2]\<close>; \<open>None\<close> is the \<open>IndexError\<close> of a path with fewer separators.\<close>

definition after_two_separators :: "pystr \<Rightarrow> pystr option" where
  "after_two_separators path =
     (case partition_at 47 path of
        (_, None) \<Rightarrow> None
      | (_, Some rest) \<Rightarrow> snd (partition_at 47 rest))"

definition path_for_language :: "public_url \<Rightarrow> language \<Rightarrow> pystr option" where
  "path_for_language url lang =
     map_option (\<lambda>rest. u ''/'' @ language_value lang @ u ''/'' @ rest) (after_two_separators (pu_path url))"

definition languages_all :: "language list" where
  "languages_all = [RU, EN]"

definition localized_variants :: "app_settings \<Rightarrow> public_url \<Rightarrow> error + (language \<times> pystr) list" where
  "localized_variants cfg url =
     all_or_error (map (\<lambda>lang. case path_for_language url lang of
         None \<Rightarrow> Inl IndexError
       | Some path \<Rightarrow> Inr (lang, get_url cfg path)) languages_all)"

definition static_pages :: "pystr list" where
  "static_pages = [u ''how-this-site-is-built'', u ''updates'']"

definition page_path :: "language \<Rightarrow> pystr \<Rightarrow> pystr" where
  "page_path lang path = u ''/'' @ language_value lang @ u ''/'' @ path"

definition article_path :: "pystr \<Rightarrow> pystr" where
  "article_path slug = u ''competency/articles/'' @ slug"

definition question_path :: "pystr \<Rightarrow> pystr \<Rightarrow> pystr" where
  "question_path sheet_key slug = u ''competency/matrix/questions/'' @ sheet_key @ u ''/'' @ slug"

definition build_urls :: "published_article_for_seo list \<Rightarrow> published_item_for_seo list \<Rightarrow> public_url list" where
  "build_urls as its =
     [\<lparr>pu_path = page_path lang path, pu_updated_at = None\<rparr>. path \<leftarrow> static_pages, lang \<leftarrow> languages_all]
     @ [\<lparr>pu_path = page_path lang (article_path (ps_slug a)), pu_updated_at = Some (datetime_isoformat (ps_updated_at a))\<rparr>.
          a \<leftarrow> filter (\<lambda>a. ps_publish_status a = PUBLISHED) as, lang \<leftarrow> languages_all]
     @ [\<lparr>pu_path = page_path lang (question_path (pi_sheet_key i) (pi_slug i)), pu_updated_at = None\<rparr>.
          i \<leftarrow> filter (\<lambda>i. pi_publish_status i = PUBLISHED) its, lang \<leftarrow> languages_all]"

section \<open>The sitemap\<close>

definition replace_char :: "nat \<Rightarrow> pystr \<Rightarrow> pystr \<Rightarrow> pystr" where
  "replace_char c r s = concat (map (\<lambda>x. if x = c then r else [x]) s)"

definition xml_escape :: "pystr \<Rightarrow> pystr" where
  "xml_escape v = replace_char 62 (u ''&gt;'') (replace_char 60 (u ''&lt;'') (replace_char 38 (u ''&amp;'') v))"

definition xml_quoteattr :: "pystr \<Rightarrow> pystr" where
  "xml_quoteattr v = [34] @ replace_char 34 (u ''&quot;'') (xml_escape v) @ [34]"

definition newline :: pystr where
  "newline = [10]"

definition render_alternate :: "language \<times> pystr \<Rightarrow> pystr" where
  "render_alternate v =
     u ''    <xhtml:link rel='' @ [34] @ u ''alternate'' @ [34] @ u '' hreflang='' @ [34] @ language_value (fst v) @ [34]
       @ u '' href='' @ xml_quoteattr (snd v) @ u '' />''"

text \<open>An empty date counts as none.\<close>

definition render_lastmod :: "pystr option \<Rightarrow> pystr" where
  "render_lastmod t =
     (case t of
        None \<Rightarrow> []
      | Some x \<Rightarrow> if x = [] then [] else newline @ u ''    <lastmod>'' @ xml_escape x @ u ''</lastmod>'')"

definition render_url :: "app_settings \<Rightarrow> public_url \<Rightarrow> error + pystr" where
  "render_url cfg url =
     and_then (localized_variants cfg url) (\<lambda>variants.
     Inr (u ''  <url>'' @ newline
       @ u ''    <loc>'' @ xml_escape (absolute_url cfg url) @ u ''</loc>'' @ newline
       @ join newline (map render_alternate variants) @ render_lastmod (pu_updated_at url) @ newline
       @ u ''  </url>''))"

definition render_sitemap :: "app_settings \<Rightarrow> public_url list \<Rightarrow> error + pystr" where
  "render_sitemap cfg urls =
     and_then (all_or_error (map (render_url cfg) urls)) (\<lambda>entries.
     Inr (u ''<?xml version='' @ [34] @ u ''1.0'' @ [34] @ u '' encoding='' @ [34] @ u ''UTF-8'' @ [34] @ u ''?>'' @ newline
       @ u ''<urlset xmlns='' @ [34] @ u ''http://www.sitemaps.org/schemas/sitemap/0.9'' @ [34]
       @ u '' xmlns:xhtml='' @ [34] @ u ''http://www.w3.org/1999/xhtml'' @ [34] @ u ''>'' @ newline
       @ join newline entries @ newline
       @ u ''</urlset>'' @ newline))"

definition render_robots :: "app_settings \<Rightarrow> pystr" where
  "render_robots cfg =
     concat (map (\<lambda>l. l @ newline)
       [u ''User-agent: *'', u ''Allow: /ru/'', u ''Allow: /en/'', u ''Allow: /sitemap.xml'', u ''Disallow: /api/'',
        u ''Disallow: /login'', u ''Disallow: /how-this-site-is-built'', u ''Disallow: /updates'', u ''Disallow: /articles'',
        u ''Disallow: /competency-matrix'', u ''Disallow: /competency'', u ''Disallow: /sitemap'',
        u ''Sitemap: '' @ get_url cfg (u ''/sitemap.xml'')])"

section \<open>Endpoints\<close>

definition sitemap :: "app_settings \<Rightarrow> api \<Rightarrow> ('q, pystr) handler" where
  "sitemap cfg c =
     bind (on_database (list_published_articles_for_seo (ax_search c))) (\<lambda>as.
     bind (on_database list_published_items_for_seo) (\<lambda>its.
     lift (render_sitemap cfg (build_urls as its))))"

definition robots :: "app_settings \<Rightarrow> ('q, pystr) handler" where
  "robots cfg = ret (render_robots cfg)"

end
