(* ===== verification/Discovery_Properties.thy ===== *)
theory Discovery_Properties
  imports Discovery
begin

text \<open>
  The sitemap read back: the addresses between its \<open>loc\<close> tags, with the escaping undone, are those of the pages, of
  the published articles and of the published questions in every language.
\<close>

section \<open>Reading the sitemap back\<close>

primrec locations :: "pystr \<Rightarrow> pystr list" where
  "locations [] = []"
| "locations (c # t) =
     (if c = 60 \<and> take 4 t = u ''loc>'' then takeWhile (\<lambda>c. c \<noteq> 60) (drop 4 t) # locations t else locations t)"

fun xml_unescape :: "pystr \<Rightarrow> pystr" where
  "xml_unescape [] = []"
| "xml_unescape (c # t) =
     (if c = 38 \<and> take 4 t = u ''amp;'' then 38 # xml_unescape (drop 4 t)
      else if c = 38 \<and> take 3 t = u ''lt;'' then 60 # xml_unescape (drop 3 t)
      else if c = 38 \<and> take 3 t = u ''gt;'' then 62 # xml_unescape (drop 3 t)
      else c # xml_unescape t)"

lemma xml_escape_chars:
  "xml_escape v = concat (map (\<lambda>c. if c = 38 then u ''&amp;'' else if c = 60 then u ''&lt;'' else if c = 62 then u ''&gt;'' else [c]) v)"
  by (induction v) (simp_all add: xml_escape_def replace_char_def u_def)

lemma unescape_escape: "xml_unescape (xml_escape v) = v"
  unfolding xml_escape_chars by (induction v) (simp_all add: u_def)

lemma escape_no_tag: "60 \<notin> set (xml_escape v)" "60 \<notin> set (xml_quoteattr v)"
proof -
  show no: "60 \<notin> set (xml_escape v)" for v unfolding xml_escape_chars by (induction v) (simp_all add: u_def)
  show "60 \<notin> set (xml_quoteattr v)" using no[of v] by (auto simp: xml_quoteattr_def replace_char_def u_def)
qed

lemma locations_text [simp]: "60 \<notin> set p \<Longrightarrow> locations (p @ t) = locations t"
  by (induction p) simp_all

lemma takeWhile_text: "60 \<notin> set p \<Longrightarrow> takeWhile (\<lambda>c. c \<noteq> 60) (p @ 60 # t) = p"
  by (induction p) simp_all

lemma locations_loc: "60 \<notin> set e \<Longrightarrow> locations (u ''<loc>'' @ e @ 60 # t) = e # locations (60 # t)"
  by (simp add: u_def takeWhile_text)

lemma locations_alternates:
  "locations (join newline (map render_alternate vs) @ t) = locations t"
proof -
  have one: "locations (render_alternate v @ t) = locations t" for v t
    using escape_no_tag(2)[of "snd v"] by (cases "fst v") (simp_all add: render_alternate_def u_def)
  show ?thesis
  proof (induction vs arbitrary: t rule: induct_list012)
    case (3 v w vs)
    then show ?case using one[of v] by (simp add: newline_def)
  qed (simp_all add: one)
qed

lemma locations_lastmod: "locations (render_lastmod m @ t) = locations t"
  using escape_no_tag(1) by (simp add: render_lastmod_def newline_def u_def split: option.split)

lemma locations_url:
  assumes "render_url cfg url = Inr e"
  shows "locations (e @ t) = xml_escape (absolute_url cfg url) # locations t"
proof -
  obtain vs where vs: "localized_variants cfg url = Inr vs"
    using assms by (cases "localized_variants cfg url") (simp_all add: render_url_def and_then_def)
  have e: "e @ t = u ''  <url>'' @ newline @ u ''    '' @ u ''<loc>'' @ xml_escape (absolute_url cfg url) @ 60 # u ''/loc>'' @ newline
      @ join newline (map render_alternate vs) @ render_lastmod (pu_updated_at url) @ newline @ u ''  </url>'' @ t"
    using assms by (simp add: render_url_def and_then_def vs u_def)
  have "locations (e @ t) = locations (u ''<loc>'' @ xml_escape (absolute_url cfg url) @ 60 # u ''/loc>'' @ newline
      @ join newline (map render_alternate vs) @ render_lastmod (pu_updated_at url) @ newline @ u ''  </url>'' @ t)"
    unfolding e by (simp add: u_def newline_def)
  also have "\<dots> = xml_escape (absolute_url cfg url) # locations t"
    unfolding locations_loc[OF escape_no_tag(1)]
    by (simp add: newline_def locations_alternates[unfolded newline_def] locations_lastmod u_def)
  finally show ?thesis .
qed

lemma locations_urls:
  "all_or_error (map (render_url cfg) urls) = Inr es \<Longrightarrow>
     locations (join newline es @ t) = map (\<lambda>url. xml_escape (absolute_url cfg url)) urls @ locations t"
proof (induction urls arbitrary: es)
  case (Cons url urls)
  then obtain e es' where es: "es = e # es'" "render_url cfg url = Inr e" "all_or_error (map (render_url cfg) urls) = Inr es'"
    by (auto split: sum.splits)
  show ?case
  proof (cases es')
    case Nil
    then have "urls = []" using es(3) by (cases urls) (auto split: sum.splits)
    then show ?thesis using locations_url[OF es(2)] es Nil by simp
  next
    case (Cons e' es'')
    then have "join newline es @ t = e @ newline @ join newline es' @ t" using es(1) by simp
    then show ?thesis using locations_url[OF es(2)] Cons.IH[OF es(3)] \<open>es' = e' # es''\<close> by (simp add: newline_def)
  qed
qed simp

lemma sitemap_read_back:
  assumes "render_sitemap cfg urls = Inr text"
  shows "map xml_unescape (locations text) = map (absolute_url cfg) urls"
proof -
  obtain es where es: "all_or_error (map (render_url cfg) urls) = Inr es"
    using assms by (cases "all_or_error (map (render_url cfg) urls)") (simp_all add: render_sitemap_def and_then_def)
  have "locations text = locations (join newline es @ newline @ u ''</urlset>'' @ newline)"
    using assms by (auto simp: render_sitemap_def and_then_def es u_def newline_def)
  also have "\<dots> = map (\<lambda>url. xml_escape (absolute_url cfg url)) urls"
    unfolding locations_urls[OF es] by (simp add: u_def newline_def)
  finally show ?thesis by (simp add: unescape_escape)
qed

section \<open>Every address has its variants\<close>

lemma page_variant: "path_for_language \<lparr>pu_path = page_path lang path, pu_updated_at = t\<rparr> lang' = Some (page_path lang' path)"
proof -
  have "partition_at 47 (language_value lang @ 47 # path) = (language_value lang, Some path)"
    by (rule partition_at_found) (cases lang; simp add: u_def)
  then show ?thesis by (simp add: path_for_language_def after_two_separators_def page_path_def u_def)
qed

lemma page_rendered: "\<exists>e. render_url cfg \<lparr>pu_path = page_path lang path, pu_updated_at = t\<rparr> = Inr e"
  by (simp add: render_url_def localized_variants_def languages_all_def page_variant and_then_def)

lemma built_paths:
  "url \<in> set (build_urls as its) \<Longrightarrow> \<exists>lang path t. url = \<lparr>pu_path = page_path lang path, pu_updated_at = t\<rparr>"
  by (auto simp: build_urls_def)

lemma sitemap_rendered: "\<exists>text. render_sitemap cfg (build_urls as its) = Inr text"
proof -
  have "\<exists>e. render_url cfg url = Inr e" if "url \<in> set (build_urls as its)" for url
    using built_paths[OF that] page_rendered by blast
  then obtain f where "\<And>url. url \<in> set (build_urls as its) \<Longrightarrow> render_url cfg url = Inr (f url)" by metis
  then have "all_or_error (map (render_url cfg) (build_urls as its)) = Inr (map f (build_urls as its))" by (rule all_or_error_total)
  then show ?thesis by (simp add: render_sitemap_def and_then_def)
qed

section \<open>The rows of the sitemap\<close>

lemma row_domain:
  "to_domain_schema d b b' m = Inr a \<Longrightarrow> ac_slug a = am_slug m \<and> ac_publish_status a = am_publish_status m"
  by (auto simp: to_domain_schema_def split: sum.splits)

lemma article_rows:
  assumes inv: "content_inv d"
  shows "\<exists>as. list_published_articles_for_seo ops d = (Inr as, d)
    \<and> set (map ps_slug as) = {am_slug m | m. m \<in> set (articles d) \<and> am_publish_status m = PUBLISHED}
    \<and> length as = length (filter (\<lambda>m. am_publish_status m = PUBLISHED) (articles d))
    \<and> (\<forall>a \<in> set as. ps_publish_status a = PUBLISHED)"
proof -
  let ?f = "default_filters\<lparr>af_only_published := Some True, af_include_tags := False, af_include_files := False, af_order_for_seo := True\<rparr>"
  have filters: "apply_article_filters ops d ?f = (\<lambda>m. am_publish_status m = PUBLISHED)"
    by (simp add: fun_eq_iff apply_article_filters_def default_filters_def)
  define ms where "ms = listed_rows ops ?f d"
  have ms: "set ms = {m \<in> set (articles d). am_publish_status m = PUBLISHED}"
    "length ms = length (filter (\<lambda>m. am_publish_status m = PUBLISHED) (articles d))"
    by (simp_all add: ms_def listed_rows_def filters)
  have "\<forall>m \<in> set ms. \<exists>a. to_domain_schema d False False m = Inr a" using to_domain_total[OF inv] ms(1) by blast
  then obtain g where g: "\<And>m. m \<in> set ms \<Longrightarrow> to_domain_schema d False False m = Inr (g m)" by metis
  then have all: "all_or_error (map (to_domain_schema d False False) ms) = Inr (map g ms)" by (rule all_or_error_total)
  have fields: "ac_slug (g m) = am_slug m" "is_available (g m)" "ac_publish_status (g m) = PUBLISHED" if "m \<in> set ms" for m
    using row_domain[OF g[OF that]] that ms(1) by (auto simp: is_available_def)
  have list: "list_articles ops ?f d = (Inr (map g ms, int (length ms)), d)"
    using all by (simp add: list_articles_def default_filters_def run_simps Let_def ms_def listed_rows_def)
  have run: "list_published_articles_for_seo ops d = (Inr (seo_from_articles (map g ms)), d)"
    using fields(2) by (simp add: list_published_articles_for_seo_def run_bind list run_ret filter_True)
  have "set (map ps_slug (seo_from_articles (map g ms))) = am_slug ` set ms"
    using fields(1) by (auto simp: seo_from_articles_def image_iff)
  moreover have "\<forall>a \<in> set (seo_from_articles (map g ms)). ps_publish_status a = PUBLISHED"
    using fields(3) by (auto simp: seo_from_articles_def)
  ultimately show ?thesis using run ms by (intro exI[of _ "seo_from_articles (map g ms)"]) (auto simp: seo_from_articles_def)
qed

lemma joined_domain:
  assumes inv: "matrix_inv h d" and r: "(i, su, se, sh) \<in> set (join_structure d)" and it: "item_to_domain d links i = Inr it"
  shows "mi_slug it = im_slug i" "ns_sheet_key (mi_structure it) = sh_key sh" "mi_publish_status it = im_publish_status i"
proof -
  show "mi_slug it = im_slug i" "mi_publish_status it = im_publish_status i"
    using it by (auto simp: item_to_domain_def split: sum.splits)
  have rows: "su \<in> set (subsections d)" "su_id su = im_subsection_id i" "se \<in> set (sections d)" "se_id se = su_section_id su"
    "sh \<in> set (sheets d)" "sh_id sh = se_sheet_id se"
    using r by (auto simp: join_structure_def)
  have "row_by su_id (im_subsection_id i) (subsections d) = Some su"
    using rows(1,2) structure_facts(3)[OF inv] by (simp add: row_by_Some_iff)
  then have "to_item_structure d su = Inr (mi_structure it)"
    using it by (auto simp: item_to_domain_def require_def split: sum.splits)
  then obtain se' sh' where x: "row_by se_id (su_section_id su) (sections d) = Some se'"
    "row_by sh_id (se_sheet_id se') (sheets d) = Some sh'" "ns_sheet_key (mi_structure it) = sh_key sh'"
    using structure_rows by blast
  have "se' \<in> set (sections d)" "se_id se' = se_id se" using row_by_SomeD[OF x(1)] rows(4) by simp_all
  then have "se' = se" using same_row[OF structure_facts(2)[OF inv] _ rows(3)] by blast
  moreover have "sh' \<in> set (sheets d)" "sh_id sh' = sh_id sh" using row_by_SomeD[OF x(2)] rows(6) calculation by simp_all
  then have "sh' = sh" using same_row[OF structure_facts(1)[OF inv] _ rows(5)] by blast
  ultimately show "ns_sheet_key (mi_structure it) = sh_key sh" using x(3) by simp
qed

lemma item_rows:
  assumes inv: "matrix_inv h d"
  shows "\<exists>its. list_published_items_for_seo d = (Inr its, d)
    \<and> set (map (\<lambda>i. (pi_sheet_key i, pi_slug i)) its) = {(sh_key sh, im_slug i) | i sh. i \<in> set (items d) \<and> sh \<in> set (sheets d)
        \<and> sh_id sh = im_sheet_id i \<and> im_publish_status i = PUBLISHED}
    \<and> length its = length (filter (\<lambda>i. im_publish_status i = PUBLISHED) (items d))
    \<and> (\<forall>i \<in> set its. pi_publish_status i = PUBLISHED)"
proof -
  let ?g = "\<lparr>mf_sheet_key = None, mf_only_published = Some True\<rparr>"
  let ?rows = "sort_key item_default_ordering (filter (item_filter ?g) (join_structure d))"
  have filters: "item_filter ?g = (\<lambda>r. im_publish_status (fst r) = PUBLISHED)" by (auto simp: item_filter_def fun_eq_iff)
  have "\<forall>r \<in> set ?rows. \<exists>it. item_to_domain d [] (fst r) = Inr it"
    using item_to_domain_total[OF inv joined_items[OF inv], of _ "[]"] by auto
  then obtain g where g: "\<And>r. r \<in> set ?rows \<Longrightarrow> item_to_domain d [] (fst r) = Inr (g r)" by metis
  then have "all_or_error (map (\<lambda>r. item_to_domain d [] (fst r)) ?rows) = Inr (map g ?rows)" by (rule all_or_error_total)
  then have run: "list_competency_matrix_items ?g d = (Inr (map g ?rows), d)"
    by (simp add: list_competency_matrix_items_def run_simps)
  then have "only_available (map g ?rows) = map g ?rows" using public_list_run[OF inv, of ?g] by auto
  then have seo: "list_published_items_for_seo d = (Inr (to_published_for_seo (map g ?rows)), d)"
    using run by (simp add: list_published_items_for_seo_def run_bind run_ret)
  have sub: "set ?rows = {r \<in> set (join_structure d). im_publish_status (fst r) = PUBLISHED}" by (simp add: filters)
  have fields: "mi_slug (g r) = im_slug (fst r)" "ns_sheet_key (mi_structure (g r)) = sh_key (snd (snd (snd r)))"
    "mi_publish_status (g r) = PUBLISHED" if "r \<in> set ?rows" for r
    using joined_domain[OF inv, of "fst r" "fst (snd r)" "fst (snd (snd r))" "snd (snd (snd r))" "[]" "g r"] g[OF that] that sub by auto
  have "set (map (\<lambda>i. (pi_sheet_key i, pi_slug i)) (to_published_for_seo (map g ?rows))) =
      (\<lambda>r. (sh_key (snd (snd (snd r))), im_slug (fst r))) ` set ?rows"
    using fields(1,2) by (simp add: to_published_for_seo_def image_comp comp_def del: set_sort set_filter)
  also have "\<dots> = {(sh_key sh, im_slug i) | i sh. i \<in> set (items d) \<and> sh \<in> set (sheets d)
        \<and> sh_id sh = im_sheet_id i \<and> im_publish_status i = PUBLISHED}" (is "?A = ?B")
  proof
    show "?A \<subseteq> ?B"
    proof
      fix x assume "x \<in> ?A"
      then obtain i su se sh where r: "(i, su, se, sh) \<in> set (join_structure d)" "im_publish_status i = PUBLISHED"
        "x = (sh_key sh, im_slug i)" unfolding sub by auto
      then show "x \<in> ?B" using joined_sheet[OF inv r(1)] joined_items[OF inv r(1)] by auto
    qed
    show "?B \<subseteq> ?A"
    proof
      fix x assume "x \<in> ?B"
      then obtain i sh where i: "i \<in> set (items d)" "sh \<in> set (sheets d)" "sh_id sh = im_sheet_id i" "im_publish_status i = PUBLISHED"
        "x = (sh_key sh, im_slug i)" by blast
      then obtain su se where "(i, su, se, sh) \<in> set (join_structure d)" using joined_item[OF inv] by blast
      then show "x \<in> ?A" using i(4,5) unfolding sub by (intro rev_image_eqI[of "(i, su, se, sh)"]) simp_all
    qed
  qed
  finally have keys: "set (map (\<lambda>i. (pi_sheet_key i, pi_slug i)) (to_published_for_seo (map g ?rows))) = ?B" .
  have "length ?rows = length (filter (\<lambda>i. im_publish_status i = PUBLISHED) (map fst (join_structure d)))"
    by (simp add: filters filter_map comp_def)
  then have "length (to_published_for_seo (map g ?rows)) = length (filter (\<lambda>i. im_publish_status i = PUBLISHED) (items d))"
    by (simp add: to_published_for_seo_def join_once[OF inv])
  moreover have "\<forall>i \<in> set (to_published_for_seo (map g ?rows)). pi_publish_status i = PUBLISHED"
    using fields(3) by (auto simp: to_published_for_seo_def)
  ultimately show ?thesis using seo keys by (intro exI[of _ "to_published_for_seo (map g ?rows)"]) blast
qed

section \<open>The sitemap is complete\<close>

definition public_paths :: "db \<Rightarrow> pystr set" where
  "public_paths d =
     set static_pages
     \<union> {article_path (am_slug m) | m. m \<in> set (articles d) \<and> am_publish_status m = PUBLISHED}
     \<union> {question_path (sh_key sh) (im_slug i) | i sh. i \<in> set (items d) \<and> sh \<in> set (sheets d)
          \<and> sh_id sh = im_sheet_id i \<and> im_publish_status i = PUBLISHED}"

lemma built_addresses:
  assumes "\<forall>a \<in> set as. ps_publish_status a = PUBLISHED" "\<forall>i \<in> set its. pi_publish_status i = PUBLISHED"
  shows "absolute_url cfg ` set (build_urls as its) = {get_url cfg (page_path lang p) | lang p.
      p \<in> set static_pages \<union> article_path ` set (map ps_slug as)
        \<union> (\<lambda>(key, slug). question_path key slug) ` set (map (\<lambda>i. (pi_sheet_key i, pi_slug i)) its)}" (is "?A = ?B")
    and "length (build_urls as its) = 2 * (2 + length as + length its)"
proof -
  have langs: "lang \<in> set languages_all" for lang by (cases lang) (simp_all add: languages_all_def)
  have keep: "filter (\<lambda>a. ps_publish_status a = PUBLISHED) as = as" "filter (\<lambda>i. pi_publish_status i = PUBLISHED) its = its"
    using assms by (simp_all add: filter_True)
  show "?A = ?B"
  proof
    show "?A \<subseteq> ?B" unfolding build_urls_def keep absolute_url_def by fastforce
    show "?B \<subseteq> ?A"
    proof
      fix x assume "x \<in> ?B"
      then obtain lang p where x: "x = get_url cfg (page_path lang p)" and
        p: "p \<in> set static_pages \<union> article_path ` set (map ps_slug as)
          \<union> (\<lambda>(key, slug). question_path key slug) ` set (map (\<lambda>i. (pi_sheet_key i, pi_slug i)) its)" by blast
      have "\<exists>t. \<lparr>pu_path = page_path lang p, pu_updated_at = t\<rparr> \<in> set (build_urls as its)"
        using p langs[of lang] unfolding build_urls_def keep by fastforce
      then obtain t where "\<lparr>pu_path = page_path lang p, pu_updated_at = t\<rparr> \<in> set (build_urls as its)" by blast
      then show "x \<in> ?A" unfolding x by (rule rev_image_eqI) (simp add: absolute_url_def)
    qed
  qed
  show "length (build_urls as its) = 2 * (2 + length as + length its)"
    unfolding build_urls_def keep
    by (simp add: languages_all_def static_pages_def length_concat comp_def sum_list_triv)
qed

text \<open>C24: the sitemap is complete and nothing else is in it.  On a sound database the route answers with a document
  and changes nothing; the addresses between its location tags, with the escaping undone, are exactly those of the
  static pages, of the published articles and of the published questions in both languages, two for each of them; no draft
  is among them.\<close>

theorem sitemap_exact:
  assumes "content_inv (app_db a)" "matrix_inv h (app_db a)"
  shows "\<exists>document. run_endpoint c ops (sitemap cfg c) a = (Inr document, a)
    \<and> set (map xml_unescape (locations document)) = {get_url cfg (page_path lang p) | lang p. p \<in> public_paths (app_db a)}
    \<and> length (locations document) = 2 * (2 + length (filter (\<lambda>m. am_publish_status m = PUBLISHED) (articles (app_db a)))
        + length (filter (\<lambda>i. im_publish_status i = PUBLISHED) (items (app_db a))))"
proof -
  obtain as where as: "list_published_articles_for_seo (ax_search c) (app_db a) = (Inr as, app_db a)"
    "set (map ps_slug as) = {am_slug m | m. m \<in> set (articles (app_db a)) \<and> am_publish_status m = PUBLISHED}"
    "length as = length (filter (\<lambda>m. am_publish_status m = PUBLISHED) (articles (app_db a)))"
    "\<forall>x \<in> set as. ps_publish_status x = PUBLISHED"
    using article_rows[OF assms(1), of "ax_search c"] by blast
  obtain its where its: "list_published_items_for_seo (app_db a) = (Inr its, app_db a)"
    "set (map (\<lambda>i. (pi_sheet_key i, pi_slug i)) its) = {(sh_key sh, im_slug i) | i sh. i \<in> set (items (app_db a))
        \<and> sh \<in> set (sheets (app_db a)) \<and> sh_id sh = im_sheet_id i \<and> im_publish_status i = PUBLISHED}"
    "length its = length (filter (\<lambda>i. im_publish_status i = PUBLISHED) (items (app_db a)))"
    "\<forall>i \<in> set its. pi_publish_status i = PUBLISHED"
    using item_rows[OF assms(2)] by blast
  obtain document where doc: "render_sitemap cfg (build_urls as its) = Inr document" using sitemap_rendered by blast
  have run: "run_endpoint c ops (sitemap cfg c) a = (Inr document, a)"
    by (simp add: run_endpoint_def sitemap_def run_bind on_database_def on_world_def in_db_def as(1) its(1) doc run_lift
        run_post_commit_actions_def run_ret)
  have locs: "map xml_unescape (locations document) = map (absolute_url cfg) (build_urls as its)" by (rule sitemap_read_back[OF doc])
  have "article_path ` set (map ps_slug as) = {article_path (am_slug m) | m. m \<in> set (articles (app_db a)) \<and> am_publish_status m = PUBLISHED}"
    unfolding as(2) by blast
  moreover have "(\<lambda>(key, slug). question_path key slug) ` set (map (\<lambda>i. (pi_sheet_key i, pi_slug i)) its) =
      {question_path (sh_key sh) (im_slug i) | i sh. i \<in> set (items (app_db a)) \<and> sh \<in> set (sheets (app_db a))
        \<and> sh_id sh = im_sheet_id i \<and> im_publish_status i = PUBLISHED}"
    unfolding its(2) by (force simp: image_iff)
  ultimately have "set (map xml_unescape (locations document)) = {get_url cfg (page_path lang p) | lang p. p \<in> public_paths (app_db a)}"
    unfolding locs set_map built_addresses(1)[OF as(4) its(4), unfolded set_map] public_paths_def by simp
  moreover have "length (locations document) = 2 * (2 + length as + length its)"
    using arg_cong[OF locs, of length] built_addresses(2)[OF as(4) its(4)] by simp
  ultimately show ?thesis using run as(3) its(3) by auto
qed

definition published_app :: "(unit, pystr \<rightharpoonup> response \<times> int option) app" where
  "published_app = sample_app\<lparr>ap_world := \<lparr>w_db = sample_matrix\<lparr>files := files sample_db, folders := folders sample_db,
     tags := tags sample_db, articles := articles sample_db, tag_links := tag_links sample_db,
     file_usages := file_usages sample_db\<rparr>, w_objects = Map.empty\<rparr>\<rparr>"

definition sample_site :: app_settings where
  "sample_site = \<lparr>st_url_schema = u ''https'', st_debug = False, st_domain = u ''example.org''\<rparr>"

theorem sitemap_exact_witness:
  "\<exists>document. fst (run_endpoint sample_api memory_ops (sitemap sample_site sample_api) published_app) = Inr document
    \<and> {u ''https://example.org/ru/competency/articles/a'', u ''https://example.org/en/competency/matrix/questions/py/gil''}
        \<subseteq> set (map xml_unescape (locations document))
    \<and> length (locations document) = 8"
proof -
  let ?d = "app_db published_app"
  have "content_inv ?d = content_inv sample_db"
    by (rule inv_of_fields(1)) (simp add: article_fields_def published_app_def sample_matrix_def sample_tree_def sample_db_def empty_db_def)
  moreover have "matrix_inv (env_sha256 sample_env) ?d = matrix_inv (env_sha256 sample_env) sample_matrix"
    by (rule inv_of_fields(2)) (simp add: matrix_fields_def published_app_def)
  ultimately have "content_inv ?d" "matrix_inv (env_sha256 sample_env) ?d" using sample_db_inv sample_inv by simp_all
  from sitemap_exact[OF this, of sample_api memory_ops sample_site]
  obtain document where doc: "run_endpoint sample_api memory_ops (sitemap sample_site sample_api) published_app = (Inr document, published_app)"
    "set (map xml_unescape (locations document)) = {get_url sample_site (page_path lang p) | lang p. p \<in> public_paths ?d}"
    "length (locations document) = 2 * (2 + length (filter (\<lambda>m. am_publish_status m = PUBLISHED) (articles ?d))
        + length (filter (\<lambda>i. im_publish_status i = PUBLISHED) (items ?d)))" by blast
  have rows: "articles ?d = [sample_article]" "items ?d = [sample_item]" "sheets ?d = [sample_sheet]"
    by (simp_all add: published_app_def sample_matrix_def sample_tree_def sample_db_def)
  have "article_path (u ''a'') \<in> public_paths ?d" "question_path (u ''py'') (u ''gil'') \<in> public_paths ?d"
    by (force simp: public_paths_def rows sample_article_def sample_item_def sample_sheet_def)+
  moreover have "get_url sample_site (page_path RU (article_path (u ''a''))) = u ''https://example.org/ru/competency/articles/a''"
    "get_url sample_site (page_path EN (question_path (u ''py'') (u ''gil''))) = u ''https://example.org/en/competency/matrix/questions/py/gil''"
    by (simp_all add: get_url_def base_url_def page_path_def article_path_def question_path_def sample_site_def removeprefix_def u_def)
  ultimately have "{u ''https://example.org/ru/competency/articles/a'', u ''https://example.org/en/competency/matrix/questions/py/gil''}
        \<subseteq> set (map xml_unescape (locations document))" unfolding doc(2) by (simp, metis)
  moreover have "length (locations document) = 8" using doc(3) by (simp add: rows sample_article_def sample_item_def)
  ultimately show ?thesis using doc(1) by simp
qed

end
