(* ===== verification/Contacts.thy ===== *)
theory Contacts
  imports Api_Validation
begin

text \<open>
  The contact form: the request of \<open>api/contacts/schemas.py\<close> with its validators, the use case, and the table of
  \<open>infra/postgresql/models/contacts.py\<close> with the lengths of its columns.  No other part reads or writes that table,
  so its rows are a state of their own.
\<close>

section \<open>Requests\<close>

record contact_me =
  co_id :: pystr
  co_name :: "pystr option"
  co_email :: "pystr option"
  co_telegram :: "pystr option"
  co_message :: pystr

record contact_me_request =
  cr_name :: "pystr option"
  cr_email :: "pystr option"
  cr_telegram :: "pystr option"
  cr_message :: pystr

text \<open>The value has at least two characters when the validator sees it.\<close>

definition check_telegram :: "pystr option \<Rightarrow> error + pystr option" where
  "check_telegram v =
     (case v of
        None \<Rightarrow> Inr None
      | Some t \<Rightarrow>
          let named = (if t \<noteq> [] \<and> hd t = 64 then t else 64 # t)
          in if length named > 256 then Inl ValueError else Inr (Some named))"

definition check_contact_data_filled :: "contact_me_request \<Rightarrow> error + contact_me_request" where
  "check_contact_data_filled q =
     (if cr_name q = None \<and> cr_email q = None \<and> cr_telegram q = None then Inl ValueError else Inr q)"

definition validate_contact_me_request :: "adapters \<Rightarrow> contact_me_request \<Rightarrow> error + contact_me_request" where
  "validate_contact_me_request ops q =
     and_then (optional_field (field_length 1 255) (cr_name q)) (\<lambda>name.
     and_then (optional_email_string ops (cr_email q)) (\<lambda>email.
     and_then (and_then (optional_field (field_length 2 256) (cr_telegram q)) (after_validator check_telegram)) (\<lambda>telegram.
     and_then (field_length 1 10000 (cr_message q)) (\<lambda>message.
     after_validator check_contact_data_filled
       \<lparr>cr_name = name, cr_email = email, cr_telegram = telegram, cr_message = message\<rparr>))))"

definition contact_to_schema :: "contact_me_request \<Rightarrow> pystr \<Rightarrow> contact_me" where
  "contact_to_schema q contact_id =
     \<lparr>co_id = contact_id, co_name = cr_name q, co_email = cr_email q, co_telegram = cr_telegram q, co_message = cr_message q\<rparr>"

section \<open>Storage and endpoint\<close>

text \<open>PostgreSQL refuses a text that is longer than its column, and an identifier that is there.\<close>

definition contact_columns_fit :: "contact_me \<Rightarrow> bool" where
  "contact_columns_fit r \<longleftrightarrow>
     length (co_id r) \<le> 32 \<and> pred_option (\<lambda>t. length t \<le> 255) (co_name r)
     \<and> pred_option (\<lambda>t. length t \<le> 255) (co_email r) \<and> pred_option (\<lambda>t. length t \<le> 256) (co_telegram r)"

definition storage_create_contact_me_request :: "contact_me \<Rightarrow> (error, contact_me list, unit) action" where
  "storage_create_contact_me_request form =
     bind (gets (\<lambda>rows. rows)) (\<lambda>rows.
     if \<not> contact_columns_fit form then raise (DataError (u ''contact_me''))
     else if co_id form \<in> co_id ` set rows then raise (IntegrityError PrimaryKey)
     else modify (\<lambda>rows. rows @ [form]))"

definition create_contact_me_request :: "contact_me \<Rightarrow> (error, contact_me list, unit) action" where
  "create_contact_me_request form = storage_create_contact_me_request form"

definition contact_me_endpoint :: "adapters \<Rightarrow> bool \<Rightarrow> pystr \<Rightarrow> contact_me_request \<Rightarrow> (error, contact_me list, unit) action" where
  "contact_me_endpoint ops enabled contact_id body =
     bind (lift (validate_contact_me_request ops body)) (\<lambda>data.
     if \<not> enabled then ret () else create_contact_me_request (contact_to_schema data contact_id))"

section \<open>What is stored\<close>

definition reachable_sender :: "contact_me \<Rightarrow> bool" where
  "reachable_sender r \<longleftrightarrow>
     (co_name r \<noteq> None \<or> co_email r \<noteq> None \<or> co_telegram r \<noteq> None)
     \<and> pred_option (\<lambda>t. \<exists>x. t = 64 # x \<and> x \<noteq> []) (co_telegram r) \<and> 1 \<le> length (co_message r) \<and> length (co_message r) \<le> 10000"

lemma validated_contact:
  assumes "validate_contact_me_request ops body = Inr data" "length contact_id \<le> 32"
  shows "reachable_sender (contact_to_schema data contact_id)" "contact_columns_fit (contact_to_schema data contact_id)"
proof -
  have email: "length e \<le> 254" if "optional_email_string ops v = Inr (Some e)" for v e
    using that length_strip[of "the v"]
    by (auto simp: optional_email_string_def optional_field_def field_length_def after_validator_def validate_optional_email_def
        and_then_def email_max_length_def split: option.splits sum.splits if_splits)
  have telegram: "length t \<le> 256 \<and> (\<exists>x. t = 64 # x \<and> x \<noteq> [])"
    if "and_then (optional_field (field_length 2 256) v) (after_validator check_telegram) = Inr (Some t)" for v t
    using that
    by (cases v; cases "the v")
       (auto simp: optional_field_def field_length_def after_validator_def check_telegram_def and_then_def Let_def
        split: option.splits sum.splits if_splits)
  obtain name em te ms where data: "data = \<lparr>cr_name = name, cr_email = em, cr_telegram = te, cr_message = ms\<rparr>"
    and name: "optional_field (field_length 1 255) (cr_name body) = Inr name"
    and em: "optional_email_string ops (cr_email body) = Inr em"
    and te: "and_then (optional_field (field_length 2 256) (cr_telegram body)) (after_validator check_telegram) = Inr te"
    and ms: "field_length 1 10000 (cr_message body) = Inr ms" and filled: "name \<noteq> None \<or> em \<noteq> None \<or> te \<noteq> None"
    using assms(1)
    by (auto simp: validate_contact_me_request_def and_then_def after_validator_def check_contact_data_filled_def
        split: sum.splits if_splits)
  have lengths: "pred_option (\<lambda>t. length t \<le> 255) name" "1 \<le> length ms" "length ms \<le> 10000"
    using name ms
    by (cases "cr_name body"; auto simp: optional_field_def field_length_def and_then_def split: if_splits sum.splits)+
  have "pred_option (\<lambda>t. length t \<le> 255) em" using email[of "cr_email body"] em by (cases em) fastforce+
  moreover have "pred_option (\<lambda>t. length t \<le> 256) te" "pred_option (\<lambda>t. \<exists>x. t = 64 # x \<and> x \<noteq> []) te"
    using telegram[of "cr_telegram body"] te by (cases te; fastforce)+
  ultimately show "reachable_sender (contact_to_schema data contact_id)" "contact_columns_fit (contact_to_schema data contact_id)"
    using assms(2) lengths filled by (simp_all add: data reachable_sender_def contact_columns_fit_def contact_to_schema_def)
qed

text \<open>A message is stored exactly when contact requests are enabled and its body is valid; then its row names a way to
  answer, telegram names begin with their sign, and the database accepts it.  Otherwise nothing is stored.\<close>

theorem contact_request_stored:
  assumes "length contact_id \<le> 32" "contact_id \<notin> co_id ` set rows"
  shows "contact_me_endpoint ops enabled contact_id body rows =
    (case validate_contact_me_request ops body of
       Inl e \<Rightarrow> (Inl e, rows)
     | Inr data \<Rightarrow> (Inr (), if enabled then rows @ [contact_to_schema data contact_id] else rows))"
    and "\<forall>r \<in> set (snd (contact_me_endpoint ops enabled contact_id body rows)) - set rows. reachable_sender r"
proof -
  show run: "contact_me_endpoint ops enabled contact_id body rows =
    (case validate_contact_me_request ops body of
       Inl e \<Rightarrow> (Inl e, rows)
     | Inr data \<Rightarrow> (Inr (), if enabled then rows @ [contact_to_schema data contact_id] else rows))"
    using validated_contact(2)[OF _ assms(1)] assms(2)
    by (auto simp: contact_me_endpoint_def create_contact_me_request_def storage_create_contact_me_request_def run_simps
        contact_to_schema_def split: sum.splits)
  show "\<forall>r \<in> set (snd (contact_me_endpoint ops enabled contact_id body rows)) - set rows. reachable_sender r"
    unfolding run using validated_contact(1)[OF _ assms(1)] by (auto split: sum.splits)
qed

end
