(* ===== verification/Spec2Isabelle.thy ===== *)
theory Spec2Isabelle
  imports Article_Properties Article_Analytics Matrix_Properties Import_Properties Workspace_Properties Cache_Properties
    Cache_Tools_Properties Cache_Transparency Api_Answers Visit_Properties Discovery_Properties Contacts
begin

text \<open>
  Verification of the competency trainer API: a Litestar service over PostgreSQL, an S3 object store and
  Valkey that publishes articles and a matrix of interview questions, collects suggestions for questions,
  counts visits, takes contact messages, lists itself for search engines and caches its public responses.

  \<^bold>\<open>The program and its parts.\<close>
  The source is layered.  \<open>core/\<close> holds the domain: schemas (frozen data classes), use cases and services,
  and abstract storages.  \<open>infra/\<close> implements the storages: SQLAlchemy models and queries, the S3 client, image
  processing, the Valkey scripts.  \<open>entrypoints/litestar\<close> is the HTTP API: pydantic schemas that validate requests
  and shape responses, and controllers that open a session, call a use case, register the invalidation of the
  cache and answer.  \<open>entrypoints/taskiq\<close> runs background tasks: the warming of the cache and the cleanup of
  orphaned files.  A request runs in one transaction; an exception rolls the database back, a success commits
  it and then runs the actions that were registered for after the commit.

  \<^bold>\<open>How the state is modelled.\<close>
  Texts are lists of code points (\<open>pystr\<close>, written \<open>u ''...''\<close>), Python's integers are \<open>int\<close>, timestamps
  are microseconds since the epoch, dates are days since the epoch.  A table is a list of rows (a \<open>record\<close> with
  the columns of the model class), the database is the record \<open>db\<close> of all tables, the \<open>world\<close> adds the object
  store and the \<open>session\<close> the quota store and the actions for after the commit.  Code that reads and writes is an
  action \<open>'s \<Rightarrow> (error + 'a) \<times> 's\<close>, composed by \<open>bind\<close>; every exception of the source is a constructor of
  \<open>error\<close>, so each early return and each raise is a branch of the model.

  \<^bold>\<open>The theories.\<close>
  \<^item> \<open>Prelude\<close>: Python's strings and dictionaries, actions and their rules, the locale \<open>machine\<close> of step relations
    with an invariant.
  \<^item> \<open>Identity\<close>: \<open>core/enums.py\<close>, \<open>core/identity.py\<close>, the exceptions of all components, the permission to
    publish.
  \<^item> \<open>Database\<close>: \<open>infra/postgresql/models\<close> as records, the environment of a request and the constraints of
    the schema that the code can violate.
  \<^item> \<open>Files\<close>: \<open>core/files\<close>, \<open>infra/files\<close>, \<open>infra/s3\<close> and the file storage; uploads with rules, names and
    processing, deletion, and \<open>FileOrphanCleanupService\<close>.
  \<^item> \<open>Ordering\<close>: the priorities of sibling rows; a locale interpreted for folders, sheets, sections and
    subsections.
  \<^item> \<open>Articles\<close>, \<open>Articles_Invariant\<close>, \<open>Article_Properties\<close>: \<open>core/articles\<close> with its storage; use cases on
    articles, folders and tags, their invariant, and who may change what.
  \<^item> \<open>Analytics\<close>, \<open>Article_Analytics\<close>, \<open>Quota\<close>: receipts and counters of visits, reports, views and reactions of
    articles, and the daily limit of suggestions over two Valkey commands.
  \<^item> \<open>Matrix\<close>, \<open>Matrix_Invariant\<close>, \<open>Matrix_Items\<close>, \<open>Matrix_Properties\<close>: \<open>core/competency_matrix\<close> with its
    storage; the structure of sheets, sections and subsections, questions with resources, the queue.
  \<^item> \<open>Text_Formats\<close>, \<open>Matrix_Import\<close>, \<open>Import_Properties\<close>: UTF-8, Python's CSV reader, the parsers of
    uploaded question files, previews and the import of selected rows.
  \<^item> \<open>Matrix_Workspace\<close>, \<open>Workspace_Properties\<close>: the public list, the workspace of the editors with filters,
    orders, pages and summary, and \<open>core/wiki_links\<close>.
  \<^item> \<open>Timestamps\<close>, \<open>Calendar\<close>: ISO texts of dates and times; they determine what they were written from.
  \<^item> \<open>Api_Validation\<close>, \<open>Api_Articles\<close>, \<open>Api_Matrix\<close>, \<open>Api_Analytics\<close>, \<open>Api_Endpoints\<close>: the field types, the
    request and response schemas and every endpoint of articles, matrix, files, wiki links and site analytics.
  \<^item> \<open>Response_Cache\<close>, \<open>Cache_Warm\<close>: \<open>entrypoints/litestar/response_cache.py\<close>, the actions after a commit and
    \<open>entrypoints/taskiq/cache_warm\<close>; the whole application is the record \<open>app\<close>.
  \<^item> \<open>Timestamp_Parsing\<close>, \<open>Json\<close>: \<open>datetime.fromisoformat\<close> on the texts of \<open>isoformat\<close>, and Python's JSON
    writer and reader for integers, texts, lists and objects; both are read back.
  \<^item> \<open>Cache_Tools\<close>, \<open>Cache_Tools_Properties\<close>: \<open>core/cache_tools\<close>, its storages in \<open>infra/valkey/storages.py\<close>,
    the tasks and the endpoints of the administration: status, clearing and manual warmings.
  \<^item> \<open>Api_Types\<close>, \<open>Api_Shown\<close>: the form of the stored rows, which validated requests give and all use cases keep,
    and the responses that are built from such rows.
  \<^item> \<open>Api_Errors\<close>, \<open>Api_Answers\<close>: \<open>entrypoints/litestar/exception_handlers.py\<close>, and what a public route answers in
    every reachable state.
  \<^item> \<open>Visit_Properties\<close>: the requests to record a visit, from their bodies to the counters.
  \<^item> \<open>Discovery\<close>, \<open>Discovery_Properties\<close>: \<open>entrypoints/litestar/public\<close>, the sitemap and \<open>robots.txt\<close>.
  \<^item> \<open>Contacts\<close>: the contact form from its request to its table.
  \<^item> \<open>Api_Frames\<close>, \<open>Cache_Views\<close>, \<open>Cache_Coherence\<close>, \<open>Cache_Keys\<close>, \<open>Cache_Properties\<close>, \<open>Cache_Transparency\<close>: what each
    use case leaves alone, what each public answer is computed from, that each endpoint keeps the view of a cache domain or
    invalidates it, that keys tell requests apart, and that no cached answer is outdated.

  \<^bold>\<open>What the theorems show.\<close>
  \<^item> Caching: after any interleaving of requests, tasks, clearing and expiry a cached route answers what its
    endpoint answers on the current database; the list and the detail of questions may answer instead what the warming
    of the matrix, where it runs, writes for the current database.  What the warming writes for articles is what the
    public endpoints answer, and for questions it is not (a finding).
  \<^item> Safety of content: without the permission to publish no operation changes what is published; public reads
    show published content only; the cleanup deletes only files that no article uses.
  \<^item> Invariants over histories of requests: published questions are complete and found under their slug, counters
    equal the receipts, first publication dates never change.
  \<^item> Answers: in every reachable state a public route answers what is published and says of everything else that it is
    not found; the sitemap lists exactly what is published.
  \<^item> Types: in every reachable state the stored texts have the form that the request schemas declare, so no read
    fails with a validation error of its own response.
  \<^item> Termination and liveness: the scan of a cache domain ends and counts every key once, unless a reply
    of the server repeats a key (a finding); every manual warming is
    settled once the workers have emptied the queue.
  \<^item> Exact behaviour: deletions, moves from the queue, reorderings, reactions, selections of imported rows either
    do exactly what was asked or leave the database unchanged; pages partition their list, those of articles when the
    columns of the order tell the articles apart; summaries, reports and statistics add up.
  \<^item> Round trips: created articles and questions are read back with all they were created with, text files and, in the
    dialect that they are read in, CSV files are imported as they were written, file markers are found again in a text.
  \<^item> Divergences: theorems that prove the findings (the last second of the quota, the filter for complete
    questions, the warming of the matrix, the slug that is taken), and lemmas for two more: \<open>tied_articles_repeat\<close> (equal
    articles on two pages) and \<open>repeated_key_counted_twice\<close> (a key that one reply of \<open>SCAN\<close> repeats).

  \<^bold>\<open>Interfaces.\<close>
  Each is a locale, interpreted on the model: \<open>machine\<close> (step relations), \<open>counter_table\<close> (upserted counters),
  the ordered siblings, \<open>valkey\<close> (\<open>INCR\<close> and \<open>EXPIRE\<close>), \<open>kv_store\<close>, \<open>response_store\<close> and
  \<open>operation_store\<close> (the stores of the framework, of responses and of the records of warmings), and \<open>scan_server\<close>
  (\<open>SCAN\<close> and \<open>TTL\<close>).

  \<^bold>\<open>Parameters for code outside the repository.\<close>
  The record \<open>env\<close> has the clock, the generated identifiers, SHA-256 and HMAC, how calls to the object store
  fail and the guesses of media types; \<open>search_ops\<close> is PostgreSQL's full text search and its choice between articles
  that are equal in all columns of an order, which may differ from query to query, \<open>image_ops\<close> Pillow,
  \<open>import_ops\<close> the CSV sniffer and openpyxl, \<open>adapters\<close> pydantic's URL and email checks, \<open>valkey_ops\<close> and
  \<open>store_ops\<close> the servers.  Where a theorem relies on one, it is a hypothesis with a witness: for example that the keyed hash of
  different clients differs, or the laws of \<open>kv_store\<close>.  \<open>serve\<close> is the documented behaviour of a route with
  \<open>cache=\<close>: look up the key, else call the handler and store the response for the configured time.

  \<^bold>\<open>Bounds.\<close>
  Loops over rows are structural recursion, the scanners of texts recurse on what is left of the text.  The JSON
  reader has fuel, the length of the text plus one: each value takes at least one character, and \<open>loads_dumps\<close> shows that
  it is enough.  The scan of keys may go on for ever, as the code's loop may, and is a \<open>partial_function\<close> whose end
  \<open>domain_status_exact\<close> proves.
  Dates are those of Python's calendar where a text of a date is read
  (\<open>valid_date\<close>).  Texts in an \<open>ORDER BY\<close> compare by code points, the collation \<open>C\<close>; upper and lower case are those of the
  Latin, Latin-1 and Cyrillic letters.  Nothing is assumed of the dialect that the CSV sniffer reports nor of repetitions in
  the replies of \<open>SCAN\<close>.  A request and a background task are atomic steps: interleavings inside a transaction are left to
  PostgreSQL's isolation and are not modelled: a response that a request
  computes before a change and stores after the invalidation of the change is outside the model.

  \<^bold>\<open>Not modelled.\<close>
  The searches of tags and resources by trigrams are queries whose result is PostgreSQL's similarity.  The guards of
  the routes, the sessions of users and the rendering of exceptions belong to the authentication library, to Litestar
  and to \<open>verbose_http_exceptions\<close>.  The health checks are one round trip to each server, and the monitoring of slow
  queries writes log lines.  Pillow, openpyxl and the CSV sniffer are parameters.  The migrations are DDL that runs once; the schema they end in
  is \<open>db\<close>.  The wiring of providers, the settings and the OpenAPI texts have no behaviour of their own, and the query plan
  tooling measures a seeded database outside the program.  JSON numbers with a fraction do not occur in the
  records that are written and are not read.
\<close>

end
